(* ===== verification/GoStrings.thy ===== *)
theory GoStrings
  imports Prelude
begin

text \<open>
  The functions of Go's \<open>strings\<close> and \<open>strconv\<close> packages that the program calls,
  on byte strings: a Go \<open>string\<close> is a sequence of bytes, here a \<open>char list\<close>, and
  \<open>len\<close> is its number of bytes. Space is Unicode's \<open>White_Space\<close>, as
  \<open>unicode.IsSpace\<close> has it, in its UTF-8 encodings.
\<close>

section \<open>White space\<close>

text \<open>The UTF-8 encodings of the runes \<open>unicode.IsSpace\<close> accepts.\<close>

definition bytes :: "nat list \<Rightarrow> string" where
  "bytes ns = map char_of ns"

definition space_encodings :: "string list" where
  "space_encodings =
     map bytes
       ([[9], [10], [11], [12], [13], [32], [194, 133], [194, 160], [225, 154, 128]]
        @ map (\<lambda>b. [226, 128, b]) [128, 129, 130, 131, 132, 133, 134, 135, 136, 137, 138]
        @ [[226, 128, 168], [226, 128, 169], [226, 128, 175], [226, 129, 159], [227, 128, 128]])"

text \<open>The same list, already in characters, for evaluation.\<close>

lemma space_encodings_chars [code]:
  "space_encodings =
     [[CHR 0x09],
      [CHR 0x0A],
      [CHR 0x0B],
      [CHR 0x0C],
      [CHR 0x0D],
      [CHR 0x20],
      [CHR 0xC2, CHR 0x85],
      [CHR 0xC2, CHR 0xA0],
      [CHR 0xE1, CHR 0x9A, CHR 0x80],
      [CHR 0xE2, CHR 0x80, CHR 0x80],
      [CHR 0xE2, CHR 0x80, CHR 0x81],
      [CHR 0xE2, CHR 0x80, CHR 0x82],
      [CHR 0xE2, CHR 0x80, CHR 0x83],
      [CHR 0xE2, CHR 0x80, CHR 0x84],
      [CHR 0xE2, CHR 0x80, CHR 0x85],
      [CHR 0xE2, CHR 0x80, CHR 0x86],
      [CHR 0xE2, CHR 0x80, CHR 0x87],
      [CHR 0xE2, CHR 0x80, CHR 0x88],
      [CHR 0xE2, CHR 0x80, CHR 0x89],
      [CHR 0xE2, CHR 0x80, CHR 0x8A],
      [CHR 0xE2, CHR 0x80, CHR 0xA8],
      [CHR 0xE2, CHR 0x80, CHR 0xA9],
      [CHR 0xE2, CHR 0x80, CHR 0xAF],
      [CHR 0xE2, CHR 0x81, CHR 0x9F],
      [CHR 0xE3, CHR 0x80, CHR 0x80]]"
  by code_simp

fun starts_with :: "string \<Rightarrow> string \<Rightarrow> bool" where
  "starts_with [] s = True"
| "starts_with (p # ps) [] = False"
| "starts_with (p # ps) (c # cs) = (p = c \<and> starts_with ps cs)"

text \<open>How many bytes of a space rune \<open>s\<close> begins with, 0 for none.\<close>

definition space_len :: "string \<Rightarrow> nat" where
  "space_len s = (case find (\<lambda>p. starts_with p s) space_encodings of None \<Rightarrow> 0 | Some p \<Rightarrow> length p)"

function trim_left :: "string \<Rightarrow> string" where
  "trim_left s =
     (if s = [] \<or> space_len s = 0 then s else trim_left (drop (space_len s) s))"
  by pat_completeness auto
termination by (relation "measure length") auto

declare trim_left.simps [simp del]

text \<open>
  The same from the right end: the reversed string is trimmed of the reversed encodings.
  A byte sequence that ends with the encoding of a rune has that rune as its last one.
\<close>

definition space_len_rev :: "string \<Rightarrow> nat" where
  "space_len_rev s =
     (case find (\<lambda>p. starts_with p s) (map rev space_encodings) of None \<Rightarrow> 0 | Some p \<Rightarrow> length p)"

function trim_left_rev :: "string \<Rightarrow> string" where
  "trim_left_rev s =
     (if s = [] \<or> space_len_rev s = 0 then s else trim_left_rev (drop (space_len_rev s) s))"
  by pat_completeness auto
termination by (relation "measure length") auto

declare trim_left_rev.simps [simp del]

text \<open>\<open>strings.TrimSpace\<close>\<close>

definition trim_space :: "string \<Rightarrow> string" where
  "trim_space s = rev (trim_left_rev (rev (trim_left s)))"

text \<open>\<open>strings.Fields\<close>: the maximal runs of bytes that belong to no space rune.\<close>

function fields_from :: "string \<Rightarrow> string \<Rightarrow> string list" where
  "fields_from cur s =
     (case s of
        [] \<Rightarrow> (if cur = [] then [] else [rev cur])
      | c # cs \<Rightarrow>
          (if space_len s = 0 then fields_from (c # cur) cs
           else (if cur = [] then [] else [rev cur]) @ fields_from [] (drop (space_len s) s)))"
  by pat_completeness auto
termination by (relation "measure (\<lambda>(cur, s). length s)") auto

declare fields_from.simps [simp del]

definition str_fields :: "string \<Rightarrow> string list" where
  "str_fields s = fields_from [] s"

section \<open>Splitting\<close>

text \<open>\<open>strings.Index(s, string(c))\<close> for a one-byte separator, as an option.\<close>

fun index_byte :: "char \<Rightarrow> string \<Rightarrow> nat option" where
  "index_byte c [] = None"
| "index_byte c (x # xs) = (if x = c then Some 0 else map_option Suc (index_byte c xs))"

text \<open>\<open>strings.Cut(s, sep)\<close> for a one-byte separator: before, after, found.\<close>

definition cut :: "char \<Rightarrow> string \<Rightarrow> string \<times> string \<times> bool" where
  "cut c s = (case index_byte c s of
                None \<Rightarrow> (s, [], False)
              | Some i \<Rightarrow> (take i s, drop (Suc i) s, True))"

text \<open>\<open>strings.Split(s, sep)\<close> for a one-byte separator.\<close>

fun split_on :: "char \<Rightarrow> string \<Rightarrow> string list" where
  "split_on c [] = [[]]"
| "split_on c (x # xs) =
     (if x = c then [] # split_on c xs
      else (case split_on c xs of [] \<Rightarrow> [[x]] | w # ws \<Rightarrow> (x # w) # ws))"

text \<open>\<open>strings.Join\<close>\<close>

fun join :: "string \<Rightarrow> string list \<Rightarrow> string" where
  "join sep [] = []"
| "join sep [w] = w"
| "join sep (w # v # ws) = w @ sep @ join sep (v # ws)"

definition has_suffix :: "string \<Rightarrow> string \<Rightarrow> bool" where
  "has_suffix s suf = starts_with (rev suf) (rev s)"

fun contains_sub :: "string \<Rightarrow> string \<Rightarrow> bool" where
  "contains_sub [] sub = (sub = [])"
| "contains_sub (c # cs) sub = (starts_with sub (c # cs) \<or> contains_sub cs sub)"

section \<open>Case\<close>

definition is_upper :: "char \<Rightarrow> bool" where
  "is_upper c = (CHR ''A'' \<le> c \<and> c \<le> CHR ''Z'')"

definition is_lower :: "char \<Rightarrow> bool" where
  "is_lower c = (CHR ''a'' \<le> c \<and> c \<le> CHR ''z'')"

definition is_digit :: "char \<Rightarrow> bool" where
  "is_digit c = (CHR ''0'' \<le> c \<and> c \<le> CHR ''9'')"

definition lower_char :: "char \<Rightarrow> char" where
  "lower_char c = (if is_upper c then char_of (of_char c + 32 :: nat) else c)"

text \<open>
  \<open>strings.ToLower\<close>, on ASCII letters and on the two other runes whose lower case is
  an ASCII letter (U+0130 and U+212A). Other letters beyond ASCII are left as they are:
  their lower case is again beyond ASCII, so a comparison with an ASCII word comes out
  the same.
\<close>

fun to_lower :: "string \<Rightarrow> string" where
  "to_lower [] = []"
| "to_lower (c # cs) =
     (if c = char_of (196::nat) \<and> take 1 cs = bytes [176] then CHR ''i'' # to_lower (drop 1 cs)
      else if c = char_of (226::nat) \<and> take 2 cs = bytes [132, 170] then CHR ''k'' # to_lower (drop 2 cs)
      else lower_char c # to_lower cs)"

section \<open>Numbers\<close>

definition digit_val :: "char \<Rightarrow> int" where
  "digit_val c = int (of_char c) - 48"

fun digits_val :: "int \<Rightarrow> string \<Rightarrow> int option" where
  "digits_val acc [] = Some acc"
| "digits_val acc (c # cs) = (if is_digit c then digits_val (10 * acc + digit_val c) cs else None)"

abbreviation max_int64 :: int where "max_int64 \<equiv> 9223372036854775807"
abbreviation min_int64 :: int where "min_int64 \<equiv> -9223372036854775808"

text \<open>
  \<open>strconv.Atoi\<close>: an optional sign and at least one decimal digit, in the range of a
  64-bit \<open>int\<close>; None is the error, syntax or range.
\<close>

definition atoi_digits :: "string \<Rightarrow> int option" where
  "atoi_digits s = (if s = [] then None else digits_val 0 s)"

definition atoi :: "string \<Rightarrow> int option" where
  "atoi s =
     (let signed = (case s of c # cs \<Rightarrow> c = CHR ''-'' \<or> c = CHR ''+'' | [] \<Rightarrow> False);
          neg = (case s of c # cs \<Rightarrow> c = CHR ''-'' | [] \<Rightarrow> False)
      in case atoi_digits (if signed then tl s else s) of
           None \<Rightarrow> None
         | Some n \<Rightarrow>
             (let v = (if neg then - n else n)
              in if min_int64 \<le> v \<and> v \<le> max_int64 then Some v else None))"

text \<open>The wrap-around of Go's 64-bit \<open>int\<close> arithmetic.\<close>

definition wrap64 :: "int \<Rightarrow> int" where
  "wrap64 n = (n + 9223372036854775808) mod 18446744073709551616 - 9223372036854775808"

lemma wrap64_eval [code]:
  "wrap64 n = (if min_int64 \<le> n \<and> n \<le> max_int64 then n
     else (n + 9223372036854775808) mod 18446744073709551616 - 9223372036854775808)"
  by (auto simp: wrap64_def)

text \<open>Decimal rendering (\<open>%d\<close>, \<open>strconv.Itoa\<close>) of a non-negative number.\<close>

definition digit_char :: "nat \<Rightarrow> char" where
  "digit_char d = char_of (48 + d)"

fun nat_to_string :: "nat \<Rightarrow> string" where
  "nat_to_string n =
     (if n < 10 then [digit_char n] else nat_to_string (n div 10) @ [digit_char (n mod 10)])"

declare nat_to_string.simps [simp del]

section \<open>Lemmas\<close>

subsection \<open>Trimming\<close>

lemma starts_with_iff: "starts_with p s \<longleftrightarrow> (\<exists>t. s = p @ t)"
  by (induction p s rule: starts_with.induct) auto

lemma starts_with_take: "starts_with p (take n s) \<Longrightarrow> starts_with p s"
  unfolding starts_with_iff by (metis append.assoc append_take_drop_id)

lemma space_encodings_nonempty: "\<forall>p\<in>set space_encodings. p \<noteq> []"
  by (simp add: space_encodings_def bytes_def)

lemma space_len_0_iff: "space_len s = 0 \<longleftrightarrow> (\<forall>p\<in>set space_encodings. \<not> starts_with p s)"
proof (cases "find (\<lambda>p. starts_with p s) space_encodings")
  case None
  moreover from None have "\<forall>p\<in>set space_encodings. \<not> starts_with p s"
    unfolding find_None_iff by blast
  ultimately show ?thesis by (simp add: space_len_def)
next
  case (Some p)
  then have "p \<in> set space_encodings \<and> starts_with p s" by (rule find_Some_in)
  with Some space_encodings_nonempty show ?thesis by (auto simp: space_len_def)
qed

lemma no_space_take: "space_len s = 0 \<Longrightarrow> space_len (take n s) = 0"
  by (auto simp: space_len_0_iff dest: starts_with_take)

lemma space_len_trim_left: "space_len (trim_left s) = 0 \<or> trim_left s = []"
  by (induction s rule: trim_left.induct) (subst (1 2) trim_left.simps, simp)

lemma space_len_rev_trim_left_rev: "space_len_rev (trim_left_rev s) = 0 \<or> trim_left_rev s = []"
  by (induction s rule: trim_left_rev.induct) (subst (1 2) trim_left_rev.simps, simp)

lemma trim_left_id: "space_len s = 0 \<or> s = [] \<Longrightarrow> trim_left s = s"
  by (subst trim_left.simps) auto

lemma trim_left_rev_id: "space_len_rev s = 0 \<or> s = [] \<Longrightarrow> trim_left_rev s = s"
  by (subst trim_left_rev.simps) auto

lemma trim_left_rev_suffix: "\<exists>n. trim_left_rev s = drop n s"
proof (induction s rule: trim_left_rev.induct)
  case (1 s)
  show ?case
  proof (cases "s = [] \<or> space_len_rev s = 0")
    case True
    then show ?thesis by (subst trim_left_rev.simps) (metis drop0)
  next
    case False
    with 1 obtain n where "trim_left_rev (drop (space_len_rev s) s) = drop n (drop (space_len_rev s) s)"
      by blast
    with False show ?thesis by (subst trim_left_rev.simps) (metis drop_drop)
  qed
qed

lemma space_len_Nil [simp]: "space_len [] = 0"
  by (auto simp: space_len_def space_encodings_def bytes_def)

theorem trim_space_idem [simp]: "trim_space (trim_space s) = trim_space s"
proof -
  obtain n where n: "trim_left_rev (rev (trim_left s)) = drop n (rev (trim_left s))"
    using trim_left_rev_suffix by blast
  have t: "trim_space s = take (length (trim_left s) - n) (trim_left s)"
    by (simp add: trim_space_def n rev_drop)
  have "space_len (trim_space s) = 0"
    using space_len_trim_left [of s] no_space_take [of "trim_left s"] by (auto simp: t)
  then have "trim_left (trim_space s) = trim_space s" by (simp add: trim_left_id)
  moreover have "trim_left_rev (rev (trim_space s)) = rev (trim_space s)"
    using space_len_rev_trim_left_rev [of "rev (trim_left s)"]
    by (auto simp: trim_space_def intro: trim_left_rev_id)
  ultimately show ?thesis by (simp add: trim_space_def [of "trim_space s"])
qed

subsection \<open>Cutting and splitting\<close>

lemma index_byte_None_iff [simp]: "index_byte c s = None \<longleftrightarrow> c \<notin> set s"
  by (induction s) auto

lemma index_byte_SomeD: "index_byte c s = Some i \<Longrightarrow> i < length s \<and> s ! i = c \<and> c \<notin> set (take i s)"
  by (induction s arbitrary: i) (auto split: if_splits)

lemma cut_found: "cut c s = (a, b, True) \<Longrightarrow> s = a @ c # b \<and> c \<notin> set a"
  by (auto simp: cut_def dest!: index_byte_SomeD split: option.splits)
    (metis append_take_drop_id Cons_nth_drop_Suc)

lemma cut_not_found: "cut c s = (a, b, False) \<longleftrightarrow> c \<notin> set s \<and> a = s \<and> b = []"
  by (cases "index_byte c s") (auto simp: cut_def simp flip: index_byte_None_iff)

lemma index_byte_append: "c \<notin> set a \<Longrightarrow> index_byte c (a @ c # b) = Some (length a)"
  by (induction a) auto

lemma cut_append: "c \<notin> set a \<Longrightarrow> cut c (a @ c # b) = (a, b, True)"
  by (simp add: cut_def index_byte_append)

lemma split_on_nonempty [simp]: "split_on c s \<noteq> []"
  by (induction s) (auto split: list.splits)

lemma split_on_no_sep: "c \<notin> set s \<Longrightarrow> split_on c s = [s]"
  by (induction s) auto

lemma split_on_append: "c \<notin> set a \<Longrightarrow> split_on c (a @ c # b) = a # split_on c b"
  by (induction a) auto

lemma split_on_join:
  "ws \<noteq> [] \<Longrightarrow> \<forall>w\<in>set ws. c \<notin> set w \<Longrightarrow> split_on c (join [c] ws) = ws"
  by (induction "[c]" ws rule: join.induct) (auto simp: split_on_no_sep split_on_append)

subsection \<open>Numbers\<close>

lemma digits_val_append:
  "digits_val acc (s @ t) = (case digits_val acc s of None \<Rightarrow> None | Some v \<Rightarrow> digits_val v t)"
  by (induction s arbitrary: acc) auto

lemma of_char_digit: "d < 10 \<Longrightarrow> of_char (char_of (48 + d) :: char) = (48 + d :: nat)"
  by simp

lemma is_digit_digit_char: "d < 10 \<Longrightarrow> is_digit (digit_char d)"
  by (simp add: is_digit_def digit_char_def less_eq_char_def)

lemma digit_val_digit_char: "d < 10 \<Longrightarrow> digit_val (digit_char d) = int d"
  by (simp add: digit_val_def digit_char_def)

lemma digits_val_nat_to_string: "digits_val 0 (nat_to_string n) = Some (int n)"
proof (induction n rule: nat_to_string.induct)
  case (1 n)
  show ?case
  proof (cases "n < 10")
    case True
    then show ?thesis
      by (subst nat_to_string.simps) (simp add: is_digit_digit_char digit_val_digit_char)
  next
    case False
    have "n mod 10 < 10" by simp
    with False 1 show ?thesis
      by (subst nat_to_string.simps)
        (simp add: digits_val_append is_digit_digit_char digit_val_digit_char, presburger)
  qed
qed

lemma nat_to_string_nonempty: "nat_to_string n \<noteq> []"
  by (subst nat_to_string.simps) simp

lemma hd_nat_to_string: "is_digit (hd (nat_to_string n))"
proof (induction n rule: nat_to_string.induct)
  case (1 n)
  then show ?case
    by (cases "n < 10"; subst nat_to_string.simps)
      (simp_all add: is_digit_digit_char nat_to_string_nonempty)
qed

lemma is_digit_not_sign: "is_digit c \<Longrightarrow> c \<noteq> CHR ''-'' \<and> c \<noteq> CHR ''+''"
  by (auto simp: is_digit_def less_eq_char_def)

theorem atoi_nat_to_string: "int n \<le> max_int64 \<Longrightarrow> atoi (nat_to_string n) = Some (int n)"
proof -
  assume n: "int n \<le> max_int64"
  obtain c cs where s: "nat_to_string n = c # cs"
    using nat_to_string_nonempty by (meson neq_Nil_conv)
  with hd_nat_to_string [of n] is_digit_not_sign [of c]
  have "c \<noteq> CHR ''-''" and "c \<noteq> CHR ''+''" by auto
  with s n digits_val_nat_to_string [of n] show ?thesis
    by (simp add: atoi_def atoi_digits_def)
qed

lemma atoi_range: "atoi s = Some v \<Longrightarrow> min_int64 \<le> v \<and> v \<le> max_int64"
  by (auto simp: atoi_def Let_def split: option.splits if_splits)

lemma wrap64_id: "min_int64 \<le> n \<Longrightarrow> n \<le> max_int64 \<Longrightarrow> wrap64 n = n"
  by (simp add: wrap64_def)

lemma wrap64_range: "min_int64 \<le> wrap64 n \<and> wrap64 n \<le> max_int64"
proof -
  have "0 \<le> (n + 9223372036854775808) mod 18446744073709551616"
    and "(n + 9223372036854775808) mod 18446744073709551616 < 18446744073709551616"
    by simp_all
  then show ?thesis unfolding wrap64_def by linarith
qed

text \<open>Strings that begin and end with visible ASCII characters are left as they are.\<close>

definition visible :: "char \<Rightarrow> bool" where
  "visible c \<longleftrightarrow> 32 < (of_char c :: nat) \<and> (of_char c :: nat) < 128"

lemma space_ends_invisible:
  "list_all (\<lambda>p. p \<noteq> [] \<and> \<not> visible (hd p) \<and> \<not> visible (last p)) space_encodings"
  by code_simp

lemma starts_with_hd: "starts_with p s \<Longrightarrow> p \<noteq> [] \<Longrightarrow> s \<noteq> [] \<and> hd s = hd p"
  by (cases p; cases s) auto

lemma space_len_visible: "visible (hd s) \<Longrightarrow> space_len s = 0"
  using space_ends_invisible by (auto simp: space_len_0_iff list_all_iff dest!: starts_with_hd)

lemma space_len_rev_visible:
  assumes "visible (hd s)"
  shows "space_len_rev s = 0"
proof -
  have "\<not> starts_with p s" if "p \<in> set (map rev space_encodings)" for p
    using that space_ends_invisible assms by (auto simp: list_all_iff hd_rev dest!: starts_with_hd)
  then have "find (\<lambda>p. starts_with p s) (map rev space_encodings) = None" by (simp add: find_None_iff)
  then show ?thesis by (simp add: space_len_rev_def)
qed

lemma trim_space_visible:
  assumes "visible (hd s)" "visible (last s)"
  shows "trim_space s = s"
  using assms space_len_visible [of s] space_len_rev_visible [of "rev s"]
  by (cases "s = []") (simp_all add: trim_space_def trim_left_id trim_left_rev_id hd_rev)

end
