(* ===== verification/Labels.thy ===== *)
theory Labels
  imports GoStrings
begin

text \<open>
  \<open>internal/labels\<close>, first part: the label data type with its validation
  (\<open>label.go\<close>) and the colour allow-list (\<open>style.go\<close>). The reasons of
  \<open>ErrInvalid\<close> include those of the selector parser, which is in Selector.
\<close>

section \<open>Labels and their validation (\<open>label.go\<close>)\<close>

definition reserved_prefix :: string where
  "reserved_prefix = ''system-wrangler.io/''"

definition max_segment_len :: nat where "max_segment_len = 63"
definition max_key_len :: nat where "max_key_len = 253"
definition max_value_len :: nat where "max_value_len = 63"

datatype segment_kind = SegKey | SegKeyPrefix | SegValue

datatype token_kind = KIdent | KEq | KNotEq | KBang | KComma | KLParen | KRParen

datatype label_reason =
    KeyRequired
  | KeyTooLong
  | ValueTooLong
  | SegEmpty segment_kind
  | SegTooLong segment_kind
  | SegIllegal segment_kind char
  | UnexpectedChar char nat
  | Expected token_kind
  | ExpectedKeyAfterBang
  | ExpectedKey token_kind
  | ExpectedOperator token_kind
  | ExpectedInNotin string
  | ExpectedValue token_kind
  | ExpectedListValue token_kind
  | EmptyRequirement
  | UnterminatedList
  | EmptyValueList
  | SystemIdRequired

text \<open>The package's sentinel errors; \<open>ErrInvalid\<close> carries the wrapped reason.\<close>

datatype label_error =
    LabelInvalid label_reason
  | LabelReserved
  | LabelNotFound
  | LabelConflict
  | LabelBackend

text \<open>\<open>Value\<close> is a pointer: None is the bare tag, \<open>Some []\<close> the empty value.\<close>

record label =
  lkey :: string
  lvalue :: "string option"

definition segment_char :: "char \<Rightarrow> bool" where
  "segment_char c =
     (is_lower c \<or> is_upper c \<or> is_digit c \<or> c = CHR ''.'' \<or> c = CHR ''_'' \<or> c = CHR ''-'')"

definition validate_segment :: "segment_kind \<Rightarrow> string \<Rightarrow> (label_error, unit) result" where
  "validate_segment k s =
     (if s = [] then Inl (LabelInvalid (SegEmpty k))
      else if length s > max_segment_len then Inl (LabelInvalid (SegTooLong k))
      else (case find (\<lambda>c. \<not> segment_char c) s of
              Some c \<Rightarrow> Inl (LabelInvalid (SegIllegal k c))
            | None \<Rightarrow> Inr ()))"

definition validate_key :: "string \<Rightarrow> bool \<Rightarrow> (label_error, unit) result" where
  "validate_key key allow_reserved =
     (if key = [] then Inl (LabelInvalid KeyRequired)
      else if length key > max_key_len then Inl (LabelInvalid KeyTooLong)
      else
        (case cut (CHR ''/'') key of
           (prefix, name, has_prefix) \<Rightarrow>
             if \<not> has_prefix then validate_segment SegKey prefix
             else if \<not> allow_reserved \<and> starts_with reserved_prefix key then Inl LabelReserved
             else rbind (validate_segment SegKeyPrefix prefix)
                    (\<lambda>_. validate_segment SegKey name)))"

definition validate_value :: "string option \<Rightarrow> (label_error, unit) result" where
  "validate_value value =
     (case value of
        None \<Rightarrow> Inr ()
      | Some v \<Rightarrow>
          if length v > max_value_len then Inl (LabelInvalid ValueTooLong)
          else if v = [] then Inr ()
          else validate_segment SegValue v)"

text \<open>\<open>style.go\<close>: the closed set of chip colours.\<close>

definition allowed_colors :: "string list" where
  "allowed_colors =
     [''blue'', ''teal'', ''green'', ''orange'', ''purple'',
      ''red'', ''orangered'', ''grey'', ''yellow'']"

datatype color_error = ErrInvalidColor string

definition validate_color :: "string \<Rightarrow> (color_error, unit) result" where
  "validate_color color = (if color \<in> set allowed_colors then Inr () else Inl (ErrInvalidColor color))"

section \<open>Lemmas\<close>

lemma find_None_all: "find p xs = None \<longleftrightarrow> (\<forall>x\<in>set xs. \<not> p x)"
  by (induction xs) auto

lemma validate_segment_ok:
  "validate_segment k s = Inr () \<longleftrightarrow>
     s \<noteq> [] \<and> length s \<le> max_segment_len \<and> (\<forall>c\<in>set s. segment_char c)"
  by (auto simp: validate_segment_def find_None_all split: option.splits dest: find_Some_in)

text \<open>What one segment of a key has to be.\<close>

definition segment_ok :: "string \<Rightarrow> bool" where
  "segment_ok s = (s \<noteq> [] \<and> length s \<le> 63 \<and> (\<forall>c\<in>set s. segment_char c))"

lemma validate_segment_iff: "validate_segment k s = Inr () \<longleftrightarrow> segment_ok s"
  by (simp add: validate_segment_ok segment_ok_def max_segment_len_def)

lemma slash_not_segment_char: "\<not> segment_char (CHR ''/'')"
  by (simp add: segment_char_def is_lower_def is_upper_def is_digit_def less_eq_char_def)

lemma segment_ok_no_slash: "segment_ok s \<Longrightarrow> CHR ''/'' \<notin> set s"
  using slash_not_segment_char by (auto simp: segment_ok_def)

lemma reserved_has_slash: "starts_with reserved_prefix key \<Longrightarrow> CHR ''/'' \<in> set key"
  by (auto simp: starts_with_iff reserved_prefix_def)

lemma validate_key_iff:
  "validate_key key allow = Inr () \<longleftrightarrow>
     (segment_ok key \<or>
      (\<exists>prefix name. key = prefix @ ''/'' @ name \<and> segment_ok prefix \<and> segment_ok name \<and>
         (allow \<or> \<not> starts_with reserved_prefix key)))"
proof (cases "CHR ''/'' \<in> set key")
  case False
  then have "cut (CHR ''/'') key = (key, [], False)" by (simp add: cut_not_found)
  moreover have "segment_ok key \<Longrightarrow> key \<noteq> [] \<and> length key \<le> max_key_len"
    by (auto simp: segment_ok_def max_key_len_def)
  ultimately show ?thesis
    using False by (auto simp: validate_key_def validate_segment_iff)
next
  case True
  then obtain a b where ab: "key = a @ CHR ''/'' # b" "CHR ''/'' \<notin> set a"
    by (metis split_list_first)
  then have "cut (CHR ''/'') key = (a, b, True)" by (simp add: cut_append)
  moreover have "segment_ok a \<and> segment_ok b \<Longrightarrow> length key \<le> max_key_len"
    by (auto simp: segment_ok_def max_key_len_def ab(1))
  ultimately have "validate_key key allow = Inr () \<longleftrightarrow>
      segment_ok a \<and> segment_ok b \<and> (allow \<or> \<not> starts_with reserved_prefix key)"
    using ab(1) by (auto simp: validate_key_def validate_segment_iff)
  moreover have "\<not> segment_ok key" using True segment_ok_no_slash by blast
  moreover have "key = p @ CHR ''/'' # n \<and> segment_ok p \<and> segment_ok n \<longleftrightarrow>
      p = a \<and> n = b \<and> segment_ok a \<and> segment_ok b" for p n
    using ab segment_ok_no_slash by (metis cut_append prod.inject)
  ultimately show ?thesis by auto
qed

lemma validate_value_ok:
  "validate_value (Some v) = Inr () \<longleftrightarrow> v = [] \<or> segment_ok v"
  by (auto simp: validate_value_def validate_segment_iff segment_ok_def max_value_len_def)

text \<open>
  \<open>ValidateKey\<close> accepts exactly the keys of the documented grammar: one segment, or
  a prefix segment and a name segment around a single slash, each of 1 to 63 characters
  of the label alphabet; without the internal flag the reserved prefix is refused. The
  cap of 253 characters never decides.
\<close>

theorem validate_key_grammar:
  "validate_key key allow = Inr () \<longleftrightarrow>
     (segment_ok key \<or>
      (\<exists>prefix name. key = prefix @ ''/'' @ name \<and> segment_ok prefix \<and> segment_ok name \<and>
         \<not> (\<not> allow \<and> starts_with reserved_prefix key)))"
  by (simp add: validate_key_iff)

end
