(* ===== verification/Selector.thy ===== *)
theory Selector
  imports Labels
begin

text \<open>
  \<open>internal/labels/selector.go\<close>: tokenizer, recursive-descent parser, in-memory
  matching, and the translation to SQL with its meaning on the rows of
  \<open>system_labels\<close>.
\<close>

section \<open>Selectors (\<open>selector.go\<close>)\<close>

subsection \<open>Syntax and in-memory matching\<close>

datatype sel_op = OpHas | OpNotHas | OpEq | OpNotEq | OpIn | OpNotIn

record requirement =
  rop :: sel_op
  rkey :: string
  rvalues :: "string list"

type_synonym selector = "requirement list"

text \<open>\<open>byKey\<close>: later labels overwrite earlier ones with the same key.\<close>

fun by_key :: "label list \<Rightarrow> (string \<rightharpoonup> string option)" where
  "by_key [] = Map.empty"
| "by_key (l # ls) = (\<lambda>k. case by_key ls k of Some v \<Rightarrow> Some v
                            | None \<Rightarrow> if k = lkey l then Some (lvalue l) else None)"

text \<open>
  \<open>Requirement.matches\<close>. The read \<open>r.Values[0]\<close> panics on an empty slice: the result
  is None there.
\<close>

definition first_value :: "requirement \<Rightarrow> string option" where
  "first_value r = (case rvalues r of [] \<Rightarrow> None | v # _ \<Rightarrow> Some v)"

definition req_matches :: "requirement \<Rightarrow> (string \<rightharpoonup> string option) \<Rightarrow> bool option" where
  "req_matches r m =
     (case rop r of
        OpHas \<Rightarrow> Some (m (rkey r) \<noteq> None)
      | OpNotHas \<Rightarrow> Some (m (rkey r) = None)
      | OpEq \<Rightarrow> (case m (rkey r) of
                   Some (Some v) \<Rightarrow> map_option (\<lambda>w. v = w) (first_value r)
                 | _ \<Rightarrow> Some False)
      | OpNotEq \<Rightarrow> (case m (rkey r) of
                   Some (Some v) \<Rightarrow> map_option (\<lambda>w. v \<noteq> w) (first_value r)
                 | _ \<Rightarrow> Some True)
      | OpIn \<Rightarrow> (case m (rkey r) of
                   Some (Some v) \<Rightarrow> Some (v \<in> set (rvalues r))
                 | _ \<Rightarrow> Some False)
      | OpNotIn \<Rightarrow> (case m (rkey r) of
                   Some (Some v) \<Rightarrow> Some (v \<notin> set (rvalues r))
                 | _ \<Rightarrow> Some True))"

fun reqs_match :: "selector \<Rightarrow> (string \<rightharpoonup> string option) \<Rightarrow> bool option" where
  "reqs_match [] m = Some True"
| "reqs_match (r # rs) m =
     (case req_matches r m of
        None \<Rightarrow> None
      | Some False \<Rightarrow> Some False
      | Some True \<Rightarrow> reqs_match rs m)"

definition sel_matches :: "selector \<Rightarrow> label list \<Rightarrow> bool option" where
  "sel_matches sel ls = reqs_match sel (by_key ls)"

subsection \<open>Tokenizer\<close>

record token =
  tok_kind :: token_kind
  tok_text :: string

definition tok :: "token_kind \<Rightarrow> token" where
  "tok k = \<lparr>tok_kind = k, tok_text = []\<rparr>"

definition ident :: "string \<Rightarrow> token" where
  "ident s = \<lparr>tok_kind = KIdent, tok_text = s\<rparr>"

definition is_ident_byte :: "char \<Rightarrow> bool" where
  "is_ident_byte c =
     (is_lower c \<or> is_upper c \<or> is_digit c \<or>
      c = CHR ''.'' \<or> c = CHR ''_'' \<or> c = CHR ''-'' \<or> c = CHR ''/'')"

definition sel_space :: "char \<Rightarrow> bool" where
  "sel_space c = (c = CHR '' '' \<or> c = CHR 0x09 \<or> c = CHR 0x0A \<or> c = CHR 0x0D)"

text \<open>
  One turn of the loop at offset \<open>i\<close>, on the bytes \<open>c # cs\<close> from there on: the token
  appended, if any, and how far \<open>i\<close> advances.
\<close>

definition lex_step :: "nat \<Rightarrow> char \<Rightarrow> string \<Rightarrow> (label_error, token option \<times> nat) result" where
  "lex_step i c cs =
     (if sel_space c then Inr (None, 1)
      else if c = CHR '','' then Inr (Some (tok KComma), 1)
      else if c = CHR ''('' then Inr (Some (tok KLParen), 1)
      else if c = CHR '')'' then Inr (Some (tok KRParen), 1)
      else if c = CHR ''='' then Inr (Some (tok KEq), 1)
      else if c = CHR ''!'' then
        (if take 1 cs = ''='' then Inr (Some (tok KNotEq), 2) else Inr (Some (tok KBang), 1))
      else if is_ident_byte c then
        Inr (Some (ident (takeWhile is_ident_byte (c # cs))), length (takeWhile is_ident_byte (c # cs)))
      else Inl (LabelInvalid (UnexpectedChar c i)))"

lemma lex_step_advances: "lex_step i c cs = Inr (t, n) \<Longrightarrow> 0 < n"
  by (auto simp: lex_step_def split: if_splits)

function tokenize_from :: "nat \<Rightarrow> string \<Rightarrow> (label_error, token list) result" where
  "tokenize_from i s =
     (case s of
        [] \<Rightarrow> Inr []
      | c # cs \<Rightarrow>
          (case lex_step i c cs of
             Inl e \<Rightarrow> Inl e
           | Inr (t, n) \<Rightarrow>
               rbind (tokenize_from (i + n) (drop n s))
                 (\<lambda>ts. Inr (case t of None \<Rightarrow> ts | Some t' \<Rightarrow> t' # ts))))"
  by pat_completeness auto
termination
  by (relation "measure (\<lambda>(i, s). length s)") (auto dest: lex_step_advances)

declare tokenize_from.simps [simp del]

definition tokenize :: "string \<Rightarrow> (label_error, token list) result" where
  "tokenize s = tokenize_from 0 s"

subsection \<open>Parser\<close>

text \<open>
  The parser's state is the list of tokens from \<open>pos\<close> on; \<open>eof\<close> is the empty list.
  \<open>peek\<close> and \<open>next\<close> index the slice without a check, so at the end they panic:
  \<open>SelPanic\<close>.
\<close>

datatype sel_error = SelErr label_error | SelPanic

abbreviation sel_invalid :: "label_reason \<Rightarrow> (sel_error, 'a) result" where
  "sel_invalid r \<equiv> Inl (SelErr (LabelInvalid r))"

definition expect :: "token_kind \<Rightarrow> token list \<Rightarrow> (sel_error, token list) result" where
  "expect k ts = (case ts of
                    [] \<Rightarrow> sel_invalid (Expected k)
                  | t # ts' \<Rightarrow> if tok_kind t \<noteq> k then sel_invalid (Expected k) else Inr ts')"

definition parse_value :: "token list \<Rightarrow> (sel_error, string \<times> token list) result" where
  "parse_value ts =
     (case ts of
        [] \<Rightarrow> rbind (map_err SelErr (validate_value (Some []))) (\<lambda>_. Inr ([], ts))
      | t # ts' \<Rightarrow>
          if tok_kind t = KComma
          then rbind (map_err SelErr (validate_value (Some []))) (\<lambda>_. Inr ([], ts))
          else if tok_kind t \<noteq> KIdent then sel_invalid (ExpectedValue (tok_kind t))
          else rbind (map_err SelErr (validate_value (Some (tok_text t)))) (\<lambda>_. Inr (tok_text t, ts')))"

definition parse_list_value :: "token list \<Rightarrow> (sel_error, string \<times> token list) result" where
  "parse_list_value ts =
     (case ts of
        [] \<Rightarrow> Inl SelPanic
      | t # ts' \<Rightarrow>
          if tok_kind t = KComma \<or> tok_kind t = KRParen
          then rbind (map_err SelErr (validate_value (Some []))) (\<lambda>_. Inr ([], ts))
          else if tok_kind t \<noteq> KIdent then sel_invalid (ExpectedListValue (tok_kind t))
          else rbind (map_err SelErr (validate_value (Some (tok_text t)))) (\<lambda>_. Inr (tok_text t, ts')))"

lemma parse_list_value_length [simp]:
  "parse_list_value ts = Inr (v, ts') \<Longrightarrow> length ts' \<le> length ts"
  by (auto simp: parse_list_value_def split: list.splits if_splits)

text \<open>The loop of \<open>parseValueList\<close> after the opening parenthesis.\<close>

function parse_list_loop :: "token list \<Rightarrow> string list \<Rightarrow> (sel_error, string list \<times> token list) result" where
  "parse_list_loop ts out =
     (case ts of
        [] \<Rightarrow> Inl SelPanic
      | t # _ \<Rightarrow>
          if tok_kind t = KRParen then sel_invalid EmptyValueList
          else
            (case parse_list_value ts of
               Inl e \<Rightarrow> Inl e
             | Inr (v, rest) \<Rightarrow>
                 (case rest of
                    [] \<Rightarrow> sel_invalid UnterminatedList
                  | t' # rest' \<Rightarrow>
                      if tok_kind t' = KRParen then Inr (out @ [v], rest')
                      else if tok_kind t' = KComma then parse_list_loop rest' (out @ [v])
                      else sel_invalid (Expected KComma))))"
  by pat_completeness auto
termination
  by (relation "measure (\<lambda>(ts, out). length ts)") (auto dest!: parse_list_value_length)

declare parse_list_loop.simps [simp del]

definition parse_value_list :: "token list \<Rightarrow> (sel_error, string list \<times> token list) result" where
  "parse_value_list ts =
     rbind (expect KLParen ts)
       (\<lambda>ts'. if ts' = [] then sel_invalid UnterminatedList else parse_list_loop ts' [])"

definition parse_requirement :: "token list \<Rightarrow> (sel_error, requirement \<times> token list) result" where
  "parse_requirement ts =
     (case ts of
        [] \<Rightarrow> sel_invalid EmptyRequirement
      | t # ts1 \<Rightarrow>
          if tok_kind t = KBang then
            (case ts1 of
               [] \<Rightarrow> sel_invalid ExpectedKeyAfterBang
             | k # ts2 \<Rightarrow>
                 if tok_kind k \<noteq> KIdent then sel_invalid ExpectedKeyAfterBang
                 else rbind (map_err SelErr (validate_key (tok_text k) True))
                        (\<lambda>_. Inr (\<lparr>rop = OpNotHas, rkey = tok_text k, rvalues = []\<rparr>, ts2)))
          else if tok_kind t \<noteq> KIdent then sel_invalid (ExpectedKey (tok_kind t))
          else
            rbind (map_err SelErr (validate_key (tok_text t) True))
              (\<lambda>_. case ts1 of
                 [] \<Rightarrow> Inr (\<lparr>rop = OpHas, rkey = tok_text t, rvalues = []\<rparr>, ts1)
               | u # ts2 \<Rightarrow>
                   (case tok_kind u of
                      KComma \<Rightarrow> Inr (\<lparr>rop = OpHas, rkey = tok_text t, rvalues = []\<rparr>, ts1)
                    | KEq \<Rightarrow> rbind (parse_value ts2)
                        (\<lambda>(v, ts3). Inr (\<lparr>rop = OpEq, rkey = tok_text t, rvalues = [v]\<rparr>, ts3))
                    | KNotEq \<Rightarrow> rbind (parse_value ts2)
                        (\<lambda>(v, ts3). Inr (\<lparr>rop = OpNotEq, rkey = tok_text t, rvalues = [v]\<rparr>, ts3))
                    | KIdent \<Rightarrow>
                        if tok_text u = ''in'' then rbind (parse_value_list ts2)
                          (\<lambda>(vs, ts3). Inr (\<lparr>rop = OpIn, rkey = tok_text t, rvalues = vs\<rparr>, ts3))
                        else if tok_text u = ''notin'' then rbind (parse_value_list ts2)
                          (\<lambda>(vs, ts3). Inr (\<lparr>rop = OpNotIn, rkey = tok_text t, rvalues = vs\<rparr>, ts3))
                        else sel_invalid (ExpectedInNotin (tok_text u))
                    | k \<Rightarrow> sel_invalid (ExpectedOperator k))))"

lemma parse_value_length: "parse_value ts = Inr (v, ts') \<Longrightarrow> length ts' \<le> length ts"
  by (auto simp: parse_value_def split: list.splits if_splits)

text \<open>How an iteration of the loop succeeds: the list ends here, or a comma follows.\<close>

lemma parse_list_loop_cases:
  assumes "parse_list_loop ts out = Inr (vs, ts')"
  obtains (last) v t' where "parse_list_value ts = Inr (v, t' # ts')" and "tok_kind t' = KRParen"
      and "vs = out @ [v]"
    | (more) v t' rest where "parse_list_value ts = Inr (v, t' # rest)" and "tok_kind t' = KComma"
      and "parse_list_loop rest (out @ [v]) = Inr (vs, ts')"
proof (cases "parse_list_value ts")
  case (Inl e)
  with assms show thesis
    by (subst (asm) parse_list_loop.simps) (auto split: list.splits if_splits)
next
  case (Inr p)
  obtain v rest where p: "p = (v, rest)" by fastforce
  have eq: "parse_list_loop ts out =
      (case ts of [] \<Rightarrow> Inl SelPanic | t # _ \<Rightarrow>
         if tok_kind t = KRParen then sel_invalid EmptyValueList
         else (case rest of [] \<Rightarrow> sel_invalid UnterminatedList
               | t' # rest' \<Rightarrow>
                   if tok_kind t' = KRParen then Inr (out @ [v], rest')
                   else if tok_kind t' = KComma then parse_list_loop rest' (out @ [v])
                   else sel_invalid (Expected KComma)))"
    by (subst parse_list_loop.simps) (simp add: Inr p split: list.split)
  show thesis
  proof (cases rest)
    case Nil
    with assms eq show thesis by (auto split: list.splits if_splits)
  next
    case (Cons t' rest')
    with assms eq have
      "tok_kind t' = KRParen \<and> vs = out @ [v] \<and> ts' = rest' \<or>
       tok_kind t' = KComma \<and> parse_list_loop rest' (out @ [v]) = Inr (vs, ts')"
      by (auto split: list.splits if_splits)
    with Inr p Cons last more show thesis by blast
  qed
qed

lemma parse_list_loop_length: "parse_list_loop ts out = Inr (vs, ts') \<Longrightarrow> length ts' < length ts"
proof (induction "length ts" arbitrary: ts out rule: less_induct)
  case less
  from less.prems show ?case
  proof (cases rule: parse_list_loop_cases)
    case (last v t')
    then show ?thesis using parse_list_value_length by fastforce
  next
    case (more v t' rest)
    then have "length rest < length ts" using parse_list_value_length by fastforce
    with less.hyps more show ?thesis by fastforce
  qed
qed

lemma expect_length: "expect k ts = Inr ts' \<Longrightarrow> length ts' < length ts"
  by (auto simp: expect_def split: list.splits if_splits)

lemma parse_value_list_length: "parse_value_list ts = Inr (vs, ts') \<Longrightarrow> length ts' < length ts"
  by (auto simp: parse_value_list_def split: if_splits dest!: expect_length parse_list_loop_length)

lemma parse_requirement_length: "parse_requirement ts = Inr (r, ts') \<Longrightarrow> length ts' < length ts"
proof (cases ts)
  case (Cons t ts1)
  assume r: "parse_requirement ts = Inr (r, ts')"
  show ?thesis
  proof (cases ts1)
    case Nil
    with r Cons show ?thesis by (auto simp: parse_requirement_def split: if_splits)
  next
    case (Cons u ts2)
    with r \<open>ts = t # ts1\<close> show ?thesis
      by (cases "tok_kind u")
        (auto simp: parse_requirement_def split: if_splits
          dest: parse_value_length parse_value_list_length)
  qed
qed (simp add: parse_requirement_def)

text \<open>The loop of \<open>ParseSelector\<close>: requirements separated by commas.\<close>

function parse_loop :: "token list \<Rightarrow> selector \<Rightarrow> (sel_error, selector) result" where
  "parse_loop ts out =
     (case parse_requirement ts of
        Inl e \<Rightarrow> Inl e
      | Inr (r, rest) \<Rightarrow>
          (case rest of
             [] \<Rightarrow> Inr (out @ [r])
           | t # rest' \<Rightarrow>
               if tok_kind t \<noteq> KComma then sel_invalid (Expected KComma)
               else parse_loop rest' (out @ [r])))"
  by pat_completeness auto
termination
  by (relation "measure (\<lambda>(ts, out). length ts)") (auto dest!: parse_requirement_length)

declare parse_loop.simps [simp del]

definition parse_selector :: "string \<Rightarrow> (sel_error, selector) result" where
  "parse_selector s =
     rbind (map_err SelErr (tokenize s)) (\<lambda>ts. if ts = [] then Inr [] else parse_loop ts [])"

subsection \<open>Translation to SQL\<close>

text \<open>
  \<open>Requirement.sql\<close> produces one of these conditions; \<open>cond_sql\<close> is its text and its
  arguments, as the code builds them. \<open>cond_holds\<close> is the meaning of a condition
  on the rows of \<open>system_labels\<close> (a comparison with a NULL value is not true).
\<close>

datatype value_filter = AnyValue | ValueEq string | ValueIn "string list"

record sql_cond =
  c_negated :: bool
  c_key :: string
  c_filter :: value_filter

record label_row =
  row_system :: string
  row_key :: string
  row_value :: "string option"

text \<open>
  The condition of a requirement; None where the code panics: \<open>r.Values[0]\<close> and
  \<open>placeholders[:len(placeholders)-1]\<close> on an empty slice.
\<close>

definition req_cond :: "requirement \<Rightarrow> sql_cond option" where
  "req_cond r =
     (case rop r of
        OpHas \<Rightarrow> Some \<lparr>c_negated = False, c_key = rkey r, c_filter = AnyValue\<rparr>
      | OpNotHas \<Rightarrow> Some \<lparr>c_negated = True, c_key = rkey r, c_filter = AnyValue\<rparr>
      | OpEq \<Rightarrow> map_option (\<lambda>v. \<lparr>c_negated = False, c_key = rkey r, c_filter = ValueEq v\<rparr>) (first_value r)
      | OpNotEq \<Rightarrow> map_option (\<lambda>v. \<lparr>c_negated = True, c_key = rkey r, c_filter = ValueEq v\<rparr>) (first_value r)
      | OpIn \<Rightarrow> (if rvalues r = [] then None
                 else Some \<lparr>c_negated = False, c_key = rkey r, c_filter = ValueIn (rvalues r)\<rparr>)
      | OpNotIn \<Rightarrow> (if rvalues r = [] then None
                 else Some \<lparr>c_negated = True, c_key = rkey r, c_filter = ValueIn (rvalues r)\<rparr>))"

definition cond_sql :: "string \<Rightarrow> sql_cond \<Rightarrow> string \<times> string list" where
  "cond_sql id_expr c =
     (let pre = (if c_negated c then ''NOT EXISTS'' else ''EXISTS'')
              @ '' (SELECT 1 FROM system_labels WHERE system_id = '' @ id_expr @ '' AND key = ?''
      in case c_filter c of
           AnyValue \<Rightarrow> (pre @ '')'', [c_key c])
         | ValueEq v \<Rightarrow> (pre @ '' AND value = ?)'', [c_key c, v])
         | ValueIn vs \<Rightarrow>
             (pre @ '' AND value IN ('' @ join '','' (map (\<lambda>_. ''?'') vs) @ ''))'', c_key c # vs))"

fun req_conds :: "selector \<Rightarrow> sql_cond list option" where
  "req_conds [] = Some []"
| "req_conds (r # rs) =
     (case (req_cond r, req_conds rs) of
        (Some c, Some cs) \<Rightarrow> Some (c # cs)
      | _ \<Rightarrow> None)"

text \<open>\<open>Selector.SQL\<close>: the fragment and the arguments, in order; empty for no requirement.\<close>

definition sel_sql :: "string \<Rightarrow> selector \<Rightarrow> (string \<times> string list) option" where
  "sel_sql id_expr sel =
     map_option
       (\<lambda>cs. (join '' AND '' (map (fst \<circ> cond_sql id_expr) cs),
              concat (map (snd \<circ> cond_sql id_expr) cs)))
       (req_conds sel)"

fun filter_holds :: "value_filter \<Rightarrow> string option \<Rightarrow> bool" where
  "filter_holds AnyValue v = True"
| "filter_holds (ValueEq w) v = (v = Some w)"
| "filter_holds (ValueIn ws) v = (case v of None \<Rightarrow> False | Some w \<Rightarrow> w \<in> set ws)"

definition cond_holds :: "label_row list \<Rightarrow> string \<Rightarrow> sql_cond \<Rightarrow> bool" where
  "cond_holds rows sid c =
     (let found = list_ex (\<lambda>r. row_system r = sid \<and> row_key r = c_key c \<and>
                              filter_holds (c_filter c) (row_value r)) rows
      in if c_negated c then \<not> found else found)"

section \<open>Well-formed selectors\<close>

definition wf_requirement :: "requirement \<Rightarrow> bool" where
  "wf_requirement r =
     (validate_key (rkey r) True = Inr () \<and>
      (\<forall>v\<in>set (rvalues r). validate_value (Some v) = Inr ()) \<and>
      (case rop r of
         OpHas \<Rightarrow> rvalues r = []
       | OpNotHas \<Rightarrow> rvalues r = []
       | OpEq \<Rightarrow> length (rvalues r) = 1
       | OpNotEq \<Rightarrow> length (rvalues r) = 1
       | OpIn \<Rightarrow> rvalues r \<noteq> [] \<and> last (rvalues r) \<noteq> []
       | OpNotIn \<Rightarrow> rvalues r \<noteq> [] \<and> last (rvalues r) \<noteq> []))"

lemma validate_value_Nil [simp]: "validate_value (Some []) = Inr ()"
  by (simp add: validate_value_ok)

lemma validate_key_nonempty: "validate_key key a = Inr () \<Longrightarrow> key \<noteq> []"
  by (auto simp: validate_key_def)

lemma parse_value_valid: "parse_value ts = Inr (v, ts') \<Longrightarrow> validate_value (Some v) = Inr ()"
  by (auto simp: parse_value_def split: list.splits if_splits)

lemma parse_list_value_valid:
  "parse_list_value ts = Inr (v, ts') \<Longrightarrow> validate_value (Some v) = Inr ()"
  by (auto simp: parse_list_value_def split: list.splits if_splits)

text \<open>
  An empty value consumes no token, and it is only taken in front of a comma: the loop
  refuses a closing parenthesis in the value position.
\<close>

lemma parse_list_value_empty:
  assumes "parse_list_value ts = Inr ([], t' # ts')" and "tok_kind t' = KRParen"
    and "\<forall>t\<in>set ts. tok_kind t = KIdent \<longrightarrow> tok_text t \<noteq> []"
  shows "tok_kind (hd ts) = KRParen"
  using assms by (auto simp: parse_list_value_def split: list.splits if_splits)

text \<open>Every identifier the tokenizer produces has at least one byte, all of them legal.\<close>

definition wf_token :: "token \<Rightarrow> bool" where
  "wf_token t = (if tok_kind t = KIdent
                 then tok_text t \<noteq> [] \<and> (\<forall>c\<in>set (tok_text t). is_ident_byte c)
                 else tok_text t = [])"

lemma lex_step_wf: "lex_step i c cs = Inr (Some t, n) \<Longrightarrow> wf_token t"
  by (auto simp: lex_step_def wf_token_def tok_def ident_def split: if_splits dest: set_takeWhileD)

lemma tokenize_from_wf: "tokenize_from i s = Inr ts \<Longrightarrow> \<forall>t\<in>set ts. wf_token t"
proof (induction i s arbitrary: ts rule: tokenize_from.induct)
  case (1 i s)
  show ?case
  proof (cases s)
    case Nil
    with 1(2) show ?thesis by (subst (asm) tokenize_from.simps) simp
  next
    case (Cons c cs)
    with 1(2) obtain t n us where step: "lex_step i c cs = Inr (t, n)"
      and us: "tokenize_from (i + n) (drop n s) = Inr us"
      and ts: "ts = (case t of None \<Rightarrow> us | Some t' \<Rightarrow> t' # us)"
      by (subst (asm) tokenize_from.simps) (auto split: sum.splits)
    from 1(1) [OF Cons step refl us] lex_step_wf [of i c cs] step ts show ?thesis
      by (auto split: option.splits)
  qed
qed

lemma parse_list_value_wf:
  "parse_list_value ts = Inr (v, ts') \<Longrightarrow> \<forall>t\<in>set ts. wf_token t \<Longrightarrow>
   (\<forall>t\<in>set ts'. wf_token t) \<and> (v = [] \<longrightarrow> ts' = ts)"
  by (auto simp: parse_list_value_def wf_token_def split: list.splits if_splits)

lemma parse_value_wf:
  "parse_value ts = Inr (v, ts') \<Longrightarrow> \<forall>t\<in>set ts. wf_token t \<Longrightarrow> \<forall>t\<in>set ts'. wf_token t"
  by (auto simp: parse_value_def split: list.splits if_splits)

lemma parse_list_loop_not_rparen: "tok_kind t = KRParen \<Longrightarrow> parse_list_loop (t # ts) out = sel_invalid EmptyValueList"
  by (subst parse_list_loop.simps) simp

lemma parse_list_loop_wf:
  "parse_list_loop ts out = Inr (vs, ts') \<Longrightarrow> \<forall>t\<in>set ts. wf_token t \<Longrightarrow>
   \<forall>v\<in>set out. validate_value (Some v) = Inr () \<Longrightarrow>
   (\<forall>v\<in>set vs. validate_value (Some v) = Inr ()) \<and> vs \<noteq> [] \<and> last vs \<noteq> []
   \<and> (\<forall>t\<in>set ts'. wf_token t)"
proof (induction "length ts" arbitrary: ts out rule: less_induct)
  case less
  from less.prems(1) show ?case
  proof (cases rule: parse_list_loop_cases)
    case (last v t')
    have "v \<noteq> []"
    proof
      assume "v = []"
      with last(1) less.prems(2) have "ts = t' # ts'" using parse_list_value_wf by blast
      with less.prems(1) last(2) show False by (simp add: parse_list_loop_not_rparen)
    qed
    with last less.prems show ?thesis
      using parse_list_value_valid parse_list_value_wf by fastforce
  next
    case (more v t' rest)
    then have "length rest < length ts" using parse_list_value_length by fastforce
    moreover have "\<forall>t\<in>set rest. wf_token t"
      using more(1) less.prems(2) parse_list_value_wf by fastforce
    moreover have "\<forall>w\<in>set (out @ [v]). validate_value (Some w) = Inr ()"
      using less.prems(3) parse_list_value_valid [OF more(1)] by auto
    ultimately show ?thesis using less.hyps more(3) by blast
  qed
qed

lemma parse_value_list_wf:
  "parse_value_list ts = Inr (vs, ts') \<Longrightarrow> \<forall>t\<in>set ts. wf_token t \<Longrightarrow>
   (\<forall>v\<in>set vs. validate_value (Some v) = Inr ()) \<and> vs \<noteq> [] \<and> last vs \<noteq> []
   \<and> (\<forall>t\<in>set ts'. wf_token t)"
  by (auto simp: parse_value_list_def expect_def split: list.splits if_splits
      dest!: parse_list_loop_wf)

text \<open>How a requirement is accepted, one case per form.\<close>

lemma parse_requirement_wf:
  assumes "parse_requirement ts = Inr (r, ts')" and "\<forall>t\<in>set ts. wf_token t"
  shows "wf_requirement r \<and> (\<forall>t\<in>set ts'. wf_token t)"
proof (cases ts)
  case (Cons t ts1)
  show ?thesis
  proof (cases ts1)
    case Nil
    with assms Cons show ?thesis by (auto simp: parse_requirement_def wf_requirement_def split: if_splits)
  next
    case (Cons u ts2)
    with assms \<open>ts = t # ts1\<close> show ?thesis
      by (cases "tok_kind u")
        (auto simp: parse_requirement_def wf_requirement_def split: if_splits
          dest: parse_value_valid parse_value_wf parse_value_list_wf)
  qed
qed (use assms in \<open>simp add: parse_requirement_def\<close>)

lemma parse_loop_cases:
  assumes "parse_loop ts out = Inr sel"
  obtains (last) r where "parse_requirement ts = Inr (r, [])" and "sel = out @ [r]"
    | (more) r t rest where "parse_requirement ts = Inr (r, t # rest)" and "tok_kind t = KComma"
      and "parse_loop rest (out @ [r]) = Inr sel"
proof (cases "parse_requirement ts")
  case (Inl e)
  with assms have False by (subst (asm) parse_loop.simps) simp
  then show thesis ..
next
  case (Inr p)
  obtain r rest where p: "p = (r, rest)" by fastforce
  show thesis
  proof (cases rest)
    case Nil
    with assms Inr p have "sel = out @ [r]" by (subst (asm) parse_loop.simps) simp
    with Inr p Nil show thesis by (intro last) simp_all
  next
    case (Cons t rest')
    with assms Inr p have "tok_kind t = KComma \<and> parse_loop rest' (out @ [r]) = Inr sel"
      by (subst (asm) parse_loop.simps) (simp split: if_splits)
    with Inr p Cons show thesis by (intro more [of r t rest']) simp_all
  qed
qed

lemma parse_loop_wf:
  "parse_loop ts out = Inr sel \<Longrightarrow> \<forall>t\<in>set ts. wf_token t \<Longrightarrow> \<forall>r\<in>set out. wf_requirement r \<Longrightarrow>
   \<forall>r\<in>set sel. wf_requirement r"
proof (induction "length ts" arbitrary: ts out rule: less_induct)
  case less
  from less.prems(1) show ?case
  proof (cases rule: parse_loop_cases)
    case (last r)
    with less.prems(3) parse_requirement_wf [OF last(1) less.prems(2)] show ?thesis by simp
  next
    case (more r t rest)
    from parse_requirement_length [OF more(1)] have "length rest < length ts" by simp
    moreover from parse_requirement_wf [OF more(1) less.prems(2)]
    have "\<forall>t\<in>set rest. wf_token t" and "wf_requirement r" by simp_all
    moreover from this less.prems(3) have "\<forall>q\<in>set (out @ [r]). wf_requirement q" by simp
    ultimately show ?thesis using less.hyps more(3) by blast
  qed
qed

text \<open>
  Every requirement \<open>ParseSelector\<close> returns has a valid key, valid values and the
  number of values its operator reads: none for a presence test, exactly one for an
  equality, at least one for a set, whose last element is never the empty value.
\<close>

theorem parse_selector_wf:
  assumes "parse_selector s = Inr sel"
  shows "\<forall>r\<in>set sel. wf_requirement r"
  using assms parse_loop_wf [of _ "[]" sel] tokenize_from_wf
  by (auto simp: parse_selector_def tokenize_def split: if_splits)

lemma parse_selector_wf_witness:
  "\<exists>sel. parse_selector ''env in (prod,dev),!tier'' = Inr sel \<and> length sel = 2 \<and> (\<forall>r\<in>set sel. wf_requirement r)"
proof -
  have "case parse_selector ''env in (prod,dev),!tier'' of Inl _ \<Rightarrow> False | Inr sel \<Rightarrow> length sel = 2"
    by code_simp
  then obtain sel where s: "parse_selector ''env in (prod,dev),!tier'' = Inr sel" "length sel = 2"
    by (auto split: sum.splits)
  with parse_selector_wf [OF s(1)] show ?thesis by blast
qed

section \<open>Matching\<close>

lemma req_matches_total: "wf_requirement r \<Longrightarrow> req_matches r m \<noteq> None"
  by (auto simp: wf_requirement_def req_matches_def first_value_def length_Suc_conv
      split: sel_op.splits option.splits list.splits)

lemma reqs_match_total: "\<forall>r\<in>set sel. wf_requirement r \<Longrightarrow> reqs_match sel m \<noteq> None"
  by (induction sel) (auto split: option.splits bool.splits dest: req_matches_total)

lemma reqs_match_iff:
  "\<forall>r\<in>set sel. wf_requirement r \<Longrightarrow>
   reqs_match sel m = Some (\<forall>r\<in>set sel. req_matches r m = Some True)"
proof (induction sel)
  case (Cons r sel)
  then show ?case using req_matches_total [of r m]
    by (auto split: option.splits bool.splits)
qed simp

text \<open>The labels of one system, as \<open>ForSystem\<close> reads them from the table.\<close>

definition row_label :: "label_row \<Rightarrow> label" where
  "row_label r = \<lparr>lkey = row_key r, lvalue = row_value r\<rparr>"

lemma row_label_simps [simp]: "lkey (row_label r) = row_key r" "lvalue (row_label r) = row_value r"
  by (simp_all add: row_label_def)

definition labels_of :: "label_row list \<Rightarrow> string \<Rightarrow> label list" where
  "labels_of rows sid = map row_label (filter (\<lambda>r. row_system r = sid) rows)"

definition unique_rows :: "label_row list \<Rightarrow> bool" where
  "unique_rows rows = distinct (map (\<lambda>r. (row_system r, row_key r)) rows)"

lemma unique_rows_Cons:
  "unique_rows (r # rows) \<longleftrightarrow>
     (\<forall>q\<in>set rows. row_system q = row_system r \<longrightarrow> row_key q \<noteq> row_key r) \<and> unique_rows rows"
  by (simp add: unique_rows_def image_iff) metis

lemma by_key_None_iff: "by_key ls k = None \<longleftrightarrow> (\<forall>l\<in>set ls. lkey l \<noteq> k)"
  by (induction ls) (auto split: option.splits)

text \<open>
  With at most one row per system and key, a question about the row of a key is the same
  question about the entry of the map built from the labels.
\<close>

lemma row_exists_iff:
  assumes "unique_rows rows"
  shows "list_ex (\<lambda>r. row_system r = sid \<and> row_key r = k \<and> P (row_value r)) rows \<longleftrightarrow>
    (case by_key (labels_of rows sid) k of None \<Rightarrow> False | Some v \<Rightarrow> P v)"
  using assms
proof (induction rows)
  case (Cons r rows)
  then have IH: "list_ex (\<lambda>r. row_system r = sid \<and> row_key r = k \<and> P (row_value r)) rows \<longleftrightarrow>
      (case by_key (labels_of rows sid) k of None \<Rightarrow> False | Some v \<Rightarrow> P v)"
    and u: "\<forall>q\<in>set rows. row_system q = row_system r \<longrightarrow> row_key q \<noteq> row_key r"
    by (simp_all add: unique_rows_Cons)
  show ?case
  proof (cases "row_system r = sid \<and> row_key r = k")
    case True
    with u have "by_key (labels_of rows sid) k = None"
      by (auto simp: by_key_None_iff labels_of_def row_label_def)
    with True IH show ?thesis by (simp add: labels_of_def row_label_def)
  next
    case False
    with IH show ?thesis by (auto simp: labels_of_def row_label_def split: option.splits)
  qed
qed (simp add: labels_of_def)

lemma cond_holds_iff:
  assumes "unique_rows rows"
  shows "cond_holds rows sid c =
    (c_negated c \<noteq>
      (case by_key (labels_of rows sid) (c_key c) of None \<Rightarrow> False | Some v \<Rightarrow> filter_holds (c_filter c) v))"
  by (simp add: cond_holds_def Let_def row_exists_iff [OF assms, of sid _ "filter_holds (c_filter c)"])

lemma req_cond_matches:
  assumes "wf_requirement r" and "unique_rows rows"
  shows "req_matches r (by_key (labels_of rows sid)) = map_option (cond_holds rows sid) (req_cond r)"
  using assms(1)
  by (cases "rop r"; cases "by_key (labels_of rows sid) (rkey r)")
    (auto simp: req_matches_def req_cond_def cond_holds_iff [OF assms(2)]
      wf_requirement_def first_value_def length_Suc_conv split: option.splits list.splits)

lemma req_cond_total: "wf_requirement r \<Longrightarrow> req_cond r \<noteq> None"
  by (auto simp: wf_requirement_def req_cond_def first_value_def length_Suc_conv
      split: sel_op.splits)

lemma req_conds_SomeD:
  "req_conds sel = Some cs \<Longrightarrow> length cs = length sel \<and> (\<forall>i<length sel. req_cond (sel ! i) = Some (cs ! i))"
proof (induction sel arbitrary: cs)
  case (Cons r sel)
  then obtain c ds where "req_cond r = Some c" and "req_conds sel = Some ds" and "cs = c # ds"
    by (auto split: option.splits)
  with Cons.IH [of ds] show ?case by (auto simp: less_Suc_eq_0_disj)
qed simp

lemma req_conds_match:
  assumes wf: "\<forall>r\<in>set sel. wf_requirement r" and u: "unique_rows rows"
  shows "\<exists>cs. req_conds sel = Some cs \<and>
    sel_matches sel (labels_of rows sid) = Some (list_all (cond_holds rows sid) cs)"
  using wf
proof (induction sel)
  case (Cons r sel)
  from Cons.prems req_cond_total obtain c where c: "req_cond r = Some c" by force
  from Cons obtain cs where cs: "req_conds sel = Some cs"
    "sel_matches sel (labels_of rows sid) = Some (list_all (cond_holds rows sid) cs)" by auto
  from Cons.prems have "req_matches r (by_key (labels_of rows sid)) = Some (cond_holds rows sid c)"
    using req_cond_matches [OF _ u, of r sid] c by simp
  with c cs show ?case by (auto simp: sel_matches_def split: bool.splits)
qed (simp add: sel_matches_def)

section \<open>Panics\<close>

text \<open>
  The parser reads past the last token in one place: \<open>parseValueList\<close> peeks again after
  the comma of an unfinished list.
\<close>

lemma validate_not_panic [simp]: "map_err SelErr r \<noteq> Inl SelPanic"
  by (cases r) auto

lemma parse_list_value_rest: "parse_list_value ts = Inr (v, ts') \<Longrightarrow> ts' = ts \<or> ts' = tl ts"
  by (auto simp: parse_list_value_def split: list.splits if_splits)

lemma parse_list_value_no_panic: "ts \<noteq> [] \<Longrightarrow> parse_list_value ts \<noteq> Inl SelPanic"
  by (auto simp: parse_list_value_def rbind_Inl_iff split: list.splits)

lemma parse_list_loop_panic:
  "parse_list_loop ts out = Inl SelPanic \<Longrightarrow> ts = [] \<or> tok_kind (last ts) = KComma"
proof (induction "length ts" arbitrary: ts out rule: less_induct)
  case less
  show ?case
  proof (cases "ts = []")
    case False
    then obtain t us where ts: "ts = t # us" by (cases ts) auto
    have "parse_list_value ts \<noteq> Inl SelPanic" using False by (rule parse_list_value_no_panic)
    with less.prems ts obtain v u rest where
      step: "parse_list_value ts = Inr (v, u # rest)" "tok_kind u = KComma"
        "parse_list_loop rest (out @ [v]) = Inl SelPanic"
      by (subst (asm) parse_list_loop.simps) (auto split: if_splits sum.splits list.splits)
    from parse_list_value_length [OF step(1)] have "length rest < length ts" by simp
    from less.hyps [OF this step(3)] have "rest = [] \<or> tok_kind (last rest) = KComma" .
    moreover have "last ts = last (u # rest)"
      using parse_list_value_rest [OF step(1)] ts by auto
    ultimately show ?thesis using step(2) by auto
  qed simp
qed

lemma parse_value_list_panic:
  "parse_value_list ts = Inl SelPanic \<Longrightarrow> ts \<noteq> [] \<and> tok_kind (last ts) = KComma"
  by (auto simp: parse_value_list_def rbind_Inl_iff expect_def
      split: list.splits if_splits dest: parse_list_loop_panic)

lemma parse_value_no_panic: "parse_value ts \<noteq> Inl SelPanic"
  by (auto simp: parse_value_def rbind_Inl_iff split: list.splits)

lemma parse_requirement_panic:
  assumes "parse_requirement ts = Inl SelPanic"
  shows "ts \<noteq> [] \<and> tok_kind (last ts) = KComma"
proof (cases ts)
  case (Cons t ts1)
  show ?thesis
  proof (cases ts1)
    case Nil
    with assms Cons show ?thesis
      by (auto simp: parse_requirement_def rbind_Inl_iff split: if_splits)
  next
    case (Cons u ts2)
    with assms \<open>ts = t # ts1\<close> show ?thesis
      by (cases "tok_kind u")
        (auto simp: parse_requirement_def rbind_Inl_iff parse_value_no_panic split: if_splits
          dest: parse_value_list_panic)
  qed
qed (use assms in \<open>simp add: parse_requirement_def\<close>)

lemma parse_value_suffix: "parse_value ts = Inr (v, ts') \<Longrightarrow> \<exists>us. ts = us @ ts'"
  by (auto simp: parse_value_def split: list.splits if_splits)

lemma parse_list_loop_suffix: "parse_list_loop ts out = Inr (vs, ts') \<Longrightarrow> \<exists>us. ts = us @ ts'"
proof (induction "length ts" arbitrary: ts out rule: less_induct)
  case less
  have suf: "\<exists>us. ts = us @ ys" if "parse_list_value ts = Inr (v, ys)" for v ys
    using parse_list_value_rest [OF that] parse_list_value_length [OF that]
    by (metis append_Cons append_Nil list.exhaust_sel list.sel(2))
  from less.prems show ?case
  proof (cases rule: parse_list_loop_cases)
    case (last v t')
    with suf show ?thesis by (metis append_Cons append_Nil append_assoc)
  next
    case (more v t' rest)
    from parse_list_value_length [OF more(1)] have "length rest < length ts" by simp
    from less.hyps [OF this more(3)] obtain us where "rest = us @ ts'" by blast
    moreover from suf [OF more(1)] obtain ws where "ts = ws @ t' # rest" by blast
    ultimately have "ts = (ws @ t' # us) @ ts'" by simp
    then show ?thesis by blast
  qed
qed

lemma parse_value_list_suffix: "parse_value_list ts = Inr (vs, ts') \<Longrightarrow> \<exists>us. ts = us @ ts'"
  by (auto simp: parse_value_list_def expect_def split: list.splits if_splits
      dest!: parse_list_loop_suffix)

lemma parse_requirement_suffix:
  assumes "parse_requirement ts = Inr (r, ts')"
  shows "\<exists>us. ts = us @ ts'"
proof (cases ts)
  case (Cons t ts1)
  show ?thesis
  proof (cases ts1)
    case Nil
    with assms Cons show ?thesis by (auto simp: parse_requirement_def split: if_splits)
  next
    case (Cons u ts2)
    have ts: "ts = [t, u] @ ts2" using \<open>ts = t # ts1\<close> Cons by simp
    from assms Cons \<open>ts = t # ts1\<close> have "ts' = ts1 \<or> (\<exists>us. ts2 = us @ ts')"
      by (cases "tok_kind u")
        (auto simp: parse_requirement_def split: if_splits
          dest: parse_value_suffix parse_value_list_suffix)
    then show ?thesis using ts Cons \<open>ts = t # ts1\<close> by (metis append_Cons append_Nil append_assoc)
  qed
qed (use assms in \<open>simp add: parse_requirement_def\<close>)

lemma parse_loop_panic:
  "parse_loop ts out = Inl SelPanic \<Longrightarrow> ts \<noteq> [] \<and> tok_kind (last ts) = KComma"
proof (induction "length ts" arbitrary: ts out rule: less_induct)
  case less
  show ?case
  proof (cases "parse_requirement ts")
    case (Inl e)
    with less.prems have "e = SelPanic" by (subst (asm) parse_loop.simps) simp
    with Inl parse_requirement_panic show ?thesis by blast
  next
    case (Inr p)
    then obtain r rest where p: "parse_requirement ts = Inr (r, rest)" by (cases p) auto
    with less.prems obtain t rest' where rest: "rest = t # rest'"
      "parse_loop rest' (out @ [r]) = Inl SelPanic"
      by (subst (asm) parse_loop.simps) (auto split: list.splits if_splits)
    from parse_requirement_length [OF p] rest(1) have "length rest' < length ts" by simp
    from less.hyps [OF this rest(2)] have "rest' \<noteq> [] \<and> tok_kind (last rest') = KComma" .
    moreover obtain us where "ts = us @ t # rest'"
      using parse_requirement_suffix [OF p] rest(1) by blast
    ultimately show ?thesis by simp
  qed
qed

text \<open>
  \<open>ParseSelector\<close> can only panic on an input whose last token is a comma (a value
  list that stops after a comma); on every other input it returns a selector or an error.
\<close>

theorem parse_selector_panic_only_after_comma:
  assumes "parse_selector s = Inl SelPanic"
  shows "\<exists>ts. tokenize s = Inr ts \<and> ts \<noteq> [] \<and> tok_kind (last ts) = KComma"
  using assms parse_loop_panic
  by (auto simp: parse_selector_def rbind_Inl_iff split: if_splits)

lemma parse_selector_panic_only_after_comma_witness:
  "\<exists>ts. tokenize ''env in (prod,'' = Inr ts \<and> ts \<noteq> [] \<and> tok_kind (last ts) = KComma"
  by (rule parse_selector_panic_only_after_comma) code_simp

section \<open>Printing and parsing back\<close>

text \<open>
  The canonical text of a well-formed selector: its tokens, each followed by a space. An
  empty value is no token at all, as the parser reads it.
\<close>

definition value_tokens :: "string \<Rightarrow> token list" where
  "value_tokens v = (if v = [] then [] else [ident v])"

fun list_tokens :: "string list \<Rightarrow> token list" where
  "list_tokens [] = []"
| "list_tokens [v] = value_tokens v"
| "list_tokens (v # w # ws) = value_tokens v @ tok KComma # list_tokens (w # ws)"

definition set_tokens :: "string \<Rightarrow> requirement \<Rightarrow> token list" where
  "set_tokens word r = [ident (rkey r), ident word, tok KLParen] @ list_tokens (rvalues r) @ [tok KRParen]"

definition req_tokens :: "requirement \<Rightarrow> token list" where
  "req_tokens r =
     (case rop r of
        OpHas \<Rightarrow> [ident (rkey r)]
      | OpNotHas \<Rightarrow> [tok KBang, ident (rkey r)]
      | OpEq \<Rightarrow> [ident (rkey r), tok KEq] @ concat (map value_tokens (rvalues r))
      | OpNotEq \<Rightarrow> [ident (rkey r), tok KNotEq] @ concat (map value_tokens (rvalues r))
      | OpIn \<Rightarrow> set_tokens ''in'' r
      | OpNotIn \<Rightarrow> set_tokens ''notin'' r)"

fun sel_tokens :: "selector \<Rightarrow> token list" where
  "sel_tokens [] = []"
| "sel_tokens [r] = req_tokens r"
| "sel_tokens (r # q # rs) = req_tokens r @ tok KComma # sel_tokens (q # rs)"

fun kind_text :: "token_kind \<Rightarrow> string" where
  "kind_text KIdent = []"
| "kind_text KEq = ''=''"
| "kind_text KNotEq = ''!=''"
| "kind_text KBang = ''!''"
| "kind_text KComma = '',''"
| "kind_text KLParen = ''(''"
| "kind_text KRParen = '')''"

definition token_text :: "token \<Rightarrow> string" where
  "token_text t = (if tok_kind t = KIdent then tok_text t else kind_text (tok_kind t)) @ '' ''"

definition print_tokens :: "token list \<Rightarrow> string" where
  "print_tokens ts = concat (map token_text ts)"

definition print_selector :: "selector \<Rightarrow> string" where
  "print_selector sel = print_tokens (sel_tokens sel)"

subsection \<open>The tokenizer inverts printing\<close>

lemma tokenize_from_Nil: "tokenize_from i [] = Inr []"
  by (subst tokenize_from.simps) simp

lemma tokenize_from_Cons:
  "lex_step i c cs = Inr (t, n) \<Longrightarrow>
   tokenize_from i (c # cs) = rbind (tokenize_from (i + n) (drop n (c # cs)))
     (\<lambda>ts. Inr (case t of None \<Rightarrow> ts | Some t' \<Rightarrow> t' # ts))"
  by (subst tokenize_from.simps) simp

lemma is_ident_byte_not_special:
  "is_ident_byte c \<Longrightarrow> \<not> sel_space c \<and> c \<notin> {CHR '','', CHR ''('', CHR '')'', CHR ''='', CHR ''!''}"
  by (auto simp: is_ident_byte_def sel_space_def is_lower_def is_upper_def is_digit_def less_eq_char_def)

lemma not_ident_byte_space: "\<not> is_ident_byte (CHR '' '')"
  by (auto simp: is_ident_byte_def is_lower_def is_upper_def is_digit_def less_eq_char_def)

lemma lex_step_ident:
  assumes "wf_token t" and "tok_kind t = KIdent" and "tok_text t = c # cs"
  shows "lex_step i c (cs @ CHR '' '' # rest) = Inr (Some t, length (c # cs))"
proof -
  from assms have c: "is_ident_byte c" and cs: "\<forall>x\<in>set cs. is_ident_byte x"
    by (simp_all add: wf_token_def)
  have "takeWhile is_ident_byte (cs @ CHR '' '' # rest) = cs"
    using cs not_ident_byte_space by (simp add: takeWhile_append)
  moreover have "ident (c # cs) = t" using assms by (simp add: ident_def)
  ultimately show ?thesis using c is_ident_byte_not_special [OF c] by (simp add: lex_step_def)
qed

lemma ident_simps [simp]: "tok_kind (ident s) = KIdent" "tok_text (ident s) = s" "tok_kind (tok k) = k"
  by (simp_all add: ident_def tok_def)

lemma lex_step_kind:
  assumes "k \<noteq> KIdent" and "kind_text k = c # cs"
  shows "lex_step i c (cs @ CHR '' '' # s) = Inr (Some (tok k), length (c # cs))"
proof -
  from assms(2) have "c = hd (kind_text k)" and "cs = tl (kind_text k)" by simp_all
  then show ?thesis
    using assms(1) by (cases k) (simp_all add: lex_step_def sel_space_def)
qed

lemma tokenize_space:
  "tokenize_from i (CHR '' '' # s) = tokenize_from (Suc i) s"
proof -
  have "lex_step i (CHR '' '') s = Inr (None, 1)" by (simp add: lex_step_def sel_space_def)
  from tokenize_from_Cons [OF this] show ?thesis
    by (cases "tokenize_from (Suc i) s") simp_all
qed

lemma tokenize_token:
  assumes "wf_token t"
  shows "\<exists>j. tokenize_from i (token_text t @ s) = rbind (tokenize_from j s) (\<lambda>ts. Inr (t # ts))"
proof (cases "tok_kind t = KIdent")
  case True
  with assms obtain c cs where t: "tok_text t = c # cs" by (cases "tok_text t") (auto simp: wf_token_def)
  have "tokenize_from i (token_text t @ s) =
      rbind (tokenize_from (i + length (c # cs)) (CHR '' '' # s)) (\<lambda>ts. Inr (t # ts))"
    using tokenize_from_Cons [OF lex_step_ident [OF assms True t], of i s] True t
    by (simp add: token_text_def)
  then show ?thesis by (auto simp: tokenize_space)
next
  case False
  define k where "k = tok_kind t"
  have k: "k \<noteq> KIdent" and t: "t = tok k" using False assms by (simp_all add: wf_token_def tok_def k_def)
  obtain c cs where kt: "kind_text k = c # cs" using k by (cases k) auto
  then have lex: "lex_step i c (cs @ CHR '' '' # s) = Inr (Some (tok k), length (c # cs))"
    using k lex_step_kind by blast
  have "token_text t @ s = c # cs @ CHR '' '' # s"
    using k kt t by (simp add: token_text_def)
  with tokenize_from_Cons [OF lex] have "tokenize_from i (token_text t @ s) =
      rbind (tokenize_from (i + length (c # cs)) (CHR '' '' # s)) (\<lambda>ts. Inr (t # ts))"
    using t by simp
  then show ?thesis by (auto simp: tokenize_space)
qed

lemma tokenize_print: "\<forall>t\<in>set ts. wf_token t \<Longrightarrow> tokenize_from i (print_tokens ts) = Inr ts"
proof (induction ts arbitrary: i)
  case (Cons t ts)
  obtain j where "tokenize_from i (token_text t @ print_tokens ts) =
      rbind (tokenize_from j (print_tokens ts)) (\<lambda>us. Inr (t # us))"
    using tokenize_token Cons.prems by force
  with Cons show ?case by (simp add: print_tokens_def)
qed (simp add: print_tokens_def tokenize_from_Nil)

subsection \<open>The parser inverts the token form\<close>

lemma parse_list_loop_tokens:
  "vs \<noteq> [] \<Longrightarrow> last vs \<noteq> [] \<Longrightarrow> \<forall>v\<in>set vs. validate_value (Some v) = Inr () \<Longrightarrow>
   parse_list_loop (list_tokens vs @ tok KRParen # rest) out = Inr (out @ vs, rest)"
proof (induction vs arbitrary: out rule: list_tokens.induct)
  case (2 v)
  then show ?case
    by (subst parse_list_loop.simps) (simp add: value_tokens_def parse_list_value_def)
next
  case (3 v w ws)
  then have "parse_list_loop (list_tokens (w # ws) @ tok KRParen # rest) (out @ [v]) =
      Inr ((out @ [v]) @ w # ws, rest)" by simp
  with 3(4) show ?case
    by (subst parse_list_loop.simps) (auto simp: value_tokens_def parse_list_value_def)
qed simp

lemma list_tokens_head: "vs \<noteq> [] \<Longrightarrow> last vs \<noteq> [] \<Longrightarrow> list_tokens vs \<noteq> []"
  by (cases vs rule: list_tokens.cases) (auto simp: value_tokens_def)

lemma parse_requirement_tokens:
  assumes "wf_requirement r" and "rest = [] \<or> (\<exists>us. rest = tok KComma # us)"
  shows "parse_requirement (req_tokens r @ rest) = Inr (r, rest)"
proof -
  have r: "r = \<lparr>rop = rop r, rkey = rkey r, rvalues = rvalues r\<rparr>" by simp
  have vl: "parse_value_list (tok KLParen # list_tokens (rvalues r) @ tok KRParen # rest) = Inr (rvalues r, rest)"
    if "rvalues r \<noteq> []" "last (rvalues r) \<noteq> []"
    using that assms(1) parse_list_loop_tokens [of "rvalues r" rest "[]"]
    by (simp add: parse_value_list_def expect_def wf_requirement_def list_tokens_head)
  have v: "parse_value (value_tokens x @ rest) = Inr (x, rest)" if "rvalues r = [x]" for x
    using that assms by (auto simp: parse_value_def value_tokens_def wf_requirement_def)
  from assms vl v r show ?thesis
    by (cases "rop r")
      (auto simp: req_tokens_def set_tokens_def parse_requirement_def wf_requirement_def length_Suc_conv)
qed

lemma sel_tokens_nonempty: "sel \<noteq> [] \<Longrightarrow> sel_tokens sel \<noteq> []"
  by (cases sel rule: sel_tokens.cases)
    (auto simp: req_tokens_def set_tokens_def split: sel_op.splits)

lemma parse_loop_tokens:
  "sel \<noteq> [] \<Longrightarrow> \<forall>r\<in>set sel. wf_requirement r \<Longrightarrow> parse_loop (sel_tokens sel) out = Inr (out @ sel)"
proof (induction sel arbitrary: out rule: sel_tokens.induct)
  case (2 r)
  then show ?case
    using parse_requirement_tokens [of r "[]"] by (subst parse_loop.simps) simp
next
  case (3 r q rs)
  then have "parse_requirement (req_tokens r @ tok KComma # sel_tokens (q # rs)) =
      Inr (r, tok KComma # sel_tokens (q # rs))"
    by (intro parse_requirement_tokens) simp_all
  with 3 show ?case by (subst parse_loop.simps) simp
qed simp

lemma segment_char_ident: "segment_char c \<Longrightarrow> is_ident_byte c"
  by (auto simp: segment_char_def is_ident_byte_def)

lemma slash_ident: "is_ident_byte (CHR ''/'')"
  by (simp add: is_ident_byte_def)

lemma wf_token_key: "validate_key key True = Inr () \<Longrightarrow> wf_token (ident key)"
  by (auto simp: validate_key_iff wf_token_def segment_ok_def segment_char_ident slash_ident)

lemma wf_token_value: "validate_value (Some v) = Inr () \<Longrightarrow> \<forall>t\<in>set (value_tokens v). wf_token t"
  by (auto simp: validate_value_ok wf_token_def value_tokens_def segment_ok_def segment_char_ident)

lemma wf_token_tok: "k \<noteq> KIdent \<Longrightarrow> wf_token (tok k)"
  by (simp add: wf_token_def tok_def)

lemma wf_token_words: "wf_token (ident ''in'')" "wf_token (ident ''notin'')"
  by (code_simp, code_simp)

lemma wf_list_tokens:
  "\<forall>v\<in>set vs. validate_value (Some v) = Inr () \<Longrightarrow> \<forall>t\<in>set (list_tokens vs). wf_token t"
  by (induction vs rule: list_tokens.induct) (auto simp: wf_token_tok dest: wf_token_value)

lemma wf_req_tokens: "wf_requirement r \<Longrightarrow> \<forall>t\<in>set (req_tokens r). wf_token t"
  by (cases "rop r")
    (auto simp: req_tokens_def set_tokens_def wf_requirement_def wf_token_tok wf_token_words wf_token_key
      dest: wf_token_value wf_list_tokens)

lemma wf_sel_tokens: "\<forall>r\<in>set sel. wf_requirement r \<Longrightarrow> \<forall>t\<in>set (sel_tokens sel). wf_token t"
  by (induction sel rule: sel_tokens.induct) (auto simp: wf_token_tok dest: wf_req_tokens)

text \<open>
  C40: printing a well-formed selector in canonical form and parsing the text gives the
  selector back. With the well-formedness of every parse result, the selectors
  \<open>ParseSelector\<close> can return are exactly the well-formed ones.
\<close>

theorem parse_print_selector:
  assumes "\<forall>r\<in>set sel. wf_requirement r"
  shows "parse_selector (print_selector sel) = Inr sel"
proof (cases "sel = []")
  case True
  then show ?thesis by (simp add: parse_selector_def print_selector_def print_tokens_def tokenize_def tokenize_from_Nil)
next
  case False
  with assms show ?thesis
    using tokenize_print [OF wf_sel_tokens [OF assms], of 0] parse_loop_tokens [OF False assms, of "[]"]
    by (simp add: parse_selector_def print_selector_def tokenize_def sel_tokens_nonempty)
qed

lemma parse_print_selector_witness:
  "parse_selector (print_selector [\<lparr>rop = OpIn, rkey = ''tier'', rvalues = [[], ''web'']\<rparr>,
     \<lparr>rop = OpNotHas, rkey = ''a/b'', rvalues = []\<rparr>]) =
   Inr [\<lparr>rop = OpIn, rkey = ''tier'', rvalues = [[], ''web'']\<rparr>,
     \<lparr>rop = OpNotHas, rkey = ''a/b'', rvalues = []\<rparr>]"
  by (rule parse_print_selector) code_simp

subsection \<open>A list that stops after a comma\<close>

definition open_list_tokens :: "string list \<Rightarrow> token list" where
  "open_list_tokens vs = concat (map (\<lambda>v. value_tokens v @ [tok KComma]) vs)"

lemma parse_list_loop_open:
  "\<forall>v\<in>set vs. validate_value (Some v) = Inr () \<Longrightarrow>
   parse_list_loop (open_list_tokens vs) out = Inl SelPanic"
proof (induction vs arbitrary: out)
  case Nil
  show ?case by (subst parse_list_loop.simps) (simp add: open_list_tokens_def)
next
  case (Cons v vs)
  then have "parse_list_loop (open_list_tokens vs) (out @ [v]) = Inl SelPanic" by simp
  with Cons.prems show ?case
    by (subst parse_list_loop.simps)
      (auto simp: open_list_tokens_def value_tokens_def parse_list_value_def)
qed

lemma wf_open_list_tokens:
  "\<forall>v\<in>set vs. validate_value (Some v) = Inr () \<Longrightarrow> \<forall>t\<in>set (open_list_tokens vs). wf_token t"
  by (auto simp: open_list_tokens_def wf_token_tok dest: wf_token_value)

text \<open>
  every value list that stops after a comma makes \<open>ParseSelector\<close> panic with an index
  out of range, where the code means to answer "unterminated value list". The text is
  taken as it comes from the \<open>selector\<close> query parameter or a target value.
\<close>

theorem unfinished_list_panics:
  assumes "validate_key key True = Inr ()" and "vs \<noteq> []"
    and "\<forall>v\<in>set vs. validate_value (Some v) = Inr ()"
  shows "parse_selector (print_tokens
    ([ident key, ident ''in'', tok KLParen] @ open_list_tokens vs)) = Inl SelPanic"
proof -
  let ?ts = "[ident key, ident ''in'', tok KLParen] @ open_list_tokens vs"
  have "\<forall>t\<in>set ?ts. wf_token t"
    using assms wf_open_list_tokens [OF assms(3)] by (simp add: wf_token_key wf_token_words wf_token_tok)
  then have "tokenize (print_tokens ?ts) = Inr ?ts" by (simp add: tokenize_def tokenize_print)
  moreover have "open_list_tokens vs \<noteq> []"
    using assms(2) by (cases vs) (simp_all add: open_list_tokens_def)
  then have "parse_requirement ?ts = Inl SelPanic"
    using assms(1) parse_list_loop_open [OF assms(3), of "[]"]
    by (simp add: parse_requirement_def parse_value_list_def expect_def)
  then have "parse_loop ?ts [] = Inl SelPanic" by (subst parse_loop.simps) simp
  ultimately show ?thesis by (simp add: parse_selector_def)
qed

lemma unfinished_list_panics_witness:
  "parse_selector (print_tokens ([ident ''env'', ident ''in'', tok KLParen] @ open_list_tokens [''prod''])) =
     Inl SelPanic"
  by (rule unfinished_list_panics) code_simp+

end
