(* ===== verification/SqlText.thy ===== *)
theory SqlText
  imports Selector
begin

text \<open>
  What SQLite makes of the text a selector compiles to (\<open>internal/labels/selector.go\<close>, \<open>SQL\<close>): a scanner,
  and an evaluator for boolean terms of \<open>EXISTS\<close> over \<open>system_labels\<close> that takes the arguments of the
  placeholders from left to right. It reads the text and knows nothing of the selector; where
  the text is none of this grammar, or the number of arguments differs, it has no value.
\<close>

section \<open>Scanning\<close>

definition sql_marks :: string where "sql_marks = ''(),=?''"

definition sql_word :: "string \<Rightarrow> string list" where
  "sql_word cur = (if cur = [] then [] else [rev cur])"

fun sql_scan :: "string \<Rightarrow> string \<Rightarrow> string list" where
  "sql_scan cur [] = sql_word cur"
| "sql_scan cur (c # cs) =
     (if c = CHR '' '' then sql_word cur @ sql_scan [] cs
      else if c \<in> set sql_marks then sql_word cur @ [c] # sql_scan [] cs
      else sql_scan (c # cur) cs)"

section \<open>Evaluation\<close>

type_synonym 'a sql_parse = "('a \<times> string list \<times> string list) option"

text \<open>The placeholders of a list, behind its opening parenthesis, with their arguments.\<close>

fun sql_params :: "string list \<Rightarrow> string list \<Rightarrow> string list sql_parse" where
  "sql_params (q # m # ts) (a # as) =
     (if q \<noteq> ''?'' then None
      else if m = '')'' then Some ([a], ts, as)
      else if m = '','' then map_option (\<lambda>(vs, ts', as'). (a # vs, ts', as')) (sql_params ts as)
      else None)"
| "sql_params ts as = None"

text \<open>
  One comparison of a row: the system of the outer query, the key, or the value, where NULL compares with
  nothing.
\<close>

definition sql_atom :: "string \<Rightarrow> string \<Rightarrow> string list \<Rightarrow> string list \<Rightarrow> (label_row \<Rightarrow> bool) sql_parse" where
  "sql_atom x sid ts as =
     (case ts of
        col # rel # arg # rest \<Rightarrow>
          if col = ''system_id'' \<and> rel = ''='' \<and> arg = x then Some (\<lambda>r. row_system r = sid, rest, as)
          else if col = ''key'' \<and> rel = ''='' \<and> arg = ''?'' \<and> as \<noteq> [] then Some (\<lambda>r. row_key r = hd as, rest, tl as)
          else if col = ''value'' \<and> rel = ''='' \<and> arg = ''?'' \<and> as \<noteq> [] then Some (\<lambda>r. row_value r = Some (hd as), rest, tl as)
          else if col = ''value'' \<and> rel = ''IN'' \<and> arg = ''(''
          then map_option (\<lambda>(vs, ts', as'). (\<lambda>r. \<exists>v\<in>set vs. row_value r = Some v, ts', as')) (sql_params rest as)
          else None
      | _ \<Rightarrow> None)"

text \<open>Comparisons joined by AND, up to the parenthesis that closes the subquery.\<close>

fun sql_where :: "nat \<Rightarrow> string \<Rightarrow> string \<Rightarrow> string list \<Rightarrow> string list \<Rightarrow> (label_row \<Rightarrow> bool) sql_parse" where
  "sql_where 0 x sid ts as = None"
| "sql_where (Suc n) x sid ts as =
     (case sql_atom x sid ts as of
        None \<Rightarrow> None
      | Some (P, t # rest, as') \<Rightarrow>
          if t = '')'' then Some (P, rest, as')
          else if t = ''AND'' then map_option (\<lambda>(Q, r). (\<lambda>row. P row \<and> Q row, r)) (sql_where n x sid rest as')
          else None
      | Some (P, [], as') \<Rightarrow> None)"

definition sql_select :: "string list" where
  "sql_select = [''('', ''SELECT'', ''1'', ''FROM'', ''system_labels'', ''WHERE'']"

definition sql_exists :: "nat \<Rightarrow> label_row list \<Rightarrow> string \<Rightarrow> string \<Rightarrow> string list \<Rightarrow> string list \<Rightarrow> bool sql_parse" where
  "sql_exists n rows x sid ts as =
     (if take 6 ts = sql_select
      then map_option (\<lambda>(P, r). (list_ex P rows, r)) (sql_where n x sid (drop 6 ts) as)
      else None)"

definition sql_term :: "nat \<Rightarrow> label_row list \<Rightarrow> string \<Rightarrow> string \<Rightarrow> string list \<Rightarrow> string list \<Rightarrow> bool sql_parse" where
  "sql_term n rows x sid ts as =
     (case ts of
        w # rest \<Rightarrow>
          if w = ''EXISTS'' then sql_exists n rows x sid rest as
          else if w = ''NOT'' \<and> rest \<noteq> [] \<and> hd rest = ''EXISTS''
          then map_option (\<lambda>(b, r). (\<not> b, r)) (sql_exists n rows x sid (tl rest) as)
          else None
      | [] \<Rightarrow> None)"

fun sql_terms :: "nat \<Rightarrow> label_row list \<Rightarrow> string \<Rightarrow> string \<Rightarrow> string list \<Rightarrow> string list \<Rightarrow> bool option" where
  "sql_terms 0 rows x sid ts as = None"
| "sql_terms (Suc n) rows x sid ts as =
     (case sql_term n rows x sid ts as of
        None \<Rightarrow> None
      | Some (b, [], as') \<Rightarrow> if as' = [] then Some b else None
      | Some (b, t # rest, as') \<Rightarrow> if t = ''AND'' then map_option (\<lambda>d. b \<and> d) (sql_terms n rows x sid rest as') else None)"

text \<open>
  The value of a text for a system: \<open>x\<close> is the expression for its id. The bound on the depth is the
  length of the text.
\<close>

definition sql_value :: "label_row list \<Rightarrow> string \<Rightarrow> string \<Rightarrow> string \<Rightarrow> string list \<Rightarrow> bool option" where
  "sql_value rows x sid text args = sql_terms (length text) rows x sid (sql_scan [] text) args"

section \<open>The text of a condition\<close>

definition plain_word :: "string \<Rightarrow> bool" where
  "plain_word w = (w \<noteq> [] \<and> list_all (\<lambda>c. c \<noteq> CHR '' '' \<and> c \<notin> set sql_marks) w)"

lemma scan_plain: "list_all (\<lambda>c. c \<noteq> CHR '' '' \<and> c \<notin> set sql_marks) w \<Longrightarrow> sql_scan cur (w @ s) = sql_scan (rev w @ cur) s"
  by (induction w arbitrary: cur) auto

lemma scan_word: "plain_word w \<Longrightarrow> sql_scan [] (w @ CHR '' '' # s) = w # sql_scan [] s"
  by (simp add: scan_plain plain_word_def sql_word_def)

lemma scan_words:
  "sql_scan [] ('' '' @ s) = sql_scan [] s" "sql_scan [] (''AND '' @ s) = ''AND'' # sql_scan [] s"
  "sql_scan [] ('' AND '' @ s) = ''AND'' # sql_scan [] s"
  "sql_scan [] (''NOT EXISTS'' @ '' (SELECT 1 FROM system_labels WHERE system_id = '' @ s) =
     ''NOT'' # ''EXISTS'' # sql_select @ [''system_id'', ''=''] @ sql_scan [] s"
  "sql_scan [] (''EXISTS'' @ '' (SELECT 1 FROM system_labels WHERE system_id = '' @ s) =
     ''EXISTS'' # sql_select @ [''system_id'', ''=''] @ sql_scan [] s"
  "sql_scan [] ('' AND key = ?'' @ s) = ''AND'' # ''key'' # ''='' # ''?'' # sql_scan [] s"
  "sql_scan [] (''AND key = ?'' @ s) = ''AND'' # ''key'' # ''='' # ''?'' # sql_scan [] s"
  "sql_scan [] ('' AND value = ?)'' @ s) = ''AND'' # ''value'' # ''='' # ''?'' # '')'' # sql_scan [] s"
  "sql_scan [] ('' AND value IN ('' @ s) = ''AND'' # ''value'' # ''IN'' # ''('' # sql_scan [] s"
  "sql_scan [] ('')'' @ s) = '')'' # sql_scan [] s" "sql_scan [] (''))'' @ s) = '')'' # '')'' # sql_scan [] s"
  by (simp_all add: sql_marks_def sql_word_def sql_select_def)

text \<open>The words of a list of placeholders with its closing parenthesis.\<close>

fun param_words :: "'a list \<Rightarrow> string list" where
  "param_words [] = ['')'']"
| "param_words [v] = [''?'', '')'']"
| "param_words (v # w # vs) = ''?'' # '','' # param_words (w # vs)"

lemma scan_params: "sql_scan [] (join '','' (map (\<lambda>_. ''?'') vs) @ CHR '')'' # s) = param_words vs @ sql_scan [] s"
  by (induction vs rule: param_words.induct) (simp_all add: sql_marks_def sql_word_def)

lemma params_read: "vs \<noteq> [] \<Longrightarrow> sql_params (param_words vs @ ts) (vs @ as) = Some (vs, ts, as)"
  by (induction vs rule: param_words.induct) simp_all

definition filter_words :: "value_filter \<Rightarrow> string list" where
  "filter_words f =
     (case f of AnyValue \<Rightarrow> ['')'']
      | ValueEq v \<Rightarrow> [''AND'', ''value'', ''='', ''?'', '')'']
      | ValueIn vs \<Rightarrow> [''AND'', ''value'', ''IN'', ''(''] @ param_words vs @ ['')''])"

definition cond_words :: "string \<Rightarrow> sql_cond \<Rightarrow> string list" where
  "cond_words x c =
     (if c_negated c then [''NOT'', ''EXISTS''] else [''EXISTS'']) @ sql_select @
     [''system_id'', ''='', x, ''AND'', ''key'', ''='', ''?''] @ filter_words (c_filter c)"

lemma scan_cond:
  assumes "plain_word x"
  shows "sql_scan [] (fst (cond_sql x c) @ s) = cond_words x c @ sql_scan [] s"
proof -
  have k: "sql_scan [] (x @ '' AND key = ?'' @ t) = x # ''AND'' # ''key'' # ''='' # ''?'' # sql_scan [] t" for t
    using scan_word [OF assms, of "''AND key = ?'' @ t"] scan_words(7) [of t] by simp
  have f: "sql_scan [] ((case c_filter c of AnyValue \<Rightarrow> '')'' | ValueEq v \<Rightarrow> '' AND value = ?)''
      | ValueIn vs \<Rightarrow> '' AND value IN ('' @ join '','' (map (\<lambda>_. ''?'') vs) @ ''))'') @ s) = filter_words (c_filter c) @ sql_scan [] s"
    using scan_words(8) [of s] scan_words(10) [of s]
      scan_words(9) [of "join '','' (map (\<lambda>_. ''?'') vs) @ ''))'' @ s" for vs]
    by (cases "c_filter c") (simp_all add: filter_words_def scan_params sql_marks_def sql_word_def)
  have "fst (cond_sql x c) @ s = (if c_negated c then ''NOT EXISTS'' else ''EXISTS'') @
      '' (SELECT 1 FROM system_labels WHERE system_id = '' @ x @ '' AND key = ?'' @
      (case c_filter c of AnyValue \<Rightarrow> '')'' | ValueEq v \<Rightarrow> '' AND value = ?)''
      | ValueIn vs \<Rightarrow> '' AND value IN ('' @ join '','' (map (\<lambda>_. ''?'') vs) @ ''))'') @ s"
    by (simp add: cond_sql_def Let_def split: value_filter.split)
  then show ?thesis
    by (cases "c_negated c") (simp_all only: scan_words(4,5) k f cond_words_def append_assoc if_True if_False, simp_all)
qed

section \<open>Its value\<close>

lemma cond_args: "snd (cond_sql x c) = c_key c # (case c_filter c of AnyValue \<Rightarrow> [] | ValueEq v \<Rightarrow> [v] | ValueIn vs \<Rightarrow> vs)"
  by (simp add: cond_sql_def Let_def split: value_filter.split)

definition full_filter :: "sql_cond \<Rightarrow> bool" where
  "full_filter c = (c_filter c \<noteq> ValueIn [])"

lemma where_value:
  assumes "full_filter c"
  shows "sql_where (Suc (Suc (Suc n))) x sid
      ([''system_id'', ''='', x, ''AND'', ''key'', ''='', ''?''] @ filter_words (c_filter c) @ ts) (snd (cond_sql x c) @ as) =
    Some (\<lambda>r. row_system r = sid \<and> row_key r = c_key c \<and> filter_holds (c_filter c) (row_value r), ts, as)"
proof (cases "c_filter c")
  case AnyValue
  then show ?thesis by (simp add: sql_atom_def filter_words_def cond_args)
next
  case (ValueEq v)
  then show ?thesis by (simp add: sql_atom_def filter_words_def cond_args)
next
  case (ValueIn vs)
  with assms have "vs \<noteq> []" by (simp add: full_filter_def)
  then have p: "sql_params (param_words vs @ '')'' # ts) (vs @ as) = Some (vs, '')'' # ts, as)" by (rule params_read)
  have f: "(\<exists>v\<in>set vs. row_value r = Some v) = filter_holds (ValueIn vs) (row_value r)" for r
    by (cases "row_value r") auto
  show ?thesis by (simp add: ValueIn sql_atom_def filter_words_def cond_args p f del: filter_holds.simps)
qed

lemma term_value:
  assumes "full_filter c"
  shows "sql_term (Suc (Suc (Suc n))) rows x sid (cond_words x c @ ts) (snd (cond_sql x c) @ as) =
    Some (cond_holds rows sid c, ts, as)"
  using where_value [OF assms, of n x sid ts as]
  by (simp add: sql_term_def sql_exists_def cond_words_def sql_select_def cond_holds_def Let_def del: sql_where.simps)

lemma terms_value:
  assumes "cs \<noteq> []" "\<forall>c\<in>set cs. full_filter c" "plain_word x" "length cs + 3 \<le> n"
  shows "sql_terms n rows x sid (sql_scan [] (join '' AND '' (map (fst \<circ> cond_sql x) cs)))
      (concat (map (snd \<circ> cond_sql x) cs)) = Some (list_all (cond_holds rows sid) cs)"
  using assms(1,2,4)
proof (induction cs arbitrary: n rule: list_nonempty_induct)
  case (single c)
  then obtain k where n: "n = Suc (Suc (Suc (Suc k)))" by (cases n; cases "n - 1"; cases "n - 2"; cases "n - 3") auto
  have "sql_scan [] (fst (cond_sql x c)) = cond_words x c" using scan_cond [OF assms(3), of c "[]"] by (simp add: sql_word_def)
  then show ?case using term_value [of c k rows x sid "[]" "[]"] single n by (simp del: sql_where.simps)
next
  case (cons c cs)
  then obtain k where n: "n = Suc (Suc (Suc (Suc k)))" and k: "length cs + 3 \<le> Suc (Suc (Suc k))"
    by (cases n; cases "n - 1"; cases "n - 2"; cases "n - 3") auto
  let ?rest = "join '' AND '' (map (fst \<circ> cond_sql x) cs)"
  have j: "join '' AND '' (map (fst \<circ> cond_sql x) (c # cs)) = fst (cond_sql x c) @ '' AND '' @ ?rest"
    using cons(1) by (cases cs) simp_all
  have s: "sql_scan [] (fst (cond_sql x c) @ '' AND '' @ ?rest) = cond_words x c @ ''AND'' # sql_scan [] ?rest"
    by (simp only: scan_cond [OF assms(3)] scan_words(3))
  have ih: "sql_terms (Suc (Suc (Suc k))) rows x sid (sql_scan [] ?rest) (concat (map (snd \<circ> cond_sql x) cs)) =
      Some (list_all (cond_holds rows sid) cs)"
    using cons(3) k by (intro cons(2)) simp_all
  have t: "sql_term (Suc (Suc (Suc k))) rows x sid (cond_words x c @ ''AND'' # sql_scan [] ?rest)
      (concat (map (snd \<circ> cond_sql x) (c # cs))) =
      Some (cond_holds rows sid c, ''AND'' # sql_scan [] ?rest, concat (map (snd \<circ> cond_sql x) cs))"
    using term_value [of c k rows x sid "''AND'' # sql_scan [] ?rest" "concat (map (snd \<circ> cond_sql x) cs)"] cons(3)
    by (simp del: sql_where.simps)
  show ?case unfolding j s n by (subst sql_terms.simps(2), subst t) (simp add: ih del: sql_terms.simps)
qed

lemma cond_text_long: "40 \<le> length (fst (cond_sql x c))"
  by (simp add: cond_sql_def Let_def split: value_filter.split)

lemma join_long: "(\<forall>w\<in>set ws. 4 \<le> length w) \<Longrightarrow> ws \<noteq> [] \<Longrightarrow> length ws + 3 \<le> length (join s ws)"
  by (induction s ws rule: join.induct) auto

lemma conds_full:
  assumes "req_conds sel = Some cs" "\<forall>r\<in>set sel. wf_requirement r"
  shows "\<forall>c\<in>set cs. full_filter c"
  using assms
proof (induction sel arbitrary: cs)
  case (Cons r sel)
  then obtain c ds where c: "req_cond r = Some c" and ds: "req_conds sel = Some ds" and cs: "cs = c # ds"
    by (auto split: option.splits)
  have "full_filter c"
    using c by (auto simp: req_cond_def full_filter_def split: sel_op.splits if_splits)
  with Cons ds cs show ?case by simp
qed simp

text \<open>
  C39: on a table with at most one row per system and key, the SQL text of a well-formed selector and the
  in-memory \<open>Matches\<close> agree on every system. The text is empty for the empty selector, which
  matches every system; any other text, read as SQL with its arguments in place of the placeholders, has
  the value of \<open>Matches\<close>. \<open>x\<close> is the expression of the outer query for the id of a system, one word.
\<close>

theorem selector_sql_equiv:
  assumes "\<forall>r\<in>set sel. wf_requirement r" "unique_rows rows" "plain_word x"
  shows "\<exists>text args. sel_sql x sel = Some (text, args) \<and> (text = [] \<longleftrightarrow> sel = []) \<and>
    (if text = [] then sel_matches sel (labels_of rows sid) = Some True
     else sql_value rows x sid text args \<noteq> None \<and>
       sel_matches sel (labels_of rows sid) = sql_value rows x sid text args)"
proof -
  obtain cs where cs: "req_conds sel = Some cs" and m: "sel_matches sel (labels_of rows sid) = Some (list_all (cond_holds rows sid) cs)"
    using req_conds_match [OF assms(1,2), of sid] by blast
  let ?t = "join '' AND '' (map (fst \<circ> cond_sql x) cs)" and ?a = "concat (map (snd \<circ> cond_sql x) cs)"
  have l: "length cs = length sel" using req_conds_SomeD [OF cs] by blast
  have s: "sel_sql x sel = Some (?t, ?a)" by (simp add: sel_sql_def cs)
  show ?thesis
  proof (cases "sel = []")
    case True
    with l m s show ?thesis by simp
  next
    case False
    with l have ne: "cs \<noteq> []" by auto
    have "length (map (fst \<circ> cond_sql x) cs) + 3 \<le> length ?t"
      using ne cond_text_long [of x] by (intro join_long) (auto intro: order_trans [of 4 40])
    then have len: "length cs + 3 \<le> length ?t" by simp
    then have "?t \<noteq> []" by auto
    moreover have "sql_value rows x sid ?t ?a = Some (list_all (cond_holds rows sid) cs)"
      unfolding sql_value_def by (rule terms_value [OF ne conds_full [OF cs assms(1)] assms(3) len])
    ultimately show ?thesis using s m False by (intro exI [of _ ?t] exI [of _ ?a]) simp
  qed
qed

lemma selector_sql_equiv_witness:
  "\<exists>text args. sel_sql ''h.id'' [\<lparr>rop = OpNotIn, rkey = ''env'', rvalues = [''dev'', ''prod'']\<rparr>] = Some (text, args) \<and>
     sql_value [\<lparr>row_system = ''s1'', row_key = ''env'', row_value = Some ''prod''\<rparr>] ''h.id'' ''s1'' text args = Some False"
proof -
  let ?sel = "[\<lparr>rop = OpNotIn, rkey = ''env'', rvalues = [''dev'', ''prod'']\<rparr>]"
  let ?rows = "[\<lparr>row_system = ''s1'', row_key = ''env'', row_value = Some ''prod''\<rparr>]"
  have "\<forall>r\<in>set ?sel. wf_requirement r" "unique_rows ?rows" "plain_word ''h.id''" by code_simp+
  moreover have "sel_matches ?sel (labels_of ?rows ''s1'') = Some False" by code_simp
  ultimately show ?thesis using selector_sql_equiv [of ?sel ?rows "''h.id''" "''s1''"] by (auto split: if_splits)
qed

end
