(* ===== verification/LabelStore.thy ===== *)
theory LabelStore
  imports Selector
begin

text \<open>
  \<open>internal/labels\<close>: the interface \<open>Store\<close> (\<open>store.go\<close>) as a locale, and its two
  implementations, \<open>MemStore\<close> (\<open>memstore.go\<close>) and \<open>SQLiteStore\<close>
  (\<open>sqlite_store.go\<close>), each interpreted. Failures of the database itself are not
  modelled.
\<close>

section \<open>The interface\<close>

text \<open>
  \<open>contents s sid key\<close> is the abstract state: the value stored for a system and key, if
  any. The laws are what the handlers and the selector resolver rely on.
\<close>

locale label_store =
  fixes inv :: "'s \<Rightarrow> bool"
    and contents :: "'s \<Rightarrow> string \<Rightarrow> (string \<rightharpoonup> string option)"
    and has_system :: "'s \<Rightarrow> string \<Rightarrow> bool"
    and set_label :: "'s \<Rightarrow> string \<Rightarrow> string \<Rightarrow> string option \<Rightarrow> bool \<Rightarrow> (label_error, label) result \<times> 's"
    and delete_label :: "'s \<Rightarrow> string \<Rightarrow> string \<Rightarrow> (label_error, unit) result \<times> 's"
    and for_system :: "'s \<Rightarrow> string \<Rightarrow> label list"
    and for_systems :: "'s \<Rightarrow> string list \<Rightarrow> (string \<rightharpoonup> label list)"
  assumes set_accepts: "is_ok (fst (set_label s sid k v a)) \<longleftrightarrow>
      sid \<noteq> [] \<and> validate_key k a = Inr () \<and> validate_value v = Inr () \<and> has_system s sid"
    and set_inv: "inv s \<Longrightarrow> inv (snd (set_label s sid k v a))"
    and set_result: "fst (set_label s sid k v a) = Inr l \<Longrightarrow> l = \<lparr>lkey = k, lvalue = v\<rparr>"
    and set_contents: "inv s \<Longrightarrow> is_ok (fst (set_label s sid k v a)) \<Longrightarrow>
      contents (snd (set_label s sid k v a)) = (contents s)(sid := (contents s sid)(k \<mapsto> v))"
    and set_rejected: "\<not> is_ok (fst (set_label s sid k v a)) \<Longrightarrow> snd (set_label s sid k v a) = s"
    and delete_accepts: "inv s \<Longrightarrow> fst (delete_label s sid k) =
      (if contents s sid k = None then Inl LabelNotFound else Inr ())"
    and delete_inv: "inv s \<Longrightarrow> inv (snd (delete_label s sid k))"
    and delete_contents: "inv s \<Longrightarrow>
      contents (snd (delete_label s sid k)) = (contents s)(sid := (contents s sid)(k := None))"
    and list_by_key: "inv s \<Longrightarrow> by_key (for_system s sid) = contents s sid"
    and list_sorted: "inv s \<Longrightarrow> sorted_wrt (<) (map lkey (for_system s sid))"
    and list_many: "inv s \<Longrightarrow> for_systems s sids sid =
      (if sid \<in> set sids \<and> for_system s sid \<noteq> [] then Some (for_system s sid) else None)"
begin

text \<open>After a successful write the label is what a lookup returns, whatever was there before.\<close>

lemma set_then_listed:
  assumes "inv s" and "fst (set_label s sid k v a) = Inr l"
  shows "l \<in> set (for_system (snd (set_label s sid k v a)) sid)"
proof -
  let ?s' = "snd (set_label s sid k v a)"
  have inv': "inv ?s'" using assms(1) by (rule set_inv)
  have "is_ok (fst (set_label s sid k v a))" using assms(2) by (simp add: is_ok_iff)
  with assms(1) have "contents ?s' sid k = Some v" by (simp add: set_contents)
  then have bk: "by_key (for_system ?s' sid) k = Some v" using inv' by (simp add: list_by_key)
  have "\<exists>l'\<in>set ls. lkey l' = k \<and> lvalue l' = v" if "by_key ls k = Some v" for ls
    using that by (induction ls) (auto split: option.splits if_splits)
  with bk obtain l' where "l' \<in> set (for_system ?s' sid)" "lkey l' = k" "lvalue l' = v" by blast
  moreover from this have "l' = l" using set_result [OF assms(2)] by simp
  ultimately show ?thesis by simp
qed

lemma set_other_unchanged:
  assumes "inv s" and "sid' \<noteq> sid \<or> k' \<noteq> k"
  shows "contents (snd (set_label s sid k v a)) sid' k' = contents s sid' k'"
  using assms set_contents [of s sid k v a] set_rejected [of s sid k v a]
  by (cases "is_ok (fst (set_label s sid k v a))") auto

text \<open>A label that was absent and is written and deleted leaves no trace.\<close>

lemma set_delete_absent:
  assumes "inv s" and "is_ok (fst (set_label s sid k v a))" and "contents s sid k = None"
  shows "contents (snd (delete_label (snd (set_label s sid k v a)) sid k)) = contents s"
  using assms by (auto simp: delete_contents set_inv set_contents fun_eq_iff)

text \<open>An equality requirement holds of a system right after the label is written.\<close>

lemma set_then_matches:
  assumes "inv s" and "is_ok (fst (set_label s sid k (Some v) a))"
  shows "sel_matches [\<lparr>rop = OpEq, rkey = k, rvalues = [v]\<rparr>]
    (for_system (snd (set_label s sid k (Some v) a)) sid) = Some True"
  using assms by (simp add: sel_matches_def list_by_key set_inv set_contents req_matches_def first_value_def)

lemma delete_twice:
  assumes "inv s"
  shows "fst (delete_label (snd (delete_label s sid k)) sid k) = Inl LabelNotFound"
  using assms by (simp add: delete_accepts delete_inv delete_contents)

text \<open>\<open>ForSystems\<close> is \<open>ForSystem\<close> on each id; a missing entry reads as no labels.\<close>

lemma many_default:
  assumes "inv s" and "sid \<in> set sids"
  shows "(case for_systems s sids sid of None \<Rightarrow> [] | Some ls \<Rightarrow> ls) = for_system s sid"
  using assms by (simp add: list_many)

end

section \<open>Facts shared by the implementations\<close>

lemma by_key_eqI:
  assumes "distinct (map lkey ls)"
  shows "by_key ls k = Some v \<longleftrightarrow> \<lparr>lkey = k, lvalue = v\<rparr> \<in> set ls"
  using assms
proof (induction ls)
  case (Cons l ls)
  have l: "\<lparr>lkey = k, lvalue = v\<rparr> = l \<longleftrightarrow> lkey l = k \<and> lvalue l = v" by auto
  show ?case
  proof (cases "lkey l = k")
    case True
    with Cons.prems have n: "by_key ls k = None" by (auto simp: by_key_None_iff image_iff)
    then have "\<lparr>lkey = k, lvalue = v\<rparr> \<notin> set ls" by (force simp: by_key_None_iff)
    with True n l show ?thesis by auto
  next
    case False
    with Cons l show ?thesis by (auto split: option.splits)
  qed
qed simp

text \<open>\<open>byKey\<close> does not depend on the order of labels with distinct keys.\<close>

lemma by_key_set_cong:
  assumes "set ls = set ms" and "distinct (map lkey ls)" and "distinct (map lkey ms)"
  shows "by_key ls = by_key ms"
proof
  fix k
  have "by_key ls k = Some v \<longleftrightarrow> by_key ms k = Some v" for v
    using assms by (simp add: by_key_eqI)
  then show "by_key ls k = by_key ms k" by (metis not_Some_eq)
qed

lemma sort_by_key: "distinct (map lkey ls) \<Longrightarrow> by_key (sort_key lkey ls) = by_key ls"
proof (rule by_key_set_cong)
  assume d: "distinct (map lkey ls)"
  then have "distinct ls" by (simp add: distinct_map)
  then show "distinct (map lkey (sort_key lkey ls))" using d by (simp add: distinct_map)
qed simp_all

lemma sort_by_key_sorted: "distinct (map lkey ls) \<Longrightarrow> sorted_wrt (<) (map lkey (sort_key lkey ls))"
  by (auto simp: strict_sorted_iff distinct_map)

section \<open>The in-memory store (\<open>memstore.go\<close>)\<close>

text \<open>\<open>Exists\<close> is the callback of the caller, nil for none.\<close>

record mem_labels =
  by_sys :: "(string \<times> (string \<times> string option) list) list"
  mem_exists :: "(string \<Rightarrow> bool) option"

definition mem_has_system :: "mem_labels \<Rightarrow> string \<Rightarrow> bool" where
  "mem_has_system s sid = (case mem_exists s of None \<Rightarrow> True | Some f \<Rightarrow> f sid)"

definition sys_labels :: "mem_labels \<Rightarrow> string \<Rightarrow> (string \<times> string option) list" where
  "sys_labels s sid = (case map_of (by_sys s) sid of None \<Rightarrow> [] | Some m \<Rightarrow> m)"

definition mem_set :: "mem_labels \<Rightarrow> string \<Rightarrow> string \<Rightarrow> string option \<Rightarrow> bool
    \<Rightarrow> (label_error, label) result \<times> mem_labels" where
  "mem_set s sid key value allow =
     (if sid = [] then (Inl (LabelInvalid SystemIdRequired), s)
      else
        (case validate_key key allow of
           Inl e \<Rightarrow> (Inl e, s)
         | Inr _ \<Rightarrow>
             (case validate_value value of
                Inl e \<Rightarrow> (Inl e, s)
              | Inr _ \<Rightarrow>
                  if \<not> mem_has_system s sid then (Inl LabelNotFound, s)
                  else (Inr \<lparr>lkey = key, lvalue = value\<rparr>,
                        s\<lparr>by_sys := alist_put sid (alist_put key value (sys_labels s sid)) (by_sys s)\<rparr>))))"

definition mem_delete :: "mem_labels \<Rightarrow> string \<Rightarrow> string \<Rightarrow> (label_error, unit) result \<times> mem_labels" where
  "mem_delete s sid key =
     (case map_of (by_sys s) sid of
        None \<Rightarrow> (Inl LabelNotFound, s)
      | Some m \<Rightarrow>
          (case map_of m key of
             None \<Rightarrow> (Inl LabelNotFound, s)
           | Some _ \<Rightarrow>
               (let m' = alist_del key m
                in (Inr (), s\<lparr>by_sys := (if m' = [] then alist_del sid (by_sys s)
                                        else alist_put sid m' (by_sys s))\<rparr>))))"

definition entry_label :: "string \<times> string option \<Rightarrow> label" where
  "entry_label e = \<lparr>lkey = fst e, lvalue = snd e\<rparr>"

definition mem_for_system :: "mem_labels \<Rightarrow> string \<Rightarrow> label list" where
  "mem_for_system s sid = sort_key lkey (map entry_label (sys_labels s sid))"

fun mem_for_systems :: "mem_labels \<Rightarrow> string list \<Rightarrow> (string \<rightharpoonup> label list)" where
  "mem_for_systems s [] = Map.empty"
| "mem_for_systems s (sid # sids) =
     (let out = mem_for_systems s sids
      in if sys_labels s sid = [] then out
         else out(sid \<mapsto> sort_key lkey (map entry_label (sys_labels s sid))))"

definition mem_inv :: "mem_labels \<Rightarrow> bool" where
  "mem_inv s = (\<forall>m\<in>ran (map_of (by_sys s)). distinct (map fst m))"

definition mem_contents :: "mem_labels \<Rightarrow> string \<Rightarrow> (string \<rightharpoonup> string option)" where
  "mem_contents s sid = map_of (sys_labels s sid)"

lemma mem_inv_sys: "mem_inv s \<Longrightarrow> distinct (map fst (sys_labels s sid))"
  by (auto simp: mem_inv_def sys_labels_def ran_def split: option.splits)

lemma by_key_entries: "distinct (map fst m) \<Longrightarrow> by_key (map entry_label m) = map_of m"
proof (rule ext)
  fix k
  assume "distinct (map fst m)"
  then show "by_key (map entry_label m) k = map_of m k"
  proof (induction m)
    case (Cons e m)
    then have "fst e = k \<Longrightarrow> map_of m k = None" by (auto simp: map_of_eq_None_iff)
    with Cons show ?case by (cases e) (auto simp: entry_label_def split: option.splits)
  qed simp
qed

lemma map_lkey_entries [simp]: "map lkey (map entry_label m) = map fst m"
  by (simp add: entry_label_def comp_def)

lemma mem_set_ok:
  "is_ok (fst (mem_set s sid k v a)) \<longleftrightarrow>
     sid \<noteq> [] \<and> validate_key k a = Inr () \<and> validate_value v = Inr () \<and> mem_has_system s sid"
  by (auto simp: mem_set_def split: sum.splits)

lemma mem_set_state:
  "snd (mem_set s sid k v a) =
    (if is_ok (fst (mem_set s sid k v a))
     then s\<lparr>by_sys := alist_put sid (alist_put k v (sys_labels s sid)) (by_sys s)\<rparr> else s)"
  by (simp add: mem_set_def split: sum.splits)

lemma ran_updD: "m \<in> ran (f(k \<mapsto> x)) \<Longrightarrow> m = x \<or> m \<in> ran f"
  by (auto simp: ran_def split: if_splits)

lemma ran_delD: "m \<in> ran (f(k := None)) \<Longrightarrow> m \<in> ran f"
  by (auto simp: ran_def split: if_splits)

lemma sort_key_Nil_iff [simp]: "sort_key f xs = [] \<longleftrightarrow> xs = []"
  by (metis length_0_conv length_sort)

lemma mem_inv_set: "mem_inv s \<Longrightarrow> mem_inv (snd (mem_set s sid k v a))"
  using mem_inv_sys [of s sid] by (auto simp: mem_set_state mem_inv_def dest!: ran_updD)

lemma mem_delete_state:
  "snd (mem_delete s sid k) =
    (if mem_contents s sid k = None then s
     else s\<lparr>by_sys := (if alist_del k (sys_labels s sid) = [] then alist_del sid (by_sys s)
                       else alist_put sid (alist_del k (sys_labels s sid)) (by_sys s))\<rparr>)"
  by (auto simp: mem_delete_def mem_contents_def sys_labels_def Let_def split: option.splits)

lemma mem_inv_delete: "mem_inv s \<Longrightarrow> mem_inv (snd (mem_delete s sid k))"
  using mem_inv_sys [of s sid]
  by (auto simp: mem_delete_state mem_inv_def dest!: ran_updD dest: ran_delD)

lemma mem_delete_contents:
  assumes "mem_inv s"
  shows "mem_contents (snd (mem_delete s sid k)) = (mem_contents s)(sid := (mem_contents s sid)(k := None))"
proof -
  have gone: "alist_del k (sys_labels s sid) = [] \<Longrightarrow> (map_of (sys_labels s sid))(k := None) = Map.empty"
    by (metis map_of.simps(1) map_of_alist_del)
  show ?thesis
  proof (rule ext)
    fix x
    show "mem_contents (snd (mem_delete s sid k)) x =
        ((mem_contents s)(sid := (mem_contents s sid)(k := None))) x"
      using gone by (auto simp: mem_delete_state mem_contents_def sys_labels_def fun_upd_idem)
  qed
qed

lemma mem_for_systems_apply:
  "mem_for_systems s sids sid =
    (if sid \<in> set sids \<and> mem_for_system s sid \<noteq> [] then Some (mem_for_system s sid) else None)"
  by (induction sids) (auto simp: mem_for_system_def Let_def)

interpretation mem_store: label_store mem_inv mem_contents mem_has_system mem_set mem_delete
  mem_for_system mem_for_systems
proof (unfold_locales, goal_cases)
  case (1 s sid k v a) show ?case by (rule mem_set_ok)
next
  case (2 s sid k v a) then show ?case by (rule mem_inv_set)
next
  case (3 s sid k v a l) then show ?case by (auto simp: mem_set_def split: sum.splits if_splits)
next
  case (4 s sid k v a) then show ?case
    by (auto simp: mem_set_state mem_contents_def sys_labels_def fun_eq_iff)
next
  case (5 s sid k v a) then show ?case by (simp add: mem_set_state)
next
  case (6 s sid k) show ?case
    by (auto simp: mem_delete_def mem_contents_def sys_labels_def Let_def split: option.splits)
next
  case (7 s sid k) then show ?case by (rule mem_inv_delete)
next
  case (8 s sid k) then show ?case by (rule mem_delete_contents)
next
  case (9 s sid) then show ?case
    using mem_inv_sys [of s sid]
    by (simp add: mem_for_system_def sort_by_key mem_contents_def by_key_entries del: map_map)
next
  case (10 s sid) then show ?case
    using mem_inv_sys [of s sid] by (simp add: mem_for_system_def sort_by_key_sorted del: map_map)
next
  case (11 s sids sid) show ?case by (rule mem_for_systems_apply)
qed

section \<open>The SQLite store (\<open>sqlite_store.go\<close>)\<close>

text \<open>
  The table \<open>system_labels\<close> with its primary key \<open>(system_id, key)\<close>, and the ids of
  \<open>hosts\<close>, which \<open>system_id\<close> references.
\<close>

record sql_labels =
  sl_rows :: "label_row list"
  sl_hosts :: "string list"

definition row_at :: "string \<Rightarrow> string \<Rightarrow> label_row \<Rightarrow> bool" where
  "row_at sid key r = (row_system r = sid \<and> row_key r = key)"

text \<open>\<open>INSERT ... ON CONFLICT(system_id, key) DO UPDATE SET value = excluded.value\<close>\<close>

definition upsert_row :: "string \<Rightarrow> string \<Rightarrow> string option \<Rightarrow> label_row list \<Rightarrow> label_row list" where
  "upsert_row sid key value rows =
     (if list_ex (row_at sid key) rows
      then update_where (row_at sid key) (\<lambda>r. r\<lparr>row_value := value\<rparr>) rows
      else rows @ [\<lparr>row_system = sid, row_key = key, row_value = value\<rparr>])"

definition sql_set :: "sql_labels \<Rightarrow> string \<Rightarrow> string \<Rightarrow> string option \<Rightarrow> bool
    \<Rightarrow> (label_error, label) result \<times> sql_labels" where
  "sql_set s sid key value allow =
     (if sid = [] then (Inl (LabelInvalid SystemIdRequired), s)
      else
        (case validate_key key allow of
           Inl e \<Rightarrow> (Inl e, s)
         | Inr _ \<Rightarrow>
             (case validate_value value of
                Inl e \<Rightarrow> (Inl e, s)
              | Inr _ \<Rightarrow>
                  if sid \<notin> set (sl_hosts s) then (Inl LabelNotFound, s)
                  else (Inr \<lparr>lkey = key, lvalue = value\<rparr>,
                        s\<lparr>sl_rows := upsert_row sid key value (sl_rows s)\<rparr>))))"

definition sql_delete :: "sql_labels \<Rightarrow> string \<Rightarrow> string \<Rightarrow> (label_error, unit) result \<times> sql_labels" where
  "sql_delete s sid key =
     (let n = count_where (row_at sid key) (sl_rows s);
          s' = s\<lparr>sl_rows := delete_where (row_at sid key) (sl_rows s)\<rparr>
      in if n = 0 then (Inl LabelNotFound, s') else (Inr (), s'))"

definition sql_for_system :: "sql_labels \<Rightarrow> string \<Rightarrow> label list" where
  "sql_for_system s sid =
     map row_label (sort_key row_key (filter (\<lambda>r. row_system r = sid) (sl_rows s)))"

text \<open>The loop over the rows of the bulk query, \<open>ORDER BY system_id, key\<close>.\<close>

fun collect_rows :: "label_row list \<Rightarrow> (string \<rightharpoonup> label list) \<Rightarrow> (string \<rightharpoonup> label list)" where
  "collect_rows [] out = out"
| "collect_rows (r # rs) out =
     collect_rows rs
       (out(row_system r \<mapsto>
          (case out (row_system r) of None \<Rightarrow> [] | Some ls \<Rightarrow> ls) @ [row_label r]))"

definition sql_for_systems :: "sql_labels \<Rightarrow> string list \<Rightarrow> (string \<rightharpoonup> label list)" where
  "sql_for_systems s sids =
     (if sids = [] then Map.empty
      else collect_rows
             (sort_key row_system (sort_key row_key (filter (\<lambda>r. row_system r \<in> set sids) (sl_rows s))))
             Map.empty)"

definition sql_has_system :: "sql_labels \<Rightarrow> string \<Rightarrow> bool" where
  "sql_has_system s sid = (sid \<in> set (sl_hosts s))"

definition sql_inv :: "sql_labels \<Rightarrow> bool" where
  "sql_inv s = unique_rows (sl_rows s)"

definition sql_contents :: "sql_labels \<Rightarrow> string \<Rightarrow> (string \<rightharpoonup> string option)" where
  "sql_contents s sid key = map_option row_value (find (row_at sid key) (sl_rows s))"

lemma sql_set_ok:
  "is_ok (fst (sql_set s sid k v a)) \<longleftrightarrow>
     sid \<noteq> [] \<and> validate_key k a = Inr () \<and> validate_value v = Inr () \<and> sql_has_system s sid"
  by (auto simp: sql_set_def sql_has_system_def split: sum.splits)

lemma sql_set_state:
  "snd (sql_set s sid k v a) =
    (if is_ok (fst (sql_set s sid k v a)) then s\<lparr>sl_rows := upsert_row sid k v (sl_rows s)\<rparr> else s)"
  by (simp add: sql_set_def split: sum.splits)

lemma unique_rows_upsert: "unique_rows rows \<Longrightarrow> unique_rows (upsert_row sid k v rows)"
proof -
  assume u: "unique_rows rows"
  have "map (\<lambda>r. (row_system r, row_key r)) (update_where (row_at sid k) (\<lambda>r. r\<lparr>row_value := v\<rparr>) rows)
      = map (\<lambda>r. (row_system r, row_key r)) rows"
    by (rule map_update_where) simp
  then show ?thesis
    using u by (auto simp: unique_rows_def upsert_row_def list_ex_iff row_at_def)
qed

lemma find_upsert:
  "map_option row_value (find (row_at sid' k') (upsert_row sid k v rows)) =
    (if sid' = sid \<and> k' = k then Some v else map_option row_value (find (row_at sid' k') rows))"
proof (cases "list_ex (row_at sid k) rows")
  case True
  have upd: "find (row_at sid' k') (update_where (row_at sid k) (\<lambda>r. r\<lparr>row_value := v\<rparr>) rows) =
      map_option (\<lambda>r. if row_at sid k r then r\<lparr>row_value := v\<rparr> else r) (find (row_at sid' k') rows)"
    by (rule find_update_where) (simp add: row_at_def)
  from True have "find (row_at sid k) rows \<noteq> None"
    by (metis find_None_iff list_ex_iff)
  with True upd show ?thesis
    by (cases "find (row_at sid' k') rows")
      (auto simp: upsert_row_def row_at_def dest: find_Some_in)
next
  case False
  then have "find (row_at sid k) rows = None" by (simp add: find_None_iff list_ex_iff)
  with False show ?thesis
    by (auto simp: upsert_row_def find_append row_at_def split: option.splits)
qed

lemma find_delete_row:
  "map_option row_value (find (row_at sid' k') (delete_where (row_at sid k) rows)) =
    (if sid' = sid \<and> k' = k then None else map_option row_value (find (row_at sid' k') rows))"
  by (induction rows) (auto simp: delete_where_def row_at_def [abs_def])

lemma by_key_rows:
  assumes "unique_rows rows"
  shows "by_key (map row_label (filter (\<lambda>r. row_system r = sid) rows)) k =
    map_option row_value (find (row_at sid k) rows)"
  using assms
proof (induction rows)
  case (Cons r rows)
  then have IH: "by_key (map row_label (filter (\<lambda>r. row_system r = sid) rows)) k =
      map_option row_value (find (row_at sid k) rows)"
    and u: "\<forall>q\<in>set rows. row_system q = row_system r \<longrightarrow> row_key q \<noteq> row_key r"
    by (simp_all add: unique_rows_Cons)
  from u have "row_at sid k r \<Longrightarrow> by_key (map row_label (filter (\<lambda>r. row_system r = sid) rows)) k = None"
    by (auto simp: by_key_None_iff row_at_def)
  moreover have "row_at sid k r \<longleftrightarrow> row_system r = sid \<and> row_key r = k" by (rule row_at_def)
  ultimately show ?case using IH by (auto split: option.splits)
qed simp

lemma map_insort_rows:
  "map row_label (insort_key row_key r rs) = insort_key lkey (row_label r) (map row_label rs)"
  by (induction rs) (auto simp: row_label_def)

lemma map_sort_rows: "map row_label (sort_key row_key rs) = sort_key lkey (map row_label rs)"
  by (induction rs) (auto simp: map_insort_rows)

lemma sql_for_system_alt:
  "sql_for_system s sid = sort_key lkey (map row_label (filter (\<lambda>r. row_system r = sid) (sl_rows s)))"
  by (simp add: sql_for_system_def map_sort_rows)

lemma distinct_keys_of_system:
  assumes "unique_rows rows"
  shows "distinct (map lkey (map row_label (filter (\<lambda>r. row_system r = sid) rows)))"
  using assms by (induction rows) (auto simp: unique_rows_Cons row_label_def)

lemma collect_rows_apply:
  "collect_rows rows out sid =
    (case (filter (\<lambda>r. row_system r = sid) rows, out sid) of
       ([], old) \<Rightarrow> old
     | (rs, None) \<Rightarrow> Some (map row_label rs)
     | (rs, Some ls) \<Rightarrow> Some (ls @ map row_label rs))"
  by (induction rows arbitrary: out) (auto split: list.splits option.splits)

lemma sql_for_systems_apply:
  "sql_for_systems s sids sid =
    (if sid \<in> set sids \<and> sql_for_system s sid \<noteq> [] then Some (sql_for_system s sid) else None)"
proof -
  let ?rows = "sort_key row_system (sort_key row_key (filter (\<lambda>r. row_system r \<in> set sids) (sl_rows s)))"
  have "filter (\<lambda>r. row_system r = sid) ?rows =
      sort_key row_system (sort_key row_key
        (filter (\<lambda>r. row_system r = sid) (filter (\<lambda>r. row_system r \<in> set sids) (sl_rows s))))"
    by (simp add: filter_sort)
  also have "\<dots> = (if sid \<in> set sids then sort_key row_key (filter (\<lambda>r. row_system r = sid) (sl_rows s)) else [])"
  proof -
    have "sort_key row_system rs = rs" if "\<forall>r\<in>set rs. row_system r = sid" for rs
      using that by (intro sort_key_id_if_sorted) (auto simp: sorted_iff_nth_mono)
    from this [of "sort_key row_key (filter (\<lambda>r. row_system r = sid) (sl_rows s))"]
    have "sort_key row_system (sort_key row_key (filter (\<lambda>r. row_system r = sid) (sl_rows s))) =
        sort_key row_key (filter (\<lambda>r. row_system r = sid) (sl_rows s))" by simp
    moreover have "filter (\<lambda>r. row_system r = sid \<and> row_system r \<in> set sids) (sl_rows s) =
        (if sid \<in> set sids then filter (\<lambda>r. row_system r = sid) (sl_rows s) else [])"
      by (auto intro: filter_cong simp: filter_empty_conv)
    ultimately show ?thesis by (simp add: conj_commute)
  qed
  finally show ?thesis
    by (cases "sort_key row_key (filter (\<lambda>r. row_system r = sid) (sl_rows s))")
      (auto simp: sql_for_systems_def collect_rows_apply sql_for_system_def)
qed

lemma sql_delete_state:
  "snd (sql_delete s sid k) = s\<lparr>sl_rows := delete_where (row_at sid k) (sl_rows s)\<rparr>"
  by (simp add: sql_delete_def Let_def)

interpretation sql_store: label_store sql_inv sql_contents sql_has_system sql_set sql_delete
  sql_for_system sql_for_systems
proof (unfold_locales, goal_cases)
  case (1 s sid k v a) show ?case by (rule sql_set_ok)
next
  case (2 s sid k v a) then show ?case by (simp add: sql_set_state sql_inv_def unique_rows_upsert)
next
  case (3 s sid k v a l) then show ?case by (auto simp: sql_set_def split: sum.splits if_splits)
next
  case (4 s sid k v a) then show ?case
    by (simp add: sql_set_state sql_contents_def fun_eq_iff find_upsert)
next
  case (5 s sid k v a) then show ?case by (simp add: sql_set_state)
next
  case (6 s sid k) show ?case
    by (auto simp: sql_delete_def sql_contents_def Let_def find_None_iff)
next
  case (7 s sid k) then show ?case
    by (simp add: sql_delete_state sql_inv_def unique_rows_def distinct_map_delete_where)
next
  case (8 s sid k) then show ?case
    by (simp add: sql_delete_state sql_contents_def fun_eq_iff find_delete_row)
next
  case (9 s sid) then show ?case
    by (simp add: sql_for_system_alt sort_by_key distinct_keys_of_system sql_inv_def
        by_key_rows sql_contents_def fun_eq_iff del: map_map)
next
  case (10 s sid) then show ?case
    by (simp add: sql_for_system_alt sort_by_key_sorted distinct_keys_of_system sql_inv_def del: map_map)
next
  case (11 s sids sid) show ?case by (rule sql_for_systems_apply)
qed

section \<open>The two stores are interchangeable\<close>

lemma label_list_from_keys:
  assumes "distinct (map lkey ls)"
  shows "ls = map (\<lambda>k. \<lparr>lkey = k, lvalue = the (by_key ls k)\<rparr>) (map lkey ls)"
proof (rule nth_equalityI)
  fix i assume i: "i < length ls"
  have "\<lparr>lkey = lkey (ls ! i), lvalue = lvalue (ls ! i)\<rparr> = ls ! i" by simp
  with nth_mem [OF i] have "\<lparr>lkey = lkey (ls ! i), lvalue = lvalue (ls ! i)\<rparr> \<in> set ls"
    by metis
  with assms have "by_key ls (lkey (ls ! i)) = Some (lvalue (ls ! i))"
    by (simp only: by_key_eqI)
  with i show "ls ! i = map (\<lambda>k. \<lparr>lkey = k, lvalue = the (by_key ls k)\<rparr>) (map lkey ls) ! i" by simp
qed simp

lemma sorted_label_list_unique:
  assumes "by_key ls = by_key ms"
    and "sorted_wrt (<) (map lkey ls)" and "sorted_wrt (<) (map lkey ms)"
  shows "ls = ms"
proof -
  have keys: "set (map lkey ns) = {k. by_key ns k \<noteq> None}" for ns
    by (auto simp: by_key_None_iff)
  have d: "distinct (map lkey ls)" "distinct (map lkey ms)"
    using assms(2,3) strict_sorted_iff by blast+
  have "map lkey ls = map lkey ms"
    using assms keys [of ls] keys [of ms] by (intro strict_sorted_equal) simp_all
  with label_list_from_keys [OF d(1)] label_list_from_keys [OF d(2)] assms(1) show ?thesis by metis
qed

datatype label_op =
    SetLabel string string "string option" bool
  | DeleteLabel string string

text \<open>What a call answers, for either store.\<close>

datatype label_answer = SetAnswer "(label_error, label) result" | DeleteAnswer "(label_error, unit) result"

fun mem_step :: "mem_labels \<Rightarrow> label_op \<Rightarrow> label_answer \<times> mem_labels" where
  "mem_step s (SetLabel sid k v a) = (case mem_set s sid k v a of (r, s') \<Rightarrow> (SetAnswer r, s'))"
| "mem_step s (DeleteLabel sid k) = (case mem_delete s sid k of (r, s') \<Rightarrow> (DeleteAnswer r, s'))"

fun sql_step :: "sql_labels \<Rightarrow> label_op \<Rightarrow> label_answer \<times> sql_labels" where
  "sql_step s (SetLabel sid k v a) = (case sql_set s sid k v a of (r, s') \<Rightarrow> (SetAnswer r, s'))"
| "sql_step s (DeleteLabel sid k) = (case sql_delete s sid k of (r, s') \<Rightarrow> (DeleteAnswer r, s'))"

fun mem_run :: "mem_labels \<Rightarrow> label_op list \<Rightarrow> label_answer list \<times> mem_labels" where
  "mem_run s [] = ([], s)"
| "mem_run s (op # ops) =
     (case mem_step s op of (a, s') \<Rightarrow> case mem_run s' ops of (as, s'') \<Rightarrow> (a # as, s''))"

fun sql_run :: "sql_labels \<Rightarrow> label_op list \<Rightarrow> label_answer list \<times> sql_labels" where
  "sql_run s [] = ([], s)"
| "sql_run s (op # ops) =
     (case sql_step s op of (a, s') \<Rightarrow> case sql_run s' ops of (as, s'') \<Rightarrow> (a # as, s''))"

definition same_labels :: "mem_labels \<Rightarrow> sql_labels \<Rightarrow> bool" where
  "same_labels m s = (mem_inv m \<and> sql_inv s \<and> mem_contents m = sql_contents s \<and>
     mem_has_system m = sql_has_system s)"

lemma set_answers_agree:
  "mem_has_system m = sql_has_system s \<Longrightarrow> fst (mem_set m sid k v a) = fst (sql_set s sid k v a)"
  by (simp add: mem_set_def sql_set_def sql_has_system_def fun_eq_iff split: sum.splits)

lemma mem_exists_unchanged:
  "mem_exists (snd (mem_set m sid k v a)) = mem_exists m"
  "mem_exists (snd (mem_delete m sid k)) = mem_exists m"
  by (simp_all add: mem_set_state mem_delete_state)

lemma sl_hosts_unchanged:
  "sl_hosts (snd (sql_set s sid k v a)) = sl_hosts s"
  "sl_hosts (snd (sql_delete s sid k)) = sl_hosts s"
  by (simp_all add: sql_set_state sql_delete_state)

lemma has_system_unchanged:
  "mem_has_system (snd (mem_step m op)) = mem_has_system m"
  "sql_has_system (snd (sql_step s op)) = sql_has_system s"
  by (cases op; simp add: mem_has_system_def [abs_def] mem_exists_unchanged case_prod_unfold)
    (cases op; simp add: sql_has_system_def [abs_def] sl_hosts_unchanged case_prod_unfold)

lemma step_agrees:
  assumes "same_labels m s"
  shows "fst (mem_step m op) = fst (sql_step s op) \<and> same_labels (snd (mem_step m op)) (snd (sql_step s op))"
proof (cases op)
  case (SetLabel sid k v a)
  from assms have inv: "mem_inv m" "sql_inv s" and c: "mem_contents m = sql_contents s"
    and h: "mem_has_system m = sql_has_system s" by (simp_all add: same_labels_def)
  from h have ans: "fst (mem_set m sid k v a) = fst (sql_set s sid k v a)" by (rule set_answers_agree)
  have "mem_contents (snd (mem_set m sid k v a)) = sql_contents (snd (sql_set s sid k v a))"
    using ans inv c mem_store.set_contents [of m sid k v a] sql_store.set_contents [of s sid k v a]
      mem_store.set_rejected [of m sid k v a] sql_store.set_rejected [of s sid k v a]
    by (cases "is_ok (fst (mem_set m sid k v a))") auto
  with ans inv h SetLabel show ?thesis
    using mem_store.set_inv [of m sid k v a] sql_store.set_inv [of s sid k v a]
      has_system_unchanged(1) [of m op] has_system_unchanged(2) [of s op]
    by (auto simp: same_labels_def split: prod.splits)
next
  case (DeleteLabel sid k)
  from assms have inv: "mem_inv m" "sql_inv s" and c: "mem_contents m = sql_contents s"
    and h: "mem_has_system m = sql_has_system s" by (simp_all add: same_labels_def)
  from inv c have ans: "fst (mem_delete m sid k) = fst (sql_delete s sid k)"
    by (simp add: mem_store.delete_accepts sql_store.delete_accepts)
  have "mem_contents (snd (mem_delete m sid k)) = sql_contents (snd (sql_delete s sid k))"
    using inv c by (simp add: mem_store.delete_contents sql_store.delete_contents)
  with ans inv h DeleteLabel show ?thesis
    using mem_store.delete_inv [of m sid k] sql_store.delete_inv [of s sid k]
      has_system_unchanged(1) [of m op] has_system_unchanged(2) [of s op]
    by (auto simp: same_labels_def split: prod.splits)
qed

lemma runs_agree:
  "same_labels m s \<Longrightarrow>
   fst (mem_run m ops) = fst (sql_run s ops) \<and> same_labels (snd (mem_run m ops)) (snd (sql_run s ops))"
proof (induction ops arbitrary: m s)
  case (Cons op ops)
  from step_agrees [OF Cons.prems, of op] Cons.IH [of "snd (mem_step m op)" "snd (sql_step s op)"]
  show ?case by (auto split: prod.splits)
qed simp

lemma lists_agree: "same_labels m s \<Longrightarrow> mem_for_system m sid = sql_for_system s sid"
  by (rule sorted_label_list_unique)
    (simp_all add: same_labels_def mem_store.list_by_key sql_store.list_by_key
      mem_store.list_sorted sql_store.list_sorted)

text \<open>
  the in-memory store and the SQLite store are interchangeable. Started on the same
  labels and the same set of systems, they answer every sequence of writes and deletes
  alike, and \<open>ForSystem\<close> and \<open>ForSystems\<close> then return the same lists.
\<close>

theorem label_stores_interchangeable:
  assumes "same_labels m s"
  shows "fst (mem_run m ops) = fst (sql_run s ops) \<and>
    mem_for_system (snd (mem_run m ops)) sid = sql_for_system (snd (sql_run s ops)) sid \<and>
    mem_for_systems (snd (mem_run m ops)) sids sid = sql_for_systems (snd (sql_run s ops)) sids sid"
proof -
  from runs_agree [OF assms, of ops]
  have "mem_for_system (snd (mem_run m ops)) = sql_for_system (snd (sql_run s ops))"
    using lists_agree by blast
  with runs_agree [OF assms, of ops] show ?thesis
    by (simp add: mem_for_systems_apply sql_for_systems_apply)
qed

lemma label_stores_interchangeable_witness:
  "same_labels \<lparr>by_sys = [], mem_exists = Some (\<lambda>x. x = ''s1'')\<rparr> \<lparr>sl_rows = [], sl_hosts = [''s1'']\<rparr> \<and>
   fst (mem_run \<lparr>by_sys = [], mem_exists = Some (\<lambda>x. x = ''s1'')\<rparr> [SetLabel ''s1'' ''env'' None False]) =
   fst (sql_run \<lparr>sl_rows = [], sl_hosts = [''s1'']\<rparr> [SetLabel ''s1'' ''env'' None False])"
proof -
  have "same_labels \<lparr>by_sys = [], mem_exists = Some (\<lambda>x. x = ''s1'')\<rparr> \<lparr>sl_rows = [], sl_hosts = [''s1'']\<rparr>"
    by (auto simp: same_labels_def mem_inv_def sql_inv_def unique_rows_def mem_contents_def
        sql_contents_def sys_labels_def mem_has_system_def sql_has_system_def fun_eq_iff)
  from this label_stores_interchangeable [OF this, of "[SetLabel ''s1'' ''env'' None False]"]
  show ?thesis by blast
qed

text \<open>
  After an accepted write of a value, the equality selector of that key and value
  matches the labels \<open>ForSystem\<close> lists for the system, and the SQL condition the same
  selector compiles to holds on the table.
\<close>

theorem written_label_is_selected:
  assumes "sql_inv s" and "is_ok (fst (sql_set s sid k (Some v) a))"
  shows "sel_matches [\<lparr>rop = OpEq, rkey = k, rvalues = [v]\<rparr>]
      (sql_for_system (snd (sql_set s sid k (Some v) a)) sid) = Some True \<and>
    cond_holds (sl_rows (snd (sql_set s sid k (Some v) a))) sid
      \<lparr>c_negated = False, c_key = k, c_filter = ValueEq v\<rparr>"
proof
  show "sel_matches [\<lparr>rop = OpEq, rkey = k, rvalues = [v]\<rparr>]
      (sql_for_system (snd (sql_set s sid k (Some v) a)) sid) = Some True"
    using assms by (rule sql_store.set_then_matches)
  let ?rows = "sl_rows (snd (sql_set s sid k (Some v) a))"
  have "unique_rows ?rows"
    using sql_store.set_inv [OF assms(1)] by (simp add: sql_inv_def)
  moreover from this have "by_key (labels_of ?rows sid) k = Some (Some v)"
    using sql_store.set_contents [OF assms]
    by (simp add: labels_of_def by_key_rows flip: sql_contents_def)
  ultimately show "cond_holds ?rows sid \<lparr>c_negated = False, c_key = k, c_filter = ValueEq v\<rparr>"
    by (simp add: cond_holds_iff)
qed

lemma written_label_is_selected_witness:
  "sel_matches [\<lparr>rop = OpEq, rkey = ''env'', rvalues = [''prod'']\<rparr>]
      (sql_for_system (snd (sql_set \<lparr>sl_rows = [], sl_hosts = [''s1'']\<rparr> ''s1'' ''env'' (Some ''prod'') False)) ''s1'')
      = Some True \<and>
    cond_holds (sl_rows (snd (sql_set \<lparr>sl_rows = [], sl_hosts = [''s1'']\<rparr> ''s1'' ''env'' (Some ''prod'') False))) ''s1''
      \<lparr>c_negated = False, c_key = ''env'', c_filter = ValueEq ''prod''\<rparr>"
  by (rule written_label_is_selected) (code_simp, code_simp)

end
