(* ===== verification/AuthStore.thy ===== *)
theory AuthStore
  imports GoStrings
begin

text \<open>
  The tables of \<open>internal/auth\<close> and the operations of \<open>SQLiteAuthStore\<close> on them
  (\<open>store.go\<close>, \<open>session_store.go\<close>). A table is its list of rows; an operation returns
  an error and changes nothing (a failed statement, or a transaction rolled back), or returns
  its result with the new tables. Times are nanoseconds since 1970 (\<open>UnixNano\<close>). The
  record of the tables is extensible: the role tables of \<open>internal/rbac\<close>, which share the
  database, extend it. Failures of the driver (I/O, a closed handle) are not modelled; the
  constraints of the schema are.
\<close>

section \<open>Data\<close>

datatype auth_error =
    Invalid string
  | Unauthorized
  | UserNotFound
  | UserExists
  | SessionNotFound
  | LastGlobalAdmin
  | SqlConstraint

text \<open>A ciphertext with its nonce and the version of the key that sealed it (\<open>sealed.go\<close>).\<close>

record sealed =
  ciphertext :: string
  nonce :: string
  key_version :: int

definition zero_sealed :: sealed where
  "zero_sealed = \<lparr>ciphertext = [], nonce = [], key_version = 0\<rparr>"

definition sealed_is_zero :: "sealed \<Rightarrow> bool" where
  "sealed_is_zero s = (ciphertext s = [])"

text \<open>\<open>User\<close>, what the API shows of an account.\<close>

record user =
  user_id :: string
  username :: string
  email :: string
  theme :: string
  created_at :: int
  totp_enabled :: bool
  disabled :: bool
  disabled_at :: "int option"
  failed_attempts :: int
  locked_until :: "int option"
  must_change_password :: bool

text \<open>A row of the table \<open>users\<close>; \<open>None\<close> is NULL.\<close>

record user_row =
  row_id :: string
  row_username :: string
  row_hash :: string
  row_email :: string
  row_theme :: string
  row_created :: int
  row_totp_enabled :: bool
  row_totp_secret :: "sealed option"
  row_totp_pending :: "sealed option"
  row_totp_confirmed :: "int option"
  row_totp_epoch :: int
  row_totp_last_step :: int
  row_disabled_at :: "int option"
  row_failed :: int
  row_locked_until :: "int option"
  row_must_change :: bool

record session =
  ses_id :: string
  ses_user :: string
  ses_label :: string
  ses_ip :: string
  ses_created :: int
  ses_last_seen :: int
  ses_expires :: int

record device =
  dev_id :: string
  dev_user :: string
  dev_label :: string
  dev_created :: int
  dev_last_used :: int
  dev_expires :: int
  dev_epoch :: int

record recovery_row =
  rec_user :: string
  rec_hash :: string
  rec_used :: "int option"

record auth_db =
  users :: "user_row list"
  meta :: "(string \<times> string) list"
  devices :: "device list"
  recovery :: "recovery_row list"
  sessions :: "session list"

record totp_state =
  ts_enabled :: bool
  ts_secret :: sealed
  ts_pending :: sealed
  ts_epoch :: int
  ts_last_step :: int

text \<open>\<open>scanUser\<close>\<close>

definition scan_user :: "user_row \<Rightarrow> user" where
  "scan_user r = \<lparr>user_id = row_id r, username = row_username r, email = row_email r,
     theme = row_theme r, created_at = row_created r, totp_enabled = row_totp_enabled r,
     disabled = (row_disabled_at r \<noteq> None), disabled_at = row_disabled_at r,
     failed_attempts = row_failed r, locked_until = row_locked_until r,
     must_change_password = row_must_change r\<rparr>"

lemma scan_user_sel [simp]:
  "user_id (scan_user r) = row_id r" "username (scan_user r) = row_username r"
  "disabled (scan_user r) = (row_disabled_at r \<noteq> None)"
  "failed_attempts (scan_user r) = row_failed r"
  "locked_until (scan_user r) = row_locked_until r"
  "must_change_password (scan_user r) = row_must_change r"
  by (simp_all add: scan_user_def)

section \<open>Accounts\<close>

definition user_row_of :: "string \<Rightarrow> 'a auth_db_scheme \<Rightarrow> user_row option" where
  "user_row_of uid db = find (\<lambda>r. row_id r = uid) (users db)"

definition count_users :: "'a auth_db_scheme \<Rightarrow> nat" where
  "count_users db = length (users db)"

definition count_enabled :: "'a auth_db_scheme \<Rightarrow> nat" where
  "count_enabled db = count_where (\<lambda>r. row_disabled_at r = None) (users db)"

definition create_user :: "string \<Rightarrow> int \<Rightarrow> string \<Rightarrow> string \<Rightarrow> 'a auth_db_scheme
    \<Rightarrow> (auth_error, user \<times> 'a auth_db_scheme) result" where
  "create_user new_id now name0 pw_hash db =
     (let name = trim_space name0
      in if length name < 1 then Inl (Invalid ''username required'')
         else if \<exists>r\<in>set (users db). row_id r = new_id \<or> row_username r = name then Inl UserExists
         else
           (let r = \<lparr>row_id = new_id, row_username = name, row_hash = pw_hash, row_email = [],
                     row_theme = [], row_created = now, row_totp_enabled = False,
                     row_totp_secret = None, row_totp_pending = None, row_totp_confirmed = None,
                     row_totp_epoch = 0, row_totp_last_step = 0, row_disabled_at = None,
                     row_failed = 0, row_locked_until = None, row_must_change = False\<rparr>
            in Inr (scan_user r, db\<lparr>users := users db @ [r]\<rparr>)))"

definition get_by_username :: "string \<Rightarrow> 'a auth_db_scheme \<Rightarrow> (auth_error, user \<times> string) result" where
  "get_by_username name db =
     (case find (\<lambda>r. row_username r = name) (users db) of
        None \<Rightarrow> Inl UserNotFound
      | Some r \<Rightarrow> Inr (scan_user r, row_hash r))"

definition get_by_id :: "string \<Rightarrow> 'a auth_db_scheme \<Rightarrow> (auth_error, user) result" where
  "get_by_id uid db =
     (case user_row_of uid db of None \<Rightarrow> Inl UserNotFound | Some r \<Rightarrow> Inr (scan_user r))"

definition get_hash_by_id :: "string \<Rightarrow> 'a auth_db_scheme \<Rightarrow> (auth_error, string) result" where
  "get_hash_by_id uid db =
     (case user_row_of uid db of None \<Rightarrow> Inl UserNotFound | Some r \<Rightarrow> Inr (row_hash r))"

definition list_users :: "'a auth_db_scheme \<Rightarrow> user list" where
  "list_users db = map scan_user (sort_key row_created (users db))"

text \<open>\<open>UPDATE users SET ... WHERE id = ?\<close> with its check of the number of rows affected.\<close>

definition update_user :: "string \<Rightarrow> (user_row \<Rightarrow> user_row) \<Rightarrow> 'a auth_db_scheme
    \<Rightarrow> (auth_error, 'a auth_db_scheme) result" where
  "update_user uid f db =
     (if count_where (\<lambda>r. row_id r = uid) (users db) = 0 then Inl UserNotFound
      else Inr (db\<lparr>users := update_where (\<lambda>r. row_id r = uid) f (users db)\<rparr>))"

definition valid_theme :: "string \<Rightarrow> bool" where
  "valid_theme s = (s = [] \<or> s = ''light'' \<or> s = ''dark'')"

definition update_profile :: "string \<Rightarrow> string \<Rightarrow> string \<Rightarrow> 'a auth_db_scheme
    \<Rightarrow> (auth_error, user \<times> 'a auth_db_scheme) result" where
  "update_profile uid mail0 th db =
     (let mail = trim_space mail0
      in if \<not> valid_theme th then Inl (Invalid ''invalid theme'')
         else rbind (update_user uid (\<lambda>r. r\<lparr>row_email := mail, row_theme := th\<rparr>) db)
           (\<lambda>db'. rbind (get_by_id uid db') (\<lambda>u. Inr (u, db'))))"

definition clear_lockout :: "user_row \<Rightarrow> user_row" where
  "clear_lockout r = r\<lparr>row_failed := 0, row_locked_until := None\<rparr>"

definition update_password :: "string \<Rightarrow> string \<Rightarrow> 'a auth_db_scheme
    \<Rightarrow> (auth_error, 'a auth_db_scheme) result" where
  "update_password uid pw_hash =
     update_user uid (\<lambda>r. clear_lockout (r\<lparr>row_hash := pw_hash, row_must_change := False\<rparr>))"

definition admin_set_password :: "string \<Rightarrow> string \<Rightarrow> 'a auth_db_scheme
    \<Rightarrow> (auth_error, 'a auth_db_scheme) result" where
  "admin_set_password uid pw_hash =
     update_user uid (\<lambda>r. clear_lockout (r\<lparr>row_hash := pw_hash, row_must_change := True\<rparr>))"

definition record_login_failure_row :: "string \<Rightarrow> int option \<Rightarrow> 'a auth_db_scheme
    \<Rightarrow> (auth_error, int \<times> 'a auth_db_scheme) result" where
  "record_login_failure_row uid until db =
     (case user_row_of uid db of
        None \<Rightarrow> Inl UserNotFound
      | Some r \<Rightarrow>
          (let n = row_failed r + 1
           in rbind
             (update_user uid
               (\<lambda>r. case until of
                       Some t \<Rightarrow> r\<lparr>row_failed := n, row_locked_until := Some t\<rparr>
                     | None \<Rightarrow> r\<lparr>row_failed := n\<rparr>) db)
             (\<lambda>db'. Inr (n, db'))))"

definition clear_login_failures :: "string \<Rightarrow> 'a auth_db_scheme
    \<Rightarrow> (auth_error, 'a auth_db_scheme) result" where
  "clear_login_failures uid = update_user uid clear_lockout"

definition set_disabled :: "string \<Rightarrow> bool \<Rightarrow> int \<Rightarrow> 'a auth_db_scheme
    \<Rightarrow> (auth_error, user \<times> 'a auth_db_scheme) result" where
  "set_disabled uid dis now db =
     rbind (update_user uid (\<lambda>r. r\<lparr>row_disabled_at := (if dis then Some now else None)\<rparr>) db)
       (\<lambda>db'. rbind (get_by_id uid db') (\<lambda>u. Inr (u, db')))"

text \<open>
  \<open>Delete\<close>: the transaction of the user row and the dependent rows. \<open>cascade\<close> is what
  the foreign keys of other tables do when the row goes, \<open>post_delete\<close> the hook that
  \<open>cmd/server/main.go\<close> installs, whose error rolls everything back.
\<close>

definition delete_user :: "(string \<Rightarrow> 'a auth_db_scheme \<Rightarrow> 'a auth_db_scheme)
    \<Rightarrow> (string \<Rightarrow> 'a auth_db_scheme \<Rightarrow> (auth_error, 'a auth_db_scheme) result)
    \<Rightarrow> string \<Rightarrow> 'a auth_db_scheme \<Rightarrow> (auth_error, 'a auth_db_scheme) result" where
  "delete_user cascade post_delete uid db =
     (if count_where (\<lambda>r. row_id r = uid) (users db) = 0 then Inl UserNotFound
      else
        (let db1 = cascade uid (db\<lparr>users := delete_where (\<lambda>r. row_id r = uid) (users db)\<rparr>);
             db2 = db1\<lparr>devices := delete_where (\<lambda>d. dev_user d = uid) (devices db1)\<rparr>;
             db3 = db2\<lparr>recovery := delete_where (\<lambda>c. rec_user c = uid) (recovery db2)\<rparr>
         in post_delete uid db3))"

section \<open>The secrets kept in \<open>meta\<close>\<close>

definition load_secret :: "string \<Rightarrow> 'a auth_db_scheme \<Rightarrow> string option" where
  "load_secret k db = map_of (meta db) k"

definition save_secret :: "string \<Rightarrow> string \<Rightarrow> 'a auth_db_scheme \<Rightarrow> 'a auth_db_scheme" where
  "save_secret k v db = db\<lparr>meta := alist_put k v (meta db)\<rparr>"

text \<open>\<open>LoadOrInitSecret\<close>; \<open>fresh\<close> are the 32 random bytes it draws when there is none.\<close>

definition load_or_init_secret :: "string \<Rightarrow> 'a auth_db_scheme \<Rightarrow> string \<times> 'a auth_db_scheme" where
  "load_or_init_secret fresh db =
     (case load_secret ''session_secret'' db of
        Some v \<Rightarrow> (v, db)
      | None \<Rightarrow> (fresh, save_secret ''session_secret'' fresh db))"

section \<open>The second factor\<close>

definition set_pending_secret :: "string \<Rightarrow> sealed \<Rightarrow> 'a auth_db_scheme
    \<Rightarrow> (auth_error, 'a auth_db_scheme) result" where
  "set_pending_secret uid s = update_user uid (\<lambda>r. r\<lparr>row_totp_pending := Some s\<rparr>)"

definition activate_totp :: "string \<Rightarrow> sealed \<Rightarrow> int \<Rightarrow> 'a auth_db_scheme
    \<Rightarrow> (auth_error, 'a auth_db_scheme) result" where
  "activate_totp uid s at =
     update_user uid (\<lambda>r. r\<lparr>row_totp_secret := Some s, row_totp_pending := None,
       row_totp_enabled := True, row_totp_confirmed := Some at, row_totp_last_step := 0\<rparr>)"

definition wipe_totp :: "user_row \<Rightarrow> user_row" where
  "wipe_totp r = r\<lparr>row_totp_enabled := False, row_totp_secret := None, row_totp_pending := None,
     row_totp_confirmed := None, row_totp_last_step := 0, row_totp_epoch := row_totp_epoch r + 1\<rparr>"

definition delete_factor_rows :: "string \<Rightarrow> 'a auth_db_scheme \<Rightarrow> 'a auth_db_scheme" where
  "delete_factor_rows uid db =
     (let db1 = db\<lparr>recovery := delete_where (\<lambda>c. rec_user c = uid) (recovery db)\<rparr>
      in db1\<lparr>devices := delete_where (\<lambda>d. dev_user d = uid) (devices db1)\<rparr>)"

definition disable_totp :: "string \<Rightarrow> 'a auth_db_scheme \<Rightarrow> (auth_error, 'a auth_db_scheme) result" where
  "disable_totp uid db =
     rbind (update_user uid wipe_totp db) (\<lambda>db'. Inr (delete_factor_rows uid db'))"

definition admin_reset_totp :: "string \<Rightarrow> 'a auth_db_scheme \<Rightarrow> (auth_error, 'a auth_db_scheme) result" where
  "admin_reset_totp uid db =
     rbind (update_user uid (\<lambda>r. clear_lockout (wipe_totp r)) db)
       (\<lambda>db'. Inr (delete_factor_rows uid db'))"

definition get_totp_state :: "string \<Rightarrow> 'a auth_db_scheme \<Rightarrow> (auth_error, totp_state) result" where
  "get_totp_state uid db =
     (case user_row_of uid db of
        None \<Rightarrow> Inl UserNotFound
      | Some r \<Rightarrow>
          Inr \<lparr>ts_enabled = row_totp_enabled r,
               ts_secret = (case row_totp_secret r of None \<Rightarrow> zero_sealed | Some s \<Rightarrow> s),
               ts_pending = (case row_totp_pending r of None \<Rightarrow> zero_sealed | Some s \<Rightarrow> s),
               ts_epoch = row_totp_epoch r, ts_last_step = row_totp_last_step r\<rparr>)"

definition consume_step :: "string \<Rightarrow> int \<Rightarrow> 'a auth_db_scheme
    \<Rightarrow> (auth_error, 'a auth_db_scheme) result" where
  "consume_step uid step db =
     (let hit = (\<lambda>r. row_id r = uid \<and> row_totp_last_step r < step)
      in if count_where hit (users db) = 0 then Inl Unauthorized
         else Inr (db\<lparr>users := update_where hit (\<lambda>r. r\<lparr>row_totp_last_step := step\<rparr>) (users db)\<rparr>))"

text \<open>Recovery codes; \<open>(user_id, code_hash)\<close> is the primary key.\<close>

definition insert_recovery_codes :: "string \<Rightarrow> string list \<Rightarrow> 'a auth_db_scheme
    \<Rightarrow> (auth_error, 'a auth_db_scheme) result" where
  "insert_recovery_codes uid hashes db =
     (if \<not> distinct hashes then Inl SqlConstraint
      else Inr (db\<lparr>recovery := delete_where (\<lambda>c. rec_user c = uid) (recovery db)
             @ map (\<lambda>h. \<lparr>rec_user = uid, rec_hash = h, rec_used = None\<rparr>) hashes\<rparr>))"

text \<open>\<open>matches\<close> is \<open>CompareRecoveryCode\<close> with the presented code.\<close>

definition consume_recovery_code :: "string \<Rightarrow> (string \<Rightarrow> bool) \<Rightarrow> int \<Rightarrow> 'a auth_db_scheme
    \<Rightarrow> (auth_error, 'a auth_db_scheme) result" where
  "consume_recovery_code uid matches now db =
     (let hashes = map rec_hash (filter (\<lambda>c. rec_user c = uid \<and> rec_used c = None) (recovery db))
      in case find matches hashes of
           None \<Rightarrow> Inl Unauthorized
         | Some h \<Rightarrow>
             (let hit = (\<lambda>c. rec_user c = uid \<and> rec_hash c = h \<and> rec_used c = None)
              in if count_where hit (recovery db) = 0 then Inl Unauthorized
                 else Inr (db\<lparr>recovery := update_where hit (\<lambda>c. c\<lparr>rec_used := Some now\<rparr>) (recovery db)\<rparr>)))"

definition delete_recovery_codes :: "string \<Rightarrow> 'a auth_db_scheme \<Rightarrow> 'a auth_db_scheme" where
  "delete_recovery_codes uid db = db\<lparr>recovery := delete_where (\<lambda>c. rec_user c = uid) (recovery db)\<rparr>"

section \<open>Trusted devices\<close>

definition insert_device :: "device \<Rightarrow> 'a auth_db_scheme \<Rightarrow> (auth_error, 'a auth_db_scheme) result" where
  "insert_device d db =
     (if \<exists>x\<in>set (devices db). dev_id x = dev_id d then Inl SqlConstraint
      else Inr (db\<lparr>devices := devices db @ [d]\<rparr>))"

definition get_device :: "string \<Rightarrow> 'a auth_db_scheme \<Rightarrow> (auth_error, device) result" where
  "get_device did db =
     (case find (\<lambda>d. dev_id d = did) (devices db) of None \<Rightarrow> Inl UserNotFound | Some d \<Rightarrow> Inr d)"

definition list_devices :: "string \<Rightarrow> 'a auth_db_scheme \<Rightarrow> device list" where
  "list_devices uid db = sort_key (\<lambda>d. - dev_last_used d) (filter (\<lambda>d. dev_user d = uid) (devices db))"

definition delete_device :: "string \<Rightarrow> string \<Rightarrow> 'a auth_db_scheme
    \<Rightarrow> (auth_error, 'a auth_db_scheme) result" where
  "delete_device did uid db =
     (let hit = (\<lambda>d. dev_id d = did \<and> dev_user d = uid)
      in if count_where hit (devices db) = 0 then Inl UserNotFound
         else Inr (db\<lparr>devices := delete_where hit (devices db)\<rparr>))"

definition delete_devices_for_user :: "string \<Rightarrow> 'a auth_db_scheme \<Rightarrow> 'a auth_db_scheme" where
  "delete_devices_for_user uid db = db\<lparr>devices := delete_where (\<lambda>d. dev_user d = uid) (devices db)\<rparr>"

definition touch_device :: "string \<Rightarrow> int \<Rightarrow> 'a auth_db_scheme
    \<Rightarrow> (auth_error, 'a auth_db_scheme) result" where
  "touch_device did last_used db =
     (let hit = (\<lambda>d. dev_id d = did)
      in if count_where hit (devices db) = 0 then Inl UserNotFound
         else Inr (db\<lparr>devices := update_where hit (\<lambda>d. d\<lparr>dev_last_used := last_used\<rparr>) (devices db)\<rparr>))"

section \<open>Sessions\<close>

definition create_session :: "session \<Rightarrow> 'a auth_db_scheme \<Rightarrow> (auth_error, 'a auth_db_scheme) result" where
  "create_session x db =
     (if \<exists>y\<in>set (sessions db). ses_id y = ses_id x then Inl SqlConstraint
      else Inr (db\<lparr>sessions := sessions db @ [x]\<rparr>))"

definition get_session :: "string \<Rightarrow> 'a auth_db_scheme \<Rightarrow> (auth_error, session) result" where
  "get_session sid db =
     (case find (\<lambda>x. ses_id x = sid) (sessions db) of None \<Rightarrow> Inl SessionNotFound | Some x \<Rightarrow> Inr x)"

definition touch_session :: "string \<Rightarrow> int \<Rightarrow> 'a auth_db_scheme \<Rightarrow> 'a auth_db_scheme" where
  "touch_session sid last_seen db =
     db\<lparr>sessions := update_where (\<lambda>x. ses_id x = sid) (\<lambda>x. x\<lparr>ses_last_seen := last_seen\<rparr>) (sessions db)\<rparr>"

definition revoke_session :: "string \<Rightarrow> string \<Rightarrow> 'a auth_db_scheme
    \<Rightarrow> (auth_error, 'a auth_db_scheme) result" where
  "revoke_session sid uid db =
     (let hit = (\<lambda>x. ses_id x = sid \<and> ses_user x = uid)
      in if count_where hit (sessions db) = 0 then Inl SessionNotFound
         else Inr (db\<lparr>sessions := delete_where hit (sessions db)\<rparr>))"

text \<open>The bulk deletions return how many rows went.\<close>

definition delete_sessions :: "(session \<Rightarrow> bool) \<Rightarrow> 'a auth_db_scheme \<Rightarrow> nat \<times> 'a auth_db_scheme" where
  "delete_sessions hit db =
     (count_where hit (sessions db), db\<lparr>sessions := delete_where hit (sessions db)\<rparr>)"

definition revoke_user_sessions :: "string \<Rightarrow> 'a auth_db_scheme \<Rightarrow> nat \<times> 'a auth_db_scheme" where
  "revoke_user_sessions uid = delete_sessions (\<lambda>x. ses_user x = uid)"

definition revoke_other_user_sessions :: "string \<Rightarrow> string \<Rightarrow> 'a auth_db_scheme
    \<Rightarrow> nat \<times> 'a auth_db_scheme" where
  "revoke_other_user_sessions uid keep = delete_sessions (\<lambda>x. ses_user x = uid \<and> ses_id x \<noteq> keep)"

definition list_sessions :: "string \<Rightarrow> 'a auth_db_scheme \<Rightarrow> session list" where
  "list_sessions uid db =
     sort_key (\<lambda>x. - ses_last_seen x) (filter (\<lambda>x. ses_user x = uid) (sessions db))"

definition delete_expired_sessions :: "int \<Rightarrow> 'a auth_db_scheme \<Rightarrow> nat \<times> 'a auth_db_scheme" where
  "delete_expired_sessions before = delete_sessions (\<lambda>x. ses_expires x \<le> before)"

section \<open>Well-formed tables\<close>

text \<open>What the primary keys and the unique index on the name keep.\<close>

definition wf_auth :: "'a auth_db_scheme \<Rightarrow> bool" where
  "wf_auth db \<longleftrightarrow> distinct (map row_id (users db)) \<and> distinct (map row_username (users db)) \<and>
     distinct (map dev_id (devices db)) \<and> distinct (map ses_id (sessions db)) \<and>
     distinct (map (\<lambda>c. (rec_user c, rec_hash c)) (recovery db))"

text \<open>How an update of one account shows in the lookups.\<close>

lemma update_user_InrD:
  assumes "update_user uid f db = Inr db'"
  obtains r where "r \<in> set (users db)" "row_id r = uid"
    "db' = db\<lparr>users := update_where (\<lambda>r. row_id r = uid) f (users db)\<rparr>"
  using assms by (auto simp: update_user_def split: if_splits)

lemma update_user_ok_iff: "is_ok (update_user uid f db) \<longleftrightarrow> uid \<in> row_id ` set (users db)"
  by (auto simp: update_user_def is_ok_iff)

lemma user_row_of_update:
  assumes "\<And>r. row_id (f r) = row_id r" and "update_user uid f db = Inr db'"
  shows "user_row_of i db' = (if i = uid then map_option f (user_row_of i db) else user_row_of i db)"
proof -
  have "map_option (\<lambda>r. if row_id r = uid then f r else r) (user_row_of i db) =
      (if i = uid then map_option f (user_row_of i db) else user_row_of i db)"
    by (cases "user_row_of i db") (auto simp: user_row_of_def dest: find_Some_in)
  with assms show ?thesis
    by (auto simp: user_row_of_def rows_simps elim!: update_user_InrD)
qed

lemma user_row_of_Some:
  "user_row_of uid db = Some r \<Longrightarrow> r \<in> set (users db) \<and> row_id r = uid"
  unfolding user_row_of_def by (rule find_Some_in)

lemma user_row_of_None: "user_row_of uid db = None \<longleftrightarrow> uid \<notin> row_id ` set (users db)"
  by (auto simp: user_row_of_def find_None_iff)

lemma user_row_of_wf:
  "wf_auth db \<Longrightarrow> r \<in> set (users db) \<Longrightarrow> user_row_of (row_id r) db = Some r"
  unfolding user_row_of_def by (rule find_unique) (simp_all add: wf_auth_def)

lemma update_user_wf:
  assumes "wf_auth db" "update_user uid f db = Inr db'"
    and "\<And>r. row_id (f r) = row_id r" "\<And>r. row_username (f r) = row_username r"
  shows "wf_auth db'"
  using assms by (auto simp: wf_auth_def map_update_where elim!: update_user_InrD)

lemma clear_lockout_sel [simp]:
  "row_id (clear_lockout r) = row_id r" "row_username (clear_lockout r) = row_username r"
  "row_hash (clear_lockout r) = row_hash r" "row_failed (clear_lockout r) = 0"
  "row_locked_until (clear_lockout r) = None" "row_disabled_at (clear_lockout r) = row_disabled_at r"
  "row_must_change (clear_lockout r) = row_must_change r"
  "row_totp_enabled (clear_lockout r) = row_totp_enabled r"
  "row_totp_epoch (clear_lockout r) = row_totp_epoch r"
  "row_totp_last_step (clear_lockout r) = row_totp_last_step r"
  by (simp_all add: clear_lockout_def)

lemma wipe_totp_sel [simp]:
  "row_id (wipe_totp r) = row_id r" "row_username (wipe_totp r) = row_username r"
  "row_totp_epoch (wipe_totp r) = row_totp_epoch r + 1" "\<not> row_totp_enabled (wipe_totp r)"
  "row_disabled_at (wipe_totp r) = row_disabled_at r"
  by (simp_all add: wipe_totp_def)

lemma create_user_wf:
  assumes "wf_auth db" "create_user i now n h db = Inr (u, db')"
  shows "wf_auth db'"
  using assms by (auto simp: create_user_def wf_auth_def Let_def split: if_splits) blast

lemma insert_recovery_codes_wf:
  assumes "wf_auth db" "insert_recovery_codes uid hs db = Inr db'"
  shows "wf_auth db'"
proof -
  have d: "distinct hs" and db': "db' = db\<lparr>recovery := delete_where (\<lambda>c. rec_user c = uid) (recovery db)
      @ map (\<lambda>h. \<lparr>rec_user = uid, rec_hash = h, rec_used = None\<rparr>) hs\<rparr>"
    using assms(2) by (auto simp: insert_recovery_codes_def split: if_splits)
  have "distinct (map (\<lambda>c. (rec_user c, rec_hash c)) (delete_where (\<lambda>c. rec_user c = uid) (recovery db)))"
    using assms(1) by (intro distinct_map_delete_where) (simp add: wf_auth_def)
  then show ?thesis using assms(1) d unfolding db'
    by (auto simp: wf_auth_def comp_def distinct_map inj_on_def)
qed

end
