(* ===== verification/Tokens.thy ===== *)
theory Tokens
  imports GoStrings
begin

text \<open>
  The signed cookies of \<open>internal/auth/session.go\<close>: \<open>SignToken\<close>, \<open>VerifyToken\<close> and
  their specialisations to sessions. Base64 (the URL alphabet, without padding) is modelled
  as \<open>encoding/base64\<close> has it. HMAC-SHA256 and the JSON form of a payload are the fields
  of a record \<open>codec\<close> that the definitions take as an argument; what the round trip needs
  of them is a hypothesis of its theorem.
\<close>

section \<open>Base64\<close>

definition b64_alphabet :: string where
  "b64_alphabet = ''ABCDEFGHIJKLMNOPQRSTUVWXYZabcdefghijklmnopqrstuvwxyz0123456789-_''"

definition b64_char :: "nat \<Rightarrow> char" where
  "b64_char n = b64_alphabet ! n"

definition b64_value :: "char \<Rightarrow> nat option" where
  "b64_value c = index_byte c b64_alphabet"

fun b64_digits :: "nat list \<Rightarrow> nat list" where
  "b64_digits [] = []"
| "b64_digits [a] = [a div 4, (a mod 4) * 16]"
| "b64_digits [a, b] = [a div 4, (a mod 4) * 16 + b div 16, (b mod 16) * 4]"
| "b64_digits (a # b # c # rest) =
     a div 4 # ((a mod 4) * 16 + b div 16) # ((b mod 16) * 4 + c div 64) # (c mod 64) # b64_digits rest"

fun b64_bytes :: "nat list \<Rightarrow> nat list option" where
  "b64_bytes [] = Some []"
| "b64_bytes [x] = None"
| "b64_bytes [x, y] = Some [x * 4 + y div 16]"
| "b64_bytes [x, y, z] = Some [x * 4 + y div 16, (y mod 16) * 16 + z div 4]"
| "b64_bytes (x # y # z # w # rest) =
     map_option (\<lambda>bs. (x * 4 + y div 16) # ((y mod 16) * 16 + z div 4) # ((z mod 4) * 64 + w) # bs)
       (b64_bytes rest)"

definition b64_encode :: "string \<Rightarrow> string" where
  "b64_encode s = map b64_char (b64_digits (map of_char s))"

text \<open>\<open>DecodeString\<close> skips line breaks and refuses every other byte outside the alphabet.\<close>

definition b64_decode :: "string \<Rightarrow> string option" where
  "b64_decode s =
     (let cs = filter (\<lambda>c. c \<noteq> CHR 0x0A \<and> c \<noteq> CHR 0x0D) s
      in if \<exists>c\<in>set cs. b64_value c = None then None
         else map_option (map char_of) (b64_bytes (map (\<lambda>c. the (b64_value c)) cs)))"

lemma b64_alphabet_facts:
  "\<forall>n\<in>set [0..<64]. b64_value (b64_char n) = Some n \<and> b64_char n \<noteq> CHR 0x0A \<and>
     b64_char n \<noteq> CHR 0x0D \<and> b64_char n \<noteq> CHR ''.''"
  by code_simp

lemma b64_char_facts [simp]:
  assumes "n < 64"
  shows "b64_value (b64_char n) = Some n" "b64_char n \<noteq> CHR 0x0A" "b64_char n \<noteq> CHR 0x0D"
    "b64_char n \<noteq> CHR ''.''"
  using b64_alphabet_facts assms by auto

lemma b64_digits_bound: "\<forall>x\<in>set bs. x < 256 \<Longrightarrow> \<forall>x\<in>set (b64_digits bs). x < 64"
  by (induction bs rule: b64_digits.induct) auto

lemma b64_bytes_digits: "\<forall>x\<in>set bs. x < 256 \<Longrightarrow> b64_bytes (b64_digits bs) = Some bs"
  by (induction bs rule: b64_digits.induct) auto

lemma b64_decode_encode: "b64_decode (b64_encode s) = Some s"
proof -
  let ?bs = "map of_char s :: nat list"
  let ?ds = "b64_digits ?bs"
  have b: "\<forall>x\<in>set ?bs. x < 256" by auto
  note d = b64_digits_bound [OF b]
  have f: "filter (\<lambda>c. c \<noteq> CHR 0x0A \<and> c \<noteq> CHR 0x0D) (map b64_char ?ds) = map b64_char ?ds"
    using d by (intro filter_True) auto
  have "map (\<lambda>c. the (b64_value c)) (map b64_char ?ds) = ?ds"
    using d by (simp add: map_idI)
  moreover have "\<not> (\<exists>c\<in>set (map b64_char ?ds). b64_value c = None)" using d by auto
  ultimately show ?thesis
    using b64_bytes_digits [OF b] by (simp add: b64_decode_def b64_encode_def f Let_def comp_def)
qed

lemma b64_encode_no_dot: "CHR ''.'' \<notin> set (b64_encode s)"
proof -
  have "\<forall>x\<in>set (b64_digits (map of_char s)). x < 64" by (rule b64_digits_bound) auto
  then have "\<forall>n\<in>set (b64_digits (map of_char s)). b64_char n \<noteq> CHR ''.''" by simp
  then show ?thesis by (force simp: b64_encode_def)
qed

section \<open>Tokens\<close>

record claims =
  cl_uid :: string
  cl_device :: string
  cl_epoch :: int
  cl_nonce :: string
  cl_sid :: string
  cl_state :: string
  cl_verifier :: string
  cl_oidc :: bool

definition no_claims :: claims where
  "no_claims = \<lparr>cl_uid = [], cl_device = [], cl_epoch = 0, cl_nonce = [], cl_sid = [],
     cl_state = [], cl_verifier = [], cl_oidc = False\<rparr>"

record payload =
  pl_purpose :: string
  pl_exp :: int
  pl_claims :: claims

text \<open>HMAC-SHA256 under a key, and the JSON encoding of a payload and its parser.\<close>

record codec =
  mac_of :: "string \<Rightarrow> string \<Rightarrow> string"
  json_of :: "payload \<Rightarrow> string"
  json_parse :: "string \<Rightarrow> payload option"

datatype token_error = EmptySecret | EmptyPurpose | BadToken

definition unix_seconds :: "int \<Rightarrow> int" where
  "unix_seconds t = t div 1000000000"

definition sign_token :: "codec \<Rightarrow> string \<Rightarrow> string \<Rightarrow> claims \<Rightarrow> int \<Rightarrow> (token_error, string) result" where
  "sign_token K secret purpose cl expires =
     (if secret = [] then Inl EmptySecret
      else if purpose = [] then Inl EmptyPurpose
      else
        (let pl = json_of K \<lparr>pl_purpose = purpose, pl_exp = unix_seconds expires, pl_claims = cl\<rparr>;
             body = b64_encode pl
         in Inr (body @ ''.'' @ b64_encode (mac_of K secret body))))"

definition verify_token :: "codec \<Rightarrow> string \<Rightarrow> int \<Rightarrow> string \<Rightarrow> string \<Rightarrow> (token_error, claims) result" where
  "verify_token K secret now purpose token =
     (if secret = [] then Inl EmptySecret
      else
        (let (body, sig, ok) = cut (CHR ''.'') token
         in if \<not> ok then Inl BadToken
            else
              (case b64_decode sig of
                 None \<Rightarrow> Inl BadToken
               | Some got \<Rightarrow>
                   if got \<noteq> mac_of K secret body then Inl BadToken
                   else
                     (case b64_decode body of
                        None \<Rightarrow> Inl BadToken
                      | Some bs \<Rightarrow>
                          (case json_parse K bs of
                             None \<Rightarrow> Inl BadToken
                           | Some p \<Rightarrow>
                               if pl_purpose p \<noteq> purpose then Inl BadToken
                               else if unix_seconds now \<ge> pl_exp p then Inl BadToken
                               else Inr (pl_claims p))))))"

definition purpose_session :: string where "purpose_session = ''session''"
definition purpose_challenge :: string where "purpose_challenge = ''totp_challenge''"
definition purpose_device :: string where "purpose_device = ''trusted_device''"
definition purpose_oidc :: string where "purpose_oidc = ''oidc_state''"

definition sign_session :: "codec \<Rightarrow> string \<Rightarrow> string \<Rightarrow> int \<Rightarrow> (token_error, string) result" where
  "sign_session K secret uid expires =
     sign_token K secret purpose_session (no_claims\<lparr>cl_uid := uid\<rparr>) expires"

definition verify_session :: "codec \<Rightarrow> string \<Rightarrow> int \<Rightarrow> string \<Rightarrow> (token_error, string) result" where
  "verify_session K secret now token =
     rbind (verify_token K secret now purpose_session token) (\<lambda>cl. Inr (cl_uid cl))"

text \<open>What an accepted token carries: the signature of its body, the purpose and time left.\<close>

lemma verify_token_sound:
  assumes "verify_token K secret now purpose token = Inr cl"
  obtains body sig bs where "token = body @ ''.'' @ sig" "b64_decode sig = Some (mac_of K secret body)"
    "b64_decode body = Some bs" "json_parse K bs \<noteq> None"
    "pl_purpose (the (json_parse K bs)) = purpose" "unix_seconds now < pl_exp (the (json_parse K bs))"
    "cl = pl_claims (the (json_parse K bs))"
proof -
  obtain body sig ok where c: "cut (CHR ''.'') token = (body, sig, ok)" by (metis prod.exhaust)
  with assms have ok: "ok" by (auto simp: verify_token_def split: if_splits)
  with c have tok: "token = body @ ''.'' @ sig" using cut_found [of "CHR ''.''" token body sig] by simp
  from assms c ok obtain bs p where "b64_decode sig = Some (mac_of K secret body)"
      "b64_decode body = Some bs" "json_parse K bs = Some p" "pl_purpose p = purpose"
      "unix_seconds now < pl_exp p" "cl = pl_claims p"
    by (auto simp: verify_token_def split: if_splits option.splits)
  with tok that show ?thesis by auto
qed

section \<open>Properties\<close>

text \<open>
  a token \<open>SignToken\<close> makes is accepted by \<open>VerifyToken\<close> under the same secret
  exactly for the purpose it was made for and only before its expiry, and then yields the
  claims that were signed; whatever the purpose or the time, it never yields others.
\<close>

theorem signed_token_verifies:
  assumes "sign_token K secret purpose cl expires = Inr token"
    and "p = \<lparr>pl_purpose = purpose, pl_exp = unix_seconds expires, pl_claims = cl\<rparr>"
    and "json_parse K (json_of K p) = Some p"
  shows "verify_token K secret now purpose' token =
    (if purpose' = purpose \<and> unix_seconds now < unix_seconds expires then Inr cl else Inl BadToken)"
proof -
  define body where "body = b64_encode (json_of K p)"
  from assms(1) have sec: "secret \<noteq> []"
    and tok: "token = body @ CHR ''.'' # b64_encode (mac_of K secret body)"
    by (auto simp: sign_token_def body_def assms(2) Let_def split: if_splits)
  have "CHR ''.'' \<notin> set body" unfolding body_def by (rule b64_encode_no_dot)
  then have "cut (CHR ''.'') token = (body, b64_encode (mac_of K secret body), True)"
    unfolding tok by (rule cut_append)
  moreover have "b64_decode body = Some (json_of K p)" by (simp add: body_def b64_decode_encode)
  ultimately show ?thesis using sec assms(3)
    by (simp add: verify_token_def b64_decode_encode) (simp add: assms(2))
qed

definition example_payload :: payload where
  "example_payload = \<lparr>pl_purpose = purpose_challenge, pl_exp = 300, pl_claims = no_claims\<lparr>cl_uid := ''u1''\<rparr>\<rparr>"

definition example_codec :: codec where
  "example_codec = \<lparr>mac_of = (\<lambda>k b. rev b @ k), json_of = (\<lambda>p. pl_purpose p @ cl_uid (pl_claims p)),
     json_parse = (\<lambda>s. if s = ''totp_challengeu1'' then Some example_payload else None)\<rparr>"

lemma signed_token_verifies_witness:
  "\<exists>tok. sign_token example_codec ''k'' purpose_challenge (no_claims\<lparr>cl_uid := ''u1''\<rparr>) 300000000000 = Inr tok \<and>
     verify_token example_codec ''k'' 7 purpose_challenge tok = Inr (no_claims\<lparr>cl_uid := ''u1''\<rparr>) \<and>
     verify_token example_codec ''k'' 7 purpose_session tok = Inl BadToken"
proof -
  let ?cl = "no_claims\<lparr>cl_uid := ''u1''\<rparr>"
  obtain tok where t: "sign_token example_codec ''k'' purpose_challenge ?cl 300000000000 = Inr tok"
    by (simp add: sign_token_def purpose_challenge_def Let_def)
  have p: "example_payload = \<lparr>pl_purpose = purpose_challenge, pl_exp = unix_seconds 300000000000, pl_claims = ?cl\<rparr>"
    by (simp add: example_payload_def unix_seconds_def)
  have j: "json_parse example_codec (json_of example_codec example_payload) = Some example_payload"
    by (simp add: example_codec_def example_payload_def purpose_challenge_def)
  show ?thesis using t signed_token_verifies [OF t p j]
    by (simp add: purpose_session_def purpose_challenge_def unix_seconds_def)
qed

end
