(* ===== verification/Sessions.thy ===== *)
theory Sessions
  imports AuthStore Tokens
begin

text \<open>
  The session gate of \<open>internal/auth/middleware.go\<close> and the contract it relies on. The
  interface \<open>SessionStore\<close> is the locale \<open>session_store\<close>: its operations are the
  parameters, what they promise of each other its assumptions, and what the gate makes of
  them its lemmas. The tables of \<open>AuthStore\<close> are its interpretation.
\<close>

section \<open>The gate\<close>

definition session_touch_interval :: int where
  "session_touch_interval = 300000000000"

definition session_live ::
  "(string \<Rightarrow> 's \<Rightarrow> (auth_error, session) result) \<Rightarrow> (string \<Rightarrow> int \<Rightarrow> 's \<Rightarrow> 's)
    \<Rightarrow> claims \<Rightarrow> int \<Rightarrow> 's \<Rightarrow> bool \<times> 's" where
  "session_live get touch cl now s =
     (if cl_sid cl = [] then (False, s)
      else
        (case get (cl_sid cl) s of
           Inl _ \<Rightarrow> (False, s)
         | Inr x \<Rightarrow>
             if ses_user x \<noteq> cl_uid cl then (False, s)
             else if \<not> now < ses_expires x then (False, s)
             else if now - ses_last_seen x \<ge> session_touch_interval
             then (True, touch (ses_id x) now s)
             else (True, s)))"

section \<open>The contract of a session store\<close>

locale session_store =
  fixes create :: "session \<Rightarrow> 's \<Rightarrow> (auth_error, 's) result"
    and get :: "string \<Rightarrow> 's \<Rightarrow> (auth_error, session) result"
    and touch :: "string \<Rightarrow> int \<Rightarrow> 's \<Rightarrow> 's"
    and revoke :: "string \<Rightarrow> string \<Rightarrow> 's \<Rightarrow> (auth_error, 's) result"
    and revoke_all :: "string \<Rightarrow> 's \<Rightarrow> nat \<times> 's"
    and revoke_others :: "string \<Rightarrow> string \<Rightarrow> 's \<Rightarrow> nat \<times> 's"
    and ok :: "'s \<Rightarrow> bool"
  assumes get_id: "get i s = Inr x \<Longrightarrow> ses_id x = i"
    and create_ok: "ok s \<Longrightarrow> create x s = Inr s' \<Longrightarrow> ok s'"
    and get_create: "ok s \<Longrightarrow> create x s = Inr s' \<Longrightarrow>
      get i s' = (if i = ses_id x then Inr x else get i s)"
    and touch_ok: "ok s \<Longrightarrow> ok (touch i now s)"
    and get_touch: "ok s \<Longrightarrow> get j (touch i now s) =
      rbind (get j s) (\<lambda>x. Inr (if j = i then x\<lparr>ses_last_seen := now\<rparr> else x))"
    and revoke_ok: "ok s \<Longrightarrow> revoke i u s = Inr s' \<Longrightarrow> ok s'"
    and revoke_owner: "ok s \<Longrightarrow> is_ok (revoke i u s) \<longleftrightarrow> (\<exists>x. get i s = Inr x \<and> ses_user x = u)"
    and get_revoke: "ok s \<Longrightarrow> revoke i u s = Inr s' \<Longrightarrow>
      get j s' = (if j = i then Inl SessionNotFound else get j s)"
    and revoke_all_ok: "ok s \<Longrightarrow> ok (snd (revoke_all u s))"
    and get_revoke_all: "ok s \<Longrightarrow> get j (snd (revoke_all u s)) =
      rbind (get j s) (\<lambda>x. if ses_user x = u then Inl SessionNotFound else Inr x)"
    and revoke_others_ok: "ok s \<Longrightarrow> ok (snd (revoke_others u k s))"
    and get_revoke_others: "ok s \<Longrightarrow> get j (snd (revoke_others u k s)) =
      rbind (get j s) (\<lambda>x. if ses_user x = u \<and> j \<noteq> k then Inl SessionNotFound else Inr x)"
begin

abbreviation live :: "claims \<Rightarrow> int \<Rightarrow> 's \<Rightarrow> bool" where
  "live cl now s \<equiv> fst (session_live get touch cl now s)"

lemma live_iff:
  "live cl now s \<longleftrightarrow> cl_sid cl \<noteq> [] \<and>
     (\<exists>x. get (cl_sid cl) s = Inr x \<and> ses_user x = cl_uid cl \<and> now < ses_expires x)"
  by (auto simp: session_live_def split: sum.splits)

lemma live_keeps_ok: "ok s \<Longrightarrow> ok (snd (session_live get touch cl now s))"
  by (auto simp: session_live_def touch_ok split: sum.splits)

lemma live_stable:
  assumes "ok s"
  shows "live cl' t (snd (session_live get touch cl now s)) \<longleftrightarrow> live cl' t s"
  using assms by (auto simp: live_iff) (auto simp: session_live_def get_touch split: sum.splits if_splits)

lemma created_live:
  assumes "ok s" "create x s = Inr s'"
  shows "live cl now s' \<longleftrightarrow>
    (if cl_sid cl = ses_id x then cl_sid cl \<noteq> [] \<and> cl_uid cl = ses_user x \<and> now < ses_expires x
     else live cl now s)"
  using assms by (auto simp: live_iff get_create)

lemma revoked_not_live:
  assumes "ok s" "revoke i u s = Inr s'"
  shows "live cl now s' \<longleftrightarrow> cl_sid cl \<noteq> i \<and> live cl now s"
  using assms by (auto simp: live_iff get_revoke)

lemma revoke_all_live:
  assumes "ok s"
  shows "live cl now (snd (revoke_all u s)) \<longleftrightarrow> cl_uid cl \<noteq> u \<and> live cl now s"
  using assms by (cases "get (cl_sid cl) s") (auto simp: live_iff get_revoke_all)

lemma revoke_others_live:
  assumes "ok s"
  shows "live cl now (snd (revoke_others u k s)) \<longleftrightarrow> (cl_uid cl = u \<longrightarrow> cl_sid cl = k) \<and> live cl now s"
  using assms by (cases "get (cl_sid cl) s") (auto simp: live_iff get_revoke_others)

end

section \<open>The tables as a session store\<close>

lemma get_session_sessions:
  "sessions db = sessions db' \<Longrightarrow> get_session i db = get_session i db'"
  by (simp add: get_session_def)

lemma get_session_delete:
  assumes "distinct (map ses_id (sessions db))"
    and "\<And>x. x \<in> set (sessions db) \<Longrightarrow> ses_id x = i \<Longrightarrow> hit x = P x"
  shows "get_session i (snd (delete_sessions hit db)) =
    rbind (get_session i db) (\<lambda>x. if P x then Inl SessionNotFound else Inr x)"
proof -
  have "find (\<lambda>x. ses_id x = i) (delete_where hit xs) =
      (case find (\<lambda>x. ses_id x = i) xs of None \<Rightarrow> None | Some x \<Rightarrow> if P x then None else Some x)"
    if "distinct (map ses_id xs)" "set xs \<subseteq> set (sessions db)" for xs
    using that
  proof (induction xs)
    case (Cons y ys)
    then show ?case using assms(2) [of y]
      by (auto simp: delete_where_def find_None_iff split: option.splits dest!: find_Some_in)
  qed (simp add: delete_where_def)
  from this [of "sessions db"] assms(1) show ?thesis
    by (auto simp: get_session_def delete_sessions_def split: option.splits)
qed

abbreviation unique_sessions :: "'a auth_db_scheme \<Rightarrow> bool" where
  "unique_sessions db \<equiv> distinct (map ses_id (sessions db))"

lemma unique_delete_sessions: "unique_sessions db \<Longrightarrow> unique_sessions (snd (delete_sessions hit db))"
  by (simp add: delete_sessions_def distinct_map_delete_where)

lemma revoke_session_delete:
  "revoke_session i u db = Inr db' \<Longrightarrow>
     db' = snd (delete_sessions (\<lambda>x. ses_id x = i \<and> ses_user x = u) db)"
  by (auto simp: revoke_session_def delete_sessions_def Let_def split: if_splits)

interpretation sql_sessions: session_store create_session get_session touch_session revoke_session
  revoke_user_sessions revoke_other_user_sessions unique_sessions
proof (unfold_locales, goal_cases)
  case (1 i s x)
  then show ?case by (auto simp: get_session_def dest: find_Some_in split: option.splits)
next
  case (2 s x s')
  then have "ses_id x \<notin> ses_id ` set (sessions s)" "s' = s\<lparr>sessions := sessions s @ [x]\<rparr>"
    by (auto simp: create_session_def split: if_splits)
  with 2 show ?case by simp
next
  case (3 s x s' i)
  then have x: "\<forall>y\<in>set (sessions s). ses_id y \<noteq> ses_id x" "s' = s\<lparr>sessions := sessions s @ [x]\<rparr>"
    by (auto simp: create_session_def split: if_splits)
  then show ?case
    by (cases "find (\<lambda>y. ses_id y = i) (sessions s)")
      (auto simp: get_session_def rows_simps dest: find_Some_in)
next
  case (5 s j i now)
  then show ?case
    by (auto simp: touch_session_def get_session_def rows_simps split: option.splits dest!: find_Some_in)
next
  case (7 s i u)
  show ?case
  proof
    assume "is_ok (revoke_session i u s)"
    then obtain x where "x \<in> set (sessions s)" "ses_id x = i" "ses_user x = u"
      by (auto simp: revoke_session_def is_ok_iff Let_def split: if_splits)
    with 7 find_unique [of ses_id "sessions s" x] show "\<exists>x. get_session i s = Inr x \<and> ses_user x = u"
      by (auto simp: get_session_def)
  next
    assume "\<exists>x. get_session i s = Inr x \<and> ses_user x = u"
    then show "is_ok (revoke_session i u s)"
      by (auto simp: revoke_session_def get_session_def is_ok_iff Let_def dest!: find_Some_in split: option.splits)
  qed
next
  case (8 s i u s' j)
  then obtain x where x: "x \<in> set (sessions s)" "ses_id x = i" "ses_user x = u"
    by (auto simp: revoke_session_def Let_def split: if_splits)
  with 8 have "get_session i s = Inr x"
    using find_unique [of ses_id "sessions s" x] by (simp add: get_session_def)
  with 8 x show ?case
    using get_session_delete [of s j "\<lambda>y. ses_id y = i \<and> ses_user y = u" "\<lambda>y. j = i \<and> ses_user y = u"]
    by (cases "get_session j s") (auto dest!: revoke_session_delete)
next
  case (10 s j u)
  then show ?case by (auto simp: revoke_user_sessions_def intro: get_session_delete)
next
  case (12 s j u k)
  then show ?case by (auto simp: revoke_other_user_sessions_def intro: get_session_delete)
qed (auto simp: create_session_def touch_session_def map_update_where revoke_user_sessions_def
    revoke_other_user_sessions_def unique_delete_sessions dest!: revoke_session_delete split: if_splits)

end
