(* ===== verification/Throttle.thy ===== *)
theory Throttle
  imports Prelude
begin

text \<open>
  The per-address limiter of \<open>internal/auth/throttle.go\<close>: a sliding window of failure
  times for every key. The state is the map \<open>events\<close>; \<open>NewThrottle(time.Minute, 10, ...)\<close>
  in \<open>cmd/server/main.go\<close> fixes the window and the limit. The abstract view is the whole
  history of failures, of which the map only keeps what can still count.
\<close>

type_synonym throttle = "(string \<times> int list) list"

definition throttle_window :: int where "throttle_window = 60000000000"
definition throttle_limit :: nat where "throttle_limit = 10"

definition throttle_events :: "string \<Rightarrow> throttle \<Rightarrow> int list" where
  "throttle_events k th = (case map_of th k of None \<Rightarrow> [] | Some ev \<Rightarrow> ev)"

definition throttle_prune :: "string \<Rightarrow> int \<Rightarrow> throttle \<Rightarrow> throttle" where
  "throttle_prune k now th =
     (let ev = dropWhile (\<lambda>t. t < now - throttle_window) (throttle_events k th)
      in if ev = [] then alist_del k th else alist_put k ev th)"

text \<open>The limit is positive, so the list whose head is taken is not empty.\<close>

definition throttle_check :: "string \<Rightarrow> int \<Rightarrow> throttle \<Rightarrow> int \<times> throttle" where
  "throttle_check k now th =
     (let th' = throttle_prune k now th;
          ev = throttle_events k th'
      in if length ev < throttle_limit then (0, th')
         else (let wait = hd ev + throttle_window - now in (if wait < 0 then 0 else wait, th')))"

definition throttle_record :: "string \<Rightarrow> int \<Rightarrow> throttle \<Rightarrow> throttle" where
  "throttle_record k now th =
     (let th' = throttle_prune k now th in alist_put k (throttle_events k th' @ [now]) th')"

section \<open>The history\<close>

text \<open>What the limiter promises, in terms of every failure ever recorded for the key.\<close>

definition recent :: "int \<Rightarrow> int list \<Rightarrow> int list" where
  "recent now hist = filter (\<lambda>t. now - throttle_window \<le> t) hist"

definition wait_spec :: "int \<Rightarrow> int list \<Rightarrow> int" where
  "wait_spec now hist =
     (if length (recent now hist) < throttle_limit then 0
      else hd (recent now hist) + throttle_window - now)"

lemma events_prune:
  "throttle_events j (throttle_prune k now th) =
    (if j = k then dropWhile (\<lambda>t. t < now - throttle_window) (throttle_events k th) else throttle_events j th)"
proof -
  let ?ev = "dropWhile (\<lambda>t. t < now - throttle_window) (throttle_events k th)"
  have "throttle_events j (throttle_prune k now th) =
      throttle_events j (if ?ev = [] then alist_del k th else alist_put k ?ev th)"
    unfolding throttle_prune_def Let_def ..
  also have "\<dots> = (if j = k then ?ev else throttle_events j th)"
    by (cases "?ev = []") (auto simp only: throttle_events_def map_of_alist_del map_of_alist_put if_True if_False
      fun_upd_apply option.case split: if_split)
  finally show ?thesis .
qed

lemma dropWhile_sorted: "sorted xs \<Longrightarrow> dropWhile (\<lambda>t. t < c) xs = filter (\<lambda>t. c \<le> t) (xs :: int list)"
proof (induction xs)
  case (Cons x xs)
  show ?case
  proof (cases "x < c")
    case False
    with Cons.prems have "filter (\<lambda>t. c \<le> t) xs = xs" by (intro filter_True) auto
    with False show ?thesis by simp
  qed (use Cons in simp)
qed simp

text \<open>The map keeps a suffix of the history, and never drops what is still recent.\<close>

definition tracks :: "int \<Rightarrow> (string \<Rightarrow> int list) \<Rightarrow> throttle \<Rightarrow> bool" where
  "tracks now h th \<longleftrightarrow>
     (\<forall>k. sorted (h k) \<and> (\<forall>t\<in>set (h k). t \<le> now) \<and>
       (\<exists>c\<le>now - throttle_window. throttle_events k th = filter (\<lambda>t. c \<le> t) (h k)))"

lemma tracks_empty: "tracks now (\<lambda>_. []) []"
  by (auto simp: tracks_def throttle_events_def)

lemma tracks_later: "tracks now h th \<Longrightarrow> now \<le> now' \<Longrightarrow> tracks now' h th"
  unfolding tracks_def by (meson diff_right_mono order_trans)

lemma filter_filter_le: "(c :: int) \<le> d \<Longrightarrow> filter (\<lambda>t. d \<le> t) (filter (\<lambda>t. c \<le> t) xs) = filter (\<lambda>t. d \<le> t) xs"
  by (auto intro!: filter_cong)

lemma tracks_prune:
  assumes "tracks now h th"
  shows "throttle_events k (throttle_prune k now th) = recent now (h k)"
    and "tracks now h (throttle_prune k now th)"
proof -
  have ev: "throttle_events k (throttle_prune k now th) = recent now (h k)" for k
  proof -
    from assms obtain c where c: "c \<le> now - throttle_window" "sorted (h k)"
        "throttle_events k th = filter (\<lambda>t. c \<le> t) (h k)" unfolding tracks_def by blast
    then have "throttle_events k (throttle_prune k now th) =
        filter (\<lambda>t. now - throttle_window \<le> t) (filter (\<lambda>t. c \<le> t) (h k))"
      using sorted_wrt_filter [of "(\<le>)" "h k" "\<lambda>t. c \<le> t"] by (simp add: events_prune dropWhile_sorted)
    then show ?thesis using c(1) by (simp only: filter_filter_le recent_def)
  qed
  then show "throttle_events k (throttle_prune k now th) = recent now (h k)" .
  show "tracks now h (throttle_prune k now th)"
    unfolding tracks_def
  proof
    fix j
    show "sorted (h j) \<and> (\<forall>t\<in>set (h j). t \<le> now) \<and>
        (\<exists>c\<le>now - throttle_window. throttle_events j (throttle_prune k now th) = filter (\<lambda>t. c \<le> t) (h j))"
      using assms ev [of k] by (cases "j = k") (auto simp: tracks_def events_prune recent_def)
  qed
qed

lemma throttle_check_spec:
  assumes "tracks now h th"
  shows "fst (throttle_check k now th) = wait_spec now (h k)"
    and "tracks now h (snd (throttle_check k now th))"
proof -
  note p = tracks_prune [OF assms, of k]
  have nn: "0 \<le> hd (recent now (h k)) + throttle_window - now" if "\<not> length (recent now (h k)) < throttle_limit"
  proof -
    from that have "recent now (h k) \<noteq> []" by (auto simp: throttle_limit_def)
    then have "hd (recent now (h k)) \<in> set (recent now (h k))" by (rule hd_in_set)
    then show ?thesis by (simp add: recent_def)
  qed
  show "fst (throttle_check k now th) = wait_spec now (h k)"
    using nn by (cases "length (recent now (h k)) < throttle_limit")
      (simp_all add: throttle_check_def wait_spec_def Let_def p(1))
  from p(2) show "tracks now h (snd (throttle_check k now th))"
    by (simp add: throttle_check_def Let_def)
qed

lemma throttle_record_spec:
  assumes "tracks now h th"
  shows "tracks now (h(k := h k @ [now])) (throttle_record k now th)"
proof -
  note p = tracks_prune [OF assms, of k]
  have "0 \<le> throttle_window" by (simp add: throttle_window_def)
  have ev: "throttle_events j (throttle_record k now th) =
      (if j = k then recent now (h k) @ [now] else throttle_events j th)" for j
    using p(1) by (auto simp: throttle_record_def Let_def throttle_events_def throttle_prune_def)
  show ?thesis
    unfolding tracks_def
  proof
    fix j
    have s: "sorted (h j)" "\<forall>t\<in>set (h j). t \<le> now"
        "\<exists>c\<le>now - throttle_window. throttle_events j th = filter (\<lambda>t. c \<le> t) (h j)"
      using assms by (simp_all add: tracks_def)
    show "sorted ((h(k := h k @ [now])) j) \<and> (\<forall>t\<in>set ((h(k := h k @ [now])) j). t \<le> now) \<and>
        (\<exists>c\<le>now - throttle_window. throttle_events j (throttle_record k now th) =
           filter (\<lambda>t. c \<le> t) ((h(k := h k @ [now])) j))"
    proof (cases "j = k")
      case True
      with s \<open>0 \<le> throttle_window\<close> show ?thesis
        by (auto simp: ev sorted_append recent_def intro!: exI [of _ "now - throttle_window"])
    qed (use s in \<open>simp add: ev\<close>)
  qed
qed

text \<open>A run of the limiter: calls at times that never decrease.\<close>

datatype throttle_call = CheckAt string int | RecordAt string int

primrec call_time :: "throttle_call \<Rightarrow> int" where
  "call_time (CheckAt k t) = t"
| "call_time (RecordAt k t) = t"

primrec throttle_step :: "throttle_call \<Rightarrow> throttle \<Rightarrow> throttle" where
  "throttle_step (CheckAt k t) th = snd (throttle_check k t th)"
| "throttle_step (RecordAt k t) th = throttle_record k t th"

definition throttle_run :: "throttle_call list \<Rightarrow> throttle" where
  "throttle_run cs = fold throttle_step cs []"

fun failures_of :: "string \<Rightarrow> throttle_call list \<Rightarrow> int list" where
  "failures_of k [] = []"
| "failures_of k (RecordAt j t # cs) = (if j = k then t # failures_of k cs else failures_of k cs)"
| "failures_of k (CheckAt j t # cs) = failures_of k cs"

lemma failures_of_append: "failures_of k (cs @ ds) = failures_of k cs @ failures_of k ds"
  by (induction k cs rule: failures_of.induct) auto

lemma throttle_run_tracks:
  assumes "sorted (map call_time cs)" "\<forall>c\<in>set cs. call_time c \<le> now"
  shows "tracks now (\<lambda>k. failures_of k cs) (throttle_run cs)"
  using assms
proof (induction cs arbitrary: now rule: rev_induct)
  case Nil
  then show ?case by (simp add: throttle_run_def tracks_empty)
next
  case (snoc c cs)
  let ?t = "call_time c"
  have t: "tracks ?t (\<lambda>k. failures_of k cs) (throttle_run cs)"
    using snoc.prems(1) by (intro snoc.IH) (auto simp: sorted_append)
  have "tracks ?t (\<lambda>k. failures_of k (cs @ [c])) (throttle_run (cs @ [c]))"
  proof (cases c)
    case (CheckAt k u)
    with throttle_check_spec(2) [OF t, of k] show ?thesis
      by (simp add: throttle_run_def failures_of_append)
  next
    case (RecordAt k u)
    then have "(\<lambda>j. failures_of j (cs @ [c])) = (\<lambda>j. failures_of j cs)(k := failures_of k cs @ [u])"
      by (auto simp: failures_of_append)
    with throttle_record_spec [OF t, of k] RecordAt show ?thesis
      by (simp add: throttle_run_def)
  qed
  then show ?case using snoc.prems(2) by (rule_tac tracks_later) auto
qed

section \<open>Properties\<close>

text \<open>
  C11: whatever calls came before, \<open>Check\<close> answers as if it had the whole history of
  failures: the caller waits exactly when ten failures of the last minute are on record for
  its key, and until the oldest of them is a minute old. Pruning loses nothing that counts,
  and other keys have no influence.
\<close>

theorem throttle_is_sliding_window:
  assumes "sorted (map call_time calls)" "\<forall>c\<in>set calls. call_time c \<le> now"
  shows "fst (throttle_check k now (throttle_run calls)) = wait_spec now (failures_of k calls)"
  by (rule throttle_check_spec(1)) (rule throttle_run_tracks [OF assms])

lemma throttle_is_sliding_window_witness:
  "fst (throttle_check ''ip'' 9 (throttle_run (map (RecordAt ''ip'') [0, 1, 2, 3, 4, 5, 6, 7, 8, 9]))) = 59999999991"
  by (subst throttle_is_sliding_window)
    (simp_all add: wait_spec_def recent_def throttle_window_def throttle_limit_def)

end
