(* ===== verification/AuditLog.thy ===== *)
theory AuditLog
  imports GoStrings
begin

text \<open>
  Audit rows (\<open>internal/audit/audit.go\<close> and \<open>Store.insert\<close>): the detail keys, their
  denylist, and the row an event becomes. The row's id, time and request id are left out;
  the actor is the one the handlers stamp on the context, \<open>[]\<close> for an unauthenticated
  request.
\<close>

datatype dval = DStr string | DInt int | DTime int | DBool bool | DNull | DStrs "string list" | DPairs "(string \<times> string) list"

type_synonym detail = "(string \<times> dval) list"

record event =
  ev_action :: string
  ev_outcome :: string
  ev_actor :: string
  ev_target :: string
  ev_label :: string
  ev_detail :: detail

text \<open>The regular expression \<open>denyKey\<close>: its last alternative allows one byte in between.\<close>

fun private_key_at :: "string \<Rightarrow> bool" where
  "private_key_at s =
     (starts_with ''private'' s \<and>
       (starts_with ''key'' (drop 7 s) \<or>
        (case drop 7 s of [] \<Rightarrow> False | c # r \<Rightarrow> c \<noteq> CHR 0x0A \<and> starts_with ''key'' r)))"

fun suffixes_of :: "string \<Rightarrow> string list" where
  "suffixes_of [] = [[]]"
| "suffixes_of (c # cs) = (c # cs) # suffixes_of cs"

definition denied_key :: "string \<Rightarrow> bool" where
  "denied_key k0 =
     (let k = to_lower k0
      in list_ex (\<lambda>w. contains_sub k w)
           [''password'', ''secret'', ''token'', ''recovery'', ''cookie'', ''bearer'', ''credential'']
         \<or> list_ex private_key_at (suffixes_of k))"

definition set_safe :: "string \<Rightarrow> dval \<Rightarrow> detail \<Rightarrow> (unit, detail) result" where
  "set_safe k v d = (if denied_key k then Inl () else Inr (alist_put k v d))"

text \<open>\<open>_ = d.SetSafe(k, v)\<close>: the handlers drop the error, and with it the key.\<close>

definition with_safe :: "string \<Rightarrow> dval \<Rightarrow> detail \<Rightarrow> detail" where
  "with_safe k v d = (case set_safe k v d of Inl _ \<Rightarrow> d | Inr d' \<Rightarrow> d')"

text \<open>\<open>Store.insert\<close>: an event without an action or an outcome is refused.\<close>

definition audit_insert :: "event \<Rightarrow> event list \<Rightarrow> (string, event list) result" where
  "audit_insert e log =
     (if ev_action e = [] then Inl ''audit: Event.Action is required''
      else if ev_outcome e = [] then Inl ''audit: Event.Outcome is required''
      else Inr (log @ [e]))"

text \<open>\<open>logAudit\<close>: a refused event is only logged.\<close>

definition audit_log_event :: "event \<Rightarrow> event list \<Rightarrow> event list" where
  "audit_log_event e log = (case audit_insert e log of Inl _ \<Rightarrow> log | Inr l \<Rightarrow> l)"

lemma audit_log_event_ok [simp]:
  "ev_action e \<noteq> [] \<Longrightarrow> ev_outcome e \<noteq> [] \<Longrightarrow> audit_log_event e log = log @ [e]"
  by (simp add: audit_log_event_def audit_insert_def)

lemma audit_log_event_prefix: "\<exists>es. audit_log_event e log = log @ es"
  by (simp add: audit_log_event_def audit_insert_def)

end
