(* ===== verification/AuthFlow.thy ===== *)
theory AuthFlow
  imports Sessions Throttle AuditLog
begin

text \<open>
  The HTTP handlers of \<open>internal/auth\<close>: set-up, login, logout, profile and password
  (\<open>handler.go\<close>), the second factor and the trusted devices (\<open>totp.go\<close>, \<open>recovery.go\<close>,
  \<open>totp_handler.go\<close>), the list of sessions (\<open>sessions_handler.go\<close>), the middleware
  (\<open>middleware.go\<close>, \<open>csrf.go\<close>, \<open>trustheader.go\<close>). A handler takes the environment, the
  request and the decoded body (\<open>None\<close> when the JSON decoder refuses it) and returns its
  reply with the new state. It is the service \<open>cmd/server/main.go\<close> wires: every optional
  store is there. One time is read for a whole request. Failures of the database that no
  constraint of the schema explains are not modelled, so the branches that answer 500 for
  them are only those a step of the model can take.
\<close>

section \<open>State, requests and replies\<close>

record server = auth_db +
  limiter :: throttle
  audit_rows :: "event list"
  id_count :: nat

text \<open>
  Bcrypt (with the salt drawn for the request), the TOTP code of a time step, the vault and
  the generators are not code of the program: they are fields of the environment.
  \<open>vault_open\<close> fails with True when the error is \<open>IsUnrecoverable\<close>.
\<close>

record env =
  secret_key :: string
  tokens :: codec
  bcrypt_hash :: "string \<Rightarrow> string \<Rightarrow> string option"
  bcrypt_ok :: "string \<Rightarrow> string \<Rightarrow> bool"
  totp_code_at :: "string \<Rightarrow> int \<Rightarrow> string option"
  totp_fresh :: "string \<Rightarrow> string option"
  code_raw :: "string \<Rightarrow> nat \<Rightarrow> string"
  vault_seal :: "string \<Rightarrow> sealed option"
  vault_open :: "sealed \<Rightarrow> (bool, string) result"
  new_id :: "nat \<Rightarrow> string"
  trusted_proxy :: "(string \<Rightarrow> bool) option"
  oidc_logout_url :: "string option"
  session_ttl :: int

record request =
  rq_now :: int
  rq_ip :: string
  rq_agent :: string
  rq_session :: "string option"
  rq_challenge :: "string option"
  rq_device :: "string option"
  rq_trust :: string
  rq_seed :: string

datatype body =
    NoBody
  | ErrorBody string
  | LockedBody int
  | UserBody user
  | UsersBody "user list"
  | TotpRequired
  | StatusBody bool bool "user option"
  | SecretBody string
  | CodesBody "string list"
  | DevicesBody "device list"
  | SessionsBody "(session \<times> bool) list"
  | RevokedBody nat
  | LogoutUrlBody string

text \<open>A cookie set to a value, or cleared.\<close>

datatype cookie_name = SessionCookie | ChallengeCookie | DeviceCookie

record reply =
  rp_status :: nat
  rp_body :: body
  rp_cookies :: "(cookie_name \<times> string option) list"

definition reply_with :: "nat \<Rightarrow> body \<Rightarrow> reply" where
  "reply_with st b = \<lparr>rp_status = st, rp_body = b, rp_cookies = []\<rparr>"

definition write_error :: "nat \<Rightarrow> string \<Rightarrow> reply" where
  "write_error st msg = reply_with st (ErrorBody msg)"

definition set_cookie :: "cookie_name \<Rightarrow> string \<Rightarrow> reply \<Rightarrow> reply" where
  "set_cookie c v r = r\<lparr>rp_cookies := (c, Some v) # rp_cookies r\<rparr>"

definition clear_cookie :: "cookie_name \<Rightarrow> reply \<Rightarrow> reply" where
  "clear_cookie c r = r\<lparr>rp_cookies := (c, None) # rp_cookies r\<rparr>"

definition fresh_id :: "env \<Rightarrow> 'a server_scheme \<Rightarrow> string \<times> 'a server_scheme" where
  "fresh_id E s = (new_id E (id_count s), s\<lparr>id_count := Suc (id_count s)\<rparr>)"

section \<open>Audit rows, failures and lockout\<close>

definition log_audit :: "event \<Rightarrow> 'a server_scheme \<Rightarrow> 'a server_scheme" where
  "log_audit e s = s\<lparr>audit_rows := audit_log_event e (audit_rows s)\<rparr>"

definition user_event :: "string \<Rightarrow> string \<Rightarrow> user \<Rightarrow> detail \<Rightarrow> event" where
  "user_event action actor u d = \<lparr>ev_action = action, ev_outcome = ''success'', ev_actor = actor,
     ev_target = user_id u, ev_label = username u, ev_detail = d\<rparr>"

definition log_login_failed :: "string \<Rightarrow> string \<Rightarrow> 'a server_scheme \<Rightarrow> 'a server_scheme" where
  "log_login_failed attempted reason =
     log_audit \<lparr>ev_action = ''auth.login.failed'', ev_outcome = ''failure'', ev_actor = [],
       ev_target = [], ev_label = [],
       ev_detail = with_safe ''reason'' (DStr reason) (with_safe ''attempted_username'' (DStr attempted) [])\<rparr>"

definition lockout_threshold :: int where "lockout_threshold = 5"
definition lockout_base :: int where "lockout_base = 60000000000"
definition lockout_max :: int where "lockout_max = 900000000000"

definition lock_duration :: "int \<Rightarrow> int" where
  "lock_duration attempts =
     (if attempts < lockout_threshold then 0
      else
        (let shift = (if attempts - lockout_threshold > 8 then 8 else attempts - lockout_threshold);
             dur = lockout_base * 2 ^ nat shift
         in if dur > lockout_max then lockout_max else dur))"

definition throttle_allow :: "request \<Rightarrow> 'a server_scheme \<Rightarrow> reply option \<times> 'a server_scheme" where
  "throttle_allow rq s =
     (let (wait, th) = throttle_check (rq_ip rq) (rq_now rq) (limiter s);
          s' = s\<lparr>limiter := th\<rparr>
      in if wait \<le> 0 then (None, s')
         else (Some (write_error 429 ''too many attempts, try again later''), s'))"

definition tick_limiter :: "request \<Rightarrow> 'a server_scheme \<Rightarrow> 'a server_scheme" where
  "tick_limiter rq s = s\<lparr>limiter := throttle_record (rq_ip rq) (rq_now rq) (limiter s)\<rparr>"

text \<open>\<open>None\<close> is the zero user, for a name that no account has.\<close>

definition record_login_failure :: "request \<Rightarrow> user option \<Rightarrow> 'a server_scheme \<Rightarrow> 'a server_scheme" where
  "record_login_failure rq who s =
     (let s1 = tick_limiter rq s
      in case who of
           None \<Rightarrow> s1
         | Some u \<Rightarrow>
             if user_id u = [] then s1
             else
               (let attempts = failed_attempts u + 1;
                    dur = lock_duration attempts;
                    locked = (if dur > 0 then Some (rq_now rq + dur) else None);
                    s2 = (case record_login_failure_row (user_id u) locked s1 of
                            Inl _ \<Rightarrow> s1 | Inr (_, s') \<Rightarrow> s')
                in case locked of
                     None \<Rightarrow> s2
                   | Some t \<Rightarrow>
                       log_audit (user_event ''auth.account.locked'' [] u
                         (with_safe ''locked_until'' (DTime t) (with_safe ''attempts'' (DInt attempts) []))) s2))"

text \<open>Whether the account was in its lockout window when it was looked up.\<close>

definition was_locked :: "request \<Rightarrow> user \<Rightarrow> bool" where
  "was_locked rq u = (case locked_until u of None \<Rightarrow> False | Some t \<Rightarrow> rq_now rq < t)"

definition locked_reply :: "user \<Rightarrow> reply" where
  "locked_reply u = reply_with 423 (LockedBody (case locked_until u of None \<Rightarrow> 0 | Some t \<Rightarrow> t))"

text \<open>A wrong password or code: an account already locked is not counted up any further.\<close>

definition punish :: "request \<Rightarrow> user \<Rightarrow> 'a server_scheme \<Rightarrow> 'a server_scheme" where
  "punish rq u s = (if was_locked rq u then tick_limiter rq s else record_login_failure rq (Some u) s)"

section \<open>Cookies\<close>

text \<open>\<open>LabelFromUserAgent\<close>\<close>

definition label_from_agent :: "string \<Rightarrow> string" where
  "label_from_agent ua0 =
     (let ua = trim_space ua0
      in if ua = [] then ''Unknown browser''
         else
           (let low = to_lower ua;
                browser =
                  (if contains_sub low ''edg/'' then ''Edge''
                   else if contains_sub low ''opr/'' \<or> contains_sub low ''opera'' then ''Opera''
                   else if contains_sub low ''firefox'' then ''Firefox''
                   else if contains_sub low ''chrome'' then ''Chrome''
                   else if contains_sub low ''safari'' then ''Safari''
                   else ''Unknown browser'');
                os =
                  (if contains_sub low ''android'' then ''Android''
                   else if contains_sub low ''iphone'' \<or> contains_sub low ''ipad'' \<or> contains_sub low ''ios''
                   then ''iOS''
                   else if contains_sub low ''mac os'' \<or> contains_sub low ''macintosh'' then ''macOS''
                   else if contains_sub low ''windows'' then ''Windows''
                   else if contains_sub low ''linux'' then ''Linux''
                   else [])
            in if os = [] then browser else browser @ '' on '' @ os))"

text \<open>\<open>issueCookie\<close>: the session row, the pruning of expired rows, the signed cookie.\<close>

definition issue_cookie :: "env \<Rightarrow> request \<Rightarrow> string \<Rightarrow> bool \<Rightarrow> 'a server_scheme
    \<Rightarrow> string option \<times> 'a server_scheme" where
  "issue_cookie E rq uid oidc s =
     (let now = rq_now rq;
          expires = now + session_ttl E;
          (sid, s1) = fresh_id E s
      in case create_session \<lparr>ses_id = sid, ses_user = uid, ses_label = label_from_agent (rq_agent rq),
             ses_ip = rq_ip rq, ses_created = now, ses_last_seen = now, ses_expires = expires\<rparr> s1 of
           Inl _ \<Rightarrow> (None, s1)
         | Inr s2 \<Rightarrow>
             (let s3 = snd (delete_expired_sessions now s2)
              in case sign_token (tokens E) (secret_key E) purpose_session
                     (no_claims\<lparr>cl_uid := uid, cl_oidc := oidc, cl_sid := sid\<rparr>) expires of
                   Inl _ \<Rightarrow> (None, s3)
                 | Inr tok \<Rightarrow> (Some tok, s3)))"

definition challenge_ttl :: int where "challenge_ttl = 300000000000"
definition device_ttl :: int where "device_ttl = 2592000000000000"

definition issue_challenge :: "env \<Rightarrow> request \<Rightarrow> string \<Rightarrow> 'a server_scheme
    \<Rightarrow> string option \<times> 'a server_scheme" where
  "issue_challenge E rq uid s =
     (let (n, s1) = fresh_id E s
      in case sign_token (tokens E) (secret_key E) purpose_challenge
             (no_claims\<lparr>cl_uid := uid, cl_nonce := n\<rparr>) (rq_now rq + challenge_ttl) of
           Inl _ \<Rightarrow> (None, s1)
         | Inr tok \<Rightarrow> (Some tok, s1))"

definition session_claims :: "env \<Rightarrow> request \<Rightarrow> claims option" where
  "session_claims E rq =
     (case rq_session rq of
        None \<Rightarrow> None
      | Some c \<Rightarrow>
          (case verify_token (tokens E) (secret_key E) (rq_now rq) purpose_session c of
             Inl _ \<Rightarrow> None
           | Inr cl \<Rightarrow> Some cl))"

definition current_session_id :: "env \<Rightarrow> request \<Rightarrow> string" where
  "current_session_id E rq = (case session_claims E rq of None \<Rightarrow> [] | Some cl \<Rightarrow> cl_sid cl)"

text \<open>\<open>honorTrustedDevice\<close>\<close>

definition honor_trusted_device :: "env \<Rightarrow> request \<Rightarrow> string \<Rightarrow> int \<Rightarrow> 'a server_scheme
    \<Rightarrow> bool \<times> 'a server_scheme" where
  "honor_trusted_device E rq uid epoch s =
     (case rq_device rq of
        None \<Rightarrow> (False, s)
      | Some c \<Rightarrow>
          (case verify_token (tokens E) (secret_key E) (rq_now rq) purpose_device c of
             Inl _ \<Rightarrow> (False, s)
           | Inr cl \<Rightarrow>
               if cl_uid cl \<noteq> uid then (False, s)
               else if cl_epoch cl \<noteq> epoch then (False, s)
               else
                 (case get_device (cl_device cl) s of
                    Inl _ \<Rightarrow> (False, s)
                  | Inr d \<Rightarrow>
                      if dev_user d \<noteq> uid \<or> dev_epoch d \<noteq> epoch then (False, s)
                      else if \<not> rq_now rq < dev_expires d then (False, s)
                      else
                        (case touch_device (dev_id d) (rq_now rq) s of
                           Inl _ \<Rightarrow> (True, s)
                         | Inr s' \<Rightarrow> (True, s')))))"

section \<open>Set-up, login, logout\<close>

datatype hash_error = TooShort | BcryptFailed

definition hash_password :: "env \<Rightarrow> request \<Rightarrow> string \<Rightarrow> (hash_error, string) result" where
  "hash_password E rq plain =
     (if length plain < 8 then Inl TooShort
      else (case bcrypt_hash E (rq_seed rq) plain of None \<Rightarrow> Inl BcryptFailed | Some h \<Rightarrow> Inr h))"

definition hash_error_reply :: "hash_error \<Rightarrow> reply" where
  "hash_error_reply e =
     (case e of
        TooShort \<Rightarrow> write_error 400 ''auth: invalid input: password must be at least 8 characters''
      | BcryptFailed \<Rightarrow> write_error 500 ''hash failed'')"

definition decode_credentials :: "(string \<times> string) option \<Rightarrow> (string, string \<times> string) result" where
  "decode_credentials b =
     (case b of
        None \<Rightarrow> Inl ''invalid JSON''
      | Some (name0, pw) \<Rightarrow>
          (let name = trim_space name0
           in if name = [] then Inl ''username required''
              else if pw = [] then Inl ''password required''
              else Inr (name, pw)))"

definition finish_login :: "env \<Rightarrow> request \<Rightarrow> user \<Rightarrow> string \<Rightarrow> 'a server_scheme
    \<Rightarrow> reply \<times> 'a server_scheme" where
  "finish_login E rq u how s =
     (case issue_cookie E rq (user_id u) False s of
        (None, s1) \<Rightarrow> (write_error 500 ''session failed'', s1)
      | (Some tok, s1) \<Rightarrow>
          (let s2 = (case clear_login_failures (user_id u) s1 of Inl _ \<Rightarrow> s1 | Inr s' \<Rightarrow> s');
               s3 = log_audit (user_event ''auth.login'' (user_id u) u (with_safe ''method'' (DStr how) [])) s2
           in (set_cookie SessionCookie tok (reply_with 200 (UserBody u)), s3)))"

definition handle_setup :: "env \<Rightarrow> request \<Rightarrow> (string \<times> string) option \<Rightarrow> 'a server_scheme
    \<Rightarrow> reply \<times> 'a server_scheme" where
  "handle_setup E rq b s =
     (if count_users s > 0 then (write_error 403 ''setup already complete'', s)
      else
        (case decode_credentials b of
           Inl msg \<Rightarrow> (write_error 400 msg, s)
         | Inr (name, pw) \<Rightarrow>
             (case hash_password E rq pw of
                Inl e \<Rightarrow> (hash_error_reply e, s)
              | Inr h \<Rightarrow>
                  (let (uid, s0) = fresh_id E s
                   in case create_user uid (rq_now rq) name h s0 of
                        Inl (Invalid msg) \<Rightarrow> (write_error 400 msg, s0)
                      | Inl _ \<Rightarrow> (write_error 500 ''create user failed'', s0)
                      | Inr (u, s1) \<Rightarrow>
                          (case issue_cookie E rq (user_id u) False s1 of
                             (None, s2) \<Rightarrow> (write_error 500 ''session failed'', s2)
                           | (Some tok, s2) \<Rightarrow>
                               (set_cookie SessionCookie tok (reply_with 201 (UserBody u)),
                                log_audit (user_event ''auth.setup'' (user_id u) u []) s2))))))"

text \<open>The part of \<open>handleLogin\<close> after the password and the account have been accepted.\<close>

definition login_second_factor :: "env \<Rightarrow> request \<Rightarrow> user \<Rightarrow> 'a server_scheme
    \<Rightarrow> reply \<times> 'a server_scheme" where
  "login_second_factor E rq u s =
     (case get_totp_state (user_id u) s of
        Inl _ \<Rightarrow> (write_error 500 ''login failed'', s)
      | Inr ts \<Rightarrow>
          if \<not> ts_enabled ts then finish_login E rq u ''password'' s
          else
            (case honor_trusted_device E rq (user_id u) (ts_epoch ts) s of
               (True, s1) \<Rightarrow> finish_login E rq u ''trusted_device'' s1
             | (False, s1) \<Rightarrow>
                 (case issue_challenge E rq (user_id u) s1 of
                    (None, s2) \<Rightarrow> (write_error 500 ''challenge failed'', s2)
                  | (Some tok, s2) \<Rightarrow>
                      (set_cookie ChallengeCookie tok (reply_with 200 TotpRequired), s2))))"

definition handle_login :: "env \<Rightarrow> request \<Rightarrow> (string \<times> string) option \<Rightarrow> 'a server_scheme
    \<Rightarrow> reply \<times> 'a server_scheme" where
  "handle_login E rq b s =
     (case throttle_allow rq s of
        (Some r, s0) \<Rightarrow> (r, s0)
      | (None, s0) \<Rightarrow>
          (case decode_credentials b of
             Inl msg \<Rightarrow> (write_error 400 msg, s0)
           | Inr (name, pw) \<Rightarrow>
               (case get_by_username name s0 of
                  Inl _ \<Rightarrow> (write_error 401 ''invalid credentials'',
                           log_login_failed name ''no_user'' (record_login_failure rq None s0))
                | Inr (u, h) \<Rightarrow>
                    if \<not> bcrypt_ok E h pw
                    then (write_error 401 ''invalid credentials'',
                          log_login_failed name ''wrong_password'' (punish rq u s0))
                    else if was_locked rq u
                    then (locked_reply u, log_login_failed name ''locked'' s0)
                    else if disabled u
                    then (write_error 401 ''invalid credentials'', log_login_failed name ''disabled'' s0)
                    else login_second_factor E rq u s0)))"

section \<open>Who sends a request\<close>

text \<open>\<open>TrustHeaderConfig.ResolveUser\<close>; \<open>rq_trust\<close> is the value of the configured header.\<close>

definition resolve_trusted :: "env \<Rightarrow> request \<Rightarrow> 'a server_scheme \<Rightarrow> user option" where
  "resolve_trusted E rq s =
     (case trusted_proxy E of
        None \<Rightarrow> None
      | Some allows \<Rightarrow>
          if \<not> allows (rq_ip rq) then None
          else
            (let name = trim_space (rq_trust rq)
             in if name = [] then None
                else
                  (case get_by_username name s of
                     Inl _ \<Rightarrow> None
                   | Inr (u, _) \<Rightarrow> if disabled u then None else Some u)))"

text \<open>\<open>userFromCookie\<close>, which looks at the signature of the cookie only.\<close>

definition user_from_cookie :: "env \<Rightarrow> request \<Rightarrow> 'a server_scheme \<Rightarrow> user option" where
  "user_from_cookie E rq s =
     (case resolve_trusted E rq s of
        Some u \<Rightarrow> Some u
      | None \<Rightarrow>
          (case rq_session rq of
             None \<Rightarrow> None
           | Some c \<Rightarrow>
               (case verify_session (tokens E) (secret_key E) (rq_now rq) c of
                  Inl _ \<Rightarrow> None
                | Inr uid \<Rightarrow> (case get_by_id uid s of Inl _ \<Rightarrow> None | Inr u \<Rightarrow> Some u))))"

text \<open>\<open>RequireUser\<close> with the trust header and the sessions: the user, or a refusal.\<close>

definition require_user :: "env \<Rightarrow> request \<Rightarrow> 'a server_scheme
    \<Rightarrow> (reply, user) result \<times> 'a server_scheme" where
  "require_user E rq s =
     (case resolve_trusted E rq s of
        Some u \<Rightarrow> (Inr u, s)
      | None \<Rightarrow>
          (case session_claims E rq of
             None \<Rightarrow> (Inl (write_error 401 ''unauthorized''), s)
           | Some cl \<Rightarrow>
               (case session_live get_session touch_session cl (rq_now rq) s of
                  (False, s1) \<Rightarrow> (Inl (write_error 401 ''unauthorized''), s1)
                | (True, s1) \<Rightarrow>
                    (case get_by_id (cl_uid cl) s1 of
                       Inl _ \<Rightarrow> (Inl (write_error 401 ''unauthorized''), s1)
                     | Inr u \<Rightarrow>
                         if disabled u then (Inl (write_error 401 ''unauthorized''), s1) else (Inr u, s1)))))"

definition require_fresh_password :: "user \<Rightarrow> reply option" where
  "require_fresh_password u =
     (if must_change_password u then Some (write_error 403 ''password change required'') else None)"

text \<open>A handler behind \<open>requireUser\<close>, and one behind \<open>requireUser(RequireFreshPassword(...))\<close>.\<close>

definition with_user :: "env \<Rightarrow> request \<Rightarrow> (user \<Rightarrow> 'a server_scheme \<Rightarrow> reply \<times> 'a server_scheme)
    \<Rightarrow> 'a server_scheme \<Rightarrow> reply \<times> 'a server_scheme" where
  "with_user E rq h s =
     (case require_user E rq s of (Inl r, s1) \<Rightarrow> (r, s1) | (Inr u, s1) \<Rightarrow> h u s1)"

definition with_fresh_user :: "env \<Rightarrow> request \<Rightarrow> (user \<Rightarrow> 'a server_scheme \<Rightarrow> reply \<times> 'a server_scheme)
    \<Rightarrow> 'a server_scheme \<Rightarrow> reply \<times> 'a server_scheme" where
  "with_fresh_user E rq h =
     with_user E rq (\<lambda>u s. case require_fresh_password u of Some r \<Rightarrow> (r, s) | None \<Rightarrow> h u s)"

definition handle_status :: "env \<Rightarrow> bool \<Rightarrow> request \<Rightarrow> 'a server_scheme \<Rightarrow> reply" where
  "handle_status E oidc rq s =
     reply_with 200 (StatusBody (count_users s = 0) oidc (user_from_cookie E rq s))"

definition handle_logout :: "env \<Rightarrow> request \<Rightarrow> 'a server_scheme \<Rightarrow> reply \<times> 'a server_scheme" where
  "handle_logout E rq s =
     (let who = user_from_cookie E rq s;
          cl = (case session_claims E rq of None \<Rightarrow> no_claims | Some c \<Rightarrow> c);
          s1 = (case who of
                  Some u \<Rightarrow>
                    if cl_sid cl \<noteq> []
                    then (case revoke_session (cl_sid cl) (user_id u) s of Inl _ \<Rightarrow> s | Inr s' \<Rightarrow> s')
                    else s
                | None \<Rightarrow> s);
          s2 = (case who of
                  Some u \<Rightarrow> log_audit (user_event ''auth.logout'' (user_id u) u []) s1
                | None \<Rightarrow> s1);
          r = (case oidc_logout_url E of
                 Some url \<Rightarrow>
                   if who \<noteq> None \<and> cl_oidc cl then reply_with 200 (LogoutUrlBody url) else reply_with 204 NoBody
               | None \<Rightarrow> reply_with 204 NoBody)
      in (clear_cookie SessionCookie (clear_cookie ChallengeCookie r), s2))"

section \<open>Profile and password\<close>

definition handle_update_profile :: "(string \<times> string) option \<Rightarrow> user \<Rightarrow> 'a server_scheme
    \<Rightarrow> reply \<times> 'a server_scheme" where
  "handle_update_profile b u s =
     (case b of
        None \<Rightarrow> (write_error 400 ''invalid JSON'', s)
      | Some (mail, th) \<Rightarrow>
          if \<not> valid_theme th then (write_error 400 ''invalid theme'', s)
          else
            (case update_profile (user_id u) mail th s of
               Inl (Invalid msg) \<Rightarrow> (write_error 400 msg, s)
             | Inl UserNotFound \<Rightarrow> (write_error 404 ''user not found'', s)
             | Inl _ \<Rightarrow> (write_error 500 ''update failed'', s)
             | Inr (u', s') \<Rightarrow> (reply_with 200 (UserBody u'), s')))"

text \<open>\<open>changePasswordWithAudit\<close>: the row and its audit row in one transaction.\<close>

definition change_password_with_audit :: "user \<Rightarrow> string \<Rightarrow> 'a server_scheme
    \<Rightarrow> (auth_error, 'a server_scheme) result" where
  "change_password_with_audit u h s =
     rbind (update_password (user_id u) h s)
       (\<lambda>s'. Inr (log_audit (user_event ''auth.password.change'' (user_id u) u []) s'))"

definition handle_change_password :: "env \<Rightarrow> request \<Rightarrow> (string \<times> string) option \<Rightarrow> user
    \<Rightarrow> 'a server_scheme \<Rightarrow> reply \<times> 'a server_scheme" where
  "handle_change_password E rq b u s =
     (case b of
        None \<Rightarrow> (write_error 400 ''invalid JSON'', s)
      | Some (current, new) \<Rightarrow>
          if current = [] \<or> new = [] then (write_error 400 ''current and new password required'', s)
          else
            (case get_hash_by_id (user_id u) s of
               Inl _ \<Rightarrow> (write_error 401 ''unauthorized'', s)
             | Inr h \<Rightarrow>
                 if \<not> bcrypt_ok E h current then (write_error 401 ''current password incorrect'', s)
                 else
                   (case hash_password E rq new of
                      Inl e \<Rightarrow> (hash_error_reply e, s)
                    | Inr h' \<Rightarrow>
                        (case change_password_with_audit u h' s of
                           Inl _ \<Rightarrow> (write_error 500 ''password change failed'', s)
                         | Inr s1 \<Rightarrow>
                             (reply_with 204 NoBody,
                              snd (revoke_other_user_sessions (user_id u) (current_session_id E rq) s1))))))"

section \<open>Codes\<close>

definition totp_period :: int where "totp_period = 30"

text \<open>
  \<open>VerifyTOTPCode\<close>: the steps \<open>0, -1, 1\<close> around the current one, those up to the last
  consumed step left out. Go divides toward zero; the two agree on times since 1970.
\<close>

fun try_steps :: "(int \<Rightarrow> string option) \<Rightarrow> string \<Rightarrow> int \<Rightarrow> int list \<Rightarrow> int option" where
  "try_steps code_at code last_step [] = None"
| "try_steps code_at code last_step (st # sts) =
     (if st \<le> last_step then try_steps code_at code last_step sts
      else
        (case code_at st of
           None \<Rightarrow> None
         | Some expected \<Rightarrow> if code = expected then Some st else try_steps code_at code last_step sts))"

definition verify_totp_code :: "env \<Rightarrow> string \<Rightarrow> string \<Rightarrow> int \<Rightarrow> int \<Rightarrow> int option" where
  "verify_totp_code E secret code now last_step =
     (if secret = [] \<or> code = [] then None
      else
        (let current = unix_seconds now div totp_period
         in try_steps (totp_code_at E secret) code last_step [current, current - 1, current + 1]))"

definition upper_char :: "char \<Rightarrow> char" where
  "upper_char c = (if CHR ''a'' \<le> c \<and> c \<le> CHR ''z'' then char_of (of_char c - 32 :: nat) else c)"

text \<open>\<open>NormalizeRecoveryCode\<close>; upper case is that of ASCII.\<close>

definition normalize_code :: "string \<Rightarrow> string" where
  "normalize_code c =
     filter (\<lambda>x. x \<noteq> CHR '' '') (filter (\<lambda>x. x \<noteq> CHR ''-'') (map upper_char (trim_space c)))"

definition recovery_code_count :: nat where "recovery_code_count = 10"

text \<open>\<open>GenerateRecoveryCodes\<close>: ten characters of each base32 string, a hyphen in the middle.\<close>

definition show_code :: "string \<Rightarrow> string" where
  "show_code raw = take 5 raw @ ''-'' @ take 5 (drop 5 raw)"

definition generate_codes :: "env \<Rightarrow> request \<Rightarrow> string list" where
  "generate_codes E rq = map (\<lambda>i. show_code (code_raw E (rq_seed rq) i)) [0..<recovery_code_count]"

definition hash_code :: "env \<Rightarrow> request \<Rightarrow> string \<Rightarrow> string option" where
  "hash_code E rq c = (if normalize_code c = [] then None else bcrypt_hash E (rq_seed rq) (normalize_code c))"

fun hash_codes :: "env \<Rightarrow> request \<Rightarrow> string list \<Rightarrow> string list option" where
  "hash_codes E rq [] = Some []"
| "hash_codes E rq (c # cs) =
     (case hash_code E rq c of
        None \<Rightarrow> None
      | Some h \<Rightarrow> map_option (\<lambda>hs. h # hs) (hash_codes E rq cs))"

definition compare_code :: "env \<Rightarrow> string \<Rightarrow> string \<Rightarrow> bool" where
  "compare_code E presented h = bcrypt_ok E h (normalize_code presented)"

section \<open>The second factor\<close>

definition handle_totp_setup :: "env \<Rightarrow> request \<Rightarrow> user \<Rightarrow> 'a server_scheme \<Rightarrow> reply \<times> 'a server_scheme" where
  "handle_totp_setup E rq u s =
     (case totp_fresh E (rq_seed rq) of
        None \<Rightarrow> (write_error 500 ''totp setup failed'', s)
      | Some secret \<Rightarrow>
          (case vault_seal E secret of
             None \<Rightarrow> (write_error 500 ''totp setup failed'', s)
           | Some x \<Rightarrow>
               (case set_pending_secret (user_id u) x s of
                  Inl _ \<Rightarrow> (write_error 500 ''totp setup failed'', s)
                | Inr s' \<Rightarrow> (reply_with 200 (SecretBody secret), s'))))"

definition activate_with_audit :: "request \<Rightarrow> user \<Rightarrow> sealed \<Rightarrow> string list \<Rightarrow> 'a server_scheme
    \<Rightarrow> (auth_error, 'a server_scheme) result" where
  "activate_with_audit rq u x hashes s =
     rbind (activate_totp (user_id u) x (rq_now rq) s)
       (\<lambda>s1. rbind (insert_recovery_codes (user_id u) hashes s1)
         (\<lambda>s2. Inr (log_audit (user_event ''auth.totp.enroll'' (user_id u) u []) s2)))"

definition handle_totp_confirm :: "env \<Rightarrow> request \<Rightarrow> string option \<Rightarrow> user \<Rightarrow> 'a server_scheme
    \<Rightarrow> reply \<times> 'a server_scheme" where
  "handle_totp_confirm E rq b u s =
     (case b of
        None \<Rightarrow> (write_error 400 ''invalid JSON'', s)
      | Some code0 \<Rightarrow>
          (let code = trim_space code0
           in if code = [] then (write_error 400 ''code required'', s)
              else
                (case get_totp_state (user_id u) s of
                   Inl _ \<Rightarrow> (write_error 500 ''totp confirm failed'', s)
                 | Inr ts \<Rightarrow>
                     if sealed_is_zero (ts_pending ts)
                     then (write_error 400 ''no pending enrollment; call /totp/setup first'', s)
                     else
                       (case vault_open E (ts_pending ts) of
                          Inl True \<Rightarrow> (write_error 422 ''pending TOTP secret cannot be decrypted with the current master key'', s)
                        | Inl False \<Rightarrow> (write_error 500 ''totp confirm failed'', s)
                        | Inr secret \<Rightarrow>
                            (case verify_totp_code E secret code (rq_now rq) 0 of
                               None \<Rightarrow> (write_error 401 ''invalid code'', s)
                             | Some _ \<Rightarrow>
                                 (case hash_codes E rq (generate_codes E rq) of
                                    None \<Rightarrow> (write_error 500 ''totp confirm failed'', s)
                                  | Some hashes \<Rightarrow>
                                      (case activate_with_audit rq u (ts_pending ts) hashes s of
                                         Inl _ \<Rightarrow> (write_error 500 ''totp confirm failed'', s)
                                       | Inr s' \<Rightarrow> (reply_with 200 (CodesBody (generate_codes E rq)), s')))))))) "

definition consume_recovery_with_audit :: "env \<Rightarrow> request \<Rightarrow> user \<Rightarrow> string \<Rightarrow> 'a server_scheme
    \<Rightarrow> (auth_error, 'a server_scheme) result" where
  "consume_recovery_with_audit E rq u code s =
     rbind (consume_recovery_code (user_id u) (compare_code E code) (rq_now rq) s)
       (\<lambda>s'. Inr (log_audit (user_event ''auth.totp.recovery.use'' (user_id u) u []) s'))"

text \<open>\<open>tryVerifyCode\<close>: whether the code was accepted, and by then consumed.\<close>

definition try_verify_code :: "env \<Rightarrow> request \<Rightarrow> user \<Rightarrow> totp_state \<Rightarrow> string \<Rightarrow> 'a server_scheme
    \<Rightarrow> bool \<times> 'a server_scheme" where
  "try_verify_code E rq u ts code s =
     (let via_totp =
        (case vault_open E (ts_secret ts) of
           Inl _ \<Rightarrow> None
         | Inr secret \<Rightarrow>
             (case verify_totp_code E secret code (rq_now rq) (ts_last_step ts) of
                None \<Rightarrow> None
              | Some st \<Rightarrow>
                  (case consume_step (user_id u) st s of Inl _ \<Rightarrow> None | Inr s' \<Rightarrow> Some s')))
      in case via_totp of
           Some s' \<Rightarrow> (True, s')
         | None \<Rightarrow>
             (case consume_recovery_with_audit E rq u code s of Inl _ \<Rightarrow> (False, s) | Inr s' \<Rightarrow> (True, s')))"

text \<open>\<open>rememberDevice\<close>: the cookie, when the row and the signature work out.\<close>

definition remember_device :: "env \<Rightarrow> request \<Rightarrow> string \<Rightarrow> int \<Rightarrow> 'a server_scheme
    \<Rightarrow> string option \<times> 'a server_scheme" where
  "remember_device E rq uid epoch s =
     (let (did, s1) = fresh_id E s;
          now = rq_now rq
      in case insert_device \<lparr>dev_id = did, dev_user = uid, dev_label = label_from_agent (rq_agent rq),
             dev_created = now, dev_last_used = now, dev_expires = now + device_ttl, dev_epoch = epoch\<rparr> s1 of
           Inl _ \<Rightarrow> (None, s1)
         | Inr s2 \<Rightarrow>
             (case sign_token (tokens E) (secret_key E) purpose_device
                 (no_claims\<lparr>cl_uid := uid, cl_device := did, cl_epoch := epoch\<rparr>) (now + device_ttl) of
                Inl _ \<Rightarrow> (None, s2)
              | Inr tok \<Rightarrow> (Some tok, s2)))"

text \<open>The end of \<open>handleTOTPVerify\<close>, after the code has been accepted on an unlocked account.\<close>

definition finish_totp :: "env \<Rightarrow> request \<Rightarrow> user \<Rightarrow> int \<Rightarrow> bool \<Rightarrow> 'a server_scheme
    \<Rightarrow> reply \<times> 'a server_scheme" where
  "finish_totp E rq u epoch remember s =
     (let s1 = (case clear_login_failures (user_id u) s of Inl _ \<Rightarrow> s | Inr s' \<Rightarrow> s');
          (trust, s2) = (if remember then remember_device E rq (user_id u) epoch s1 else (None, s1));
          cookies = (\<lambda>r. clear_cookie ChallengeCookie
             (case trust of None \<Rightarrow> r | Some tok \<Rightarrow> set_cookie DeviceCookie tok r))
      in case issue_cookie E rq (user_id u) False s2 of
           (None, s3) \<Rightarrow> (cookies (write_error 500 ''session failed''), s3)
         | (Some tok, s3) \<Rightarrow> (cookies (set_cookie SessionCookie tok (reply_with 200 (UserBody u))), s3))"

definition handle_totp_verify :: "env \<Rightarrow> request \<Rightarrow> (string \<times> bool) option \<Rightarrow> 'a server_scheme
    \<Rightarrow> reply \<times> 'a server_scheme" where
  "handle_totp_verify E rq b s =
     (case throttle_allow rq s of
        (Some r, s0) \<Rightarrow> (r, s0)
      | (None, s0) \<Rightarrow>
          (let invalid = clear_cookie ChallengeCookie (write_error 401 ''challenge invalid'')
           in case rq_challenge rq of
                None \<Rightarrow> (write_error 401 ''no challenge'', s0)
              | Some c \<Rightarrow>
                  (case verify_token (tokens E) (secret_key E) (rq_now rq) purpose_challenge c of
                     Inl _ \<Rightarrow> (invalid, s0)
                   | Inr cl \<Rightarrow>
                       (case b of
                          None \<Rightarrow> (write_error 400 ''invalid JSON'', s0)
                        | Some (code0, remember) \<Rightarrow>
                            (let code = trim_space code0
                             in if code = [] then (write_error 400 ''code required'', s0)
                                else
                                  (case get_by_id (cl_uid cl) s0 of
                                     Inl _ \<Rightarrow> (invalid, s0)
                                   | Inr u \<Rightarrow>
                                       if disabled u then (invalid, s0)
                                       else
                                         (case get_totp_state (user_id u) s0 of
                                            Inl _ \<Rightarrow> (write_error 500 ''verify failed'', s0)
                                          | Inr ts \<Rightarrow>
                                              if \<not> ts_enabled ts \<or> sealed_is_zero (ts_secret ts) then (invalid, s0)
                                              else
                                                (case try_verify_code E rq u ts code s0 of
                                                   (False, s1) \<Rightarrow>
                                                     (write_error 401 ''invalid code'',
                                                      log_login_failed (username u) ''wrong_code'' (punish rq u s1))
                                                 | (True, s1) \<Rightarrow>
                                                     if was_locked rq u
                                                     then (clear_cookie ChallengeCookie (locked_reply u),
                                                           log_login_failed (username u) ''locked'' s1)
                                                     else finish_totp E rq u (ts_epoch ts) remember s1)))))))) "

definition disable_with_audit :: "user \<Rightarrow> 'a server_scheme \<Rightarrow> (auth_error, 'a server_scheme) result" where
  "disable_with_audit u s =
     rbind (disable_totp (user_id u) s)
       (\<lambda>s'. Inr (log_audit (user_event ''auth.totp.disable'' (user_id u) u []) s'))"

definition handle_totp_disable :: "env \<Rightarrow> request \<Rightarrow> (string \<times> string) option \<Rightarrow> user \<Rightarrow> 'a server_scheme
    \<Rightarrow> reply \<times> 'a server_scheme" where
  "handle_totp_disable E rq b u s =
     (case b of
        None \<Rightarrow> (write_error 400 ''invalid JSON'', s)
      | Some (pw, code) \<Rightarrow>
          if pw = [] \<or> code = [] then (write_error 400 ''password and code required'', s)
          else
            (case get_hash_by_id (user_id u) s of
               Inl _ \<Rightarrow> (write_error 500 ''disable failed'', s)
             | Inr h \<Rightarrow>
                 if \<not> bcrypt_ok E h pw then (write_error 401 ''invalid credentials'', s)
                 else
                   (case get_totp_state (user_id u) s of
                      Inl _ \<Rightarrow> (write_error 500 ''disable failed'', s)
                    | Inr ts \<Rightarrow>
                        if \<not> ts_enabled ts \<or> sealed_is_zero (ts_secret ts)
                        then (write_error 400 ''totp not enabled'', s)
                        else
                          (case vault_open E (ts_secret ts) of
                             Inl True \<Rightarrow> (write_error 422 ''TOTP secret cannot be decrypted with the current master key'', s)
                           | Inl False \<Rightarrow> (write_error 500 ''disable failed'', s)
                           | Inr secret \<Rightarrow>
                               (case verify_totp_code E secret (trim_space code) (rq_now rq) (ts_last_step ts) of
                                  None \<Rightarrow> (write_error 401 ''invalid code'', s)
                                | Some _ \<Rightarrow>
                                    (case disable_with_audit u s of
                                       Inl _ \<Rightarrow> (write_error 500 ''disable failed'', s)
                                     | Inr s' \<Rightarrow> (clear_cookie DeviceCookie (reply_with 204 NoBody), s')))))))"

section \<open>Devices and sessions\<close>

definition handle_list_devices :: "user \<Rightarrow> 'a server_scheme \<Rightarrow> reply" where
  "handle_list_devices u s = reply_with 200 (DevicesBody (list_devices (user_id u) s))"

definition handle_revoke_device :: "string \<Rightarrow> user \<Rightarrow> 'a server_scheme \<Rightarrow> reply \<times> 'a server_scheme" where
  "handle_revoke_device did u s =
     (if did = [] then (write_error 400 ''device id required'', s)
      else
        (case delete_device did (user_id u) s of
           Inl _ \<Rightarrow> (write_error 404 ''device not found'', s)
         | Inr s' \<Rightarrow> (reply_with 204 NoBody, s')))"

definition handle_list_sessions :: "env \<Rightarrow> request \<Rightarrow> user \<Rightarrow> 'a server_scheme \<Rightarrow> reply" where
  "handle_list_sessions E rq u s =
     reply_with 200 (SessionsBody
       (map (\<lambda>x. (x, ses_id x = current_session_id E rq)) (list_sessions (user_id u) s)))"

definition handle_revoke_session :: "env \<Rightarrow> request \<Rightarrow> string \<Rightarrow> user \<Rightarrow> 'a server_scheme
    \<Rightarrow> reply \<times> 'a server_scheme" where
  "handle_revoke_session E rq sid u s =
     (if sid = [] then (write_error 400 ''session id required'', s)
      else
        (case revoke_session sid (user_id u) s of
           Inl _ \<Rightarrow> (write_error 404 ''session not found'', s)
         | Inr s' \<Rightarrow>
             (let r = reply_with 204 NoBody
              in (if sid = current_session_id E rq then clear_cookie SessionCookie r else r,
                  log_audit (user_event ''auth.session.revoke'' (user_id u) u []) s'))))"

definition handle_revoke_others :: "env \<Rightarrow> request \<Rightarrow> user \<Rightarrow> 'a server_scheme
    \<Rightarrow> reply \<times> 'a server_scheme" where
  "handle_revoke_others E rq u s =
     (case revoke_other_user_sessions (user_id u) (current_session_id E rq) s of
        (n, s') \<Rightarrow>
          (reply_with 200 (RevokedBody n),
           log_audit (user_event ''auth.session.revoke_others'' (user_id u) u
             (with_safe ''revoked'' (DInt (int n)) [])) s'))"

end
