(* ===== verification/Rbac.thy ===== *)
theory Rbac
  imports AuthFlow
begin

text \<open>
  Roles and scopes (\<open>internal/rbac\<close>): the permissions a set of assignments gives
  (\<open>rbac.go\<close>), the table \<open>user_roles\<close> with its foreign keys and its guard against
  losing the last global admin (\<open>store.go\<close>), the middleware that resolves the scope and
  the handlers that grant and revoke (\<open>middleware.go\<close>, \<open>handler.go\<close>). The role table
  extends the tables of \<open>internal/auth\<close>, with which it shares the database.
\<close>

section \<open>Roles\<close>

type_synonym role = string

abbreviation role_admin :: role where "role_admin \<equiv> ''admin''"
abbreviation role_operator :: role where "role_operator \<equiv> ''operator''"
abbreviation role_auditor :: role where "role_auditor \<equiv> ''auditor''"

definition valid_role :: "role \<Rightarrow> bool" where
  "valid_role r = (r = role_admin \<or> r = role_operator \<or> r = role_auditor)"

definition rank :: "role \<Rightarrow> nat" where
  "rank r =
     (if r = role_admin then 3 else if r = role_operator then 2 else if r = role_auditor then 1 else 0)"

record assignment =
  as_user :: string
  as_group :: "string option"
  as_role :: role

record scope =
  sc_user :: string
  sc_rows :: "assignment list"
  sc_global :: role
  sc_groups :: "(string \<times> role) list"

text \<open>The loop of \<open>NewScope\<close>; \<open>sc_groups\<close> is the map \<open>groupRole\<close>.\<close>

definition add_row :: "assignment \<Rightarrow> scope \<Rightarrow> scope" where
  "add_row a s =
     (case as_group a of
        None \<Rightarrow> if rank (as_role a) > rank (sc_global s) then s\<lparr>sc_global := as_role a\<rparr> else s
      | Some g \<Rightarrow>
          (case map_of (sc_groups s) g of
             None \<Rightarrow> s\<lparr>sc_groups := alist_put g (as_role a) (sc_groups s)\<rparr>
           | Some cur \<Rightarrow>
               if rank (as_role a) > rank cur
               then s\<lparr>sc_groups := alist_put g (as_role a) (sc_groups s)\<rparr> else s))"

definition new_scope :: "string \<Rightarrow> assignment list \<Rightarrow> scope" where
  "new_scope uid rows =
     fold add_row rows \<lparr>sc_user = uid, sc_rows = rows, sc_global = [], sc_groups = []\<rparr>"

text \<open>A Go map lookup: the zero value, the empty role, when there is none.\<close>

definition role_on_group :: "scope \<Rightarrow> string \<Rightarrow> role" where
  "role_on_group s g = (case map_of (sc_groups s) g of None \<Rightarrow> [] | Some r \<Rightarrow> r)"

definition has_any_role :: "scope \<Rightarrow> bool" where
  "has_any_role s = (sc_global s \<noteq> [] \<or> length (sc_groups s) > 0)"

definition is_global_admin :: "scope \<Rightarrow> bool" where
  "is_global_admin s = (sc_global s = role_admin)"

definition is_global_operator :: "scope \<Rightarrow> bool" where
  "is_global_operator s = (sc_global s = role_admin \<or> sc_global s = role_operator)"

definition is_global_auditor :: "scope \<Rightarrow> bool" where
  "is_global_auditor s = (sc_global s \<noteq> [])"

definition can_read_group :: "scope \<Rightarrow> string \<Rightarrow> bool" where
  "can_read_group s g = (if is_global_auditor s then True else map_of (sc_groups s) g \<noteq> None)"

definition can_operate_group :: "scope \<Rightarrow> string \<Rightarrow> bool" where
  "can_operate_group s g =
     (if is_global_operator s then True
      else role_on_group s g = role_admin \<or> role_on_group s g = role_operator)"

definition can_admin_group :: "scope \<Rightarrow> string \<Rightarrow> bool" where
  "can_admin_group s g = (is_global_admin s \<or> role_on_group s g = role_admin)"

definition can_read_system :: "scope \<Rightarrow> string option \<Rightarrow> bool" where
  "can_read_system s g =
     (if is_global_auditor s then True
      else (case g of None \<Rightarrow> False | Some i \<Rightarrow> map_of (sc_groups s) i \<noteq> None))"

definition can_create_system :: "scope \<Rightarrow> bool" where
  "can_create_system s = is_global_admin s"

definition can_delete_system :: "scope \<Rightarrow> string option \<Rightarrow> bool" where
  "can_delete_system s g =
     (if is_global_admin s then True
      else (case g of None \<Rightarrow> False | Some i \<Rightarrow> role_on_group s i = role_admin))"

definition can_edit_system :: "scope \<Rightarrow> string option \<Rightarrow> bool" where
  "can_edit_system s g =
     (if is_global_operator s then True
      else (case g of None \<Rightarrow> False
            | Some i \<Rightarrow> role_on_group s i = role_admin \<or> role_on_group s i = role_operator))"

definition can_move_system :: "scope \<Rightarrow> string option \<Rightarrow> string option \<Rightarrow> bool" where
  "can_move_system s src dst =
     (if is_global_admin s then True
      else (case (src, dst) of
              (Some f, Some t) \<Rightarrow> can_admin_group s f \<and> can_admin_group s t
            | _ \<Rightarrow> False))"

definition can_manage_groups :: "scope \<Rightarrow> bool" where
  "can_manage_groups s = is_global_admin s"

definition can_manage_users :: "scope \<Rightarrow> bool" where
  "can_manage_users s = is_global_admin s"

definition can_grant_on_group :: "scope \<Rightarrow> string \<Rightarrow> role \<Rightarrow> bool" where
  "can_grant_on_group s g r =
     (if \<not> valid_role r then False
      else if is_global_admin s then True
      else if role_on_group s g \<noteq> role_admin then False
      else r = role_operator \<or> r = role_auditor)"

definition can_grant_global :: "scope \<Rightarrow> bool" where
  "can_grant_global s = is_global_admin s"

definition visible_group_ids :: "scope \<Rightarrow> string list" where
  "visible_group_ids s = sort (map fst (sc_groups s))"

section \<open>The table of assignments\<close>

record rbac_server = server +
  roles :: "assignment list"
  groups :: "(string \<times> string) list"
  layouts :: "(string \<times> string) list"
  backfilled :: bool

datatype rbac_error =
    RoleInvalid string
  | NotFound
  | Duplicate
  | LastAdmin
  | ForeignKey

definition user_exists :: "string \<Rightarrow> 'a auth_db_scheme \<Rightarrow> bool" where
  "user_exists uid db = (user_row_of uid db \<noteq> None)"

definition group_name :: "string \<Rightarrow> 'a rbac_server_scheme \<Rightarrow> string option" where
  "group_name g s = map_of (groups s) g"

text \<open>The unique index folds a NULL group to the empty string.\<close>

definition index_key :: "assignment \<Rightarrow> string \<times> string \<times> role" where
  "index_key a = (as_user a, (case as_group a of None \<Rightarrow> [] | Some g \<Rightarrow> g), as_role a)"

definition resolve_roles :: "string \<Rightarrow> 'a rbac_server_scheme \<Rightarrow> assignment list" where
  "resolve_roles uid s = filter (\<lambda>a. as_user a = uid) (roles s)"

definition grant :: "assignment \<Rightarrow> 'a rbac_server_scheme \<Rightarrow> (rbac_error, 'a rbac_server_scheme) result" where
  "grant a s =
     (if \<not> valid_role (as_role a) then Inl (RoleInvalid ''unknown role'')
      else if as_user a = [] then Inl (RoleInvalid ''user_id required'')
      else if \<exists>b\<in>set (roles s). index_key b = index_key a then Inl Duplicate
      else if \<not> user_exists (as_user a) s \<or>
        (case as_group a of None \<Rightarrow> False | Some g \<Rightarrow> group_name g s = None) then Inl ForeignKey
      else Inr (s\<lparr>roles := roles s @ [a]\<rparr>))"

definition is_global_admin_row :: "assignment \<Rightarrow> bool" where
  "is_global_admin_row a = (as_role a = role_admin \<and> as_group a = None)"

definition count_global_admins :: "'a rbac_server_scheme \<Rightarrow> nat" where
  "count_global_admins s = count_where is_global_admin_row (roles s)"

definition ensure_global_admin_remains :: "'a rbac_server_scheme \<Rightarrow> (rbac_error, unit) result" where
  "ensure_global_admin_remains s = (if count_global_admins s = 0 then Inl LastAdmin else Inr ())"

definition delete_role_rows :: "(assignment \<Rightarrow> bool) \<Rightarrow> 'a rbac_server_scheme
    \<Rightarrow> (rbac_error, 'a rbac_server_scheme) result" where
  "delete_role_rows hit s =
     (if count_where hit (roles s) = 0 then Inl NotFound
      else Inr (s\<lparr>roles := delete_where hit (roles s)\<rparr>))"

definition revoke :: "assignment \<Rightarrow> 'a rbac_server_scheme \<Rightarrow> (rbac_error, 'a rbac_server_scheme) result" where
  "revoke a s =
     (if \<not> valid_role (as_role a) then Inl (RoleInvalid ''unknown role'')
      else
        (let hit = (\<lambda>b. as_user b = as_user a \<and> as_group b = as_group a \<and> as_role b = as_role a)
         in if as_group a \<noteq> None then delete_role_rows hit s
            else if as_role a \<noteq> role_admin then delete_role_rows hit s
            else rbind (delete_role_rows hit s)
              (\<lambda>s'. if count_global_admins s' = 0 then Inl LastAdmin else Inr s')))"

text \<open>\<open>ORDER BY user_id, role\<close>, a stable sort by the role and then by the user.\<close>

definition list_by_group :: "string \<Rightarrow> 'a rbac_server_scheme \<Rightarrow> assignment list" where
  "list_by_group g s =
     sort_key as_user (sort_key as_role (filter (\<lambda>a. as_group a = Some g) (roles s)))"

text \<open>\<open>ORDER BY user_id, group_id, role\<close>; NULL comes first.\<close>

definition list_all_roles :: "'a rbac_server_scheme \<Rightarrow> assignment list" where
  "list_all_roles s =
     (let by_role = sort_key as_role (roles s);
          by_group = filter (\<lambda>a. as_group a = None) by_role @
            sort_key (\<lambda>a. case as_group a of None \<Rightarrow> [] | Some g \<Rightarrow> g)
              (filter (\<lambda>a. as_group a \<noteq> None) by_role)
      in sort_key as_user by_group)"

text \<open>\<open>backfillOnce\<close>: every user there is becomes a global admin, once.\<close>

definition backfill_once :: "'a rbac_server_scheme \<Rightarrow> 'a rbac_server_scheme" where
  "backfill_once s =
     (if backfilled s then s
      else
        (let add = (\<lambda>r rs. let a = \<lparr>as_user = row_id r, as_group = None, as_role = role_admin\<rparr>
                            in if \<exists>b\<in>set rs. index_key b = index_key a then rs else rs @ [a])
         in s\<lparr>roles := fold add (users s) (roles s), backfilled := True\<rparr>))"

text \<open>What the foreign keys do when a user or a group goes.\<close>

definition cascade_user :: "string \<Rightarrow> 'a rbac_server_scheme \<Rightarrow> 'a rbac_server_scheme" where
  "cascade_user uid s = s\<lparr>roles := delete_where (\<lambda>a. as_user a = uid) (roles s)\<rparr>"

definition cascade_group :: "string \<Rightarrow> 'a rbac_server_scheme \<Rightarrow> 'a rbac_server_scheme" where
  "cascade_group g s = s\<lparr>roles := delete_where (\<lambda>a. as_group a = Some g) (roles s)\<rparr>"

text \<open>The hook \<open>main.go\<close> installs: the guard, and the deleted user's dashboard layout.\<close>

definition post_delete :: "string \<Rightarrow> 'a rbac_server_scheme \<Rightarrow> (auth_error, 'a rbac_server_scheme) result" where
  "post_delete uid s =
     (case ensure_global_admin_remains s of
        Inl _ \<Rightarrow> Inl LastGlobalAdmin
      | Inr _ \<Rightarrow> Inr (s\<lparr>layouts := delete_where (\<lambda>(u, _). u = uid) (layouts s)\<rparr>))"

section \<open>The handlers\<close>

record role_dto =
  dto_user :: string
  dto_username :: string
  dto_group :: "string option"
  dto_group_name :: string
  dto_role :: role

datatype role_body =
    RoleError string
  | RoleNone
  | RoleOne role_dto
  | RoleList "role_dto list"
  | RoleScope role "(string \<times> role) list"

type_synonym role_reply = "nat \<times> role_body"

definition role_error :: "nat \<Rightarrow> string \<Rightarrow> role_reply" where
  "role_error st msg = (st, RoleError msg)"

text \<open>\<open>Middleware\<close>: the scope of the authenticated user.\<close>

definition scope_of :: "user \<Rightarrow> 'a rbac_server_scheme \<Rightarrow> scope" where
  "scope_of u s = new_scope (user_id u) (resolve_roles (user_id u) s)"

definition name_of_user :: "string \<Rightarrow> 'a rbac_server_scheme \<Rightarrow> string" where
  "name_of_user uid s = (case get_by_id uid s of Inl _ \<Rightarrow> [] | Inr u \<Rightarrow> username u)"

definition hydrate :: "assignment \<Rightarrow> string \<Rightarrow> 'a rbac_server_scheme \<Rightarrow> role_dto" where
  "hydrate a gname s = \<lparr>dto_user = as_user a, dto_username = name_of_user (as_user a) s,
     dto_group = as_group a, dto_group_name = (if as_group a = None then [] else gname),
     dto_role = as_role a\<rparr>"

text \<open>\<open>logRoleEvent\<close>; \<open>actor\<close> is the authenticated user of the request.\<close>

definition log_role_event :: "string \<Rightarrow> user \<Rightarrow> string \<times> string \<Rightarrow> (string \<times> string) option \<Rightarrow> role
    \<Rightarrow> 'a rbac_server_scheme \<Rightarrow> 'a rbac_server_scheme" where
  "log_role_event action actor target grp r =
     log_audit \<lparr>ev_action = action, ev_outcome = ''success'', ev_actor = user_id actor,
       ev_target = fst target, ev_label = snd target,
       ev_detail = (''role'', DStr r) #
         (case grp of
            Some (gid, gname) \<Rightarrow> [(''group_id'', DStr gid), (''group_name'', DStr gname)]
          | None \<Rightarrow> [(''group_id'', DNull)])\<rparr>"

definition my_scope :: "user \<Rightarrow> 'a rbac_server_scheme \<Rightarrow> role_reply" where
  "my_scope actor s =
     (let sc = scope_of actor s
      in (200, RoleScope (sc_global sc) (map (\<lambda>g. (g, role_on_group sc g)) (visible_group_ids sc))))"

definition list_group :: "string \<Rightarrow> user \<Rightarrow> 'a rbac_server_scheme \<Rightarrow> role_reply" where
  "list_group g actor s =
     (if \<not> can_read_group (scope_of actor s) g then role_error 403 ''forbidden''
      else
        (case group_name g s of
           None \<Rightarrow> role_error 404 ''group not found''
         | Some n \<Rightarrow> (200, RoleList (map (\<lambda>a. hydrate a n s) (list_by_group g s)))))"

definition grant_reply :: "rbac_error \<Rightarrow> role_reply" where
  "grant_reply e =
     (case e of
        Duplicate \<Rightarrow> role_error 409 ''assignment already exists''
      | RoleInvalid m \<Rightarrow> role_error 400 m
      | _ \<Rightarrow> role_error 500 ''grant failed'')"

definition grant_group :: "string \<Rightarrow> (string \<times> role) option \<Rightarrow> user \<Rightarrow> 'a rbac_server_scheme
    \<Rightarrow> role_reply \<times> 'a rbac_server_scheme" where
  "grant_group g b actor s =
     (case b of
        None \<Rightarrow> (role_error 400 ''invalid JSON'', s)
      | Some (uid, r) \<Rightarrow>
          if \<not> valid_role r then (role_error 400 ''unknown role'', s)
          else if uid = [] then (role_error 400 ''userId required'', s)
          else if \<not> can_grant_on_group (scope_of actor s) g r then (role_error 403 ''forbidden'', s)
          else
            (case group_name g s of
               None \<Rightarrow> (role_error 404 ''group not found'', s)
             | Some n \<Rightarrow>
                 (case get_by_id uid s of
                    Inl _ \<Rightarrow> (role_error 404 ''user not found'', s)
                  | Inr u \<Rightarrow>
                      (let a = \<lparr>as_user = uid, as_group = Some g, as_role = r\<rparr>
                       in case grant a s of
                            Inl e \<Rightarrow> (grant_reply e, s)
                          | Inr s' \<Rightarrow>
                              ((201, RoleOne (hydrate a n s')),
                               log_role_event ''role.grant'' actor (user_id u, username u) (Some (g, n)) r s')))))"

definition revoke_group :: "string \<Rightarrow> string \<Rightarrow> role \<Rightarrow> user \<Rightarrow> 'a rbac_server_scheme
    \<Rightarrow> role_reply \<times> 'a rbac_server_scheme" where
  "revoke_group g uid r actor s =
     (if \<not> valid_role r then (role_error 400 ''unknown role'', s)
      else if \<not> can_grant_on_group (scope_of actor s) g r then (role_error 403 ''forbidden'', s)
      else
        (case revoke \<lparr>as_user = uid, as_group = Some g, as_role = r\<rparr> s of
           Inl NotFound \<Rightarrow> (role_error 404 ''assignment not found'', s)
         | Inl _ \<Rightarrow> (role_error 500 ''revoke failed'', s)
         | Inr s' \<Rightarrow>
             ((204, RoleNone),
              log_role_event ''role.revoke'' actor
                (uid, name_of_user uid s) (map_option (\<lambda>n. (g, n)) (group_name g s)) r s')))"

text \<open>
  \<open>listAdmin\<close> caches the names it looks up; nothing changes them meanwhile, so the caches
  are not in the model.
\<close>

definition list_admin :: "user \<Rightarrow> 'a rbac_server_scheme \<Rightarrow> role_reply" where
  "list_admin actor s =
     (if \<not> is_global_admin (scope_of actor s) then role_error 403 ''forbidden''
      else
        (200, RoleList
          (map (\<lambda>a. hydrate a
              (case as_group a of None \<Rightarrow> [] | Some g \<Rightarrow> (case group_name g s of None \<Rightarrow> [] | Some n \<Rightarrow> n)) s)
             (list_all_roles s))))"

text \<open>The checks \<open>grantAdmin\<close> and \<open>revokeAdmin\<close> make of the body.\<close>

definition check_admin_body :: "assignment option \<Rightarrow> (role_reply, assignment) result" where
  "check_admin_body b =
     (case b of
        None \<Rightarrow> Inl (role_error 400 ''invalid JSON'')
      | Some a \<Rightarrow>
          if \<not> valid_role (as_role a) then Inl (role_error 400 ''unknown role'')
          else if as_user a = [] then Inl (role_error 400 ''userId required'')
          else if as_group a = Some [] then Inl (role_error 400 ''groupId must be omitted or non-empty'')
          else Inr a)"

definition grant_admin :: "assignment option \<Rightarrow> user \<Rightarrow> 'a rbac_server_scheme
    \<Rightarrow> role_reply \<times> 'a rbac_server_scheme" where
  "grant_admin b actor s =
     (if \<not> is_global_admin (scope_of actor s) then (role_error 403 ''forbidden'', s)
      else
        (case check_admin_body b of
           Inl r \<Rightarrow> (r, s)
         | Inr a \<Rightarrow>
             (case get_by_id (as_user a) s of
                Inl _ \<Rightarrow> (role_error 404 ''user not found'', s)
              | Inr u \<Rightarrow>
                  (let grp = (case as_group a of
                                None \<Rightarrow> Inr None
                              | Some g \<Rightarrow> (case group_name g s of
                                             None \<Rightarrow> Inl () | Some n \<Rightarrow> Inr (Some (g, n))))
                   in case grp of
                        Inl _ \<Rightarrow> (role_error 404 ''group not found'', s)
                      | Inr gp \<Rightarrow>
                          (case grant a s of
                             Inl e \<Rightarrow> (grant_reply e, s)
                           | Inr s' \<Rightarrow>
                               ((201, RoleOne \<lparr>dto_user = as_user a, dto_username = username u,
                                   dto_group = as_group a,
                                   dto_group_name = (case gp of None \<Rightarrow> [] | Some (_, n) \<Rightarrow> n),
                                   dto_role = as_role a\<rparr>),
                                log_role_event ''role.grant'' actor (user_id u, username u) gp (as_role a) s'))))))"

definition revoke_admin :: "assignment option \<Rightarrow> user \<Rightarrow> 'a rbac_server_scheme
    \<Rightarrow> role_reply \<times> 'a rbac_server_scheme" where
  "revoke_admin b actor s =
     (if \<not> is_global_admin (scope_of actor s) then (role_error 403 ''forbidden'', s)
      else
        (case check_admin_body b of
           Inl r \<Rightarrow> (r, s)
         | Inr a \<Rightarrow>
             (let gp = (case as_group a of
                          None \<Rightarrow> None
                        | Some g \<Rightarrow> map_option (\<lambda>n. (g, n)) (group_name g s))
              in case revoke a s of
                   Inl NotFound \<Rightarrow> (role_error 404 ''assignment not found'', s)
                 | Inl LastAdmin \<Rightarrow>
                     (role_error 409 ''cannot remove the last global admin; promote another user first'', s)
                 | Inl _ \<Rightarrow> (role_error 500 ''revoke failed'', s)
                 | Inr s' \<Rightarrow>
                     ((204, RoleNone),
                      log_role_event ''role.revoke'' actor
                        (as_user a, name_of_user (as_user a) s) gp (as_role a) s'))))"

section \<open>What a scope permits\<close>

text \<open>The highest role of a list, by rank, the first one on a tie.\<close>

definition max_role :: "role \<Rightarrow> role \<Rightarrow> role" where
  "max_role new cur = (if rank new > rank cur then new else cur)"

lemma scope_fold_global:
  "sc_global (fold add_row rows s) =
    fold (\<lambda>a. max_role (as_role a)) (filter (\<lambda>a. as_group a = None) rows) (sc_global s)"
  by (induction rows arbitrary: s) (auto simp: add_row_def max_role_def split: option.splits)

lemma scope_fold_group:
  "map_of (sc_groups (fold add_row rows s)) g =
    fold (\<lambda>a cur. Some (case cur of None \<Rightarrow> as_role a | Some c \<Rightarrow> max_role (as_role a) c))
      (filter (\<lambda>a. as_group a = Some g) rows) (map_of (sc_groups s) g)"
proof (induction rows arbitrary: s)
  case (Cons a rows)
  have "map_of (sc_groups (add_row a s)) g =
      (if as_group a = Some g
       then Some (case map_of (sc_groups s) g of None \<Rightarrow> as_role a | Some c \<Rightarrow> max_role (as_role a) c)
       else map_of (sc_groups s) g)"
    by (auto simp: add_row_def max_role_def split: option.splits)
  with Cons.IH [of "add_row a s"] show ?case by simp
qed simp

lemma fold_max_role:
  "rank (fold (\<lambda>a. max_role (as_role a)) rows r) = fold (\<lambda>a. max (rank (as_role a))) rows (rank r)"
  "fold (\<lambda>a. max_role (as_role a)) rows r = r \<or>
    (\<exists>a\<in>set rows. fold (\<lambda>a. max_role (as_role a)) rows r = as_role a)"
  by (induction rows arbitrary: r) (auto simp: max_role_def max_def)

lemma fold_max_le:
  fixes f :: "'b \<Rightarrow> nat"
  shows "n \<le> fold (\<lambda>a. max (f a)) xs m \<longleftrightarrow> n \<le> m \<or> (\<exists>x\<in>set xs. n \<le> f x)"
  by (induction xs arbitrary: m) (auto simp: le_max_iff_disj)

lemma fold_some_role:
  "fold (\<lambda>a cur. Some (case cur of None \<Rightarrow> as_role a | Some c \<Rightarrow> max_role (as_role a) c)) as (Some r) =
    Some (fold (\<lambda>a. max_role (as_role a)) as r)"
  by (induction as arbitrary: r) simp_all

lemma valid_role_rank: "valid_role r \<longleftrightarrow> 1 \<le> rank r"
  by (auto simp: valid_role_def rank_def)

lemma rank_thresholds:
  "3 \<le> rank r \<longleftrightarrow> r = role_admin" "2 \<le> rank r \<longleftrightarrow> r = role_admin \<or> r = role_operator"
  by (auto simp: rank_def)

lemma rank_Nil [simp]: "rank [] = 0"
  by (simp add: rank_def)

lemma rank_global:
  "n \<le> rank (sc_global (new_scope uid rows)) \<longleftrightarrow>
    n = 0 \<or> (\<exists>a\<in>set rows. as_group a = None \<and> n \<le> rank (as_role a))"
  by (auto simp: new_scope_def scope_fold_global fold_max_role(1) fold_max_le)

lemma rank_group:
  "n \<le> rank (role_on_group (new_scope uid rows) g) \<longleftrightarrow>
    n = 0 \<or> (\<exists>a\<in>set rows. as_group a = Some g \<and> n \<le> rank (as_role a))"
proof (cases "filter (\<lambda>a. as_group a = Some g) rows")
  case Nil
  then have "\<forall>a\<in>set rows. as_group a \<noteq> Some g" by (simp add: filter_empty_conv)
  with Nil show ?thesis
    by (auto simp: role_on_group_def new_scope_def scope_fold_group fold_some_role)
next
  case (Cons a as)
  have "(\<exists>b\<in>set rows. as_group b = Some g \<and> P b) \<longleftrightarrow> P a \<or> (\<exists>b\<in>set as. P b)" for P
    using arg_cong [OF Cons, of set] by (force simp: set_eq_iff)
  with Cons show ?thesis
    by (auto simp: role_on_group_def new_scope_def scope_fold_group fold_some_role
        fold_max_role(1) fold_max_le)
qed

lemma group_key: "map_of (sc_groups (new_scope uid rows)) g \<noteq> None \<longleftrightarrow> (\<exists>a\<in>set rows. as_group a = Some g)"
proof -
  have "map_of (sc_groups (new_scope uid rows)) g = None \<longleftrightarrow> filter (\<lambda>a. as_group a = Some g) rows = []"
    by (cases "filter (\<lambda>a. as_group a = Some g) rows")
      (simp_all add: new_scope_def scope_fold_group fold_some_role)
  then show ?thesis by (auto simp: filter_empty_conv)
qed

lemma global_nonempty:
  "\<forall>a\<in>set rows. valid_role (as_role a) \<Longrightarrow>
    sc_global (new_scope uid rows) \<noteq> [] \<longleftrightarrow> (\<exists>a\<in>set rows. as_group a = None)"
proof -
  assume v: "\<forall>a\<in>set rows. valid_role (as_role a)"
  let ?g = "sc_global (new_scope uid rows)"
  have "?g = [] \<or> (\<exists>a\<in>set rows. ?g = as_role a)"
    using fold_max_role(2) [of "filter (\<lambda>a. as_group a = None) rows" "[]"]
    by (auto simp: new_scope_def scope_fold_global)
  then have "?g \<noteq> [] \<longleftrightarrow> 1 \<le> rank ?g" using v by (auto simp: valid_role_rank)
  with v show ?thesis unfolding rank_global by (auto simp: valid_role_rank)
qed

lemma scope_is_global_admin:
  "is_global_admin (new_scope uid rows) \<longleftrightarrow> (\<exists>a\<in>set rows. is_global_admin_row a)"
  using rank_global [of 3 uid rows]
  by (auto simp: is_global_admin_def is_global_admin_row_def rank_thresholds)

lemma scope_group_admin:
  "role_on_group (new_scope uid rows) g = role_admin \<longleftrightarrow>
    (\<exists>a\<in>set rows. as_group a = Some g \<and> as_role a = role_admin)"
  using rank_group [of 3 uid rows g] by (auto simp: rank_thresholds)

text \<open>
  C1: the permissions of a user are exactly those that some assignment of the user grants:
  a role is valid for every group when it is global and for its own group otherwise, an
  admin can do what an operator can and an operator what an auditor can, and no combination
  of rows, in whatever order they come, permits more or less than its best row.
\<close>

theorem scope_permits_what_rows_grant:
  assumes "\<forall>a\<in>set rows. valid_role (as_role a)"
  shows "let sc = new_scope uid rows; covers = (\<lambda>a. as_group a = None \<or> as_group a = Some g) in
    (can_read_group sc g \<longleftrightarrow> (\<exists>a\<in>set rows. covers a)) \<and>
    (can_operate_group sc g \<longleftrightarrow> (\<exists>a\<in>set rows. covers a \<and> as_role a \<in> {role_admin, role_operator})) \<and>
    (can_admin_group sc g \<longleftrightarrow> (\<exists>a\<in>set rows. covers a \<and> as_role a = role_admin)) \<and>
    (can_edit_system sc (Some g) \<longleftrightarrow> can_operate_group sc g) \<and>
    (can_delete_system sc (Some g) \<longleftrightarrow> can_admin_group sc g) \<and>
    (can_read_system sc None \<longleftrightarrow> (\<exists>a\<in>set rows. as_group a = None)) \<and>
    (can_move_system sc None (Some g) \<longleftrightarrow> (\<exists>a\<in>set rows. is_global_admin_row a))"
proof -
  let ?sc = "new_scope uid rows"
  have op: "is_global_operator ?sc \<longleftrightarrow> 2 \<le> rank (sc_global ?sc)"
    by (simp add: is_global_operator_def rank_thresholds)
  have ad: "is_global_admin ?sc \<longleftrightarrow> 3 \<le> rank (sc_global ?sc)"
    by (simp add: is_global_admin_def rank_thresholds)
  have gop: "role_on_group ?sc g = role_admin \<or> role_on_group ?sc g = role_operator \<longleftrightarrow>
      2 \<le> rank (role_on_group ?sc g)" by (simp add: rank_thresholds)
  have gad: "role_on_group ?sc g = role_admin \<longleftrightarrow> 3 \<le> rank (role_on_group ?sc g)"
    by (simp add: rank_thresholds)
  have read: "can_read_group ?sc g \<longleftrightarrow> (\<exists>a\<in>set rows. as_group a = None \<or> as_group a = Some g)"
    using global_nonempty [OF assms] group_key [of uid rows g]
    by (auto simp: can_read_group_def is_global_auditor_def)
  have operate: "can_operate_group ?sc g \<longleftrightarrow>
      (\<exists>a\<in>set rows. (as_group a = None \<or> as_group a = Some g) \<and> as_role a \<in> {role_admin, role_operator})"
    unfolding can_operate_group_def op gop rank_global rank_group by (auto simp: rank_thresholds)
  have admin: "can_admin_group ?sc g \<longleftrightarrow>
      (\<exists>a\<in>set rows. (as_group a = None \<or> as_group a = Some g) \<and> as_role a = role_admin)"
    unfolding can_admin_group_def ad gad rank_global rank_group by (auto simp: rank_thresholds)
  have system: "can_read_system ?sc None \<longleftrightarrow> (\<exists>a\<in>set rows. as_group a = None)"
    using global_nonempty [OF assms] by (simp add: can_read_system_def is_global_auditor_def)
  have edit: "can_edit_system ?sc (Some g) = can_operate_group ?sc g"
    by (simp add: can_edit_system_def can_operate_group_def)
  have delete: "can_delete_system ?sc (Some g) = can_admin_group ?sc g"
    by (simp add: can_delete_system_def can_admin_group_def)
  have move: "can_move_system ?sc None (Some g) \<longleftrightarrow> (\<exists>a\<in>set rows. is_global_admin_row a)"
    by (simp add: can_move_system_def scope_is_global_admin)
  show ?thesis
    unfolding Let_def read operate admin edit delete move system by blast
qed

lemma scope_permits_what_rows_grant_witness:
  "\<not> can_admin_group (new_scope ''u'' [\<lparr>as_user = ''u'', as_group = Some ''g'', as_role = role_auditor\<rparr>,
     \<lparr>as_user = ''u'', as_group = Some ''g'', as_role = role_operator\<rparr>]) ''g''"
  using scope_permits_what_rows_grant [of "[\<lparr>as_user = ''u'', as_group = Some ''g'', as_role = role_auditor\<rparr>,
     \<lparr>as_user = ''u'', as_group = Some ''g'', as_role = role_operator\<rparr>]" "''u''" "''g''"]
  by (simp add: valid_role_def Let_def)

end
