(* ===== verification/UserAdmin.thy ===== *)
theory UserAdmin
  imports Rbac
begin

text \<open>
  The administration of accounts, \<open>internal/auth/admin_handler.go\<close>, with the delete hook
  of \<open>cmd/server/main.go\<close>. The routes stand behind \<open>requireUser\<close> and
  \<open>RequireFreshPassword\<close> (\<open>RegisterAdmin\<close>), and the handlers take the user these
  let through. No handler looks at the scope of that user.
\<close>

definition handle_list_users :: "'a rbac_server_scheme \<Rightarrow> reply" where
  "handle_list_users s = reply_with 200 (UsersBody (list_users s))"

definition handle_create_user :: "env \<Rightarrow> request \<Rightarrow> (string \<times> string) option \<Rightarrow> user
    \<Rightarrow> 'a rbac_server_scheme \<Rightarrow> reply \<times> 'a rbac_server_scheme" where
  "handle_create_user E rq b actor s =
     (case b of
        None \<Rightarrow> (write_error 400 ''invalid JSON'', s)
      | Some (name, pw) \<Rightarrow>
          (case hash_password E rq pw of
             Inl e \<Rightarrow> (hash_error_reply e, s)
           | Inr h \<Rightarrow>
               (let (uid, s0) = fresh_id E s
                in case create_user uid (rq_now rq) name h s0 of
                     Inl (Invalid msg) \<Rightarrow> (write_error 400 msg, s0)
                   | Inl UserExists \<Rightarrow> (write_error 409 ''username already taken'', s0)
                   | Inl _ \<Rightarrow> (write_error 500 ''create user failed'', s0)
                   | Inr (u, s1) \<Rightarrow>
                       (reply_with 201 (UserBody u),
                        log_audit (user_event ''user.create'' (user_id actor) u []) s1))))"

text \<open>The body of \<open>handleUpdateUser\<close>: None for invalid JSON, \<open>Some None\<close> without the field.\<close>

definition handle_update_user :: "request \<Rightarrow> string \<Rightarrow> bool option option \<Rightarrow> user
    \<Rightarrow> 'a rbac_server_scheme \<Rightarrow> reply \<times> 'a rbac_server_scheme" where
  "handle_update_user rq uid b actor s =
     (if uid = [] then (write_error 400 ''user id required'', s)
      else
        (case b of
           None \<Rightarrow> (write_error 400 ''invalid JSON'', s)
         | Some None \<Rightarrow> (write_error 400 ''no fields to update'', s)
         | Some (Some want) \<Rightarrow>
             if want \<and> uid = user_id actor then (write_error 400 ''cannot disable your own account'', s)
             else
               (case get_by_id uid s of
                  Inl _ \<Rightarrow> (write_error 404 ''user not found'', s)
                | Inr target \<Rightarrow>
                    if want \<and> \<not> disabled target \<and> count_enabled s \<le> 1
                    then (write_error 400 ''cannot disable the last enabled user'', s)
                    else
                      (case set_disabled uid want (rq_now rq) s of
                         Inl _ \<Rightarrow> (write_error 404 ''user not found'', s)
                       | Inr (updated, s1) \<Rightarrow>
                           (let s2 = (if want then snd (revoke_user_sessions uid s1) else s1);
                                action = (if want then ''user.disable'' else ''user.enable'')
                            in (reply_with 200 (UserBody updated),
                                log_audit (user_event action (user_id actor) updated []) s2)))))) "

definition handle_delete_user :: "string \<Rightarrow> user \<Rightarrow> 'a rbac_server_scheme
    \<Rightarrow> reply \<times> 'a rbac_server_scheme" where
  "handle_delete_user uid actor s =
     (if uid = [] then (write_error 400 ''user id required'', s)
      else if uid = user_id actor then (write_error 400 ''cannot remove your own account'', s)
      else
        (case get_by_id uid s of
           Inl _ \<Rightarrow> (write_error 404 ''user not found'', s)
         | Inr target \<Rightarrow>
             if \<not> disabled target \<and> count_enabled s \<le> 1
             then (write_error 400 ''cannot remove the last enabled user'', s)
             else
               (case delete_user cascade_user post_delete uid s of
                  Inl UserNotFound \<Rightarrow> (write_error 404 ''user not found'', s)
                | Inl LastGlobalAdmin \<Rightarrow>
                    (write_error 409 ''cannot remove the last global admin; promote another user first'', s)
                | Inl _ \<Rightarrow> (write_error 500 ''delete failed'', s)
                | Inr s1 \<Rightarrow>
                    (reply_with 204 NoBody,
                     log_audit (user_event ''user.delete'' (user_id actor) target [])
                       (snd (revoke_user_sessions uid s1))))))"

definition handle_admin_reset_password :: "env \<Rightarrow> request \<Rightarrow> string \<Rightarrow> string option \<Rightarrow> user
    \<Rightarrow> 'a rbac_server_scheme \<Rightarrow> reply \<times> 'a rbac_server_scheme" where
  "handle_admin_reset_password E rq uid b actor s =
     (if uid = [] then (write_error 400 ''user id required'', s)
      else if uid = user_id actor
      then (write_error 400 ''use /api/auth/password to change your own password'', s)
      else
        (case b of
           None \<Rightarrow> (write_error 400 ''invalid JSON'', s)
         | Some pw \<Rightarrow>
             (case get_by_id uid s of
                Inl _ \<Rightarrow> (write_error 404 ''user not found'', s)
              | Inr target \<Rightarrow>
                  (case hash_password E rq pw of
                     Inl e \<Rightarrow> (hash_error_reply e, s)
                   | Inr h \<Rightarrow>
                       (case admin_set_password uid h s of
                          Inl _ \<Rightarrow> (write_error 404 ''user not found'', s)
                        | Inr s1 \<Rightarrow>
                            (reply_with 204 NoBody,
                             log_audit (user_event ''auth.admin.password_reset'' (user_id actor) target [])
                               (snd (revoke_user_sessions uid s1))))))))"

definition handle_admin_reset_totp :: "string \<Rightarrow> user \<Rightarrow> 'a rbac_server_scheme
    \<Rightarrow> reply \<times> 'a rbac_server_scheme" where
  "handle_admin_reset_totp uid actor s =
     (if uid = [] then (write_error 400 ''user id required'', s)
      else if uid = user_id actor then (write_error 400 ''use /api/auth/totp to disable your own 2FA'', s)
      else
        (case get_by_id uid s of
           Inl _ \<Rightarrow> (write_error 404 ''user not found'', s)
         | Inr target \<Rightarrow>
             (case admin_reset_totp uid s of
                Inl _ \<Rightarrow> (write_error 404 ''user not found'', s)
              | Inr s1 \<Rightarrow>
                  (reply_with 204 NoBody,
                   log_audit (user_event ''auth.admin.totp_reset'' (user_id actor) target []) s1))))"

definition handle_admin_list_sessions :: "string \<Rightarrow> 'a rbac_server_scheme \<Rightarrow> reply" where
  "handle_admin_list_sessions uid s =
     (if uid = [] then write_error 400 ''user id required''
      else
        (case get_by_id uid s of
           Inl _ \<Rightarrow> write_error 404 ''user not found''
         | Inr _ \<Rightarrow> reply_with 200 (SessionsBody (map (\<lambda>x. (x, False)) (list_sessions uid s)))))"

definition handle_admin_revoke_session :: "string \<Rightarrow> string \<Rightarrow> user \<Rightarrow> 'a rbac_server_scheme
    \<Rightarrow> reply \<times> 'a rbac_server_scheme" where
  "handle_admin_revoke_session uid sid actor s =
     (if uid = [] \<or> sid = [] then (write_error 400 ''user id and session id required'', s)
      else
        (case get_by_id uid s of
           Inl _ \<Rightarrow> (write_error 404 ''user not found'', s)
         | Inr target \<Rightarrow>
             (case revoke_session sid uid s of
                Inl _ \<Rightarrow> (write_error 404 ''session not found'', s)
              | Inr s1 \<Rightarrow>
                  (reply_with 204 NoBody,
                   log_audit (user_event ''auth.admin.session.revoke'' (user_id actor) target []) s1))))"

end
