(* ===== verification/Api.thy ===== *)
theory Api
  imports UserAdmin
begin

text \<open>
  The accounts and roles as one system: every route of \<open>internal/auth\<close> and \<open>internal/rbac\<close>
  as a call, the middleware in front of it, and the steps of a running server. The
  invariants of the role table are proved for every reachable state.
\<close>

section \<open>What an operation leaves alone\<close>

definition frame :: "'a rbac_server_scheme \<Rightarrow> 'a rbac_server_scheme \<Rightarrow> bool" where
  "frame s s' \<longleftrightarrow> roles s' = roles s \<and> groups s' = groups s \<and> backfilled s' = backfilled s \<and>
     row_id ` set (users s) \<subseteq> row_id ` set (users s')"

lemma frame_refl [simp]: "frame s s"
  by (simp add: frame_def)

lemma frame_trans [trans]: "frame s t \<Longrightarrow> frame t u \<Longrightarrow> frame s u"
  by (auto simp: frame_def)

text \<open>Changes of the other tables, on either side.\<close>

lemma frame_fields_left [simp]:
  "frame (s\<lparr>sessions := a\<rparr>) t = frame s t" "frame (s\<lparr>devices := b\<rparr>) t = frame s t"
  "frame (s\<lparr>recovery := c\<rparr>) t = frame s t" "frame (s\<lparr>limiter := d\<rparr>) t = frame s t"
  "frame (s\<lparr>audit_rows := e\<rparr>) t = frame s t" "frame (s\<lparr>id_count := n\<rparr>) t = frame s t"
  "frame (s\<lparr>meta := m\<rparr>) t = frame s t"
  by (simp_all add: frame_def)

lemma frame_fields [simp]:
  "frame s (t\<lparr>sessions := a\<rparr>) = frame s t" "frame s (t\<lparr>devices := b\<rparr>) = frame s t"
  "frame s (t\<lparr>recovery := c\<rparr>) = frame s t" "frame s (t\<lparr>limiter := d\<rparr>) = frame s t"
  "frame s (t\<lparr>audit_rows := e\<rparr>) = frame s t" "frame s (t\<lparr>id_count := n\<rparr>) = frame s t"
  "frame s (t\<lparr>meta := m\<rparr>) = frame s t"
  by (simp_all add: frame_def)

lemma ids_update_where:
  assumes "\<And>r. row_id (f r) = row_id r"
  shows "row_id ` set (update_where p f rs) = row_id ` set rs"
  using map_update_where [of p row_id f rs] assms by (metis list.set_map)

lemma frame_users:
  assumes "\<And>r. row_id (f r) = row_id r"
  shows "frame s (s\<lparr>users := update_where p f (users s)\<rparr>)"
  using ids_update_where [of f, OF assms] by (simp add: frame_def del: set_update_where)

lemma frame_update_user:
  "update_user uid f s = Inr s' \<Longrightarrow> (\<And>r. row_id (f r) = row_id r) \<Longrightarrow> frame s s'"
  by (erule update_user_InrD) (simp only: frame_users)

lemma frame_create_user: "create_user i now n h s = Inr (u, s') \<Longrightarrow> frame s s'"
  by (auto simp: create_user_def frame_def Let_def split: if_splits)

lemma frame_log [simp]: "frame s (log_audit e t) = frame s t"
  by (simp add: log_audit_def)

lemma frame_log_failed [simp]: "frame s (log_login_failed a b t) = frame s t"
  by (simp add: log_login_failed_def)

lemma frame_tick [simp]: "frame s (tick_limiter rq t) = frame s t"
  by (simp add: tick_limiter_def)

lemma frame_results:
  "update_profile i e t s = Inr (u, s') \<Longrightarrow> frame s s'"
  "update_password i h s = Inr s' \<Longrightarrow> frame s s'"
  "admin_set_password i h s = Inr s' \<Longrightarrow> frame s s'"
  "record_login_failure_row i l s = Inr (n, s') \<Longrightarrow> frame s s'"
  "clear_login_failures i s = Inr s' \<Longrightarrow> frame s s'"
  "set_disabled i b now s = Inr (u, s') \<Longrightarrow> frame s s'"
  "set_pending_secret i x s = Inr s' \<Longrightarrow> frame s s'"
  "activate_totp i x now s = Inr s' \<Longrightarrow> frame s s'"
  "disable_totp i s = Inr s' \<Longrightarrow> frame s s'"
  "admin_reset_totp i s = Inr s' \<Longrightarrow> frame s s'"
  "consume_step i st s = Inr s' \<Longrightarrow> frame s s'"
  "insert_recovery_codes i hs s = Inr s' \<Longrightarrow> frame s s'"
  "consume_recovery_code i m now s = Inr s' \<Longrightarrow> frame s s'"
  "insert_device d s = Inr s' \<Longrightarrow> frame s s'"
  "delete_device i j s = Inr s' \<Longrightarrow> frame s s'"
  "touch_device i now s = Inr s' \<Longrightarrow> frame s s'"
  "create_session y s = Inr s' \<Longrightarrow> frame s s'"
  "revoke_session i j s = Inr s' \<Longrightarrow> frame s s'"
proof -
  note d = update_profile_def update_password_def admin_set_password_def clear_login_failures_def
    set_disabled_def set_pending_secret_def activate_totp_def
  show "update_profile i e t s = Inr (u, s') \<Longrightarrow> frame s s'"
    "update_password i h s = Inr s' \<Longrightarrow> frame s s'"
    "admin_set_password i h s = Inr s' \<Longrightarrow> frame s s'"
    "clear_login_failures i s = Inr s' \<Longrightarrow> frame s s'"
    "set_disabled i b now s = Inr (u, s') \<Longrightarrow> frame s s'"
    "set_pending_secret i x s = Inr s' \<Longrightarrow> frame s s'"
    "activate_totp i x now s = Inr s' \<Longrightarrow> frame s s'"
    by (auto simp: d split: if_splits intro: frame_update_user)
  show "record_login_failure_row i l s = Inr (n, s') \<Longrightarrow> frame s s'"
    by (auto simp: record_login_failure_row_def Let_def split: option.splits intro: frame_update_user)
  show "disable_totp i s = Inr s' \<Longrightarrow> frame s s'" "admin_reset_totp i s = Inr s' \<Longrightarrow> frame s s'"
    by (auto simp: disable_totp_def admin_reset_totp_def delete_factor_rows_def elim!: frame_update_user)
  show "consume_step i st s = Inr s' \<Longrightarrow> frame s s'"
    by (auto simp: consume_step_def Let_def split: if_splits intro: frame_users)
  show "insert_recovery_codes i hs s = Inr s' \<Longrightarrow> frame s s'"
    "consume_recovery_code i m now s = Inr s' \<Longrightarrow> frame s s'"
    by (auto simp: insert_recovery_codes_def consume_recovery_code_def Let_def split: if_splits option.splits)
  show "insert_device d s = Inr s' \<Longrightarrow> frame s s'" "delete_device i j s = Inr s' \<Longrightarrow> frame s s'"
    "touch_device i now s = Inr s' \<Longrightarrow> frame s s'" "create_session y s = Inr s' \<Longrightarrow> frame s s'"
    "revoke_session i j s = Inr s' \<Longrightarrow> frame s s'"
    by (auto simp: insert_device_def delete_device_def touch_device_def create_session_def
        revoke_session_def Let_def split: if_splits)
qed

lemma frame_totals [simp]:
  "frame s (snd (delete_sessions hit t)) = frame s t"
  "frame s (snd (revoke_user_sessions i t)) = frame s t"
  "frame s (snd (revoke_other_user_sessions i k t)) = frame s t"
  "frame s (snd (delete_expired_sessions now t)) = frame s t"
  "frame s (touch_session i now t) = frame s t"
  "frame s (snd (fresh_id E t)) = frame s t"
  by (simp_all add: revoke_user_sessions_def revoke_other_user_sessions_def delete_expired_sessions_def
      delete_sessions_def touch_session_def fresh_id_def)

lemma frame_record_failure: "frame s (record_login_failure rq who s)"
  using frame_results(4) [of _ _ "tick_limiter rq s"]
  by (auto simp: record_login_failure_def Let_def split: option.split sum.split)
    (metis frame_refl frame_tick frame_trans)+

lemma frame_punish: "frame s (punish rq u s)"
  by (simp add: punish_def frame_record_failure)

lemma frame_issue_cookie: "frame s (snd (issue_cookie E rq uid oidc s))"
  by (auto simp: issue_cookie_def fresh_id_def Let_def split: sum.split
      dest!: frame_results(17) intro: frame_trans)

lemma frame_finish_login: "frame s (snd (finish_login E rq u how s))"
proof -
  obtain tok s1 where c: "issue_cookie E rq (user_id u) False s = (tok, s1)" by fastforce
  have "frame s s1" using frame_issue_cookie [of s E rq "user_id u" False] c by simp
  then show ?thesis using c
    by (auto simp: finish_login_def Let_def split: option.split sum.split
        dest: frame_results(5) intro: frame_trans)
qed

lemma frame_throttle: "throttle_allow rq s = (r, s1) \<Longrightarrow> frame s s1"
  by (auto simp: throttle_allow_def Let_def split: prod.splits if_splits)

lemma frame_honor: "honor_trusted_device E rq uid ep s = (b, s1) \<Longrightarrow> frame s s1"
  by (auto simp: honor_trusted_device_def split: option.splits sum.splits if_splits dest: frame_results(16))

lemma frame_challenge: "issue_challenge E rq uid s = (t, s1) \<Longrightarrow> frame s s1"
  by (auto simp: issue_challenge_def fresh_id_def Let_def split: sum.splits)

lemma frame_second_factor: "frame s (snd (login_second_factor E rq u s))"
proof (cases "get_totp_state (user_id u) s")
  case (Inr ts)
  obtain b s1 where h: "honor_trusted_device E rq (user_id u) (ts_epoch ts) s = (b, s1)" by fastforce
  obtain tok s2 where c: "issue_challenge E rq (user_id u) s1 = (tok, s2)" by fastforce
  note f = frame_honor [OF h] frame_challenge [OF c]
  have "frame s s2" using f by (rule frame_trans)
  moreover have "frame s (snd (finish_login E rq u how s1))" for how
    using f(1) frame_finish_login by (rule frame_trans)
  ultimately show ?thesis using Inr h c
    by (cases b) (simp_all add: login_second_factor_def frame_finish_login split: option.split)
qed (simp add: login_second_factor_def)

lemma frame_live: "frame s (snd (session_live get_session touch_session cl now s))"
  by (simp add: session_live_def split: sum.split)

lemma frame_require_user: "frame s (snd (require_user E rq s))"
proof -
  have "frame s s1" if "session_live get_session touch_session cl (rq_now rq) s = (b, s1)" for cl b s1
    using frame_live [of s cl "rq_now rq"] that by simp
  then show ?thesis
    by (simp add: require_user_def split: option.split sum.split prod.split bool.split)
qed

text \<open>The same facts as introduction rules, to be chained along a handler.\<close>

lemmas frame_after = frame_trans [OF _ frame_record_failure] frame_trans [OF _ frame_punish]
  frame_trans [OF _ frame_issue_cookie] frame_trans [OF _ frame_finish_login]
  frame_trans [OF _ frame_second_factor]

lemma frame_login: "frame s (snd (handle_login E rq b s))"
proof -
  obtain r s0 where t: "throttle_allow rq s = (r, s0)" by fastforce
  then have "frame s s0" by (rule frame_throttle)
  with t show ?thesis
    by (simp add: handle_login_def frame_after split: sum.split option.split)
qed

lemma frame_setup: "frame s (snd (handle_setup E rq b s))"
proof -
  obtain uid s0 where f: "fresh_id E s = (uid, s0)" by fastforce
  then have "frame s s0" by (auto simp: fresh_id_def)
  moreover have "frame s s2" if "create_user uid (rq_now rq) n h s0 = Inr (u, s1)"
      "issue_cookie E rq i oidc s1 = (t, s2)" for n h u s1 i oidc t s2
    using \<open>frame s s0\<close> frame_create_user [OF that(1)] frame_issue_cookie [of s1 E rq i oidc] that(2)
    by (metis frame_trans snd_conv)
  ultimately show ?thesis
    by (auto simp: handle_setup_def f split: sum.split auth_error.split option.split prod.split)
qed

lemma frame_logout: "frame s (snd (handle_logout E rq s))"
  by (auto simp: handle_logout_def Let_def split: option.split sum.split dest: frame_results(18))

lemma frame_profile: "frame s (snd (handle_update_profile b u s))"
  by (auto simp: handle_update_profile_def split: option.split sum.split auth_error.split dest: frame_results(1))

lemma frame_change_password: "frame s (snd (handle_change_password E rq b u s))"
  by (auto simp: handle_change_password_def change_password_with_audit_def split: option.split sum.split
      dest: frame_results(2))

lemma frame_totp_setup: "frame s (snd (handle_totp_setup E rq u s))"
  by (auto simp: handle_totp_setup_def split: option.split sum.split dest: frame_results(7))

lemma frame_activate: "activate_with_audit rq u x hs s = Inr s' \<Longrightarrow> frame s s'"
  by (auto simp: activate_with_audit_def dest!: frame_results(8) frame_results(12) intro: frame_trans)

lemma frame_totp_confirm: "frame s (snd (handle_totp_confirm E rq b u s))"
  by (auto simp: handle_totp_confirm_def Let_def split: option.split sum.split bool.split dest: frame_activate)

lemma frame_totp_disable: "frame s (snd (handle_totp_disable E rq b u s))"
  by (auto simp: handle_totp_disable_def disable_with_audit_def split: option.split sum.split bool.split
      dest: frame_results(9))

lemma frame_try_verify:
  assumes "try_verify_code E rq u ts code s = (b, s')"
  shows "frame s s'"
proof -
  have "frame s t" if "consume_recovery_with_audit E rq u code s = Inr t" for t
    using that by (auto simp: consume_recovery_with_audit_def dest: frame_results(13))
  with assms show ?thesis
    by (auto simp: try_verify_code_def Let_def split: option.splits sum.splits dest: frame_results(11))
qed

lemma frame_remember: "remember_device E rq uid ep s = (t, s') \<Longrightarrow> frame s s'"
  by (auto simp: remember_device_def fresh_id_def Let_def split: sum.splits dest!: frame_results(14))

lemma frame_finish_totp: "frame s (snd (finish_totp E rq u ep rem s))"
proof -
  define s1 where "s1 = (case clear_login_failures (user_id u) s of Inl _ \<Rightarrow> s | Inr s' \<Rightarrow> s')"
  have 1: "frame s s1" by (auto simp: s1_def split: sum.split dest: frame_results(5))
  obtain t s2 where r: "(if rem then remember_device E rq (user_id u) ep s1 else (None, s1)) = (t, s2)"
    by fastforce
  have 2: "frame s s2" using 1 r by (auto split: if_splits dest!: frame_remember intro: frame_trans)
  obtain tok s3 where c: "issue_cookie E rq (user_id u) False s2 = (tok, s3)" by fastforce
  have "frame s s3" using frame_trans [OF 2 frame_issue_cookie] c by (metis snd_conv)
  with r c show ?thesis by (simp add: finish_totp_def s1_def [symmetric] split: option.split)
qed

lemma frame_totp_verify: "frame s (snd (handle_totp_verify E rq b s))"
proof -
  obtain r s0 where t: "throttle_allow rq s = (r, s0)" by fastforce
  then have f: "frame s s0" by (rule frame_throttle)
  have v: "frame s s1" if "try_verify_code E rq u ts c s0 = (b, s1)" for u ts c b s1
    using f frame_try_verify [OF that] by (rule frame_trans)
  show ?thesis
    by (simp add: handle_totp_verify_def Let_def t f split: sum.split option.split prod.split bool.split)
      (auto dest: v intro: frame_trans frame_punish frame_finish_totp)
qed

lemma frame_devices_sessions:
  "frame s (snd (handle_revoke_device d u s))"
  "frame s (snd (handle_revoke_session E rq i u s))"
  "frame s (snd (handle_revoke_others E rq u s))"
proof -
  show "frame s (snd (handle_revoke_device d u s))" "frame s (snd (handle_revoke_session E rq i u s))"
    by (auto simp: handle_revoke_device_def handle_revoke_session_def Let_def split: sum.split
        dest: frame_results(15,18))
  show "frame s (snd (handle_revoke_others E rq u s))"
    by (simp add: handle_revoke_others_def revoke_other_user_sessions_def delete_sessions_def)
qed

lemma frame_create_handler: "frame s (snd (handle_create_user E rq b u s))"
proof -
  obtain uid s0 where f: "fresh_id E s = (uid, s0)" by fastforce
  then have "frame s s0" by (auto simp: fresh_id_def)
  with f show ?thesis
    by (auto simp: handle_create_user_def split: sum.split option.split auth_error.split prod.split
        dest!: frame_create_user intro: frame_trans)
qed

lemma frame_user_admin:
  "frame s (snd (handle_update_user rq uid w u s))"
  "frame s (snd (handle_admin_reset_password E rq uid b u s))"
  "frame s (snd (handle_admin_reset_totp uid u s))"
  "frame s (snd (handle_admin_revoke_session uid i u s))"
proof -
  show "frame s (snd (handle_update_user rq uid w u s))"
    by (auto simp: handle_update_user_def Let_def split: sum.split option.split prod.split dest: frame_results(6))
  show "frame s (snd (handle_admin_reset_password E rq uid b u s))"
    by (auto simp: handle_admin_reset_password_def split: sum.split option.split dest: frame_results(3))
  show "frame s (snd (handle_admin_reset_totp uid u s))" "frame s (snd (handle_admin_revoke_session uid i u s))"
    by (auto simp: handle_admin_reset_totp_def handle_admin_revoke_session_def split: sum.split
        dest: frame_results(10,18))
qed

section \<open>The server\<close>

text \<open>
  The routes that \<open>Register\<close>, \<open>RegisterProtected\<close>, \<open>RegisterTOTP\<close>, \<open>RegisterSessions\<close>,
  \<open>RegisterAdmin\<close> of \<open>internal/auth\<close> and \<open>Register\<close> of \<open>internal/rbac\<close> attach and that
  can change the state, each with its path values and its decoded body.
\<close>

datatype call =
    Setup "(string \<times> string) option"
  | Login "(string \<times> string) option"
  | Logout
  | UpdateProfile "(string \<times> string) option"
  | ChangePassword "(string \<times> string) option"
  | TotpVerify "(string \<times> bool) option"
  | TotpSetup
  | TotpConfirm "string option"
  | TotpDisable "(string \<times> string) option"
  | RevokeDevice string
  | RevokeSession string
  | RevokeOthers
  | CreateUser "(string \<times> string) option"
  | UpdateUser string "bool option option"
  | DeleteUser string
  | ResetPassword string "string option"
  | ResetTotp string
  | AdminRevokeSession string string
  | GrantGroup string "(string \<times> role) option"
  | RevokeGroup string string role
  | GrantAdmin "assignment option"
  | RevokeAdmin "assignment option"

text \<open>The rbac routes are behind \<open>requireUser\<close> alone; their replies have their own type.\<close>

definition with_role_user :: "env \<Rightarrow> request \<Rightarrow> (user \<Rightarrow> 'a rbac_server_scheme \<Rightarrow> role_reply \<times> 'a rbac_server_scheme)
    \<Rightarrow> 'a rbac_server_scheme \<Rightarrow> (reply, role_reply) result \<times> 'a rbac_server_scheme" where
  "with_role_user E rq h s =
     (case require_user E rq s of
        (Inl r, s1) \<Rightarrow> (Inl r, s1)
      | (Inr u, s1) \<Rightarrow> (case h u s1 of (r, s2) \<Rightarrow> (Inr r, s2)))"

fun serve :: "env \<Rightarrow> request \<Rightarrow> call \<Rightarrow> 'a rbac_server_scheme
    \<Rightarrow> (reply, role_reply) result \<times> 'a rbac_server_scheme" where
  "serve E rq (Setup b) s = map_prod Inl id (handle_setup E rq b s)"
| "serve E rq (Login b) s = map_prod Inl id (handle_login E rq b s)"
| "serve E rq Logout s = map_prod Inl id (handle_logout E rq s)"
| "serve E rq (TotpVerify b) s = map_prod Inl id (handle_totp_verify E rq b s)"
| "serve E rq (ChangePassword b) s = map_prod Inl id (with_user E rq (handle_change_password E rq b) s)"
| "serve E rq (UpdateProfile b) s = map_prod Inl id (with_fresh_user E rq (handle_update_profile b) s)"
| "serve E rq TotpSetup s = map_prod Inl id (with_fresh_user E rq (handle_totp_setup E rq) s)"
| "serve E rq (TotpConfirm b) s = map_prod Inl id (with_fresh_user E rq (handle_totp_confirm E rq b) s)"
| "serve E rq (TotpDisable b) s = map_prod Inl id (with_fresh_user E rq (handle_totp_disable E rq b) s)"
| "serve E rq (RevokeDevice d) s = map_prod Inl id (with_fresh_user E rq (handle_revoke_device d) s)"
| "serve E rq (RevokeSession i) s = map_prod Inl id (with_fresh_user E rq (handle_revoke_session E rq i) s)"
| "serve E rq RevokeOthers s = map_prod Inl id (with_fresh_user E rq (handle_revoke_others E rq) s)"
| "serve E rq (CreateUser b) s = map_prod Inl id (with_fresh_user E rq (handle_create_user E rq b) s)"
| "serve E rq (UpdateUser i b) s = map_prod Inl id (with_fresh_user E rq (handle_update_user rq i b) s)"
| "serve E rq (DeleteUser i) s = map_prod Inl id (with_fresh_user E rq (handle_delete_user i) s)"
| "serve E rq (ResetPassword i b) s =
     map_prod Inl id (with_fresh_user E rq (handle_admin_reset_password E rq i b) s)"
| "serve E rq (ResetTotp i) s = map_prod Inl id (with_fresh_user E rq (handle_admin_reset_totp i) s)"
| "serve E rq (AdminRevokeSession i j) s =
     map_prod Inl id (with_fresh_user E rq (handle_admin_revoke_session i j) s)"
| "serve E rq (GrantGroup g b) s = with_role_user E rq (grant_group g b) s"
| "serve E rq (RevokeGroup g i r) s = with_role_user E rq (revoke_group g i r) s"
| "serve E rq (GrantAdmin b) s = with_role_user E rq (grant_admin b) s"
| "serve E rq (RevokeAdmin b) s = with_role_user E rq (revoke_admin b) s"

text \<open>
  The steps of a server: a request, a restart (which backfills the roles when that has never
  been done), and what the group routes, which are not part of the call type, do to the groups.
\<close>

inductive server_step :: "env \<Rightarrow> 'a rbac_server_scheme \<Rightarrow> 'a rbac_server_scheme \<Rightarrow> bool" for E where
  Request: "serve E rq c s = (r, s') \<Longrightarrow> server_step E s s'"
| Restart: "server_step E s (backfill_once s)"
| NewGroup: "group_name g s = None \<Longrightarrow> server_step E s (s\<lparr>groups := (g, n) # groups s\<rparr>)"
| DropGroup: "server_step E s ((cascade_group g s)\<lparr>groups := alist_del g (groups s)\<rparr>)"

inductive_cases server_stepE: "server_step E s s'"

inductive reachable :: "env \<Rightarrow> 'a rbac_server_scheme \<Rightarrow> 'a rbac_server_scheme \<Rightarrow> bool" for E s0 where
  Start: "reachable E s0 s0"
| Step: "reachable E s0 s \<Longrightarrow> server_step E s s' \<Longrightarrow> reachable E s0 s'"

text \<open>Every route keeps the roles, but for the deletion of a user and the four of \<open>rbac\<close>.\<close>

lemma frame_with_user:
  assumes "\<And>u t. frame t (snd (h u t))"
  shows "frame s (snd (with_user E rq h s))" "frame s (snd (with_fresh_user E rq h s))"
proof -
  have w: "frame s (snd (with_user E rq h' s))" if "\<And>u t. frame t (snd (h' u t))" for h'
  proof -
    obtain r s1 where r: "require_user E rq s = (r, s1)" by fastforce
    have "frame s s1" using frame_require_user [of s E rq] r by simp
    with r that show ?thesis by (auto simp: with_user_def split: sum.split intro: frame_trans)
  qed
  from w [OF assms] show "frame s (snd (with_user E rq h s))" .
  show "frame s (snd (with_fresh_user E rq h s))"
    unfolding with_fresh_user_def by (rule w) (simp add: assms split: option.split)
qed

lemmas frame_handlers = frame_setup frame_login frame_logout frame_profile frame_change_password
  frame_totp_setup frame_totp_confirm frame_totp_disable frame_totp_verify frame_devices_sessions
  frame_create_handler frame_user_admin

text \<open>An invariant of the steps needs to be shown for the few that touch the roles only.\<close>

lemma serve_cases:
  assumes "serve E rq c s = (r, s')"
  obtains (framed) "frame s s'"
    | (delete) uid u s1 where "frame s s1" "s' = snd (handle_delete_user uid u s1)" "c = DeleteUser uid"
    | (roles) h u s1 where "frame s s1" "require_user E rq s = (Inr u, s1)" "s' = snd (h u s1)"
        "(\<exists>g b. h = grant_group g b) \<or> (\<exists>g i x. h = revoke_group g i x) \<or> (\<exists>b. h = grant_admin b) \<or>
         (\<exists>b. h = revoke_admin b)"
proof -
  have del: thesis if "c = DeleteUser i" for i
  proof -
    obtain x s1 where x: "require_user E rq s = (x, s1)" by fastforce
    have f: "frame s s1" using frame_require_user [of s E rq] x by simp
    from assms that x consider "s' = s1" | u where "s' = snd (handle_delete_user i u s1)"
      by (auto simp: with_fresh_user_def with_user_def map_prod_def split: sum.splits option.splits prod.splits)
        (metis snd_conv)
    then show thesis
    proof cases
      case 1
      with f framed show thesis by simp
    next
      case (2 u)
      with f that delete show thesis by blast
    qed
  qed
  have role: thesis if "with_role_user E rq h s = (r, s')" and
      "(\<exists>g b. h = grant_group g b) \<or> (\<exists>g i x. h = revoke_group g i x) \<or> (\<exists>b. h = grant_admin b) \<or>
       (\<exists>b. h = revoke_admin b)" for h
  proof -
    obtain x s1 where x: "require_user E rq s = (x, s1)" by fastforce
    have f: "frame s s1" using frame_require_user [of s E rq] x by simp
    from that(1) x consider "s' = s1" | u where "x = Inr u" "s' = snd (h u s1)"
      by (auto simp: with_role_user_def split: sum.splits prod.splits)
    then show thesis
    proof cases
      case 1
      with f framed show thesis by simp
    next
      case (2 u)
      with f x that(2) roles show thesis by blast
    qed
  qed
  have fr: thesis if "map_prod Inl id p = (r, s')" "frame s (snd p)" for p
    using that framed by (cases p) auto
  show thesis
  proof (cases c)
    case (DeleteUser i)
    then show thesis by (rule del)
  next
    case (GrantGroup g b)
    show thesis by (rule role [of "grant_group g b"]) (use assms GrantGroup in simp, blast)
  next
    case (RevokeGroup g i x)
    show thesis by (rule role [of "revoke_group g i x"]) (use assms RevokeGroup in simp, blast)
  next
    case (GrantAdmin b)
    show thesis by (rule role [of "grant_admin b"]) (use assms GrantAdmin in simp, blast)
  next
    case (RevokeAdmin b)
    show thesis by (rule role [of "revoke_admin b"]) (use assms RevokeAdmin in simp, blast)
  qed (use assms in \<open>auto elim!: fr intro!: frame_handlers frame_with_user\<close>)
qed

section \<open>The role table\<close>

text \<open>What a scope lets its user change.\<close>

definition may_change :: "scope \<Rightarrow> assignment \<Rightarrow> bool" where
  "may_change sc a \<longleftrightarrow> is_global_admin sc \<or>
     (\<exists>g. as_group a = Some g \<and> can_grant_on_group sc g (as_role a))"

text \<open>The four handlers: nothing, or one permitted grant or revocation and its audit row.\<close>

lemma role_handler_effect:
  assumes "(\<exists>g b. h = grant_group g b) \<or> (\<exists>g i x. h = revoke_group g i x) \<or> (\<exists>b. h = grant_admin b) \<or>
    (\<exists>b. h = revoke_admin b)"
  obtains "snd (h u s) = s"
    | a s1 e where "may_change (scope_of u s) a" "grant a s = Inr s1" "snd (h u s) = log_audit e s1"
    | a s1 e where "may_change (scope_of u s) a" "revoke a s = Inr s1" "snd (h u s) = log_audit e s1"
proof -
  let ?sc = "scope_of u s"
  have gg: "snd (grant_group g b u s) = s \<or> (\<exists>a s1 e. may_change ?sc a \<and> grant a s = Inr s1 \<and>
      snd (grant_group g b u s) = log_audit e s1)" for g b
  proof (cases "snd (grant_group g b u s) = s")
    case False
    then obtain i r s1 e where
      "can_grant_on_group ?sc g r" "grant \<lparr>as_user = i, as_group = Some g, as_role = r\<rparr> s = Inr s1"
      "snd (grant_group g b u s) = log_audit e s1"
      by (auto simp: grant_group_def Let_def log_role_event_def split: option.splits sum.splits if_splits)
    then show ?thesis
      by (intro disjI2 exI [of _ "\<lparr>as_user = i, as_group = Some g, as_role = r\<rparr>"] exI [of _ s1] exI [of _ e])
        (simp add: may_change_def)
  qed simp
  have rg: "snd (revoke_group g i r u s) = s \<or> (\<exists>a s1 e. may_change ?sc a \<and> revoke a s = Inr s1 \<and>
      snd (revoke_group g i r u s) = log_audit e s1)" for g i r
  proof (cases "snd (revoke_group g i r u s) = s")
    case False
    then obtain s1 e where
      "can_grant_on_group ?sc g r" "revoke \<lparr>as_user = i, as_group = Some g, as_role = r\<rparr> s = Inr s1"
      "snd (revoke_group g i r u s) = log_audit e s1"
      by (auto simp: revoke_group_def log_role_event_def split: sum.splits rbac_error.splits if_splits)
    then show ?thesis
      by (intro disjI2 exI [of _ "\<lparr>as_user = i, as_group = Some g, as_role = r\<rparr>"] exI [of _ s1] exI [of _ e])
        (simp add: may_change_def)
  qed simp
  have ga: "snd (grant_admin b u s) = s \<or> (\<exists>a s1 e. may_change ?sc a \<and> grant a s = Inr s1 \<and>
      snd (grant_admin b u s) = log_audit e s1)" for b
    by (auto simp: grant_admin_def Let_def may_change_def log_role_event_def
        split: option.split sum.split)
  have ra: "snd (revoke_admin b u s) = s \<or> (\<exists>a s1 e. may_change ?sc a \<and> revoke a s = Inr s1 \<and>
      snd (revoke_admin b u s) = log_audit e s1)" for b
    by (auto simp: revoke_admin_def Let_def may_change_def log_role_event_def
        split: option.split sum.split rbac_error.split)
  from assms that show thesis using gg rg ga ra by metis
qed

lemma grant_roles: "grant a s = Inr s' \<Longrightarrow> s' = s\<lparr>roles := roles s @ [a]\<rparr> \<and> valid_role (as_role a) \<and>
    index_key a \<notin> index_key ` set (roles s) \<and> as_user a \<in> row_id ` set (users s) \<and>
    (\<forall>g. as_group a = Some g \<longrightarrow> g \<in> fst ` set (groups s))"
  by (auto simp: grant_def user_exists_def user_row_of_None group_name_def map_of_eq_None_iff
      split: if_splits option.splits)

lemma revoke_roles:
  assumes "revoke a s = Inr s'"
  shows "s' = s\<lparr>roles := delete_where (\<lambda>b. as_user b = as_user a \<and> as_group b = as_group a \<and> as_role b = as_role a)
      (roles s)\<rparr> \<and> (as_group a = None \<and> as_role a = role_admin \<longrightarrow> count_global_admins s' \<noteq> 0)"
  using assms by (auto simp: revoke_def delete_role_rows_def Let_def split: if_splits)

text \<open>Deleting a user.\<close>

lemma delete_user_effect:
  obtains "snd (handle_delete_user uid u s) = s"
    | e s1 where "roles s1 = delete_where (\<lambda>a. as_user a = uid) (roles s)" "groups s1 = groups s"
        "users s1 = delete_where (\<lambda>r. row_id r = uid) (users s)" "backfilled s1 = backfilled s"
        "count_global_admins s1 \<noteq> 0"
        "snd (handle_delete_user uid u s) = log_audit e (snd (revoke_user_sessions uid s1))"
proof (cases "snd (handle_delete_user uid u s) = s")
  case False
  then obtain s1 e where d: "delete_user cascade_user post_delete uid s = Inr s1"
      and e: "snd (handle_delete_user uid u s) = log_audit e (snd (revoke_user_sessions uid s1))"
    by (auto simp: handle_delete_user_def split: sum.splits auth_error.splits if_splits)
  from d have "roles s1 = delete_where (\<lambda>a. as_user a = uid) (roles s)" "groups s1 = groups s"
      "users s1 = delete_where (\<lambda>r. row_id r = uid) (users s)" "backfilled s1 = backfilled s"
      "count_global_admins s1 \<noteq> 0"
    by (auto simp: delete_user_def post_delete_def ensure_global_admin_remains_def cascade_user_def
        count_global_admins_def Let_def split: if_splits sum.splits)
  with e that(2) show thesis by blast
qed (rule that(1))

lemma log_audit_sel [simp]:
  "roles (log_audit e s) = roles s" "groups (log_audit e s) = groups s" "users (log_audit e s) = users s"
  "backfilled (log_audit e s) = backfilled s"
  by (simp_all add: log_audit_def)

lemma revoke_user_sessions_sel [simp]:
  "roles (snd (revoke_user_sessions i s)) = roles s" "groups (snd (revoke_user_sessions i s)) = groups s"
  "users (snd (revoke_user_sessions i s)) = users s"
  "backfilled (snd (revoke_user_sessions i s)) = backfilled s"
  by (simp_all add: revoke_user_sessions_def delete_sessions_def)

definition wf_roles :: "'a rbac_server_scheme \<Rightarrow> bool" where
  "wf_roles s \<longleftrightarrow> distinct (map index_key (roles s)) \<and>
     (\<forall>a\<in>set (roles s). valid_role (as_role a) \<and> as_user a \<in> row_id ` set (users s) \<and>
       (\<forall>g. as_group a = Some g \<longrightarrow> g \<in> fst ` set (groups s)))"

lemma wf_roles_frame: "frame s s' \<Longrightarrow> wf_roles s \<Longrightarrow> wf_roles s'"
  by (auto simp: frame_def wf_roles_def)

lemma wf_roles_delete:
  assumes "wf_roles s" "roles s' = delete_where p (roles s)"
    and "\<And>a. a \<in> set (roles s) \<Longrightarrow> \<not> p a \<Longrightarrow> as_user a \<in> row_id ` set (users s) \<Longrightarrow> as_user a \<in> row_id ` set (users s')"
    and "\<And>a g. a \<in> set (roles s) \<Longrightarrow> \<not> p a \<Longrightarrow> as_group a = Some g \<Longrightarrow> g \<in> fst ` set (groups s) \<Longrightarrow> g \<in> fst ` set (groups s')"
  shows "wf_roles s'"
  using assms by (auto simp: wf_roles_def distinct_map_delete_where simp del: image_iff)

lemma backfill_roles:
  "\<exists>as. roles (backfill_once s) = roles s @ as \<and>
    (wf_roles s \<longrightarrow> wf_roles (backfill_once s)) \<and> (backfilled s \<longrightarrow> as = [])"
proof (cases "backfilled s")
  case False
  define add where "add = (\<lambda>(r :: user_row) rs. let a = \<lparr>as_user = row_id r, as_group = None, as_role = role_admin\<rparr>
    in if \<exists>b\<in>set rs. index_key b = index_key a then rs else rs @ [a])"
  have "\<exists>as. fold add us rs = rs @ as \<and> (distinct (map index_key rs) \<longrightarrow> distinct (map index_key (rs @ as))) \<and>
      (\<forall>a\<in>set as. as_role a = role_admin \<and> as_group a = None \<and> as_user a \<in> row_id ` set us)" for us rs
  proof (induction us arbitrary: rs)
    case (Cons r us)
    let ?a = "\<lparr>as_user = row_id r, as_group = None, as_role = role_admin\<rparr>"
    define bs where "bs = (if \<exists>b\<in>set rs. index_key b = index_key ?a then [] else [?a])"
    have bs: "add r rs = rs @ bs" "distinct (map index_key rs) \<longrightarrow> distinct (map index_key (rs @ bs))"
        "\<forall>a\<in>set bs. as_role a = role_admin \<and> as_group a = None \<and> as_user a = row_id r"
      by (auto simp: bs_def add_def Let_def)
    obtain as where "fold add us (add r rs) = add r rs @ as"
        "distinct (map index_key (add r rs)) \<longrightarrow> distinct (map index_key (add r rs @ as))"
        "\<forall>a\<in>set as. as_role a = role_admin \<and> as_group a = None \<and> as_user a \<in> row_id ` set us"
      using Cons.IH by blast
    with bs show ?case by (intro exI [of _ "bs @ as"]) auto
  qed simp
  then obtain as where "fold add (users s) (roles s) = roles s @ as"
      "distinct (map index_key (roles s)) \<longrightarrow> distinct (map index_key (roles s @ as))"
      "\<forall>a\<in>set as. as_role a = role_admin \<and> as_group a = None \<and> as_user a \<in> row_id ` set (users s)" by blast
  with False show ?thesis
    by (intro exI [of _ as]) (auto simp: backfill_once_def add_def [symmetric] wf_roles_def valid_role_def)
qed (simp add: backfill_once_def)

text \<open>
  One step: nothing happens to the roles but a permitted grant, a guarded revocation, the
  deletion of a user behind the guard, a backfill, or the end of a group.
\<close>

lemma server_step_roles:
  assumes "server_step E s s'"
  obtains (same) "frame s s'"
    | (grant) rq u s1 a where "require_user E rq s = (Inr u, s1)" "frame s s1" "may_change (scope_of u s1) a"
        "grant a s1 = Inr (s1\<lparr>roles := roles s1 @ [a]\<rparr>)" "frame (s1\<lparr>roles := roles s1 @ [a]\<rparr>) s'"
    | (revoke) rq u s1 a s2 where "require_user E rq s = (Inr u, s1)" "frame s s1" "may_change (scope_of u s1) a"
        "revoke a s1 = Inr s2" "frame s2 s'"
    | (delete) uid where "roles s' = delete_where (\<lambda>a. as_user a = uid) (roles s)" "groups s' = groups s"
        "row_id ` set (users s) - {uid} \<subseteq> row_id ` set (users s')" "backfilled s' = backfilled s"
        "count_global_admins s' \<noteq> 0"
    | (backfill) "s' = backfill_once s"
    | (group) g n where "s' = s\<lparr>groups := (g, n) # groups s\<rparr>"
    | (ungroup) g where "s' = (cascade_group g s)\<lparr>groups := alist_del g (groups s)\<rparr>"
  using assms
proof (cases rule: server_step.cases)
  case (Request rq c r)
  then show thesis
  proof (cases rule: serve_cases)
    case framed
    then show thesis by (rule same)
  next
    case (delete uid u s1)
    show thesis
    proof (rule delete_user_effect [of uid u s1])
      assume "snd (handle_delete_user uid u s1) = s1"
      with delete same show thesis by simp
    next
      fix e s2
      assume d: "roles s2 = delete_where (\<lambda>a. as_user a = uid) (roles s1)" "groups s2 = groups s1"
        "users s2 = delete_where (\<lambda>r. row_id r = uid) (users s1)" "backfilled s2 = backfilled s1"
        "count_global_admins s2 \<noteq> 0"
        "snd (handle_delete_user uid u s1) = log_audit e (snd (revoke_user_sessions uid s2))"
      have "row_id ` set (users s) - {uid} \<subseteq> row_id ` set (users s2)"
        using delete(1) d(3) by (auto simp: frame_def)
      moreover have "count_global_admins s' = count_global_admins s2"
        using delete(2) d(6) by (simp add: count_global_admins_def)
      ultimately show thesis
        using delete(1,2) d by (intro that(4) [of uid]) (simp_all add: frame_def)
    qed
  next
    case (roles h u s1)
    from roles(4) show thesis
    proof (rule role_handler_effect [where u = u and s = s1])
      assume "snd (h u s1) = s1"
      with roles same show thesis by simp
    next
      fix a s2 e
      assume a: "may_change (scope_of u s1) a" "grant a s1 = Inr s2" "snd (h u s1) = log_audit e s2"
      with grant_roles [OF a(2)] roles grant [of rq u s1 a] show thesis by simp
    next
      fix a s2 e
      assume a: "may_change (scope_of u s1) a" "revoke a s1 = Inr s2" "snd (h u s1) = log_audit e s2"
      with roles revoke [of rq u s1 a s2] show thesis by simp
    qed
  qed
next
  case Restart
  then show thesis by (rule backfill)
next
  case (NewGroup g n)
  then show thesis using group by blast
next
  case (DropGroup g)
  then show thesis using ungroup by blast
qed

lemma scope_of_rows:
  "is_global_admin (scope_of u s) \<longleftrightarrow> (\<exists>a\<in>set (roles s). as_user a = user_id u \<and> is_global_admin_row a)"
  by (auto simp: scope_of_def scope_is_global_admin resolve_roles_def)

lemma may_change_needs_admin_row:
  "may_change (scope_of u s) a \<Longrightarrow> \<exists>b\<in>set (roles s). as_role b = role_admin"
proof -
  assume "may_change (scope_of u s) a"
  then consider "is_global_admin (scope_of u s)" | g where "role_on_group (scope_of u s) g = role_admin"
    by (auto simp: may_change_def can_grant_on_group_def split: if_splits)
  then show ?thesis
  proof cases
    case 1
    then show ?thesis by (auto simp: scope_of_rows is_global_admin_row_def)
  next
    case (2 g)
    then show ?thesis by (auto simp: scope_of_def scope_group_admin resolve_roles_def)
  qed
qed

lemma frame_roles: "frame s s' \<Longrightarrow> roles s' = roles s"
  by (simp add: frame_def)

section \<open>A small server\<close>

text \<open>
  An environment and tables on which the theorems are tried: requests of \<open>10.0.0.1\<close> carry
  the trust header, two accounts, the first one a global admin.
\<close>

definition demo_env :: env where
  "demo_env = \<lparr>secret_key = ''k'', tokens = example_codec,
     bcrypt_hash = (\<lambda>seed p. Some (CHR ''#'' # p)), bcrypt_ok = (\<lambda>h p. h = CHR ''#'' # p),
     totp_code_at = (\<lambda>secret st. Some (secret @ ''!'')), totp_fresh = (\<lambda>seed. Some seed),
     code_raw = (\<lambda>seed i. ''ABCDEFGHIJKLM''), vault_seal = (\<lambda>p. Some \<lparr>ciphertext = p, nonce = [], key_version = 1\<rparr>),
     vault_open = (\<lambda>x. Inr (ciphertext x)), new_id = (\<lambda>n. replicate (Suc n) (CHR ''i'')),
     trusted_proxy = Some (\<lambda>ip. ip = ''10.0.0.1''), oidc_logout_url = None, session_ttl = 1000000000000\<rparr>"

definition demo_request :: "string \<Rightarrow> request" where
  "demo_request name = \<lparr>rq_now = 5000000000, rq_ip = ''10.0.0.1'', rq_agent = [], rq_session = None,
     rq_challenge = None, rq_device = None, rq_trust = name, rq_seed = ''s''\<rparr>"

definition demo_row :: "string \<Rightarrow> string \<Rightarrow> user_row" where
  "demo_row i n = \<lparr>row_id = i, row_username = n, row_hash = ''#password'', row_email = [], row_theme = [],
     row_created = 0, row_totp_enabled = False, row_totp_secret = None, row_totp_pending = None,
     row_totp_confirmed = None, row_totp_epoch = 0, row_totp_last_step = 0, row_disabled_at = None,
     row_failed = 0, row_locked_until = None, row_must_change = False\<rparr>"

definition empty_server :: rbac_server where
  "empty_server = \<lparr>users = [], meta = [], devices = [], recovery = [], sessions = [], limiter = [],
     audit_rows = [], id_count = 0, roles = [], groups = [], layouts = [], backfilled = False\<rparr>"

definition demo_server :: rbac_server where
  "demo_server = empty_server\<lparr>users := [demo_row ''u1'' ''ann'', demo_row ''u2'' ''bob''],
     roles := [\<lparr>as_user = ''u1'', as_group = None, as_role = role_admin\<rparr>], groups := [(''g1'', ''web'')],
     backfilled := True\<rparr>"

section \<open>Properties of the role table\<close>

text \<open>
  In every reachable state the role table is sound: every row has one of the three
  roles, its user and its group exist, and no assignment is there twice. The checks of
  \<open>Grant\<close>, the unique index and the foreign keys are enough for every route together.
\<close>

theorem role_table_sound:
  assumes "reachable E s0 s" and "wf_roles s0"
  shows "wf_roles s"
  using assms
proof (induction rule: reachable.induct)
  case (Step s s')
  then have wf: "wf_roles s" by simp
  from Step.hyps(2) show ?case
  proof (cases rule: server_step_roles)
    case same
    with wf show ?thesis by (rule wf_roles_frame [rotated])
  next
    case (grant rq u s1 a)
    from wf_roles_frame [OF grant(2) wf] grant_roles [OF grant(4)]
    have "wf_roles (s1\<lparr>roles := roles s1 @ [a]\<rparr>)" by (auto simp: wf_roles_def)
    with grant(5) show ?thesis by (rule wf_roles_frame)
  next
    case (revoke rq u s1 a s2)
    have "wf_roles s2" using revoke_roles [OF revoke(4)]
      by (intro wf_roles_delete [OF wf_roles_frame [OF revoke(2) wf]]) auto
    with revoke(5) show ?thesis by (rule wf_roles_frame)
  next
    case (delete uid)
    with wf show ?thesis by (intro wf_roles_delete [OF wf delete(1)]) auto
  next
    case backfill
    with backfill_roles [of s] wf show ?thesis by auto
  next
    case (group g n)
    with wf show ?thesis by (auto simp: wf_roles_def)
  next
    case (ungroup g)
    with wf show ?thesis by (intro wf_roles_delete [OF wf]) (auto simp: cascade_group_def alist_del_def)
  qed
qed

lemma role_table_sound_witness:
  "\<exists>s. reachable demo_env demo_server s \<and> length (roles s) = 2 \<and> wf_roles s"
proof -
  let ?c = "GrantGroup ''g1'' (Some (''u2'', role_operator))"
  have "length (roles (snd (serve demo_env (demo_request ''ann'') ?c demo_server))) = 2" by code_simp
  moreover have r: "reachable demo_env demo_server (snd (serve demo_env (demo_request ''ann'') ?c demo_server))"
    by (rule reachable.Step [OF reachable.Start], rule server_step.Request [where c = ?c and rq = "demo_request ''ann''"],
      rule surjective_pairing)
  moreover have "wf_roles demo_server"
    by (simp add: wf_roles_def demo_server_def valid_role_def demo_row_def)
  ultimately show ?thesis using role_table_sound [OF r] by blast
qed

text \<open>
  C4: once there is a global admin, every reachable state has one: neither a revocation,
  nor the deletion of an account with its cascade, nor the end of a group removes the last.
\<close>

theorem global_admin_kept:
  assumes "reachable E s0 s" and "0 < count_global_admins s0"
  shows "0 < count_global_admins s"
  using assms
proof (induction rule: reachable.induct)
  case (Step s s')
  then have ad: "0 < count_global_admins s" by simp
  from Step.hyps(2) show ?case
  proof (cases rule: server_step_roles)
    case same
    with ad show ?thesis by (simp add: count_global_admins_def frame_def)
  next
    case (grant rq u s1 a)
    with ad show ?thesis
      using frame_roles [OF grant(2)] frame_roles [OF grant(5)] by (simp add: count_global_admins_def count_where_def)
  next
    case (revoke rq u s1 a s2)
    have s1: "0 < count_global_admins s1" using ad frame_roles [OF revoke(2)] by (simp add: count_global_admins_def)
    have "0 < count_global_admins s2"
    proof (cases "as_group a = None \<and> as_role a = role_admin")
      case False
      obtain x where x: "x \<in> set (roles s1)" "is_global_admin_row x"
        using s1 by (auto simp: count_global_admins_def count_where_pos)
      have "\<not> (as_user x = as_user a \<and> as_group x = as_group a \<and> as_role x = as_role a)"
        using False x(2) by (auto simp: is_global_admin_row_def)
      then have "x \<in> set (roles s2)" using revoke_roles [OF revoke(4)] x(1) by simp
      with x(2) show ?thesis by (auto simp: count_global_admins_def count_where_pos)
    qed (use revoke_roles [OF revoke(4)] in auto)
    then show ?thesis using frame_roles [OF revoke(5)] by (simp add: count_global_admins_def)
  next
    case backfill
    obtain as where "roles s' = roles s @ as" using backfill_roles [of s] backfill by auto
    with ad show ?thesis by (auto simp: count_global_admins_def count_where_def)
  next
    case (ungroup g)
    with ad show ?thesis
      by (auto simp: cascade_group_def count_global_admins_def count_where_pos is_global_admin_row_def)
  next
    case (delete uid)
    then show ?thesis by simp
  next
    case (group g n)
    with ad show ?thesis by (simp add: count_global_admins_def)
  qed
qed simp

lemma global_admin_kept_witness:
  "\<exists>s. reachable demo_env demo_server s \<and> length (users s) = 1 \<and> 0 < count_global_admins s"
proof -
  let ?s = "snd (serve demo_env (demo_request ''ann'') (DeleteUser ''u2'') demo_server)"
  have "length (users ?s) = 1" by code_simp
  moreover have r: "reachable demo_env demo_server ?s"
    by (rule reachable.Step [OF reachable.Start],
      rule server_step.Request [where c = "DeleteUser ''u2''" and rq = "demo_request ''ann''"], rule surjective_pairing)
  moreover have "0 < count_global_admins demo_server" by code_simp
  ultimately show ?thesis using global_admin_kept [OF r] by blast
qed

text \<open>
  a server that starts with empty tables never has a role. \<open>NewSQLiteStore\<close> backfills
  an empty table of users and marks the backfill as done, the set-up request creates the first
  account without a role, and no later request or restart can grant one: whoever would grant
  it needs an admin role.
\<close>

theorem fresh_install_has_no_roles:
  assumes "reachable E (backfill_once s0) s" and "roles s0 = []" and "users s0 = []"
  shows "roles s = []"
proof -
  have "roles s = [] \<and> backfilled s" using assms(1)
  proof (induction rule: reachable.induct)
    case Start
    from assms(2,3) show ?case by (simp add: backfill_once_def)
  next
    case (Step s s')
    then have e: "roles s = []" "backfilled s" by simp_all
    from Step.hyps(2) show ?case
    proof (cases rule: server_step_roles)
      case (grant rq u s1 a)
      with e frame_roles [OF grant(2)] may_change_needs_admin_row [OF grant(3)] show ?thesis by auto
    next
      case (revoke rq u s1 a s2)
      with e frame_roles [OF revoke(2)] may_change_needs_admin_row [OF revoke(3)] show ?thesis by auto
    next
      case (delete uid)
      with e show ?thesis by (simp add: delete_where_def)
    next
      case same
      with e show ?thesis by (simp add: frame_def)
    next
      case backfill
      with e show ?thesis by (simp add: backfill_once_def)
    next
      case (group g n)
      with e show ?thesis by simp
    next
      case (ungroup g)
      with e show ?thesis by (simp add: cascade_group_def delete_where_def)
    qed
  qed
  then show ?thesis ..
qed

lemma fresh_install_has_no_roles_witness:
  "\<exists>s. reachable demo_env (backfill_once empty_server) s \<and> length (users s) = 1 \<and> roles s = []"
proof -
  let ?s = "snd (serve demo_env (demo_request []) (Setup (Some (''root'', ''password''))) (backfill_once empty_server))"
  have "length (users ?s) = 1" by code_simp
  moreover have r: "reachable demo_env (backfill_once empty_server) ?s"
    by (rule reachable.Step [OF reachable.Start],
      rule server_step.Request [where c = "Setup (Some (''root'', ''password''))" and rq = "demo_request []"],
      rule surjective_pairing)
  ultimately show ?thesis using fresh_install_has_no_roles [OF r] by (auto simp: empty_server_def)
qed

text \<open>
  C3: no request of a user who is not a global admin, but for the deletion of an account,
  adds or removes a global role or an admin role of a group: a group admin can hand out and
  take away the roles of operators and auditors of that group and nothing else.
\<close>

theorem no_escalation_through_roles:
  assumes "serve E rq c s = (r, s')"
    and "\<forall>u s1. require_user E rq s = (Inr u, s1) \<longrightarrow> \<not> is_global_admin (scope_of u s1)"
    and "\<forall>i. c \<noteq> DeleteUser i"
  shows "filter (\<lambda>a. as_group a = None \<or> as_role a = role_admin) (roles s') =
    filter (\<lambda>a. as_group a = None \<or> as_role a = role_admin) (roles s)"
  using assms(1)
proof (cases rule: serve_cases)
  case framed
  then show ?thesis by (simp add: frame_def)
next
  case (delete uid u s1)
  with assms(3) show ?thesis by blast
next
  case (roles h u s1)
  have no: "\<not> is_global_admin (scope_of u s1)" using assms(2) roles(2) by blast
  have ro: "as_group a \<noteq> None \<and> as_role a \<noteq> role_admin" if "may_change (scope_of u s1) a" for a
    using that no by (auto simp: may_change_def can_grant_on_group_def split: if_splits)
  have eq: "roles s1 = roles s" using roles(1) by (rule frame_roles)
  from roles(4) show ?thesis
  proof (rule role_handler_effect [where u = u and s = s1])
    assume "snd (h u s1) = s1"
    with roles(3) eq show ?thesis by simp
  next
    fix a s2 e
    assume a: "may_change (scope_of u s1) a" "grant a s1 = Inr s2" "snd (h u s1) = log_audit e s2"
    with grant_roles [OF a(2)] ro [OF a(1)] roles(3) eq show ?thesis by simp
  next
    fix a s2 e
    assume a: "may_change (scope_of u s1) a" "revoke a s1 = Inr s2" "snd (h u s1) = log_audit e s2"
    then have "roles s' = filter (\<lambda>b. \<not> (as_user b = as_user a \<and> as_group b = as_group a \<and> as_role b = as_role a)) (roles s)"
      using revoke_roles [OF a(2)] roles(3) eq by (simp add: delete_where_def)
    with ro [OF a(1)] show ?thesis by (auto simp: filter_filter intro!: filter_cong)
  qed
qed

lemma no_escalation_through_roles_witness:
  "filter (\<lambda>a. as_group a = None \<or> as_role a = role_admin)
     (roles (snd (serve demo_env (demo_request ''bob'') (RevokeAdmin (Some \<lparr>as_user = ''u1'', as_group = None,
       as_role = role_admin\<rparr>)) demo_server))) = [\<lparr>as_user = ''u1'', as_group = None, as_role = role_admin\<rparr>]"
proof -
  let ?rq = "demo_request ''bob''" and ?a = "\<lparr>as_user = ''u1'', as_group = None, as_role = role_admin\<rparr>"
  have "case require_user demo_env ?rq demo_server of (Inl _, _) \<Rightarrow> True
      | (Inr u, s1) \<Rightarrow> \<not> is_global_admin (scope_of u s1)" by code_simp
  then have "\<forall>u s1. require_user demo_env ?rq demo_server = (Inr u, s1) \<longrightarrow> \<not> is_global_admin (scope_of u s1)"
    by auto
  from no_escalation_through_roles [OF surjective_pairing this, of "RevokeAdmin (Some ?a)"]
  show ?thesis by (simp add: demo_server_def)
qed

text \<open>
  C2: the administration of accounts asks for no role. Whoever is logged in, with no role
  at all, sets the password of any other account, a global admin's included, and is told 204;
  the routes of \<open>RegisterAdmin\<close> stand behind \<open>requireUser\<close> only, and no handler consults
  \<open>CanManageUsers\<close>.
\<close>

theorem anyone_resets_any_password:
  assumes "require_user E rq s = (Inr actor, s1)" and "\<not> must_change_password actor"
    and "uid \<noteq> []" "uid \<noteq> user_id actor" "user_row_of uid s1 = Some row"
    and "8 \<le> length pw" "bcrypt_hash E (rq_seed rq) pw = Some h"
  shows "\<exists>s'. serve E rq (ResetPassword uid (Some pw)) s = (Inl (reply_with 204 NoBody), s') \<and>
    user_row_of uid s' = Some (clear_lockout (row\<lparr>row_hash := h, row_must_change := True\<rparr>)) \<and>
    roles s' = roles s"
proof -
  let ?f = "\<lambda>r. clear_lockout (r\<lparr>row_hash := h, row_must_change := True\<rparr>)"
  have hp: "hash_password E rq pw = Inr h" using assms(6,7) by (simp add: hash_password_def)
  obtain s2 where s2: "admin_set_password uid h s1 = Inr s2"
    using update_user_ok_iff [of uid ?f s1] user_row_of_Some [OF assms(5)]
    by (auto simp: admin_set_password_def is_ok_iff)
  have row: "user_row_of uid s2 = Some (?f row)"
    using user_row_of_update [of ?f uid s1 s2 uid] s2 assms(5) by (simp add: admin_set_password_def)
  have ro: "roles s2 = roles s"
    using frame_results(3) [OF s2] frame_require_user [of s E rq] assms(1) by (simp add: frame_def)
  show ?thesis
    using assms(1-5) hp s2 row ro
    by (auto simp: with_fresh_user_def with_user_def require_fresh_password_def handle_admin_reset_password_def
        get_by_id_def user_row_of_def)
qed

lemma anyone_resets_any_password_witness:
  "\<exists>s'. serve demo_env (demo_request ''bob'') (ResetPassword ''u1'' (Some ''chosen-by-bob'')) demo_server =
       (Inl (reply_with 204 NoBody), s') \<and>
     \<not> has_any_role (scope_of (scan_user (demo_row ''u2'' ''bob'')) demo_server) \<and>
     map_option row_hash (user_row_of ''u1'' s') = Some ''#chosen-by-bob''"
proof -
  have c: "case require_user demo_env (demo_request ''bob'') demo_server of (Inl _, _) \<Rightarrow> False
      | (Inr u, s1) \<Rightarrow> u = scan_user (demo_row ''u2'' ''bob'') \<and>
          user_row_of ''u1'' s1 = Some (demo_row ''u1'' ''ann'')" by code_simp
  obtain x s1 where q: "require_user demo_env (demo_request ''bob'') demo_server = (x, s1)" by (rule prod.exhaust)
  obtain u where u: "x = Inr u" using c unfolding q by (cases x) simp_all
  from c q have a: "require_user demo_env (demo_request ''bob'') demo_server =
      (Inr (scan_user (demo_row ''u2'' ''bob'')), s1)" "user_row_of ''u1'' s1 = Some (demo_row ''u1'' ''ann'')"
    unfolding u by (simp_all only: prod.case sum.case)
  have "\<not> has_any_role (scope_of (scan_user (demo_row ''u2'' ''bob'')) demo_server)" by code_simp
  moreover have m: "\<not> must_change_password (scan_user (demo_row ''u2'' ''bob''))" by (simp add: demo_row_def)
  have i: "''u1'' \<noteq> user_id (scan_user (demo_row ''u2'' ''bob''))" by (simp add: demo_row_def)
  have b: "bcrypt_hash demo_env (rq_seed (demo_request ''bob'')) ''chosen-by-bob'' = Some ''#chosen-by-bob''"
    by (simp add: demo_env_def)
  have l: "8 \<le> length ''chosen-by-bob''" by simp
  from anyone_resets_any_password [OF a(1) m list.distinct(2) i a(2) l b]
  obtain s' where "serve demo_env (demo_request ''bob'') (ResetPassword ''u1'' (Some ''chosen-by-bob'')) demo_server =
      (Inl (reply_with 204 NoBody), s')"
    "user_row_of ''u1'' s' = Some (clear_lockout ((demo_row ''u1'' ''ann'')\<lparr>row_hash := ''#chosen-by-bob'', row_must_change := True\<rparr>))"
    by blast
  moreover have "row_hash (clear_lockout ((demo_row ''u1'' ''ann'')\<lparr>row_hash := ''#chosen-by-bob'', row_must_change := True\<rparr>))
      = ''#chosen-by-bob''" by simp
  ultimately show ?thesis by (metis option.map(2))
qed

end
