(* ===== verification/AuthProps.thy ===== *)
theory AuthProps
  imports Api
begin

text \<open>
  What the login, the second factor, the sessions and the lockout of \<open>internal/auth\<close>
  guarantee, and where they do less than their comments say.
\<close>

section \<open>Lemmas on the handlers\<close>

lemma cookies_simps [simp]:
  "rp_cookies (write_error st m) = []" "rp_cookies (reply_with st b) = []"
  "rp_cookies (locked_reply u) = []"
  "rp_cookies (set_cookie c v r) = (c, Some v) # rp_cookies r"
  "rp_cookies (clear_cookie c r) = (c, None) # rp_cookies r"
  by (simp_all add: write_error_def reply_with_def locked_reply_def set_cookie_def clear_cookie_def)

lemma status_simps [simp]:
  "rp_status (write_error st m) = st" "rp_status (reply_with st b) = st" "rp_status (locked_reply u) = 423"
  "rp_status (set_cookie c v r) = rp_status r" "rp_status (clear_cookie c r) = rp_status r"
  by (simp_all add: write_error_def reply_with_def locked_reply_def set_cookie_def clear_cookie_def)

lemma hash_error_cookies [simp]: "rp_cookies (hash_error_reply e) = []"
  by (simp add: hash_error_reply_def split: hash_error.split)

text \<open>Tables that the bookkeeping of a login leaves alone.\<close>

lemma log_audit_tables [simp]:
  "users (log_audit e s) = users s" "recovery (log_audit e s) = recovery s"
  "sessions (log_audit e s) = sessions s" "devices (log_audit e s) = devices s"
  by (simp_all add: log_audit_def)

lemma log_failed_tables [simp]:
  "users (log_login_failed a b s) = users s" "recovery (log_login_failed a b s) = recovery s"
  "sessions (log_login_failed a b s) = sessions s"
  by (simp_all add: log_login_failed_def)

lemma tick_tables [simp]:
  "users (tick_limiter rq s) = users s" "recovery (tick_limiter rq s) = recovery s"
  "sessions (tick_limiter rq s) = sessions s" "audit_rows (tick_limiter rq s) = audit_rows s"
  by (simp_all add: tick_limiter_def)

lemma throttle_allow_tables:
  assumes "throttle_allow rq s = (r, s')"
  shows "users s' = users s \<and> recovery s' = recovery s \<and> sessions s' = sessions s \<and>
    devices s' = devices s \<and> audit_rows s' = audit_rows s"
  using assms by (auto simp: throttle_allow_def Let_def split: prod.splits if_splits)

lemma throttle_reply_cookies: "throttle_allow rq s = (Some r, s') \<Longrightarrow> rp_cookies r = []"
  by (auto simp: throttle_allow_def Let_def split: prod.splits if_splits)

lemma user_row_of_cong: "users db = users db' \<Longrightarrow> user_row_of i db = user_row_of i db'"
  by (simp add: user_row_of_def)

lemma get_by_username_cong: "users db = users db' \<Longrightarrow> get_by_username n db = get_by_username n db'"
  by (simp add: get_by_username_def)

section \<open>Login\<close>

text \<open>
  C6: \<open>handleLogin\<close> hands out a session only to a caller that the limiter lets through, who
  knows the password of an existing account that is neither disabled nor locked, and whose
  second factor is off or stood in for by a device that \<open>honorTrustedDevice\<close> accepts.
\<close>

theorem login_session_needs_credentials:
  assumes "(SessionCookie, Some tok) \<in> set (rp_cookies (fst (handle_login E rq b s)))"
  shows "\<exists>name pw u h ts s0. throttle_allow rq s = (None, s0) \<and> decode_credentials b = Inr (name, pw) \<and>
    get_by_username name s0 = Inr (u, h) \<and> bcrypt_ok E h pw \<and> \<not> was_locked rq u \<and> \<not> disabled u \<and>
    get_totp_state (user_id u) s0 = Inr ts \<and>
    \<not> (ts_enabled ts \<and> \<not> fst (honor_trusted_device E rq (user_id u) (ts_epoch ts) s0))"
proof -
  obtain r s0 where t: "throttle_allow rq s = (r, s0)" by fastforce
  show ?thesis
  proof (cases r)
    case (Some x)
    with assms t throttle_reply_cookies [of rq s x s0] show ?thesis by (simp add: handle_login_def)
  next
    case None
    obtain name pw u h where c: "decode_credentials b = Inr (name, pw)" "get_by_username name s0 = Inr (u, h)"
        "bcrypt_ok E h pw" "\<not> was_locked rq u" "\<not> disabled u"
      and f: "(SessionCookie, Some tok) \<in> set (rp_cookies (fst (login_second_factor E rq u s0)))"
      using assms t None by (auto simp: handle_login_def split: sum.splits prod.splits if_splits)
    from f obtain ts where ts: "get_totp_state (user_id u) s0 = Inr ts"
      by (auto simp: login_second_factor_def split: sum.splits)
    have "\<not> ts_enabled ts \<or> fst (honor_trusted_device E rq (user_id u) (ts_epoch ts) s0)"
      using f ts by (auto simp: login_second_factor_def split: if_splits prod.splits bool.splits option.splits)
    with t None c ts show ?thesis by auto
  qed
qed

lemma login_session_needs_credentials_witness:
  "\<exists>u h. (\<exists>tok. (SessionCookie, Some tok) \<in>
      set (rp_cookies (fst (handle_login demo_env (demo_request []) (Some (''ann'', ''password'')) demo_server)))) \<and>
    bcrypt_ok demo_env h ''password'' \<and> \<not> disabled (u :: user)"
proof -
  have "list_ex (\<lambda>(c, v). c = SessionCookie \<and> v \<noteq> None)
      (rp_cookies (fst (handle_login demo_env (demo_request []) (Some (''ann'', ''password'')) demo_server)))"
    by code_simp
  then obtain tok where tok: "(SessionCookie, Some tok) \<in>
      set (rp_cookies (fst (handle_login demo_env (demo_request []) (Some (''ann'', ''password'')) demo_server)))"
    by (auto simp: list_ex_iff)
  have "decode_credentials (Some (''ann'', ''password'')) = Inr (''ann'', ''password'')" by code_simp
  with login_session_needs_credentials [OF tok] tok show ?thesis by auto
qed

text \<open>
  while an account is locked, \<open>handleLogin\<close> still compares the password and tells the
  caller whether it was right (423) or wrong (401), and it counts neither: no account row
  changes. The lockout withholds the session, not the answer.
\<close>

theorem locked_account_still_answers:
  assumes "throttle_allow rq s = (None, s0)" "decode_credentials b = Inr (name, pw)"
    and "get_by_username name s = Inr (u, h)" "was_locked rq u"
  shows "rp_status (fst (handle_login E rq b s)) = (if bcrypt_ok E h pw then 423 else 401) \<and>
    users (snd (handle_login E rq b s)) = users s"
proof -
  have "users s0 = users s" using throttle_allow_tables [OF assms(1)] by simp
  then have "get_by_username name s0 = Inr (u, h)" using assms(3) get_by_username_cong [of s0 s name] by simp
  with assms \<open>users s0 = users s\<close> show ?thesis by (simp add: handle_login_def punish_def)
qed

definition locked_server :: rbac_server where
  "locked_server = demo_server\<lparr>users := [(demo_row ''u1'' ''ann'')\<lparr>row_failed := 5, row_locked_until := Some 9000000000\<rparr>]\<rparr>"

lemma locked_account_still_answers_witness:
  "rp_status (fst (handle_login demo_env (demo_request []) (Some (''ann'', ''password'')) locked_server)) = 423 \<and>
   rp_status (fst (handle_login demo_env (demo_request []) (Some (''ann'', ''wrong'')) locked_server)) = 401"
proof -
  let ?r = "(demo_row ''u1'' ''ann'')\<lparr>row_failed := 5, row_locked_until := Some 9000000000\<rparr>"
  have t: "throttle_allow (demo_request []) locked_server = (None, locked_server)" by code_simp
  have d: "decode_credentials (Some (''ann'', ''password'')) = Inr (''ann'', ''password'')"
      "decode_credentials (Some (''ann'', ''wrong'')) = Inr (''ann'', ''wrong'')" by code_simp+
  have g: "get_by_username ''ann'' locked_server = Inr (scan_user ?r, ''#password'')" by code_simp
  have l: "was_locked (demo_request []) (scan_user ?r)" by code_simp
  from locked_account_still_answers [OF t d(1) g l, of demo_env] locked_account_still_answers [OF t d(2) g l, of demo_env]
  show ?thesis by (simp add: demo_env_def)
qed

text \<open>
  The lockout times: nothing below five failures in a row, then a minute that doubles with
  every further failure up to a quarter of an hour, for however many there are.
\<close>

theorem lock_duration_bounds:
  "(lock_duration a = 0 \<longleftrightarrow> a < 5) \<and> 0 \<le> lock_duration a \<and> lock_duration a \<le> 900000000000 \<and>
   \<not> (a \<le> a' \<and> lock_duration a' < lock_duration a) \<and>
   map lock_duration [4, 5, 6, 7, 8, 9, 100000000000000000000] =
     map (\<lambda>m. m * 60000000000) [0, 1, 2, 4, 8, 15, 15]"
proof -
  have p: "(1 :: int) \<le> 2 ^ n" for n by simp
  have b: "lock_duration x = 0 \<longleftrightarrow> x < 5" "0 \<le> lock_duration x" "lock_duration x \<le> 900000000000" for x
    using p [of "nat (x - 5)"] p [of 8]
    by (auto simp: lock_duration_def lockout_threshold_def lockout_base_def lockout_max_def Let_def)
  have "lock_duration a \<le> lock_duration a'" if "a \<le> a'"
  proof (cases "a < 5")
    case True
    with b show ?thesis by (metis)
  next
    case False
    define e where "e x = nat (if x - 5 > 8 then 8 else x - 5)" for x :: int
    define m where "m x = (2 :: int) ^ e x" for x
    have ld: "lock_duration x = (if 60000000000 * m x > 900000000000 then 900000000000 else 60000000000 * m x)"
      if "\<not> x < 5" for x
      using that by (simp add: lock_duration_def lockout_threshold_def lockout_base_def lockout_max_def Let_def m_def e_def)
    have "m a \<le> m a'" unfolding m_def using that by (intro power_increasing) (auto simp: e_def)
    then show ?thesis using that False by (simp add: ld)
  qed
  moreover have "map lock_duration [4, 5, 6, 7, 8, 9, 100000000000000000000] =
     map (\<lambda>m. m * 60000000000) [0, 1, 2, 4, 8, 15, 15]" by code_simp
  ultimately show ?thesis using b by auto
qed

section \<open>Sessions\<close>

lemma session_live_users [simp]:
  "users (snd (session_live get_session touch_session cl now s)) = users s"
  by (auto simp: session_live_def touch_session_def split: sum.splits)

lemma get_by_id_cong: "users db = users db' \<Longrightarrow> get_by_id i db = get_by_id i db'"
  by (simp add: get_by_id_def user_row_of_def)

lemma resolve_trusted_cong:
  assumes "users db = users db'"
  shows "resolve_trusted E rq db = resolve_trusted E rq db'"
  unfolding resolve_trusted_def get_by_username_cong [OF assms] ..

lemma require_user_by_session:
  assumes "resolve_trusted E rq s = None"
  shows "fst (require_user E rq s) =
    (case session_claims E rq of
       None \<Rightarrow> Inl (write_error 401 ''unauthorized'')
     | Some cl \<Rightarrow>
         if fst (session_live get_session touch_session cl (rq_now rq) s)
         then (case get_by_id (cl_uid cl) s of
                 Inl _ \<Rightarrow> Inl (write_error 401 ''unauthorized'')
               | Inr u \<Rightarrow> if disabled u then Inl (write_error 401 ''unauthorized'') else Inr u)
         else Inl (write_error 401 ''unauthorized''))"
proof (cases "session_claims E rq")
  case (Some cl)
  obtain b s1 where l: "session_live get_session touch_session cl (rq_now rq) s = (b, s1)" by fastforce
  then have "users s1 = users s" using session_live_users [of cl "rq_now rq" s] by simp
  from get_by_id_cong [OF this] show ?thesis
    by (cases b) (auto simp: require_user_def assms Some l split: sum.splits)
qed (simp add: require_user_def assms)

text \<open>
  C5: the gate in front of the API. A request acts as user \<open>u\<close> exactly when the trusted proxy
  names \<open>u\<close>, or else when its session cookie carries claims signed by this server that have
  not expired, whose session row exists, belongs to the claimed user and has not expired,
  and the account exists and is not disabled. The account's lockout plays no part.
\<close>

theorem request_acts_as_user_iff:
  "fst (require_user E rq s) = Inr u \<longleftrightarrow>
    (case resolve_trusted E rq s of
       Some v \<Rightarrow> v = u
     | None \<Rightarrow> (\<exists>cl x. session_claims E rq = Some cl \<and> cl_sid cl \<noteq> [] \<and> get_session (cl_sid cl) s = Inr x \<and>
         ses_user x = cl_uid cl \<and> rq_now rq < ses_expires x \<and> get_by_id (cl_uid cl) s = Inr u \<and> \<not> disabled u))"
proof (cases "resolve_trusted E rq s")
  case None
  show ?thesis
    by (cases "session_claims E rq")
      (auto simp: None require_user_by_session sql_sessions.live_iff split: sum.splits)
qed (auto simp: require_user_def)

text \<open>
  C8: after a change of password every session of the account but the one that asked for it is
  over: a request with the cookie of any of them is refused.
\<close>

theorem password_change_ends_other_sessions:
  assumes "unique_sessions s" and "rp_status (fst (handle_change_password E rq b u s)) = 204"
    and "s' = snd (handle_change_password E rq b u s)"
    and "session_claims E rq' = Some cl" "cl_uid cl = user_id u" "cl_sid cl \<noteq> current_session_id E rq"
    and "resolve_trusted E rq' s' = None"
  shows "fst (require_user E rq' s') = Inl (write_error 401 ''unauthorized'')"
proof -
  obtain h s1 where s1: "change_password_with_audit u h s = Inr s1"
      and s': "s' = snd (revoke_other_user_sessions (user_id u) (current_session_id E rq) s1)"
    using assms(2,3)
    by (auto simp: handle_change_password_def hash_error_reply_def split: option.splits sum.splits if_splits hash_error.splits)
  from s1 have "sessions s1 = sessions s"
    by (auto simp: change_password_with_audit_def update_password_def elim!: update_user_InrD)
  with assms(1) have "unique_sessions s1" by simp
  from sql_sessions.revoke_others_live [OF this] assms(4-7) show ?thesis
    by (simp add: require_user_by_session s')
qed

text \<open>A server with two sessions of one account; the text of a session payload is its id.\<close>

definition session_codec :: codec where
  "session_codec = \<lparr>mac_of = (\<lambda>k b. rev b @ k), json_of = (\<lambda>p. cl_sid (pl_claims p)),
     json_parse = (\<lambda>s. Some \<lparr>pl_purpose = purpose_session, pl_exp = 1000,
       pl_claims = no_claims\<lparr>cl_uid := ''u1'', cl_sid := s\<rparr>\<rparr>)\<rparr>"

definition session_env :: env where
  "session_env = demo_env\<lparr>tokens := session_codec\<rparr>"

definition cookie_request :: "string \<Rightarrow> request" where
  "cookie_request sid = (demo_request [])\<lparr>rq_session :=
     Some (b64_encode sid @ ''.'' @ b64_encode (mac_of session_codec ''k'' (b64_encode sid)))\<rparr>"

definition session_row :: "string \<Rightarrow> session" where
  "session_row sid = \<lparr>ses_id = sid, ses_user = ''u1'', ses_label = [], ses_ip = [], ses_created = 0,
     ses_last_seen = 0, ses_expires = 900000000000\<rparr>"

definition session_server :: rbac_server where
  "session_server = demo_server\<lparr>sessions := [session_row ''s1'', session_row ''s2'']\<rparr>"

lemma password_change_ends_other_sessions_witness:
  "fst (require_user session_env (cookie_request ''s2'') session_server) = Inr (scan_user (demo_row ''u1'' ''ann'')) \<and>
   fst (require_user session_env (cookie_request ''s2'') (snd (handle_change_password session_env
     (cookie_request ''s1'') (Some (''password'', ''a longer one'')) (scan_user (demo_row ''u1'' ''ann'')) session_server)))
   = Inl (write_error 401 ''unauthorized'')"
proof -
  let ?E = session_env and ?b = "Some (''password'', ''a longer one'')" and ?u = "scan_user (demo_row ''u1'' ''ann'')"
  let ?h = "handle_change_password ?E (cookie_request ''s1'') ?b ?u session_server"
  have before: "fst (require_user ?E (cookie_request ''s2'') session_server) = Inr ?u" by code_simp
  have u: "unique_sessions session_server" by code_simp
  have c: "rp_status (fst ?h) = 204" by code_simp
  have cl: "session_claims ?E (cookie_request ''s2'') = Some (no_claims\<lparr>cl_uid := ''u1'', cl_sid := ''s2''\<rparr>)" by code_simp
  have i: "cl_uid (no_claims\<lparr>cl_uid := ''u1'', cl_sid := ''s2''\<rparr>) = user_id ?u" by code_simp
  have k: "cl_sid (no_claims\<lparr>cl_uid := ''u1'', cl_sid := ''s2''\<rparr>) \<noteq> current_session_id ?E (cookie_request ''s1'')"
    by code_simp
  have t: "resolve_trusted ?E (cookie_request ''s2'') (snd ?h) = None" by code_simp
  from password_change_ends_other_sessions [OF u c refl cl i k t] before show ?thesis by simp
qed

text \<open>
  After \<open>POST /logout\<close> the session of its cookie is over for the gate in front of the API, yet
  \<open>GET /status\<close> goes on to name the user for the same cookie until the signature expires:
  \<open>userFromCookie\<close> never looks at the sessions table.
\<close>

theorem logged_out_cookie_still_has_status:
  assumes "unique_sessions s" and "session_claims E rq = Some cl" "get_by_id (cl_uid cl) s = Inr u"
    and "resolve_trusted E rq s = None" and "s' = snd (handle_logout E rq s)"
  shows "fst (require_user E rq s') = Inl (write_error 401 ''unauthorized'') \<and>
    rp_body (handle_status E oidc rq s') = StatusBody False oidc (Some u)"
proof -
  have uc: "user_from_cookie E rq t = Some u" "resolve_trusted E rq t = None" if "users t = users s" for t :: "'a server_scheme"
  proof -
    have t: "resolve_trusted E rq t = None" using assms(4) resolve_trusted_cong [OF that] by simp
    from assms(2) obtain c where "rq_session rq = Some c"
        "verify_token (tokens E) (secret_key E) (rq_now rq) purpose_session c = Inr cl"
      by (auto simp: session_claims_def split: option.splits sum.splits)
    with assms(3) t get_by_id_cong [OF that] show "user_from_cookie E rq t = Some u"
      by (auto simp: user_from_cookie_def verify_session_def)
    from t show "resolve_trusted E rq t = None" .
  qed
  define s1 where "s1 = (if cl_sid cl \<noteq> [] then (case revoke_session (cl_sid cl) (user_id u) s of Inl _ \<Rightarrow> s | Inr x \<Rightarrow> x) else s)"
  have s': "s' = log_audit (user_event ''auth.logout'' (user_id u) u []) s1"
    unfolding assms(5) handle_logout_def s1_def by (simp add: uc(1) assms(2) Let_def)
  have users: "users s1 = users s"
    by (auto simp: s1_def revoke_session_def Let_def split: sum.splits if_splits)
  have id: "user_id u = cl_uid cl"
    using assms(3) by (auto simp: get_by_id_def user_row_of_Some split: option.splits dest: user_row_of_Some)
  have "\<not> fst (session_live get_session touch_session cl (rq_now rq) s1)"
  proof (cases "revoke_session (cl_sid cl) (user_id u) s")
    case (Inl e)
    then have "\<not> is_ok (revoke_session (cl_sid cl) (user_id u) s)" by simp
    then show ?thesis using sql_sessions.revoke_owner [OF assms(1)] Inl id
      by (auto simp: sql_sessions.live_iff s1_def)
  next
    case (Inr x)
    show ?thesis
    proof (cases "cl_sid cl = []")
      case False
      then have "s1 = x" by (simp add: s1_def Inr)
      with sql_sessions.revoked_not_live [OF assms(1) Inr] show ?thesis by simp
    qed (simp add: sql_sessions.live_iff)
  qed
  then have "\<not> fst (session_live get_session touch_session cl (rq_now rq) s')"
    by (simp add: sql_sessions.live_iff s' get_session_def log_audit_def)
  moreover have "count_users s \<noteq> 0"
    using assms(3) by (auto simp: get_by_id_def count_users_def user_row_of_def split: option.splits)
  ultimately show ?thesis using uc [of s'] users assms(2)
    by (simp add: require_user_by_session s' handle_status_def reply_with_def count_users_def)
qed

lemma logged_out_cookie_still_has_status_witness:
  "\<exists>u. fst (require_user session_env (cookie_request ''s1'') session_server) = Inr u \<and>
    fst (require_user session_env (cookie_request ''s1'') (snd (handle_logout session_env (cookie_request ''s1'') session_server)))
      = Inl (write_error 401 ''unauthorized'') \<and>
    rp_body (handle_status session_env False (cookie_request ''s1'')
      (snd (handle_logout session_env (cookie_request ''s1'') session_server))) = StatusBody False False (Some u)"
proof -
  let ?rq = "cookie_request ''s1''" and ?u = "scan_user (demo_row ''u1'' ''ann'')"
    and ?cl = "no_claims\<lparr>cl_uid := ''u1'', cl_sid := ''s1''\<rparr>"
  have b: "fst (require_user session_env ?rq session_server) = Inr ?u" by code_simp
  have h: "unique_sessions session_server" by code_simp
  have c: "session_claims session_env ?rq = Some ?cl" by code_simp
  have g: "get_by_id (cl_uid ?cl) session_server = Inr ?u" by code_simp
  have t: "resolve_trusted session_env ?rq session_server = None" by code_simp
  from logged_out_cookie_still_has_status [OF h c g t refl, of False] b show ?thesis by auto
qed

end
