(* ===== verification/SecondFactor.thy ===== *)
theory SecondFactor
  imports AuthProps
begin

text \<open>
  What the second factor guarantees: which codes are accepted, that an accepted code is used
  up, what a recovery code looks like, and what ends the trust in a device.
\<close>

section \<open>Codes of a time step\<close>

lemma try_steps_sound:
  "try_steps f code prev sts = Some st \<Longrightarrow> st \<in> set sts \<and> prev < st \<and> f st = Some code"
  by (induction f code prev sts rule: try_steps.induct) (auto split: if_splits option.splits)

lemma verify_totp_code_sound:
  assumes "verify_totp_code E secret code now prev = Some st"
  shows "secret \<noteq> [] \<and> code \<noteq> [] \<and> prev < st \<and> \<bar>st - unix_seconds now div totp_period\<bar> \<le> 1 \<and>
    totp_code_at E secret st = Some code"
  using assms by (auto simp: verify_totp_code_def Let_def simp del: try_steps.simps split: if_splits dest!: try_steps_sound)

lemma try_verify_code_cases [consumes 1, case_names totp recovery]:
  assumes "try_verify_code E rq u ts code s = (True, s')"
  obtains secret st where "vault_open E (ts_secret ts) = Inr secret"
      "verify_totp_code E secret code (rq_now rq) (ts_last_step ts) = Some st"
      "consume_step (user_id u) st s = Inr s'"
    | "consume_recovery_with_audit E rq u code s = Inr s'"
  using assms by (auto simp: try_verify_code_def Let_def split: sum.splits option.splits)

lemma try_verify_code_refused:
  "try_verify_code E rq u ts code s = (False, s') \<Longrightarrow> s' = s"
  by (auto simp: try_verify_code_def Let_def split: sum.splits option.splits)

section \<open>Recovery codes\<close>

definition unused_codes :: "string \<Rightarrow> 'a auth_db_scheme \<Rightarrow> nat" where
  "unused_codes uid db = count_where (\<lambda>c. rec_user c = uid \<and> rec_used c = None) (recovery db)"

lemma count_update_one:
  assumes "distinct rs" "c \<in> set rs" "\<And>x. x \<in> set rs \<Longrightarrow> hit x \<longleftrightarrow> x = c" "p c" "\<not> p (f c)"
  shows "count_where p rs = Suc (count_where p (update_where hit f rs))"
  using assms
proof (induction rs)
  case (Cons r rs)
  show ?case
  proof (cases "r = c")
    case True
    then have "\<And>x. x \<in> set rs \<Longrightarrow> \<not> hit x" using Cons.prems(1,3) by auto
    then have "update_where hit f rs = rs" unfolding update_where_def by (intro map_idI) auto
    with True Cons.prems show ?thesis by (auto simp: count_where_def update_where_def)
  next
    case False
    with Cons show ?thesis by (auto simp: count_where_def update_where_def)
  qed
qed simp

lemma consume_recovery_code_uses_one:
  assumes "wf_auth db" "consume_recovery_code uid m now db = Inr db'"
  shows "users db' = users db \<and> unused_codes uid db = Suc (unused_codes uid db') \<and>
    (\<exists>c\<in>set (recovery db). rec_user c = uid \<and> rec_used c = None \<and> m (rec_hash c))"
proof -
  let ?hit = "\<lambda>h c. rec_user c = uid \<and> rec_hash c = h \<and> rec_used c = None"
  from assms(2) obtain h where f: "find m (map rec_hash (filter (\<lambda>c. rec_user c = uid \<and> rec_used c = None) (recovery db))) = Some h"
      and db': "db' = db\<lparr>recovery := update_where (?hit h) (\<lambda>c. c\<lparr>rec_used := Some now\<rparr>) (recovery db)\<rparr>"
    by (auto simp: consume_recovery_code_def Let_def split: option.splits if_splits)
  from find_Some_in [OF f] obtain c where c: "c \<in> set (recovery db)" "?hit h c" "m h" by auto
  have d: "distinct (map (\<lambda>c. (rec_user c, rec_hash c)) (recovery db))" using assms(1) by (simp add: wf_auth_def)
  then have u: "?hit h x \<longleftrightarrow> x = c" if "x \<in> set (recovery db)" for x
    using that c by (auto simp: distinct_map dest: inj_onD)
  have "unused_codes uid db = Suc (unused_codes uid db')"
    unfolding unused_codes_def db' using d c u
    by (simp, intro count_update_one [where c = c]) (auto simp: distinct_map)
  with c show ?thesis by (auto simp: db')
qed

text \<open>
  an accepted code is used up. Either it was the code of a time step later than the last one
  accepted, and that step is now the last one, so that no later request can use the step
  again; or it was a recovery code of the account, and the account has exactly one fewer.
\<close>

theorem accepted_code_is_consumed:
  assumes "wf_auth s" "get_totp_state (user_id u) s = Inr ts" "try_verify_code E rq u ts code s = (True, s')"
  shows "(\<exists>secret st ts'. vault_open E (ts_secret ts) = Inr secret \<and> totp_code_at E secret st = Some code \<and>
      \<bar>st - unix_seconds (rq_now rq) div totp_period\<bar> \<le> 1 \<and> ts_last_step ts < st \<and>
      get_totp_state (user_id u) s' = Inr ts' \<and> ts_last_step ts' = st \<and>
      unused_codes (user_id u) s' = unused_codes (user_id u) s) \<or>
    (get_totp_state (user_id u) s' = Inr ts \<and> unused_codes (user_id u) s = Suc (unused_codes (user_id u) s') \<and>
      (\<exists>c\<in>set (recovery s). rec_user c = user_id u \<and> rec_used c = None \<and> compare_code E code (rec_hash c)))"
  using assms(3)
proof (cases rule: try_verify_code_cases)
  case (totp secret st)
  let ?hit = "\<lambda>r. row_id r = user_id u \<and> row_totp_last_step r < st"
  from totp(3) have s': "s' = s\<lparr>users := update_where ?hit (\<lambda>r. r\<lparr>row_totp_last_step := st\<rparr>) (users s)\<rparr>"
    by (auto simp: consume_step_def Let_def split: if_splits)
  from assms(2) obtain r where r: "user_row_of (user_id u) s = Some r" and ts: "ts_last_step ts = row_totp_last_step r"
    by (auto simp: get_totp_state_def split: option.splits)
  note v = verify_totp_code_sound [OF totp(2)]
  have "user_row_of (user_id u) s' = map_option (\<lambda>x. if ?hit x then x\<lparr>row_totp_last_step := st\<rparr> else x) (user_row_of (user_id u) s)"
    unfolding user_row_of_def s' by (simp add: rows_simps)
  with r ts v have "user_row_of (user_id u) s' = Some (r\<lparr>row_totp_last_step := st\<rparr>)"
    by (auto dest: user_row_of_Some)
  then have "\<exists>ts'. get_totp_state (user_id u) s' = Inr ts' \<and> ts_last_step ts' = st"
    by (simp add: get_totp_state_def)
  moreover have "unused_codes (user_id u) s' = unused_codes (user_id u) s" by (simp add: unused_codes_def s')
  ultimately show ?thesis using totp v by blast
next
  case recovery
  then obtain s1 where s1: "consume_recovery_code (user_id u) (compare_code E code) (rq_now rq) s = Inr s1"
      and s': "s' = log_audit (user_event ''auth.totp.recovery.use'' (user_id u) u []) s1"
    by (auto simp: consume_recovery_with_audit_def)
  note c = consume_recovery_code_uses_one [OF assms(1) s1]
  then have "get_totp_state (user_id u) s' = Inr ts"
    using assms(2) by (simp add: s' get_totp_state_def user_row_of_def)
  with c show ?thesis by (auto simp: s' unused_codes_def)
qed

text \<open>An account with the second factor, and one that is locked besides.\<close>

definition totp_row :: user_row where
  "totp_row = (demo_row ''u1'' ''ann'')\<lparr>row_totp_enabled := True,
     row_totp_secret := Some \<lparr>ciphertext = ''SECRET'', nonce = [], key_version = 1\<rparr>\<rparr>"

definition totp_server :: "user_row \<Rightarrow> rbac_server" where
  "totp_server r = demo_server\<lparr>users := [r], recovery :=
     [\<lparr>rec_user = ''u1'', rec_hash = ''#ABCDEFGHIJ'', rec_used = None\<rparr>,
      \<lparr>rec_user = ''u1'', rec_hash = ''#KLMNOPQRST'', rec_used = None\<rparr>]\<rparr>"

definition totp_demo_state :: totp_state where
  "totp_demo_state = \<lparr>ts_enabled = True, ts_secret = \<lparr>ciphertext = ''SECRET'', nonce = [], key_version = 1\<rparr>,
     ts_pending = zero_sealed, ts_epoch = 0, ts_last_step = 0\<rparr>"

lemma accepted_code_is_consumed_witness:
  "\<exists>s'. try_verify_code demo_env (demo_request []) (scan_user totp_row) totp_demo_state ''abcde-fghij'' (totp_server totp_row) = (True, s') \<and>
     unused_codes ''u1'' (totp_server totp_row) = 2 \<and> unused_codes ''u1'' s' = 1"
proof -
  let ?t = "try_verify_code demo_env (demo_request []) (scan_user totp_row) totp_demo_state ''abcde-fghij'' (totp_server totp_row)"
  have w: "wf_auth (totp_server totp_row)" by code_simp
  have g: "get_totp_state (user_id (scan_user totp_row)) (totp_server totp_row) = Inr totp_demo_state" by code_simp
  have t: "?t = (True, snd ?t)" by code_simp
  have i: "user_id (scan_user totp_row) = ''u1''" by code_simp
  have n: "totp_code_at demo_env (ciphertext (ts_secret totp_demo_state)) st \<noteq> Some ''abcde-fghij''" for st
    by (simp add: demo_env_def totp_demo_state_def)
  have o: "vault_open demo_env (ts_secret totp_demo_state) = Inr (ciphertext (ts_secret totp_demo_state))"
    by (simp add: demo_env_def)
  have "unused_codes ''u1'' (totp_server totp_row) = 2" by code_simp
  with accepted_code_is_consumed [OF w g t] n o t i show ?thesis by auto
qed

section \<open>The verification step of a login\<close>

text \<open>
  C7: \<open>handleTOTPVerify\<close> hands out a session only to a caller that the limiter lets through and
  that holds a challenge under the signature of this server which has not
  expired, for an existing account that is enabled and not locked, and that gives a code
  which is accepted and consumed.
\<close>

theorem totp_session_needs_challenge_and_code:
  assumes "(SessionCookie, Some tok) \<in> set (rp_cookies (fst (handle_totp_verify E rq b s)))"
  shows "\<exists>s0 c cl code remember u ts s1. throttle_allow rq s = (None, s0) \<and> rq_challenge rq = Some c \<and>
    verify_token (tokens E) (secret_key E) (rq_now rq) purpose_challenge c = Inr cl \<and> b = Some (code, remember) \<and>
    get_by_id (cl_uid cl) s = Inr u \<and> \<not> disabled u \<and> \<not> was_locked rq u \<and>
    get_totp_state (user_id u) s = Inr ts \<and> ts_enabled ts \<and>
    try_verify_code E rq u ts (trim_space code) s0 = (True, s1)"
proof -
  obtain r s0 where t: "throttle_allow rq s = (r, s0)" by fastforce
  show ?thesis
  proof (cases r)
    case (Some x)
    with assms t throttle_reply_cookies [of rq s x s0] show ?thesis by (simp add: handle_totp_verify_def)
  next
    case None
    note d = handle_totp_verify_def t None Let_def and h = assms
    obtain c where c: "rq_challenge rq = Some c" using h by (cases "rq_challenge rq") (simp_all add: d)
    obtain cl where cl: "verify_token (tokens E) (secret_key E) (rq_now rq) purpose_challenge c = Inr cl"
      using h c by (cases "verify_token (tokens E) (secret_key E) (rq_now rq) purpose_challenge c") (simp_all add: d)
    obtain code remember where b: "b = Some (code, remember)"
      using h c cl by (cases b) (auto simp add: d)
    have code: "trim_space code \<noteq> []" using h c cl b by (cases "trim_space code = []") (simp_all add: d)
    obtain u where u: "get_by_id (cl_uid cl) s0 = Inr u"
      using h c cl b code by (cases "get_by_id (cl_uid cl) s0") (simp_all add: d)
    have en: "\<not> disabled u" using h c cl b code u by (cases "disabled u") (simp_all add: d)
    obtain ts where ts: "get_totp_state (user_id u) s0 = Inr ts"
      using h c cl b code u en by (cases "get_totp_state (user_id u) s0") (simp_all add: d)
    have on: "\<not> (\<not> ts_enabled ts \<or> sealed_is_zero (ts_secret ts))"
    proof
      assume "\<not> ts_enabled ts \<or> sealed_is_zero (ts_secret ts)"
      with h c cl b code u en ts show False by (simp add: d)
    qed
    obtain ok s1 where v: "try_verify_code E rq u ts (trim_space code) s0 = (ok, s1)" by fastforce
    have ok: "ok" using h c cl b code u en ts on v by (cases ok) (simp_all add: d)
    have nl: "\<not> was_locked rq u"
      using h c cl b code u en ts on v ok by (cases "was_locked rq u") (simp_all add: d)
    have "users s0 = users s" using throttle_allow_tables [OF t [unfolded None]] by simp
    then have "get_by_id (cl_uid cl) s = Inr u" "get_totp_state (user_id u) s = Inr ts"
      using u ts get_by_id_cong [of s0 s] by (simp_all add: get_totp_state_def user_row_of_def)
    with t None c cl b en on v ok nl show ?thesis by (intro exI conjI) simp_all
  qed
qed

definition challenge_request :: request where
  "challenge_request = (demo_request [])\<lparr>rq_challenge :=
     Some (b64_encode ''totp_challengeu1'' @ ''.'' @ b64_encode (mac_of example_codec ''k'' (b64_encode ''totp_challengeu1'')))\<rparr>"

lemma totp_session_needs_challenge_and_code_witness:
  "\<exists>tok u ts s1. (SessionCookie, Some tok) \<in> set (rp_cookies (fst
      (handle_totp_verify demo_env challenge_request (Some ('' SECRET! '', True)) (totp_server totp_row)))) \<and>
    try_verify_code demo_env challenge_request u ts ''SECRET!'' (totp_server totp_row) = (True, s1)"
proof -
  let ?r = "rp_cookies (fst (handle_totp_verify demo_env challenge_request (Some ('' SECRET! '', True)) (totp_server totp_row)))"
  have "list_ex (\<lambda>(c, v). c = SessionCookie \<and> v \<noteq> None) ?r" by code_simp
  then obtain tok where tok: "(SessionCookie, Some tok) \<in> set ?r" by (auto simp: list_ex_iff)
  have t: "throttle_allow challenge_request (totp_server totp_row) = (None, totp_server totp_row)" by code_simp
  have c: "trim_space '' SECRET! '' = ''SECRET!''" by code_simp
  from totp_session_needs_challenge_and_code [OF tok] tok t c show ?thesis by auto
qed

text \<open>
  On a locked account an accepted code is used up although nobody is logged in: the answer
  is 423, no session is made, and one who retries after the lock needs another code. With a
  recovery code one of the ten is gone.
\<close>

theorem locked_account_burns_code:
  assumes "throttle_allow rq s = (None, s0)" "rq_challenge rq = Some c"
    and "verify_token (tokens E) (secret_key E) (rq_now rq) purpose_challenge c = Inr cl"
    and "trim_space code \<noteq> []" "get_by_id (cl_uid cl) s0 = Inr u" "\<not> disabled u" "was_locked rq u"
    and "get_totp_state (user_id u) s0 = Inr ts" "ts_enabled ts" "\<not> sealed_is_zero (ts_secret ts)"
    and "try_verify_code E rq u ts (trim_space code) s0 = (True, s1)"
    and "(r, s') = handle_totp_verify E rq (Some (code, remember)) s"
  shows "rp_status r = 423 \<and> sessions s' = sessions s \<and> users s' = users s1 \<and> recovery s' = recovery s1"
proof -
  have "sessions s1 = sessions s0"
    using assms(11)
  proof (cases rule: try_verify_code_cases)
    case (totp secret st)
    then show ?thesis by (auto simp: consume_step_def Let_def split: if_splits)
  next
    case recovery
    then show ?thesis
      by (auto simp: consume_recovery_with_audit_def consume_recovery_code_def Let_def split: option.splits if_splits)
  qed
  moreover have "sessions s0 = sessions s" using throttle_allow_tables [OF assms(1)] by simp
  ultimately show ?thesis using assms(2-12) by (simp add: handle_totp_verify_def assms(1) Let_def)
qed

lemma locked_account_burns_code_witness:
  "let s = totp_server (totp_row\<lparr>row_locked_until := Some 9000000000\<rparr>);
       (r, s') = handle_totp_verify demo_env challenge_request (Some (''abcde-fghij'', False)) s
   in rp_status r = 423 \<and> sessions s' = [] \<and> unused_codes ''u1'' s = 2 \<and> unused_codes ''u1'' s' = 1"
proof -
  let ?row = "totp_row\<lparr>row_locked_until := Some 9000000000\<rparr>"
  let ?s = "totp_server ?row" and ?cl = "no_claims\<lparr>cl_uid := ''u1''\<rparr>" and ?c = "the (rq_challenge challenge_request)"
  let ?v = "try_verify_code demo_env challenge_request (scan_user ?row) totp_demo_state (trim_space ''abcde-fghij'') ?s"
  have t: "throttle_allow challenge_request ?s = (None, ?s)" by code_simp
  have c: "rq_challenge challenge_request = Some ?c" by (simp add: challenge_request_def)
  have v: "verify_token (tokens demo_env) (secret_key demo_env) (rq_now challenge_request) purpose_challenge ?c = Inr ?cl"
    by code_simp
  have n: "trim_space ''abcde-fghij'' \<noteq> []" by code_simp
  have g: "get_by_id (cl_uid ?cl) ?s = Inr (scan_user ?row)" by code_simp
  have d: "\<not> disabled (scan_user ?row)" "was_locked challenge_request (scan_user ?row)" by code_simp+
  have ts: "get_totp_state (user_id (scan_user ?row)) ?s = Inr totp_demo_state" by code_simp
  have e: "ts_enabled totp_demo_state" "\<not> sealed_is_zero (ts_secret totp_demo_state)" by code_simp+
  have k: "?v = (True, snd ?v)" by code_simp
  have u: "unused_codes ''u1'' ?s = 2" "unused_codes ''u1'' (snd ?v) = 1" "sessions ?s = []" by code_simp+
  let ?h = "handle_totp_verify demo_env challenge_request (Some (''abcde-fghij'', False)) ?s"
  from locked_account_burns_code [OF t c v n g d ts e k, of "fst ?h" "snd ?h" False] u
  show ?thesis by (simp add: unused_codes_def case_prod_beta)
qed

text \<open>How many successful logins the audit log records.\<close>

definition login_rows :: "'a server_scheme \<Rightarrow> nat" where
  "login_rows s = count_where (\<lambda>e. ev_action e = ''auth.login'') (audit_rows s)"

lemma login_rows_log:
  "ev_action e \<noteq> ''auth.login'' \<Longrightarrow> login_rows (log_audit e s) = login_rows s"
  by (auto simp: login_rows_def log_audit_def audit_log_event_def audit_insert_def count_where_def split: sum.splits if_splits)

lemma login_rows_cong: "audit_rows s' = audit_rows s \<Longrightarrow> login_rows s' = login_rows s"
  by (simp add: login_rows_def)

lemma login_rows_failed [simp]: "login_rows (log_login_failed a b s) = login_rows s"
  by (simp add: log_login_failed_def login_rows_log)

lemma rows_of_update_user: "update_user i f s = Inr s' \<Longrightarrow> audit_rows s' = audit_rows (s :: 'a server_scheme)"
  by (auto elim!: update_user_InrD)

lemma login_rows_fields [simp]:
  "login_rows (s\<lparr>limiter := l\<rparr>) = login_rows s" "login_rows (s\<lparr>users := us\<rparr>) = login_rows s"
  "login_rows (s\<lparr>sessions := ss\<rparr>) = login_rows s" "login_rows (s\<lparr>devices := ds\<rparr>) = login_rows s"
  "login_rows (s\<lparr>recovery := rs\<rparr>) = login_rows s" "login_rows (s\<lparr>id_count := n\<rparr>) = login_rows s"
  by (simp_all add: login_rows_def)

lemma login_rows_update_user: "update_user i f s = Inr s' \<Longrightarrow> login_rows s' = login_rows s"
  by (auto elim!: update_user_InrD)

lemma login_rows_results:
  "login_rows (case record_login_failure_row i l s of Inl _ \<Rightarrow> s | Inr (_, s') \<Rightarrow> s') = login_rows s"
  "login_rows (case clear_login_failures i s of Inl _ \<Rightarrow> s | Inr s' \<Rightarrow> s') = login_rows s"
  by (auto simp: record_login_failure_row_def clear_login_failures_def Let_def login_rows_update_user
      split: sum.splits option.splits)

lemma login_rows_punish [simp]: "login_rows (punish rq u s) = login_rows s"
  by (auto simp: punish_def record_login_failure_def tick_limiter_def Let_def user_event_def login_rows_log
      login_rows_results split: option.splits)

lemma login_rows_issue_cookie: "issue_cookie E rq i oidc s = (t, s') \<Longrightarrow> login_rows s' = login_rows s"
  by (auto simp: issue_cookie_def fresh_id_def create_session_def delete_expired_sessions_def delete_sessions_def Let_def
      split: prod.splits sum.splits if_splits)

lemma login_rows_remember: "remember_device E rq i ep s = (t, s') \<Longrightarrow> login_rows s' = login_rows s"
  by (auto simp: remember_device_def fresh_id_def insert_device_def Let_def split: prod.splits sum.splits if_splits)

lemma login_rows_finish_totp: "finish_totp E rq u ep rem s = (r, s') \<Longrightarrow> login_rows s' = login_rows s"
proof -
  assume f: "finish_totp E rq u ep rem s = (r, s')"
  define s1 where "s1 = (case clear_login_failures (user_id u) s of Inl _ \<Rightarrow> s | Inr s' \<Rightarrow> s')"
  obtain tr s2 where t: "(if rem then remember_device E rq (user_id u) ep s1 else (None, s1)) = (tr, s2)" by fastforce
  obtain c s3 where i: "issue_cookie E rq (user_id u) False s2 = (c, s3)" by fastforce
  from f t i have "s' = s3" by (auto simp: finish_totp_def Let_def simp flip: s1_def split: option.splits)
  moreover have "login_rows s1 = login_rows s" by (simp add: s1_def login_rows_results)
  moreover have "login_rows s2 = login_rows s1" using t by (auto split: if_splits dest: login_rows_remember)
  ultimately show ?thesis using login_rows_issue_cookie [OF i] by simp
qed

lemma login_rows_try_verify:
  assumes "try_verify_code E rq u ts code s = (True, s')"
  shows "login_rows s' = login_rows s"
  using assms
proof (cases rule: try_verify_code_cases)
  case (totp secret st)
  then show ?thesis by (auto simp: consume_step_def Let_def split: if_splits)
next
  case recovery
  then show ?thesis
    by (auto simp: consume_recovery_with_audit_def consume_recovery_code_def user_event_def login_rows_log Let_def
        split: option.splits if_splits)
qed

text \<open>
  A login through the second factor leaves no \<open>auth.login\<close> row in the audit log, whatever
  the request: \<open>handleTOTPVerify\<close> issues the session itself, past \<open>finishLogin\<close>.
\<close>

theorem totp_login_is_not_audited:
  "login_rows (snd (handle_totp_verify E rq b s)) = login_rows s"
proof -
  obtain r s0 where t: "throttle_allow rq s = (r, s0)" by fastforce
  have s0: "login_rows s0 = login_rows s" using throttle_allow_tables [OF t] by (simp add: login_rows_def)
  have v: "login_rows (snd (case try_verify_code E rq u ts code s0 of
      (False, s1) \<Rightarrow> (x, log_login_failed n z (punish rq u s1))
    | (True, s1) \<Rightarrow> if was_locked rq u then (y, log_login_failed n' z' s1) else finish_totp E rq u ep rem s1)) = login_rows s"
    for u ts code x n z y n' z' ep rem
  proof -
    obtain k s1 where k: "try_verify_code E rq u ts code s0 = (k, s1)" by fastforce
    have "login_rows s1 = login_rows s"
      using k s0 login_rows_try_verify [of E rq u ts code s0 s1] try_verify_code_refused [of E rq u ts code s0 s1] by (cases k) auto
    moreover have "login_rows (snd (finish_totp E rq u ep rem s1)) = login_rows s1"
      by (rule login_rows_finish_totp [OF prod.collapse [symmetric]])
    ultimately show ?thesis by (cases k) (simp_all add: k)
  qed
  show ?thesis
    by (cases r) (simp_all add: handle_totp_verify_def t s0 v Let_def split: option.split sum.split)
qed

text \<open>Against a login by password, which leaves one.\<close>

lemma password_login_is_audited:
  assumes "finish_login E rq u how s = (r, s')" "rp_status r = 200"
  shows "login_rows s' = Suc (login_rows s)"
proof -
  obtain c s1 where i: "issue_cookie E rq (user_id u) False s = (c, s1)" by fastforce
  with assms obtain tok where c: "c = Some tok" by (cases c) (auto simp: finish_login_def)
  define s2 where "s2 = (case clear_login_failures (user_id u) s1 of Inl _ \<Rightarrow> s1 | Inr s' \<Rightarrow> s')"
  have "login_rows s2 = login_rows s" using login_rows_issue_cookie [OF i] by (simp add: s2_def login_rows_results)
  moreover have "s' = log_audit (user_event ''auth.login'' (user_id u) u (with_safe ''method'' (DStr how) [])) s2"
    using assms by (simp add: finish_login_def i c Let_def s2_def)
  ultimately show ?thesis by (simp add: log_audit_def login_rows_def user_event_def count_where_def)
qed

section \<open>The end of trust\<close>

lemma no_devices_no_trust:
  assumes "\<forall>d\<in>set (devices s). dev_user d \<noteq> uid"
  shows "\<not> fst (honor_trusted_device E rq uid epoch s)"
  using assms by (auto simp: honor_trusted_device_def get_device_def split: option.splits sum.splits dest!: find_Some_in)

lemma factor_removed:
  assumes "disable_totp uid s = Inr s' \<or> admin_reset_totp uid s = Inr s'"
  shows "(\<forall>d\<in>set (devices s'). dev_user d \<noteq> uid) \<and> (\<forall>c\<in>set (recovery s'). rec_user c \<noteq> uid) \<and>
    (\<exists>ts. get_totp_state uid s' = Inr ts \<and> \<not> ts_enabled ts)"
proof -
  have "\<exists>f s1. update_user uid f s = Inr s1 \<and> s' = delete_factor_rows uid s1 \<and>
      (\<forall>r. row_id (f r) = row_id r) \<and> (\<forall>r. \<not> row_totp_enabled (f r))"
    using assms by (auto simp: disable_totp_def admin_reset_totp_def) (metis clear_lockout_sel(1,8) wipe_totp_sel(1,4))+
  then obtain f s1 where u: "update_user uid f s = Inr s1" and s': "s' = delete_factor_rows uid s1"
    and f: "\<And>r. row_id (f r) = row_id r" "\<And>r. \<not> row_totp_enabled (f r)" by blast
  obtain r where "user_row_of uid s = Some r"
    using u by (cases "user_row_of uid s") (auto simp: user_row_of_None elim!: update_user_InrD)
  with user_row_of_update [OF f(1) u, of uid] have "user_row_of uid s1 = Some (f r)" by simp
  then show ?thesis using f(2) by (auto simp: s' delete_factor_rows_def Let_def get_totp_state_def user_row_of_def)
qed

text \<open>
  once the user has turned the second factor off, or an administrator has reset it, no
  cookie of a trusted device counts any more for the account, at any later time, and its
  recovery codes are gone.
\<close>

theorem removing_factor_ends_trust:
  assumes "(reply, s') = handle_totp_disable E rq b u s \<or> (reply, s') = handle_admin_reset_totp (user_id u) actor s"
    and "rp_status reply = 204"
  shows "\<not> fst (honor_trusted_device E rq' (user_id u) epoch s') \<and> unused_codes (user_id u) s' = 0"
proof -
  have "\<exists>s1 e. (disable_totp (user_id u) s = Inr s1 \<or> admin_reset_totp (user_id u) s = Inr s1) \<and> s' = log_audit e s1"
    using assms(1)
  proof
    assume d: "(reply, s') = handle_totp_disable E rq b u s"
    with assms(2) obtain s1 where "disable_with_audit u s = Inr s1" "s' = s1"
      by (simp add: handle_totp_disable_def split: option.splits prod.splits if_splits sum.splits bool.splits)
    then show ?thesis by (auto simp: disable_with_audit_def)
  next
    assume "(reply, s') = handle_admin_reset_totp (user_id u) actor s"
    with assms(2) show ?thesis by (auto simp: handle_admin_reset_totp_def split: if_splits sum.splits)
  qed
  then obtain s1 e where s1: "disable_totp (user_id u) s = Inr s1 \<or> admin_reset_totp (user_id u) s = Inr s1"
    and s': "s' = log_audit e s1" by blast
  from factor_removed [OF s1] show ?thesis
    by (auto simp: s' unused_codes_def intro!: no_devices_no_trust)
qed

lemma removing_factor_ends_trust_witness:
  "let s = totp_server totp_row;
       (r, s') = handle_totp_disable demo_env (demo_request []) (Some (''password'', ''SECRET!'')) (scan_user totp_row) s
   in unused_codes ''u1'' s = 2 \<and> rp_status r = 204 \<and> unused_codes ''u1'' s' = 0"
proof -
  let ?d = "handle_totp_disable demo_env (demo_request []) (Some (''password'', ''SECRET!'')) (scan_user totp_row) (totp_server totp_row)"
  have r: "rp_status (fst ?d) = 204" "unused_codes ''u1'' (totp_server totp_row) = 2" "user_id (scan_user totp_row) = ''u1''"
    by code_simp+
  have "(fst ?d, snd ?d) = ?d \<or> (fst ?d, snd ?d) = handle_admin_reset_totp (user_id (scan_user totp_row)) undefined (totp_server totp_row)"
    by simp
  from removing_factor_ends_trust [OF this r(1)] r show ?thesis by (simp add: case_prod_beta)
qed

section \<open>How a recovery code is typed\<close>

definition base32_char :: "char \<Rightarrow> bool" where
  "base32_char c \<longleftrightarrow> c \<in> set ''ABCDEFGHIJKLMNOPQRSTUVWXYZ234567''"

lemma base32_facts:
  assumes "base32_char c"
  shows "visible c" "visible (lower_char c)" "upper_char c = c" "upper_char (lower_char c) = c"
    "c \<noteq> CHR '' ''" "c \<noteq> CHR ''-''"
proof -
  have "list_all (\<lambda>c. visible c \<and> visible (lower_char c) \<and> upper_char c = c \<and> upper_char (lower_char c) = c \<and>
      c \<noteq> CHR '' '' \<and> c \<noteq> CHR ''-'') ''ABCDEFGHIJKLMNOPQRSTUVWXYZ234567''"
    by code_simp
  with assms show "visible c" "visible (lower_char c)" "upper_char c = c" "upper_char (lower_char c) = c"
    "c \<noteq> CHR '' ''" "c \<noteq> CHR ''-''"
    unfolding list_all_iff base32_char_def by blast+
qed

lemma normalize_keeps:
  assumes "list_all base32_char raw"
  shows "filter (\<lambda>x. x \<noteq> CHR '' '') (filter (\<lambda>x. x \<noteq> CHR ''-'') (map upper_char raw)) = raw"
    "filter (\<lambda>x. x \<noteq> CHR '' '') (filter (\<lambda>x. x \<noteq> CHR ''-'') (map upper_char (map lower_char raw))) = raw"
  using assms by (induction raw) (simp_all add: base32_facts)

lemma show_code_ends:
  assumes "list_all base32_char raw" "10 \<le> length raw"
  shows "hd (show_code raw) \<in> set raw" "last (show_code raw) \<in> set raw" "show_code raw \<noteq> []"
    "hd (take 10 raw) \<in> set raw" "last (take 10 raw) \<in> set raw" "take 10 raw \<noteq> []"
proof -
  have n: "raw \<noteq> []" "take 5 (drop 5 raw) \<noteq> []" "take 10 raw \<noteq> []" using assms by auto
  then have "hd (show_code raw) = hd raw" "last (show_code raw) = last (take 5 (drop 5 raw))" "hd (take 10 raw) = hd raw"
    by (cases raw; simp add: show_code_def)+
  moreover have "last (take 5 (drop 5 raw)) \<in> set raw"
    using last_in_set [OF n(2)] by (blast dest: in_set_takeD in_set_dropD)
  moreover have "last (take 10 raw) \<in> set raw" using last_in_set [OF n(3)] by (blast dest: in_set_takeD)
  ultimately show "hd (show_code raw) \<in> set raw" "last (show_code raw) \<in> set raw" "show_code raw \<noteq> []"
    "hd (take 10 raw) \<in> set raw" "last (take 10 raw) \<in> set raw" "take 10 raw \<noteq> []"
    using n by (simp_all add: show_code_def)
qed

lemma normalize_show_code:
  assumes "list_all base32_char raw" "10 \<le> length raw"
  shows "normalize_code (show_code raw) = take 10 raw" "normalize_code (map lower_char (show_code raw)) = take 10 raw"
    "normalize_code (take 10 raw) = take 10 raw"
proof -
  have b: "base32_char c" if "c \<in> set raw" for c using assms(1) that by (simp add: list_all_iff)
  have l: "list_all base32_char (take n raw)" "list_all base32_char (take n (drop m raw))" for n m
    using assms(1) by (auto simp: list_all_iff dest: in_set_takeD in_set_dropD)
  have e: "take 5 raw @ take 5 (drop 5 raw) = take 10 raw" by (simp flip: take_add)
  note ends = show_code_ends [OF assms]
  have "trim_space (show_code raw) = show_code raw" "trim_space (take 10 raw) = take 10 raw"
      "trim_space (map lower_char (show_code raw)) = map lower_char (show_code raw)"
    using ends b by (auto intro!: trim_space_visible simp: hd_map last_map base32_facts)
  moreover have h: "upper_char (CHR ''-'') = CHR ''-''" "lower_char (CHR ''-'') = CHR ''-''" by code_simp+
  ultimately show "normalize_code (show_code raw) = take 10 raw"
      "normalize_code (map lower_char (show_code raw)) = take 10 raw"
      "normalize_code (take 10 raw) = take 10 raw"
    using l by (simp_all add: normalize_code_def normalize_keeps e show_code_def h del: map_map filter_filter)
qed

text \<open>
  a recovery code verifies in every form a user may type it: as it was shown, in lower case,
  without the hyphen; and anything else that verifies has the same ten characters. Bcrypt is
  assumed to accept exactly the password that was hashed.
\<close>

theorem recovery_code_verifies:
  assumes "list_all base32_char raw" "10 \<le> length raw" "hash_code E rq (show_code raw) = Some h"
    and "\<And>seed p q h. bcrypt_hash E seed p = Some h \<Longrightarrow> bcrypt_ok E h q \<longleftrightarrow> q = p"
  shows "compare_code E (show_code raw) h \<and> compare_code E (map lower_char (show_code raw)) h \<and>
    compare_code E (take 10 raw) h \<and> (compare_code E typed h \<longleftrightarrow> normalize_code typed = take 10 raw)"
proof -
  note n = normalize_show_code [OF assms(1,2)]
  from assms(3) have "bcrypt_hash E (rq_seed rq) (take 10 raw) = Some h"
    by (auto simp: hash_code_def n split: if_splits)
  from assms(4) [OF this] show ?thesis by (simp add: compare_code_def n)
qed

lemma recovery_code_verifies_witness:
  "compare_code demo_env '' abcde fghij '' ''#ABCDEFGHIJ'' \<and> \<not> compare_code demo_env ''abcde-fghik'' ''#ABCDEFGHIJ''"
proof -
  have b: "list_all base32_char ''ABCDEFGHIJKLM''" "10 \<le> length ''ABCDEFGHIJKLM''" by code_simp+
  have h: "hash_code demo_env (demo_request []) (show_code ''ABCDEFGHIJKLM'') = Some ''#ABCDEFGHIJ''" by code_simp
  have c: "bcrypt_ok demo_env h q \<longleftrightarrow> q = p" if "bcrypt_hash demo_env seed p = Some h" for seed p q h
    using that by (auto simp: demo_env_def)
  have "normalize_code '' abcde fghij '' = take 10 ''ABCDEFGHIJKLM''"
    "normalize_code ''abcde-fghik'' \<noteq> take 10 ''ABCDEFGHIJKLM''" by code_simp+
  with recovery_code_verifies [OF b h c] show ?thesis by simp
qed

section \<open>A password that must be changed\<close>

text \<open>
  The flag \<open>must_change_password\<close> stops a user only on the routes of \<open>internal/auth\<close> that are
  wrapped in \<open>RequireFreshPassword\<close>. Behind every other route, those that grant and revoke
  roles among them, the same request is served as if the password were fresh.
\<close>

theorem must_change_binds_auth_routes_only:
  assumes "require_user E rq s = (Inr u, s1)" "must_change_password u"
  shows "with_fresh_user E rq h s = (write_error 403 ''password change required'', s1) \<and>
    serve E rq (GrantAdmin b) s = map_prod Inr id (grant_admin b u s1) \<and>
    serve E rq (RevokeAdmin b) s = map_prod Inr id (revoke_admin b u s1) \<and>
    serve E rq (GrantGroup g m) s = map_prod Inr id (grant_group g m u s1) \<and>
    serve E rq (RevokeGroup g i r) s = map_prod Inr id (revoke_group g i r u s1)"
  using assms by (simp add: with_fresh_user_def with_user_def require_fresh_password_def with_role_user_def
      map_prod_def split: prod.split)

lemma must_change_binds_auth_routes_only_witness:
  "let s = demo_server\<lparr>users := [(demo_row ''u1'' ''ann'')\<lparr>row_must_change := True\<rparr>, demo_row ''u2'' ''bob'']\<rparr>;
       b = Some \<lparr>as_user = ''u2'', as_group = None, as_role = role_admin\<rparr>
   in length (roles (snd (serve demo_env (demo_request ''ann'') (GrantAdmin b) s))) = Suc (length (roles s)) \<and>
      fst (with_fresh_user demo_env (demo_request ''ann'') (handle_update_profile None) s) =
        write_error 403 ''password change required''"
proof -
  let ?row = "(demo_row ''u1'' ''ann'')\<lparr>row_must_change := True\<rparr>"
  let ?s = "demo_server\<lparr>users := [?row, demo_row ''u2'' ''bob'']\<rparr>"
  let ?b = "Some \<lparr>as_user = ''u2'', as_group = None, as_role = role_admin\<rparr>"
  have r: "require_user demo_env (demo_request ''ann'') ?s = (Inr (scan_user ?row), ?s)" by code_simp
  have m: "must_change_password (scan_user ?row)" by code_simp
  have g: "length (roles (snd (grant_admin ?b (scan_user ?row) ?s))) = Suc (length (roles ?s))" by code_simp
  from must_change_binds_auth_routes_only [OF r m, of "handle_update_profile None" ?b] g
  show ?thesis by (simp add: Let_def)
qed

end
