(* ===== verification/Targeting.thy ===== *)
theory Targeting
  imports LabelStore
begin

text \<open>
  Which systems a target names (\<open>internal/targeting\<close>, and the copy of the resolver in
  \<open>internal/schedules/targets.go\<close>): the whole inventory, a group, a fixed list, a label
  selector. The inventory is the list \<open>systems.Store.List\<close> returns, in its order; the
  fields are those that targets, alerts and schedules read. The parser of a JSON array of
  strings is the parameter \<open>J\<close>, \<open>None\<close> where \<open>json.Unmarshal\<close> fails.
\<close>

section \<open>The inventory\<close>

definition status_unreachable :: string where "status_unreachable = ''unreachable''"

record system =
  sys_id :: string
  sys_name :: string
  sys_status :: string
  sys_group :: "string option"
  sys_windows :: bool
  sys_reboot :: "int option"

type_synonym inventory = "system list"

definition get_system :: "string \<Rightarrow> inventory \<Rightarrow> system option" where
  "get_system i fleet = find (\<lambda>s. sys_id s = i) fleet"

definition missing_system :: "string \<Rightarrow> system" where
  "missing_system i = \<lparr>sys_id = i, sys_name = i, sys_status = status_unreachable, sys_group = None,
     sys_windows = False, sys_reboot = None\<rparr>"

section \<open>Targets\<close>

definition kind_global :: string where "kind_global = ''global''"
definition kind_group :: string where "kind_group = ''group''"
definition kind_systems :: string where "kind_systems = ''systems''"
definition kind_selector :: string where "kind_selector = ''selector''"

lemmas target_kinds = kind_global_def kind_group_def kind_systems_def kind_selector_def

text \<open>\<open>TargetPanic\<close> is a panic of the selector parser or of \<open>Matches\<close>.\<close>

datatype target_error =
    TargetInvalid string
  | TargetBadIds
  | TargetBadSelector label_error
  | TargetPanic

definition target_sel_error :: "sel_error \<Rightarrow> target_error" where
  "target_sel_error e = (case e of SelErr x \<Rightarrow> TargetBadSelector x | SelPanic \<Rightarrow> TargetPanic)"

definition validate_target :: "(string \<Rightarrow> string list option) \<Rightarrow> string \<Rightarrow> string \<Rightarrow> (target_error, unit) result" where
  "validate_target J kind value =
     (if kind = kind_global
      then (if value \<noteq> [] then Inl (TargetInvalid ''targetValue must be empty when targetKind=global'') else Inr ())
      else if kind = kind_group
      then (if value = [] then Inl (TargetInvalid ''targetValue (group id) is required when targetKind=group'') else Inr ())
      else if kind = kind_systems
      then
        (case J value of
           None \<Rightarrow> Inl TargetBadIds
         | Some ids \<Rightarrow>
             if ids = [] then Inl (TargetInvalid ''targetValue must contain at least one system id when targetKind=systems'')
             else first_err (\<lambda>i. if trim_space i = [] then Inl (TargetInvalid ''targetValue contains an empty system id'')
                                 else Inr ()) ids)
      else if kind = kind_selector
      then
        (if value = [] then Inl (TargetInvalid ''targetValue (selector expression) is required when targetKind=selector'')
         else (case parse_selector value of Inl e \<Rightarrow> Inl (target_sel_error e) | Inr _ \<Rightarrow> Inr ()))
      else Inl (TargetInvalid ''targetKind is not one of global/group/systems/selector''))"

text \<open>The loop over the inventory; \<open>None\<close> where \<open>Matches\<close> panics.\<close>

fun matching_systems :: "selector \<Rightarrow> (string \<Rightarrow> label list option) \<Rightarrow> inventory \<Rightarrow> inventory option" where
  "matching_systems sel by_id [] = Some []"
| "matching_systems sel by_id (s # ss) =
     (case sel_matches sel (case by_id (sys_id s) of None \<Rightarrow> [] | Some ls \<Rightarrow> ls) of
        None \<Rightarrow> None
      | Some b \<Rightarrow> map_option (\<lambda>out. if b then s # out else out) (matching_systems sel by_id ss))"

definition resolve_target :: "(string \<Rightarrow> string list option) \<Rightarrow> string \<Rightarrow> string \<Rightarrow> inventory \<Rightarrow> sql_labels
    \<Rightarrow> (target_error, inventory) result" where
  "resolve_target J kind value fleet lbl =
     (if kind = kind_global then Inr fleet
      else if kind = kind_group then Inr (filter (\<lambda>s. sys_group s = Some value) fleet)
      else if kind = kind_systems
      then
        (case J value of
           None \<Rightarrow> Inl TargetBadIds
         | Some ids \<Rightarrow> Inr (map (\<lambda>i. case get_system i fleet of None \<Rightarrow> missing_system i | Some s \<Rightarrow> s) ids))
      else if kind = kind_selector
      then
        (case parse_selector value of
           Inl e \<Rightarrow> Inl (target_sel_error e)
         | Inr sel \<Rightarrow>
             (case matching_systems sel (sql_for_systems lbl (map sys_id fleet)) fleet of
                None \<Rightarrow> Inl TargetPanic
              | Some out \<Rightarrow> Inr out))
      else Inl (TargetInvalid ''unsupported targetKind''))"

section \<open>What a target selects\<close>

lemma sel_matches_total:
  "\<forall>r\<in>set sel. wf_requirement r \<Longrightarrow> sel_matches sel ls \<noteq> None"
proof (induction sel)
  case (Cons r sel)
  then have "req_matches r (by_key ls) \<noteq> None"
    by (cases "rop r"; cases "by_key ls (rkey r)")
      (auto simp: req_matches_def wf_requirement_def first_value_def length_Suc_conv split: option.splits)
  with Cons show ?case by (auto simp: sel_matches_def split: bool.splits)
qed (simp add: sel_matches_def)

lemma matching_systems_filter:
  assumes "\<forall>r\<in>set sel. wf_requirement r"
  shows "matching_systems sel by_id fleet =
    Some (filter (\<lambda>s. sel_matches sel (case by_id (sys_id s) of None \<Rightarrow> [] | Some ls \<Rightarrow> ls) = Some True) fleet)"
  using sel_matches_total [OF assms] by (induction fleet) (auto split: option.splits)

lemma labels_of_member:
  assumes "s \<in> set fleet"
  shows "(case sql_for_systems lbl (map sys_id fleet) (sys_id s) of None \<Rightarrow> [] | Some ls \<Rightarrow> ls) = sql_for_system lbl (sys_id s)"
  using assms by (auto simp: sql_for_systems_apply)

text \<open>The result of a valid target, written as a filter.\<close>

definition selects :: "(string \<Rightarrow> string list option) \<Rightarrow> string \<Rightarrow> string \<Rightarrow> sql_labels \<Rightarrow> inventory \<Rightarrow> inventory" where
  "selects J kind value lbl fleet =
     (if kind = kind_global then fleet
      else if kind = kind_group then filter (\<lambda>s. sys_group s = Some value) fleet
      else if kind = kind_systems
      then map (\<lambda>i. case get_system i fleet of None \<Rightarrow> missing_system i | Some s \<Rightarrow> s) (the (J value))
      else
        (case parse_selector value of
           Inl _ \<Rightarrow> []
         | Inr sel \<Rightarrow> filter (\<lambda>s. sel_matches sel (sql_for_system lbl (sys_id s)) = Some True) fleet))"

lemma resolve_valid_target:
  assumes "validate_target J kind value = Inr ()"
  shows "resolve_target J kind value fleet lbl = Inr (selects J kind value lbl fleet)"
proof (cases "kind = kind_selector")
  case True
  with assms obtain sel where sel: "parse_selector value = Inr sel"
    by (auto simp: validate_target_def target_kinds split: sum.splits if_splits)
  have "matching_systems sel (sql_for_systems lbl (map sys_id fleet)) fleet =
      Some (filter (\<lambda>s. sel_matches sel (sql_for_system lbl (sys_id s)) = Some True) fleet)"
    unfolding matching_systems_filter [OF parse_selector_wf [OF sel]]
    by (simp add: labels_of_member cong: filter_cong)
  with True sel show ?thesis by (simp add: resolve_target_def selects_def target_kinds)
next
  case False
  with assms show ?thesis
    by (auto simp: validate_target_def resolve_target_def selects_def target_kinds split: option.splits if_splits)
qed

end
