(* ===== verification/Calendar.thy ===== *)
theory Calendar
  imports Prelude "HOL-Library.Product_Lexorder"
begin

text \<open>
  Civil time to the minute, as Go's \<open>time\<close> package computes it in a location whose
  offset from UTC does not change: years, months, days of the proleptic Gregorian
  calendar, and the four ways the cron search moves a clock forward.
\<close>

section \<open>Dates\<close>

definition leap :: "int \<Rightarrow> bool" where
  "leap y = (y mod 4 = 0 \<and> (y mod 100 \<noteq> 0 \<or> y mod 400 = 0))"

definition days_in :: "int \<Rightarrow> nat \<Rightarrow> nat" where
  "days_in y m =
     (if m = 2 then (if leap y then 29 else 28)
      else if m \<in> {4, 6, 9, 11} then 30 else 31)"

datatype civil = Civil (yr: int) (mon: nat) (dy: nat) (hr: nat) (mi: nat)

definition valid_civil :: "civil \<Rightarrow> bool" where
  "valid_civil t =
     (1 \<le> mon t \<and> mon t \<le> 12 \<and> 1 \<le> dy t \<and> dy t \<le> days_in (yr t) (mon t) \<and> hr t < 24 \<and> mi t < 60)"

text \<open>Chronological order is the lexicographic order of the fields.\<close>

definition civil_key :: "civil \<Rightarrow> int \<times> nat \<times> nat \<times> nat \<times> nat" where
  "civil_key t = (yr t, mon t, dy t, hr t, mi t)"

instantiation civil :: linorder
begin

definition less_eq_civil :: "civil \<Rightarrow> civil \<Rightarrow> bool" where
  "t \<le> u \<longleftrightarrow> civil_key t \<le> civil_key u"

definition less_civil :: "civil \<Rightarrow> civil \<Rightarrow> bool" where
  "t < u \<longleftrightarrow> civil_key t < civil_key u"

instance
proof
  fix t u v :: civil
  show "(t < u) = (t \<le> u \<and> \<not> u \<le> t)" by (simp only: less_eq_civil_def less_civil_def less_le_not_le)
  show "t \<le> t" by (simp add: less_eq_civil_def)
  show "t \<le> u \<Longrightarrow> u \<le> v \<Longrightarrow> t \<le> v" unfolding less_eq_civil_def by (rule order_trans)
  show "t \<le> u \<Longrightarrow> u \<le> t \<Longrightarrow> t = u"
    unfolding less_eq_civil_def by (drule (1) antisym) (simp add: civil_key_def civil.expand)
  show "t \<le> u \<or> u \<le> t" by (simp add: less_eq_civil_def linear)
qed

end

lemma civil_less_iff:
  "t < u \<longleftrightarrow> yr t < yr u \<or> yr t = yr u \<and> (mon t < mon u \<or> mon t = mon u \<and>
     (dy t < dy u \<or> dy t = dy u \<and> (hr t < hr u \<or> hr t = hr u \<and> mi t < mi u)))"
  by (auto simp: less_civil_def civil_key_def less_prod_def)

lemma civil_le_iff:
  "t \<le> u \<longleftrightarrow> yr t < yr u \<or> yr t = yr u \<and> (mon t < mon u \<or> mon t = mon u \<and>
     (dy t < dy u \<or> dy t = dy u \<and> (hr t < hr u \<or> hr t = hr u \<and> mi t \<le> mi u)))"
  by (auto simp: less_eq_civil_def civil_key_def less_eq_prod_def)

section \<open>Days of the week\<close>

text \<open>\<open>time.Weekday\<close>: Sunday is 0; day 1 of year 1 is a Monday.\<close>

definition days_before_year :: "int \<Rightarrow> int" where
  "days_before_year y = 365 * (y - 1) + (y - 1) div 4 - (y - 1) div 100 + (y - 1) div 400"

definition days_before_month :: "int \<Rightarrow> nat \<Rightarrow> int" where
  "days_before_month y m = int (sum_list (map (days_in y) [1..<m]))"

definition weekday :: "int \<Rightarrow> nat \<Rightarrow> nat \<Rightarrow> nat" where
  "weekday y m d = nat ((days_before_year y + days_before_month y m + int d) mod 7)"

lemma weekday_less: "weekday y m d < 7"
  by (simp add: weekday_def nat_less_iff)

lemma nat_mod7_Suc: "nat ((n + 1) mod 7) = (nat (n mod 7) + 1) mod (7::nat)" for n :: int
proof -
  have "nat ((n + 1) mod 7) = nat ((n mod 7 + 1) mod 7)" by (simp add: mod_add_left_eq)
  also have "\<dots> = nat (n mod 7 + 1) mod 7" by (simp add: nat_mod_distrib)
  also have "nat (n mod 7 + 1) = nat (n mod 7) + 1" by (simp add: nat_add_distrib)
  finally show ?thesis .
qed

lemma weekday_next_day: "weekday y m (Suc d) = (weekday y m d + 1) mod 7"
  using nat_mod7_Suc [of "days_before_year y + days_before_month y m + int d"]
  by (simp add: weekday_def add.assoc add.commute [of 1])

lemma div_pred_step:
  fixes y k :: int
  assumes "0 < k"
  shows "y div k = (y - 1) div k + (if y mod k = 0 then 1 else 0)"
proof -
  define q r where "q = (y - 1) div k" and "r = (y - 1) mod k"
  have y: "y = q * k + (r + 1)" and r: "0 \<le> r" "r < k"
    using assms by (simp_all add: q_def r_def)
  show ?thesis
  proof (cases "r + 1 = k")
    case True
    with y have "y = (q + 1) * k" by (simp add: algebra_simps)
    with assms q_def show ?thesis by simp
  next
    case False
    with r have "y div k = q" and "y mod k = r + 1"
      using y by (simp_all add: div_pos_pos_trivial mod_pos_pos_trivial)
    with r q_def show ?thesis by simp
  qed
qed

lemma year_length_arith:
  fixes a b c d e f y :: int
  assumes "a - b = (if P then 1 else 0)" "c - d = (if Q then 1 else 0)" "e - f = (if R then 1 else 0)"
    and "Q \<Longrightarrow> P" "R \<Longrightarrow> Q"
  shows "365 * y + a - c + e =
    365 * (y - 1) + b - d + f + (if P \<and> (\<not> Q \<or> R) then 366 else 365)"
  using assms by (simp split: if_splits)

lemma div_pred_diff:
  fixes y k :: int
  assumes "0 < k"
  shows "y div k - (y - 1) div k = (if y mod k = 0 then 1 else 0)"
  by (subst div_pred_step [OF assms]) (rule add_diff_cancel_left')

lemma days_before_next_year: "days_before_year (y + 1) = days_before_year y + (if leap y then 366 else 365)"
proof -
  have "4 dvd (100::int)" and "100 dvd (400::int)" by simp_all
  then have m: "y mod 100 = 0 \<Longrightarrow> y mod 4 = 0" "y mod 400 = 0 \<Longrightarrow> y mod 100 = 0"
    by (meson dvd_trans mod_eq_0_iff_dvd)+
  have "365 * y + y div 4 - y div 100 + y div 400 =
      365 * (y - 1) + (y - 1) div 4 - (y - 1) div 100 + (y - 1) div 400 +
      (if y mod 4 = 0 \<and> (\<not> y mod 100 = 0 \<or> y mod 400 = 0) then 366 else 365)"
    by (rule year_length_arith) (simp_all only: div_pred_diff zero_less_numeral m)
  then show ?thesis by (simp only: days_before_year_def leap_def add_diff_cancel_right')
qed

lemma days_before_next_month:
  "1 \<le> m \<Longrightarrow> days_before_month y (Suc m) = days_before_month y m + int (days_in y m)"
  by (simp add: days_before_month_def)

lemma days_before_month_1 [simp]: "days_before_month y (Suc 0) = 0"
  by (simp add: days_before_month_def)

lemma days_of_year: "days_before_month y 13 = (if leap y then 366 else 365)"
proof -
  have "[1..<13] = [1, 2, 3, 4, 5, 6, 7, 8, 9, 10, 11, 12::nat]" by (simp add: upt_rec)
  then show ?thesis by (simp add: days_before_month_def days_in_def)
qed

lemma mod7_solve: "(n + int (nat ((w - n - 1) mod 7) + 1)) mod 7 = w mod 7" for n w :: int
proof -
  have e: "n + int (nat ((w - n - 1) mod 7) + 1) = n + 1 + (w - n - 1) mod 7" by simp
  have "(n + 1 + (w - n - 1) mod 7) mod 7 = (n + 1 + (w - n - 1)) mod 7"
    by (rule mod_add_right_eq)
  also have "n + 1 + (w - n - 1) = w" by simp
  finally show ?thesis unfolding e .
qed

text \<open>Every weekday occurs among the first seven days of a month.\<close>

lemma weekday_in_first_week:
  assumes "w < 7"
  shows "\<exists>d. 1 \<le> d \<and> d \<le> 7 \<and> weekday y m d = w"
proof -
  define n where "n = days_before_year y + days_before_month y m"
  define d where "d = nat ((int w - n - 1) mod 7) + 1"
  have "(int w - n - 1) mod 7 < 7" by simp
  then have "1 \<le> d \<and> d \<le> 7" unfolding d_def by linarith
  moreover have "(n + int d) mod 7 = int w" using assms mod7_solve [of n "int w"] by (simp add: d_def)
  then have "weekday y m d = w" by (simp add: weekday_def n_def)
  ultimately show ?thesis by blast
qed

text \<open>A leap year comes within eight years.\<close>

lemma leap_within_eight: "\<exists>y'. y < y' \<and> y' \<le> y + 8 \<and> leap y'"
proof -
  define k where "k = 4 * (y div 4 + 1)"
  have k: "y < k" "k \<le> y + 4" "k mod 4 = 0" unfolding k_def by presburger+
  show ?thesis
  proof (cases "leap k")
    case True
    with k show ?thesis by (intro exI [of _ k]) simp
  next
    case False
    with k(3) have "k mod 100 = 0" by (simp add: leap_def)
    then have "(k + 4) mod 100 = 4" using mod_add_left_eq [of k 100 4] by simp
    moreover have "(k + 4) mod 4 = 0" using k(3) by simp
    ultimately have "leap (k + 4)" by (simp add: leap_def)
    with k show ?thesis by (intro exI [of _ "k + 4"]) simp
  qed
qed

section \<open>Moving forward\<close>

definition start_of_next_month :: "civil \<Rightarrow> civil" where
  "start_of_next_month t =
     (if mon t + 1 > 12 then Civil (yr t + 1) 1 1 0 0 else Civil (yr t) (mon t + 1) 1 0 0)"

text \<open>
  \<open>AddDate(0, 0, 1)\<close> on midnight, \<open>Add(time.Hour)\<close> on a full hour and
  \<open>Add(time.Minute)\<close> on a full minute: the field goes up by one, with the carry.
\<close>

definition start_of_next_day :: "civil \<Rightarrow> civil" where
  "start_of_next_day t =
     (if dy t + 1 > days_in (yr t) (mon t) then start_of_next_month t
      else Civil (yr t) (mon t) (dy t + 1) 0 0)"

definition start_of_next_hour :: "civil \<Rightarrow> civil" where
  "start_of_next_hour t =
     (if hr t + 1 > 23 then start_of_next_day t
      else Civil (yr t) (mon t) (dy t) (hr t + 1) 0)"

definition add_minute :: "civil \<Rightarrow> civil" where
  "add_minute t =
     (if mi t + 1 > 59 then start_of_next_hour t
      else Civil (yr t) (mon t) (dy t) (hr t) (mi t + 1))"

lemmas forward_defs = start_of_next_month_def start_of_next_day_def start_of_next_hour_def add_minute_def

lemma days_in_pos: "28 \<le> days_in y m" "days_in y m \<le> 31"
  by (auto simp: days_in_def)

lemma forward_valid:
  assumes "valid_civil t"
  shows "valid_civil (start_of_next_month t)" "valid_civil (start_of_next_day t)"
    "valid_civil (start_of_next_hour t)" "valid_civil (add_minute t)"
  using assms days_in_pos(1) [of "yr t" "mon t + 1"] days_in_pos(1) [of "yr t + 1" 1]
  by (auto simp: valid_civil_def forward_defs)

lemma forward_later:
  "t < start_of_next_month t" "t < start_of_next_day t" "t < start_of_next_hour t" "t < add_minute t"
  by (auto simp: civil_less_iff forward_defs)

text \<open>Nothing valid lies between the clock and where it is moved, except in the unit skipped.\<close>

lemma le_fields:
  assumes "t \<le> u"
  shows "yr t < yr u \<or> yr t = yr u \<and> mon t \<le> mon u"
    and "yr t = yr u \<Longrightarrow> mon t = mon u \<Longrightarrow> dy t \<le> dy u"
    and "yr t = yr u \<Longrightarrow> mon t = mon u \<Longrightarrow> dy t = dy u \<Longrightarrow> hr t \<le> hr u"
    and "yr t = yr u \<Longrightarrow> mon t = mon u \<Longrightarrow> dy t = dy u \<Longrightarrow> hr t = hr u \<Longrightarrow> mi t \<le> mi u"
  using assms by (simp_all add: civil_le_iff, linarith+)

lemma skip_month:
  assumes "valid_civil t" "valid_civil u" "t \<le> u" "u < start_of_next_month t"
  shows "yr u = yr t \<and> mon u = mon t"
proof -
  have v: "1 \<le> mon t" "mon t \<le> 12" "1 \<le> mon u" "mon u \<le> 12" "1 \<le> dy u"
    using assms(1,2) by (simp_all add: valid_civil_def)
  have "yr u < yr t \<or> yr u = yr t \<and> mon u \<le> mon t"
  proof (cases "mon t + 1 > 12")
    case True
    with assms(4) v show ?thesis by (simp add: civil_less_iff start_of_next_month_def) linarith
  next
    case False
    with assms(4) v show ?thesis by (simp add: civil_less_iff start_of_next_month_def) linarith
  qed
  with le_fields(1) [OF assms(3)] show ?thesis by linarith
qed

lemma skip_day:
  assumes "valid_civil t" "valid_civil u" "t \<le> u" "u < start_of_next_day t"
  shows "yr u = yr t \<and> mon u = mon t \<and> dy u = dy t"
proof (cases "dy t + 1 > days_in (yr t) (mon t)")
  case True
  then have "u < start_of_next_month t" using assms(4) by (simp add: start_of_next_day_def)
  with assms have ym: "yr u = yr t \<and> mon u = mon t" by (intro skip_month)
  moreover have "dy u \<le> days_in (yr t) (mon t)" "dy t \<le> days_in (yr t) (mon t)"
    using assms(1,2) ym by (simp_all add: valid_civil_def)
  ultimately show ?thesis using True le_fields(2) [OF assms(3)] by simp
next
  case False
  have "u < Civil (yr t) (mon t) (dy t + 1) 0 0" using False assms(4) by (simp add: start_of_next_day_def)
  then have less: "yr u < yr t \<or> yr u = yr t \<and> (mon u < mon t \<or> mon u = mon t \<and> dy u \<le> dy t)"
    by (simp add: civil_less_iff) linarith
  with le_fields(1) [OF assms(3)] have y: "yr u = yr t" by linarith
  with le_fields(1) [OF assms(3)] less have m: "mon u = mon t" by linarith
  from y m less le_fields(2) [OF assms(3)] show ?thesis by simp
qed

lemma skip_hour:
  assumes "valid_civil t" "valid_civil u" "t \<le> u" "u < start_of_next_hour t"
  shows "yr u = yr t \<and> mon u = mon t \<and> dy u = dy t \<and> hr u = hr t"
proof (cases "hr t + 1 > 23")
  case True
  then have "u < start_of_next_day t" using assms(4) by (simp add: start_of_next_hour_def)
  with assms have d: "yr u = yr t \<and> mon u = mon t \<and> dy u = dy t" by (intro skip_day)
  moreover have "hr u < 24" using assms(2) by (simp add: valid_civil_def)
  ultimately show ?thesis using True le_fields(3) [OF assms(3)] by simp
next
  case False
  then have s: "start_of_next_hour t = Civil (yr t) (mon t) (dy t) (hr t + 1) 0"
    by (simp add: start_of_next_hour_def)
  have "start_of_next_hour t \<le> start_of_next_day t"
    unfolding s by (auto simp: civil_le_iff start_of_next_day_def start_of_next_month_def)
  with assms have d: "yr u = yr t \<and> mon u = mon t \<and> dy u = dy t" by (intro skip_day) simp_all
  with assms(4) have "hr u \<le> hr t" by (simp add: s civil_less_iff)
  with d le_fields(3) [OF assms(3)] show ?thesis by simp
qed

lemma skip_minute:
  assumes "valid_civil t" "valid_civil u" "t \<le> u" "u < add_minute t"
  shows "u = t"
proof -
  have "add_minute t \<le> start_of_next_hour t"
    by (auto simp: civil_le_iff add_minute_def start_of_next_hour_def start_of_next_day_def
        start_of_next_month_def)
  with assms have h: "yr u = yr t \<and> mon u = mon t \<and> dy u = dy t \<and> hr u = hr t"
    by (intro skip_hour) simp_all
  have "mi u \<le> mi t"
  proof (cases "mi t + 1 > 59")
    case True
    with assms(2) show ?thesis by (simp add: valid_civil_def)
  next
    case False
    with assms(4) h show ?thesis by (simp add: civil_less_iff add_minute_def)
  qed
  with h le_fields(4) [OF assms(3)] show ?thesis by (simp add: civil.expand)
qed

section \<open>The weekday advances with the day\<close>

definition weekday_of :: "civil \<Rightarrow> nat" where
  "weekday_of t = weekday (yr t) (mon t) (dy t)"

lemma weekday_step:
  "days_before_year y' + days_before_month y' m' + int d' =
     days_before_year y + days_before_month y m + int d + 1 \<Longrightarrow>
   weekday y' m' d' = (weekday y m d + 1) mod 7"
  unfolding weekday_def by (simp only: nat_mod7_Suc)

lemma weekday_start_of_next_day:
  assumes "valid_civil t"
  shows "weekday_of (start_of_next_day t) = (weekday_of t + 1) mod 7"
proof (cases "dy t + 1 > days_in (yr t) (mon t)")
  case False
  then show ?thesis
    by (simp add: weekday_of_def start_of_next_day_def weekday_next_day)
next
  case True
  with assms have d: "dy t = days_in (yr t) (mon t)" and m: "1 \<le> mon t" "mon t \<le> 12"
    by (simp_all add: valid_civil_def)
  show ?thesis
  proof (cases "mon t = 12")
    case True
    have "days_before_month (yr t) 13 = days_before_month (yr t) 12 + int (days_in (yr t) 12)"
      using days_before_next_month [of 12 "yr t"] by simp
    with True d show ?thesis
      using weekday_step [of "yr t + 1" 1 1 "yr t" 12 "days_in (yr t) 12"]
      by (simp add: weekday_of_def start_of_next_day_def start_of_next_month_def
          days_before_next_year days_of_year days_before_month_1 split: if_splits)
  next
    case False
    with m d days_before_next_month [OF m(1), of "yr t"] show ?thesis
      using weekday_step [of "yr t" "mon t + 1" 1 "yr t" "mon t" "days_in (yr t) (mon t)"]
      by (simp add: weekday_of_def start_of_next_day_def start_of_next_month_def)
  qed
qed

end
