(* ===== verification/Cron.thy ===== *)
theory Cron
  imports Calendar GoStrings
begin

text \<open>
  \<open>internal/schedules/cron.go\<close>: the parser of five-field cron expressions and the search
  for the next fire time on a clock that is never shifted: times are civil minutes (Calendar).
  \<open>CronZone\<close> holds the search in a location whose offset changes, which is this one wherever
  the offset is constant.
\<close>

section \<open>Parsing\<close>

datatype cron_field = FMinute | FHour | FDom | FMonth | FDow

datatype cron_reason =
    EmptyTerm string
  | InvalidStep string
  | InvalidValue string
  | OutOfRange int int int
  | EmptyRange int int
  | StepNotPositive

text \<open>\<open>ErrInvalidCron\<close>, wrapped with what went wrong.\<close>

datatype cron_error =
    WrongFieldCount nat
  | BadField cron_field cron_reason
  | NoMatch

record cron =
  cexpr :: string
  minutes :: "bool list"
  hours :: "bool list"
  doms :: "bool list"
  months :: "bool list"
  dows :: "bool list"
  dom_starred :: bool
  dow_starred :: bool

definition month_names :: "(string \<times> int) list" where
  "month_names =
     [(''jan'', 1), (''feb'', 2), (''mar'', 3), (''apr'', 4), (''may'', 5), (''jun'', 6),
      (''jul'', 7), (''aug'', 8), (''sep'', 9), (''oct'', 10), (''nov'', 11), (''dec'', 12)]"

definition dow_names :: "(string \<times> int) list" where
  "dow_names =
     [(''sun'', 0), (''mon'', 1), (''tue'', 2), (''wed'', 3), (''thu'', 4), (''fri'', 5), (''sat'', 6)]"

text \<open>\<open>names\<close> is None for the nil map.\<close>

definition is_dow :: "int \<Rightarrow> (string \<times> int) list option \<Rightarrow> bool" where
  "is_dow max_val names = (max_val = 6 \<and> names \<noteq> None)"

definition parse_number :: "string \<Rightarrow> int \<Rightarrow> int \<Rightarrow> (string \<times> int) list option \<Rightarrow> (cron_reason, int) result" where
  "parse_number s min_val max_val names =
     (case atoi s of
        None \<Rightarrow> Inl (InvalidValue s)
      | Some v \<Rightarrow>
          if is_dow max_val names \<and> v = 7 then Inr v
          else if v < min_val \<or> v > max_val then Inl (OutOfRange v min_val max_val)
          else Inr v)"

definition parse_atom :: "string \<Rightarrow> int \<Rightarrow> int \<Rightarrow> (string \<times> int) list option \<Rightarrow> (cron_reason, int) result" where
  "parse_atom s0 min_val max_val names =
     (let s = trim_space s0
      in case names of
           None \<Rightarrow> parse_number s min_val max_val names
         | Some tbl \<Rightarrow>
             (case map_of tbl (to_lower s) of
                Some v \<Rightarrow> Inr v
              | None \<Rightarrow> parse_number s min_val max_val names))"

text \<open>
  The loop \<open>for v := lo; v <= hi; v += step\<close>, on 64-bit integers: the addition wraps
  around. Arguments that no 64-bit loop with a positive step has (the caller has refused
  them) get a result of their own, which makes the function total.
\<close>

definition stamp_index :: "int \<Rightarrow> (string \<times> int) list option \<Rightarrow> int \<Rightarrow> int" where
  "stamp_index max_val names v = (if is_dow max_val names \<and> v = 7 then 0 else v)"

function stamp :: "int \<Rightarrow> int \<Rightarrow> int \<Rightarrow> int \<Rightarrow> int \<Rightarrow> (string \<times> int) list option \<Rightarrow> bool list
    \<Rightarrow> (cron_reason, bool list) result" where
  "stamp v hi step min_val max_val names bits =
     (if v > hi then Inr bits
      else
        (let idx = stamp_index max_val names v
         in if idx < 0 \<or> idx \<ge> int (length bits) then Inl (OutOfRange idx min_val max_val)
            else if step < 1 \<or> step > max_int64 \<or> v > max_int64 then Inl StepNotPositive
            else stamp (wrap64 (v + step)) hi step min_val max_val names (bits[nat idx := True])))"
  by pat_completeness auto

lemma wrap64_step:
  assumes "0 \<le> v" "v \<le> max_int64" "1 \<le> step" "step \<le> max_int64"
  shows "wrap64 (v + step) < 0 \<or> wrap64 (v + step) = v + step"
proof (cases "v + step \<le> max_int64")
  case True
  with assms show ?thesis by (simp add: wrap64_id)
next
  case False
  define x where "x = v + step + 9223372036854775808 - 18446744073709551616"
  have "0 \<le> x" "x < 18446744073709551616" using False assms by (simp_all add: x_def)
  then have "(x + 18446744073709551616) mod 18446744073709551616 = x" by simp
  then have "(v + step + 9223372036854775808) mod 18446744073709551616 = x"
    by (simp add: x_def add.commute)
  with assms x_def show ?thesis unfolding wrap64_def by linarith
qed

termination stamp
proof (relation "measure (\<lambda>(v, hi, _). if v < 0 then 0 else nat (hi + 1 - v))", goal_cases)
  case (2 v hi step min_val max_val names bits idx)
  then have "0 \<le> v" by (auto simp: stamp_index_def is_dow_def split: if_splits)
  with 2 wrap64_step [of v step] show ?case by auto
qed simp

declare stamp.simps [simp del]

text \<open>One comma-separated term: its range, its step, and whether it is a star.\<close>

definition parse_step :: "string \<Rightarrow> (cron_reason, string \<times> int) result" where
  "parse_step part =
     (case index_byte (CHR ''/'') part of
        None \<Rightarrow> Inr (part, 1)
      | Some i \<Rightarrow>
          (let step_str = drop (i + 1) part
           in case atoi step_str of
                None \<Rightarrow> Inl (InvalidStep step_str)
              | Some n \<Rightarrow> if n < 1 then Inl (InvalidStep step_str) else Inr (take i part, n)))"

definition parse_range :: "string \<Rightarrow> int \<Rightarrow> int \<Rightarrow> (string \<times> int) list option
    \<Rightarrow> (cron_reason, int \<times> int \<times> bool) result" where
  "parse_range range_part min_val max_val names =
     (if range_part = ''*'' then Inr (min_val, max_val, True)
      else
        (case index_byte (CHR ''-'') range_part of
           Some i \<Rightarrow>
             rbind (parse_atom (take i range_part) min_val max_val names)
               (\<lambda>a. rbind (parse_atom (drop (i + 1) range_part) min_val max_val names)
                  (\<lambda>b. if a > b then Inl (EmptyRange a b) else Inr (a, b, False)))
         | None \<Rightarrow>
             rbind (parse_atom range_part min_val max_val names) (\<lambda>n. Inr (n, n, False))))"

definition parse_term :: "string \<Rightarrow> int \<Rightarrow> int \<Rightarrow> (string \<times> int) list option \<Rightarrow> string
    \<Rightarrow> bool \<times> bool list \<Rightarrow> (cron_reason, bool \<times> bool list) result" where
  "parse_term expr min_val max_val names part0 st =
     (let part = trim_space part0
      in if part = [] then Inl (EmptyTerm expr)
         else rbind (parse_step part)
           (\<lambda>(range_part, step). rbind (parse_range range_part min_val max_val names)
              (\<lambda>(lo, hi, star). rbind (stamp lo hi step min_val max_val names (snd st))
                 (\<lambda>bits. Inr (fst st \<or> star, bits)))))"

definition parse_field_starred :: "string \<Rightarrow> int \<Rightarrow> int \<Rightarrow> (string \<times> int) list option \<Rightarrow> bool list
    \<Rightarrow> (cron_reason, bool \<times> bool list) result" where
  "parse_field_starred expr min_val max_val names bits =
     rfold (parse_term expr min_val max_val names) (split_on (CHR '','') expr) (False, bits)"

definition parse_field :: "string \<Rightarrow> int \<Rightarrow> int \<Rightarrow> (string \<times> int) list option \<Rightarrow> bool list
    \<Rightarrow> (cron_reason, bool list) result" where
  "parse_field expr min_val max_val names bits =
     rbind (parse_field_starred expr min_val max_val names bits) (\<lambda>(_, bits'). Inr bits')"

definition zeros :: "nat \<Rightarrow> bool list" where
  "zeros n = replicate n False"

definition parse_cron :: "string \<Rightarrow> (cron_error, cron) result" where
  "parse_cron expr =
     (case str_fields (trim_space expr) of
        [f0, f1, f2, f3, f4] \<Rightarrow>
          rbind (map_err (BadField FMinute) (parse_field f0 0 59 None (zeros 60)))
          (\<lambda>mi. rbind (map_err (BadField FHour) (parse_field f1 0 23 None (zeros 24)))
          (\<lambda>ho. rbind (map_err (BadField FDom) (parse_field_starred f2 1 31 None (zeros 32)))
          (\<lambda>(dom_star, dm). rbind (map_err (BadField FMonth) (parse_field f3 1 12 (Some month_names) (zeros 13)))
          (\<lambda>mo. rbind (map_err (BadField FDow) (parse_field_starred f4 0 6 (Some dow_names) (zeros 7)))
          (\<lambda>(dow_star, dw).
             Inr \<lparr>cexpr = trim_space expr, minutes = mi, hours = ho, doms = dm, months = mo,
                  dows = dw, dom_starred = dom_star, dow_starred = dow_star\<rparr>)))))
      | fs \<Rightarrow> Inl (WrongFieldCount (length fs)))"

section \<open>The search for the next fire time\<close>

definition matches_day :: "cron \<Rightarrow> civil \<Rightarrow> bool" where
  "matches_day c t =
     (let dom = doms c ! dy t;
          dow = dows c ! weekday_of t
      in if dom_starred c \<and> dow_starred c then True
         else if dom_starred c then dow
         else if dow_starred c then dom
         else dom \<or> dow)"

text \<open>The loop, with the iterations it has left.\<close>

fun cron_search :: "cron \<Rightarrow> nat \<Rightarrow> civil \<Rightarrow> civil option" where
  "cron_search c 0 t = None"
| "cron_search c (Suc n) t =
     (if \<not> months c ! mon t then cron_search c n (start_of_next_month t)
      else if \<not> matches_day c t then cron_search c n (start_of_next_day t)
      else if \<not> hours c ! hr t then cron_search c n (start_of_next_hour t)
      else if \<not> minutes c ! mi t then cron_search c n (add_minute t)
      else Some t)"

definition max_iterations :: nat where
  "max_iterations = 4 * 366 * 24"

text \<open>
  The search after a minute: it begins at the following one.
\<close>

definition civil_next :: "cron \<Rightarrow> civil \<Rightarrow> (cron_error, civil) result" where
  "civil_next c after =
     (case cron_search c max_iterations (add_minute after) of
        None \<Rightarrow> Inl NoMatch
      | Some t \<Rightarrow> Inr t)"

section \<open>What a parsed field holds\<close>

text \<open>
  The exact effect of the stamping loop, when it succeeds: the bits of the arithmetic
  progression from \<open>v\<close> to \<open>hi\<close> are set, and no other changes.
\<close>

lemma stamp_step:
  assumes "stamp v hi step mn mx names bits = Inr bits'" and "v \<le> hi"
  shows "0 \<le> v" and "nat (stamp_index mx names v) < length bits" and "0 \<le> stamp_index mx names v"
    and "stamp (v + step) hi step mn mx names (bits[nat (stamp_index mx names v) := True]) = Inr bits'"
proof -
  let ?idx = "stamp_index mx names v"
  from assms have g: "0 \<le> ?idx" "?idx < int (length bits)" "1 \<le> step" "step \<le> max_int64" "v \<le> max_int64"
    and s: "stamp (wrap64 (v + step)) hi step mn mx names (bits[nat ?idx := True]) = Inr bits'"
    by (subst (asm) stamp.simps, simp add: Let_def split: if_splits)+
  from g(1) show v: "0 \<le> v" by (auto simp: stamp_index_def is_dow_def split: if_splits)
  from g show "nat ?idx < length bits" "0 \<le> ?idx" by (simp_all add: nat_less_iff)
  have "\<not> wrap64 (v + step) < 0"
  proof
    assume neg: "wrap64 (v + step) < 0"
    with v assms(2) s show False
      by (subst (asm) stamp.simps) (auto simp: Let_def stamp_index_def is_dow_def split: if_splits)
  qed
  with wrap64_step [of v step] v g s
  show "stamp (v + step) hi step mn mx names (bits[nat ?idx := True]) = Inr bits'" by auto
qed

lemma stamp_done: "hi < v \<Longrightarrow> stamp v hi step mn mx names bits = Inr bits"
  by (subst stamp.simps) simp

lemma stamp_spec:
  assumes "stamp v hi step mn mx names bits = Inr bits'" and "1 \<le> step"
  shows "length bits' = length bits \<and>
    (\<forall>i<length bits. bits' ! i \<longleftrightarrow> bits ! i \<or>
      (\<exists>k::nat. v + int k * step \<le> hi \<and> stamp_index mx names (v + int k * step) = int i))"
  using assms
proof (induction "nat (hi + 1 - v)" arbitrary: v bits rule: less_induct)
  case less
  show ?case
  proof (cases "hi < v")
    case True
    with less.prems have "bits' = bits" by (simp add: stamp_done)
    moreover have "\<not> v + int k * step \<le> hi" for k :: nat
      using True less.prems(2) by (smt (verit) mult_nonneg_nonneg of_nat_0_le_iff)
    ultimately show ?thesis by simp
  next
    case False
    then have le: "v \<le> hi" by simp
    note st = stamp_step [OF less.prems(1) le]
    let ?idx = "stamp_index mx names v"
    have "nat (hi + 1 - (v + step)) < nat (hi + 1 - v)" using le less.prems(2) by linarith
    from less.hyps [OF this st(4) less.prems(2)]
    have IH: "length bits' = length bits" "\<forall>i<length bits. bits' ! i \<longleftrightarrow> bits[nat ?idx := True] ! i \<or>
        (\<exists>k::nat. (v + step) + int k * step \<le> hi \<and> stamp_index mx names ((v + step) + int k * step) = int i)"
      by simp_all
    have shift: "(\<exists>k::nat. Q (v + int k * step)) \<longleftrightarrow> Q v \<or> (\<exists>k::nat. Q ((v + step) + int k * step))" for Q
    proof
      assume "\<exists>k::nat. Q (v + int k * step)"
      then obtain k :: nat where k: "Q (v + int k * step)" ..
      show "Q v \<or> (\<exists>k::nat. Q ((v + step) + int k * step))"
      proof (cases k)
        case (Suc j)
        with k have "Q ((v + step) + int j * step)" by (simp add: algebra_simps)
        then show ?thesis by blast
      qed (use k in simp)
    next
      assume "Q v \<or> (\<exists>k::nat. Q ((v + step) + int k * step))"
      then show "\<exists>k::nat. Q (v + int k * step)"
      proof
        assume "Q v" then show ?thesis by (intro exI [of _ 0]) simp
      next
        assume "\<exists>k::nat. Q ((v + step) + int k * step)"
        then obtain k :: nat where "Q ((v + step) + int k * step)" ..
        then show ?thesis by (intro exI [of _ "Suc k"]) (simp add: algebra_simps)
      qed
    qed
    have "bits' ! i \<longleftrightarrow> bits ! i \<or>
        (\<exists>k::nat. v + int k * step \<le> hi \<and> stamp_index mx names (v + int k * step) = int i)"
      if i: "i < length bits" for i
      using IH(2) i le st(2,3) shift [of "\<lambda>x. x \<le> hi \<and> stamp_index mx names x = int i"]
      by (auto simp: nth_list_update)
    with IH(1) show ?thesis by simp
  qed
qed

text \<open>With a positive step the loop never runs into the case that no program has.\<close>

lemma stamp_never_stuck:
  "1 \<le> step \<Longrightarrow> step \<le> max_int64 \<Longrightarrow> v \<le> max_int64 \<Longrightarrow>
   stamp v hi step mn mx names bits \<noteq> Inl StepNotPositive"
proof (induction v hi step mn mx names bits rule: stamp.induct)
  case (1 v hi step mn mx names bits)
  with wrap64_range [of "v + step"] show ?case by (subst stamp.simps) (auto simp: Let_def)
qed

definition table_in_range :: "int \<Rightarrow> int \<Rightarrow> (string \<times> int) list option \<Rightarrow> bool" where
  "table_in_range mn mx names =
     (case names of None \<Rightarrow> True | Some tbl \<Rightarrow> \<forall>(_, v)\<in>set tbl. mn \<le> v \<and> v \<le> mx)"

lemma parse_number_range:
  "parse_number s mn mx names = Inr v \<Longrightarrow> mn \<le> v \<and> v \<le> mx \<or> is_dow mx names \<and> v = 7"
  by (auto simp: parse_number_def split: option.splits if_splits)

lemma parse_atom_range:
  "parse_atom s mn mx names = Inr v \<Longrightarrow> table_in_range mn mx names \<Longrightarrow>
   mn \<le> v \<and> v \<le> mx \<or> is_dow mx names \<and> v = 7"
  by (auto simp: parse_atom_def Let_def table_in_range_def split: option.splits
      dest: parse_number_range dest!: map_of_SomeD)

lemma parse_step_pos: "parse_step part = Inr (r, step) \<Longrightarrow> 1 \<le> step \<and> step \<le> max_int64"
  by (auto simp: parse_step_def Let_def split: option.splits if_splits dest: atoi_range)

lemma parse_range_bounds:
  assumes "parse_range r mn mx names = Inr (lo, hi, star)"
    and "table_in_range mn mx names" and "mn \<le> mx" and "mx = 6 \<longrightarrow> mn = 0"
  shows "lo \<le> hi" and "mn \<le> lo" and "hi \<le> mx \<or> is_dow mx names \<and> hi \<le> 7"
  using assms
  by (auto simp: parse_range_def is_dow_def split: if_splits option.splits
      dest!: parse_atom_range [of _ mn mx names])

text \<open>The state of the loop over the terms: only allowed bits are set.\<close>

definition bits_ok :: "int \<Rightarrow> int \<Rightarrow> bool list \<Rightarrow> bool" where
  "bits_ok mn mx bits = (\<forall>i<length bits. bits ! i \<longrightarrow> mn \<le> int i \<and> int i \<le> mx)"

lemma parse_term_bits:
  assumes ok: "parse_term e mn mx names part (s, bits) = Inr (s', bits')"
    and tbl: "table_in_range mn mx names" and le: "mn \<le> mx" "0 \<le> mn" "mx = 6 \<longrightarrow> mn = 0"
    and b: "bits_ok mn mx bits"
  shows "length bits' = length bits \<and> bits_ok mn mx bits' \<and> (\<exists>i<length bits. bits' ! i)"
proof -
  from ok obtain r step lo hi star where
    step: "parse_step (trim_space part) = Inr (r, step)" and
    range: "parse_range r mn mx names = Inr (lo, hi, star)" and
    st: "stamp lo hi step mn mx names bits = Inr bits'"
    unfolding parse_term_def Let_def by (cases "trim_space part = []") (simp, force)
  note rg = parse_range_bounds [OF range tbl le(1,3)]
  have pos: "1 \<le> step" using parse_step_pos [OF step] by simp
  note sp = stamp_spec [OF st pos]
  have idx: "mn \<le> stamp_index mx names x \<and> stamp_index mx names x \<le> mx" if "lo \<le> x" "x \<le> hi" for x
    using that rg le by (auto simp: stamp_index_def is_dow_def)
  have "bits_ok mn mx bits'"
    unfolding bits_ok_def
  proof (intro allI impI)
    fix i assume i: "i < length bits'" "bits' ! i"
    with sp consider "bits ! i" | k :: nat where "lo + int k * step \<le> hi"
        "stamp_index mx names (lo + int k * step) = int i" by auto
    then show "mn \<le> int i \<and> int i \<le> mx"
    proof cases
      case 1
      with b i sp show ?thesis by (simp add: bits_ok_def)
    next
      case 2
      have "lo \<le> lo + int k * step" using pos by simp
      with idx 2 show ?thesis by metis
    qed
  qed
  moreover have "bits' ! nat (stamp_index mx names lo)"
    using sp stamp_step(2,3) [OF st rg(1)] rg(1) by (auto intro!: exI [of _ "0::nat"])
  ultimately show ?thesis using sp stamp_step(2) [OF st rg(1)] by blast
qed

lemma parse_field_starred_bits:
  assumes ok: "parse_field_starred e mn mx names (zeros n) = Inr (s, bits)"
    and tbl: "table_in_range mn mx names" and le: "mn \<le> mx" "0 \<le> mn" "mx = 6 \<longrightarrow> mn = 0"
  shows "length bits = n \<and> bits_ok mn mx bits \<and> (\<exists>i<n. bits ! i)"
proof -
  let ?P = "\<lambda>(s::bool, bits). length bits = n \<and> bits_ok mn mx bits"
  let ?Q = "\<lambda>(s::bool, bits). length bits = n \<and> bits_ok mn mx bits \<and> (\<exists>i<n. bits ! i)"
  have step: "?Q st'" if "?P st" "parse_term e mn mx names part st = Inr st'" for part st st'
    using that parse_term_bits [OF _ tbl le, of e part "fst st" "snd st" "fst st'" "snd st'"]
    by (cases st; cases st') auto
  obtain p ps where parts: "split_on (CHR '','') e = p # ps" by (metis neq_Nil_conv split_on_nonempty)
  with ok obtain st where first: "parse_term e mn mx names p (False, zeros n) = Inr st"
    and rest: "rfold (parse_term e mn mx names) ps st = Inr (s, bits)"
    by (auto simp: parse_field_starred_def)
  have "?Q st" by (rule step [OF _ first]) (simp add: zeros_def bits_ok_def)
  with rest have "?Q (s, bits)"
    by (rule rfold_invariant) (rule step, auto)
  then show ?thesis by simp
qed

text \<open>What every parsed schedule satisfies.\<close>

definition wf_cron :: "cron \<Rightarrow> bool" where
  "wf_cron c =
     (length (minutes c) = 60 \<and> length (hours c) = 24 \<and> length (doms c) = 32 \<and>
      length (months c) = 13 \<and> length (dows c) = 7 \<and>
      (\<exists>i<60. minutes c ! i) \<and> (\<exists>i<24. hours c ! i) \<and> (\<exists>i<7. dows c ! i) \<and>
      (\<exists>i. 1 \<le> i \<and> i \<le> 31 \<and> doms c ! i) \<and> (\<exists>i. 1 \<le> i \<and> i \<le> 12 \<and> months c ! i))"

lemma month_table: "table_in_range 1 12 (Some month_names)"
  by (simp add: table_in_range_def month_names_def)

lemma dow_table: "table_in_range 0 6 (Some dow_names)"
  by (simp add: table_in_range_def dow_names_def)

lemma parse_field_bits:
  assumes "parse_field e mn mx names (zeros n) = Inr bits"
    and "table_in_range mn mx names" "mn \<le> mx" "0 \<le> mn" "mx = 6 \<longrightarrow> mn = 0"
  shows "length bits = n \<and> bits_ok mn mx bits \<and> (\<exists>i<n. bits ! i)"
  using assms parse_field_starred_bits by (fastforce simp: parse_field_def)

lemma bits_ok_from_one: "bits_ok 1 m bits \<Longrightarrow> length bits = n \<Longrightarrow> \<exists>i<n. bits ! i \<Longrightarrow>
    \<exists>i. 1 \<le> i \<and> int i \<le> m \<and> bits ! i"
  by (auto simp: bits_ok_def)

lemma parse_cron_wf: "parse_cron e = Inr c \<Longrightarrow> wf_cron c"
proof -
  assume "parse_cron e = Inr c"
  then obtain f0 f1 f2 f3 f4 where fs: "str_fields (trim_space e) = [f0, f1, f2, f3, f4]"
    by (auto simp: parse_cron_def split: list.splits)
  with \<open>parse_cron e = Inr c\<close>
  obtain mi ho ds dm mo ws dw where
    p: "parse_field f0 0 59 None (zeros 60) = Inr mi" "parse_field f1 0 23 None (zeros 24) = Inr ho"
      "parse_field_starred f2 1 31 None (zeros 32) = Inr (ds, dm)"
      "parse_field f3 1 12 (Some month_names) (zeros 13) = Inr mo"
      "parse_field_starred f4 0 6 (Some dow_names) (zeros 7) = Inr (ws, dw)" and
    c: "c = \<lparr>cexpr = trim_space e, minutes = mi, hours = ho, doms = dm, months = mo,
      dows = dw, dom_starred = ds, dow_starred = ws\<rparr>"
    by (auto simp: parse_cron_def)
  have none: "table_in_range a b None" for a b by (simp add: table_in_range_def)
  show ?thesis
    using parse_field_bits [OF p(1) none] parse_field_bits [OF p(2) none]
      parse_field_starred_bits [OF p(3) none] parse_field_bits [OF p(4) month_table]
      parse_field_starred_bits [OF p(5) dow_table]
      bits_ok_from_one [of 31 dm 32] bits_ok_from_one [of 12 mo 13]
    by (simp add: wf_cron_def c)
qed

section \<open>What the search finds\<close>

definition cron_matches :: "cron \<Rightarrow> civil \<Rightarrow> bool" where
  "cron_matches c t = (months c ! mon t \<and> matches_day c t \<and> hours c ! hr t \<and> minutes c ! mi t)"

lemma matches_day_cong:
  "yr u = yr t \<Longrightarrow> mon u = mon t \<Longrightarrow> dy u = dy t \<Longrightarrow> matches_day c u = matches_day c t"
  by (simp add: matches_day_def weekday_of_def)

text \<open>One iteration either stops at a match or moves to a later time past no match.\<close>

definition cron_advance :: "cron \<Rightarrow> civil \<Rightarrow> civil" where
  "cron_advance c t =
     (if \<not> months c ! mon t then start_of_next_month t
      else if \<not> matches_day c t then start_of_next_day t
      else if \<not> hours c ! hr t then start_of_next_hour t
      else add_minute t)"

lemma cron_search_Suc:
  "cron_search c (Suc n) t = (if cron_matches c t then Some t else cron_search c n (cron_advance c t))"
  by (simp add: cron_matches_def cron_advance_def)

declare cron_search.simps(2) [simp del]

lemma cron_advance_valid: "valid_civil t \<Longrightarrow> valid_civil (cron_advance c t)"
  by (simp add: cron_advance_def forward_valid)

lemma cron_advance_later: "t < cron_advance c t"
  by (simp add: cron_advance_def forward_later)

lemma cron_advance_skips:
  assumes "valid_civil t" "valid_civil w" "t \<le> w" "w < cron_advance c t" "\<not> cron_matches c t"
  shows "\<not> cron_matches c w"
proof
  assume m: "cron_matches c w"
  consider "\<not> months c ! mon t" | "months c ! mon t" "\<not> matches_day c t"
    | "months c ! mon t" "matches_day c t" "\<not> hours c ! hr t"
    | "months c ! mon t" "matches_day c t" "hours c ! hr t" by blast
  then show False
  proof cases
    case 1
    then have "w < start_of_next_month t" using assms(4) by (simp add: cron_advance_def)
    from skip_month [OF assms(1-3) this] 1 m show False by (simp add: cron_matches_def)
  next
    case 2
    then have "w < start_of_next_day t" using assms(4) by (simp add: cron_advance_def)
    from skip_day [OF assms(1-3) this] matches_day_cong [of w t c] 2 m show False
      by (simp add: cron_matches_def)
  next
    case 3
    then have "w < start_of_next_hour t" using assms(4) by (simp add: cron_advance_def)
    from skip_hour [OF assms(1-3) this] 3 m show False by (simp add: cron_matches_def)
  next
    case 4
    then have "w < add_minute t" using assms(4) by (simp add: cron_advance_def)
    from skip_minute [OF assms(1-3) this] m assms(5) show False by simp
  qed
qed

lemma cron_search_sound:
  "cron_search c n t = Some u \<Longrightarrow> valid_civil t \<Longrightarrow>
   valid_civil u \<and> t \<le> u \<and> cron_matches c u \<and>
   (\<forall>w. valid_civil w \<longrightarrow> t \<le> w \<longrightarrow> w < u \<longrightarrow> \<not> cron_matches c w)"
proof (induction n arbitrary: t)
  case (Suc n)
  show ?case
  proof (cases "cron_matches c t")
    case True
    with Suc.prems show ?thesis by (auto simp: cron_search_Suc)
  next
    case False
    let ?t = "cron_advance c t"
    from False Suc.prems have "cron_search c n ?t = Some u" by (simp add: cron_search_Suc)
    from Suc.IH [OF this cron_advance_valid [OF Suc.prems(2)]]
    have IH: "valid_civil u" "?t \<le> u" "cron_matches c u"
      "\<forall>w. valid_civil w \<longrightarrow> ?t \<le> w \<longrightarrow> w < u \<longrightarrow> \<not> cron_matches c w" by blast+
    moreover have "t \<le> u" using cron_advance_later [of t c] IH(2) by simp
    moreover have "\<not> cron_matches c w" if "valid_civil w" "t \<le> w" "w < u" for w
      using that IH(4) cron_advance_skips [OF Suc.prems(2) that(1,2) _ False]
      by (cases "w < ?t") (simp_all add: not_less)
    ultimately show ?thesis by blast
  qed
qed simp

lemma add_minute_le: "valid_civil t \<Longrightarrow> valid_civil w \<Longrightarrow> t < w \<Longrightarrow> add_minute t \<le> w"
  using skip_minute [of t w] by (metis leI less_le order.strict_implies_order)

lemma civil_next_sound:
  assumes "civil_next c after = Inr t" and "valid_civil after"
  shows "valid_civil t \<and> after < t \<and> cron_matches c t \<and>
    (\<forall>w. valid_civil w \<longrightarrow> after < w \<longrightarrow> w < t \<longrightarrow> \<not> cron_matches c w)"
proof -
  from assms(1) have s: "cron_search c max_iterations (add_minute after) = Some t"
    by (simp add: civil_next_def split: option.splits)
  note snd = cron_search_sound [OF s forward_valid(4) [OF assms(2)]]
  have "after < t" using forward_later(4) [of after] snd by (meson less_le_trans)
  with snd add_minute_le [OF assms(2)] show ?thesis by blast
qed

section \<open>When the search finds something\<close>

text \<open>
  A counter that goes down with every iteration and stays above the target: days count
  in months of 31, minutes within a day only while the day itself matches.
\<close>

definition day_key :: "civil \<Rightarrow> int" where
  "day_key t = (yr t * 12 + int (mon t)) * 31 + int (dy t)"

definition minute_of_day :: "civil \<Rightarrow> nat" where
  "minute_of_day t = hr t * 60 + mi t"

lemma day_key_next_month:
  "valid_civil t \<Longrightarrow> day_key t < day_key (start_of_next_month t)"
  using days_in_pos(2) [of "yr t" "mon t"]
  by (auto simp: day_key_def start_of_next_month_def valid_civil_def)

lemma day_key_next_day: "valid_civil t \<Longrightarrow> day_key t < day_key (start_of_next_day t)"
  using day_key_next_month [of t] by (auto simp: day_key_def start_of_next_day_def)

lemma midnight:
  "minute_of_day (start_of_next_month t) = 0" "minute_of_day (start_of_next_day t) = 0"
  by (simp_all add: minute_of_day_def start_of_next_month_def start_of_next_day_def)

lemma key_arith:
  fixes a b d e y z m n :: int
  shows "y + 1 \<le> z \<Longrightarrow> m \<le> 12 \<Longrightarrow> 1 \<le> n \<Longrightarrow> y * 12 + m + 1 \<le> z * 12 + n"
    and "a + 1 \<le> b \<Longrightarrow> d \<le> 31 \<Longrightarrow> 1 \<le> e \<Longrightarrow> a * 31 + d \<le> b * 31 + e"
    and "a * 31 + d = b * 31 + e \<Longrightarrow> 1 \<le> d \<Longrightarrow> d \<le> 31 \<Longrightarrow> 1 \<le> e \<Longrightarrow> e \<le> 31 \<Longrightarrow> a = b"
    and "y * 12 + m = z * 12 + n \<Longrightarrow> 1 \<le> m \<Longrightarrow> m \<le> 12 \<Longrightarrow> 1 \<le> n \<Longrightarrow> n \<le> 12 \<Longrightarrow> y = z"
  by linarith+

lemma day_key_mono: "valid_civil t \<Longrightarrow> valid_civil u \<Longrightarrow> t \<le> u \<Longrightarrow> day_key t \<le> day_key u"
proof -
  assume v: "valid_civil t" "valid_civil u" and le: "t \<le> u"
  from v have b: "1 \<le> int (mon t)" "int (mon t) \<le> 12" "1 \<le> int (mon u)" "int (mon u) \<le> 12"
      "int (dy t) \<le> 31" "1 \<le> int (dy u)"
    using days_in_pos(2) [of "yr t" "mon t"] by (simp_all add: valid_civil_def)
  from le_fields(1) [OF le] show ?thesis
  proof
    assume "yr t < yr u"
    then show ?thesis unfolding day_key_def using b by (intro key_arith(1,2)) simp_all
  next
    assume ym: "yr t = yr u \<and> mon t \<le> mon u"
    show ?thesis
    proof (cases "mon t = mon u")
      case True
      with ym le_fields(2) [OF le] show ?thesis by (simp add: day_key_def)
    next
      case False
      with ym b show ?thesis unfolding day_key_def by (intro key_arith(2)) simp_all
    qed
  qed
qed

lemma same_day_key:
  assumes "valid_civil t" "valid_civil u" "day_key t = day_key u"
  shows "yr t = yr u \<and> mon t = mon u \<and> dy t = dy u"
proof -
  have d: "1 \<le> int (dy t)" "int (dy t) \<le> 31" "1 \<le> int (dy u)" "int (dy u) \<le> 31"
      "1 \<le> int (mon t)" "int (mon t) \<le> 12" "1 \<le> int (mon u)" "int (mon u) \<le> 12"
    using assms(1,2) days_in_pos(2) [of "yr t" "mon t"] days_in_pos(2) [of "yr u" "mon u"]
    by (simp_all add: valid_civil_def)
  let ?a = "yr t * 12 + int (mon t)" and ?b = "yr u * 12 + int (mon u)"
  have e: "?a * 31 + int (dy t) = ?b * 31 + int (dy u)" using assms(3) by (simp add: day_key_def)
  then have ab: "?a = ?b" using d(1-4) by (rule key_arith(3))
  from e have dy: "int (dy t) = int (dy u)" unfolding ab by (rule add_left_imp_eq)
  from ab d(5-8) have yr: "yr t = yr u" by (rule key_arith(4))
  with ab have "int (mon t) = int (mon u)" by linarith
  with yr dy show ?thesis by simp
qed

text \<open>The rest of a day on which the day fields match: at most one iteration a minute.\<close>

lemma search_same_day:
  assumes "valid_civil t" "valid_civil u" "t \<le> u" "cron_matches c u" "day_key t = day_key u"
    and "minute_of_day u - minute_of_day t < n"
  shows "\<exists>w. cron_search c n t = Some w"
  using assms
proof (induction n arbitrary: t)
  case (Suc n)
  have same: "yr t = yr u" "mon t = mon u" "dy t = dy u"
    using same_day_key [OF Suc.prems(1,2,5)] by auto
  show ?case
  proof (cases "cron_matches c t")
    case False
    let ?t = "cron_advance c t"
    have day: "months c ! mon t" "matches_day c t"
      using Suc.prems(4) same matches_day_cong [of u t c] by (auto simp: cron_matches_def)
    have le: "?t \<le> u"
      using cron_advance_skips [OF Suc.prems(1,2,3) _ False] Suc.prems(4) by (auto simp: not_less [symmetric])
    have vt: "valid_civil ?t" using Suc.prems(1) by (rule cron_advance_valid)
    have dk: "day_key ?t = day_key u"
      using day_key_mono [OF vt Suc.prems(2) le] day_key_mono [OF Suc.prems(1) vt]
        less_imp_le [OF cron_advance_later [of t c]] Suc.prems(5) by simp
    have "minute_of_day t < minute_of_day ?t"
      using dk Suc.prems(1,5) day day_key_next_day [OF Suc.prems(1)]
      by (auto simp: cron_advance_def minute_of_day_def start_of_next_hour_def add_minute_def valid_civil_def
          split: if_splits)
    moreover have "minute_of_day ?t \<le> minute_of_day u"
      using le same_day_key [OF vt Suc.prems(2) dk] Suc.prems(2) vt
      by (auto simp: minute_of_day_def civil_le_iff valid_civil_def)
    ultimately have "minute_of_day u - minute_of_day ?t < n" using Suc.prems(6) by linarith
    from Suc.IH [OF vt Suc.prems(2) le Suc.prems(4) dk this] False show ?thesis
      by (simp add: cron_search_Suc)
  qed (simp add: cron_search_Suc)
qed simp

lemma minute_of_day_less: "valid_civil t \<Longrightarrow> minute_of_day t < 1440"
  by (auto simp: minute_of_day_def valid_civil_def)

text \<open>From midnight on, one iteration for each month or day that does not match.\<close>

lemma search_from_midnight:
  assumes "valid_civil t" "valid_civil u" "t \<le> u" "cron_matches c u" "minute_of_day t = 0"
    and wf: "\<exists>i<24. hours c ! i" "\<exists>i<60. minutes c ! i"
    and "nat (day_key u - day_key t) + 1440 \<le> n"
  shows "\<exists>w. cron_search c n t = Some w"
  using assms
proof (induction n arbitrary: t)
  case (Suc n)
  show ?case
  proof (cases "months c ! mon t \<and> matches_day c t")
    case True
    from wf obtain h m where hm: "h < 24" "hours c ! h" "m < 60" "minutes c ! m" by blast
    let ?w = "Civil (yr t) (mon t) (dy t) h m"
    have hr0: "hr t = 0" "mi t = 0" using Suc.prems(5) by (simp_all add: minute_of_day_def)
    have w: "valid_civil ?w" "t \<le> ?w" "day_key t = day_key ?w" "cron_matches c ?w"
      using Suc.prems(1) hm True hr0 matches_day_cong [of ?w t c]
      by (auto simp: valid_civil_def civil_le_iff day_key_def cron_matches_def)
    have "minute_of_day ?w - minute_of_day t < Suc n"
      using minute_of_day_less [OF w(1)] Suc.prems(8) by linarith
    from search_same_day [OF Suc.prems(1) w(1,2,4,3) this] show ?thesis .
  next
    case False
    then have nm: "\<not> cron_matches c t" by (auto simp: cron_matches_def)
    let ?t = "cron_advance c t"
    have le: "?t \<le> u"
      using cron_advance_skips [OF Suc.prems(1,2,3) _ nm] Suc.prems(4) by (auto simp: not_less [symmetric])
    have vt: "valid_civil ?t" using Suc.prems(1) by (rule cron_advance_valid)
    have mn: "minute_of_day ?t = 0" and dk: "day_key t < day_key ?t"
      using False midnight day_key_next_day day_key_next_month Suc.prems(1) by (auto simp: cron_advance_def)
    have "nat (day_key u - day_key ?t) + 1440 \<le> n"
      using dk day_key_mono [OF vt Suc.prems(2) le] Suc.prems(8) by linarith
    from Suc.IH [OF vt Suc.prems(2) le Suc.prems(4) mn wf this] nm show ?thesis
      by (simp add: cron_search_Suc)
  qed
qed simp

text \<open>From any time: first the rest of the day, then from a midnight on.\<close>

lemma search_finds:
  assumes "valid_civil t" "valid_civil u" "t \<le> u" "cron_matches c u"
    and wf: "\<exists>i<24. hours c ! i" "\<exists>i<60. minutes c ! i"
    and "nat (day_key u - day_key t) + 1440 + (1440 - minute_of_day t) \<le> n"
  shows "\<exists>w. cron_search c n t = Some w"
  using assms
proof (induction n arbitrary: t)
  case (Suc n)
  show ?case
  proof (cases "cron_matches c t")
    case False
    let ?t = "cron_advance c t"
    have le: "?t \<le> u"
      using cron_advance_skips [OF Suc.prems(1,2,3) _ False] Suc.prems(4) by (auto simp: not_less [symmetric])
    have vt: "valid_civil ?t" using Suc.prems(1) by (rule cron_advance_valid)
    have "\<exists>w. cron_search c n ?t = Some w"
    proof (cases "day_key ?t = day_key t")
      case True
      then have "minute_of_day t < minute_of_day ?t"
        using Suc.prems(1) day_key_next_day [OF Suc.prems(1)] day_key_next_month [OF Suc.prems(1)]
        by (auto simp: cron_advance_def minute_of_day_def start_of_next_hour_def add_minute_def valid_civil_def
            split: if_splits)
      moreover have "minute_of_day ?t < 1440" using vt by (rule minute_of_day_less)
      ultimately have "nat (day_key u - day_key ?t) + 1440 + (1440 - minute_of_day ?t) \<le> n"
        using Suc.prems(7) True by linarith
      from Suc.IH [OF vt Suc.prems(2) le Suc.prems(4) wf this] show ?thesis .
    next
      case dk: False
      then have mn: "minute_of_day ?t = 0"
        using midnight by (auto simp: cron_advance_def add_minute_def start_of_next_hour_def day_key_def)
      have "day_key t < day_key ?t"
        using dk day_key_mono [OF Suc.prems(1) vt] less_imp_le [OF cron_advance_later [of t c]] by simp
      then have "nat (day_key u - day_key ?t) + 1440 \<le> n"
        using Suc.prems(7) day_key_mono [OF vt Suc.prems(2) le] by linarith
      from search_from_midnight [OF vt Suc.prems(2) le Suc.prems(4) mn wf this] show ?thesis .
    qed
    with False show ?thesis by (simp add: cron_search_Suc)
  qed (simp add: cron_search_Suc)
qed (use minute_of_day_less [OF assms(1)] in simp)

section \<open>Which schedules fire at all\<close>

text \<open>
  The schedule names a day that some year has: unless the day of month alone decides,
  every month has one; otherwise the day of month must exist in a month that is allowed,
  in a leap year (2000 is one).
\<close>

definition date_exists :: "cron \<Rightarrow> bool" where
  "date_exists c =
     list_ex (\<lambda>m. months c ! m \<and>
       (\<not> dow_starred c \<or> dom_starred c \<or> list_ex (\<lambda>d. doms c ! d) [1..<Suc (days_in 2000 m)])) [1..<13]"

lemma date_exists_iff:
  "date_exists c \<longleftrightarrow> (\<exists>m. 1 \<le> m \<and> m \<le> 12 \<and> months c ! m \<and>
     (\<not> dow_starred c \<or> dom_starred c \<or> (\<exists>d. 1 \<le> d \<and> d \<le> days_in 2000 m \<and> doms c ! d)))"
  unfolding date_exists_def list_ex_iff set_upt atLeastLessThan_iff Bex_def less_Suc_eq_le
  using less_Suc_eq_le [of _ 12] by auto

lemma leap_2000: "leap 2000"
  by (simp add: leap_def)

lemma days_in_leap: "leap y \<Longrightarrow> days_in y m = days_in 2000 m"
  by (simp add: days_in_def leap_2000)

lemma days_in_le_leap: "days_in y m \<le> days_in 2000 m"
  by (simp add: days_in_def leap_2000)

lemma matching_day_exists:
  assumes "wf_cron c" and m: "1 \<le> m" "m \<le> 12" "months c ! m"
    and "\<not> dow_starred c \<or> dom_starred c \<or> (\<exists>d. 1 \<le> d \<and> d \<le> days_in 2000 m \<and> doms c ! d)"
  shows "\<exists>y' d. y < y' \<and> y' \<le> y + 8 \<and> 1 \<le> d \<and> d \<le> days_in y' m \<and>
    (\<forall>h i. matches_day c (Civil y' m d h i))"
proof -
  obtain w where w: "w < 7" "dows c ! w" using assms(1) by (auto simp: wf_cron_def)
  obtain d where d: "1 \<le> d" "d \<le> 7" "weekday (y + 1) m d = w"
    using weekday_in_first_week [OF w(1)] by blast
  have dl: "d \<le> days_in (y + 1) m" using d(2) days_in_pos(1) [of "y + 1" m] by linarith
  consider (both) "dom_starred c" "dow_starred c" | (dow) "\<not> dow_starred c"
    | (dom) "\<not> dom_starred c" "dow_starred c" by blast
  then show ?thesis
  proof cases
    case both
    then have "\<forall>h i. matches_day c (Civil (y + 1) m d h i)" by (simp add: matches_day_def)
    with d(1) dl show ?thesis by (intro exI [of _ "y + 1"] exI [of _ d]) simp
  next
    case dow
    then have "\<forall>h i. matches_day c (Civil (y + 1) m d h i)"
      using w d by (simp add: matches_day_def weekday_of_def)
    with d(1) dl show ?thesis by (intro exI [of _ "y + 1"] exI [of _ d]) simp
  next
    case dom
    with assms(5) obtain d' where d': "1 \<le> d'" "d' \<le> days_in 2000 m" "doms c ! d'" by auto
    obtain y' where y': "y < y'" "y' \<le> y + 8" "leap y'" using leap_within_eight by blast
    from dom d' have "\<forall>h i. matches_day c (Civil y' m d' h i)" by (simp add: matches_day_def)
    with y' d' show ?thesis by (intro exI [of _ y'] exI [of _ d']) (simp add: days_in_leap)
  qed
qed

lemma key_distance:
  fixes a mu mt du dt :: int
  assumes "a \<le> 8" "1 \<le> mt" "mu \<le> 12" "1 \<le> dt" "du \<le> 31"
  shows "372 * a + 31 * (mu - mt) + (du - dt) \<le> 3400"
proof -
  have "31 * (mu - mt) \<le> 31 * 11" using assms(2,3) by simp
  with assms(1,4,5) show ?thesis by linarith
qed

lemma day_key_within_nine_years:
  assumes "valid_civil t" "valid_civil u" "yr u \<le> yr t + 8"
  shows "nat (day_key u - day_key t) \<le> 3400"
proof -
  have b: "1 \<le> int (mon t)" "int (mon u) \<le> 12" "1 \<le> int (dy t)" "int (dy u) \<le> 31"
    using assms(1,2) days_in_pos(2) [of "yr u" "mon u"] by (simp_all add: valid_civil_def)
  have "day_key u - day_key t =
      372 * (yr u - yr t) + 31 * (int (mon u) - int (mon t)) + (int (dy u) - int (dy t))"
    by (simp add: day_key_def algebra_simps)
  also have "\<dots> \<le> 3400" by (rule key_distance) (use b assms(3) in simp_all)
  finally show ?thesis by simp
qed

lemma civil_next_finds:
  assumes wf: "wf_cron c" and "date_exists c" and v: "valid_civil after"
  shows "is_ok (civil_next c after)"
proof -
  let ?t = "add_minute after"
  have vt: "valid_civil ?t" using v by (rule forward_valid(4))
  from assms(2) obtain m where m: "1 \<le> m" "m \<le> 12" "months c ! m" and
    "\<not> dow_starred c \<or> dom_starred c \<or> (\<exists>d. 1 \<le> d \<and> d \<le> days_in 2000 m \<and> doms c ! d)"
    unfolding date_exists_iff by blast
  from matching_day_exists [OF wf this, of "yr ?t"] obtain y d where
    y: "yr ?t < y" "y \<le> yr ?t + 8" "1 \<le> d" "d \<le> days_in y m" and
    day: "\<forall>h i. matches_day c (Civil y m d h i)" by blast
  from wf have hm: "\<exists>i<24. hours c ! i" "\<exists>i<60. minutes c ! i" by (simp_all add: wf_cron_def)
  then obtain h i where hi: "h < 24" "hours c ! h" "i < 60" "minutes c ! i" by blast
  let ?u = "Civil y m d h i"
  have u: "valid_civil ?u" "?t \<le> ?u" "cron_matches c ?u"
    using y m hi day by (simp_all add: valid_civil_def civil_le_iff cron_matches_def)
  have "nat (day_key ?u - day_key ?t) \<le> 3400"
    using vt u(1) y(2) by (intro day_key_within_nine_years) simp_all
  then have "nat (day_key ?u - day_key ?t) + 1440 + (1440 - minute_of_day ?t) \<le> max_iterations"
    unfolding max_iterations_def by linarith
  from search_finds [OF vt u(1,2,3) hm this] show ?thesis
    by (auto simp: civil_next_def)
qed

lemma matches_date_exists:
  assumes m: "cron_matches c t" and v: "valid_civil t"
  shows "date_exists c"
proof -
  have "dy t \<le> days_in 2000 (mon t)"
    using v days_in_le_leap [of "yr t" "mon t"] by (simp add: valid_civil_def)
  moreover have "\<not> dow_starred c \<or> dom_starred c \<or> doms c ! dy t"
    using m by (simp add: cron_matches_def matches_day_def Let_def split: if_splits)
  moreover have "1 \<le> mon t" "mon t \<le> 12" "1 \<le> dy t" using v by (simp_all add: valid_civil_def)
  moreover have "months c ! mon t" using m by (simp add: cron_matches_def)
  ultimately show ?thesis unfolding date_exists_iff by blast
qed

lemma civil_next_date_exists:
  assumes "civil_next c after = Inr t" and "valid_civil after"
  shows "date_exists c"
  using civil_next_sound [OF assms] matches_date_exists by blast

text \<open>A time found within a smaller budget is the one found within the whole one.\<close>

lemma cron_search_more: "cron_search c n t = Some u \<Longrightarrow> n \<le> m \<Longrightarrow> cron_search c m t = Some u"
proof (induction n arbitrary: m t)
  case (Suc n)
  then obtain k where "m = Suc k" "n \<le> k" by (cases m) auto
  with Suc.IH [of _ k] Suc.prems(1) show ?case by (auto split: if_splits simp: cron_search_Suc)
qed simp

lemma civil_next_early:
  "cron_search c n (add_minute after) = Some t \<Longrightarrow> n \<le> max_iterations \<Longrightarrow> civil_next c after = Inr t"
  using cron_search_more [of c n "add_minute after" t max_iterations] by (simp add: civil_next_def)

section \<open>Properties\<close>

text \<open>
  Every expression \<open>ParseCron\<close> accepts yields masks of the right size in which every
  field allows at least one value of its range, so no component of the schedule is empty
  and no index of \<open>Next\<close> or \<open>matchesDay\<close> is out of range.
\<close>

theorem parsed_cron_is_wf:
  assumes "parse_cron e = Inr c"
  shows "wf_cron c \<and> cexpr c = trim_space e \<and> \<not> doms c ! 0 \<and> \<not> months c ! 0"
proof -
  from assms obtain f0 f1 f2 f3 f4 where fs: "str_fields (trim_space e) = [f0, f1, f2, f3, f4]"
    by (auto simp: parse_cron_def split: list.splits)
  with assms obtain ds dm mo where
    p: "parse_field_starred f2 1 31 None (zeros 32) = Inr (ds, dm)"
      "parse_field f3 1 12 (Some month_names) (zeros 13) = Inr mo" and
    c: "cexpr c = trim_space e" "doms c = dm" "months c = mo"
    by (auto simp: parse_cron_def)
  have "length dm = 32 \<and> bits_ok 1 31 dm"
    using parse_field_starred_bits [OF p(1)] by (simp add: table_in_range_def)
  moreover have "length mo = 13 \<and> bits_ok 1 12 mo"
    using parse_field_bits [OF p(2) month_table] by simp
  ultimately have "\<not> dm ! 0" and "\<not> mo ! 0" by (force simp: bits_ok_def)+
  with c parse_cron_wf [OF assms] show ?thesis by simp
qed

lemma parsed_cron_is_wf_witness: "\<exists>c. parse_cron ''*/15 0-5 1,15 * mon-fri'' = Inr c \<and> wf_cron c"
proof -
  have "is_ok (parse_cron ''*/15 0-5 1,15 * mon-fri'')" by code_simp
  then obtain c where "parse_cron ''*/15 0-5 1,15 * mon-fri'' = Inr c" by (auto simp: is_ok_iff)
  with parsed_cron_is_wf [OF this] show ?thesis by blast
qed

end
