(* ===== verification/Instants.thy ===== *)
theory Instants
  imports Cron
begin

text \<open>
  Instants and civil time. An instant is Go's \<open>UnixNano\<close>, nanoseconds since 1970; the offset of
  a zone at an instant is a number of minutes. The conversion is the Gregorian rule itself, with its inverse,
  so that the cron search, which works on civil minutes, gives instants.
\<close>

section \<open>Days\<close>

definition day_number :: "civil \<Rightarrow> int" where
  "day_number t = days_before_year (yr t) + days_before_month (yr t) (mon t) + int (dy t) - 1"

definition year_of_day :: "int \<Rightarrow> int" where
  "year_of_day n = (let k = (400 * n) div 146097 + 1 in if days_before_year (k + 1) \<le> n then k + 1 else k)"

fun month_day :: "int \<Rightarrow> int \<Rightarrow> nat list \<Rightarrow> nat \<times> int" where
  "month_day y d [] = (12, d + 1)"
| "month_day y d (m # ms) =
     (if d < int (days_in y m) then (m, d + 1) else month_day y (d - int (days_in y m)) ms)"

lemma scaled_arith:
  fixes k a b c p q r :: int
  shows "4 * a = k - p \<Longrightarrow> 100 * b = k - q \<Longrightarrow> 400 * c = k - r \<Longrightarrow>
    400 * (365 * k + a - b + c) = 146097 * k - 100 * p + 4 * q - r"
  by presburger

lemma year_scaled:
  "400 * days_before_year y =
     146097 * (y - 1) - 100 * ((y - 1) mod 4) + 4 * ((y - 1) mod 100) - (y - 1) mod 400"
  unfolding days_before_year_def by (rule scaled_arith) (simp_all only: minus_mod_eq_mult_div)

lemma year_scaled_bounds:
  "146097 * (y - 1) - 699 \<le> 400 * days_before_year y \<and> 400 * days_before_year y \<le> 146097 * (y - 1) + 396"
proof -
  have "0 \<le> (y - 1) mod 4" "(y - 1) mod 4 \<le> 3" "0 \<le> (y - 1) mod 100" "(y - 1) mod 100 \<le> 99"
    "0 \<le> (y - 1) mod 400" "(y - 1) mod 400 \<le> 399"
    using pos_mod_bound [of 4 "y - 1"] pos_mod_bound [of 100 "y - 1"] pos_mod_bound [of 400 "y - 1"] by simp_all
  with year_scaled [of y] show ?thesis by linarith
qed

lemma year_of_day_spec: "days_before_year (year_of_day n) \<le> n \<and> n < days_before_year (year_of_day n + 1)"
proof -
  define k where "k = (400 * n) div 146097 + 1"
  have k: "146097 * (k - 1) \<le> 400 * n" "400 * n < 146097 * k"
    using div_mult_mod_eq [of "400 * n" 146097] pos_mod_bound [of 146097 "400 * n"] pos_mod_sign [of 146097 "400 * n"]
    by (simp_all add: k_def)
  have "days_before_year k \<le> n" using year_scaled_bounds [of k] k(1) by linarith
  moreover have "n < days_before_year (k + 1 + 1)"
    using year_scaled_bounds [of "k + 1"] k(2) days_before_next_year [of "k + 1"] by (simp split: if_splits)
  ultimately show ?thesis by (simp add: year_of_day_def Let_def flip: k_def)
qed

lemma days_before_year_mono: "y < z \<Longrightarrow> days_before_year (y + 1) \<le> days_before_year z"
proof (induction "nat (z - y)" arbitrary: z)
  case (Suc n)
  show ?case
  proof (cases "z = y + 1")
    case False
    with Suc.prems have "days_before_year (y + 1) \<le> days_before_year (z - 1)" using Suc.hyps by simp
    also have "\<dots> \<le> days_before_year z" using days_before_next_year [of "z - 1"] by (simp split: if_splits)
    finally show ?thesis .
  qed simp
qed simp

lemma days_before_month_mono: "1 \<le> m \<Longrightarrow> m < m' \<Longrightarrow> days_before_month y m + int (days_in y m) \<le> days_before_month y m'"
proof (induction m')
  case (Suc m')
  then show ?case using days_before_next_month [of m' y] days_before_next_month [of m y] by (cases "m = m'") auto
qed simp

lemma month_day_spec:
  assumes "1 \<le> m" "m \<le> 12" "0 \<le> d" "days_before_month y m + d < days_before_month y 13"
    and "month_day y d [m..<13] = (m', d')"
  shows "1 \<le> m' \<and> m' \<le> 12 \<and> 1 \<le> d' \<and> d' \<le> int (days_in y m') \<and>
    days_before_month y m' + d' - 1 = days_before_month y m + d"
  using assms
proof (induction "12 - m" arbitrary: m d)
  case 0
  then have "m = 12" by simp
  with 0 show ?case using days_before_next_month [of 12 y] by (auto simp: upt_rec split: if_splits)
next
  case (Suc n)
  have u: "[m..<13] = m # [Suc m..<13]" using Suc.prems(2) by (simp add: upt_rec)
  note b = days_before_next_month [OF Suc.prems(1), of y]
  show ?case
  proof (cases "d < int (days_in y m)")
    case True
    with Suc.prems u show ?thesis by auto
  next
    case False
    have "Suc m \<le> 12" using Suc.hyps(2) by simp
    moreover have "month_day y (d - int (days_in y m)) [Suc m..<13] = (m', d')" using Suc.prems(5) u False by simp
    moreover have "days_before_month y (Suc m) + (d - int (days_in y m)) = days_before_month y m + d"
      using b by simp
    ultimately show ?thesis using Suc.hyps(1) [of "Suc m" "d - int (days_in y m)"] Suc.hyps(2) Suc.prems(4) False by simp
  qed
qed

section \<open>Minutes\<close>

definition minute_number :: "civil \<Rightarrow> int" where
  "minute_number t = day_number t * 1440 + int (minute_of_day t)"

definition civil_of_minute :: "int \<Rightarrow> civil" where
  "civil_of_minute n =
     (let d = n div 1440; r = n mod 1440; y = year_of_day d;
          (m, k) = month_day y (d - days_before_year y) [1..<13]
      in Civil y m (nat k) (nat (r div 60)) (nat (r mod 60)))"

lemma civil_of_minute_correct: "valid_civil (civil_of_minute n) \<and> minute_number (civil_of_minute n) = n"
proof -
  define d where "d = n div 1440"
  define y where "y = year_of_day d"
  define e where "e = d - days_before_year y"
  define r where "r = n mod 1440"
  obtain m k where mk: "month_day y e [1..<13] = (m, k)" by fastforce
  have y: "days_before_year y \<le> d" "d < days_before_year (y + 1)" using year_of_day_spec [of d] by (simp_all add: y_def)
  then have e: "0 \<le> e" by (simp add: e_def)
  have "days_before_month y 1 + e < days_before_month y 13"
    using y(2) days_of_year [of y] days_before_next_year [of y] by (simp add: e_def)
  from month_day_spec [OF _ _ e this mk] have v: "1 \<le> m" "m \<le> 12" "1 \<le> k" "k \<le> int (days_in y m)"
    "days_before_month y m + k - 1 = e" by simp_all
  have r: "0 \<le> r" "r < 1440" by (simp_all add: r_def)
  then have "0 \<le> r div 60" "r div 60 < 24" "0 \<le> r mod 60" "r mod 60 < 60" "r div 60 * 60 + r mod 60 = r" by simp_all
  moreover have c: "civil_of_minute n = Civil y m (nat k) (nat (r div 60)) (nat (r mod 60))"
    using mk by (simp add: civil_of_minute_def Let_def flip: d_def y_def e_def r_def)
  moreover have "n = d * 1440 + r" by (simp add: d_def r_def)
  moreover have "0 \<le> r mod 60" "r mod 60 < 60" by simp_all
  ultimately show ?thesis using v e
    by (simp add: valid_civil_def minute_number_def day_number_def minute_of_day_def e_def nat_le_iff le_nat_iff nat_less_iff
        del: pos_mod_sign pos_mod_bound)
qed

lemma day_in_year:
  assumes "valid_civil t"
  shows "days_before_year (yr t) \<le> day_number t \<and> day_number t < days_before_year (yr t + 1)"
proof -
  have v: "1 \<le> mon t" "mon t < 13" "1 \<le> dy t" "dy t \<le> days_in (yr t) (mon t)" using assms by (simp_all add: valid_civil_def)
  have "0 \<le> days_before_month (yr t) (mon t)" by (simp add: days_before_month_def)
  moreover have "days_before_month (yr t) (mon t) + int (dy t) \<le> days_before_month (yr t) 13"
    using days_before_month_mono [OF v(1,2), of "yr t"] v(4) by simp
  ultimately show ?thesis using v(3) days_of_year [of "yr t"] days_before_next_year [of "yr t"]
    by (simp add: day_number_def)
qed

lemma day_number_less:
  assumes "valid_civil t" "valid_civil u" "yr t < yr u \<or> yr t = yr u \<and> (mon t < mon u \<or> mon t = mon u \<and> dy t < dy u)"
  shows "day_number t < day_number u"
proof (cases "yr t < yr u")
  case True
  from days_before_year_mono [OF True] day_in_year [OF assms(1)] day_in_year [OF assms(2)] show ?thesis by simp
next
  case False
  show ?thesis
  proof (cases "mon t < mon u")
    case True
    have "1 \<le> mon t" "dy t \<le> days_in (yr t) (mon t)" "1 \<le> dy u" using assms(1,2) by (simp_all add: valid_civil_def)
    with days_before_month_mono [OF this(1) True, of "yr t"] False assms(3) show ?thesis by (simp add: day_number_def)
  qed (use False assms(3) in \<open>simp add: day_number_def\<close>)
qed

lemma minute_number_less:
  assumes "valid_civil t" "valid_civil u"
  shows "minute_number t < minute_number u \<longleftrightarrow> t < u"
proof -
  have less: "minute_number a < minute_number b" if "valid_civil a" "valid_civil b" "a < b" for a b
  proof (cases "yr a < yr b \<or> yr a = yr b \<and> (mon a < mon b \<or> mon a = mon b \<and> dy a < dy b)")
    case True
    have "minute_of_day a < 1440" using that(1) by (rule minute_of_day_less)
    with day_number_less [OF that(1,2) True] show ?thesis by (simp add: minute_number_def)
  next
    case False
    with that show ?thesis
      by (auto simp: civil_less_iff minute_number_def day_number_def minute_of_day_def valid_civil_def)
  qed
  show ?thesis using less [OF assms] less [OF assms(2,1)] by (cases t u rule: linorder_cases) auto
qed

lemma civil_of_minute_number: "valid_civil t \<Longrightarrow> civil_of_minute (minute_number t) = t"
  using minute_number_less [of t "civil_of_minute (minute_number t)"]
    minute_number_less [of "civil_of_minute (minute_number t)" t] civil_of_minute_correct [of "minute_number t"]
  by (cases t "civil_of_minute (minute_number t)" rule: linorder_cases) auto

section \<open>Instants\<close>

definition minute_ns :: int where "minute_ns = 60000000000"

text \<open>1970 is 719162 days after the first day of year 1.\<close>

definition epoch_minutes :: int where "epoch_minutes = 719162 * 1440"

text \<open>The civil minute an instant lies in, and the instant a civil minute begins at.\<close>

definition civil_at :: "int \<Rightarrow> int \<Rightarrow> civil" where
  "civil_at off t = civil_of_minute (t div minute_ns + epoch_minutes + off)"

definition instant_of :: "int \<Rightarrow> civil \<Rightarrow> int" where
  "instant_of off c = (minute_number c - epoch_minutes - off) * minute_ns"

lemma civil_at_valid [simp]: "valid_civil (civil_at off t)"
  by (simp add: civil_at_def civil_of_minute_correct)

lemma civil_at_instant: "valid_civil c \<Longrightarrow> civil_at off (instant_of off c) = c"
  by (simp add: civil_at_def instant_of_def minute_ns_def civil_of_minute_number)

lemma civil_at_minute: "t mod minute_ns = 0 \<Longrightarrow> instant_of off (civil_at off t) = t"
  by (auto simp: instant_of_def civil_at_def civil_of_minute_correct minute_ns_def)

lemma instant_on_minute [simp]: "instant_of off c mod minute_ns = 0"
  by (simp add: instant_of_def)

lemma div_less_iff:
  fixes t k m :: int
  assumes "0 < m"
  shows "t div m < k \<longleftrightarrow> t < k * m"
proof
  assume "t div m < k"
  then have "(t div m + 1) * m \<le> k * m" using assms by (intro mult_right_mono) simp_all
  moreover have "t < (t div m + 1) * m"
    using div_mult_mod_eq [of t m] pos_mod_bound [OF assms, of t] unfolding distrib_right by linarith
  ultimately show "t < k * m" by simp
next
  assume t: "t < k * m"
  have "t div m * m \<le> t" using div_mult_mod_eq [of t m] pos_mod_sign [OF assms, of t] by linarith
  with t have "t div m * m < k * m" by simp
  with assms show "t div m < k" by simp
qed

lemma instant_less_iff:
  assumes "valid_civil c"
  shows "t < instant_of off c \<longleftrightarrow> civil_at off t < c"
proof -
  define k where "k = minute_number c - epoch_minutes - off"
  have "t < k * minute_ns \<longleftrightarrow> t div minute_ns < k"
    by (rule div_less_iff [symmetric]) (simp add: minute_ns_def)
  also have "\<dots> \<longleftrightarrow> minute_number (civil_at off t) < minute_number c"
    by (simp add: civil_at_def civil_of_minute_correct k_def) linarith
  finally show ?thesis using minute_number_less [OF civil_at_valid assms, of off t]
    by (simp add: instant_of_def k_def)
qed

lemma epoch: "civil_at 0 0 = Civil 1970 1 1 0 0" "civil_at 60 1700000000000000000 = Civil 2023 11 14 23 13"
  by code_simp+

end
