(* ===== verification/CronZone.thy ===== *)
theory CronZone
  imports Instants
begin

text \<open>
  \<open>Next\<close> of \<open>internal/schedules/cron.go\<close> in a location: the offset from UTC is a function of the
  instant, as the zone database has it, and \<open>time.Date\<close> resolves a clock reading the way Go does. Where
  the offset is constant the search is the one on civil minutes; where a clock is set back it
  can stand still.
\<close>

section \<open>Clocks\<close>

text \<open>
  A zone gives the minutes east of UTC at a minute of UTC, counted from 1970. Offsets are whole minutes,
  as they are in every zone since 1972.
\<close>

type_synonym zone = "int \<Rightarrow> int"

definition local_civil :: "zone \<Rightarrow> int \<Rightarrow> civil" where
  "local_civil Z m = civil_of_minute (m + epoch_minutes + Z m)"

text \<open>
  \<open>time.Date\<close>: the offset is looked up as if the reading were UTC, and once more at the instant this gives,
  which has the same offset unless a transition lies between the two.
\<close>

definition resolve_clock :: "zone \<Rightarrow> int \<Rightarrow> int" where
  "resolve_clock Z l = l - Z (l - Z l)"

definition time_date :: "zone \<Rightarrow> civil \<Rightarrow> int" where
  "time_date Z c = resolve_clock Z (minute_number c - epoch_minutes)"

definition zone_next_month :: "zone \<Rightarrow> int \<Rightarrow> int" where
  "zone_next_month Z m = time_date Z (start_of_next_month (local_civil Z m))"

text \<open>\<open>AddDate(0, 0, 1)\<close> keeps the reading of the clock, one day later.\<close>

definition zone_next_day :: "zone \<Rightarrow> int \<Rightarrow> int" where
  "zone_next_day Z m =
     (let c = local_civil Z m; u = time_date Z (Civil (yr c) (mon c) (dy c) 0 0)
      in resolve_clock Z (u + Z u + 1440))"

definition zone_next_hour :: "zone \<Rightarrow> int \<Rightarrow> int" where
  "zone_next_hour Z m = (let c = local_civil Z m in time_date Z (Civil (yr c) (mon c) (dy c) (hr c) 0) + 60)"

section \<open>The search\<close>

fun zone_search :: "zone \<Rightarrow> cron \<Rightarrow> nat \<Rightarrow> int \<Rightarrow> int option" where
  "zone_search Z c 0 m = None"
| "zone_search Z c (Suc n) m =
     (let t = local_civil Z m
      in if \<not> months c ! mon t then zone_search Z c n (zone_next_month Z m)
         else if \<not> matches_day c t then zone_search Z c n (zone_next_day Z m)
         else if \<not> hours c ! hr t then zone_search Z c n (zone_next_hour Z m)
         else if \<not> minutes c ! mi t then zone_search Z c n (m + 1)
         else Some m)"

text \<open>\<open>after\<close> is an instant in nanoseconds; \<open>after.Add(time.Minute).Truncate(time.Minute)\<close> is the next full minute.\<close>

definition next_after :: "zone \<Rightarrow> cron \<Rightarrow> int \<Rightarrow> (cron_error, int) result" where
  "next_after Z c after =
     (case zone_search Z c max_iterations (after div minute_ns + 1) of
        None \<Rightarrow> Inl NoMatch
      | Some m \<Rightarrow> Inr (m * minute_ns))"

text \<open>What \<open>after\<close> reads on the clock of a zone.\<close>

definition clock_at :: "zone \<Rightarrow> int \<Rightarrow> civil" where
  "clock_at Z t = local_civil Z (t div minute_ns)"

section \<open>In every zone\<close>

text \<open>What is found is a minute at which all fields match, whatever the zone does.\<close>

lemma zone_search_matches: "zone_search Z c n m = Some u \<Longrightarrow> cron_matches c (local_civil Z u)"
  by (induction n arbitrary: m) (auto simp: Let_def cron_matches_def split: if_splits)

lemma next_after_matches:
  assumes "next_after Z c after = Inr n"
  shows "n mod minute_ns = 0 \<and> cron_matches c (clock_at Z n)"
  using assms zone_search_matches [of Z c max_iterations "after div minute_ns + 1"]
  by (auto simp: next_after_def clock_at_def minute_ns_def split: option.splits)

text \<open>A search that comes back to where it is never ends.\<close>

lemma zone_search_stuck:
  assumes "months c ! mon (local_civil Z m)" "matches_day c (local_civil Z m)" "\<not> hours c ! hr (local_civil Z m)"
    and "zone_next_hour Z m = m"
  shows "zone_search Z c n m = None"
  by (induction n) (simp_all add: Let_def assms)

lemma zone_search_stuck_day:
  assumes "months c ! mon (local_civil Z m)" "\<not> matches_day c (local_civil Z m)" "zone_next_day Z m = m"
  shows "zone_search Z c n m = None"
  by (induction n) (simp_all add: Let_def assms)

section \<open>Where the offset is constant\<close>

lemma day_number_forward:
  assumes "valid_civil t"
  shows "day_number (start_of_next_day t) = day_number t + 1"
proof -
  have m: "days_before_month (yr t) (Suc (mon t)) = days_before_month (yr t) (mon t) + int (days_in (yr t) (mon t))"
    using assms by (intro days_before_next_month) (simp add: valid_civil_def)
  show ?thesis
  proof (cases "dy t + 1 > days_in (yr t) (mon t)")
    case False
    then show ?thesis by (simp add: start_of_next_day_def day_number_def)
  next
    case True
    then have d: "dy t = days_in (yr t) (mon t)" using assms by (simp add: valid_civil_def)
    show ?thesis
    proof (cases "mon t + 1 > 12")
      case December: True
      then have "mon t = 12" using assms by (simp add: valid_civil_def)
      then show ?thesis using True d m days_of_year [of "yr t"] days_before_next_year [of "yr t"]
        by (simp add: start_of_next_day_def start_of_next_month_def day_number_def add.commute)
    next
      case False
      then show ?thesis using True d m by (simp add: start_of_next_day_def start_of_next_month_def day_number_def)
    qed
  qed
qed

lemma minute_of_next_day [simp]: "minute_of_day (start_of_next_day t) = 0"
  by (simp add: start_of_next_day_def start_of_next_month_def minute_of_day_def)

lemma minute_number_forward:
  assumes "valid_civil t"
  shows "minute_number (start_of_next_day t) = minute_number (Civil (yr t) (mon t) (dy t) 0 0) + 1440"
    "minute_number (start_of_next_hour t) = minute_number (Civil (yr t) (mon t) (dy t) (hr t) 0) + 60"
    "minute_number (add_minute t) = minute_number t + 1"
proof -
  have v: "hr t \<le> 23" "mi t \<le> 59" using assms by (simp_all add: valid_civil_def)
  show d: "minute_number (start_of_next_day t) = minute_number (Civil (yr t) (mon t) (dy t) 0 0) + 1440"
    by (simp add: minute_number_def day_number_forward [OF assms]) (simp add: day_number_def minute_of_day_def)
  show h: "minute_number (start_of_next_hour t) = minute_number (Civil (yr t) (mon t) (dy t) (hr t) 0) + 60"
    using v(1) d by (cases "hr t = 23") (auto simp: start_of_next_hour_def minute_number_def day_number_def minute_of_day_def)
  show "minute_number (add_minute t) = minute_number t + 1"
    using v(2) h by (cases "mi t = 59") (auto simp: add_minute_def minute_number_def day_number_def minute_of_day_def)
qed

lemma local_of_reading: "valid_civil c \<Longrightarrow> local_civil (\<lambda>_. off) (minute_number c - epoch_minutes - off) = c"
  by (simp add: local_civil_def civil_of_minute_number)

lemma zone_search_constant:
  assumes "valid_civil t"
  shows "zone_search (\<lambda>_. off) c n (minute_number t - epoch_minutes - off) =
    map_option (\<lambda>u. minute_number u - epoch_minutes - off) (cron_search c n t)"
  using assms
proof (induction n arbitrary: t)
  case (Suc n)
  let ?Z = "\<lambda>_ :: int. off" and ?m = "minute_number t - epoch_minutes - off"
  have l: "local_civil ?Z ?m = t" by (rule local_of_reading [OF Suc.prems])
  have mo: "zone_next_month ?Z ?m = minute_number (start_of_next_month t) - epoch_minutes - off"
    by (simp add: zone_next_month_def l time_date_def resolve_clock_def)
  have da: "zone_next_day ?Z ?m = minute_number (start_of_next_day t) - epoch_minutes - off"
    by (simp add: zone_next_day_def l time_date_def resolve_clock_def minute_number_forward(1) [OF Suc.prems] Let_def)
  have ho: "zone_next_hour ?Z ?m = minute_number (start_of_next_hour t) - epoch_minutes - off"
    by (simp add: zone_next_hour_def l time_date_def resolve_clock_def minute_number_forward(2) [OF Suc.prems] Let_def)
  have mi: "?m + 1 = minute_number (add_minute t) - epoch_minutes - off"
    by (simp add: minute_number_forward(3) [OF Suc.prems])
  have IH: "zone_search ?Z c n (minute_number u - epoch_minutes - off) =
      map_option (\<lambda>u. minute_number u - epoch_minutes - off) (cron_search c n u)" if "u \<in> {start_of_next_month t,
        start_of_next_day t, start_of_next_hour t, add_minute t}" for u
    using that forward_valid [OF Suc.prems] by (intro Suc.IH) auto
  show ?case
    using IH by (simp add: l mo da ho mi cron_search.simps(2) Let_def)
qed simp

text \<open>A zone of constant offset: instants and readings of its clock are the same thing.\<close>

lemma clock_constant: "clock_at (\<lambda>_. off) t = civil_at off t"
  by (simp add: clock_at_def local_civil_def civil_at_def)

lemma next_after_constant:
  "next_after (\<lambda>_. off) c after = (case civil_next c (civil_at off after) of Inl e \<Rightarrow> Inl e | Inr t \<Rightarrow> Inr (instant_of off t))"
proof -
  let ?t = "add_minute (civil_at off after)"
  have v: "valid_civil ?t" by (rule forward_valid(4)) simp
  have "minute_number (civil_at off after) = after div minute_ns + epoch_minutes + off"
    by (simp add: civil_at_def civil_of_minute_correct)
  then have "after div minute_ns + 1 = minute_number ?t - epoch_minutes - off"
    by (simp add: minute_number_forward(3))
  then show ?thesis
    by (simp add: next_after_def civil_next_def zone_search_constant [OF v] instant_of_def split: option.split)
qed

lemma next_after_early:
  assumes "cron_search c k (add_minute (civil_at off after)) = Some w" "k \<le> max_iterations"
  shows "next_after (\<lambda>_. off) c after = Inr (instant_of off w)"
  using civil_next_early [OF assms] by (simp add: next_after_constant)

lemma next_after_first:
  assumes "next_after (\<lambda>_. off) c after = Inr n"
  shows "after < n \<and> (\<forall>m. after < m \<and> m < n \<and> m mod minute_ns = 0 \<longrightarrow> \<not> cron_matches c (civil_at off m))"
proof -
  from assms obtain t where t: "civil_next c (civil_at off after) = Inr t" and n: "n = instant_of off t"
    by (auto simp: next_after_constant split: sum.splits)
  from civil_next_sound [OF t civil_at_valid] have v: "valid_civil t" "civil_at off after < t"
    and first: "\<And>w. valid_civil w \<Longrightarrow> civil_at off after < w \<Longrightarrow> w < t \<Longrightarrow> \<not> cron_matches c w" by blast+
  have "\<not> cron_matches c (civil_at off m)" if m: "after < m" "m < n" "m mod minute_ns = 0" for m
  proof -
    have "civil_at off after < civil_at off m"
      using m(1) civil_at_minute [OF m(3), of off] instant_less_iff [OF civil_at_valid, of after off off m] by simp
    moreover have "civil_at off m < t" using m(2) v(1) by (simp add: n instant_less_iff)
    ultimately show ?thesis using first by (meson civil_at_valid)
  qed
  with v show ?thesis by (simp add: n instant_less_iff)
qed

lemma next_after_ok_iff:
  assumes "parse_cron e = Inr c"
  shows "is_ok (next_after (\<lambda>_. off) c after) \<longleftrightarrow> date_exists c"
  using civil_next_finds [OF parse_cron_wf [OF assms] _ civil_at_valid, of off after]
    civil_next_date_exists [OF _ civil_at_valid, of c off after]
  by (auto simp: next_after_constant is_ok_iff split: sum.splits)

text \<open>Whatever the zone, a time that matches lies on a date that exists.\<close>

lemma next_after_date_exists: "is_ok (next_after Z c after) \<Longrightarrow> date_exists c"
  using matches_date_exists next_after_matches by (fastforce simp: is_ok_iff clock_at_def local_civil_def civil_of_minute_correct)

section \<open>A clock that is set back\<close>

text \<open>
  New York around November 2, 2025: at 6:00 UTC the clock goes back from 2:00 to 1:00, the offset from
  four to five hours.
\<close>

definition new_york :: zone where
  "new_york m = (if m < 20394 * 1440 + 360 then - 240 else - 300)"

section \<open>Properties\<close>

text \<open>
  C9: the time \<open>Next\<close> returns is, in any zone, a full minute at which all five fields match; in a
  zone of constant offset it is strictly later than \<open>after\<close>, and the first such minute: no matching time
  is skipped.
\<close>

theorem next_is_first_match:
  assumes "next_after Z c after = Inr n"
  shows "n mod minute_ns = 0 \<and> cron_matches c (clock_at Z n) \<and>
    (\<forall>off. Z = (\<lambda>_. off) \<longrightarrow> after < n \<and>
      (\<forall>m. after < m \<and> m mod minute_ns = 0 \<and> cron_matches c (civil_at off m) \<longrightarrow> n \<le> m))"
  using assms next_after_first [of _ c after n] next_after_matches [OF assms] by (auto simp: not_less [symmetric])

lemma next_is_first_match_witness:
  "\<exists>c. parse_cron ''30 2 29 2 *'' = Inr c \<and> cron_matches c (civil_at 60 (instant_of 60 (Civil 2028 2 29 2 30))) \<and>
     instant_of 60 (Civil 2028 2 20 12 0) < instant_of 60 (Civil 2028 2 29 2 30)"
proof -
  have v: "valid_civil (Civil 2028 2 20 12 0)" by code_simp
  have "case parse_cron ''30 2 29 2 *'' of Inl _ \<Rightarrow> False
      | Inr c \<Rightarrow> cron_search c 60 (add_minute (Civil 2028 2 20 12 0)) = Some (Civil 2028 2 29 2 30)"
    by code_simp
  then obtain c where c: "parse_cron ''30 2 29 2 *'' = Inr c"
      "cron_search c 60 (add_minute (Civil 2028 2 20 12 0)) = Some (Civil 2028 2 29 2 30)"
    by (auto split: sum.splits)
  have "next_after (\<lambda>_. 60) c (instant_of 60 (Civil 2028 2 20 12 0)) = Inr (instant_of 60 (Civil 2028 2 29 2 30))"
    by (rule next_after_early [of _ 60]) (simp_all add: civil_at_instant [OF v] c(2) max_iterations_def)
  from next_is_first_match [OF this] c(1) show ?thesis by (auto simp: clock_constant)
qed

text \<open>
  C10: \<open>Next\<close> on a parsed expression that names a date of no year fails, in any zone; in a zone of
  constant offset it finds a time for every other expression: the budget of \<open>4*366*24\<close> iterations is
  always enough there. Where a clock is set back it is not, whatever the budget: see
  \<open>search_stands_still_at_fall_back\<close>.
\<close>

theorem next_fails_only_without_date:
  assumes "parse_cron e = Inr c"
  shows "(is_ok (next_after Z c after) \<longrightarrow> date_exists c) \<and> (is_ok (next_after (\<lambda>_. off) c after) \<longleftrightarrow> date_exists c)"
  using next_after_ok_iff [OF assms, of off after] next_after_date_exists [of Z c after] by blast

lemma next_fails_only_without_date_witness:
  "\<exists>c. parse_cron ''0 0 31 2 *'' = Inr c \<and> \<not> is_ok (next_after new_york c 0) \<and>
     \<not> is_ok (next_after (\<lambda>_. 60) c 0)"
proof -
  have "case parse_cron ''0 0 31 2 *'' of Inr c \<Rightarrow> \<not> date_exists c | Inl _ \<Rightarrow> False" by code_simp
  then obtain c where c: "parse_cron ''0 0 31 2 *'' = Inr c" "\<not> date_exists c"
    by (auto split: sum.splits)
  then show ?thesis using next_fails_only_without_date [OF c(1), of new_york 0 60] by blast
qed

text \<open>
  \<open>parseFieldStarred\<close> counts a stepped star as a star, and a day whose two
  fields are both starred matches whatever the masks say. So a schedule \<open>0 0 */2 * *\<close>
  fires at midnight of every day, the days its day-of-month field rules out included.
\<close>

theorem stepped_star_day_is_ignored:
  "\<exists>c. parse_cron ''0 0 */2 * *'' = Inr c \<and> \<not> doms c ! 2 \<and> doms c ! 3 \<and>
     next_after (\<lambda>_. 0) c (instant_of 0 (Civil 2025 1 1 0 0)) = Inr (instant_of 0 (Civil 2025 1 2 0 0))"
proof -
  have v: "valid_civil (Civil 2025 1 1 0 0)" by code_simp
  have "case parse_cron ''0 0 */2 * *'' of Inl _ \<Rightarrow> False
      | Inr c \<Rightarrow> \<not> doms c ! 2 \<and> doms c ! 3 \<and>
          cron_search c 100 (add_minute (Civil 2025 1 1 0 0)) = Some (Civil 2025 1 2 0 0)"
    by code_simp
  then obtain c where c: "parse_cron ''0 0 */2 * *'' = Inr c" "\<not> doms c ! 2" "doms c ! 3"
      "cron_search c 100 (add_minute (Civil 2025 1 1 0 0)) = Some (Civil 2025 1 2 0 0)"
    by (auto split: sum.splits)
  have "next_after (\<lambda>_. 0) c (instant_of 0 (Civil 2025 1 1 0 0)) = Inr (instant_of 0 (Civil 2025 1 2 0 0))"
  proof (rule next_after_early)
    show "cron_search c 100 (add_minute (civil_at 0 (instant_of 0 (Civil 2025 1 1 0 0)))) = Some (Civil 2025 1 2 0 0)"
      by (simp only: civil_at_instant [OF v] c(4))
  qed (simp add: max_iterations_def)
  with c show ?thesis by blast
qed

section \<open>The search in that night\<close>

lemma new_york_night:
  "local_civil new_york (20394 * 1440 + 359) = Civil 2025 11 2 1 59"
  "local_civil new_york (20394 * 1440 + 360) = Civil 2025 11 2 1 0"
  "zone_next_hour new_york (20394 * 1440 + 300) = 20394 * 1440 + 360"
  "zone_next_hour new_york (20394 * 1440 + 360) = 20394 * 1440 + 360"
  by code_simp+

text \<open>
  The search stands still where a clock is set back. In the second 1:00 of that night \<open>startOfNextHour\<close>
  takes the first one for the start of the hour and adds an hour, which is the second 1:00 again; so
  whatever number of iterations is left, a search that comes there with a date that matches and
  an hour that does not ends with an error, although a later minute matches.
\<close>

theorem search_stands_still_at_fall_back:
  assumes "months c ! 11" "matches_day c (Civil 2025 11 2 1 0)" "\<not> hours c ! 1"
  shows "zone_search new_york c n (20394 * 1440 + 360) = None"
  by (rule zone_search_stuck) (simp_all only: new_york_night civil.sel assms not_False_eq_True)

text \<open>The day before, on the clock and by the minute; minutes count from midnight of November 1 in New York.\<close>

definition eve :: int where "eve = 20393 * 1440 + 240"

lemma eve_number:
  assumes "d \<le> 1" "h < 24" "i < 60"
  shows "valid_civil (Civil 2025 11 (Suc d) h i)"
    "minute_number (Civil 2025 11 (Suc d) h i) = eve - 240 + int (1440 * d + 60 * h + i) + epoch_minutes"
proof -
  have c: "day_number (Civil 2025 11 1 0 0) = 20393 + 719162" "days_in 2025 11 = 30" by code_simp+
  have n: "day_number (Civil 2025 11 (Suc d) h i) = day_number (Civil 2025 11 1 0 0) + int d" by (simp add: day_number_def)
  show "valid_civil (Civil 2025 11 (Suc d) h i)" using assms c(2) by (simp add: valid_civil_def)
  show "minute_number (Civil 2025 11 (Suc d) h i) = eve - 240 + int (1440 * d + 60 * h + i) + epoch_minutes"
    by (simp only: minute_number_def minute_of_day_def n c(1) epoch_minutes_def eve_def) simp
qed

lemma eve_local:
  assumes "d \<le> 1" "h < 24" "i < 60" "1440 * d + 60 * h + i < 1560"
  shows "local_civil new_york (eve + int (1440 * d + 60 * h + i)) = Civil 2025 11 (Suc d) h i"
proof -
  have z: "new_york (eve + int (1440 * d + 60 * h + i)) = - 240"
    using assms(4) unfolding new_york_def eve_def by simp
  have "eve + int (1440 * d + 60 * h + i) + epoch_minutes - 240 = minute_number (Civil 2025 11 (Suc d) h i)"
    using eve_number(2) [OF assms(1-3)] by simp
  then show ?thesis unfolding local_civil_def z using civil_of_minute_number [OF eve_number(1) [OF assms(1-3)]] by simp
qed

lemma eve_next_hour:
  assumes "d \<le> 1" "h < 24" "i < 60" "1440 * d + 60 * h + i < 1560"
  shows "zone_next_hour new_york (eve + int (1440 * d + 60 * h + i)) = eve + int (1440 * d + 60 * h + 60)"
proof -
  have l: "minute_number (Civil 2025 11 (Suc d) h 0) - epoch_minutes = eve - 240 + int (1440 * d + 60 * h)"
    using eve_number(2) [OF assms(1,2), of 0] by simp
  have z: "new_york (eve - 240 + int (1440 * d + 60 * h)) = - 240" "new_york (eve + int (1440 * d + 60 * h)) = - 240"
    using assms(4) unfolding new_york_def eve_def by simp_all
  show ?thesis unfolding zone_next_hour_def eve_local [OF assms] civil.sel Let_def time_date_def l resolve_clock_def z(1)
    using z(2) by simp
qed

text \<open>
  A schedule for 3:00 has no next time on November 1 from a minute after three on, up to the hour in which
  the clock is set back.
\<close>

lemma eve_stuck:
  assumes c: "months c ! 11" "\<And>t. matches_day c t"
    "\<And>h. h < 24 \<Longrightarrow> hours c ! h \<longleftrightarrow> h = 3" "\<And>i. i < 60 \<Longrightarrow> minutes c ! i \<longleftrightarrow> i = 0"
    and "181 \<le> k" "k \<le> 1560"
  shows "zone_search new_york c n (eve + int k) = None"
  using assms(5,6)
proof (induction n arbitrary: k)
  case (Suc n)
  show ?case
  proof (cases "k = 1560")
    case True
    have "eve + int k = 20394 * 1440 + 360" by (simp add: True eve_def)
    then show ?thesis by (simp only: search_stands_still_at_fall_back [OF c(1,2)] c(3))
  next
    case False
    define d h i where "d = k div 1440" and "h = k mod 1440 div 60" and "i = k mod 60"
    have b: "d \<le> 1" "h < 24" "i < 60" using Suc.prems by (auto simp: d_def h_def i_def less_mult_imp_div_less)
    have "k mod 1440 mod 60 = k mod 60" by (simp add: mod_mod_cancel)
    then have k: "k = 1440 * d + 60 * h + i"
      using div_mult_mod_eq [of k 1440] div_mult_mod_eq [of "k mod 1440" 60] unfolding d_def h_def i_def by linarith
    with False Suc.prems have l: "1440 * d + 60 * h + i < 1560" by simp
    have nh: "zone_search new_york c n (eve + int (1440 * d + 60 * h + 60)) = None"
    proof (rule Suc.IH)
      show "181 \<le> 1440 * d + 60 * h + 60" using Suc.prems(1) b(3) unfolding k by linarith
      have "24 * d + h \<le> 25" using l by linarith
      then show "1440 * d + 60 * h + 60 \<le> 1560" by linarith
    qed
    have nm: "zone_search new_york c n (eve + int (1440 * d + 60 * h + i) + 1) = None"
      using Suc.IH [of "Suc k"] Suc.prems False by (simp add: k ac_simps)
    have "i \<noteq> 0" if "h = 3"
    proof
      assume "i = 0"
      with that k Suc.prems have "1440 * d + 180 \<ge> 181" "1440 * d + 180 \<le> 1560" by simp_all
      with b(1) show False by (cases d) auto
    qed
    then show ?thesis
      unfolding k zone_search.simps Let_def eve_local [OF b l] eve_next_hour [OF b l] civil.sel nh nm c(3) [OF b(2)] c(4) [OF b(3)]
      using c(1,2) by simp
  qed
qed simp

end
