(* ===== verification/Schedules.thy ===== *)
theory Schedules
  imports Targeting CronZone AuditLog
begin

text \<open>
  Recurring tasks (\<open>internal/schedules\<close>): the schedule and its validation
  (\<open>schedule.go\<close>), the tables (\<open>sqlite_store.go\<close>), the fan-out over the updaters of a host
  (\<open>fanout.go\<close>), the reboot (\<open>reboot.go\<close>) and one run of a schedule (\<open>orchestrator.go\<close>).
  Times are instants in nanoseconds. A failure of the database that no constraint explains
  is not modelled; the texts of wrapped parser errors are cut to their first part.
\<close>

section \<open>Schedules\<close>

text \<open>The JSON parser of the target list, and \<open>time.LoadLocation\<close>, which finds the zone of a name.\<close>

record sched_libs =
  json_ids :: "string \<Rightarrow> string list option"
  zone_rule :: "string \<Rightarrow> zone option"

datatype run_status = RunRunning | RunSuccess | RunPartial | RunFailed

record schedule_input =
  in_name :: string
  in_cron :: string
  in_zone :: string
  in_check :: bool
  in_apply :: bool
  in_reboot :: bool
  in_kind :: string
  in_value :: string
  in_enabled :: bool

record schedule =
  sch_id :: string
  sch_name :: string
  sch_cron :: string
  sch_zone :: string
  sch_check :: bool
  sch_apply :: bool
  sch_reboot :: bool
  sch_kind :: string
  sch_value :: string
  sch_enabled :: bool
  sch_next :: "int option"
  sch_last :: "int option"
  sch_status :: "run_status option"
  sch_by :: string
  sch_created :: int
  sch_updated :: int

record schedule_run =
  run_id :: string
  run_schedule :: string
  run_started :: int
  run_finished :: "int option"
  run_status :: run_status
  run_attempted :: nat
  run_succeeded :: nat
  run_failed :: nat
  run_message :: string

text \<open>\<open>ScheduleNoNext\<close> is the error of \<open>Next\<close>, which does not wrap \<open>ErrInvalid\<close>.\<close>

datatype schedule_error = ScheduleNotFound | ScheduleInvalid string | ScheduleNoNext | ScheduleSql

definition max_schedule_name :: nat where "max_schedule_name = 255"

definition validate_schedule :: "sched_libs \<Rightarrow> schedule_input \<Rightarrow> (schedule_error, schedule_input) result" where
  "validate_schedule L x =
     (let i = x\<lparr>in_name := trim_space (in_name x), in_cron := trim_space (in_cron x),
                in_zone := trim_space (in_zone x), in_value := trim_space (in_value x)\<rparr>
      in if in_name i = [] then Inl (ScheduleInvalid ''name is required'')
         else if length (in_name i) > max_schedule_name then Inl (ScheduleInvalid ''name exceeds 255 chars'')
         else if \<not> is_ok (parse_cron (in_cron i)) then Inl (ScheduleInvalid ''invalid cron expression'')
         else
           (let i = (if in_zone i = [] then i\<lparr>in_zone := ''UTC''\<rparr> else i);
                kind = in_kind i; value = in_value i
            in if zone_rule L (in_zone i) = None then Inl (ScheduleInvalid ''timezone'')
               else if \<not> in_check i \<and> \<not> in_apply i
               then Inl (ScheduleInvalid ''at least one of runCheck/runApply must be true'')
               else if in_reboot i \<and> \<not> in_apply i
               then Inl (ScheduleInvalid ''rebootAfterApply requires runApply'')
               else if kind = kind_global
               then (if value \<noteq> [] then Inl (ScheduleInvalid ''targetValue must be empty when targetKind=global'') else Inr i)
               else if kind = kind_group
               then (if value = [] then Inl (ScheduleInvalid ''targetValue (group id) is required when targetKind=group'') else Inr i)
               else if kind = kind_systems
               then
                 (case json_ids L value of
                    None \<Rightarrow> Inl (ScheduleInvalid ''targetValue must be a JSON array of system ids'')
                  | Some ids \<Rightarrow>
                      if ids = []
                      then Inl (ScheduleInvalid ''targetValue must contain at least one system id when targetKind=systems'')
                      else if \<exists>s\<in>set ids. trim_space s = []
                      then Inl (ScheduleInvalid ''targetValue contains an empty system id'')
                      else Inr i)
               else if kind = kind_selector
               then (if value = []
                     then Inl (ScheduleInvalid ''targetValue (selector expression) is required when targetKind=selector'')
                     else Inr i)
               else Inl (ScheduleInvalid ''targetKind is not one of global/group/systems/selector'')))"

definition compute_next :: "sched_libs \<Rightarrow> string \<Rightarrow> string \<Rightarrow> int \<Rightarrow> (schedule_error, int) result" where
  "compute_next L expr tz after =
     (case parse_cron expr of
        Inl _ \<Rightarrow> Inl (ScheduleInvalid ''invalid cron expression'')
      | Inr c \<Rightarrow>
          (case zone_rule L tz of
             None \<Rightarrow> Inl (ScheduleInvalid ''timezone'')
           | Some Z \<Rightarrow> (case next_after Z c after of Inl _ \<Rightarrow> Inl ScheduleNoNext | Inr n \<Rightarrow> Inr n)))"

text \<open>The next run of a schedule that is enabled, none of one that is not.\<close>

definition next_if :: "sched_libs \<Rightarrow> bool \<Rightarrow> string \<Rightarrow> string \<Rightarrow> int \<Rightarrow> (schedule_error, int option) result" where
  "next_if L on expr tz now = (if on then rbind (compute_next L expr tz now) (\<lambda>n. Inr (Some n)) else Inr None)"

section \<open>The tables\<close>

record sched_db =
  sched_rows :: "schedule list"
  sched_runs :: "schedule_run list"

definition schedule_row :: "string \<Rightarrow> 'a sched_db_scheme \<Rightarrow> schedule option" where
  "schedule_row i db = find (\<lambda>s. sch_id s = i) (sched_rows db)"

definition get_schedule :: "string \<Rightarrow> 'a sched_db_scheme \<Rightarrow> (schedule_error, schedule) result" where
  "get_schedule i db = (case schedule_row i db of None \<Rightarrow> Inl ScheduleNotFound | Some s \<Rightarrow> Inr s)"

definition list_schedules :: "'a sched_db_scheme \<Rightarrow> schedule list" where
  "list_schedules db = sort_key (\<lambda>s. (sch_created s, sch_id s)) (sched_rows db)"

text \<open>\<open>i\<close> is the id \<open>NewID\<close> draws.\<close>

definition create_schedule :: "sched_libs \<Rightarrow> string \<Rightarrow> int \<Rightarrow> schedule_input \<Rightarrow> string \<Rightarrow> 'a sched_db_scheme
    \<Rightarrow> (schedule_error, schedule \<times> 'a sched_db_scheme) result" where
  "create_schedule L i now x by_user db =
     rbind (validate_schedule L x) (\<lambda>y.
       if by_user = [] then Inl (ScheduleInvalid ''createdBy is required'')
       else rbind (compute_next L (in_cron y) (in_zone y) now) (\<lambda>n.
         let s = \<lparr>sch_id = i, sch_name = in_name y, sch_cron = in_cron y, sch_zone = in_zone y,
                  sch_check = in_check y, sch_apply = in_apply y, sch_reboot = in_reboot y,
                  sch_kind = in_kind y, sch_value = in_value y, sch_enabled = in_enabled y,
                  sch_next = (if in_enabled y then Some n else None), sch_last = None, sch_status = None,
                  sch_by = by_user, sch_created = now, sch_updated = now\<rparr>
         in if i \<in> sch_id ` set (sched_rows db) then Inl ScheduleSql
            else Inr (s, db\<lparr>sched_rows := sched_rows db @ [s]\<rparr>)))"

definition update_schedule :: "sched_libs \<Rightarrow> string \<Rightarrow> int \<Rightarrow> schedule_input \<Rightarrow> 'a sched_db_scheme
    \<Rightarrow> (schedule_error, schedule \<times> 'a sched_db_scheme) result" where
  "update_schedule L i now x db =
     rbind (validate_schedule L x) (\<lambda>y.
       rbind (next_if L (in_enabled y) (in_cron y) (in_zone y) now) (\<lambda>nx.
         let hit = (\<lambda>s. sch_id s = i);
             db' = db\<lparr>sched_rows := update_where hit
                (\<lambda>s. s\<lparr>sch_name := in_name y, sch_cron := in_cron y, sch_zone := in_zone y,
                        sch_check := in_check y, sch_apply := in_apply y, sch_reboot := in_reboot y,
                        sch_kind := in_kind y, sch_value := in_value y, sch_enabled := in_enabled y,
                        sch_next := nx, sch_updated := now\<rparr>) (sched_rows db)\<rparr>
         in if count_where hit (sched_rows db) = 0 then Inl ScheduleNotFound
            else rbind (get_schedule i db') (\<lambda>s. Inr (s, db'))))"

definition delete_schedule :: "string \<Rightarrow> 'a sched_db_scheme \<Rightarrow> (schedule_error, 'a sched_db_scheme) result" where
  "delete_schedule i db =
     (if count_where (\<lambda>s. sch_id s = i) (sched_rows db) = 0 then Inl ScheduleNotFound
      else Inr (db\<lparr>sched_runs := delete_where (\<lambda>r. run_schedule r = i) (sched_runs db),
                   sched_rows := delete_where (\<lambda>s. sch_id s = i) (sched_rows db)\<rparr>))"

definition set_schedule_enabled :: "sched_libs \<Rightarrow> string \<Rightarrow> bool \<Rightarrow> int \<Rightarrow> 'a sched_db_scheme
    \<Rightarrow> (schedule_error, schedule \<times> 'a sched_db_scheme) result" where
  "set_schedule_enabled L i on now db =
     rbind (get_schedule i db) (\<lambda>cur.
       rbind (next_if L on (sch_cron cur) (sch_zone cur) now) (\<lambda>nx.
         let db' = db\<lparr>sched_rows := update_where (\<lambda>s. sch_id s = i)
                (\<lambda>s. s\<lparr>sch_enabled := on, sch_next := nx, sch_updated := now\<rparr>) (sched_rows db)\<rparr>
         in rbind (get_schedule i db') (\<lambda>s. Inr (s, db'))))"

definition new_run :: "string \<Rightarrow> string \<Rightarrow> int \<Rightarrow> schedule_run" where
  "new_run rid i now = \<lparr>run_id = rid, run_schedule = i, run_started = now, run_finished = None,
     run_status = RunRunning, run_attempted = 0, run_succeeded = 0, run_failed = 0, run_message = []\<rparr>"

definition record_run_start :: "string \<Rightarrow> string \<Rightarrow> int \<Rightarrow> 'a sched_db_scheme
    \<Rightarrow> (schedule_error, schedule_run \<times> 'a sched_db_scheme) result" where
  "record_run_start rid i now db =
     (if rid \<in> run_id ` set (sched_runs db) then Inl ScheduleSql
      else Inr (new_run rid i now, db\<lparr>sched_runs := sched_runs db @ [new_run rid i now]\<rparr>))"

text \<open>An error rolls back, so it leaves the tables as they were.\<close>

definition record_run_finish :: "sched_libs \<Rightarrow> string \<Rightarrow> run_status \<Rightarrow> nat \<Rightarrow> nat \<Rightarrow> nat \<Rightarrow> string \<Rightarrow> int
    \<Rightarrow> 'a sched_db_scheme \<Rightarrow> (schedule_error, 'a sched_db_scheme) result" where
  "record_run_finish L rid st att ok bad msg now db =
     (case find (\<lambda>r. run_id r = rid) (sched_runs db) of
        None \<Rightarrow> Inl ScheduleNotFound
      | Some run \<Rightarrow>
          (let runs' = update_where (\<lambda>r. run_id r = rid)
                 (\<lambda>r. r\<lparr>run_status := st, run_finished := Some now, run_attempted := att,
                         run_succeeded := ok, run_failed := bad, run_message := msg\<rparr>) (sched_runs db)
           in case schedule_row (run_schedule run) db of
                None \<Rightarrow> Inl ScheduleSql
              | Some parent \<Rightarrow>
                  rbind (next_if L (sch_enabled parent) (sch_cron parent) (sch_zone parent) now) (\<lambda>nx.
                    Inr (db\<lparr>sched_runs := runs',
                            sched_rows := update_where (\<lambda>s. sch_id s = run_schedule run)
                              (\<lambda>s. s\<lparr>sch_last := Some now, sch_status := Some st, sch_next := nx\<rparr>) (sched_rows db)\<rparr>))))"

definition list_runs :: "string \<Rightarrow> nat \<Rightarrow> 'a sched_db_scheme \<Rightarrow> schedule_run list" where
  "list_runs i limit db =
     (let rows = rev (sort_key (\<lambda>r. (run_started r, run_id r)) (filter (\<lambda>r. run_schedule r = i) (sched_runs db)))
      in take (if limit = 0 then 1073741824 else limit) rows)"

definition is_due :: "int \<Rightarrow> schedule \<Rightarrow> bool" where
  "is_due now s = (sch_enabled s \<and> (case sch_next s of None \<Rightarrow> False | Some n \<Rightarrow> n \<le> now))"

definition by_next :: "schedule \<Rightarrow> int \<times> string" where
  "by_next s = (case sch_next s of None \<Rightarrow> 0 | Some n \<Rightarrow> n, sch_id s)"

definition due_schedules :: "int \<Rightarrow> 'a sched_db_scheme \<Rightarrow> schedule list" where
  "due_schedules now db = sort_key by_next (filter (is_due now) (sched_rows db))"

definition is_missed :: "int \<Rightarrow> schedule \<Rightarrow> bool" where
  "is_missed cutoff s = (sch_enabled s \<and> (case sch_next s of None \<Rightarrow> False | Some n \<Rightarrow> n < cutoff))"

definition reschedule :: "sched_libs \<Rightarrow> int \<Rightarrow> schedule \<Rightarrow> 'a sched_db_scheme
    \<Rightarrow> (schedule_error, 'a sched_db_scheme) result" where
  "reschedule L now s db =
     rbind (compute_next L (sch_cron s) (sch_zone s) now) (\<lambda>n.
       Inr (db\<lparr>sched_rows := update_where (\<lambda>r. sch_id r = sch_id s) (\<lambda>r. r\<lparr>sch_next := Some n\<rparr>) (sched_rows db)\<rparr>))"

definition reconcile_missed :: "sched_libs \<Rightarrow> int \<Rightarrow> int \<Rightarrow> 'a sched_db_scheme
    \<Rightarrow> (schedule_error, schedule list \<times> 'a sched_db_scheme) result" where
  "reconcile_missed L now grace db =
     (let missed = sort_key by_next (filter (is_missed (now - grace)) (sched_rows db))
      in rbind (rfold (reschedule L now) missed db) (\<lambda>db'. Inr (missed, db')))"

section \<open>The fan-out on one host\<close>

text \<open>
  \<open>upd_run\<close> is \<open>Runner.Check\<close> and \<open>Runner.Apply\<close>: for an action, a system and an updater,
  whether the run ended in success, and the inventory it leaves. \<open>reboot_run\<close> is the Ansible
  run of the reboot playbook, \<open>None\<close> where it could not be started. \<open>upd_defs\<close> and
  \<open>upd_avail\<close> are the registry and the availability table, \<open>None\<close> where the store fails.
\<close>

datatype fan_action = FanCheck | FanApply

record updater_def =
  ud_id :: string
  ud_check_only :: bool

record fleet_ops =
  upd_defs :: "updater_def list option"
  upd_avail :: "string \<Rightarrow> (string \<times> bool) list option"
  upd_run :: "fan_action \<Rightarrow> string \<Rightarrow> string \<Rightarrow> inventory \<Rightarrow> bool \<times> inventory"
  reboot_run :: "string \<Rightarrow> bool \<Rightarrow> bool option"

record fan_result =
  fan_attempted :: nat
  fan_succeeded :: nat
  fan_failed :: nat
  fan_skipped :: bool
  fan_reason :: string

definition no_updaters_reason :: string where
  "no_updaters_reason = ''no enabled updaters for this action''"

text \<open>The updaters of the sweep; a later row of the same updater hides an earlier one.\<close>

definition fan_targets :: "fan_action \<Rightarrow> updater_def list \<Rightarrow> (string \<times> bool) list \<Rightarrow> string list" where
  "fan_targets act defs avail =
     map ud_id (filter (\<lambda>d. map_of (rev avail) (ud_id d) = Some True \<and> \<not> (act = FanApply \<and> ud_check_only d)) defs)"

fun fan_loop :: "fleet_ops \<Rightarrow> fan_action \<Rightarrow> string \<Rightarrow> string list \<Rightarrow> nat \<Rightarrow> nat \<Rightarrow> inventory
    \<Rightarrow> nat \<times> nat \<times> inventory" where
  "fan_loop F act i [] ok bad fleet = (ok, bad, fleet)"
| "fan_loop F act i (u # us) ok bad fleet =
     (case upd_run F act i u fleet of
        (True, fleet') \<Rightarrow> fan_loop F act i us (Suc ok) bad fleet'
      | (False, fleet') \<Rightarrow> fan_loop F act i us ok (Suc bad) fleet')"

definition fan_skip :: "string \<Rightarrow> fan_result" where
  "fan_skip why = \<lparr>fan_attempted = 0, fan_succeeded = 0, fan_failed = 0, fan_skipped = True, fan_reason = why\<rparr>"

definition fan_out_on_system :: "fleet_ops \<Rightarrow> string \<Rightarrow> fan_action \<Rightarrow> inventory \<Rightarrow> fan_result \<times> inventory" where
  "fan_out_on_system F i act fleet =
     (case upd_defs F of
        None \<Rightarrow> (fan_skip ''list updaters'', fleet)
      | Some defs \<Rightarrow>
          (case upd_avail F i of
             None \<Rightarrow> (fan_skip ''availability'', fleet)
           | Some avail \<Rightarrow>
               (let ts = fan_targets act defs avail
                in if ts = [] then (fan_skip no_updaters_reason, fleet)
                   else
                     (case fan_loop F act i ts 0 0 fleet of
                        (ok, bad, fleet') \<Rightarrow>
                          (\<lparr>fan_attempted = length ts, fan_succeeded = ok, fan_failed = bad, fan_skipped = False,
                             fan_reason = []\<rparr>, fleet')))))"

section \<open>Reboots\<close>

definition clear_reboot_required :: "string \<Rightarrow> inventory \<Rightarrow> inventory option" where
  "clear_reboot_required i fleet =
     (if count_where (\<lambda>s. sys_id s = i) fleet = 0 then None
      else Some (update_where (\<lambda>s. sys_id s = i) (\<lambda>s. s\<lparr>sys_reboot := None\<rparr>) fleet))"

datatype reboot_error = RebootLookup | RebootRun | RebootStatus | RebootClear

text \<open>The temporary playbook file is left out; \<open>Inr\<close> says whether the host was rebooted.\<close>

definition reboot_if_required :: "fleet_ops \<Rightarrow> string \<Rightarrow> inventory \<Rightarrow> (reboot_error, bool) result \<times> inventory" where
  "reboot_if_required F i fleet =
     (case get_system i fleet of
        None \<Rightarrow> (Inl RebootLookup, fleet)
      | Some s \<Rightarrow>
          if sys_reboot s = None then (Inr False, fleet)
          else
            (case reboot_run F i (sys_windows s) of
               None \<Rightarrow> (Inl RebootRun, fleet)
             | Some ok \<Rightarrow>
                 if \<not> ok then (Inl RebootStatus, fleet)
                 else
                   (case clear_reboot_required i fleet of
                      None \<Rightarrow> (Inl RebootClear, fleet)
                    | Some fleet' \<Rightarrow> (Inr True, fleet'))))"

section \<open>One run\<close>

definition final_status :: "nat \<Rightarrow> nat \<Rightarrow> nat \<Rightarrow> run_status" where
  "final_status attempted succeeded failed =
     (if attempted = 0 then RunSuccess
      else if failed = 0 then RunSuccess
      else if succeeded = 0 then RunFailed
      else RunPartial)"

definition sweep_failed :: "fan_result \<Rightarrow> bool" where
  "sweep_failed r = (fan_failed r > 0 \<or> fan_skipped r \<and> fan_reason r \<noteq> no_updaters_reason)"

text \<open>The goroutine of one host: check, then apply, then the reboot, each only if the last went well.\<close>

definition run_host :: "fleet_ops \<Rightarrow> schedule \<Rightarrow> string \<Rightarrow> inventory \<Rightarrow> bool \<times> inventory" where
  "run_host F s i fleet0 =
     (let (ok1, fleet1) = (if sch_check s
            then (case fan_out_on_system F i FanCheck fleet0 of (r, fl) \<Rightarrow> (\<not> sweep_failed r, fl))
            else (True, fleet0));
          (ok2, fleet2) = (if sch_apply s \<and> ok1
            then (case fan_out_on_system F i FanApply fleet1 of (r, fl) \<Rightarrow> (\<not> sweep_failed r, fl))
            else (ok1, fleet1))
      in if sch_reboot s \<and> sch_apply s \<and> ok2
         then (case reboot_if_required F i fleet2 of (Inl _, fl) \<Rightarrow> (False, fl) | (Inr _, fl) \<Rightarrow> (True, fl))
         else (ok2, fleet2))"

text \<open>The hosts, in the order in which their goroutines finish.\<close>

fun run_hosts :: "fleet_ops \<Rightarrow> schedule \<Rightarrow> string list \<Rightarrow> nat \<Rightarrow> nat \<Rightarrow> inventory \<Rightarrow> nat \<times> nat \<times> inventory" where
  "run_hosts F s [] ok bad fleet = (ok, bad, fleet)"
| "run_hosts F s (i # is) ok bad fleet =
     (case run_host F s i fleet of
        (True, fleet') \<Rightarrow> run_hosts F s is (Suc ok) bad fleet'
      | (False, fleet') \<Rightarrow> run_hosts F s is ok (Suc bad) fleet')"

definition run_summary :: "nat \<Rightarrow> nat \<Rightarrow> string" where
  "run_summary ok n = nat_to_string ok @ ''/'' @ nat_to_string n @ '' hosts ok''"

text \<open>
  What \<open>Fire\<close> does between its start row and its finish row. \<open>None\<close> is a panic, which
  nothing recovers in the goroutine of the ticker.
\<close>

definition fire_work :: "sched_libs \<Rightarrow> fleet_ops \<Rightarrow> schedule \<Rightarrow> sql_labels \<Rightarrow> inventory
    \<Rightarrow> ((run_status \<times> nat \<times> nat \<times> nat \<times> string) \<times> inventory) option" where
  "fire_work L F s lbl fleet =
     (case resolve_target (json_ids L) (sch_kind s) (sch_value s) fleet lbl of
        Inl TargetPanic \<Rightarrow> None
      | Inl _ \<Rightarrow> Some ((RunFailed, 0, 0, 0, ''resolve targets''), fleet)
      | Inr targets \<Rightarrow>
          (case run_hosts F s (map sys_id targets) 0 0 fleet of
             (ok, bad, fleet') \<Rightarrow>
               Some ((final_status (length targets) ok bad, length targets, ok, bad,
                      run_summary ok (length targets)), fleet')))"

definition run_event :: "string \<Rightarrow> schedule \<Rightarrow> string \<Rightarrow> run_status \<Rightarrow> string \<Rightarrow> event" where
  "run_event actor s rid st msg = \<lparr>ev_action = ''schedule.run'',
     ev_outcome = (if st = RunSuccess then ''success'' else ''failure''), ev_actor = actor,
     ev_target = sch_id s, ev_label = sch_name s, ev_detail = [(''run_id'', DStr rid), (''summary'', DStr msg)]\<rparr>"

section \<open>What a run reports\<close>

lemma fan_loop_tally: "fan_loop F act i us ok bad fleet = (ok', bad', fleet') \<Longrightarrow>
    ok' + bad' = ok + bad + length us \<and> ok \<le> ok' \<and> bad \<le> bad'"
  by (induction F act i us ok bad fleet rule: fan_loop.induct) (fastforce split: prod.splits bool.splits)+

lemma run_hosts_tally: "run_hosts F s is ok bad fleet = (ok', bad', fleet') \<Longrightarrow>
    ok' + bad' = ok + bad + length is \<and> ok \<le> ok' \<and> bad \<le> bad'"
  by (induction F s "is" ok bad fleet rule: run_hosts.induct) (fastforce split: prod.splits bool.splits)+

lemma fan_out_tally:
  assumes "fan_out_on_system F i act fleet = (r, fleet')"
  shows "fan_succeeded r + fan_failed r = fan_attempted r \<and> (fan_skipped r \<longleftrightarrow> fan_attempted r = 0)"
  using assms fan_loop_tally [of F act i _ 0 0 fleet]
  by (auto simp: fan_out_on_system_def fan_skip_def Let_def split: option.splits if_splits prod.splits)

end
