(* ===== verification/ScheduleProps.thy ===== *)
theory ScheduleProps
  imports Schedules
begin

text \<open>
  What the schedule tables promise: the next run is always there for an enabled schedule,
  at a minute its expression names; missed runs are skipped without a spike; validation
  that lets through what a run then dies of.
\<close>

section \<open>The next run\<close>

definition fires_at :: "sched_libs \<Rightarrow> schedule \<Rightarrow> int \<Rightarrow> bool" where
  "fires_at L s n \<longleftrightarrow> (\<exists>c Z. parse_cron (sch_cron s) = Inr c \<and> zone_rule L (sch_zone s) = Some Z \<and>
     n mod minute_ns = 0 \<and> cron_matches c (clock_at Z n))"

text \<open>The clock of a schedule is never shifted.\<close>

definition steady :: "sched_libs \<Rightarrow> schedule \<Rightarrow> bool" where
  "steady L s \<longleftrightarrow> (\<exists>off. zone_rule L (sch_zone s) = Some (\<lambda>_. off))"

lemma compute_next_inv:
  assumes "compute_next L e z after = Inr n"
  obtains c Z where "parse_cron e = Inr c" "zone_rule L z = Some Z" "next_after Z c after = Inr n"
  using assms by (auto simp: compute_next_def split: sum.splits option.splits)

lemma compute_next_fires:
  assumes "compute_next L (sch_cron s) (sch_zone s) after = Inr n"
  shows "fires_at L s n"
  using assms by (rule compute_next_inv) (auto simp: fires_at_def dest: next_after_matches)

lemma compute_next_first:
  assumes "compute_next L (sch_cron s) (sch_zone s) after = Inr n" "steady L s"
  shows "after < n \<and> fires_at L s n \<and> (\<forall>m. after < m \<and> m < n \<longrightarrow> \<not> fires_at L s m)"
proof -
  from assms obtain c off where c: "parse_cron (sch_cron s) = Inr c" "zone_rule L (sch_zone s) = Some (\<lambda>_. off)"
    and n: "next_after (\<lambda>_. off) c after = Inr n"
    by (auto simp: steady_def elim!: compute_next_inv)
  from next_after_first [OF n] compute_next_fires [OF assms(1)] c show ?thesis
    by (auto simp: fires_at_def clock_constant)
qed

text \<open>Where the clock is steady, an expression that has a fire time has one after any time.\<close>

lemma steady_computes:
  assumes "fires_at L s m" "steady L s"
  shows "is_ok (compute_next L (sch_cron s) (sch_zone s) now)"
proof -
  from assms obtain c off where c: "parse_cron (sch_cron s) = Inr c" "zone_rule L (sch_zone s) = Some (\<lambda>_. off)"
    and m: "cron_matches c (civil_at off m)"
    by (auto simp: fires_at_def steady_def clock_constant)
  have "is_ok (next_after (\<lambda>_. off) c now)"
    using next_after_ok_iff [OF c(1)] matches_date_exists [OF m civil_at_valid] by blast
  then show ?thesis using c by (auto simp: compute_next_def is_ok_iff)
qed

section \<open>Well-formed tables\<close>

definition schedule_ok :: "sched_libs \<Rightarrow> schedule \<Rightarrow> bool" where
  "schedule_ok L s \<longleftrightarrow> (sch_check s \<or> sch_apply s) \<and> (sch_reboot s \<longrightarrow> sch_apply s) \<and> sch_name s \<noteq> [] \<and>
     (if sch_enabled s then \<exists>n. sch_next s = Some n \<and> fires_at L s n else sch_next s = None)"

definition wf_sched :: "sched_libs \<Rightarrow> 'a sched_db_scheme \<Rightarrow> bool" where
  "wf_sched L db \<longleftrightarrow> distinct (map sch_id (sched_rows db)) \<and> distinct (map run_id (sched_runs db)) \<and>
     (\<forall>s\<in>set (sched_rows db). schedule_ok L s)"

lemma fires_steady_fields [simp]:
  "fires_at L (s\<lparr>sch_next := a\<rparr>) n = fires_at L s n" "steady L (s\<lparr>sch_next := a\<rparr>) = steady L s"
  "fires_at L (s\<lparr>sch_last := b\<rparr>) n = fires_at L s n" "steady L (s\<lparr>sch_last := b\<rparr>) = steady L s"
  "fires_at L (s\<lparr>sch_status := c\<rparr>) n = fires_at L s n" "steady L (s\<lparr>sch_status := c\<rparr>) = steady L s"
  "fires_at L (s\<lparr>sch_enabled := e\<rparr>) n = fires_at L s n" "steady L (s\<lparr>sch_enabled := e\<rparr>) = steady L s"
  "fires_at L (s\<lparr>sch_updated := u\<rparr>) n = fires_at L s n" "steady L (s\<lparr>sch_updated := u\<rparr>) = steady L s"
  by (simp_all add: fires_at_def steady_def)

lemma validate_schedule_facts:
  assumes "validate_schedule L x = Inr y"
  shows "in_name y \<noteq> [] \<and> length (in_name y) \<le> 255 \<and> is_ok (parse_cron (in_cron y)) \<and> zone_rule L (in_zone y) \<noteq> None \<and>
    (in_check y \<or> in_apply y) \<and> (in_reboot y \<longrightarrow> in_apply y) \<and>
    in_kind y \<in> {kind_global, kind_group, kind_systems, kind_selector}"
  using assms
  by (simp add: validate_schedule_def Let_def max_schedule_name_def split: if_splits option.splits) (auto)

text \<open>An update of one row.\<close>

lemma wf_sched_update:
  assumes "wf_sched L db" and "\<And>s. s \<in> set (sched_rows db) \<Longrightarrow> sch_id s = i \<Longrightarrow> schedule_ok L (f s)"
    and "\<And>s. sch_id (f s) = sch_id s"
  shows "wf_sched L (db\<lparr>sched_rows := update_where (\<lambda>s. sch_id s = i) f (sched_rows db)\<rparr>)"
proof -
  have m: "map sch_id (update_where (\<lambda>s. sch_id s = i) f (sched_rows db)) = map sch_id (sched_rows db)"
    using assms(3) by (rule map_update_where)
  then have "sch_id ` set (update_where (\<lambda>s. sch_id s = i) f (sched_rows db)) = sch_id ` set (sched_rows db)"
    by (metis list.set_map)
  with assms m show ?thesis by (auto simp: wf_sched_def simp del: set_update_where)
    (auto split: if_splits)
qed

lemma optional_next:
  assumes "next_if L on e z now = Inr nx"
  shows "if on then \<exists>n. nx = Some n \<and> compute_next L e z now = Inr n else nx = None"
  using assms by (auto simp: next_if_def split: if_splits)

lemma create_schedule_wf:
  assumes "wf_sched L db" "create_schedule L i now x u db = Inr (s, db')"
  shows "wf_sched L db' \<and> schedule_ok L s"
proof -
  from assms(2) obtain y n where y: "validate_schedule L x = Inr y" and n: "compute_next L (in_cron y) (in_zone y) now = Inr n"
    and s: "s = \<lparr>sch_id = i, sch_name = in_name y, sch_cron = in_cron y, sch_zone = in_zone y,
       sch_check = in_check y, sch_apply = in_apply y, sch_reboot = in_reboot y, sch_kind = in_kind y, sch_value = in_value y,
       sch_enabled = in_enabled y, sch_next = (if in_enabled y then Some n else None), sch_last = None, sch_status = None,
       sch_by = u, sch_created = now, sch_updated = now\<rparr>"
    and i: "i \<notin> sch_id ` set (sched_rows db)" and db': "db' = db\<lparr>sched_rows := sched_rows db @ [s]\<rparr>"
    by (auto simp: create_schedule_def Let_def split: if_splits)
  have "compute_next L (sch_cron s) (sch_zone s) now = Inr n" using n by (simp add: s)
  from compute_next_fires [OF this] validate_schedule_facts [OF y] have "schedule_ok L s"
    by (cases "in_enabled y") (simp_all add: schedule_ok_def s)
  with assms(1) i show ?thesis by (auto simp: wf_sched_def db' s)
qed

lemma update_schedule_wf:
  assumes "wf_sched L db" "update_schedule L i now x db = Inr (s, db')"
  shows "wf_sched L db'"
proof -
  from assms(2) obtain y nx where y: "validate_schedule L x = Inr y"
    and nx: "next_if L (in_enabled y) (in_cron y) (in_zone y) now = Inr nx"
    and db': "db' = db\<lparr>sched_rows := update_where (\<lambda>s. sch_id s = i)
                (\<lambda>s. s\<lparr>sch_name := in_name y, sch_cron := in_cron y, sch_zone := in_zone y,
                        sch_check := in_check y, sch_apply := in_apply y, sch_reboot := in_reboot y,
                        sch_kind := in_kind y, sch_value := in_value y, sch_enabled := in_enabled y,
                        sch_next := nx, sch_updated := now\<rparr>) (sched_rows db)\<rparr>"
    unfolding update_schedule_def by (auto simp: Let_def split: if_splits)
  note v = validate_schedule_facts [OF y] and o = optional_next [OF nx]
  show ?thesis unfolding db'
  proof (rule wf_sched_update [OF assms(1)])
    fix s :: schedule
    let ?s = "s\<lparr>sch_name := in_name y, sch_cron := in_cron y, sch_zone := in_zone y,
                        sch_check := in_check y, sch_apply := in_apply y, sch_reboot := in_reboot y,
                        sch_kind := in_kind y, sch_value := in_value y, sch_enabled := in_enabled y,
                        sch_next := nx, sch_updated := now\<rparr>"
    show "schedule_ok L ?s"
    proof (cases "in_enabled y")
      case True
      with o obtain n where n: "nx = Some n" "compute_next L (sch_cron ?s) (sch_zone ?s) now = Inr n" by auto
      from compute_next_fires [OF n(2)] v n(1) True show ?thesis by (simp add: schedule_ok_def)
    qed (use v o in \<open>simp add: schedule_ok_def\<close>)
  qed simp
qed

lemma set_enabled_wf:
  assumes "wf_sched L db" "set_schedule_enabled L i on now db = Inr (s, db')"
  shows "wf_sched L db'"
proof -
  from assms(2) obtain cur nx where cur: "schedule_row i db = Some cur"
    and nx: "next_if L on (sch_cron cur) (sch_zone cur) now = Inr nx"
    and db': "db' = db\<lparr>sched_rows := update_where (\<lambda>s. sch_id s = i)
                (\<lambda>s. s\<lparr>sch_enabled := on, sch_next := nx, sch_updated := now\<rparr>) (sched_rows db)\<rparr>"
    unfolding set_schedule_enabled_def get_schedule_def
    by (auto simp: Let_def split: if_splits option.splits)
  note o = optional_next [OF nx]
  have d: "distinct (map sch_id (sched_rows db))" using assms(1) by (simp add: wf_sched_def)
  show ?thesis unfolding db'
  proof (rule wf_sched_update [OF assms(1)])
    fix s assume s: "s \<in> set (sched_rows db)" "sch_id s = i"
    with d cur have "s = cur" using find_unique [of sch_id "sched_rows db" s] by (simp add: schedule_row_def)
    moreover have "schedule_ok L s" using assms(1) s by (simp add: wf_sched_def)
    ultimately show "schedule_ok L (s\<lparr>sch_enabled := on, sch_next := nx, sch_updated := now\<rparr>)"
      using o compute_next_fires [of L cur now] by (auto simp: schedule_ok_def split: if_splits)
  qed simp
qed

lemma delete_schedule_wf:
  assumes "wf_sched L db" "delete_schedule i db = Inr db'"
  shows "wf_sched L db'"
  using assms by (auto simp: wf_sched_def delete_schedule_def distinct_map_delete_where split: if_splits)

lemma record_start_wf:
  assumes "wf_sched L db" "record_run_start rid i now db = Inr (r, db')"
  shows "wf_sched L db'"
  using assms by (auto simp: wf_sched_def record_run_start_def new_run_def split: if_splits)

lemma record_finish_wf:
  assumes "wf_sched L db" "record_run_finish L rid st att ok bad msg now db = Inr db'"
  shows "wf_sched L db'"
proof -
  from assms(2) obtain run parent nx where run: "find (\<lambda>r. run_id r = rid) (sched_runs db) = Some run"
    and p: "schedule_row (run_schedule run) db = Some parent"
    and nx: "next_if L (sch_enabled parent) (sch_cron parent) (sch_zone parent) now = Inr nx"
    and db': "db' = db\<lparr>sched_runs := update_where (\<lambda>r. run_id r = rid)
                 (\<lambda>r. r\<lparr>run_status := st, run_finished := Some now, run_attempted := att,
                         run_succeeded := ok, run_failed := bad, run_message := msg\<rparr>) (sched_runs db),
       sched_rows := update_where (\<lambda>s. sch_id s = run_schedule run)
         (\<lambda>s. s\<lparr>sch_last := Some now, sch_status := Some st, sch_next := nx\<rparr>) (sched_rows db)\<rparr>"
    unfolding record_run_finish_def by (auto simp: Let_def split: if_splits option.splits)
  define db1 where "db1 = db\<lparr>sched_rows := update_where (\<lambda>s. sch_id s = run_schedule run)
         (\<lambda>s. s\<lparr>sch_last := Some now, sch_status := Some st, sch_next := nx\<rparr>) (sched_rows db)\<rparr>"
  note o = optional_next [OF nx]
  have d: "distinct (map sch_id (sched_rows db))" using assms(1) by (simp add: wf_sched_def)
  have "wf_sched L db1" unfolding db1_def
  proof (rule wf_sched_update [OF assms(1)])
    fix s assume s: "s \<in> set (sched_rows db)" "sch_id s = run_schedule run"
    with d p have "s = parent" using find_unique [of sch_id "sched_rows db" s] by (simp add: schedule_row_def)
    moreover have "schedule_ok L s" using assms(1) s by (simp add: wf_sched_def)
    ultimately show "schedule_ok L (s\<lparr>sch_last := Some now, sch_status := Some st, sch_next := nx\<rparr>)"
      using o compute_next_fires [of L parent now] by (auto simp: schedule_ok_def split: if_splits)
  qed simp
  then show ?thesis unfolding db' db1_def wf_sched_def by (auto simp: map_update_where)
qed

section \<open>Missed runs\<close>

lemma reschedule_wf:
  assumes "wf_sched L db" "reschedule L now s db = Inr db'" "s0 \<in> set (sched_rows db)" "sch_id s0 = sch_id s"
    "sch_enabled s0" "sch_cron s0 = sch_cron s" "sch_zone s0 = sch_zone s"
  shows "wf_sched L db'"
proof -
  from assms(2) obtain n where n: "compute_next L (sch_cron s) (sch_zone s) now = Inr n"
    and db': "db' = db\<lparr>sched_rows := update_where (\<lambda>r. sch_id r = sch_id s) (\<lambda>r. r\<lparr>sch_next := Some n\<rparr>) (sched_rows db)\<rparr>"
    by (auto simp: reschedule_def)
  have d: "distinct (map sch_id (sched_rows db))" using assms(1) by (simp add: wf_sched_def)
  show ?thesis unfolding db'
  proof (rule wf_sched_update [OF assms(1)])
    fix r assume r: "r \<in> set (sched_rows db)" "sch_id r = sch_id s"
    then have "r = s0" using d assms(3,4) by (metis distinct_map inj_onD)
    moreover have "schedule_ok L r" using assms(1) r by (simp add: wf_sched_def)
    moreover have "fires_at L s0 n" using compute_next_fires [of L s0 now n] n assms(6,7) by simp
    ultimately show "schedule_ok L (r\<lparr>sch_next := Some n\<rparr>)" using assms(5) by (auto simp: schedule_ok_def)
  qed simp
qed

text \<open>
  The loop of \<open>ReconcileMissed\<close> writes the new time of each missed row and nothing else, if all of them
  have one; otherwise the transaction is rolled back.
\<close>

definition next_time :: "sched_libs \<Rightarrow> int \<Rightarrow> schedule \<Rightarrow> int" where
  "next_time L now s = projr (compute_next L (sch_cron s) (sch_zone s) now)"

definition has_next :: "sched_libs \<Rightarrow> int \<Rightarrow> schedule \<Rightarrow> bool" where
  "has_next L now s = is_ok (compute_next L (sch_cron s) (sch_zone s) now)"

lemma has_next_time: "has_next L now s \<Longrightarrow> compute_next L (sch_cron s) (sch_zone s) now = Inr (next_time L now s)"
  by (auto simp: has_next_def next_time_def is_ok_iff)

lemma rfold_reschedule:
  assumes "\<forall>x\<in>set xs. compute_next L (sch_cron x) (sch_zone x) now = Inr (f (sch_id x))"
  shows "rfold (reschedule L now) xs db =
    Inr (db\<lparr>sched_rows := map (\<lambda>r. if sch_id r \<in> sch_id ` set xs then r\<lparr>sch_next := Some (f (sch_id r))\<rparr> else r)
      (sched_rows db)\<rparr>)"
  using assms by (induction xs arbitrary: db) (auto simp: reschedule_def update_where_def)

lemma rfold_reschedule_fails:
  assumes "x \<in> set xs" "\<not> has_next L now x"
  shows "\<not> is_ok (rfold (reschedule L now) xs db)"
  using assms
  by (induction xs arbitrary: db)
    (auto simp: reschedule_def has_next_def is_ok_iff split: sum.splits)

definition move_missed :: "sched_libs \<Rightarrow> int \<Rightarrow> int \<Rightarrow> schedule \<Rightarrow> schedule" where
  "move_missed L now grace s =
     (if is_missed (now - grace) s then s\<lparr>sch_next := Some (next_time L now s)\<rparr> else s)"

definition all_have_next :: "sched_libs \<Rightarrow> int \<Rightarrow> int \<Rightarrow> 'a sched_db_scheme \<Rightarrow> bool" where
  "all_have_next L now grace db = list_all (has_next L now) (filter (is_missed (now - grace)) (sched_rows db))"

lemma reconcile_missed_eq:
  assumes "wf_sched L db" "all_have_next L now grace db"
  shows "reconcile_missed L now grace db =
    Inr (sort_key by_next (filter (is_missed (now - grace)) (sched_rows db)),
      db\<lparr>sched_rows := map (move_missed L now grace) (sched_rows db)\<rparr>)"
proof -
  define missed where "missed = sort_key by_next (filter (is_missed (now - grace)) (sched_rows db))"
  define f where "f i = next_time L now (the (schedule_row i db))" for i
  have d: "distinct (map sch_id (sched_rows db))" using assms by (simp add: wf_sched_def)
  have f: "f (sch_id s) = next_time L now s" if "s \<in> set (sched_rows db)" for s
    using find_unique [OF d that] by (simp add: f_def schedule_row_def)
  have "compute_next L (sch_cron x) (sch_zone x) now = Inr (f (sch_id x))" if x: "x \<in> set missed" for x
  proof -
    from x have "x \<in> set (sched_rows db)" "has_next L now x"
      using assms(2) by (auto simp: missed_def all_have_next_def list_all_iff)
    then show ?thesis by (simp add: f has_next_time)
  qed
  then have r: "rfold (reschedule L now) missed db =
      Inr (db\<lparr>sched_rows := map (\<lambda>r. if sch_id r \<in> sch_id ` set missed then r\<lparr>sch_next := Some (f (sch_id r))\<rparr> else r)
        (sched_rows db)\<rparr>)" by (intro rfold_reschedule) simp
  have "sch_id s \<in> sch_id ` set missed \<longleftrightarrow> is_missed (now - grace) s" if "s \<in> set (sched_rows db)" for s
    using d that by (auto simp: missed_def distinct_map dest: inj_onD)
  then show ?thesis unfolding reconcile_missed_def Let_def missed_def [symmetric] r
    by (simp add: f move_missed_def [abs_def] cong: map_cong)
qed

lemma reconcile_fails:
  assumes "\<not> all_have_next L now grace db"
  shows "\<not> is_ok (reconcile_missed L now grace db)"
proof -
  from assms obtain x where "x \<in> set (sort_key by_next (filter (is_missed (now - grace)) (sched_rows db)))" "\<not> has_next L now x"
    by (auto simp: all_have_next_def list_all_iff)
  from rfold_reschedule_fails [OF this, of db] show ?thesis
    by (auto simp: reconcile_missed_def Let_def is_ok_iff split: sum.splits)
qed

lemma move_missed_id [simp]: "sch_id (move_missed L now grace s) = sch_id s"
  by (simp add: move_missed_def)

lemma move_missed_ok: "schedule_ok L s \<Longrightarrow> has_next L now s \<or> \<not> is_missed (now - grace) s \<Longrightarrow> schedule_ok L (move_missed L now grace s)"
  using compute_next_fires [OF has_next_time] by (auto simp: schedule_ok_def move_missed_def is_missed_def)

lemma reconcile_wf:
  assumes "wf_sched L db" "all_have_next L now grace db"
  shows "wf_sched L (db\<lparr>sched_rows := map (move_missed L now grace) (sched_rows db)\<rparr>)"
  using assms by (auto simp: wf_sched_def comp_def image_image all_have_next_def list_all_iff intro!: move_missed_ok)

text \<open>The missed schedules whose clock is steady do have a next time.\<close>

lemma steady_all_have_next:
  assumes "wf_sched L db" "\<forall>s\<in>set (sched_rows db). is_missed (now - grace) s \<longrightarrow> steady L s"
  shows "all_have_next L now grace db"
  using assms steady_computes
  by (fastforce simp: all_have_next_def list_all_iff has_next_def wf_sched_def schedule_ok_def is_missed_def)

end
