(* ===== verification/Settings.thy ===== *)
theory Settings
  imports Rbac
begin

text \<open>
  Instance-wide settings (\<open>internal/settings\<close>) and the live log levels they drive
  (\<open>internal/logging\<close>): the table, the typed accessors with their defaults and bounds, and
  the admin routes. The locale \<open>setting_store\<close> is the interface \<open>Store\<close> with the laws the
  accessors rely on; the SQLite table is its interpretation. \<open>None\<close> for a store is Go's nil.
\<close>

section \<open>The table\<close>

datatype setting_error = SettingNotFound | SettingInvalid string | SettingStoreNil

type_synonym setting_rows = "(string \<times> string) list"

definition settings_get :: "string \<Rightarrow> setting_rows \<Rightarrow> (setting_error, string) result" where
  "settings_get k rows = (case map_of rows k of None \<Rightarrow> Inl SettingNotFound | Some v \<Rightarrow> Inr v)"

definition settings_set :: "string \<Rightarrow> string \<Rightarrow> setting_rows \<Rightarrow> (setting_error, setting_rows) result" where
  "settings_set k v rows =
     (if k = [] then Inl (SettingInvalid ''key required'') else Inr (alist_put k v rows))"

definition settings_all :: "setting_rows \<Rightarrow> (string \<times> string) list" where
  "settings_all rows = rows"

section \<open>Bounded integers\<close>

definition itoa :: "int \<Rightarrow> string" where
  "itoa n = (if n < 0 then CHR ''-'' # nat_to_string (nat (- n)) else nat_to_string (nat n))"

lemma atoi_itoa: "0 \<le> n \<Longrightarrow> n \<le> max_int64 \<Longrightarrow> atoi (itoa n) = Some n"
  using atoi_nat_to_string [of "nat n"] by (simp add: itoa_def)

definition clamped_setting :: "(string \<Rightarrow> 's \<Rightarrow> (setting_error, string) result)
    \<Rightarrow> string \<Rightarrow> int \<Rightarrow> int \<Rightarrow> int \<Rightarrow> 's option \<Rightarrow> int" where
  "clamped_setting get k dflt mn mx st =
     (case st of
        None \<Rightarrow> dflt
      | Some s \<Rightarrow>
          (case get k s of
             Inl _ \<Rightarrow> dflt
           | Inr raw \<Rightarrow>
               (case atoi raw of
                  None \<Rightarrow> dflt
                | Some n \<Rightarrow> if n < mn then dflt else if n > mx then mx else n)))"

definition set_bounded_setting :: "(string \<Rightarrow> string \<Rightarrow> 's \<Rightarrow> (setting_error, 's) result)
    \<Rightarrow> string \<Rightarrow> int \<Rightarrow> int \<Rightarrow> int \<Rightarrow> string \<Rightarrow> 's option \<Rightarrow> (setting_error, 's) result" where
  "set_bounded_setting put k n mn mx name st =
     (case st of
        None \<Rightarrow> Inl SettingStoreNil
      | Some s \<Rightarrow>
          if n < mn \<or> n > mx
          then Inl (SettingInvalid (name @ '' must be between '' @ itoa mn @ '' and '' @ itoa mx))
          else put k (itoa n) s)"

text \<open>What the accessors need of a store.\<close>

locale setting_store =
  fixes get :: "string \<Rightarrow> 's \<Rightarrow> (setting_error, string) result"
    and put :: "string \<Rightarrow> string \<Rightarrow> 's \<Rightarrow> (setting_error, 's) result"
  assumes put_total: "k \<noteq> [] \<Longrightarrow> is_ok (put k v s)"
    and get_put: "put k v s = Inr s' \<Longrightarrow> get j s' = (if j = k then Inr v else get j s)"
begin

lemma clamped_in_bounds:
  assumes "mn \<le> dflt" "dflt \<le> mx"
  shows "mn \<le> clamped_setting get k dflt mn mx st \<and> clamped_setting get k dflt mn mx st \<le> mx"
  using assms by (auto simp: clamped_setting_def split: option.splits sum.splits)

lemma bounded_set_ok_iff:
  assumes "k \<noteq> []"
  shows "is_ok (set_bounded_setting put k n mn mx name (Some s)) \<longleftrightarrow> mn \<le> n \<and> n \<le> mx"
  using put_total [OF assms] by (auto simp: set_bounded_setting_def)

lemma bounded_set_effective:
  assumes "set_bounded_setting put k n mn mx name (Some s) = Inr s'" "0 \<le> mn" "mx \<le> max_int64"
  shows "clamped_setting get j dflt mn' mx' (Some s') =
    (if j = k then if n < mn' then dflt else if n > mx' then mx' else n
     else clamped_setting get j dflt mn' mx' (Some s))"
  using assms by (auto simp: set_bounded_setting_def clamped_setting_def get_put atoi_itoa split: if_splits)

end

interpretation sql_settings: setting_store settings_get settings_set
  by unfold_locales (auto simp: settings_get_def settings_set_def split: if_splits)

section \<open>The settings\<close>

definition key_run_history :: string where "key_run_history = ''run_history_limit''"
definition key_update_concurrency :: string where "key_update_concurrency = ''update_concurrency_limit''"
definition key_probe_interval :: string where "key_probe_interval = ''probe_interval_seconds''"
definition key_probe_failure :: string where "key_probe_failure = ''probe_failure_threshold''"
definition key_probe_success :: string where "key_probe_success = ''probe_success_threshold''"
definition key_misfire_grace :: string where "key_misfire_grace = ''schedule_misfire_grace_seconds''"
definition key_alert_interval :: string where "key_alert_interval = ''alert_eval_interval_seconds''"
definition key_reboot_grace :: string where "key_reboot_grace = ''reboot_grace_seconds''"
definition key_shutdown_grace :: string where "key_shutdown_grace = ''shutdown_grace_seconds''"

lemmas setting_keys = key_run_history_def key_update_concurrency_def key_probe_interval_def key_probe_failure_def
  key_probe_success_def key_misfire_grace_def key_alert_interval_def key_reboot_grace_def key_shutdown_grace_def

text \<open>\<open>RunHistoryLimit\<close> and \<open>UpdateConcurrencyLimit\<close> are written out in the code.\<close>

definition run_history_limit :: "setting_rows option \<Rightarrow> int" where
  "run_history_limit st =
     (case st of
        None \<Rightarrow> 100
      | Some s \<Rightarrow>
          (case settings_get key_run_history s of
             Inl _ \<Rightarrow> 100
           | Inr raw \<Rightarrow>
               (case atoi raw of
                  None \<Rightarrow> 100
                | Some n \<Rightarrow> if n < 1 then 100 else if n > 10000 then 10000 else n)))"

definition set_run_history_limit :: "int \<Rightarrow> setting_rows option \<Rightarrow> (setting_error, setting_rows) result" where
  "set_run_history_limit n st =
     (case st of
        None \<Rightarrow> Inl SettingStoreNil
      | Some s \<Rightarrow>
          if n < 1 \<or> n > 10000 then Inl (SettingInvalid ''run_history_limit must be between 1 and 10000'')
          else settings_set key_run_history (itoa n) s)"

definition update_concurrency_limit :: "setting_rows option \<Rightarrow> int" where
  "update_concurrency_limit st =
     (case st of
        None \<Rightarrow> 4
      | Some s \<Rightarrow>
          (case settings_get key_update_concurrency s of
             Inl _ \<Rightarrow> 4
           | Inr raw \<Rightarrow>
               (case atoi raw of
                  None \<Rightarrow> 4
                | Some n \<Rightarrow> if n < 1 then 4 else if n > 100 then 100 else n)))"

definition set_update_concurrency_limit :: "int \<Rightarrow> setting_rows option \<Rightarrow> (setting_error, setting_rows) result" where
  "set_update_concurrency_limit n st =
     (case st of
        None \<Rightarrow> Inl SettingStoreNil
      | Some s \<Rightarrow>
          if n < 1 \<or> n > 100 then Inl (SettingInvalid ''update_concurrency_limit must be between 1 and 100'')
          else settings_set key_update_concurrency (itoa n) s)"

definition probe_interval_seconds :: "setting_rows option \<Rightarrow> int" where
  "probe_interval_seconds = clamped_setting settings_get key_probe_interval 30 5 3600"

definition set_probe_interval_seconds :: "int \<Rightarrow> setting_rows option \<Rightarrow> (setting_error, setting_rows) result" where
  "set_probe_interval_seconds n = set_bounded_setting settings_set key_probe_interval n 5 3600 ''probe_interval_seconds''"

definition probe_failure_threshold :: "setting_rows option \<Rightarrow> int" where
  "probe_failure_threshold = clamped_setting settings_get key_probe_failure 1 1 10"

definition set_probe_failure_threshold :: "int \<Rightarrow> setting_rows option \<Rightarrow> (setting_error, setting_rows) result" where
  "set_probe_failure_threshold n = set_bounded_setting settings_set key_probe_failure n 1 10 ''probe_failure_threshold''"

definition probe_success_threshold :: "setting_rows option \<Rightarrow> int" where
  "probe_success_threshold = clamped_setting settings_get key_probe_success 1 1 10"

definition set_probe_success_threshold :: "int \<Rightarrow> setting_rows option \<Rightarrow> (setting_error, setting_rows) result" where
  "set_probe_success_threshold n = set_bounded_setting settings_set key_probe_success n 1 10 ''probe_success_threshold''"

definition misfire_grace_seconds :: "setting_rows option \<Rightarrow> int" where
  "misfire_grace_seconds = clamped_setting settings_get key_misfire_grace 120 60 3600"

definition set_misfire_grace_seconds :: "int \<Rightarrow> setting_rows option \<Rightarrow> (setting_error, setting_rows) result" where
  "set_misfire_grace_seconds n =
     set_bounded_setting settings_set key_misfire_grace n 60 3600 ''schedule_misfire_grace_seconds''"

definition alert_interval_seconds :: "setting_rows option \<Rightarrow> int" where
  "alert_interval_seconds = clamped_setting settings_get key_alert_interval 60 10 3600"

definition set_alert_interval_seconds :: "int \<Rightarrow> setting_rows option \<Rightarrow> (setting_error, setting_rows) result" where
  "set_alert_interval_seconds n =
     set_bounded_setting settings_set key_alert_interval n 10 3600 ''alert_eval_interval_seconds''"

definition shutdown_grace_seconds :: "setting_rows option \<Rightarrow> int" where
  "shutdown_grace_seconds = clamped_setting settings_get key_shutdown_grace 300 60 1800"

definition set_shutdown_grace_seconds :: "int \<Rightarrow> setting_rows option \<Rightarrow> (setting_error, setting_rows) result" where
  "set_shutdown_grace_seconds n =
     set_bounded_setting settings_set key_shutdown_grace n 60 1800 ''shutdown_grace_seconds''"

definition reboot_grace_seconds :: "setting_rows option \<Rightarrow> int" where
  "reboot_grace_seconds = clamped_setting settings_get key_reboot_grace 120 10 1800"

definition set_reboot_grace_seconds :: "int \<Rightarrow> setting_rows option \<Rightarrow> (setting_error, setting_rows) result" where
  "set_reboot_grace_seconds n =
     set_bounded_setting settings_set key_reboot_grace n 10 1800 ''reboot_grace_seconds''"

lemmas accessor_defs = probe_interval_seconds_def probe_failure_threshold_def probe_success_threshold_def
  misfire_grace_seconds_def alert_interval_seconds_def shutdown_grace_seconds_def reboot_grace_seconds_def

lemmas setter_defs = set_probe_interval_seconds_def set_probe_failure_threshold_def set_probe_success_threshold_def
  set_misfire_grace_seconds_def set_alert_interval_seconds_def set_shutdown_grace_seconds_def set_reboot_grace_seconds_def

section \<open>Log levels\<close>

definition log_components :: "string list" where
  "log_components = [''probe'', ''alert'', ''schedule'', ''notification'', ''promtargets'', ''scrape'', ''request'']"

definition log_level_prefix :: string where "log_level_prefix = ''log_level_''"

definition log_level_key :: "string \<Rightarrow> string" where
  "log_level_key c = log_level_prefix @ c"

definition log_level_component :: "string \<Rightarrow> string option" where
  "log_level_component k =
     (if starts_with log_level_prefix k \<and> drop (length log_level_prefix) k \<noteq> []
      then Some (drop (length log_level_prefix) k) else None)"

definition log_levels :: "string list" where
  "log_levels = [''debug'', ''info'', ''warn'', ''error'']"

definition valid_log_level :: "string \<Rightarrow> bool" where
  "valid_log_level s = (s \<in> set log_levels)"

definition known_component :: "string \<Rightarrow> bool" where
  "known_component c = (c \<in> set log_components)"

definition log_level :: "string \<Rightarrow> setting_rows option \<Rightarrow> string" where
  "log_level c st =
     (case st of
        None \<Rightarrow> ''info''
      | Some s \<Rightarrow>
          (case settings_get (log_level_key c) s of
             Inl _ \<Rightarrow> ''info''
           | Inr raw \<Rightarrow> if valid_log_level raw then raw else ''info''))"

definition set_log_level :: "string \<Rightarrow> string \<Rightarrow> setting_rows option \<Rightarrow> (setting_error, setting_rows) result" where
  "set_log_level c level st =
     (case st of
        None \<Rightarrow> Inl SettingStoreNil
      | Some s \<Rightarrow>
          if \<not> valid_log_level level
          then Inl (SettingInvalid ''log level must be one of debug, info, warn, error'')
          else settings_set (log_level_key c) level s)"

text \<open>\<open>logging.ParseLevel\<close> and \<open>logging.SetLevel\<close>; the registry maps a component to its level.\<close>

datatype slog_level = LevelDebug | LevelInfo | LevelWarn | LevelError

definition parse_level :: "string \<Rightarrow> slog_level option" where
  "parse_level s =
     (let l = to_lower (trim_space s)
      in if l = ''debug'' then Some LevelDebug
         else if l = ''info'' then Some LevelInfo
         else if l = ''warn'' \<or> l = ''warning'' then Some LevelWarn
         else if l = ''error'' \<or> l = ''err'' then Some LevelError
         else None)"

definition set_live_level :: "string \<Rightarrow> string \<Rightarrow> (string \<times> slog_level) list \<Rightarrow> (string \<times> slog_level) list" where
  "set_live_level c level reg = (case parse_level level of None \<Rightarrow> reg | Some lv \<Rightarrow> alist_put c lv reg)"

section \<open>The routes\<close>

record setting_state =
  setting_table :: setting_rows
  setting_audit :: "event list"
  live_levels :: "(string \<times> slog_level) list"

datatype setting_body =
    SettingError string
  | SettingNone
  | SettingMap "(string \<times> string) list"
  | SettingSeconds int

type_synonym setting_reply = "nat \<times> setting_body"

definition setting_error :: "nat \<Rightarrow> string \<Rightarrow> setting_reply" where
  "setting_error st msg = (st, SettingError msg)"

text \<open>The cases of the switch in \<open>put\<close> that take an integer.\<close>

definition int_setters :: "(string \<times> (int \<Rightarrow> setting_rows option \<Rightarrow> (setting_error, setting_rows) result)) list" where
  "int_setters =
     [(key_run_history, set_run_history_limit), (key_update_concurrency, set_update_concurrency_limit),
      (key_probe_interval, set_probe_interval_seconds), (key_probe_failure, set_probe_failure_threshold),
      (key_probe_success, set_probe_success_threshold), (key_misfire_grace, set_misfire_grace_seconds),
      (key_reboot_grace, set_reboot_grace_seconds), (key_shutdown_grace, set_shutdown_grace_seconds)]"

definition set_int_from_body :: "string \<Rightarrow> (int \<Rightarrow> setting_rows option \<Rightarrow> (setting_error, setting_rows) result)
    \<Rightarrow> setting_rows \<Rightarrow> (setting_reply, setting_rows) result" where
  "set_int_from_body v setter rows =
     (case atoi v of
        None \<Rightarrow> Inl (setting_error 400 ''value must be an integer'')
      | Some n \<Rightarrow>
          (case setter n (Some rows) of
             Inl (SettingInvalid m) \<Rightarrow> Inl (setting_error 400 m)
           | Inl _ \<Rightarrow> Inl (setting_error 500 ''set failed'')
           | Inr rows' \<Rightarrow> Inr rows'))"

definition handle_set_log_level :: "string \<Rightarrow> string \<Rightarrow> setting_state \<Rightarrow> (setting_reply, setting_state) result" where
  "handle_set_log_level c v st =
     (case set_log_level c v (Some (setting_table st)) of
        Inl (SettingInvalid m) \<Rightarrow> Inl (setting_error 400 m)
      | Inl _ \<Rightarrow> Inl (setting_error 500 ''set failed'')
      | Inr rows' \<Rightarrow> Inr (st\<lparr>setting_table := rows', live_levels := set_live_level c v (live_levels st)\<rparr>))"

definition emit_setting_audit :: "string \<Rightarrow> string \<Rightarrow> string \<Rightarrow> string \<Rightarrow> setting_state \<Rightarrow> setting_state" where
  "emit_setting_audit actor k before after st =
     st\<lparr>setting_audit := audit_log_event
          \<lparr>ev_action = ''setting.set'', ev_outcome = ''success'', ev_actor = actor, ev_target = k, ev_label = [],
            ev_detail = with_safe ''value_after'' (DStr after) (with_safe ''value_before'' (DStr before)
              (with_safe ''key'' (DStr k) []))\<rparr> (setting_audit st)\<rparr>"

definition put_one :: "string \<Rightarrow> string \<Rightarrow> setting_state \<Rightarrow> (setting_reply, setting_state) result" where
  "put_one k v st =
     (case map_of int_setters k of
        Some setter \<Rightarrow>
          rbind (set_int_from_body v setter (setting_table st)) (\<lambda>rows'. Inr (st\<lparr>setting_table := rows'\<rparr>))
      | None \<Rightarrow>
          (case log_level_component k of
             None \<Rightarrow> Inl (setting_error 404 ''unknown setting'')
           | Some c \<Rightarrow>
               if \<not> known_component c then Inl (setting_error 404 ''unknown setting'')
               else handle_set_log_level c v st))"

text \<open>\<open>put\<close>; the body is the value, \<open>None\<close> when the JSON decoder refuses it.\<close>

definition handle_setting_put :: "scope \<Rightarrow> string \<Rightarrow> string option \<Rightarrow> setting_state
    \<Rightarrow> setting_reply \<times> setting_state" where
  "handle_setting_put sc k b st =
     (if \<not> is_global_admin sc then (setting_error 403 ''forbidden'', st)
      else
        (case b of
           None \<Rightarrow> (setting_error 400 ''invalid JSON body'', st)
         | Some v \<Rightarrow>
             (let before = (case settings_get k (setting_table st) of Inl _ \<Rightarrow> [] | Inr x \<Rightarrow> x)
              in case put_one k v st of
                   Inl r \<Rightarrow> (r, st)
                 | Inr st' \<Rightarrow> ((204, SettingNone), emit_setting_audit (sc_user sc) k before v st'))))"

definition with_default :: "string \<Rightarrow> string \<Rightarrow> (string \<times> string) list \<Rightarrow> (string \<times> string) list" where
  "with_default k v m = (case map_of m k of None \<Rightarrow> alist_put k v m | Some _ \<Rightarrow> m)"

definition handle_setting_list :: "scope \<Rightarrow> setting_state \<Rightarrow> setting_reply" where
  "handle_setting_list sc st =
     (if \<not> is_global_admin sc then setting_error 403 ''forbidden''
      else
        (let rows = setting_table st;
             m = foldl (\<lambda>m (k, acc). with_default k (itoa (acc (Some rows))) m) (settings_all rows)
                   [(key_run_history, run_history_limit), (key_update_concurrency, update_concurrency_limit),
                    (key_probe_interval, probe_interval_seconds), (key_probe_failure, probe_failure_threshold),
                    (key_probe_success, probe_success_threshold), (key_misfire_grace, misfire_grace_seconds),
                    (key_reboot_grace, reboot_grace_seconds), (key_shutdown_grace, shutdown_grace_seconds)]
         in (200, SettingMap (foldl (\<lambda>m c. with_default (log_level_key c) (log_level c (Some rows)) m) m log_components))))"

definition handle_reboot_grace :: "setting_state \<Rightarrow> setting_reply" where
  "handle_reboot_grace st = (200, SettingSeconds (reboot_grace_seconds (Some (setting_table st))))"

section \<open>Properties\<close>

text \<open>Every integer setting with its accessor, default and bounds.\<close>

definition int_settings :: "(string \<times> (setting_rows option \<Rightarrow> int) \<times> int \<times> int \<times> int) list" where
  "int_settings =
     [(key_run_history, run_history_limit, 100, 1, 10000), (key_update_concurrency, update_concurrency_limit, 4, 1, 100),
      (key_probe_interval, probe_interval_seconds, 30, 5, 3600), (key_probe_failure, probe_failure_threshold, 1, 1, 10),
      (key_probe_success, probe_success_threshold, 1, 1, 10), (key_misfire_grace, misfire_grace_seconds, 120, 60, 3600),
      (key_reboot_grace, reboot_grace_seconds, 120, 10, 1800), (key_shutdown_grace, shutdown_grace_seconds, 300, 60, 1800),
      (key_alert_interval, alert_interval_seconds, 60, 10, 3600)]"

lemma written_out_accessors:
  "run_history_limit = clamped_setting settings_get key_run_history 100 1 10000"
  "update_concurrency_limit = clamped_setting settings_get key_update_concurrency 4 1 100"
  by (simp_all add: fun_eq_iff run_history_limit_def update_concurrency_limit_def clamped_setting_def)

lemma int_settings_clamped:
  "(k, acc, d, mn, mx) \<in> set int_settings \<Longrightarrow>
     acc = clamped_setting settings_get k d mn mx \<and> mn \<le> d \<and> d \<le> mx \<and> 0 \<le> mn \<and> mx \<le> max_int64 \<and> k \<noteq> []"
  by (auto simp: int_settings_def written_out_accessors accessor_defs setting_keys)

lemma int_setter_effect:
  assumes "map_of int_setters k = Some setter" "setter n (Some rows) = Inr rows'"
  shows "rows' = alist_put k (itoa n) rows \<and> (\<exists>acc d mn mx. (k, acc, d, mn, mx) \<in> set int_settings \<and> mn \<le> n \<and> n \<le> mx)"
proof -
  note s = set_bounded_setting_def setter_defs set_run_history_limit_def set_update_concurrency_limit_def settings_set_def
  have "\<exists>mn mx. rows' = alist_put k (itoa n) rows \<and> mn \<le> n \<and> n \<le> mx \<and>
      (k, mn, mx) \<in> set (map (\<lambda>(k, acc, d, mn, mx). (k, mn, mx)) int_settings)"
    using assms by (auto simp: int_setters_def int_settings_def s setting_keys split: if_splits)
  then show ?thesis by auto
qed

lemma distinct_int_settings: "distinct (map fst int_settings)"
  by (simp add: int_settings_def setting_keys)

lemma log_level_component_key: "log_level_component k = Some c \<Longrightarrow> k = log_level_key c \<and> c \<noteq> []"
  by (auto simp: log_level_component_def log_level_key_def starts_with_iff split: if_splits)

lemma put_one_effect:
  assumes "put_one k v st = Inr st'"
  shows "\<exists>w. setting_table st' = alist_put k w (setting_table st) \<and> setting_audit st' = setting_audit st \<and> k \<noteq> key_alert_interval \<and>
    ((\<exists>n acc d mn mx. atoi v = Some n \<and> w = itoa n \<and> (k, acc, d, mn, mx) \<in> set int_settings \<and> mn \<le> n \<and> n \<le> mx) \<or>
     (\<exists>c. k = log_level_key c \<and> known_component c \<and> w = v \<and> valid_log_level v))"
proof (cases "map_of int_setters k")
  case (Some setter)
  then obtain rows' where r: "set_int_from_body v setter (setting_table st) = Inr rows'" and st': "st' = st\<lparr>setting_table := rows'\<rparr>"
    using assms by (auto simp: put_one_def)
  from r obtain n where n: "atoi v = Some n" "setter n (Some (setting_table st)) = Inr rows'"
    by (auto simp: set_int_from_body_def split: option.splits sum.splits setting_error.splits)
  have "k \<noteq> key_alert_interval" using Some by (auto simp: int_setters_def setting_keys split: if_splits)
  with int_setter_effect [OF Some n(2)] n(1) show ?thesis by (auto simp: st')
next
  case None
  with assms obtain c where c: "log_level_component k = Some c" "known_component c" "handle_set_log_level c v st = Inr st'"
    by (auto simp: put_one_def split: option.splits if_splits)
  note k = log_level_component_key [OF c(1)]
  have "k \<noteq> key_alert_interval" using k by (auto simp: log_level_key_def log_level_prefix_def setting_keys)
  with c k show ?thesis
    by (auto simp: handle_set_log_level_def set_log_level_def settings_set_def split: sum.splits setting_error.splits if_splits)
qed

lemma log_key_is_no_int_key: "(j, acc, d, mn, mx) \<in> set int_settings \<Longrightarrow> j \<noteq> log_level_key c"
  by (auto simp: int_settings_def setting_keys log_level_key_def log_level_prefix_def)

lemma handle_put_cases:
  assumes "handle_setting_put sc k b st = (r, st')"
  obtains "fst r \<noteq> 204" "st' = st"
    | v st1 where "is_global_admin sc" "b = Some v" "r = (204, SettingNone)" "put_one k v st = Inr st1"
      "setting_table st' = setting_table st1" "live_levels st' = live_levels st1"
      "length (setting_audit st') = Suc (length (setting_audit st))"
proof -
  have e: "fst r \<noteq> 204" if "put_one k v st = Inl r" for r v
    using that by (auto simp: put_one_def set_int_from_body_def handle_set_log_level_def setting_error_def rbind_Inl_iff
        split: option.splits sum.splits if_splits setting_error.splits)
  show thesis
  proof (cases "is_global_admin sc \<and> b \<noteq> None")
    case False
    with assms have "fst r \<noteq> 204" "st' = st" by (auto simp: handle_setting_put_def setting_error_def split: if_splits)
    then show thesis by (rule that(1))
  next
    case True
    then obtain v where v: "is_global_admin sc" "b = Some v" by auto
    show thesis
    proof (cases "put_one k v st")
      case (Inl r')
      with v assms have "r = r'" "st' = st" by (simp_all add: handle_setting_put_def Let_def)
      with e [OF Inl] show thesis by (auto intro: that(1))
    next
      case (Inr st1)
      from put_one_effect [OF this] have "setting_audit st1 = setting_audit st" by blast
      with v Inr assms show thesis
        by (intro that(2) [OF v _ Inr]) (auto simp: handle_setting_put_def emit_setting_audit_def Let_def)
    qed
  qed
qed

text \<open>
  a setting that \<open>PUT /api/admin/settings/\<close> accepts takes effect exactly: it comes from a
  global admin, the accessor of the key then returns the number that was sent, every other
  accessor what it returned before, and all of them a value within their bounds, whatever
  text the table held.
\<close>

theorem setting_put_takes_effect:
  assumes "handle_setting_put sc k (Some v) st = (r, st')" "fst r = 204" "(j, acc, d, mn, mx) \<in> set int_settings"
  shows "is_global_admin sc \<and> mn \<le> acc (Some (setting_table st')) \<and> acc (Some (setting_table st')) \<le> mx \<and>
    acc (Some (setting_table st')) = (if j = k then the (atoi v) else acc (Some (setting_table st)))"
  using assms(1)
proof (cases rule: handle_put_cases)
  case (2 v' st1)
  note c = int_settings_clamped [OF assms(3)]
  from put_one_effect [OF 2(4)] obtain w where w: "setting_table st1 = alist_put k w (setting_table st)"
    and k: "(\<exists>n acc d mn mx. atoi v' = Some n \<and> w = itoa n \<and> (k, acc, d, mn, mx) \<in> set int_settings \<and> mn \<le> n \<and> n \<le> mx) \<or>
     (\<exists>c. k = log_level_key c \<and> known_component c \<and> w = v' \<and> valid_log_level v')" by blast
  have get: "settings_get j (setting_table st') = (if j = k then Inr w else settings_get j (setting_table st))"
    by (simp add: settings_get_def 2(5) w)
  have "acc (Some (setting_table st')) = (if j = k then the (atoi v) else acc (Some (setting_table st)))"
  proof (cases "j = k")
    case True
    with k log_key_is_no_int_key [OF assms(3)] obtain n acc' d' mn' mx' where n: "atoi v' = Some n" "w = itoa n"
        "(k, acc', d', mn', mx') \<in> set int_settings" "mn' \<le> n" "n \<le> mx'" by blast
    have "mn' = mn" "mx' = mx"
      using eq_key_imp_eq_value [OF distinct_int_settings n(3) assms(3) [unfolded True]] by simp_all
    with n True c get 2(2) show ?thesis by (simp add: clamped_setting_def atoi_itoa)
  next
    case False
    with get c show ?thesis by (simp add: clamped_setting_def)
  qed
  with 2(1) c sql_settings.clamped_in_bounds [of mn d mx j "Some (setting_table st')"] show ?thesis by simp
qed (use assms in simp)

lemma setting_put_takes_effect_witness:
  "let sc = \<lparr>sc_user = ''u1'', sc_rows = [], sc_global = role_admin, sc_groups = []\<rparr>;
       st = \<lparr>setting_table = [(key_probe_interval, ''x''), (key_misfire_grace, ''5'')], setting_audit = [], live_levels = []\<rparr>;
       st' = snd (handle_setting_put sc key_probe_interval (Some ''+45'') st)
   in probe_interval_seconds (Some (setting_table st)) = 30 \<and> probe_interval_seconds (Some (setting_table st')) = 45 \<and>
      misfire_grace_seconds (Some (setting_table st')) = 120"
proof -
  let ?sc = "\<lparr>sc_user = ''u1'', sc_rows = [], sc_global = role_admin, sc_groups = []\<rparr> :: scope"
  let ?st = "\<lparr>setting_table = [(key_probe_interval, ''x''), (key_misfire_grace, ''5'')], setting_audit = [], live_levels = []\<rparr> :: setting_state"
  let ?h = "handle_setting_put ?sc key_probe_interval (Some ''+45'') ?st"
  have r: "fst (fst ?h) = 204" "probe_interval_seconds (Some (setting_table ?st)) = 30"
      "misfire_grace_seconds (Some (setting_table ?st)) = 120" "atoi ''+45'' = Some 45"
      "key_misfire_grace \<noteq> key_probe_interval" by code_simp+
  have i: "(key_probe_interval, probe_interval_seconds, 30, 5, 3600) \<in> set int_settings"
    "(key_misfire_grace, misfire_grace_seconds, 120, 60, 3600) \<in> set int_settings"
    by (simp_all add: int_settings_def)
  note t = setting_put_takes_effect [OF prod.collapse [symmetric] r(1)]
  from t [OF i(1)] t [OF i(2)] r show ?thesis by (simp add: Let_def)
qed

text \<open>
  The cadence of the alert evaluator cannot be set. It has a key, a default, bounds and a
  setter, but \<open>put\<close> has no case for it: whatever requests are sent, the interval stays what
  the table held at first, one minute on an instance whose table was never edited by hand.
\<close>

theorem alert_interval_cannot_be_set:
  "let st' = foldl (\<lambda>s (sc, k, b). snd (handle_setting_put sc k b s)) st reqs
   in alert_interval_seconds (Some (setting_table st')) = alert_interval_seconds (Some (setting_table st)) \<and>
      fst (fst (handle_setting_put sc key_alert_interval b st)) \<in> {403, 400, 404}"
proof -
  have step: "settings_get key_alert_interval (setting_table (snd (handle_setting_put sc k b s))) =
      settings_get key_alert_interval (setting_table s)" for sc k b s
  proof (cases rule: handle_put_cases [OF prod.collapse [symmetric], of sc k b s])
    case (2 v st1)
    with put_one_effect [OF 2(4)] show ?thesis by (auto simp: settings_get_def)
  qed simp
  have "settings_get key_alert_interval (setting_table (foldl (\<lambda>s (sc, k, b). snd (handle_setting_put sc k b s)) st reqs)) =
      settings_get key_alert_interval (setting_table st)"
    by (induction reqs arbitrary: st) (simp_all add: step case_prod_beta)
  moreover have "map_of int_setters key_alert_interval = None" "log_level_component key_alert_interval = None" by code_simp+
  ultimately show ?thesis
    by (simp add: alert_interval_seconds_def clamped_setting_def handle_setting_put_def put_one_def setting_error_def Let_def
        split: option.split)
qed

end
