(* ===== verification/ScheduleServer.thy ===== *)
theory ScheduleServer
  imports ScheduleProps Settings
begin

text \<open>
  The scheduler as it runs: the routes of \<open>internal/schedules/handler.go\<close> with the gates
  \<open>cmd/server/main.go\<close> passes, the wake-up of \<open>ticker.go\<close>, and \<open>Fire\<close> of
  \<open>orchestrator.go\<close> cut where other goroutines can run between: it takes the lock of its
  schedule and inserts its row, works, writes its result and unlocks.
\<close>

section \<open>State\<close>

text \<open>
  \<open>dispatched\<close> holds the goroutines that have not tried the lock yet, each with the actor
  of its context and the copy of the schedule it was given; \<open>running\<close> those that hold the
  lock of their schedule, with the run they inserted.
\<close>

record sched_state = sched_db +
  now_at :: int
  dispatched :: "(string \<times> schedule) list"
  running :: "(string \<times> string \<times> schedule) list"
  sched_audit :: "event list"

definition locked :: "'a sched_state_scheme \<Rightarrow> string set" where
  "locked st = (\<lambda>(_, _, s). sch_id s) ` set (running st)"

section \<open>The routes\<close>

datatype sched_body =
    SchedNone
  | SchedError string
  | SchedOne schedule
  | SchedMany "schedule list"
  | SchedRuns "schedule_run list"

type_synonym sched_reply = "nat \<times> sched_body"

definition sched_err :: "nat \<Rightarrow> string \<Rightarrow> sched_reply" where
  "sched_err st msg = (st, SchedError msg)"

text \<open>The two callbacks of \<open>main.go\<close>.\<close>

definition visible_schedule :: "scope \<Rightarrow> schedule \<Rightarrow> bool" where
  "visible_schedule sc s =
     (is_global_admin sc \<or> is_global_auditor sc \<or>
      sch_kind s = kind_group \<and> role_on_group sc (sch_value s) = role_admin)"

definition can_manage_target :: "scope \<Rightarrow> string \<Rightarrow> string \<Rightarrow> bool" where
  "can_manage_target sc kind value =
     (is_global_admin sc \<or> kind = kind_group \<and> role_on_group sc value = role_admin)"

definition can_manage_schedule :: "scope \<Rightarrow> schedule \<Rightarrow> bool" where
  "can_manage_schedule sc s = can_manage_target sc (sch_kind s) (sch_value s)"

definition sched_event :: "string \<Rightarrow> string \<Rightarrow> schedule \<Rightarrow> event" where
  "sched_event act actor s = \<lparr>ev_action = act, ev_outcome = ''success'', ev_actor = actor,
     ev_target = sch_id s, ev_label = sch_name s, ev_detail = []\<rparr>"

definition sched_log :: "event \<Rightarrow> 'a sched_state_scheme \<Rightarrow> 'a sched_state_scheme" where
  "sched_log e st = st\<lparr>sched_audit := audit_log_event e (sched_audit st)\<rparr>"

definition get_error :: "schedule_error \<Rightarrow> sched_reply" where
  "get_error e = (if e = ScheduleNotFound then sched_err 404 ''schedule not found'' else sched_err 500 ''get failed'')"

definition handle_sched_list :: "scope \<Rightarrow> 'a sched_state_scheme \<Rightarrow> sched_reply" where
  "handle_sched_list sc st = (200, SchedMany (filter (visible_schedule sc) (list_schedules st)))"

text \<open>The body is \<open>None\<close> where the decoder refuses it; \<open>uid\<close> is the actor, \<open>i\<close> the id \<open>NewID\<close> draws.\<close>

definition handle_sched_create :: "sched_libs \<Rightarrow> scope \<Rightarrow> string \<Rightarrow> string \<Rightarrow> schedule_input option
    \<Rightarrow> 'a sched_state_scheme \<Rightarrow> sched_reply \<times> 'a sched_state_scheme" where
  "handle_sched_create L sc uid i b st =
     (case b of
        None \<Rightarrow> (sched_err 400 ''invalid JSON'', st)
      | Some x \<Rightarrow>
          if \<not> can_manage_target sc (in_kind x) (in_value x) then (sched_err 403 ''forbidden'', st)
          else if uid = [] then (sched_err 401 ''no user'', st)
          else
            (case create_schedule L i (now_at st) x uid st of
               Inl (ScheduleInvalid m) \<Rightarrow> (sched_err 400 m, st)
             | Inl _ \<Rightarrow> (sched_err 500 ''create failed'', st)
             | Inr (s, st') \<Rightarrow> ((201, SchedOne s), sched_log (sched_event ''schedule.create'' uid s) st')))"

definition handle_sched_get :: "scope \<Rightarrow> string \<Rightarrow> 'a sched_state_scheme \<Rightarrow> sched_reply" where
  "handle_sched_get sc i st =
     (case get_schedule i st of
        Inl e \<Rightarrow> get_error e
      | Inr s \<Rightarrow> if \<not> visible_schedule sc s then sched_err 404 ''schedule not found'' else (200, SchedOne s))"

definition handle_sched_update :: "sched_libs \<Rightarrow> scope \<Rightarrow> string \<Rightarrow> string \<Rightarrow> schedule_input option
    \<Rightarrow> 'a sched_state_scheme \<Rightarrow> sched_reply \<times> 'a sched_state_scheme" where
  "handle_sched_update L sc uid i b st =
     (case get_schedule i st of
        Inl e \<Rightarrow> (get_error e, st)
      | Inr cur \<Rightarrow>
          if \<not> can_manage_schedule sc cur then (sched_err 403 ''forbidden'', st)
          else
            (case b of
               None \<Rightarrow> (sched_err 400 ''invalid JSON'', st)
             | Some x \<Rightarrow>
                 if \<not> can_manage_target sc (in_kind x) (in_value x) then (sched_err 403 ''forbidden'', st)
                 else
                   (case update_schedule L i (now_at st) x st of
                      Inl (ScheduleInvalid m) \<Rightarrow> (sched_err 400 m, st)
                    | Inl ScheduleNotFound \<Rightarrow> (sched_err 404 ''schedule not found'', st)
                    | Inl _ \<Rightarrow> (sched_err 500 ''update failed'', st)
                    | Inr (s, st') \<Rightarrow> ((200, SchedOne s), sched_log (sched_event ''schedule.update'' uid s) st'))))"

definition handle_sched_delete :: "scope \<Rightarrow> string \<Rightarrow> string \<Rightarrow> 'a sched_state_scheme
    \<Rightarrow> sched_reply \<times> 'a sched_state_scheme" where
  "handle_sched_delete sc uid i st =
     (case get_schedule i st of
        Inl e \<Rightarrow> (get_error e, st)
      | Inr cur \<Rightarrow>
          if \<not> can_manage_schedule sc cur then (sched_err 403 ''forbidden'', st)
          else
            (case delete_schedule i st of
               Inl _ \<Rightarrow> (sched_err 500 ''delete failed'', st)
             | Inr st' \<Rightarrow> ((204, SchedNone), sched_log (sched_event ''schedule.delete'' uid cur) st')))"

text \<open>\<open>q\<close> is the query parameter \<open>limit\<close>; \<open>MaxRunHistory\<close> is not set, so 50.\<close>

definition run_limit :: "string \<Rightarrow> nat" where
  "run_limit q =
     (if q = [] then 50
      else case atoi q of None \<Rightarrow> 50 | Some n \<Rightarrow> if n > 0 \<and> n < 50 then nat n else 50)"

definition handle_sched_runs :: "scope \<Rightarrow> string \<Rightarrow> string \<Rightarrow> 'a sched_state_scheme \<Rightarrow> sched_reply" where
  "handle_sched_runs sc i q st =
     (case get_schedule i st of
        Inl e \<Rightarrow> get_error e
      | Inr s \<Rightarrow>
          if \<not> visible_schedule sc s then sched_err 404 ''schedule not found''
          else (200, SchedRuns (list_runs i (run_limit q) st)))"

definition handle_run_now :: "scope \<Rightarrow> string \<Rightarrow> string \<Rightarrow> 'a sched_state_scheme
    \<Rightarrow> sched_reply \<times> 'a sched_state_scheme" where
  "handle_run_now sc uid i st =
     (case get_schedule i st of
        Inl e \<Rightarrow> (get_error e, st)
      | Inr s \<Rightarrow>
          if \<not> can_manage_schedule sc s then (sched_err 403 ''forbidden'', st)
          else ((202, SchedNone),
                sched_log (sched_event ''schedule.run_now'' uid s) (st\<lparr>dispatched := dispatched st @ [(uid, s)]\<rparr>)))"

section \<open>The ticker and the runs\<close>

definition default_misfire_grace :: int where "default_misfire_grace = 120000000000"

text \<open>\<open>MisfireGrace\<close> is not set; the settings row is read at each tick.\<close>

definition resolve_grace :: "setting_rows option \<Rightarrow> int" where
  "resolve_grace rows =
     (let g = misfire_grace_seconds rows * 1000000000 in if g > 0 then g else default_misfire_grace)"

definition tick :: "sched_libs \<Rightarrow> setting_rows option \<Rightarrow> 'a sched_state_scheme \<Rightarrow> 'a sched_state_scheme" where
  "tick L rows st =
     (let st' = (case reconcile_missed L (now_at st) (resolve_grace rows) st of
                   Inl _ \<Rightarrow> st | Inr (_, st1) \<Rightarrow> st1)
      in st'\<lparr>dispatched := dispatched st' @ map (Pair []) (due_schedules (now_at st') st')\<rparr>)"

text \<open>A goroutine tries the lock; \<open>rid\<close> is the id of the run it inserts.\<close>

definition fire_start :: "string \<Rightarrow> string \<times> schedule \<Rightarrow> 'a sched_state_scheme \<Rightarrow> 'a sched_state_scheme" where
  "fire_start rid g st =
     (let st' = st\<lparr>dispatched := remove1 g (dispatched st)\<rparr>; s = snd g
      in if sch_id s \<in> locked st' then st'
         else
           (case record_run_start rid (sch_id s) (now_at st') st' of
              Inl _ \<Rightarrow> st'
            | Inr (_, st1) \<Rightarrow> st1\<lparr>running := running st1 @ [(rid, g)]\<rparr>))"

definition fire_finish :: "sched_libs \<Rightarrow> string \<times> string \<times> schedule \<Rightarrow> run_status \<times> nat \<times> nat \<times> nat \<times> string
    \<Rightarrow> 'a sched_state_scheme \<Rightarrow> 'a sched_state_scheme" where
  "fire_finish L r out st =
     (case (r, out) of
        ((rid, actor, s), (status, att, ok, bad, msg)) \<Rightarrow>
          let st1 = (case record_run_finish L rid status att ok bad msg (now_at st) st of
                       Inl _ \<Rightarrow> st | Inr st' \<Rightarrow> st')
          in (sched_log (run_event actor s rid status msg) st1)\<lparr>running := remove1 r (running st1)\<rparr>)"

section \<open>Executions\<close>

text \<open>
  Any interleaving of requests, wake-ups and goroutines, at clock times that never go back.
  \<open>Finish\<close> takes the labels, the inventory and the updaters it finds; \<open>Crash\<close> is the end
  of the process, by the operator or by the panic \<open>fire_work\<close> reports as \<open>None\<close>. The id a
  run draws is not that of a run at work; a clash with a row is an error of \<open>INSERT\<close>.
\<close>

inductive sched_step :: "sched_libs \<Rightarrow> sched_state \<Rightarrow> sched_state \<Rightarrow> bool" for L where
  Clock: "now_at st \<le> t \<Longrightarrow> sched_step L st (st\<lparr>now_at := t\<rparr>)"
| Create: "sched_step L st (snd (handle_sched_create L sc uid i b st))"
| Update: "sched_step L st (snd (handle_sched_update L sc uid i b st))"
| Delete: "sched_step L st (snd (handle_sched_delete sc uid i st))"
| RunNow: "sched_step L st (snd (handle_run_now sc uid i st))"
| Tick: "sched_step L st (tick L rows st)"
| Start: "g \<in> set (dispatched st) \<Longrightarrow> rid \<notin> fst ` set (running st) \<Longrightarrow> sched_step L st (fire_start rid g st)"
| Finish: "(rid, actor, s) \<in> set (running st) \<Longrightarrow> fire_work L F s lbl fleet = Some (out, fleet') \<Longrightarrow>
    sched_step L st (fire_finish L (rid, actor, s) out st)"
| Crash: "sched_step L st (st\<lparr>dispatched := [], running := []\<rparr>)"

inductive sched_reach :: "sched_libs \<Rightarrow> sched_state \<Rightarrow> sched_state \<Rightarrow> bool" for L st0 where
  reach_refl: "sched_reach L st0 st0"
| reach_step: "sched_reach L st0 st \<Longrightarrow> sched_step L st st' \<Longrightarrow> sched_reach L st0 st'"

lemma sched_reach_invariant:
  assumes "sched_reach L st0 st" "P st0" "\<And>a b. P a \<Longrightarrow> sched_step L a b \<Longrightarrow> P b"
  shows "P st"
  using assms by (induction rule: sched_reach.induct) blast+

text \<open>What a run row says, and what the goroutines that hold a lock know of it.\<close>

definition run_ok :: "schedule_run \<Rightarrow> bool" where
  "run_ok r \<longleftrightarrow> (run_status r = RunRunning \<longleftrightarrow> run_finished r = None) \<and>
     run_succeeded r + run_failed r = run_attempted r \<and>
     (run_status r = RunSuccess \<longrightarrow> run_failed r = 0) \<and>
     (run_status r = RunPartial \<longrightarrow> 0 < run_succeeded r \<and> 0 < run_failed r) \<and>
     (run_status r = RunFailed \<longrightarrow> run_succeeded r = 0)"

definition sched_inv :: "sched_libs \<Rightarrow> sched_state \<Rightarrow> bool" where
  "sched_inv L st \<longleftrightarrow> wf_sched L st \<and> (\<forall>r\<in>set (sched_runs st). run_ok r) \<and>
     distinct (map (\<lambda>(_, _, s). sch_id s) (running st)) \<and>
     (\<forall>(rid, _, s)\<in>set (running st). \<forall>r\<in>set (sched_runs st). run_id r = rid \<longrightarrow>
        run_schedule r = sch_id s \<and> run_status r = RunRunning)"

lemma wf_sched_truncate:
  "wf_sched L (st\<lparr>now_at := t\<rparr>) = wf_sched L st" "wf_sched L (st\<lparr>dispatched := ds\<rparr>) = wf_sched L st"
  "wf_sched L (st\<lparr>running := rs\<rparr>) = wf_sched L st" "wf_sched L (sched_log e st) = wf_sched L st"
  "wf_sched L (st\<lparr>sched_audit := es\<rparr>) = wf_sched L st"
  by (simp_all add: wf_sched_def sched_log_def)

lemma sched_inv_fields [simp]:
  "sched_inv L (st\<lparr>now_at := t\<rparr>) = sched_inv L st" "sched_inv L (st\<lparr>dispatched := ds\<rparr>) = sched_inv L st"
  "sched_inv L (sched_log e st) = sched_inv L st"
  by (simp_all add: sched_inv_def wf_sched_def sched_log_def)

lemma sched_invI:
  assumes "wf_sched L st" "\<And>r. r \<in> set (sched_runs st) \<Longrightarrow> run_ok r"
    and "distinct (map (\<lambda>(_, _, s). sch_id s) (running st))"
    and "\<And>rid actor s r. (rid, actor, s) \<in> set (running st) \<Longrightarrow> r \<in> set (sched_runs st) \<Longrightarrow> run_id r = rid \<Longrightarrow>
      run_schedule r = sch_id s \<and> run_status r = RunRunning"
  shows "sched_inv L st"
  using assms unfolding sched_inv_def by blast

text \<open>An operation on the schedules alone leaves runs and goroutines as they were.\<close>

lemma inv_schedules:
  assumes "sched_inv L st" "wf_sched L st'" "sched_runs st' = sched_runs st" "running st' = running st"
  shows "sched_inv L st'"
  using assms unfolding sched_inv_def by simp

lemma final_status_fits:
  assumes "ok + bad = att"
  shows "final_status att ok bad \<noteq> RunRunning \<and> (final_status att ok bad = RunSuccess \<longleftrightarrow> bad = 0) \<and>
    (final_status att ok bad = RunPartial \<longleftrightarrow> 0 < ok \<and> 0 < bad) \<and>
    (final_status att ok bad = RunFailed \<longleftrightarrow> ok = 0 \<and> 0 < bad)"
  using assms by (auto simp: final_status_def)

lemma fire_work_tally:
  assumes "fire_work L F s lbl fleet = Some ((status, att, ok, bad, msg), fleet')"
  shows "ok + bad = att \<and> (status = final_status att ok bad \<or> status = RunFailed \<and> att = 0)"
proof (cases "resolve_target (json_ids L) (sch_kind s) (sch_value s) fleet lbl")
  case (Inl e)
  with assms show ?thesis by (cases e) (simp_all add: fire_work_def)
next
  case (Inr targets)
  obtain k n fl where r: "run_hosts F s (map sys_id targets) 0 0 fleet = (k, n, fl)" by (metis prod_cases3)
  from run_hosts_tally [OF r] have "k + n = length targets" by simp
  with assms Inr r show ?thesis by (auto simp: fire_work_def)
qed

lemma finished_run_ok:
  assumes "fire_work L F s lbl fleet = Some ((status, att, ok, bad, msg), fleet')"
  shows "run_ok (r\<lparr>run_status := status, run_finished := Some now, run_attempted := att,
     run_succeeded := ok, run_failed := bad, run_message := msg'\<rparr>)"
proof -
  from fire_work_tally [OF assms] have t: "ok + bad = att" "status = final_status att ok bad \<or> status = RunFailed \<and> att = 0"
    by blast+
  from t(2) show ?thesis
  proof
    assume "status = final_status att ok bad"
    with final_status_fits [OF t(1)] t(1) show ?thesis by (simp add: run_ok_def)
  next
    assume "status = RunFailed \<and> att = 0"
    with t(1) show ?thesis by (simp add: run_ok_def)
  qed
qed

lemma handler_wf:
  "sched_inv L st \<Longrightarrow> sched_inv L (snd (handle_sched_create L sc uid i b st))"
  "sched_inv L st \<Longrightarrow> sched_inv L (snd (handle_sched_update L sc uid i b st))"
  "sched_inv L st \<Longrightarrow> sched_inv L (snd (handle_run_now sc uid i st))"
proof -
  assume inv: "sched_inv L st"
  then have wf: "wf_sched L st" by (simp add: sched_inv_def)
  have c: "sched_inv L st'" if "create_schedule L i (now_at st) x uid st = Inr (s, st')" for x s st'
    using create_schedule_wf [OF wf that] that
    by (intro inv_schedules [OF inv]) (auto simp: create_schedule_def Let_def split: if_splits)
  have u: "sched_inv L st'" if "update_schedule L i (now_at st) x st = Inr (s, st')" for x s st'
    using update_schedule_wf [OF wf that] that
    by (intro inv_schedules [OF inv]) (auto simp: update_schedule_def Let_def split: if_splits)
  show "sched_inv L (snd (handle_sched_create L sc uid i b st))"
    using inv c by (auto simp: handle_sched_create_def split: option.split sum.split schedule_error.split)
  show "sched_inv L (snd (handle_sched_update L sc uid i b st))"
    using inv u by (auto simp: handle_sched_update_def split: option.split sum.split schedule_error.split)
  show "sched_inv L (snd (handle_run_now sc uid i st))"
    using inv by (auto simp: handle_run_now_def split: sum.split)
qed

lemma delete_handler_wf:
  assumes "sched_inv L st"
  shows "sched_inv L (snd (handle_sched_delete sc uid i st))"
proof -
  have "sched_inv L st'" if d: "delete_schedule i st = Inr st'" for st'
  proof -
    have "wf_sched L st'" using delete_schedule_wf [OF _ d, of L] assms by (simp add: sched_inv_def)
    moreover have "set (sched_runs st') \<subseteq> set (sched_runs st)" "running st' = running st"
      using d by (auto simp: delete_schedule_def split: if_splits)
    ultimately show ?thesis using assms unfolding sched_inv_def by fastforce
  qed
  with assms show ?thesis by (auto simp: handle_sched_delete_def split: sum.split)
qed

lemma tick_wf:
  assumes "sched_inv L st"
  shows "sched_inv L (tick L rows st)"
proof -
  have wf: "wf_sched L st" using assms by (simp add: sched_inv_def)
  show ?thesis
  proof (cases "all_have_next L (now_at st) (resolve_grace rows) st")
    case True
    from reconcile_missed_eq [OF wf True] reconcile_wf [OF wf True] show ?thesis
      by (simp add: tick_def Let_def) (auto intro: inv_schedules [OF assms])
  next
    case False
    from reconcile_fails [OF this] inv_schedules [OF assms wf] show ?thesis
      by (auto simp: tick_def Let_def is_ok_iff split: sum.splits)
  qed
qed

lemma start_wf:
  assumes "sched_inv L st" "rid \<notin> fst ` set (running st)"
  shows "sched_inv L (fire_start rid g st)"
proof (cases "sch_id (snd g) \<in> locked st \<or> rid \<in> run_id ` set (sched_runs st)")
  case True
  with assms(1) show ?thesis by (auto simp: fire_start_def Let_def record_run_start_def locked_def)
next
  case False
  have n: "fire_start rid g st = st\<lparr>dispatched := remove1 g (dispatched st),
      sched_runs := sched_runs st @ [new_run rid (sch_id (snd g)) (now_at st)], running := running st @ [(rid, g)]\<rparr>"
    using False by (simp add: fire_start_def Let_def record_run_start_def locked_def)
  have wf: "wf_sched L (st\<lparr>sched_runs := sched_runs st @ [new_run rid (sch_id (snd g)) (now_at st)]\<rparr>)"
    using record_start_wf [of L st rid "sch_id (snd g)" "now_at st"] False assms
    by (simp add: sched_inv_def record_run_start_def)
  show ?thesis unfolding n
  proof (rule sched_invI)
    show "distinct (map (\<lambda>(_, _, s). sch_id s) (running (st\<lparr>dispatched := remove1 g (dispatched st),
      sched_runs := sched_runs st @ [new_run rid (sch_id (snd g)) (now_at st)], running := running st @ [(rid, g)]\<rparr>)))"
      using False assms(1) by (auto simp: sched_inv_def locked_def image_iff split: prod.splits)
  next
    fix r assume "r \<in> set (sched_runs (st\<lparr>dispatched := remove1 g (dispatched st),
      sched_runs := sched_runs st @ [new_run rid (sch_id (snd g)) (now_at st)], running := running st @ [(rid, g)]\<rparr>))"
    then show "run_ok r" using assms(1) by (auto simp: sched_inv_def run_ok_def new_run_def)
  next
    fix rid' actor s r
    assume a: "(rid', actor, s) \<in> set (running (st\<lparr>dispatched := remove1 g (dispatched st),
      sched_runs := sched_runs st @ [new_run rid (sch_id (snd g)) (now_at st)], running := running st @ [(rid, g)]\<rparr>))"
      "r \<in> set (sched_runs (st\<lparr>dispatched := remove1 g (dispatched st),
      sched_runs := sched_runs st @ [new_run rid (sch_id (snd g)) (now_at st)], running := running st @ [(rid, g)]\<rparr>))"
      "run_id r = rid'"
    show "run_schedule r = sch_id s \<and> run_status r = RunRunning"
    proof (cases "(rid', actor, s) \<in> set (running st)")
      case True
      then have "rid' \<noteq> rid" using assms(2) by force
      then have "r \<in> set (sched_runs st)" using a(2,3) by (auto simp: new_run_def)
      with True a(3) assms(1) show ?thesis unfolding sched_inv_def by blast
    next
      case False
      then have g: "rid' = rid" "g = (actor, s)" using a(1) by auto
      then have "r \<notin> set (sched_runs st)" using a(3) \<open>\<not> (sch_id (snd g) \<in> locked st \<or> rid \<in> run_id ` set (sched_runs st))\<close> by blast
      with a(2) g show ?thesis by (simp add: new_run_def)
    qed
  qed (use wf in \<open>simp add: wf_sched_def\<close>)
qed

lemma finish_wf:
  assumes "sched_inv L st" "(rid, actor, s) \<in> set (running st)" "fire_work L F s lbl fleet = Some (out, fleet')"
  shows "sched_inv L (fire_finish L (rid, actor, s) out st)"
proof -
  obtain status att ok bad msg where out: "out = (status, att, ok, bad, msg)" by (metis prod_cases5)
  define r0 where "r0 = (rid, actor, s)"
  have d: "distinct (running st)" "inj_on (\<lambda>(_, _, s). sch_id s) (set (running st))"
    using assms(1) by (simp_all add: sched_inv_def distinct_map)
  have left: "set (remove1 r0 (running st)) = set (running st) - {r0}" using d(1) by simp
  have locks: "distinct (map (\<lambda>(_, _, s). sch_id s) (remove1 r0 (running st)))"
    using d inj_on_diff [OF d(2)] by (simp add: distinct_map)
  show ?thesis
  proof (cases "record_run_finish L rid status att ok bad msg (now_at st) st")
    case (Inl e)
    then have f: "fire_finish L r0 out st =
        (sched_log (run_event actor s rid status msg) st)\<lparr>running := remove1 r0 (running st)\<rparr>"
      by (simp add: fire_finish_def out r0_def sched_log_def)
    show ?thesis unfolding r0_def [symmetric] f
    proof (rule sched_invI)
      fix rid' actor' s' r
      assume "(rid', actor', s') \<in> set (running ((sched_log (run_event actor s rid status msg) st)\<lparr>running := remove1 r0 (running st)\<rparr>))"
        "r \<in> set (sched_runs ((sched_log (run_event actor s rid status msg) st)\<lparr>running := remove1 r0 (running st)\<rparr>))" "run_id r = rid'"
      with left assms(1) show "run_schedule r = sch_id s' \<and> run_status r = RunRunning"
        unfolding sched_inv_def by (fastforce simp: sched_log_def)
    qed (use assms(1) locks in \<open>auto simp: sched_inv_def wf_sched_truncate sched_log_def\<close>)
  next
    case (Inr st1)
    let ?f = "\<lambda>r. r\<lparr>run_status := status, run_finished := Some (now_at st), run_attempted := att,
       run_succeeded := ok, run_failed := bad, run_message := msg\<rparr>"
    have wf: "wf_sched L st1" using record_finish_wf [OF _ Inr] assms(1) by (simp add: sched_inv_def)
    have runs: "sched_runs st1 = update_where (\<lambda>r. run_id r = rid) ?f (sched_runs st)" "running st1 = running st"
      using Inr unfolding record_run_finish_def by (auto simp: Let_def split: option.splits)
    have f: "fire_finish L r0 out st =
        (sched_log (run_event actor s rid status msg) st1)\<lparr>running := remove1 r0 (running st)\<rparr>"
      using Inr runs by (simp add: fire_finish_def out r0_def sched_log_def)
    show ?thesis unfolding r0_def [symmetric] f
    proof (rule sched_invI)
      fix r assume "r \<in> set (sched_runs ((sched_log (run_event actor s rid status msg) st1)\<lparr>running := remove1 r0 (running st)\<rparr>))"
      then obtain q where "q \<in> set (sched_runs st)" "r = (if run_id q = rid then ?f q else q)"
        by (auto simp: sched_log_def runs)
      with assms(1) finished_run_ok [OF assms(3) [unfolded out]] show "run_ok r" by (auto simp: sched_inv_def)
    next
      fix rid' actor' s' r
      assume a: "(rid', actor', s') \<in> set (running ((sched_log (run_event actor s rid status msg) st1)\<lparr>running := remove1 r0 (running st)\<rparr>))"
        "r \<in> set (sched_runs ((sched_log (run_event actor s rid status msg) st1)\<lparr>running := remove1 r0 (running st)\<rparr>))" "run_id r = rid'"
      then have e: "(rid', actor', s') \<in> set (running st)" "(rid', actor', s') \<noteq> r0" using left by auto
      from a(2) obtain q where q: "q \<in> set (sched_runs st)" "r = (if run_id q = rid then ?f q else q)"
        by (auto simp: sched_log_def runs)
      then have "run_id q = rid'" using a(3) by (auto split: if_splits)
      with e(1) q(1) assms(1) have rq: "run_schedule q = sch_id s'" "run_status q = RunRunning"
        unfolding sched_inv_def by blast+
      have "run_id q \<noteq> rid"
      proof
        assume "run_id q = rid"
        with assms(1,2) q(1) have "run_schedule q = sch_id s" unfolding sched_inv_def by blast
        with rq(1) have "(rid', actor', s') = r0"
          using inj_onD [OF d(2), of "(rid', actor', s')" r0] e(1) assms(2) by (simp add: r0_def)
        with e(2) show False by simp
      qed
      with q(2) rq show "run_schedule r = sch_id s' \<and> run_status r = RunRunning" by simp
    qed (use wf locks in \<open>simp_all add: wf_sched_truncate\<close>)
  qed
qed

lemma sched_step_inv:
  assumes "sched_inv L st" "sched_step L st st'"
  shows "sched_inv L st'"
  using assms(2,1)
proof cases
  case Crash
  with assms(1) show ?thesis by (auto simp: sched_inv_def wf_sched_def)
qed (auto intro: handler_wf delete_handler_wf tick_wf start_wf finish_wf)

end
