(* ===== verification/ScheduleClaims.thy ===== *)
theory ScheduleClaims
  imports ScheduleServer
begin

text \<open>
  What holds in every execution of the scheduler, what a wake-up dispatches, who can touch
  which schedule, and two ways in which it goes wrong.
\<close>

section \<open>Concrete values for the witnesses\<close>

definition utc_libs :: sched_libs where
  "utc_libs = \<lparr>json_ids = (\<lambda>_. None), zone_rule = (\<lambda>z. if z = ''UTC'' then Some (\<lambda>_. 0) else None)\<rparr>"

definition idle_state :: sched_state where
  "idle_state = \<lparr>sched_rows = [], sched_runs = [], now_at = 0, dispatched = [], running = [], sched_audit = []\<rparr>"

definition nightly :: schedule_input where
  "nightly = \<lparr>in_name = ''nightly'', in_cron = ''0 3 * * *'', in_zone = [], in_check = True, in_apply = True,
     in_reboot = False, in_kind = kind_global, in_value = [], in_enabled = True\<rparr>"

definition admin_scope :: scope where
  "admin_scope = new_scope ''u1'' [\<lparr>as_user = ''u1'', as_group = None, as_role = role_admin\<rparr>]"

definition nightly_schedule :: schedule where
  "nightly_schedule = \<lparr>sch_id = ''s1'', sch_name = ''nightly'', sch_cron = ''0 3 * * *'', sch_zone = ''UTC'',
     sch_check = True, sch_apply = True, sch_reboot = False, sch_kind = kind_global, sch_value = [],
     sch_enabled = True, sch_next = Some 10800000000000, sch_last = None, sch_status = None, sch_by = ''u1'',
     sch_created = 0, sch_updated = 0\<rparr>"

text \<open>The search needs few of its iterations here, so it is evaluated with little fuel.\<close>

lemma compute_next_early:
  assumes "case parse_cron e of Inl _ \<Rightarrow> False | Inr c \<Rightarrow> cron_search c k (add_minute (civil_at off t)) = Some w"
    and "zone_rule L z = Some (\<lambda>_. off)" "k \<le> max_iterations"
  shows "compute_next L e z t = Inr (instant_of off w)"
proof -
  from assms(1) obtain c where c: "parse_cron e = Inr c" "cron_search c k (add_minute (civil_at off t)) = Some w"
    by (auto split: sum.splits)
  from next_after_early [OF c(2) assms(3)] c(1) assms(2) show ?thesis by (simp add: compute_next_def)
qed

lemma nightly_next:
  "compute_next utc_libs ''0 3 * * *'' ''UTC'' 0 = Inr 10800000000000"
  "compute_next utc_libs ''0 3 * * *'' ''UTC'' 10800000000000 = Inr 97200000000000"
  "compute_next utc_libs ''0 3 * * *'' ''UTC'' 10890000000000 = Inr 97200000000000"
proof -
  have u: "zone_rule utc_libs ''UTC'' = Some (\<lambda>_. 0)" by (simp add: utc_libs_def)
  have m: "100 \<le> max_iterations" by (simp add: max_iterations_def)
  have i: "instant_of 0 (Civil 1970 1 1 3 0) = 10800000000000" "instant_of 0 (Civil 1970 1 2 3 0) = 97200000000000"
    by code_simp+
  have "case parse_cron ''0 3 * * *'' of Inl _ \<Rightarrow> False
      | Inr c \<Rightarrow> cron_search c 100 (add_minute (civil_at 0 0)) = Some (Civil 1970 1 1 3 0)" by code_simp
  from compute_next_early [OF this u m] show "compute_next utc_libs ''0 3 * * *'' ''UTC'' 0 = Inr 10800000000000"
    by (simp only: i)
  have "case parse_cron ''0 3 * * *'' of Inl _ \<Rightarrow> False
      | Inr c \<Rightarrow> cron_search c 100 (add_minute (civil_at 0 10800000000000)) = Some (Civil 1970 1 2 3 0)" by code_simp
  from compute_next_early [OF this u m]
  show "compute_next utc_libs ''0 3 * * *'' ''UTC'' 10800000000000 = Inr 97200000000000" by (simp only: i)
  have "case parse_cron ''0 3 * * *'' of Inl _ \<Rightarrow> False
      | Inr c \<Rightarrow> cron_search c 100 (add_minute (civil_at 0 10890000000000)) = Some (Civil 1970 1 2 3 0)" by code_simp
  from compute_next_early [OF this u m]
  show "compute_next utc_libs ''0 3 * * *'' ''UTC'' 10890000000000 = Inr 97200000000000" by (simp only: i)
qed

lemma nightly_created:
  "create_schedule utc_libs ''s1'' 0 nightly ''u1'' idle_state =
     Inr (nightly_schedule, idle_state\<lparr>sched_rows := [nightly_schedule]\<rparr>)"
proof -
  have "validate_schedule utc_libs nightly = Inr (nightly\<lparr>in_zone := ''UTC''\<rparr>)" by code_simp
  then show ?thesis
    by (simp add: create_schedule_def nightly_def nightly_next nightly_schedule_def idle_state_def Let_def)
qed

lemma nightly_handled:
  "snd (handle_sched_create utc_libs admin_scope ''u1'' ''s1'' (Some nightly) idle_state) =
     sched_log (sched_event ''schedule.create'' ''u1'' nightly_schedule) (idle_state\<lparr>sched_rows := [nightly_schedule]\<rparr>)"
proof -
  have "can_manage_target admin_scope (in_kind nightly) (in_value nightly)" by code_simp
  moreover have "now_at idle_state = 0" by (simp add: idle_state_def)
  ultimately show ?thesis by (simp add: handle_sched_create_def nightly_created)
qed

section \<open>Every execution\<close>

text \<open>
  C12: Whatever requests, wake-ups, goroutines and crashes interleave: no two runs of one schedule are
  at work together; an enabled schedule always has its next run, at a minute its expression names,
  and a disabled one has none; every run row that is finished accounts for each of its hosts, and
  its status says what the counts say.
\<close>

theorem scheduler_stays_sound:
  assumes "sched_reach L st0 st" "sched_rows st0 = []" "sched_runs st0 = []" "running st0 = []"
  shows "distinct (map (\<lambda>(_, _, s). sch_id s) (running st)) \<and> distinct (map sch_id (sched_rows st)) \<and>
    (\<forall>s\<in>set (sched_rows st).
       if sch_enabled s then \<exists>n. sch_next s = Some n \<and> fires_at L s n else sch_next s = None) \<and>
    (\<forall>r\<in>set (sched_runs st).
       (run_status r = RunRunning \<longleftrightarrow> run_finished r = None) \<and> run_succeeded r + run_failed r = run_attempted r \<and>
       (run_status r = RunSuccess \<longrightarrow> run_failed r = 0) \<and>
       (run_status r = RunPartial \<longrightarrow> 0 < run_succeeded r \<and> 0 < run_failed r) \<and>
       (run_status r = RunFailed \<longrightarrow> run_succeeded r = 0))"
proof -
  have "sched_inv L st0" using assms(2-4) by (simp add: sched_inv_def wf_sched_def)
  with assms(1) have inv: "sched_inv L st" by (rule sched_reach_invariant) (rule sched_step_inv)
  then have "schedule_ok L s" if "s \<in> set (sched_rows st)" for s using that by (simp add: sched_inv_def wf_sched_def)
  with inv show ?thesis unfolding sched_inv_def wf_sched_def
    by (auto simp: run_ok_def schedule_ok_def split: if_splits)
qed

theorem scheduler_stays_sound_witness:
  "\<exists>n. sch_next nightly_schedule = Some n \<and> fires_at utc_libs nightly_schedule n"
proof -
  let ?st = "snd (handle_sched_create utc_libs admin_scope ''u1'' ''s1'' (Some nightly) idle_state)"
  have "sched_reach utc_libs idle_state ?st"
    by (rule reach_step [OF reach_refl Create])
  moreover have "nightly_schedule \<in> set (sched_rows ?st)" unfolding nightly_handled by (simp add: sched_log_def)
  moreover have "sch_enabled nightly_schedule" by (simp add: nightly_schedule_def)
  ultimately show ?thesis
    using scheduler_stays_sound [of utc_libs idle_state ?st] by (auto simp: idle_state_def)
qed

section \<open>The wake-up\<close>

lemma grace_bounds: "60000000000 \<le> resolve_grace rows \<and> resolve_grace rows \<le> 3600000000000"
proof -
  have "60 \<le> misfire_grace_seconds rows \<and> misfire_grace_seconds rows \<le> 3600"
    by (auto simp: misfire_grace_seconds_def clamped_setting_def split: option.splits sum.splits)
  then show ?thesis by (simp add: resolve_grace_def Let_def)
qed

lemma tick_eq:
  assumes "wf_sched L st" "all_have_next L (now_at st) (resolve_grace rows) st"
  shows "tick L rows st = st\<lparr>sched_rows := map (move_missed L (now_at st) (resolve_grace rows)) (sched_rows st),
    dispatched := dispatched st @ map (Pair []) (due_schedules (now_at st)
      (st\<lparr>sched_rows := map (move_missed L (now_at st) (resolve_grace rows)) (sched_rows st)\<rparr>))\<rparr>"
  by (simp add: tick_def reconcile_missed_eq [OF assms] due_schedules_def)

lemma tick_rolls_back:
  assumes "\<not> all_have_next L (now_at st) (resolve_grace rows) st"
  shows "tick L rows st = st\<lparr>dispatched := dispatched st @ map (Pair []) (due_schedules (now_at st) st)\<rparr>"
  using reconcile_fails [OF assms] by (auto simp: tick_def Let_def is_ok_iff split: sum.splits)

text \<open>Where the missed clocks are steady, nothing that was moved is due.\<close>

lemma moved_is_not_due:
  assumes "schedule_ok L s" "is_missed (now - g) s" "steady L s" "has_next L now s"
  shows "now < next_time L now s \<and> (\<forall>m. now < m \<and> m < next_time L now s \<longrightarrow> \<not> fires_at L s m)"
  using compute_next_first [OF has_next_time [OF assms(4)] assms(3)] by blast

lemma due_after_move:
  assumes "wf_sched L st" "all_have_next L now g st" "\<forall>s\<in>set (sched_rows st). is_missed (now - g) s \<longrightarrow> steady L s"
  shows "set (due_schedules now (st\<lparr>sched_rows := map (move_missed L now g) (sched_rows st)\<rparr>)) =
    {s \<in> set (sched_rows st). is_due now s \<and> \<not> is_missed (now - g) s}" (is "?L = ?R")
proof -
  have moved: "\<not> is_due now (move_missed L now g s)" if "s \<in> set (sched_rows st)" "is_missed (now - g) s" for s
    using moved_is_not_due [of L s now g] that assms
    by (auto simp: wf_sched_def all_have_next_def list_all_iff move_missed_def is_due_def)
  have keep: "move_missed L now g s = s" if "\<not> is_missed (now - g) s" for s using that by (simp add: move_missed_def)
  have "?L = move_missed L now g ` set (sched_rows st) \<inter> {s. is_due now s}" by (auto simp: due_schedules_def)
  also have "\<dots> = ?R" using moved keep by force
  finally show ?thesis .
qed

text \<open>
  C13: A wake-up reads a next run of an enabled schedule that lies further back than the grace, a setting
  between a minute and an hour, as missed. If every missed schedule has a next time, each is moved to
  its own, in a zone of constant offset the first fire time after now; if one has none, none is moved, and
  what was missed is fired late with all else that is due. Where the clocks of the missed ones are
  of constant offset they do have one, and exactly the enabled schedules whose next run lies within the
  grace before now are dispatched: an outage leaves no spike of late runs. All other schedules are left as
  they are.
\<close>

theorem tick_fires_what_is_due:
  assumes "wf_sched L st"
  shows "\<exists>fired g missed. g = resolve_grace rows \<and> 60000000000 \<le> g \<and> g \<le> 3600000000000 \<and>
    missed = {s \<in> set (sched_rows st). sch_enabled s \<and> (\<exists>n. sch_next s = Some n \<and> n < now_at st - g)} \<and>
    dispatched (tick L rows st) = dispatched st @ map (Pair []) fired \<and>
    wf_sched L (tick L rows st) \<and> set (sched_rows st) - missed \<subseteq> set (sched_rows (tick L rows st)) \<and>
    (if \<forall>s\<in>missed. has_next L (now_at st) s
     then \<forall>s\<in>missed. \<exists>n. s\<lparr>sch_next := Some n\<rparr> \<in> set (sched_rows (tick L rows st)) \<and> fires_at L s n \<and>
            (steady L s \<longrightarrow> now_at st < n \<and> (\<forall>m. now_at st < m \<and> m < n \<longrightarrow> \<not> fires_at L s m))
     else sched_rows (tick L rows st) = sched_rows st \<and> missed \<subseteq> set fired) \<and>
    ((\<forall>s\<in>missed. steady L s) \<longrightarrow>
       (\<forall>s\<in>missed. has_next L (now_at st) s) \<and>
       set fired = {s \<in> set (sched_rows st). sch_enabled s \<and>
         (\<exists>n. sch_next s = Some n \<and> now_at st - g \<le> n \<and> n \<le> now_at st)})"
proof -
  define g where "g = resolve_grace rows"
  define mv where "mv = move_missed L (now_at st) g"
  define missed where "missed = {s \<in> set (sched_rows st). is_missed (now_at st - g) s}"
  define ok where "ok = all_have_next L (now_at st) g st"
  define fired where "fired = due_schedules (now_at st) (if ok then st\<lparr>sched_rows := map mv (sched_rows st)\<rparr> else st)"
  have g: "60000000000 \<le> g" "g \<le> 3600000000000" using grace_bounds [of rows] by (simp_all add: g_def)
  have ok_iff: "ok \<longleftrightarrow> (\<forall>s\<in>missed. has_next L (now_at st) s)"
    by (auto simp: ok_def all_have_next_def list_all_iff missed_def)
  have t: "tick L rows st = (if ok then st\<lparr>sched_rows := map mv (sched_rows st)\<rparr> else st)
      \<lparr>dispatched := dispatched st @ map (Pair []) fired\<rparr>"
    using tick_eq [OF assms, of rows] tick_rolls_back [of L st rows] by (simp add: fired_def mv_def g_def ok_def)
  have wf: "wf_sched L (tick L rows st)"
    using assms reconcile_wf [OF assms, of "now_at st" g] by (auto simp: t ok_def mv_def wf_sched_def)
  have kept: "set (sched_rows st) - missed \<subseteq> set (sched_rows (tick L rows st))"
    by (force simp: t missed_def mv_def move_missed_def)
  have moved: "\<exists>n. s\<lparr>sch_next := Some n\<rparr> \<in> set (sched_rows (tick L rows st)) \<and> fires_at L s n \<and>
      (steady L s \<longrightarrow> now_at st < n \<and> (\<forall>m. now_at st < m \<and> m < n \<longrightarrow> \<not> fires_at L s m))"
    if "s \<in> missed" ok for s
  proof (intro exI conjI impI)
    from that have h: "has_next L (now_at st) s" "s \<in> set (sched_rows st)" "is_missed (now_at st - g) s"
      using ok_iff by (auto simp: missed_def)
    then have "s\<lparr>sch_next := Some (next_time L (now_at st) s)\<rparr> = mv s" by (simp add: mv_def move_missed_def)
    then show "s\<lparr>sch_next := Some (next_time L (now_at st) s)\<rparr> \<in> set (sched_rows (tick L rows st))" using h that(2) by (simp add: t)
    show "fires_at L s (next_time L (now_at st) s)" using compute_next_fires [OF has_next_time [OF h(1)]] .
    assume "steady L s"
    from compute_next_first [OF has_next_time [OF h(1)] this]
    show "now_at st < next_time L (now_at st) s" "\<forall>m. now_at st < m \<and> m < next_time L (now_at st) s \<longrightarrow> \<not> fires_at L s m" by blast+
  qed
  have late: "sched_rows (tick L rows st) = sched_rows st \<and> missed \<subseteq> set fired" if "\<not> ok"
    using that g by (auto simp: t fired_def missed_def due_schedules_def is_due_def is_missed_def split: option.splits)
  have calm: "ok \<and> set fired = {s \<in> set (sched_rows st). sch_enabled s \<and>
      (\<exists>n. sch_next s = Some n \<and> now_at st - g \<le> n \<and> n \<le> now_at st)}" if "\<forall>s\<in>missed. steady L s"
  proof -
    from that have s: "\<forall>s\<in>set (sched_rows st). is_missed (now_at st - g) s \<longrightarrow> steady L s" by (simp add: missed_def)
    have o: ok using steady_all_have_next [OF assms s] by (simp add: ok_def)
    moreover have "is_due (now_at st) s \<and> \<not> is_missed (now_at st - g) s \<longleftrightarrow>
        sch_enabled s \<and> (\<exists>n. sch_next s = Some n \<and> now_at st - g \<le> n \<and> n \<le> now_at st)" for s
      by (auto simp: is_due_def is_missed_def split: option.splits)
    moreover have "set fired = {s \<in> set (sched_rows st). is_due (now_at st) s \<and> \<not> is_missed (now_at st - g) s}"
      using due_after_move [OF assms o [unfolded ok_def] s] o by (simp add: fired_def mv_def)
    ultimately show ?thesis by simp
  qed
  have missed: "missed = {s \<in> set (sched_rows st). sch_enabled s \<and> (\<exists>n. sch_next s = Some n \<and> n < now_at st - g)}"
    by (auto simp: missed_def is_missed_def split: option.splits)
  have "dispatched (tick L rows st) = dispatched st @ map (Pair []) fired" by (simp add: t)
  with g wf kept moved late calm ok_iff missed show ?thesis
    by (intro exI [of _ fired] exI [of _ g] exI [of _ missed] conjI) (simp_all add: g_def [symmetric])
qed

definition nightly_state :: sched_state where
  "nightly_state = idle_state\<lparr>sched_rows := [nightly_schedule], now_at := 10830000000000\<rparr>"

lemma nightly_wf: "wf_sched utc_libs nightly_state"
proof -
  have "wf_sched utc_libs idle_state" by (simp add: wf_sched_def idle_state_def)
  from create_schedule_wf [OF this nightly_created] show ?thesis by (simp add: nightly_state_def wf_sched_def)
qed

theorem tick_fires_what_is_due_witness:
  "([], nightly_schedule) \<in> set (dispatched (tick utc_libs None nightly_state))"
proof -
  obtain fired g missed where f: "60000000000 \<le> g" "dispatched (tick utc_libs None nightly_state) = dispatched nightly_state @ map (Pair []) fired"
    and m: "missed = {s \<in> set (sched_rows nightly_state). sch_enabled s \<and> (\<exists>n. sch_next s = Some n \<and> n < now_at nightly_state - g)}"
    and s: "(\<forall>s\<in>missed. steady utc_libs s) \<longrightarrow> (\<forall>s\<in>missed. has_next utc_libs (now_at nightly_state) s) \<and>
      set fired = {s \<in> set (sched_rows nightly_state). sch_enabled s \<and>
        (\<exists>n. sch_next s = Some n \<and> now_at nightly_state - g \<le> n \<and> n \<le> now_at nightly_state)}"
    using tick_fires_what_is_due [OF nightly_wf, of None] by blast
  have "missed = {}" using f(1) unfolding m by (simp add: nightly_state_def nightly_schedule_def)
  with s have "nightly_schedule \<in> set fired" using f(1) by (simp add: nightly_state_def nightly_schedule_def)
  with f(2) show ?thesis by simp
qed

section \<open>Who may schedule\<close>

lemma validate_schedule_target:
  "validate_schedule L x = Inr y \<Longrightarrow> in_kind y = in_kind x \<and> in_value y = trim_space (in_value x)"
  by (simp add: validate_schedule_def Let_def split: if_splits option.splits) auto

lemma created_target:
  "create_schedule L i now x u db = Inr (s, db') \<Longrightarrow>
     sched_rows db' = sched_rows db @ [s] \<and> sch_kind s = in_kind x \<and> sch_value s = trim_space (in_value x)"
  by (auto simp: create_schedule_def Let_def dest!: validate_schedule_target split: if_splits)

lemma updated_target:
  assumes "update_schedule L i now x db = Inr (s, db')"
  shows "\<exists>f. sched_rows db' = update_where (\<lambda>s. sch_id s = i) f (sched_rows db) \<and>
    (\<forall>r. sch_kind (f r) = in_kind x \<and> sch_value (f r) = trim_space (in_value x))"
  using assms unfolding update_schedule_def
  by (auto simp: Let_def dest!: validate_schedule_target split: if_splits intro!: exI)

text \<open>
  C14: A request of a user who is no global admin adds, changes or removes only schedules whose target
  is a group he administers, before and after the change, although the gate reads the target as it
  was sent and the store trims it. Group ids have no white space at their ends.
\<close>

theorem group_admins_keep_to_their_groups:
  assumes "st' = snd (handle_sched_create L sc uid i b st) \<or> st' = snd (handle_sched_update L sc uid i b st) \<or>
      st' = snd (handle_sched_delete sc uid i st)"
    and "\<not> is_global_admin sc" "\<forall>g\<in>fst ` set (sc_groups sc). trim_space g = g" "distinct (map sch_id (sched_rows st))"
    and "(s \<in> set (sched_rows st)) \<noteq> (s \<in> set (sched_rows st'))"
  shows "sch_kind s = kind_group \<and> role_on_group sc (sch_value s) = role_admin"
proof -
  have gate: "kind = kind_group \<and> role_on_group sc (trim_space v) = role_admin" if "can_manage_target sc kind v" for kind v
  proof -
    from that assms(2) have k: "kind = kind_group" "role_on_group sc v = role_admin" by (auto simp: can_manage_target_def)
    then have "v \<in> fst ` set (sc_groups sc)"
      by (auto simp: role_on_group_def dest: map_of_SomeD split: option.splits intro: rev_image_eqI)
    then have "trim_space v = v" using assms(3) by blast
    with k show ?thesis by simp
  qed
  have cur: "c = r" if "get_schedule i st = Inr c" "r \<in> set (sched_rows st)" "sch_id r = i" for c r
    using that find_unique [OF assms(4) that(2)] by (simp add: get_schedule_def schedule_row_def)
  have own: "sch_kind r = kind_group \<and> role_on_group sc (sch_value r) = role_admin"
    if "get_schedule i st = Inr c" "can_manage_schedule sc c" "r \<in> set (sched_rows st)" "sch_id r = i" for c r
    using cur [OF that(1,3,4)] that(2) assms(2) by (simp add: can_manage_schedule_def can_manage_target_def)
  from assms(1) show ?thesis
  proof (elim disjE)
    assume "st' = snd (handle_sched_create L sc uid i b st)"
    with assms(5) obtain x q st1 where "can_manage_target sc (in_kind x) (in_value x)"
        "create_schedule L i (now_at st) x uid st = Inr (q, st1)" "sched_rows st' = sched_rows st1"
      by (auto simp: handle_sched_create_def sched_log_def split: option.splits if_splits sum.splits schedule_error.splits) blast+
    with created_target [OF this(2)] gate assms(5) show ?thesis by auto
  next
    assume "st' = snd (handle_sched_update L sc uid i b st)"
    with assms(5) obtain c x q st1 where c: "get_schedule i st = Inr c" "can_manage_schedule sc c"
        "can_manage_target sc (in_kind x) (in_value x)" "update_schedule L i (now_at st) x st = Inr (q, st1)"
        "sched_rows st' = sched_rows st1"
      by (auto simp: handle_sched_update_def sched_log_def split: option.splits if_splits sum.splits schedule_error.splits) blast+
    from updated_target [OF c(4)] obtain f where f: "sched_rows st1 = update_where (\<lambda>s. sch_id s = i) f (sched_rows st)"
      "\<And>r. sch_kind (f r) = in_kind x" "\<And>r. sch_value (f r) = trim_space (in_value x)" by blast
    show ?thesis
    proof (cases "s \<in> set (sched_rows st)")
      case True
      with assms(5) c(5) f(1) have "sch_id s = i" by (force split: if_splits)
      with own [OF c(1,2) True] show ?thesis by simp
    next
      case False
      with assms(5) c(5) f(1) obtain r where "s = f r" by (auto split: if_splits)
      with gate [OF c(3)] f(2,3) show ?thesis by simp
    qed
  next
    assume "st' = snd (handle_sched_delete sc uid i st)"
    with assms(5) obtain c st1 where c: "get_schedule i st = Inr c" "can_manage_schedule sc c"
        "delete_schedule i st = Inr st1" "sched_rows st' = sched_rows st1"
      by (auto simp: handle_sched_delete_def sched_log_def split: if_splits sum.splits)
    then have "s \<in> set (sched_rows st) \<and> sch_id s = i"
      using assms(5) by (auto simp: delete_schedule_def split: if_splits)
    with own [OF c(1,2)] show ?thesis by blast
  qed
qed

definition group_scope :: scope where
  "group_scope = new_scope ''u2'' [\<lparr>as_user = ''u2'', as_group = Some ''g1'', as_role = role_admin\<rparr>]"

theorem group_admins_keep_to_their_groups_witness:
  "let st = nightly_state\<lparr>sched_rows := [nightly_schedule\<lparr>sch_kind := kind_group, sch_value := ''g1''\<rparr>]\<rparr>
   in sched_rows (snd (handle_sched_delete group_scope ''u2'' ''s1'' st)) = [] \<and>
      role_on_group group_scope ''g1'' = role_admin"
proof -
  define q where "q = nightly_schedule\<lparr>sch_kind := kind_group, sch_value := ''g1''\<rparr>"
  define st where "st = nightly_state\<lparr>sched_rows := [q]\<rparr>"
  have e: "sched_rows (snd (handle_sched_delete group_scope ''u2'' ''s1'' st)) = []" unfolding st_def q_def by code_simp
  have "\<not> is_global_admin group_scope" "\<forall>g\<in>fst ` set (sc_groups group_scope). trim_space g = g" by code_simp+
  moreover have "distinct (map sch_id (sched_rows st))" by (simp add: st_def)
  moreover have "(q \<in> set (sched_rows st)) \<noteq> (q \<in> set (sched_rows (snd (handle_sched_delete group_scope ''u2'' ''s1'' st))))"
    unfolding e by (simp add: st_def)
  ultimately have "sch_kind q = kind_group \<and> role_on_group group_scope (sch_value q) = role_admin"
    by (rule group_admins_keep_to_their_groups [OF disjI2 [OF disjI2 [OF refl]]])
  with e show ?thesis by (simp add: st_def q_def Let_def)
qed

section \<open>An occurrence that fires twice\<close>

text \<open>One host with one updater whose runs succeed.\<close>

definition one_host :: inventory where
  "one_host = [\<lparr>sys_id = ''h1'', sys_name = ''web'', sys_status = ''ok'', sys_group = None, sys_windows = False, sys_reboot = None\<rparr>]"

definition good_fleet :: fleet_ops where
  "good_fleet = \<lparr>upd_defs = Some [\<lparr>ud_id = ''apt'', ud_check_only = False\<rparr>], upd_avail = (\<lambda>_. Some [(''apt'', True)]),
     upd_run = (\<lambda>_ _ _ fleet. (True, fleet)), reboot_run = (\<lambda>_ _. Some True)\<rparr>"

lemma good_work:
  "fire_work utc_libs good_fleet nightly_schedule \<lparr>sl_rows = [], sl_hosts = [''h1'']\<rparr> one_host =
     Some ((RunSuccess, 1, 1, 0, ''1/1 hosts ok''), one_host)"
  by code_simp

text \<open>
  The wake-up at 3:00:30 dispatches the schedule; its run starts. The next wake-up finds the row
  still due, since only the end of a run moves \<open>next_run_at\<close>, and dispatches a second copy. The
  run ends and unlocks before that copy tries the lock.
\<close>

definition race_state :: "schedule list \<Rightarrow> schedule_run list \<Rightarrow> int \<Rightarrow> (string \<times> schedule) list
    \<Rightarrow> (string \<times> string \<times> schedule) list \<Rightarrow> event list \<Rightarrow> sched_state" where
  "race_state rows runs t ds rs es =
     \<lparr>sched_rows = rows, sched_runs = runs, now_at = t, dispatched = ds, running = rs, sched_audit = es\<rparr>"

definition run_done :: "string \<Rightarrow> int \<Rightarrow> int \<Rightarrow> schedule_run" where
  "run_done rid t0 t1 = (new_run rid ''s1'' t0)\<lparr>run_status := RunSuccess, run_finished := Some t1,
     run_attempted := 1, run_succeeded := 1, run_message := ''1/1 hosts ok''\<rparr>"

definition nightly_done :: schedule where
  "nightly_done = nightly_schedule\<lparr>sch_next := Some 97200000000000, sch_last := Some 10890000000000, sch_status := Some RunSuccess\<rparr>"

lemma race_steps:
  "tick utc_libs None (race_state [nightly_schedule] [] 10830000000000 [] [] es) =
     race_state [nightly_schedule] [] 10830000000000 [([], nightly_schedule)] [] es"
  "fire_start ''r1'' ([], nightly_schedule) (race_state [nightly_schedule] [] 10830000000000 [([], nightly_schedule)] [] es) =
     race_state [nightly_schedule] [new_run ''r1'' ''s1'' 10830000000000] 10830000000000 [] [(''r1'', [], nightly_schedule)] es"
  "tick utc_libs None (race_state [nightly_schedule] [new_run ''r1'' ''s1'' 10830000000000] 10890000000000 []
      [(''r1'', [], nightly_schedule)] es) =
     race_state [nightly_schedule] [new_run ''r1'' ''s1'' 10830000000000] 10890000000000 [([], nightly_schedule)]
      [(''r1'', [], nightly_schedule)] es"
  "fire_start ''r2'' ([], nightly_schedule) (race_state [nightly_done] [run_done ''r1'' 10830000000000 10890000000000]
      10890000000000 [([], nightly_schedule)] [] es) =
     race_state [nightly_done] [run_done ''r1'' 10830000000000 10890000000000, new_run ''r2'' ''s1'' 10890000000000]
      10890000000000 [] [(''r2'', [], nightly_schedule)] es"
  by code_simp+

lemma race_ends:
  "fire_finish utc_libs (''r1'', [], nightly_schedule) (RunSuccess, 1, 1, 0, ''1/1 hosts ok'')
      (race_state [nightly_schedule] [new_run ''r1'' ''s1'' 10830000000000] 10890000000000 [([], nightly_schedule)]
        [(''r1'', [], nightly_schedule)] es) =
     race_state [nightly_done] [run_done ''r1'' 10830000000000 10890000000000] 10890000000000 [([], nightly_schedule)] []
       (es @ [run_event [] nightly_schedule ''r1'' RunSuccess ''1/1 hosts ok''])"
  "fire_finish utc_libs (''r2'', [], nightly_schedule) (RunSuccess, 1, 1, 0, ''1/1 hosts ok'')
      (race_state [nightly_done] [run_done ''r1'' 10830000000000 10890000000000, new_run ''r2'' ''s1'' 10890000000000]
        10890000000000 [] [(''r2'', [], nightly_schedule)] es) =
     race_state [nightly_done] [run_done ''r1'' 10830000000000 10890000000000, run_done ''r2'' 10890000000000 10890000000000]
       10890000000000 [] [] (es @ [run_event [] nightly_schedule ''r2'' RunSuccess ''1/1 hosts ok''])"
  by (simp_all add: fire_finish_def record_run_finish_def race_state_def schedule_row_def next_if_def nightly_next
      nightly_schedule_def nightly_done_def new_run_def run_done_def update_where_def sched_log_def run_event_def Let_def)

lemma one_occurrence:
  "{m. 0 < m \<and> m \<le> 10890000000000 \<and> fires_at utc_libs nightly_done m} = {10800000000000}"
proof -
  have c: "sch_cron nightly_done = ''0 3 * * *''" "sch_zone nightly_done = ''UTC''"
    by (simp_all add: nightly_done_def nightly_schedule_def)
  have u: "steady utc_libs nightly_done" by (auto simp: steady_def c utc_libs_def)
  from compute_next_first [of utc_libs nightly_done 0 10800000000000] u nightly_next(1)
  have a: "fires_at utc_libs nightly_done 10800000000000"
    "\<And>m. 0 < m \<Longrightarrow> m < 10800000000000 \<Longrightarrow> \<not> fires_at utc_libs nightly_done m" unfolding c by blast+
  from compute_next_first [of utc_libs nightly_done 10800000000000 97200000000000] u nightly_next(2)
  have b: "\<And>m. 10800000000000 < m \<Longrightarrow> m < 97200000000000 \<Longrightarrow> \<not> fires_at utc_libs nightly_done m" unfolding c by blast
  have "m = 10800000000000" if "0 < m" "m \<le> 10890000000000" "fires_at utc_libs nightly_done m" for m
    using that a(2) [of m] b [of m] by (cases m "10800000000000 :: int" rule: linorder_cases) auto
  with a(1) show ?thesis by auto
qed

text \<open>
  The lock keeps two runs of a schedule from overlapping, not from following each other for one
  occurrence: a copy of the schedule that a wake-up took from the table while the first run was at
  work runs again once that run has ended. In this execution nobody asks for a run, the expression
  names a single minute, and the host is patched twice.
\<close>

theorem occurrence_can_fire_twice:
  "\<exists>st s r1 r2. sched_reach utc_libs idle_state st \<and> sched_rows st = [s] \<and> sched_runs st = [r1, r2] \<and>
     run_id r1 \<noteq> run_id r2 \<and> run_status r1 = RunSuccess \<and> run_status r2 = RunSuccess \<and>
     run_attempted r1 = 1 \<and> run_attempted r2 = 1 \<and> 0 < run_started r1 \<and> run_finished r2 = Some (now_at st) \<and>
     {m. 0 < m \<and> m \<le> now_at st \<and> fires_at utc_libs s m} = {10800000000000} \<and>
     ''schedule.run_now'' \<notin> ev_action ` set (sched_audit st)"
proof -
  define es where "es = [sched_event ''schedule.create'' ''u1'' nightly_schedule]"
  define f1 where "f1 = run_event [] nightly_schedule ''r1'' RunSuccess ''1/1 hosts ok''"
  define f2 where "f2 = run_event [] nightly_schedule ''r2'' RunSuccess ''1/1 hosts ok''"
  let ?r = "sched_reach utc_libs idle_state"
  let ?f = "[run_done ''r1'' 10830000000000 10890000000000, run_done ''r2'' 10890000000000 10890000000000]"
  have "?r (race_state [nightly_schedule] [] 0 [] [] es)"
    using reach_step [OF reach_refl Create, of utc_libs idle_state admin_scope "''u1''" "''s1''" "Some nightly"]
    unfolding nightly_handled by (simp add: es_def sched_log_def idle_state_def race_state_def sched_event_def)
  from reach_step [OF this Clock [of _ 10830000000000]]
  have "?r (race_state [nightly_schedule] [] 10830000000000 [] [] es)" by (simp add: race_state_def)
  from reach_step [OF this Tick [of _ _ None]] have "?r (race_state [nightly_schedule] [] 10830000000000 [([], nightly_schedule)] [] es)"
    unfolding race_steps .
  from reach_step [OF this Start [of "([], nightly_schedule)" _ "''r1''"]]
  have "?r (race_state [nightly_schedule] [new_run ''r1'' ''s1'' 10830000000000] 10830000000000 [] [(''r1'', [], nightly_schedule)] es)"
    unfolding race_steps by (simp add: race_state_def)
  from reach_step [OF this Clock [of _ 10890000000000]]
  have "?r (race_state [nightly_schedule] [new_run ''r1'' ''s1'' 10830000000000] 10890000000000 [] [(''r1'', [], nightly_schedule)] es)"
    by (simp add: race_state_def)
  from reach_step [OF this Tick [of _ _ None]]
  have "?r (race_state [nightly_schedule] [new_run ''r1'' ''s1'' 10830000000000] 10890000000000 [([], nightly_schedule)]
      [(''r1'', [], nightly_schedule)] es)" unfolding race_steps .
  from reach_step [OF this Finish [OF _ good_work, of "''r1''" "[]"]]
  have "?r (race_state [nightly_done] [run_done ''r1'' 10830000000000 10890000000000] 10890000000000 [([], nightly_schedule)] [] (es @ [f1]))"
    unfolding race_ends f1_def by (simp add: race_state_def)
  from reach_step [OF this Start [of "([], nightly_schedule)" _ "''r2''"]]
  have "?r (race_state [nightly_done] [run_done ''r1'' 10830000000000 10890000000000, new_run ''r2'' ''s1'' 10890000000000]
      10890000000000 [] [(''r2'', [], nightly_schedule)] (es @ [f1]))"
    unfolding race_steps by (simp add: race_state_def)
  from reach_step [OF this Finish [OF _ good_work, of "''r2''" "[]"]]
  have "?r (race_state [nightly_done] ?f 10890000000000 [] [] (es @ [f1, f2]))"
    unfolding race_ends f2_def by (simp add: race_state_def)
  then show ?thesis
    by (intro exI [of _ "race_state [nightly_done] ?f 10890000000000 [] [] (es @ [f1, f2])"] exI [of _ nightly_done]
          exI [of _ "run_done ''r1'' 10830000000000 10890000000000"]
          exI [of _ "run_done ''r2'' 10890000000000 10890000000000"] conjI)
      (simp_all add: one_occurrence race_state_def run_done_def new_run_def es_def f1_def f2_def sched_event_def run_event_def)
qed

section \<open>A schedule that ends the server\<close>

definition broken_selector :: string where "broken_selector = ''k in (a,''"

definition doomed :: schedule_input where
  "doomed = nightly\<lparr>in_kind := kind_selector, in_value := broken_selector\<rparr>"

lemma broken_selector_panics: "parse_selector broken_selector = Inl SelPanic"
  by code_simp

lemma nightly_computes:
  assumes "zone_rule L z = Some (\<lambda>_. off)"
  shows "is_ok (compute_next L ''0 3 * * *'' z t)"
proof -
  from nightly_next(1) obtain c where c: "parse_cron ''0 3 * * *'' = Inr c" "is_ok (next_after (\<lambda>_. 0) c 0)"
    by (rule compute_next_inv) (auto simp: utc_libs_def is_ok_iff)
  then have "is_ok (next_after (\<lambda>_. off) c t)" using next_after_ok_iff [OF c(1)] by blast
  with c(1) assms show ?thesis by (auto simp: compute_next_def is_ok_iff)
qed

text \<open>
  The schedule \<open>Validate\<close> checks a selector target for being non-empty only, where
  \<open>targeting.ValidateValue\<close> parses it. So \<open>POST /api/schedules\<close> accepts an unfinished value list,
  and when the schedule fires the parser panics in a goroutine that nothing recovers: whatever the
  inventory, the run row is inserted and the process ends.
\<close>

theorem accepted_schedule_ends_the_server:
  assumes "zone_rule L ''UTC'' = Some (\<lambda>_. off)" "uid \<noteq> []" "i \<notin> sch_id ` set (sched_rows st)"
  shows "\<exists>s st'. handle_sched_create L admin_scope uid i (Some doomed) st = ((201, SchedOne s), st') \<and>
    s \<in> set (sched_rows st') \<and> (\<exists>n. sch_next s = Some n \<and> now_at st < n \<and> fires_at L s n) \<and>
    fire_work L F s lbl fleet = None \<and>
    validate_target (json_ids L) (in_kind doomed) (in_value doomed) = Inl TargetPanic"
proof -
  have v: "validate_schedule L doomed = Inr (doomed\<lparr>in_zone := ''UTC''\<rparr>)"
  proof -
    have "validate_schedule utc_libs doomed = Inr (doomed\<lparr>in_zone := ''UTC''\<rparr>)" by code_simp
    with assms(1) show ?thesis
      by (simp add: validate_schedule_def doomed_def nightly_def utc_libs_def Let_def target_kinds split: if_splits)
  qed
  define s0 where "s0 = nightly_schedule\<lparr>sch_id := i, sch_kind := kind_selector, sch_value := broken_selector,
     sch_by := uid, sch_created := now_at st, sch_updated := now_at st\<rparr>"
  have z: "sch_cron s0 = ''0 3 * * *''" "sch_zone s0 = ''UTC''" by (simp_all add: s0_def nightly_schedule_def)
  have u: "steady L s0" using assms(1) z(2) by (auto simp: steady_def)
  obtain n where n: "compute_next L (sch_cron s0) (sch_zone s0) (now_at st) = Inr n"
    using nightly_computes [OF assms(1), of "now_at st"] by (auto simp: is_ok_iff z)
  define s where "s = s0\<lparr>sch_next := Some n\<rparr>"
  have "create_schedule L i (now_at st) doomed uid st = Inr (s, st\<lparr>sched_rows := sched_rows st @ [s]\<rparr>)"
    using n assms(2,3) unfolding create_schedule_def v rbind.simps
    by (simp add: z doomed_def nightly_def s_def s0_def nightly_schedule_def Let_def)
  moreover have "can_manage_target admin_scope (in_kind doomed) (in_value doomed)" by code_simp
  ultimately have h: "handle_sched_create L admin_scope uid i (Some doomed) st =
      ((201, SchedOne s), sched_log (sched_event ''schedule.create'' uid s) (st\<lparr>sched_rows := sched_rows st @ [s]\<rparr>))"
    using assms(2) by (simp add: handle_sched_create_def)
  have k: "sch_kind s = kind_selector" "sch_value s = broken_selector" by (simp_all add: s_def s0_def)
  have "fire_work L F s lbl fleet = None"
    by (simp add: fire_work_def resolve_target_def k target_kinds broken_selector_panics target_sel_error_def)
  moreover have "validate_target (json_ids L) (in_kind doomed) (in_value doomed) = Inl TargetPanic"
    by (simp add: validate_target_def doomed_def target_kinds broken_selector_panics target_sel_error_def)
      (simp add: broken_selector_def)
  ultimately show ?thesis using compute_next_first [OF n u] unfolding h
    by (intro exI [of _ s] exI conjI) (auto simp: sched_log_def s_def)
qed

theorem accepted_schedule_ends_the_server_witness:
  "\<exists>s st'. handle_sched_create utc_libs admin_scope ''u1'' ''s1'' (Some doomed) idle_state = ((201, SchedOne s), st') \<and>
    fire_work utc_libs good_fleet s \<lparr>sl_rows = [], sl_hosts = []\<rparr> one_host = None"
proof -
  have "zone_rule utc_libs ''UTC'' = Some (\<lambda>_. 0)" by (simp add: utc_libs_def)
  from accepted_schedule_ends_the_server [OF this, of "''u1''" "''s1''" idle_state good_fleet "\<lparr>sl_rows = [], sl_hosts = []\<rparr>" one_host]
  show ?thesis by (auto simp: idle_state_def)
qed

section \<open>A night in which the clock is set back\<close>

definition ny_libs :: sched_libs where
  "ny_libs = \<lparr>json_ids = (\<lambda>_. None), zone_rule = (\<lambda>z. if z = ''America/New_York'' then Some new_york else None)\<rparr>"

text \<open>The nightly schedule in New York; its next run is at three o'clock on November 1, 2025.\<close>

definition ny_minute :: "nat \<Rightarrow> int" where
  "ny_minute k = (eve + int k) * minute_ns"

definition ny_schedule :: schedule where
  "ny_schedule = nightly_schedule\<lparr>sch_zone := ''America/New_York'', sch_next := Some (ny_minute 180)\<rparr>"

lemma nightly_parsed:
  obtains c where "parse_cron ''0 3 * * *'' = Inr c" "months c ! 11" "\<And>t. matches_day c t"
    "\<And>h. h < 24 \<Longrightarrow> hours c ! h \<longleftrightarrow> h = 3" "\<And>i. i < 60 \<Longrightarrow> minutes c ! i \<longleftrightarrow> i = 0"
proof -
  have "case parse_cron ''0 3 * * *'' of Inl _ \<Rightarrow> False
      | Inr c \<Rightarrow> months c ! 11 \<and> dom_starred c \<and> dow_starred c \<and> list_all (\<lambda>h. hours c ! h = (h = 3)) [0..<24] \<and>
          list_all (\<lambda>i. minutes c ! i = (i = 0)) [0..<60]" by code_simp
  then obtain c where c: "parse_cron ''0 3 * * *'' = Inr c" "months c ! 11" "dom_starred c" "dow_starred c"
      "list_all (\<lambda>h. hours c ! h = (h = 3)) [0..<24]" "list_all (\<lambda>i. minutes c ! i = (i = 0)) [0..<60]"
    by (auto split: sum.splits)
  show thesis
  proof (rule that [OF c(1,2)])
    show "matches_day c t" for t using c(3,4) by (simp add: matches_day_def)
    show "hours c ! h \<longleftrightarrow> h = 3" if "h < 24" for h using c(5) that by (simp add: list_all_iff)
    show "minutes c ! i \<longleftrightarrow> i = 0" if "i < 60" for i using c(6) that by (simp add: list_all_iff)
  qed
qed

lemma ny_no_next:
  assumes "180 \<le> k" "k < 1560"
  shows "compute_next ny_libs ''0 3 * * *'' ''America/New_York'' (ny_minute k) = Inl ScheduleNoNext"
proof -
  from nightly_parsed obtain c where c: "parse_cron ''0 3 * * *'' = Inr c" and s: "months c ! 11" "\<And>t. matches_day c t"
    "\<And>h. h < 24 \<Longrightarrow> hours c ! h \<longleftrightarrow> h = 3" "\<And>i. i < 60 \<Longrightarrow> minutes c ! i \<longleftrightarrow> i = 0" by blast
  have "ny_minute k div minute_ns + 1 = eve + int (Suc k)" by (simp add: ny_minute_def minute_ns_def)
  moreover have "zone_search new_york c max_iterations (eve + int (Suc k)) = None"
    using assms by (intro eve_stuck [OF s]) simp_all
  ultimately have "next_after new_york c (ny_minute k) = Inl NoMatch" by (simp only: next_after_def) simp
  then show ?thesis by (simp add: compute_next_def c ny_libs_def)
qed

text \<open>
  C26: a schedule for 3:00 in New York, on the day before the clock is set back. \<open>Next\<close> fails at every
  minute from three o'clock up to that night, so when the run of that morning ends \<open>RecordRunFinish\<close> rolls
  back: the run is audited but its row stays \<open>running\<close>, and the schedule keeps its next run. From then on
  every wake-up finds it due, and once the grace is over \<open>ReconcileMissed\<close> fails too: each
  dispatches the schedule again, so the hosts are patched and rebooted all day.
\<close>

theorem fall_back_eve_repeats_the_run:
  assumes "180 \<le> k" "k < 1560"
  shows "fire_finish ny_libs (''r1'', [], ny_schedule) (status, att, good, bad, msg)
      (race_state [ny_schedule] [new_run ''r1'' ''s1'' t] (ny_minute k) ds [(''r1'', [], ny_schedule)] es) =
      race_state [ny_schedule] [new_run ''r1'' ''s1'' t] (ny_minute k) ds [] (es @ [run_event [] ny_schedule ''r1'' status msg]) \<and>
    tick ny_libs rows (race_state [ny_schedule] runs (ny_minute k) ds rs es) =
      race_state [ny_schedule] runs (ny_minute k) (ds @ [([], ny_schedule)]) rs es"
proof
  note n = ny_no_next [OF assms]
  have f: "sch_cron ny_schedule = ''0 3 * * *''" "sch_zone ny_schedule = ''America/New_York''" "sch_enabled ny_schedule"
    "sch_id ny_schedule = ''s1''" "sch_next ny_schedule = Some (ny_minute 180)"
    by (simp_all add: ny_schedule_def nightly_schedule_def)
  show "fire_finish ny_libs (''r1'', [], ny_schedule) (status, att, good, bad, msg)
      (race_state [ny_schedule] [new_run ''r1'' ''s1'' t] (ny_minute k) ds [(''r1'', [], ny_schedule)] es) =
      race_state [ny_schedule] [new_run ''r1'' ''s1'' t] (ny_minute k) ds [] (es @ [run_event [] ny_schedule ''r1'' status msg])"
    by (simp add: fire_finish_def record_run_finish_def race_state_def schedule_row_def next_if_def n f
      new_run_def sched_log_def run_event_def Let_def)
  have d: "is_due (ny_minute k) ny_schedule" using assms(1) by (simp add: is_due_def f ny_minute_def minute_ns_def)
  have r: "tick ny_libs rows st = st\<lparr>dispatched := dispatched st @ map (Pair []) (due_schedules (now_at st) st)\<rparr>"
    if "st = race_state [ny_schedule] runs (ny_minute k) ds rs es" for st
  proof (cases "all_have_next ny_libs (now_at st) (resolve_grace rows) st")
    case True
    then have "\<not> is_missed (now_at st - resolve_grace rows) ny_schedule"
      using n f that by (auto simp: all_have_next_def has_next_def is_ok_iff race_state_def)
    then show ?thesis using that by (simp add: tick_def Let_def reconcile_missed_def race_state_def)
  qed (rule tick_rolls_back)
  show "tick ny_libs rows (race_state [ny_schedule] runs (ny_minute k) ds rs es) =
      race_state [ny_schedule] runs (ny_minute k) (ds @ [([], ny_schedule)]) rs es"
    unfolding r [OF refl] using d by (simp add: race_state_def due_schedules_def)
qed

lemma fall_back_eve_repeats_the_run_witness:
  "tick ny_libs None (race_state [ny_schedule] [] (ny_minute 720) [] [] []) =
    race_state [ny_schedule] [] (ny_minute 720) [([], ny_schedule)] [] []"
  using fall_back_eve_repeats_the_run [of 720 RunSuccess 1 1 0 "[]" 0 "[]" "[]" None "[]" "[]"] by simp

end
