(* ===== verification/Alerts.thy ===== *)
theory Alerts
  imports Complex_Main "HOL-Library.Product_Lexorder" Targeting Settings
begin

text \<open>
  Alert rules (\<open>internal/alerts\<close>): the rule and its validation (\<open>alert.go\<close>,
  \<open>catalog.go\<close>), the answer of the metrics query (\<open>querier.go\<close>), the tables
  (\<open>sqlite_store.go\<close>), and the evaluation of the enabled rules (\<open>evaluator.go\<close>), which is
  written over the instance operations of its \<open>Store\<close>, so that a store that fails can be
  put in their place. Times are instants in nanoseconds.
\<close>

section \<open>Numbers\<close>

text \<open>The values of a \<open>float64\<close> as far as comparisons see them; nothing here computes with them.\<close>

datatype flt = Fin rat | PosInf | NegInf | NaN

fun flt_less :: "flt \<Rightarrow> flt \<Rightarrow> bool" where
  "flt_less NaN _ = False"
| "flt_less _ NaN = False"
| "flt_less NegInf y = (y \<noteq> NegInf)"
| "flt_less _ NegInf = False"
| "flt_less PosInf _ = False"
| "flt_less (Fin _) PosInf = True"
| "flt_less (Fin x) (Fin y) = (x < y)"

definition flt_eq :: "flt \<Rightarrow> flt \<Rightarrow> bool" where
  "flt_eq x y = (x = y \<and> x \<noteq> NaN)"

definition comparator_valid :: "string \<Rightarrow> bool" where
  "comparator_valid c = (c = ''gt'' \<or> c = ''gte'' \<or> c = ''lt'' \<or> c = ''lte'')"

definition breaches :: "string \<Rightarrow> flt \<Rightarrow> flt \<Rightarrow> bool" where
  "breaches c v t =
     (if c = ''gt'' then flt_less t v
      else if c = ''gte'' then flt_less t v \<or> flt_eq t v
      else if c = ''lt'' then flt_less v t
      else if c = ''lte'' then flt_less v t \<or> flt_eq t v
      else False)"

definition severity_valid :: "string \<Rightarrow> bool" where
  "severity_valid s = (s = ''info'' \<or> s = ''warning'' \<or> s = ''critical'')"

section \<open>The catalog\<close>

definition fs_filter_node :: string where
  \<open>fs_filter_node = ''fstype!~"tmpfs|devtmpfs|squashfs|overlay|ramfs|nsfs|cgroup.*|tracefs|debugfs|fusectl|sysfs|proc|pstore|bpf|configfs|securityfs|hugetlbfs|mqueue|autofs|binfmt_misc",mountpoint!~"/System/Library/.*|/Library/Developer/CoreSimulator/Volumes/.*|/System/Volumes/(Hardware|xarts|iSCPreboot|Preboot|Update|VM).*|/private/tmp/tmp-mount-.*"''\<close>

definition fs_filter_windows :: string where
  \<open>fs_filter_windows = ''volume!~"HarddiskVolume.*"''\<close>

definition cpu_range :: string where "cpu_range = ''5m''"

definition expr_mem_used :: string where
  \<open>expr_mem_used =
     ''(1 - node_memory_MemAvailable_bytes / node_memory_MemTotal_bytes) * 100 '' @
     ''or ((node_memory_active_bytes + node_memory_wired_bytes) / '' @
     ''(node_memory_active_bytes + node_memory_inactive_bytes + '' @
     ''node_memory_wired_bytes + node_memory_free_bytes)) * 100 '' @
     ''or (1 - windows_memory_available_bytes / windows_memory_physical_total_bytes) * 100 '' @
     ''or (1 - windows_os_physical_memory_free_bytes / windows_os_visible_memory_bytes) * 100''\<close>

definition expr_cpu_busy :: string where
  \<open>expr_cpu_busy =
     ''100 - (avg by (system_id)(rate(node_cpu_seconds_total{mode="idle"}['' @ cpu_range @ ''])) * 100) '' @
     ''or 100 - (avg by (system_id)(rate(windows_cpu_time_total{mode="idle"}['' @ cpu_range @ ''])) * 100)''\<close>

definition expr_fs_used :: string where
  \<open>expr_fs_used =
     ''max by (system_id)((1 - node_filesystem_avail_bytes{'' @ fs_filter_node @ ''} / node_filesystem_size_bytes{'' @
     fs_filter_node @ ''}) * 100) '' @
     ''or max by (system_id)((1 - windows_logical_disk_free_bytes{'' @ fs_filter_windows @
     ''} / windows_logical_disk_size_bytes{'' @ fs_filter_windows @ ''}) * 100)''\<close>

definition expr_swap_used :: string where
  "expr_swap_used = ''(node_memory_SwapTotal_bytes - node_memory_SwapFree_bytes) / node_memory_SwapTotal_bytes * 100''"

definition expr_load1 :: string where "expr_load1 = ''node_load1''"

record catalog_entry =
  ce_label :: string
  ce_unit :: string
  ce_expr :: string

definition catalog :: "(string \<times> catalog_entry) list" where
  "catalog =
     [(''mem_used_pct'', \<lparr>ce_label = ''Memory Used'', ce_unit = ''%'', ce_expr = expr_mem_used\<rparr>),
      (''fs_used_pct'', \<lparr>ce_label = ''Worst Filesystem Used'', ce_unit = ''%'', ce_expr = expr_fs_used\<rparr>),
      (''cpu_busy_pct'', \<lparr>ce_label = ''CPU Busy'', ce_unit = ''%'', ce_expr = expr_cpu_busy\<rparr>),
      (''swap_used_pct'', \<lparr>ce_label = ''Swap Used'', ce_unit = ''%'', ce_expr = expr_swap_used\<rparr>),
      (''load1'', \<lparr>ce_label = ''Load (1m)'', ce_unit = [], ce_expr = expr_load1\<rparr>)]"

definition catalog_order :: "string list" where
  "catalog_order = [''mem_used_pct'', ''fs_used_pct'', ''cpu_busy_pct'', ''swap_used_pct'', ''load1'']"

definition metric_valid :: "string \<Rightarrow> bool" where
  "metric_valid m = (map_of catalog m \<noteq> None)"

definition metric_expr :: "string \<Rightarrow> string" where
  "metric_expr m = (case map_of catalog m of None \<Rightarrow> [] | Some e \<Rightarrow> ce_expr e)"

definition catalog_entries :: "(string \<times> catalog_entry) list" where
  "catalog_entries = map (\<lambda>m. (m, the (map_of catalog m))) catalog_order"

section \<open>Rules\<close>

definition kind_metric :: string where "kind_metric = ''metric''"
definition kind_promql :: string where "kind_promql = ''promql''"
definition kind_unreachable :: string where "kind_unreachable = ''unreachable''"

lemmas condition_kinds = kind_metric_def kind_promql_def kind_unreachable_def

record rule_input =
  ri_name :: string
  ri_description :: string
  ri_condition :: string
  ri_metric :: string
  ri_expr :: string
  ri_comparator :: string
  ri_threshold :: flt
  ri_for :: int
  ri_severity :: string
  ri_kind :: string
  ri_value :: string
  ri_enabled :: bool

record rule =
  ru_id :: string
  ru_input :: rule_input
  ru_by :: string
  ru_created :: int
  ru_updated :: int

datatype alert_error = AlertNotFound | AlertInvalid string | AlertSql

definition max_alert_name :: nat where "max_alert_name = 255"
definition max_alert_desc :: nat where "max_alert_desc = 1024"
definition max_alert_expr :: nat where "max_alert_expr = 4096"
definition max_for_seconds :: int where "max_for_seconds = 86400"

definition validate_threshold :: "string \<Rightarrow> flt \<Rightarrow> (alert_error, unit) result" where
  "validate_threshold c t =
     (if \<not> comparator_valid c then Inl (AlertInvalid ''comparator is not one of gt/gte/lt/lte'')
      else if t = NaN \<or> t = PosInf \<or> t = NegInf then Inl (AlertInvalid ''threshold must be a finite number'')
      else Inr ())"

text \<open>The switch on the kind of the condition, which clears the fields of the other kinds.\<close>

definition validate_condition :: "rule_input \<Rightarrow> (alert_error, rule_input) result" where
  "validate_condition x =
     (if ri_condition x = kind_metric
      then if \<not> metric_valid (ri_metric x) then Inl (AlertInvalid ''metric is not in the catalog'')
           else rbind (validate_threshold (ri_comparator x) (ri_threshold x)) (\<lambda>_. Inr (x\<lparr>ri_expr := []\<rparr>))
      else if ri_condition x = kind_promql
      then if ri_expr x = [] then Inl (AlertInvalid ''expr is required when conditionKind=promql'')
           else if length (ri_expr x) > max_alert_expr then Inl (AlertInvalid ''expr exceeds 4096 chars'')
           else rbind (validate_threshold (ri_comparator x) (ri_threshold x)) (\<lambda>_. Inr (x\<lparr>ri_metric := []\<rparr>))
      else if ri_condition x = kind_unreachable
      then Inr (x\<lparr>ri_metric := [], ri_expr := [], ri_comparator := [], ri_threshold := Fin 0\<rparr>)
      else Inl (AlertInvalid ''conditionKind is not one of metric/promql/unreachable''))"

text \<open>\<open>AlertPanic\<close>: the selector parser panics inside \<open>ValidateValue\<close>.\<close>

datatype rule_check = RuleOk rule_input | RuleBad alert_error | RulePanic

definition trim_rule :: "rule_input \<Rightarrow> rule_input" where
  "trim_rule x = x\<lparr>ri_name := trim_space (ri_name x), ri_description := trim_space (ri_description x),
     ri_expr := trim_space (ri_expr x), ri_value := trim_space (ri_value x)\<rparr>"

definition default_severity :: "rule_input \<Rightarrow> rule_input" where
  "default_severity x = (if ri_severity x = [] then x\<lparr>ri_severity := ''warning''\<rparr> else x)"

definition validate_rule :: "(string \<Rightarrow> string list option) \<Rightarrow> rule_input \<Rightarrow> rule_check" where
  "validate_rule J x0 =
     (let x = trim_rule x0
      in if ri_name x = [] then RuleBad (AlertInvalid ''name is required'')
         else if length (ri_name x) > max_alert_name then RuleBad (AlertInvalid ''name exceeds 255 chars'')
         else if length (ri_description x) > max_alert_desc then RuleBad (AlertInvalid ''description exceeds 1024 chars'')
         else
           (let x = default_severity x
            in if \<not> severity_valid (ri_severity x)
               then RuleBad (AlertInvalid ''severity is not one of info/warning/critical'')
               else if ri_for x < 0 then RuleBad (AlertInvalid ''forSeconds must not be negative'')
               else if ri_for x > max_for_seconds then RuleBad (AlertInvalid ''forSeconds exceeds 86400 (24h)'')
               else
                 (case validate_condition x of
                    Inl e \<Rightarrow> RuleBad e
                  | Inr y \<Rightarrow>
                      (case validate_target J (ri_kind y) (ri_value y) of
                         Inl TargetPanic \<Rightarrow> RulePanic
                       | Inl _ \<Rightarrow> RuleBad (AlertInvalid ''target'')
                       | Inr _ \<Rightarrow> RuleOk y))))"

section \<open>Instances\<close>

datatype alert_state = Pending | Firing

record inst =
  in_rule :: string
  in_system :: string
  in_state :: alert_state
  in_val :: flt
  in_first :: int
  in_fired :: "int option"
  in_eval :: int

section \<open>The tables\<close>

record alert_db =
  alert_rules :: "rule list"
  alert_insts :: "inst list"

definition rule_row :: "string \<Rightarrow> 'a alert_db_scheme \<Rightarrow> rule option" where
  "rule_row i db = find (\<lambda>r. ru_id r = i) (alert_rules db)"

definition get_rule :: "string \<Rightarrow> 'a alert_db_scheme \<Rightarrow> (alert_error, rule) result" where
  "get_rule i db = (case rule_row i db of None \<Rightarrow> Inl AlertNotFound | Some r \<Rightarrow> Inr r)"

definition list_rules :: "'a alert_db_scheme \<Rightarrow> rule list" where
  "list_rules db = sort_key (\<lambda>r. (ru_created r, ru_id r)) (alert_rules db)"

definition list_enabled_rules :: "'a alert_db_scheme \<Rightarrow> rule list" where
  "list_enabled_rules db =
     sort_key (\<lambda>r. (ru_created r, ru_id r)) (filter (\<lambda>r. ri_enabled (ru_input r)) (alert_rules db))"

text \<open>\<open>Inl None\<close> is the panic of the validation.\<close>

definition create_rule :: "(string \<Rightarrow> string list option) \<Rightarrow> string \<Rightarrow> int \<Rightarrow> rule_input \<Rightarrow> string \<Rightarrow> 'a alert_db_scheme
    \<Rightarrow> (alert_error option, rule \<times> 'a alert_db_scheme) result" where
  "create_rule J i now x by_user db =
     (case validate_rule J x of
        RulePanic \<Rightarrow> Inl None
      | RuleBad e \<Rightarrow> Inl (Some e)
      | RuleOk y \<Rightarrow>
          if by_user = [] then Inl (Some (AlertInvalid ''createdBy is required''))
          else
            (let r = \<lparr>ru_id = i, ru_input = y, ru_by = by_user, ru_created = now, ru_updated = now\<rparr>
             in if i \<in> ru_id ` set (alert_rules db) then Inl (Some AlertSql)
                else Inr (r, db\<lparr>alert_rules := alert_rules db @ [r]\<rparr>)))"

definition clear_instances :: "string \<Rightarrow> 'a alert_db_scheme \<Rightarrow> 'a alert_db_scheme" where
  "clear_instances i db = db\<lparr>alert_insts := delete_where (\<lambda>n. in_rule n = i) (alert_insts db)\<rparr>"

definition update_rule :: "(string \<Rightarrow> string list option) \<Rightarrow> string \<Rightarrow> int \<Rightarrow> rule_input \<Rightarrow> 'a alert_db_scheme
    \<Rightarrow> (alert_error option, rule \<times> 'a alert_db_scheme) result" where
  "update_rule J i now x db =
     (case validate_rule J x of
        RulePanic \<Rightarrow> Inl None
      | RuleBad e \<Rightarrow> Inl (Some e)
      | RuleOk y \<Rightarrow>
          if count_where (\<lambda>r. ru_id r = i) (alert_rules db) = 0 then Inl (Some AlertNotFound)
          else
            (let db1 = db\<lparr>alert_rules := update_where (\<lambda>r. ru_id r = i)
                           (\<lambda>r. r\<lparr>ru_input := y, ru_updated := now\<rparr>) (alert_rules db)\<rparr>;
                 db2 = (if \<not> ri_enabled y then clear_instances i db1 else db1)
             in rbind (map_err Some (get_rule i db2)) (\<lambda>r. Inr (r, db2))))"

definition delete_rule :: "string \<Rightarrow> 'a alert_db_scheme \<Rightarrow> (alert_error, 'a alert_db_scheme) result" where
  "delete_rule i db =
     (if count_where (\<lambda>r. ru_id r = i) (alert_rules db) = 0 then Inl AlertNotFound
      else Inr ((clear_instances i db)\<lparr>alert_rules := delete_where (\<lambda>r. ru_id r = i) (alert_rules db)\<rparr>))"

definition instances_for_rule :: "string \<Rightarrow> 'a alert_db_scheme \<Rightarrow> inst list" where
  "instances_for_rule i db = sort_key in_system (filter (\<lambda>n. in_rule n = i) (alert_insts db))"

definition same_inst :: "string \<Rightarrow> string \<Rightarrow> inst \<Rightarrow> bool" where
  "same_inst i sid n = (in_rule n = i \<and> in_system n = sid)"

definition put_instance :: "inst \<Rightarrow> 'a alert_db_scheme \<Rightarrow> 'a alert_db_scheme" where
  "put_instance x db =
     (let hit = same_inst (in_rule x) (in_system x)
      in if count_where hit (alert_insts db) = 0 then db\<lparr>alert_insts := alert_insts db @ [x]\<rparr>
         else db\<lparr>alert_insts := update_where hit (\<lambda>_. x) (alert_insts db)\<rparr>)"

definition delete_instance :: "string \<Rightarrow> string \<Rightarrow> 'a alert_db_scheme \<Rightarrow> 'a alert_db_scheme" where
  "delete_instance i sid db = db\<lparr>alert_insts := delete_where (same_inst i sid) (alert_insts db)\<rparr>"

definition active_before :: "inst \<times> rule \<Rightarrow> nat \<times> int \<times> string \<times> string" where
  "active_before p = (if in_state (fst p) = Firing then 0 else 1, in_first (fst p), in_rule (fst p), in_system (fst p))"

definition list_active :: "'a alert_db_scheme \<Rightarrow> (inst \<times> rule) list" where
  "list_active db =
     sort_key active_before
       (List.map_filter (\<lambda>n. case rule_row (in_rule n) db of
            None \<Rightarrow> None | Some r \<Rightarrow> if ri_enabled (ru_input r) then Some (n, r) else None) (alert_insts db))"

section \<open>The metrics query\<close>

text \<open>
  The decoded answer of Prometheus; a sample's value is the text of its second component,
  \<open>None\<close> where it is no JSON string. \<open>pf\<close> is \<open>strconv.ParseFloat\<close>.
\<close>

record prom_answer =
  pr_status :: string
  pr_type :: string
  pr_samples :: "((string \<times> string) list \<times> string option) list"

definition sample_value :: "(string \<Rightarrow> flt option) \<Rightarrow> string option \<Rightarrow> flt option" where
  "sample_value pf raw =
     (case raw of None \<Rightarrow> None
      | Some t \<Rightarrow> (case pf t of Some (Fin q) \<Rightarrow> Some (Fin q) | _ \<Rightarrow> None))"

fun fold_samples :: "(string \<Rightarrow> flt option) \<Rightarrow> ((string \<times> string) list \<times> string option) list
    \<Rightarrow> (string \<times> flt) list \<Rightarrow> (string \<times> flt) list" where
  "fold_samples pf [] out = out"
| "fold_samples pf ((m, raw) # ss) out =
     (let sid = (case map_of m ''system_id'' of None \<Rightarrow> [] | Some v \<Rightarrow> v)
      in fold_samples pf ss
           (if sid = [] then out
            else case sample_value pf raw of None \<Rightarrow> out | Some v \<Rightarrow> alist_put sid v out))"

definition instant_by_system :: "(string \<Rightarrow> flt option) \<Rightarrow> prom_answer option \<Rightarrow> (string \<times> flt) list option" where
  "instant_by_system pf a =
     (case a of None \<Rightarrow> None
      | Some r \<Rightarrow>
          if pr_status r \<noteq> ''success'' \<or> pr_type r \<noteq> ''vector'' then None
          else Some (fold_samples pf (pr_samples r) []))"

section \<open>Evaluation\<close>

text \<open>
  What an evaluation sees of the world: the inventory and its labels, the answer of
  Prometheus to a query, the parser of its numbers. \<open>ev_order\<close> is the order in which the
  \<open>range\<close> over a Go map visits its keys.
\<close>

record eval_world =
  ev_json :: "string \<Rightarrow> string list option"
  ev_fleet :: inventory
  ev_labels :: sql_labels
  ev_answer :: "string \<Rightarrow> prom_answer option"
  ev_float :: "string \<Rightarrow> flt option"
  ev_order :: "string list \<Rightarrow> string list"

datatype eval_error = EvalTarget | EvalPanic | EvalQuery | EvalKind | EvalStore

definition breaching_systems :: "eval_world \<Rightarrow> rule \<Rightarrow> (eval_error, (string \<times> flt) list) result" where
  "breaching_systems W r =
     (let x = ru_input r in
      case resolve_target (ev_json W) (ri_kind x) (ri_value x) (ev_fleet W) (ev_labels W) of
        Inl TargetPanic \<Rightarrow> Inl EvalPanic
      | Inl _ \<Rightarrow> Inl EvalTarget
      | Inr cands \<Rightarrow>
          if ri_condition x = kind_unreachable
          then Inr (fold (\<lambda>s m. if sys_status s = status_unreachable then alist_put (sys_id s) (Fin 1) m else m) cands [])
          else if ri_condition x = kind_metric \<or> ri_condition x = kind_promql
          then
            (case instant_by_system (ev_float W) (ev_answer W (if ri_condition x = kind_metric then metric_expr (ri_metric x) else ri_expr x)) of
               None \<Rightarrow> Inl EvalQuery
             | Some vals \<Rightarrow>
                 Inr (filter (\<lambda>(sid, v). sid \<in> sys_id ` set cands \<and> breaches (ri_comparator x) v (ri_threshold x)) vals))
          else Inl EvalKind)"

datatype trans_kind = Fired | Resolved

record transition =
  tr_rule :: rule
  tr_system :: string
  tr_value :: flt
  tr_kind :: trans_kind
  tr_at :: int

text \<open>The operations of the interface \<open>Store\<close> that an evaluation writes with.\<close>

record 's inst_ops =
  op_put :: "inst \<Rightarrow> 's \<Rightarrow> 's option"
  op_del :: "string \<Rightarrow> string \<Rightarrow> 's \<Rightarrow> 's option"
  op_rows :: "string \<Rightarrow> 's \<Rightarrow> inst list"

text \<open>The loop bodies carry the transitions and the flag \<open>changed\<close>; an error keeps those made so far.\<close>

type_synonym 's eval_state = "transition list \<times> bool \<times> 's"

definition fire_transition :: "rule \<Rightarrow> string \<Rightarrow> flt \<Rightarrow> int \<Rightarrow> transition" where
  "fire_transition r sid v now = \<lparr>tr_rule = r, tr_system = sid, tr_value = v, tr_kind = Fired, tr_at = now\<rparr>"

definition for_nanos :: "rule \<Rightarrow> int" where
  "for_nanos r = ri_for (ru_input r) * 1000000000"

definition new_instance :: "rule \<Rightarrow> string \<Rightarrow> flt \<Rightarrow> int \<Rightarrow> inst" where
  "new_instance r sid v now =
     (let i = \<lparr>in_rule = ru_id r, in_system = sid, in_state = Pending, in_val = v, in_first = now,
               in_fired = None, in_eval = now\<rparr>
      in if for_nanos r \<le> 0 then i\<lparr>in_state := Firing, in_fired := Some now\<rparr> else i)"

definition promotes :: "rule \<Rightarrow> int \<Rightarrow> inst \<Rightarrow> bool" where
  "promotes r now i = (in_state i = Pending \<and> now - in_first i \<ge> for_nanos r)"

definition refresh_instance :: "rule \<Rightarrow> flt \<Rightarrow> int \<Rightarrow> inst \<Rightarrow> inst" where
  "refresh_instance r v now i =
     (let j = i\<lparr>in_val := v, in_eval := now\<rparr>
      in if promotes r now i then j\<lparr>in_state := Firing, in_fired := Some now\<rparr> else j)"

definition breach_step :: "'s inst_ops \<Rightarrow> rule \<Rightarrow> int \<Rightarrow> (string \<times> inst) list \<Rightarrow> string \<times> flt \<Rightarrow> 's eval_state
    \<Rightarrow> (eval_error \<times> 's eval_state) + 's eval_state" where
  "breach_step D r now by_id p acc =
     (case (p, acc) of
        ((sid, v), (ts, ch, st)) \<Rightarrow>
          (case map_of by_id sid of
             None \<Rightarrow>
               (let i = new_instance r sid v now;
                    ts' = (if for_nanos r \<le> 0 then ts @ [fire_transition r sid v now] else ts)
                in case op_put D i st of
                     None \<Rightarrow> Inl (EvalStore, ts', ch, st)
                   | Some st' \<Rightarrow> Inr (ts', True, st'))
           | Some old \<Rightarrow>
               (let ts' = (if promotes r now old then ts @ [fire_transition r sid v now] else ts);
                    ch' = (ch \<or> promotes r now old)
                in case op_put D (refresh_instance r v now old) st of
                     None \<Rightarrow> Inl (EvalStore, ts', ch', st)
                   | Some st' \<Rightarrow> Inr (ts', ch', st'))))"

definition clear_step :: "'s inst_ops \<Rightarrow> rule \<Rightarrow> int \<Rightarrow> (string \<times> flt) list \<Rightarrow> string \<times> inst \<Rightarrow> 's eval_state
    \<Rightarrow> (eval_error \<times> 's eval_state) + 's eval_state" where
  "clear_step D r now breaching p acc =
     (case (p, acc) of
        ((sid, i), (ts, ch, st)) \<Rightarrow>
          if map_of breaching sid \<noteq> None then Inr acc
          else
            (case op_del D (ru_id r) sid st of
               None \<Rightarrow> Inl (EvalStore, ts, ch, st)
             | Some st' \<Rightarrow>
                 Inr (if in_state i = Firing
                      then ts @ [\<lparr>tr_rule = r, tr_system = sid, tr_value = in_val i, tr_kind = Resolved, tr_at = now\<rparr>]
                      else ts, True, st')))"

text \<open>\<open>for k, v := range m\<close>.\<close>

definition range_map :: "(string list \<Rightarrow> string list) \<Rightarrow> (string \<times> 'v) list \<Rightarrow> (string \<times> 'v) list" where
  "range_map ord m = map (\<lambda>k. (k, the (map_of m k))) (ord (map fst m))"

definition rows_by_system :: "inst list \<Rightarrow> (string \<times> inst) list" where
  "rows_by_system rows = fold (\<lambda>i m. alist_put (in_system i) i m) rows []"

definition evaluate_rule :: "eval_world \<Rightarrow> 's inst_ops \<Rightarrow> rule \<Rightarrow> int \<Rightarrow> 's
    \<Rightarrow> (eval_error \<times> 's eval_state) + 's eval_state" where
  "evaluate_rule W D r now st =
     (case breaching_systems W r of
        Inl e \<Rightarrow> Inl (e, [], False, st)
      | Inr b \<Rightarrow>
          (let by_id = rows_by_system (op_rows D (ru_id r) st)
           in rbind (rfold (breach_step D r now by_id) (range_map (ev_order W) b) ([], False, st))
                (rfold (clear_step D r now b) (range_map (ev_order W) by_id))))"

text \<open>
  One tick: the transitions for the sink, whether the hub is nudged, and the store. \<open>None\<close>
  is the panic of a rule that got past the validation.
\<close>

fun evaluate_rules :: "eval_world \<Rightarrow> 's inst_ops \<Rightarrow> int \<Rightarrow> rule list \<Rightarrow> 's eval_state \<Rightarrow> 's eval_state option" where
  "evaluate_rules W D now [] acc = Some acc"
| "evaluate_rules W D now (r # rs) (ts, ch, st) =
     (case evaluate_rule W D r now st of
        Inl (EvalPanic, _) \<Rightarrow> None
      | Inl (_, _, _, st') \<Rightarrow> evaluate_rules W D now rs (ts, ch, st')
      | Inr (ts', ch', st') \<Rightarrow> evaluate_rules W D now rs (ts @ ts', ch \<or> ch', st'))"

definition sql_inst_ops :: "'a alert_db_scheme inst_ops" where
  "sql_inst_ops = \<lparr>op_put = (\<lambda>i db. Some (put_instance i db)), op_del = (\<lambda>r s db. Some (delete_instance r s db)),
     op_rows = instances_for_rule\<rparr>"

definition evaluate_once :: "eval_world \<Rightarrow> int \<Rightarrow> 'a alert_db_scheme \<Rightarrow> 'a alert_db_scheme eval_state option" where
  "evaluate_once W now db = evaluate_rules W sql_inst_ops now (list_enabled_rules db) ([], False, db)"

text \<open>\<open>resolveInterval\<close> of the ticker, with the settings row read each time.\<close>

definition alert_interval :: "setting_rows option \<Rightarrow> int" where
  "alert_interval rows =
     (let d = alert_interval_seconds rows * 1000000000 in if d > 0 then d else 60000000000)"

end
