(* ===== verification/AlertProps.thy ===== *)
theory AlertProps
  imports Alerts
begin

text \<open>
  The evaluation against its specification: what one evaluation does to the instance of one
  system, over any store that keeps the laws of \<open>instance_store\<close>, and what a sequence of
  evaluations does.
\<close>

section \<open>The contract of the store\<close>

locale instance_store =
  fixes D :: "'s inst_ops"
    and invar :: "'s \<Rightarrow> bool"
    and holds :: "'s \<Rightarrow> string \<Rightarrow> string \<Rightarrow> inst option"
  assumes put_law: "invar st \<Longrightarrow> op_put D i st = Some st' \<Longrightarrow>
      invar st' \<and> (\<forall>q s. holds st' q s = (if q = in_rule i \<and> s = in_system i then Some i else holds st q s))"
    and del_law: "invar st \<Longrightarrow> op_del D r s st = Some st' \<Longrightarrow>
      invar st' \<and> (\<forall>q t. holds st' q t = (if q = r \<and> t = s then None else holds st q t))"
    and rows_law: "invar st \<Longrightarrow> distinct (map in_system (op_rows D r st)) \<and>
      (\<forall>i. i \<in> set (op_rows D r st) \<longleftrightarrow> in_rule i = r \<and> holds st r (in_system i) = Some i)"
    and holds_keys: "invar st \<Longrightarrow> holds st q s = Some i \<Longrightarrow> in_rule i = q \<and> in_system i = s"

text \<open>A store whose writes never fail.\<close>

locale sound_store = instance_store +
  assumes put_total: "op_put D i st \<noteq> None"
    and del_total: "op_del D r s st \<noteq> None"

section \<open>The life of one instance\<close>

definition inst_step :: "rule \<Rightarrow> string \<Rightarrow> int \<Rightarrow> flt option \<Rightarrow> inst option \<Rightarrow> inst option" where
  "inst_step r sid now v old =
     (case v of None \<Rightarrow> None
      | Some x \<Rightarrow> Some (case old of None \<Rightarrow> new_instance r sid x now | Some i \<Rightarrow> refresh_instance r x now i))"

definition inst_events :: "rule \<Rightarrow> string \<Rightarrow> int \<Rightarrow> flt option \<Rightarrow> inst option \<Rightarrow> transition list" where
  "inst_events r sid now v old =
     (case (v, old) of
        (Some x, None) \<Rightarrow> if for_nanos r \<le> 0 then [fire_transition r sid x now] else []
      | (Some x, Some i) \<Rightarrow> if promotes r now i then [fire_transition r sid x now] else []
      | (None, Some i) \<Rightarrow>
          if in_state i = Firing
          then [\<lparr>tr_rule = r, tr_system = sid, tr_value = in_val i, tr_kind = Resolved, tr_at = now\<rparr>] else []
      | (None, None) \<Rightarrow> [])"

definition inst_changes :: "rule \<Rightarrow> int \<Rightarrow> flt option \<Rightarrow> inst option \<Rightarrow> bool" where
  "inst_changes r now v old =
     (case (v, old) of (Some _, None) \<Rightarrow> True | (Some _, Some i) \<Rightarrow> promotes r now i
      | (None, Some _) \<Rightarrow> True | (None, None) \<Rightarrow> False)"

lemma new_instance_keys [simp]: "in_rule (new_instance r sid v now) = ru_id r" "in_system (new_instance r sid v now) = sid"
  by (simp_all add: new_instance_def Let_def)

lemma refresh_instance_keys [simp]:
  "in_rule (refresh_instance r v now i) = in_rule i" "in_system (refresh_instance r v now i) = in_system i"
  by (simp_all add: refresh_instance_def Let_def)

lemma breach_step_result:
  assumes "breach_step D r now by_id (sid, v) (ts, ch, st) = Inr (ts', ch', st')"
  shows "ts' = ts @ inst_events r sid now (Some v) (map_of by_id sid) \<and>
    ch' = (ch \<or> inst_changes r now (Some v) (map_of by_id sid)) \<and>
    op_put D (the (inst_step r sid now (Some v) (map_of by_id sid))) st = Some st'"
  using assms
  by (auto simp: breach_step_def inst_events_def inst_changes_def inst_step_def Let_def split: option.splits if_splits)

lemma clear_step_result:
  assumes "clear_step D r now b (sid, i) (ts, ch, st) = Inr (ts', ch', st')"
  shows "if map_of b sid \<noteq> None then ts' = ts \<and> ch' = ch \<and> st' = st
    else ts' = ts @ inst_events r sid now None (Some i) \<and> ch' \<and> op_del D (ru_id r) sid st = Some st'"
  using assms by (auto simp: clear_step_def inst_events_def split: option.splits if_splits)

context instance_store
begin

lemma breach_loop:
  assumes "rfold (breach_step D r now by_id) ps (ts, ch, st) = Inr (ts', ch', st')" "distinct (map fst ps)" "invar st"
    and "\<And>s i. map_of by_id s = Some i \<Longrightarrow> in_rule i = ru_id r \<and> in_system i = s"
  shows "invar st' \<and>
    ts' = ts @ concat (map (\<lambda>(s, v). inst_events r s now (Some v) (map_of by_id s)) ps) \<and>
    ch' = (ch \<or> (\<exists>(s, v)\<in>set ps. inst_changes r now (Some v) (map_of by_id s))) \<and>
    (\<forall>q s. holds st' q s = (if q = ru_id r \<and> s \<in> fst ` set ps
       then inst_step r s now (map_of ps s) (map_of by_id s) else holds st q s))"
  using assms
proof (induction ps arbitrary: ts ch st)
  case (Cons p ps)
  obtain sid v where p: "p = (sid, v)" by fastforce
  from Cons.prems(1) obtain ts1 ch1 st1 where
    1: "breach_step D r now by_id (sid, v) (ts, ch, st) = Inr (ts1, ch1, st1)" and
    2: "rfold (breach_step D r now by_id) ps (ts1, ch1, st1) = Inr (ts', ch', st')"
    by (auto simp: p)
  note s = breach_step_result [OF 1]
  let ?i = "the (inst_step r sid now (Some v) (map_of by_id sid))"
  have k: "in_rule ?i = ru_id r" "in_system ?i = sid"
    using Cons.prems(4) by (auto simp: inst_step_def split: option.split)
  have some: "inst_step r sid now (Some v) (map_of by_id sid) = Some ?i" by (simp add: inst_step_def)
  from s put_law [OF Cons.prems(3)] k have
    h: "invar st1" "\<And>q t. holds st1 q t = (if q = ru_id r \<and> t = sid then Some ?i else holds st q t)" by auto
  have d: "distinct (map fst ps)" "sid \<notin> fst ` set ps" using Cons.prems(2) by (simp_all add: p)
  from Cons.IH [OF 2 d(1) h(1) Cons.prems(4)] s h(2) d(2) some show ?case
    by (auto simp: p)
qed simp

lemma clear_loop:
  assumes "rfold (clear_step D r now b) ps (ts, ch, st) = Inr (ts', ch', st')" "distinct (map fst ps)" "invar st"
  shows "invar st' \<and>
    ts' = ts @ concat (map (\<lambda>(s, i). if map_of b s \<noteq> None then [] else inst_events r s now None (Some i)) ps) \<and>
    ch' = (ch \<or> (\<exists>(s, i)\<in>set ps. map_of b s = None)) \<and>
    (\<forall>q s. holds st' q s = (if q = ru_id r \<and> s \<in> fst ` set ps \<and> map_of b s = None then None else holds st q s))"
  using assms
proof (induction ps arbitrary: ts ch st)
  case (Cons p ps)
  obtain sid i where p: "p = (sid, i)" by fastforce
  from Cons.prems(1) obtain ts1 ch1 st1 where
    1: "clear_step D r now b (sid, i) (ts, ch, st) = Inr (ts1, ch1, st1)" and
    2: "rfold (clear_step D r now b) ps (ts1, ch1, st1) = Inr (ts', ch', st')"
    by (auto simp: p)
  have d: "distinct (map fst ps)" "sid \<notin> fst ` set ps" using Cons.prems(2) by (simp_all add: p)
  show ?case
  proof (cases "map_of b sid")
    case (Some v)
    with clear_step_result [OF 1] have "ts1 = ts" "ch1 = ch" "st1 = st" by simp_all
    with Cons.IH [OF 2 d(1)] Cons.prems(3) d(2) Some show ?thesis by (auto simp: p)
  next
    case None
    with clear_step_result [OF 1] have s: "ts1 = ts @ inst_events r sid now None (Some i)" "ch1"
      "op_del D (ru_id r) sid st = Some st1" by simp_all
    from del_law [OF Cons.prems(3) s(3)] have h: "invar st1"
      "\<And>q t. holds st1 q t = (if q = ru_id r \<and> t = sid then None else holds st q t)" by blast+
    from Cons.IH [OF 2 d(1) h(1)] s(1,2) h(2) d(2) None show ?thesis by (auto simp: p)
  qed
qed simp

end

section \<open>Iteration\<close>

definition map_order :: "(string list \<Rightarrow> string list) \<Rightarrow> bool" where
  "map_order ord \<longleftrightarrow> (\<forall>ks. distinct ks \<longrightarrow> distinct (ord ks) \<and> set (ord ks) = set ks)"

lemma range_map_keys [simp]: "map fst (range_map ord m) = ord (map fst m)"
  by (simp add: range_map_def comp_def)

lemma set_range_map:
  assumes "map_order ord" "distinct (map fst m)"
  shows "set (range_map ord m) = set m"
proof -
  have "set (range_map ord m) = (\<lambda>k. (k, the (map_of m k))) ` fst ` set m"
    using assms by (simp add: range_map_def map_order_def)
  also have "\<dots> = (\<lambda>p. p) ` set m" unfolding image_image
    using assms(2) by (intro image_cong refl) (auto simp: map_of_is_SomeI)
  finally show ?thesis by simp
qed

lemma range_map_of:
  assumes "map_order ord" "distinct (map fst m)"
  shows "map_of (range_map ord m) = map_of m"
proof -
  have "distinct (map fst (range_map ord m))" using assms by (simp add: map_order_def)
  with assms set_range_map [OF assms] show ?thesis by (simp add: map_of_inject_set)
qed

lemma rows_by_system_keys: "map_of (rows_by_system rows) s = Some i \<Longrightarrow> i \<in> set rows \<and> in_system i = s"
  unfolding rows_by_system_def by (induction rows rule: rev_induct) (auto split: if_splits)

lemma rows_by_system_distinct: "distinct (map fst (rows_by_system rows))"
  unfolding rows_by_system_def by (induction rows rule: rev_induct) simp_all

lemma rows_by_system_of:
  "distinct (map in_system rows) \<Longrightarrow> map_of (rows_by_system rows) s = Some i \<longleftrightarrow> i \<in> set rows \<and> in_system i = s"
  unfolding rows_by_system_def by (induction rows rule: rev_induct) (auto simp: image_iff)

lemma fold_samples_distinct: "distinct (map fst out) \<Longrightarrow> distinct (map fst (fold_samples pf ss out))"
  by (induction pf ss out rule: fold_samples.induct) (auto simp: Let_def split: option.split)

lemma breaching_distinct:
  assumes "breaching_systems W r = Inr b"
  shows "distinct (map fst b)"
proof -
  have f: "distinct (map fst (fold (\<lambda>s m. if sys_status s = status_unreachable then alist_put (sys_id s) (Fin 1) m else m) cs m))"
    if "distinct (map fst m)" for cs and m :: "(string \<times> flt) list"
    using that by (induction cs arbitrary: m) simp_all
  have g: "distinct (map fst vs)" if "instant_by_system pf a = Some vs" for pf a vs
    using that by (auto simp: instant_by_system_def fold_samples_distinct split: option.splits if_splits)
  from assms show ?thesis
    unfolding breaching_systems_def Let_def
    by (auto split: sum.splits target_error.splits if_splits option.splits intro!: f distinct_map_filter dest!: g)
qed

lemma filter_concat_key:
  assumes "distinct (map fst ps)" "\<And>k v t. (k, v) \<in> set ps \<Longrightarrow> t \<in> set (g k v) \<Longrightarrow> f t = k"
  shows "filter (\<lambda>t. f t = key) (concat (map (\<lambda>(k, v). g k v) ps)) =
    (case map_of ps key of None \<Rightarrow> [] | Some v \<Rightarrow> g key v)"
  using assms
proof (induction ps)
  case (Cons p ps)
  obtain k v where p: "p = (k, v)" by fastforce
  have f: "f t = k" if "t \<in> set (g k v)" for t using that Cons.prems(2) [of k v] by (simp add: p)
  have IH: "filter (\<lambda>t. f t = key) (concat (map (\<lambda>(k, v). g k v) ps)) =
    (case map_of ps key of None \<Rightarrow> [] | Some v \<Rightarrow> g key v)"
    using Cons.prems by (intro Cons.IH) auto
  show ?case
  proof (cases "key = k")
    case True
    then have "map_of ps key = None" using Cons.prems(1) by (simp add: p map_of_eq_None_iff)
    with True IH f show ?thesis by (simp add: p filter_id_conv)
  next
    case False
    with f have "filter (\<lambda>t. f t = key) (g k v) = []" by (simp add: filter_empty_conv)
    with False IH show ?thesis by (simp add: p)
  qed
qed simp

lemma inst_events_system: "t \<in> set (inst_events r s now v old) \<Longrightarrow> tr_system t = s"
  by (auto simp: inst_events_def fire_transition_def split: option.splits if_splits)

section \<open>One evaluation\<close>

context instance_store
begin

text \<open>An evaluation that ends well has made the step of \<open>inst_step\<close> on every system.\<close>

lemma evaluation_steps:
  assumes ev: "evaluate_rule W D r now st = Inr (ts, ch, st')" and b: "breaching_systems W r = Inr b"
    and ord: "map_order (ev_order W)" and inv: "invar st"
  shows "invar st' \<and>
    (\<forall>q s. holds st' q s = (if q = ru_id r then inst_step r s now (map_of b s) (holds st q s) else holds st q s)) \<and>
    (\<forall>s. filter (\<lambda>t. tr_system t = s) ts = inst_events r s now (map_of b s) (holds st (ru_id r) s)) \<and>
    (ch \<longleftrightarrow> (\<exists>s. inst_changes r now (map_of b s) (holds st (ru_id r) s)))"
proof -
  define rows where "rows = op_rows D (ru_id r) st"
  define by_id where "by_id = rows_by_system rows"
  let ?bs = "range_map (ev_order W) b" and ?is = "range_map (ev_order W) by_id"
  from rows_law [OF inv, of "ru_id r"] have rows: "distinct (map in_system rows)"
    "\<And>i. i \<in> set rows \<longleftrightarrow> in_rule i = ru_id r \<and> holds st (ru_id r) (in_system i) = Some i"
    by (simp_all add: rows_def)
  have by_id: "map_of by_id s = holds st (ru_id r) s" for s
  proof (cases "holds st (ru_id r) s")
    case None
    then show ?thesis using rows(2) rows_by_system_keys [of rows s] by (cases "map_of by_id s") (auto simp: by_id_def)
  next
    case (Some i)
    with holds_keys [OF inv Some] rows show ?thesis by (simp add: by_id_def rows_by_system_of)
  qed
  have db: "distinct (map fst b)" by (rule breaching_distinct [OF b])
  have di: "distinct (map fst by_id)" by (simp add: by_id_def rows_by_system_distinct)
  from ev b obtain ts1 ch1 st1 where
    1: "rfold (breach_step D r now by_id) ?bs ([], False, st) = Inr (ts1, ch1, st1)" and
    2: "rfold (clear_step D r now b) ?is (ts1, ch1, st1) = Inr (ts, ch, st')"
    by (auto simp: evaluate_rule_def Let_def by_id_def rows_def)
  have "distinct (map fst ?bs)" "distinct (map fst ?is)" using ord db di by (simp_all add: map_order_def)
  note L1 = breach_loop [OF 1 this(1) inv] and L2 = clear_loop [OF 2 this(2)]
  have "in_rule i = ru_id r \<and> in_system i = s" if "map_of by_id s = Some i" for s i
    using that holds_keys [OF inv] by (simp add: by_id)
  note L1 = L1 [OF this]
  note L2 = L2 [OF conjunct1 [OF L1]]
  have mb: "map_of ?bs = map_of b" "set ?bs = set b" using range_map_of [OF ord db] set_range_map [OF ord db] by simp_all
  have mi: "set ?is = set by_id" by (rule set_range_map [OF ord di])
  have keys_b: "s \<in> fst ` set b \<longleftrightarrow> map_of b s \<noteq> None" and keys_i: "s \<in> fst ` set by_id \<longleftrightarrow> holds st (ru_id r) s \<noteq> None" for s
    by (simp_all add: map_of_eq_None_iff flip: by_id)
  have in_b: "(s, v) \<in> set b \<longleftrightarrow> map_of b s = Some v" and in_i: "(s, i) \<in> set by_id \<longleftrightarrow> holds st (ru_id r) s = Some i" for s v i
    using db di by (simp_all add: flip: by_id)
  let ?S = "\<lambda>s. holds st (ru_id r) s"
  have h1: "holds st1 q s = (if q = ru_id r \<and> map_of b s \<noteq> None then inst_step r s now (map_of b s) (?S s) else holds st q s)" for q s
    using L1 by (simp add: mb keys_b by_id cong: if_cong)
  have h2: "holds st' q s = (if q = ru_id r \<and> ?S s \<noteq> None \<and> map_of b s = None then None else holds st1 q s)" for q s
    using L2 by (simp add: mi keys_i cong: if_cong)
  have "holds st' q s = (if q = ru_id r then inst_step r s now (map_of b s) (holds st q s) else holds st q s)" for q s
    unfolding h2 h1 by (cases "map_of b s"; cases "?S s") (auto simp: inst_step_def)
  moreover have "filter (\<lambda>t. tr_system t = s) ts = inst_events r s now (map_of b s) (?S s)" for s
  proof -
    have ts: "ts = concat (map (\<lambda>(s, v). inst_events r s now (Some v) (?S s)) ?bs) @
        concat (map (\<lambda>(s, i). if map_of b s \<noteq> None then [] else inst_events r s now None (Some i)) ?is)"
      using L1 L2 by (simp add: by_id split_def)
    have "filter (\<lambda>t. tr_system t = s) (concat (map (\<lambda>(s, v). inst_events r s now (Some v) (?S s)) ?bs)) =
        (case map_of ?bs s of None \<Rightarrow> [] | Some v \<Rightarrow> inst_events r s now (Some v) (?S s))"
      by (rule filter_concat_key) (use ord db in \<open>auto simp: map_order_def inst_events_system\<close>)
    moreover have "filter (\<lambda>t. tr_system t = s)
          (concat (map (\<lambda>(s, i). if map_of b s \<noteq> None then [] else inst_events r s now None (Some i)) ?is)) =
        (case map_of ?is s of None \<Rightarrow> [] | Some i \<Rightarrow> if map_of b s \<noteq> None then [] else inst_events r s now None (Some i))"
      by (rule filter_concat_key)
        (use ord di in \<open>auto simp: map_order_def dest: inst_events_system split: if_splits\<close>)
    ultimately have "filter (\<lambda>t. tr_system t = s) ts =
        (case map_of ?bs s of None \<Rightarrow> [] | Some v \<Rightarrow> inst_events r s now (Some v) (?S s)) @
        (case map_of ?is s of None \<Rightarrow> [] | Some i \<Rightarrow> if map_of b s \<noteq> None then [] else inst_events r s now None (Some i))"
      unfolding ts filter_append by simp
    then show ?thesis unfolding mb range_map_of [OF ord di] by_id
      by (cases "map_of b s"; cases "?S s") (simp_all add: inst_events_def)
  qed
  moreover have "ch \<longleftrightarrow> (\<exists>s. inst_changes r now (map_of b s) (?S s))"
  proof -
    have ch: "ch \<longleftrightarrow> (\<exists>(s, v)\<in>set b. inst_changes r now (Some v) (?S s)) \<or> (\<exists>(s, i)\<in>set by_id. map_of b s = None)"
      using L1 L2 by (simp add: mb mi by_id)
    show ?thesis
    proof
      assume "ch"
      then consider s v where "map_of b s = Some v" "inst_changes r now (Some v) (?S s)"
        | s i where "?S s = Some i" "map_of b s = None"
        unfolding ch by (auto simp: in_b in_i)
      then show "\<exists>s. inst_changes r now (map_of b s) (?S s)"
      proof cases
        case 1
        then show ?thesis by metis
      next
        case 2
        then have "inst_changes r now (map_of b s) (?S s)" by (simp add: inst_changes_def)
        then show ?thesis by blast
      qed
    next
      assume "\<exists>s. inst_changes r now (map_of b s) (?S s)"
      then obtain s where t: "inst_changes r now (map_of b s) (?S s)" by blast
      show "ch"
      proof (cases "map_of b s")
        case None
        with t obtain i where "?S s = Some i" by (cases "?S s") (auto simp: inst_changes_def)
        then have "(s, i) \<in> set by_id" by (simp add: in_i)
        with None show ?thesis unfolding ch by blast
      next
        case (Some v)
        then have "(s, v) \<in> set b" by (simp add: in_b)
        with t Some show ?thesis unfolding ch by force
      qed
    qed
  qed
  ultimately show ?thesis using L2 by blast
qed

end

context sound_store
begin

lemma breach_loop_total: "\<exists>acc'. rfold (breach_step D r now by_id) ps acc = Inr acc'"
proof (induction ps arbitrary: acc)
  case (Cons p ps)
  obtain sid v where p1: "p = (sid, v)" by (cases p)
  obtain ts ch st where p2: "acc = (ts, ch, st)" by (cases acc)
  have "\<exists>acc1. breach_step D r now by_id p acc = Inr acc1"
    using put_total [of "new_instance r sid v now" st] put_total [of "refresh_instance r v now (the (map_of by_id sid))" st]
    by (cases "map_of by_id sid") (auto simp: p1 p2 breach_step_def Let_def)
  then obtain acc1 where 1: "breach_step D r now by_id p acc = Inr acc1" by blast
  obtain acc2 where "rfold (breach_step D r now by_id) ps acc1 = Inr acc2" using Cons.IH by blast
  with 1 show ?case by (intro exI [of _ acc2]) simp
qed (rule exI, rule rfold.simps(1))

lemma clear_loop_total: "\<exists>acc'. rfold (clear_step D r now b) ps acc = Inr acc'"
proof (induction ps arbitrary: acc)
  case (Cons p ps)
  obtain sid i where p1: "p = (sid, i)" by (cases p)
  obtain ts ch st where p2: "acc = (ts, ch, st)" by (cases acc)
  have "\<exists>acc1. clear_step D r now b p acc = Inr acc1"
    using del_total [of "ru_id r" sid st] by (auto simp: p1 p2 clear_step_def)
  then obtain acc1 where 1: "clear_step D r now b p acc = Inr acc1" by blast
  obtain acc2 where "rfold (clear_step D r now b) ps acc1 = Inr acc2" using Cons.IH by blast
  with 1 show ?case by (intro exI [of _ acc2]) simp
qed (rule exI, rule rfold.simps(1))

lemma evaluation_total:
  assumes "breaching_systems W r = Inr b"
  shows "\<exists>ts ch st'. evaluate_rule W D r now st = Inr (ts, ch, st')"
proof -
  obtain acc where a: "rfold (breach_step D r now (rows_by_system (op_rows D (ru_id r) st))) (range_map (ev_order W) b) ([], False, st) = Inr acc"
    using breach_loop_total by blast
  with clear_loop_total [of r now b "range_map (ev_order W) (rows_by_system (op_rows D (ru_id r) st))" acc] assms
  show ?thesis by (auto simp: evaluate_rule_def Let_def)
qed

end

section \<open>The SQLite store keeps the contract\<close>

definition inst_at :: "'a alert_db_scheme \<Rightarrow> string \<Rightarrow> string \<Rightarrow> inst option" where
  "inst_at db q s = find (same_inst q s) (alert_insts db)"

definition inst_key :: "inst \<Rightarrow> string \<times> string" where
  "inst_key n = (in_rule n, in_system n)"

definition wf_insts :: "'a alert_db_scheme \<Rightarrow> bool" where
  "wf_insts db \<longleftrightarrow> distinct (map inst_key (alert_insts db))"

lemma same_inst_key: "same_inst q s = (\<lambda>n. inst_key n = (q, s))"
  by (auto simp: same_inst_def inst_key_def)

lemma inst_at_iff: "wf_insts db \<Longrightarrow> inst_at db q s = Some i \<longleftrightarrow> i \<in> set (alert_insts db) \<and> inst_key i = (q, s)"
  unfolding inst_at_def wf_insts_def same_inst_key
  using find_unique [of inst_key "alert_insts db" i] by (auto dest: find_Some_in)

lemma put_instance_law:
  assumes "wf_insts db"
  shows "wf_insts (put_instance i db) \<and>
    inst_at (put_instance i db) q s = (if q = in_rule i \<and> s = in_system i then Some i else inst_at db q s)"
proof (cases "\<exists>n\<in>set (alert_insts db). inst_key n = inst_key i")
  case False
  then have p: "put_instance i db = db\<lparr>alert_insts := alert_insts db @ [i]\<rparr>"
    by (auto simp: put_instance_def Let_def same_inst_key inst_key_def)
  have "inst_at (put_instance i db) q s =
      (case inst_at db q s of Some n \<Rightarrow> Some n | None \<Rightarrow> if inst_key i = (q, s) then Some i else None)"
    by (simp add: p inst_at_def same_inst_key find_append split: option.split)
  moreover have "inst_at db q s = None" if "inst_key i = (q, s)"
    using False that inst_at_iff [OF assms, of q s] by (cases "inst_at db q s") auto
  ultimately have "inst_at (put_instance i db) q s = (if q = in_rule i \<and> s = in_system i then Some i else inst_at db q s)"
    by (auto simp: inst_key_def split: option.split)
  moreover have "wf_insts (put_instance i db)" using False assms by (auto simp: p wf_insts_def)
  ultimately show ?thesis by blast
next
  case True
  then have p: "put_instance i db = db\<lparr>alert_insts := update_where (\<lambda>n. inst_key n = inst_key i) (\<lambda>_. i) (alert_insts db)\<rparr>"
    by (auto simp: put_instance_def Let_def same_inst_key inst_key_def)
  have k: "inst_key n = inst_key i \<Longrightarrow> inst_key i = inst_key n" for n by simp
  have w: "wf_insts (put_instance i db)"
    using assms by (simp add: p wf_insts_def map_update_where)
  moreover have "inst_at (put_instance i db) q s = (if q = in_rule i \<and> s = in_system i then Some i else inst_at db q s)"
  proof -
    have "inst_at (put_instance i db) q s = map_option (\<lambda>n. if inst_key n = inst_key i then i else n) (inst_at db q s)"
      unfolding p inst_at_def same_inst_key by simp (rule find_update_where, simp)
    moreover obtain n where "n \<in> set (alert_insts db)" "inst_key n = inst_key i" using True by blast
    with assms have "inst_at db (in_rule i) (in_system i) = Some n" by (simp add: inst_at_iff inst_key_def)
    moreover have "inst_key n = (q, s)" if "inst_at db q s = Some n" for n using that assms by (simp add: inst_at_iff)
    ultimately show ?thesis by (cases "inst_at db q s") (auto simp: inst_key_def)
  qed
  ultimately show ?thesis by blast
qed

lemma delete_instance_law:
  assumes "wf_insts db"
  shows "wf_insts (delete_instance r s db) \<and>
    inst_at (delete_instance r s db) q t = (if q = r \<and> t = s then None else inst_at db q t)"
proof (cases "q = r \<and> t = s")
  case False
  then have "find (\<lambda>n. inst_key n = (q, t)) (delete_where (\<lambda>n. inst_key n = (r, s)) (alert_insts db)) =
      find (\<lambda>n. inst_key n = (q, t)) (alert_insts db)" by (intro find_delete_where_other) auto
  with False assms show ?thesis
    by (auto simp: wf_insts_def delete_instance_def distinct_map_delete_where inst_at_def same_inst_key)
qed (use assms in \<open>simp add: wf_insts_def delete_instance_def distinct_map_delete_where inst_at_def same_inst_key
      find_delete_where_same\<close>)

lemma rows_for_rule_law:
  assumes "wf_insts db"
  shows "distinct (map in_system (instances_for_rule r db)) \<and>
    (i \<in> set (instances_for_rule r db) \<longleftrightarrow> in_rule i = r \<and> inst_at db r (in_system i) = Some i)"
proof
  have "inj_on in_system {n \<in> set (alert_insts db). in_rule n = r}"
    using assms by (auto simp: wf_insts_def distinct_map inj_on_def inst_key_def)
  moreover have "distinct (alert_insts db)" using assms by (simp add: wf_insts_def distinct_map)
  ultimately have "distinct (map in_system (filter (\<lambda>n. in_rule n = r) (alert_insts db)))"
    by (simp add: distinct_map)
  then have "distinct (sort (map in_system (filter (\<lambda>n. in_rule n = r) (alert_insts db))))" by simp
  then show "distinct (map in_system (instances_for_rule r db))"
    unfolding instances_for_rule_def by (metis distinct_map distinct_sort set_sort)
  show "i \<in> set (instances_for_rule r db) \<longleftrightarrow> in_rule i = r \<and> inst_at db r (in_system i) = Some i"
    using assms by (auto simp: instances_for_rule_def inst_at_iff inst_key_def)
qed

interpretation sql_insts: sound_store sql_inst_ops wf_insts inst_at
proof unfold_locales
  fix st st' :: "'a alert_db_scheme" and i :: inst and q r s :: string
  show "wf_insts st \<Longrightarrow> op_put sql_inst_ops i st = Some st' \<Longrightarrow> wf_insts st' \<and>
      (\<forall>q s. inst_at st' q s = (if q = in_rule i \<and> s = in_system i then Some i else inst_at st q s))"
    using put_instance_law [of st i] by (auto simp: sql_inst_ops_def)
  show "wf_insts st \<Longrightarrow> op_del sql_inst_ops r s st = Some st' \<Longrightarrow> wf_insts st' \<and>
      (\<forall>q t. inst_at st' q t = (if q = r \<and> t = s then None else inst_at st q t))"
    using delete_instance_law [of st r s] by (auto simp: sql_inst_ops_def)
  show "wf_insts st \<Longrightarrow> distinct (map in_system (op_rows sql_inst_ops r st)) \<and>
      (\<forall>i. i \<in> set (op_rows sql_inst_ops r st) \<longleftrightarrow> in_rule i = r \<and> inst_at st r (in_system i) = Some i)"
    using rows_for_rule_law [of st r] by (simp add: sql_inst_ops_def)
  show "wf_insts st \<Longrightarrow> inst_at st q s = Some i \<Longrightarrow> in_rule i = q \<and> in_system i = s"
    by (simp add: inst_at_iff inst_key_def)
qed (simp_all add: sql_inst_ops_def)

end
