(* ===== verification/AlertClaims.thy ===== *)
theory AlertClaims
  imports AlertProps
begin

text \<open>
  What the alerts promise: one evaluation against its specification, when a rule fires and
  what is delivered over time, the rules the store lets in, and how a failing write loses a
  notification.
\<close>

section \<open>Concrete values for the witnesses\<close>

definition disk_rule :: rule where
  "disk_rule = \<lparr>ru_id = ''r1'', ru_input = \<lparr>ri_name = ''down'', ri_description = [], ri_condition = kind_unreachable,
     ri_metric = [], ri_expr = [], ri_comparator = [], ri_threshold = Fin 0, ri_for = 60, ri_severity = ''critical'',
     ri_kind = kind_global, ri_value = [], ri_enabled = True\<rparr>, ru_by = ''u1'', ru_created = 0, ru_updated = 0\<rparr>"

definition host :: "string \<Rightarrow> string \<Rightarrow> system" where
  "host i status = \<lparr>sys_id = i, sys_name = i, sys_status = status, sys_group = None, sys_windows = False, sys_reboot = None\<rparr>"

definition world_of :: "inventory \<Rightarrow> eval_world" where
  "world_of fleet = \<lparr>ev_json = (\<lambda>_. None), ev_fleet = fleet, ev_labels = \<lparr>sl_rows = [], sl_hosts = map sys_id fleet\<rparr>,
     ev_answer = (\<lambda>_. None), ev_float = (\<lambda>_. None), ev_order = (\<lambda>ks. ks)\<rparr>"

definition no_alerts :: alert_db where "no_alerts = \<lparr>alert_rules = [disk_rule], alert_insts = []\<rparr>"

lemma world_order [simp]: "map_order (ev_order (world_of fleet))"
  by (simp add: map_order_def world_of_def)

section \<open>One evaluation\<close>

text \<open>
  C15: One evaluation of a rule against the SQLite store, whatever the order in which Go visits its
  maps, does to each system exactly the step of the specification and emits exactly its event: a new
  breach becomes pending, or fires at once without a "for"; a pending one fires once it has held; a
  breach that clears is deleted, and resolved if it had fired. Instances of other rules are left
  alone, and it cannot fail once the breaching systems are known.
\<close>

theorem evaluation_refines_lifecycle:
  assumes "wf_insts db" "map_order (ev_order W)" "breaching_systems W r = Inr b"
  shows "\<exists>ts ch db'. evaluate_rule W sql_inst_ops r now db = Inr (ts, ch, db') \<and> wf_insts db' \<and>
    (\<forall>q s. inst_at db' q s = (if q = ru_id r then inst_step r s now (map_of b s) (inst_at db q s) else inst_at db q s)) \<and>
    (\<forall>s. filter (\<lambda>t. tr_system t = s) ts = inst_events r s now (map_of b s) (inst_at db (ru_id r) s)) \<and>
    (ch \<longleftrightarrow> (\<exists>s. inst_changes r now (map_of b s) (inst_at db (ru_id r) s)))"
proof -
  obtain ts ch db' where "evaluate_rule W sql_inst_ops r now db = Inr (ts, ch, db')"
    using sql_insts.evaluation_total [OF assms(3)] by metis
  with sql_insts.evaluation_steps [OF this assms(3,2,1)] show ?thesis by blast
qed

theorem evaluation_refines_lifecycle_witness:
  "\<exists>ts ch db'. evaluate_rule (world_of [host ''h1'' status_unreachable]) sql_inst_ops disk_rule 5 no_alerts = Inr (ts, ch, db') \<and>
     map_option in_state (inst_at db' ''r1'' ''h1'') = Some Pending"
proof -
  have "wf_insts no_alerts" by (simp add: wf_insts_def no_alerts_def)
  moreover have b: "breaching_systems (world_of [host ''h1'' status_unreachable]) disk_rule = Inr [(''h1'', Fin 1)]" by code_simp
  ultimately obtain ts ch db' where "evaluate_rule (world_of [host ''h1'' status_unreachable]) sql_inst_ops disk_rule 5 no_alerts = Inr (ts, ch, db')"
    "\<forall>q s. inst_at db' q s = (if q = ru_id disk_rule
       then inst_step disk_rule s 5 (map_of [(''h1'', Fin 1)] s) (inst_at no_alerts q s) else inst_at no_alerts q s)"
    using evaluation_refines_lifecycle [OF _ world_order b, of no_alerts 5] by blast
  moreover have "inst_step disk_rule ''h1'' 5 (Some (Fin 1)) (inst_at no_alerts ''r1'' ''h1'') =
      Some (new_instance disk_rule ''h1'' (Fin 1) 5)"
    by (simp add: inst_step_def inst_at_def no_alerts_def)
  ultimately show ?thesis
    by (auto simp: disk_rule_def new_instance_def for_nanos_def)
qed

section \<open>Over time\<close>

text \<open>The evaluations of one rule at the ticks of a list; a tick whose query fails changes nothing.\<close>

fun rule_runs :: "rule \<Rightarrow> (eval_world \<times> int) list \<Rightarrow> 'a alert_db_scheme \<Rightarrow> transition list \<times> 'a alert_db_scheme" where
  "rule_runs r [] db = ([], db)"
| "rule_runs r ((W, now) # es) db =
     (case evaluate_rule W sql_inst_ops r now db of
        Inl (_, _, _, db') \<Rightarrow> rule_runs r es db'
      | Inr (ts, _, db') \<Rightarrow> (case rule_runs r es db' of (ts', db'') \<Rightarrow> (ts @ ts', db'')))"

text \<open>What the evaluations saw of one system, and since when it has been in breach.\<close>

fun seen :: "rule \<Rightarrow> string \<Rightarrow> (eval_world \<times> int) list \<Rightarrow> (int \<times> flt option) list" where
  "seen r s [] = []"
| "seen r s ((W, now) # es) =
     (case breaching_systems W r of Inl _ \<Rightarrow> seen r s es | Inr b \<Rightarrow> (now, map_of b s) # seen r s es)"

fun breach_since :: "int option \<Rightarrow> (int \<times> flt option) list \<Rightarrow> int option" where
  "breach_since u [] = u"
| "breach_since u ((t, None) # h) = breach_since None h"
| "breach_since u ((t, Some v) # h) = breach_since (Some (case u of None \<Rightarrow> t | Some t0 \<Rightarrow> t0)) h"

fun alternating :: "trans_kind \<Rightarrow> trans_kind list \<Rightarrow> bool" where
  "alternating k [] = True"
| "alternating k (x # xs) = (x = k \<and> alternating (if k = Fired then Resolved else Fired) xs)"

definition expects :: "inst option \<Rightarrow> trans_kind" where
  "expects i = (case i of None \<Rightarrow> Fired | Some n \<Rightarrow> if in_state n = Firing then Resolved else Fired)"

text \<open>The instance of a breach that began at \<open>u\<close> and was last seen at \<open>t\<close>.\<close>

definition fits :: "rule \<Rightarrow> int option \<Rightarrow> int \<Rightarrow> inst option \<Rightarrow> bool" where
  "fits r u t i \<longleftrightarrow>
     (case (u, i) of
        (None, None) \<Rightarrow> True
      | (Some u, Some n) \<Rightarrow> in_first n = u \<and> (in_state n = Firing \<longleftrightarrow> t - u \<ge> for_nanos r)
      | _ \<Rightarrow> False)"

lemma not_firing: "x \<noteq> Firing \<longleftrightarrow> x = Pending"
  by (cases x) simp_all

text \<open>One step of the specification keeps the two in agreement.\<close>

lemma inst_step_fits:
  assumes "fits r u t i" "t \<le> now"
  shows "fits r (breach_since u [(now, v)]) now (inst_step r s now v i) \<and>
    (\<exists>k. map tr_kind (inst_events r s now v i) = k \<and>
      (k = [] \<and> expects (inst_step r s now v i) = expects i \<or>
       k = [expects i] \<and> expects (inst_step r s now v i) = (if expects i = Fired then Resolved else Fired)))"
  using assms
  by (cases v; cases i; cases u)
    (auto simp: fits_def inst_step_def inst_events_def new_instance_def refresh_instance_def promotes_def expects_def
      fire_transition_def not_firing Let_def)

lemma breach_since_Cons: "breach_since u ((t, v) # h) = breach_since (breach_since u [(t, v)]) h"
  by (cases v) simp_all

lemma evaluation_fails:
  "breaching_systems W r = Inl e \<Longrightarrow> evaluate_rule W D r now st = Inl (e, [], False, st)"
  by (simp add: evaluate_rule_def)

lemma rule_runs_history:
  assumes "rule_runs r es db = (ts, db')" "wf_insts db" "\<forall>(W, now)\<in>set es. map_order (ev_order W)"
    and "sorted (t0 # map snd es)" "fits r u t0 (inst_at db (ru_id r) s)"
  shows "fits r (breach_since u (seen r s es)) (last (t0 # map fst (seen r s es))) (inst_at db' (ru_id r) s) \<and>
    alternating (expects (inst_at db (ru_id r) s)) (map tr_kind (filter (\<lambda>t. tr_system t = s) ts))"
  using assms
proof (induction r es db arbitrary: ts db' t0 u rule: rule_runs.induct)
  case (2 r W now es db)
  show ?case
  proof (cases "breaching_systems W r")
    case (Inl e)
    have "sorted (t0 # map snd es)" using "2.prems"(4) by auto
    moreover have e: "evaluate_rule W sql_inst_ops r now db = Inl (e, [], False, db)" by (rule evaluation_fails [OF Inl])
    moreover have "rule_runs r es db = (ts, db')" using "2.prems"(1) by (simp add: e)
    ultimately have "fits r (breach_since u (seen r s es)) (last (t0 # map fst (seen r s es))) (inst_at db' (ru_id r) s) \<and>
        alternating (expects (inst_at db (ru_id r) s)) (map tr_kind (filter (\<lambda>t. tr_system t = s) ts))"
      using "2.prems"(3) by (intro "2.IH"(1) [OF e refl refl refl _ "2.prems"(2) _ _ "2.prems"(5)]) auto
    with Inl show ?thesis by simp
  next
    case (Inr b)
    obtain ts1 ch db1 where e: "evaluate_rule W sql_inst_ops r now db = Inr (ts1, ch, db1)"
      using sql_insts.evaluation_total [OF Inr] by metis
    have ord: "map_order (ev_order W)" using "2.prems"(3) by auto
    note steps = sql_insts.evaluation_steps [OF e Inr ord "2.prems"(2)]
    from steps have st: "wf_insts db1" "inst_at db1 (ru_id r) s = inst_step r s now (map_of b s) (inst_at db (ru_id r) s)"
      "filter (\<lambda>t. tr_system t = s) ts1 = inst_events r s now (map_of b s) (inst_at db (ru_id r) s)" by auto
    obtain ts2 where r2: "rule_runs r es db1 = (ts2, db')" "ts = ts1 @ ts2"
      using "2.prems"(1) e by (auto split: prod.splits)
    have "t0 \<le> now" "sorted (now # map snd es)" using "2.prems"(4) by auto
    note f = inst_step_fits [OF "2.prems"(5) this(1), of "map_of b s" s]
    have fit: "fits r (breach_since u [(now, map_of b s)]) now (inst_at db1 (ru_id r) s)" unfolding st(2) using f by blast
    have ords: "\<forall>(W, now)\<in>set es. map_order (ev_order W)" using "2.prems"(3) by simp
    have IH: "fits r (breach_since (breach_since u [(now, map_of b s)]) (seen r s es)) (last (now # map fst (seen r s es)))
          (inst_at db' (ru_id r) s) \<and>
        alternating (expects (inst_at db1 (ru_id r) s)) (map tr_kind (filter (\<lambda>t. tr_system t = s) ts2))"
      by (rule "2.IH"(2) [OF e refl refl r2(1) st(1) ords \<open>sorted (now # map snd es)\<close> fit])
    have "alternating (expects (inst_at db (ru_id r) s)) (map tr_kind (filter (\<lambda>t. tr_system t = s) ts))"
      using f IH by (auto simp: r2(2) st(2,3))
    moreover have "seen r s ((W, now) # es) = (now, map_of b s) # seen r s es" using Inr by simp
    moreover have "breach_since u ((now, map_of b s) # seen r s es) = breach_since (breach_since u [(now, map_of b s)]) (seen r s es)"
      by (rule breach_since_Cons)
    ultimately show ?thesis using IH by simp
  qed
qed simp

text \<open>
  C16: Over any sequence of evaluations of a rule, in the order of time, the instance of a system is
  there exactly while the system is in breach, dated from the evaluation that first saw the breach,
  and it is firing exactly when the breach had by the last evaluation held for the rule's "for";
  what is sent for the system is fired, resolved, fired, and so on in turn.
\<close>

theorem alert_fires_when_breach_has_held:
  assumes "rule_runs r es db = (ts, db')" "wf_insts db" "\<forall>(W, now)\<in>set es. map_order (ev_order W)"
    and "sorted (map snd es)" "inst_at db (ru_id r) s = None" "seen r s es \<noteq> []"
  shows "(case breach_since None (seen r s es) of
       None \<Rightarrow> inst_at db' (ru_id r) s = None
     | Some u \<Rightarrow> \<exists>i. inst_at db' (ru_id r) s = Some i \<and> in_first i = u \<and>
         (in_state i = Firing \<longleftrightarrow> fst (last (seen r s es)) - u \<ge> for_nanos r)) \<and>
    alternating Fired (map tr_kind (filter (\<lambda>t. tr_system t = s) ts))"
proof -
  define t0 where "t0 = (case es of [] \<Rightarrow> 0 | (W, t) # _ \<Rightarrow> t)"
  have "sorted (t0 # map snd es)" using assms(4) by (cases es) (fastforce simp: t0_def)+
  moreover have "fits r None t0 (inst_at db (ru_id r) s)" using assms(5) by (simp add: fits_def)
  ultimately have h: "fits r (breach_since None (seen r s es)) (last (t0 # map fst (seen r s es))) (inst_at db' (ru_id r) s)"
    "alternating (expects (inst_at db (ru_id r) s)) (map tr_kind (filter (\<lambda>t. tr_system t = s) ts))"
    using rule_runs_history [OF assms(1-3)] by blast+
  have "last (t0 # map fst (seen r s es)) = fst (last (seen r s es))" using assms(6) by (simp add: last_map)
  with h assms(5) show ?thesis by (auto simp: fits_def expects_def split: option.splits)
qed

definition outage :: "(eval_world \<times> int) list" where
  "outage = [(world_of [host ''h1'' status_unreachable], 0), (world_of [host ''h1'' status_unreachable], 60000000000),
     (world_of [host ''h1'' ''ok''], 120000000000)]"

theorem alert_fires_when_breach_has_held_witness:
  "inst_at (snd (rule_runs disk_rule outage no_alerts)) ''r1'' ''h1'' = None \<and>
   map tr_kind (filter (\<lambda>t. tr_system t = ''h1'') (fst (rule_runs disk_rule outage no_alerts))) = [Fired, Resolved] \<and>
   alternating Fired [Fired, Resolved]"
proof -
  have k: "map tr_kind (filter (\<lambda>t. tr_system t = ''h1'') (fst (rule_runs disk_rule outage no_alerts))) = [Fired, Resolved]"
    by code_simp
  have s: "seen disk_rule ''h1'' outage = [(0, Some (Fin 1)), (60000000000, Some (Fin 1)), (120000000000, None)]" by code_simp
  have "wf_insts no_alerts" "\<forall>(W, now)\<in>set outage. map_order (ev_order W)" "sorted (map snd outage)"
    "inst_at no_alerts (ru_id disk_rule) ''h1'' = None"
    by (simp_all add: wf_insts_def no_alerts_def outage_def inst_at_def)
  from alert_fires_when_breach_has_held [OF surjective_pairing this] s k show ?thesis by (simp add: disk_rule_def)
qed

section \<open>A lost notification\<close>

text \<open>The SQLite store while another process holds the database: writes for one system fail.\<close>

definition busy_ops :: "string \<Rightarrow> 'a alert_db_scheme inst_ops" where
  "busy_ops s = sql_inst_ops\<lparr>op_put := (\<lambda>i db. if in_system i = s then None else Some (put_instance i db))\<rparr>"

definition two_down :: eval_world where
  "two_down = world_of [host ''h1'' status_unreachable, host ''h2'' status_unreachable]"

definition instant_rule :: rule where "instant_rule = disk_rule\<lparr>ru_input := (ru_input disk_rule)\<lparr>ri_for := 0\<rparr>\<rparr>"

text \<open>
  \<open>EvaluateOnce\<close> drops what \<open>evaluateRule\<close> returns beside an error. If the write for one system
  fails, the system written before it is firing in the table but nobody is told: nothing is sent
  in this tick, and the next tick, with the database free again, tells of the other system only,
  since the first already fires.
\<close>

theorem failed_write_loses_notification:
  "\<exists>db1 db2. evaluate_rules two_down (busy_ops ''h2'') 0 [instant_rule] ([], False, no_alerts) = Some ([], False, db1) \<and>
     map_option in_state (inst_at db1 ''r1'' ''h1'') = Some Firing \<and>
     evaluate_rules two_down sql_inst_ops 60000000000 [instant_rule] ([], False, db1) =
       Some ([fire_transition instant_rule ''h2'' (Fin 1) 60000000000], True, db2) \<and>
     map_option in_state (inst_at db2 ''r1'' ''h1'') = Some Firing"
proof -
  define i1 where "i1 = new_instance instant_rule ''h1'' (Fin 1) 0"
  define db1 where "db1 = no_alerts\<lparr>alert_insts := [i1]\<rparr>"
  define db2 where "db2 = no_alerts\<lparr>alert_insts := [i1\<lparr>in_eval := 60000000000\<rparr>, new_instance instant_rule ''h2'' (Fin 1) 60000000000]\<rparr>"
  have "evaluate_rules two_down (busy_ops ''h2'') 0 [instant_rule] ([], False, no_alerts) = Some ([], False, db1)"
    unfolding db1_def i1_def by code_simp
  moreover have "evaluate_rules two_down sql_inst_ops 60000000000 [instant_rule] ([], False, db1) =
       Some ([fire_transition instant_rule ''h2'' (Fin 1) 60000000000], True, db2)"
    unfolding db1_def db2_def i1_def by code_simp
  moreover have "map_option in_state (inst_at db1 ''r1'' ''h1'') = Some Firing" "map_option in_state (inst_at db2 ''r1'' ''h1'') = Some Firing"
    unfolding db1_def db2_def i1_def by code_simp+
  ultimately show ?thesis by blast
qed

end
