(* ===== verification/AlertServer.thy ===== *)
theory AlertServer
  imports AlertProps
begin

text \<open>
  The routes of \<open>internal/alerts/handler.go\<close> with the callbacks \<open>cmd/server/main.go\<close> passes,
  and the rules they let into the table.
\<close>

section \<open>The routes\<close>

record alert_state = alert_db +
  al_now :: int
  al_audit :: "event list"

text \<open>\<open>AlertAborted\<close>: the handler panics; \<open>net/http\<close> recovers and drops the connection.\<close>

datatype alert_body =
    AlertNone
  | AlertAborted
  | AlertError string
  | AlertOne rule
  | AlertMany "rule list"
  | AlertActive "((inst \<times> rule) \<times> string) list"
  | AlertCatalog "(string \<times> catalog_entry) list"

type_synonym alert_reply = "nat \<times> alert_body"

definition alert_err :: "nat \<Rightarrow> string \<Rightarrow> alert_reply" where
  "alert_err st msg = (st, AlertError msg)"

definition visible_rule :: "scope \<Rightarrow> rule \<Rightarrow> bool" where
  "visible_rule sc r =
     (is_global_admin sc \<or> is_global_auditor sc \<or>
      ri_kind (ru_input r) = kind_group \<and> role_on_group sc (ri_value (ru_input r)) = role_admin)"

definition can_manage_rule :: "scope \<Rightarrow> string \<Rightarrow> string \<Rightarrow> bool" where
  "can_manage_rule sc kind value =
     (is_global_admin sc \<or> kind = kind_group \<and> role_on_group sc value = role_admin)"

definition visible_system :: "scope \<Rightarrow> inventory \<Rightarrow> string \<Rightarrow> bool" where
  "visible_system sc fleet i =
     (case get_system i fleet of None \<Rightarrow> False | Some s \<Rightarrow> can_read_system sc (sys_group s))"

definition system_name :: "inventory \<Rightarrow> string \<Rightarrow> string" where
  "system_name fleet i = (case get_system i fleet of None \<Rightarrow> [] | Some s \<Rightarrow> sys_name s)"

definition alert_event :: "string \<Rightarrow> string \<Rightarrow> rule \<Rightarrow> event" where
  "alert_event act actor r = \<lparr>ev_action = act, ev_outcome = ''success'', ev_actor = actor,
     ev_target = ru_id r, ev_label = ri_name (ru_input r), ev_detail = []\<rparr>"

definition alert_log :: "event \<Rightarrow> 'a alert_state_scheme \<Rightarrow> 'a alert_state_scheme" where
  "alert_log e st = st\<lparr>al_audit := audit_log_event e (al_audit st)\<rparr>"

definition rule_get_error :: "alert_error \<Rightarrow> alert_reply" where
  "rule_get_error e = (if e = AlertNotFound then alert_err 404 ''alert rule not found'' else alert_err 500 ''get failed'')"

definition handle_alert_catalog :: alert_reply where
  "handle_alert_catalog = (200, AlertCatalog catalog_entries)"

definition handle_alert_list :: "scope \<Rightarrow> 'a alert_state_scheme \<Rightarrow> alert_reply" where
  "handle_alert_list sc st = (200, AlertMany (filter (visible_rule sc) (list_rules st)))"

definition handle_alert_active :: "scope \<Rightarrow> inventory \<Rightarrow> 'a alert_state_scheme \<Rightarrow> alert_reply" where
  "handle_alert_active sc fleet st =
     (200, AlertActive (map (\<lambda>p. (p, system_name fleet (in_system (fst p))))
        (filter (\<lambda>p. visible_system sc fleet (in_system (fst p))) (list_active st))))"

definition handle_alert_create :: "(string \<Rightarrow> string list option) \<Rightarrow> scope \<Rightarrow> string \<Rightarrow> string \<Rightarrow> rule_input option
    \<Rightarrow> 'a alert_state_scheme \<Rightarrow> alert_reply \<times> 'a alert_state_scheme" where
  "handle_alert_create J sc uid i b st =
     (case b of
        None \<Rightarrow> (alert_err 400 ''invalid JSON'', st)
      | Some x \<Rightarrow>
          if \<not> can_manage_rule sc (ri_kind x) (ri_value x) then (alert_err 403 ''forbidden'', st)
          else if uid = [] then (alert_err 401 ''no user'', st)
          else
            (case create_rule J i (al_now st) x uid st of
               Inl None \<Rightarrow> ((0, AlertAborted), st)
             | Inl (Some (AlertInvalid m)) \<Rightarrow> (alert_err 400 m, st)
             | Inl (Some _) \<Rightarrow> (alert_err 500 ''create failed'', st)
             | Inr (r, st') \<Rightarrow> ((201, AlertOne r), alert_log (alert_event ''alert.create'' uid r) st')))"

definition handle_alert_get :: "scope \<Rightarrow> string \<Rightarrow> 'a alert_state_scheme \<Rightarrow> alert_reply" where
  "handle_alert_get sc i st =
     (case get_rule i st of
        Inl e \<Rightarrow> rule_get_error e
      | Inr r \<Rightarrow> if \<not> visible_rule sc r then alert_err 404 ''alert rule not found'' else (200, AlertOne r))"

definition handle_alert_update :: "(string \<Rightarrow> string list option) \<Rightarrow> scope \<Rightarrow> string \<Rightarrow> string \<Rightarrow> rule_input option
    \<Rightarrow> 'a alert_state_scheme \<Rightarrow> alert_reply \<times> 'a alert_state_scheme" where
  "handle_alert_update J sc uid i b st =
     (case get_rule i st of
        Inl e \<Rightarrow> (rule_get_error e, st)
      | Inr cur \<Rightarrow>
          if \<not> can_manage_rule sc (ri_kind (ru_input cur)) (ri_value (ru_input cur)) then (alert_err 403 ''forbidden'', st)
          else
            (case b of
               None \<Rightarrow> (alert_err 400 ''invalid JSON'', st)
             | Some x \<Rightarrow>
                 if \<not> can_manage_rule sc (ri_kind x) (ri_value x) then (alert_err 403 ''forbidden'', st)
                 else
                   (case update_rule J i (al_now st) x st of
                      Inl None \<Rightarrow> ((0, AlertAborted), st)
                    | Inl (Some (AlertInvalid m)) \<Rightarrow> (alert_err 400 m, st)
                    | Inl (Some AlertNotFound) \<Rightarrow> (alert_err 404 ''alert rule not found'', st)
                    | Inl (Some _) \<Rightarrow> (alert_err 500 ''update failed'', st)
                    | Inr (r, st') \<Rightarrow> ((200, AlertOne r), alert_log (alert_event ''alert.update'' uid r) st'))))"

definition handle_alert_delete :: "scope \<Rightarrow> string \<Rightarrow> string \<Rightarrow> 'a alert_state_scheme
    \<Rightarrow> alert_reply \<times> 'a alert_state_scheme" where
  "handle_alert_delete sc uid i st =
     (case get_rule i st of
        Inl e \<Rightarrow> (rule_get_error e, st)
      | Inr cur \<Rightarrow>
          if \<not> can_manage_rule sc (ri_kind (ru_input cur)) (ri_value (ru_input cur)) then (alert_err 403 ''forbidden'', st)
          else
            (case delete_rule i st of
               Inl _ \<Rightarrow> (alert_err 500 ''delete failed'', st)
             | Inr st' \<Rightarrow> ((204, AlertNone), alert_log (alert_event ''alert.delete'' uid cur) st')))"

section \<open>What gets into the table\<close>

definition rule_ok :: "(string \<Rightarrow> string list option) \<Rightarrow> rule \<Rightarrow> bool" where
  "rule_ok J r \<longleftrightarrow>
     (let x = ru_input r in
      validate_target J (ri_kind x) (ri_value x) = Inr () \<and> severity_valid (ri_severity x) \<and>
      0 \<le> ri_for x \<and> ri_for x \<le> max_for_seconds \<and>
      (ri_condition x = kind_metric \<and> metric_valid (ri_metric x) \<and> (\<exists>q. ri_threshold x = Fin q) \<or>
       ri_condition x = kind_promql \<and> ri_expr x \<noteq> [] \<and> (\<exists>q. ri_threshold x = Fin q) \<or>
       ri_condition x = kind_unreachable))"

lemma validate_condition_facts:
  assumes "validate_condition x = Inr y"
  shows "ri_kind y = ri_kind x \<and> ri_value y = ri_value x \<and> ri_severity y = ri_severity x \<and> ri_for y = ri_for x \<and>
    (ri_condition y = kind_metric \<and> metric_valid (ri_metric y) \<and> (\<exists>q. ri_threshold y = Fin q) \<or>
     ri_condition y = kind_promql \<and> ri_expr y \<noteq> [] \<and> (\<exists>q. ri_threshold y = Fin q) \<or>
     ri_condition y = kind_unreachable)"
proof -
  have fin: "\<exists>q. ri_threshold x = Fin q" if "validate_threshold (ri_comparator x) (ri_threshold x) = Inr u" for u
    using that by (cases "ri_threshold x") (simp_all add: validate_threshold_def split: if_splits)
  show ?thesis
    using assms unfolding validate_condition_def by (auto simp: condition_kinds split: if_splits dest: fin)
qed

lemma validate_rule_ok:
  assumes "validate_rule J x = RuleOk y" "ru_input r = y"
  shows "rule_ok J r"
proof -
  define z where "z = default_severity (trim_rule x)"
  have "severity_valid (ri_severity z) \<and> 0 \<le> ri_for z \<and> ri_for z \<le> max_for_seconds \<and> validate_condition z = Inr y \<and>
      validate_target J (ri_kind y) (ri_value y) = Inr ()"
    using assms(1)
    by (cases "validate_condition z")
      (simp_all add: validate_rule_def Let_def z_def [symmetric] split: if_splits sum.splits target_error.splits)
  then have z: "validate_condition z = Inr y" "severity_valid (ri_severity z)" "0 \<le> ri_for z" "ri_for z \<le> max_for_seconds"
    and t: "validate_target J (ri_kind y) (ri_value y) = Inr ()" by blast+
  from validate_condition_facts [OF z(1)] z(2-4) t assms(2) show ?thesis by (simp add: rule_ok_def Let_def)
qed

definition rules_ok :: "(string \<Rightarrow> string list option) \<Rightarrow> 'a alert_db_scheme \<Rightarrow> bool" where
  "rules_ok J db \<longleftrightarrow> (\<forall>r\<in>set (alert_rules db). rule_ok J r)"

datatype alert_call =
    ACreate string "rule_input option"
  | AUpdate string "rule_input option"
  | ADelete string

fun alert_serve :: "(string \<Rightarrow> string list option) \<Rightarrow> scope \<times> string \<times> int \<times> alert_call \<Rightarrow> alert_state \<Rightarrow> alert_state" where
  "alert_serve J (sc, uid, t, ACreate i b) st = snd (handle_alert_create J sc uid i b (st\<lparr>al_now := t\<rparr>))"
| "alert_serve J (sc, uid, t, AUpdate i b) st = snd (handle_alert_update J sc uid i b (st\<lparr>al_now := t\<rparr>))"
| "alert_serve J (sc, uid, t, ADelete i) st = snd (handle_alert_delete sc uid i (st\<lparr>al_now := t\<rparr>))"

lemma alert_serve_ok:
  assumes "rules_ok J st"
  shows "rules_ok J (alert_serve J call st)"
proof -
  obtain sc uid t c where call: "call = (sc, uid, t, c)" by (metis prod_cases4)
  let ?st = "st\<lparr>al_now := t\<rparr>"
  have base: "rules_ok J ?st" using assms by (simp add: rules_ok_def)
  have cr: "rules_ok J st1" if "create_rule J i n x u ?st = Inr (r, st1)" for i n x u r st1
    using that base validate_rule_ok [of J x]
    by (auto simp: create_rule_def rules_ok_def Let_def split: rule_check.splits if_splits)
  have up: "rules_ok J st1" if "update_rule J i n x ?st = Inr (r, st1)" for i n x r st1
    using that base validate_rule_ok [of J x]
    by (auto simp: update_rule_def rules_ok_def clear_instances_def Let_def split: rule_check.splits if_splits)
  have de: "rules_ok J st1" if "delete_rule i ?st = Inr st1" for i st1
    using that base by (auto simp: delete_rule_def rules_ok_def clear_instances_def split: if_splits)
  have l: "rules_ok J (alert_log e st1) = rules_ok J st1" for e and st1 :: alert_state
    by (simp add: rules_ok_def alert_log_def)
  show ?thesis
  proof (cases c)
    case (ACreate i b)
    with base cr l show ?thesis
      by (auto simp: call handle_alert_create_def split: option.split sum.split alert_error.split)
  next
    case (AUpdate i b)
    with base up l show ?thesis
      by (auto simp: call handle_alert_update_def split: option.split sum.split alert_error.split)
  next
    case (ADelete i)
    with base de l show ?thesis by (auto simp: call handle_alert_delete_def split: sum.split)
  qed
qed

lemma rule_ok_evaluates:
  assumes "rule_ok (ev_json W) r" "breaching_systems W r = Inl e"
  shows "e = EvalQuery"
proof -
  let ?x = "ru_input r"
  from assms(1) have "validate_target (ev_json W) (ri_kind ?x) (ri_value ?x) = Inr ()" by (simp add: rule_ok_def Let_def)
  from resolve_valid_target [OF this] assms show ?thesis
    by (auto simp: breaching_systems_def rule_ok_def Let_def condition_kinds split: if_splits option.splits)
qed

lemma evaluate_rules_total:
  assumes "\<forall>r\<in>set rs. rule_ok (ev_json W) r"
  shows "evaluate_rules W sql_inst_ops now rs acc \<noteq> None"
  using assms
proof (induction rs arbitrary: acc)
  case Nil
  then show ?case by (cases acc) simp
next
  case (Cons r rs)
  obtain ts ch st where acc: "acc = (ts, ch, st)" by (cases acc)
  show ?case
  proof (cases "breaching_systems W r")
    case (Inl e)
    with Cons.prems rule_ok_evaluates [of W r e] have "e = EvalQuery" by simp
    with Inl Cons show ?thesis by (simp add: acc evaluate_rule_def)
  next
    case (Inr b)
    from sql_insts.evaluation_total [OF Inr, of now st] obtain ts' ch' st'
      where "evaluate_rule W sql_inst_ops r now st = Inr (ts', ch', st')" by blast
    with Cons show ?thesis by (simp add: acc)
  qed
qed

text \<open>
  Rules that got in through the API do not go wrong when they are evaluated. After any requests
  of any users on an empty table, every rule's target resolves and its condition is known, so an
  evaluation of it can fail only in the metrics query, a reachability rule never; and the tick over
  all enabled rules never panics, whatever the inventory. (The schedules have no such guarantee.)
\<close>

theorem stored_rules_evaluate:
  assumes "alert_rules st0 = []" "st = fold (alert_serve (ev_json W)) calls st0"
  shows "(\<forall>r\<in>set (alert_rules st). \<forall>e. breaching_systems W r = Inl e \<longrightarrow> e = EvalQuery \<and> ri_condition (ru_input r) \<noteq> kind_unreachable) \<and>
    evaluate_once W now st \<noteq> None"
proof -
  have inv: "rules_ok (ev_json W) (fold (alert_serve (ev_json W)) calls s)" if "rules_ok (ev_json W) s" for s
    using that by (induction calls arbitrary: s) (simp_all add: alert_serve_ok)
  have "rules_ok (ev_json W) st" unfolding assms(2) by (rule inv) (simp add: rules_ok_def assms(1))
  then have ok: "\<forall>r\<in>set (alert_rules st). rule_ok (ev_json W) r" by (simp add: rules_ok_def)
  then have "\<forall>r\<in>set (list_enabled_rules st). rule_ok (ev_json W) r" by (simp add: list_enabled_rules_def)
  then have "evaluate_once W now st \<noteq> None" unfolding evaluate_once_def by (rule evaluate_rules_total)
  moreover have "ri_condition (ru_input r) \<noteq> kind_unreachable" if "r \<in> set (alert_rules st)" "breaching_systems W r = Inl e" for r e
  proof
    assume k: "ri_condition (ru_input r) = kind_unreachable"
    have "validate_target (ev_json W) (ri_kind (ru_input r)) (ri_value (ru_input r)) = Inr ()"
      using ok that(1) by (simp add: rule_ok_def Let_def)
    from resolve_valid_target [OF this] that(2) k show False by (simp add: breaching_systems_def Let_def)
  qed
  ultimately show ?thesis using ok rule_ok_evaluates by blast
qed

definition demo_world :: eval_world where
  "demo_world = \<lparr>ev_json = (\<lambda>_. None), ev_fleet = [], ev_labels = \<lparr>sl_rows = [], sl_hosts = []\<rparr>,
     ev_answer = (\<lambda>_. None), ev_float = (\<lambda>_. None), ev_order = (\<lambda>ks. ks)\<rparr>"

definition demo_rule :: rule_input where
  "demo_rule = \<lparr>ri_name = ''web down'', ri_description = [], ri_condition = kind_unreachable,
     ri_metric = [], ri_expr = [], ri_comparator = [], ri_threshold = Fin 0, ri_for = 60, ri_severity = [],
     ri_kind = kind_selector, ri_value = ''tier in (web,db)'', ri_enabled = True\<rparr>"

definition demo_admin :: scope where
  "demo_admin = new_scope ''u1'' [\<lparr>as_user = ''u1'', as_group = None, as_role = role_admin\<rparr>]"

definition demo_alerts :: alert_state where
  "demo_alerts = \<lparr>alert_rules = [], alert_insts = [], al_now = 0, al_audit = []\<rparr>"

theorem stored_rules_evaluate_witness:
  "let st = alert_serve (\<lambda>_. None) (demo_admin, ''u1'', 5, ACreate ''r1'' (Some demo_rule)) demo_alerts
   in length (alert_rules st) = 1 \<and> evaluate_once demo_world 7 st \<noteq> None"
proof -
  let ?call = "(demo_admin, ''u1'', 5, ACreate ''r1'' (Some demo_rule))"
  have "alert_rules demo_alerts = []" by (simp add: demo_alerts_def)
  from stored_rules_evaluate [OF this refl, of demo_world "[?call]" 7]
  have "evaluate_once demo_world 7 (alert_serve (\<lambda>_. None) ?call demo_alerts) \<noteq> None" by (simp add: demo_world_def)
  moreover have "length (alert_rules (alert_serve (\<lambda>_. None) ?call demo_alerts)) = 1" by code_simp
  ultimately show ?thesis by (simp only: Let_def simp_thms)
qed

end
