(* ===== verification/Gate.thy ===== *)
theory Gate
  imports Prelude "HOL-Library.Sublist"
begin

text \<open>
  The concurrency limiter of the update runner (\<open>src/internal/updaters/gate.go\<close>). A
  \<open>gate\<close> is the struct guarded by the mutex; every operation below is one critical
  section. A caller is named by the channel it waits on. The ceiling \<open>Limit()\<close> is
  re-read on every admission decision, so an operation takes the readings as a sequence:
  \<open>L i\<close> is what the \<open>i\<close>-th call of \<open>Limit\<close> in this critical section
  returned, \<open>None\<close> a gate without a \<open>Limit\<close>.
  The interleavings of callers are the relation \<open>gate_run\<close> on the gate with its
  callers: those that hold a slot and those whose channel was closed but who have not run yet.
\<close>

section \<open>The gate\<close>

record gate =
  g_active :: int
  g_waiters :: "nat list"

definition default_limit :: int where "default_limit = 4"

definition gate_limit :: "int option \<Rightarrow> int" where
  "gate_limit r = (case r of None \<Rightarrow> default_limit | Some n \<Rightarrow> if n < 1 then default_limit else n)"

text \<open>
  The first critical section of \<open>Acquire\<close>: a free slot is taken at once, otherwise the
  caller joins the queue. The flag tells whether \<open>Acquire\<close> has already returned.
\<close>

definition acquire :: "int option \<Rightarrow> nat \<Rightarrow> gate \<Rightarrow> bool \<times> gate" where
  "acquire l c g = (if g_active g < gate_limit l then (True, g\<lparr>g_active := g_active g + 1\<rparr>)
     else (False, g\<lparr>g_waiters := g_waiters g @ [c]\<rparr>))"

text \<open>The loop of \<open>releaseLocked\<close>: the callers whose channel it closes, in order.\<close>

fun hand_off :: "(nat \<Rightarrow> int option) \<Rightarrow> int \<Rightarrow> nat list \<Rightarrow> nat list \<times> int \<times> nat list" where
  "hand_off L a [] = ([], a, [])"
| "hand_off L a (w # ws) = (if a < gate_limit (L 0)
     then (let (signalled, a', rest) = hand_off (\<lambda>i. L (Suc i)) (a + 1) ws in (w # signalled, a', rest))
     else ([], a, w # ws))"

definition release_locked :: "(nat \<Rightarrow> int option) \<Rightarrow> gate \<Rightarrow> nat list \<times> gate" where
  "release_locked L g =
     (let a = (if 0 < g_active g then g_active g - 1 else g_active g);
          (signalled, a', rest) = hand_off L a (g_waiters g)
      in (signalled, \<lparr>g_active = a', g_waiters = rest\<rparr>))"

text \<open>
  The \<open>ctx.Done()\<close> arm of \<open>Acquire\<close>: a caller still in the queue removes
  itself; one that is not was signalled and passes the slot on.
\<close>

definition cancel :: "(nat \<Rightarrow> int option) \<Rightarrow> nat \<Rightarrow> gate \<Rightarrow> nat list \<times> gate" where
  "cancel L c g = (if c \<in> set (g_waiters g) then ([], g\<lparr>g_waiters := remove1 c (g_waiters g)\<rparr>)
     else release_locked L g)"

text \<open>\<open>Active\<close> and \<open>Waiting\<close> answer 0 on a nil gate, as \<open>Acquire\<close> and \<open>Release\<close> do nothing on one.\<close>

definition gate_active :: "gate option \<Rightarrow> int" where
  "gate_active g = (case g of None \<Rightarrow> 0 | Some g \<Rightarrow> g_active g)"

definition gate_waiting :: "gate option \<Rightarrow> nat" where
  "gate_waiting g = (case g of None \<Rightarrow> 0 | Some g \<Rightarrow> length (g_waiters g))"

section \<open>Callers\<close>

record gate_world =
  w_gate :: gate
  holders :: "nat list"   \<comment> \<open>\<open>Acquire\<close> returned nil, not released yet\<close>
  granted :: "nat list"   \<comment> \<open>channel closed, \<open>Acquire\<close> not returned yet\<close>
  arrivals :: "nat list"  \<comment> \<open>every caller of \<open>Acquire\<close>, in the order they took the lock\<close>
  admitted :: "nat list"  \<comment> \<open>every caller that was given a slot, in that order\<close>

datatype gate_event =
  CallAcquire nat      \<comment> \<open>the first critical section of \<open>Acquire\<close>\<close>
| WakeUp nat           \<comment> \<open>the select takes \<open>\<leftarrow>ch\<close>\<close>
| CtxDone nat          \<comment> \<open>the select takes \<open>\<leftarrow>ctx.Done()\<close>\<close>
| CallRelease nat      \<comment> \<open>a holder calls \<open>Release\<close>\<close>

fun enabled_event :: "gate_event \<Rightarrow> gate_world \<Rightarrow> bool" where
  "enabled_event (CallAcquire c) w = (c \<notin> set (arrivals w))"
| "enabled_event (WakeUp c) w = (c \<in> set (granted w))"
| "enabled_event (CtxDone c) w = (c \<in> set (g_waiters (w_gate w)) \<or> c \<in> set (granted w))"
| "enabled_event (CallRelease c) w = (c \<in> set (holders w))"

fun gate_step :: "(nat \<Rightarrow> int option) \<Rightarrow> gate_event \<Rightarrow> gate_world \<Rightarrow> gate_world" where
  "gate_step L (CallAcquire c) w =
     (let (now, g) = acquire (L 0) c (w_gate w)
      in if now then w\<lparr>w_gate := g, holders := holders w @ [c], arrivals := arrivals w @ [c],
                       admitted := admitted w @ [c]\<rparr>
         else w\<lparr>w_gate := g, arrivals := arrivals w @ [c]\<rparr>)"
| "gate_step L (WakeUp c) w = w\<lparr>granted := remove1 c (granted w), holders := holders w @ [c]\<rparr>"
| "gate_step L (CtxDone c) w =
     (let (s, g) = cancel L c (w_gate w)
      in w\<lparr>w_gate := g, granted := remove1 c (granted w) @ s, admitted := admitted w @ s\<rparr>)"
| "gate_step L (CallRelease c) w =
     (let (s, g) = release_locked L (w_gate w)
      in w\<lparr>w_gate := g, holders := remove1 c (holders w), granted := granted w @ s,
           admitted := admitted w @ s\<rparr>)"

definition idle_gate :: gate_world where
  "idle_gate = \<lparr>w_gate = \<lparr>g_active = 0, g_waiters = []\<rparr>, holders = [], granted = [], arrivals = [],
     admitted = []\<rparr>"

text \<open>
  Runs of the gate: any enabled event, with any readings of the ceiling that satisfy
  \<open>P\<close> (what the settings may say while the run lasts).
\<close>

inductive gate_run :: "(int \<Rightarrow> bool) \<Rightarrow> gate_world \<Rightarrow> bool" for P where
  idle: "gate_run P idle_gate"
| event: "gate_run P w \<Longrightarrow> enabled_event e w \<Longrightarrow> (\<And>i. P (gate_limit (L i))) \<Longrightarrow> gate_run P (gate_step L e w)"

section \<open>The hand-off loop\<close>

lemma gate_limit_pos [simp]: "1 \<le> gate_limit l"
  by (cases l) (auto simp: gate_limit_def default_limit_def)

lemma hand_off_split: "hand_off L a ws = (s, a', rest) \<Longrightarrow> ws = s @ rest \<and> a' = a + int (length s)"
  by (induction L a ws arbitrary: s a' rest rule: hand_off.induct)
     (auto split: if_splits prod.splits simp: Let_def)

lemma hand_off_below:
  "hand_off L a ws = (s, a', rest) \<Longrightarrow> s \<noteq> [] \<Longrightarrow> \<exists>i. a' \<le> gate_limit (L i)"
proof (induction L a ws arbitrary: s a' rest rule: hand_off.induct)
  case (2 L a w ws)
  show ?case
  proof (cases "a < gate_limit (L 0)")
    case True
    obtain s1 a1 r1 where h: "hand_off (\<lambda>i. L (Suc i)) (a + 1) ws = (s1, a1, r1)" by (cases "hand_off (\<lambda>i. L (Suc i)) (a + 1) ws")
    have a': "a' = a1" using 2(2) True h by simp
    show ?thesis
    proof (cases "s1 = []")
      case True1: True
      then have "a1 = a + 1" using hand_off_split [OF h] by simp
      then show ?thesis using True a' by (intro exI [of _ 0]) simp
    next
      case False
      then show ?thesis using 2(1) [OF True h] a' by blast
    qed
  next
    case False
    then show ?thesis using 2 by simp
  qed
qed simp

lemma hand_off_stops:
  "hand_off L a ws = (s, a', rest) \<Longrightarrow> rest \<noteq> [] \<Longrightarrow> gate_limit (L (length s)) \<le> a'"
  by (induction L a ws arbitrary: s a' rest rule: hand_off.induct)
     (auto split: if_splits prod.splits simp: Let_def)

lemma release_locked_effect:
  assumes "release_locked L g = (s, g')" and "0 < g_active g"
  shows "g_waiters g = s @ g_waiters g' \<and> g_active g' = g_active g - 1 + int (length s)"
  using assms hand_off_split unfolding release_locked_def
  by (auto simp: Let_def split: prod.splits)

lemma release_locked_below:
  assumes "release_locked L g = (s, g')" and "0 < g_active g" and "s \<noteq> []"
  shows "\<exists>i. g_active g' \<le> gate_limit (L i)"
  using assms hand_off_below unfolding release_locked_def
  by (auto simp: Let_def split: prod.splits)

lemma release_locked_stops:
  assumes "release_locked L g = (s, g')" and "0 < g_active g" and "g_waiters g' \<noteq> []"
  shows "\<exists>i. gate_limit (L i) \<le> g_active g'"
  using assms hand_off_stops unfolding release_locked_def
  by (auto simp: Let_def split: prod.splits) blast

section \<open>No slot is lost and none is invented\<close>

definition gate_inv :: "gate_world \<Rightarrow> bool" where
  "gate_inv w \<longleftrightarrow>
     g_active (w_gate w) = int (length (holders w)) + int (length (granted w))
     \<and> distinct (holders w @ granted w @ g_waiters (w_gate w))
     \<and> set (holders w @ granted w @ g_waiters (w_gate w)) \<subseteq> set (arrivals w)
     \<and> (g_waiters (w_gate w) \<noteq> [] \<longrightarrow> 0 < g_active (w_gate w))"

lemma gate_inv_idle: "gate_inv idle_gate"
  by (simp add: gate_inv_def idle_gate_def)

lemma gate_inv_acquire:
  assumes "gate_inv w" and "c \<notin> set (arrivals w)"
  shows "gate_inv (gate_step L (CallAcquire c) w)"
proof (cases "g_active (w_gate w) < gate_limit (L 0)")
  case False
  then have "0 < g_active (w_gate w)" using gate_limit_pos [of "L 0"] by linarith
  then show ?thesis using False assms by (auto simp: gate_inv_def acquire_def)
qed (use assms in \<open>auto simp: gate_inv_def acquire_def\<close>)

lemma length_remove1_int: "c \<in> set xs \<Longrightarrow> int (length (remove1 c xs)) = int (length xs) - 1"
  by (induction xs) auto

lemma gate_inv_wake:
  assumes inv: "gate_inv w" and c: "c \<in> set (granted w)"
  shows "gate_inv (gate_step L (WakeUp c) w)"
proof -
  have d: "distinct (granted w)" using inv by (simp add: gate_inv_def)
  then have "set (remove1 c (granted w)) = set (granted w) - {c}" by (rule set_remove1_eq)
  moreover have "distinct (remove1 c (granted w))" using d by simp
  moreover have "int (length (remove1 c (granted w))) = int (length (granted w)) - 1"
    using c by (rule length_remove1_int)
  moreover have "c \<notin> set (holders w)" "c \<notin> set (g_waiters (w_gate w))" "c \<in> set (arrivals w)"
    using inv c unfolding gate_inv_def by auto
  ultimately show ?thesis
    using inv unfolding gate_inv_def by simp blast
qed

lemma gate_inv_pass_on:
  assumes inv: "gate_inv w" and c: "c \<in> set (granted w) \<or> c \<in> set (holders w)"
    and r: "release_locked L (w_gate w) = (s, g)"
    and w': "w' = (if c \<in> set (holders w)
        then w\<lparr>w_gate := g, holders := remove1 c (holders w), granted := granted w @ s, admitted := a\<rparr>
        else w\<lparr>w_gate := g, granted := remove1 c (granted w) @ s, admitted := a\<rparr>)"
  shows "gate_inv w'"
proof -
  have "0 < length (holders w) + length (granted w)" using c by auto
  then have pos: "0 < g_active (w_gate w)" using inv unfolding gate_inv_def by linarith
  note eff = release_locked_effect [OF r pos]
  have live: "0 < g_active g" if "g_waiters g \<noteq> []"
    using release_locked_stops [OF r pos that] gate_limit_pos by (meson less_le_trans zero_less_one)
  have d: "distinct (holders w)" "distinct (granted w)" using inv by (simp_all add: gate_inv_def)
  have rem: "set (remove1 c (holders w)) = set (holders w) - {c}"
    "set (remove1 c (granted w)) = set (granted w) - {c}"
    using d by (simp_all add: set_remove1_eq)
  have dist: "distinct (holders w @ granted w @ s @ g_waiters g)"
    using inv eff unfolding gate_inv_def by metis
  have sub: "set (holders w @ granted w @ s @ g_waiters g) \<subseteq> set (arrivals w)"
    using inv eff unfolding gate_inv_def by metis
  have act: "g_active g = int (length (holders w)) + int (length (granted w)) - 1 + int (length s)"
    using inv eff unfolding gate_inv_def by linarith
  show ?thesis
  proof (cases "c \<in> set (holders w)")
    case True
    with act have "g_active g = int (length (remove1 c (holders w))) + int (length (granted w @ s))"
      by (simp add: length_remove1_int)
    moreover have "distinct (remove1 c (holders w) @ (granted w @ s) @ g_waiters g)"
      using dist rem by auto
    ultimately show ?thesis
      using True sub live rem(1) unfolding w' gate_inv_def by auto
  next
    case False
    then have g: "c \<in> set (granted w)" using c by simp
    with act have "g_active g = int (length (holders w)) + int (length (remove1 c (granted w) @ s))"
      by (simp add: length_remove1_int)
    moreover have "distinct (holders w @ (remove1 c (granted w) @ s) @ g_waiters g)"
      using dist rem by auto
    ultimately show ?thesis
      using False sub live rem(2) unfolding w' gate_inv_def by auto
  qed
qed

lemma gate_inv_step:
  assumes "gate_inv w" and "enabled_event e w"
  shows "gate_inv (gate_step L e w)"
proof (cases e)
  case (CtxDone c)
  show ?thesis
  proof (cases "c \<in> set (g_waiters (w_gate w))")
    case True
    then have "c \<notin> set (granted w)" using assms(1) by (auto simp: gate_inv_def)
    then have "gate_step L e w = w\<lparr>w_gate := (w_gate w)\<lparr>g_waiters := remove1 c (g_waiters (w_gate w))\<rparr>\<rparr>"
      using True CtxDone by (simp add: cancel_def remove1_idem)
    then show ?thesis using assms(1) set_remove1_subset [of c "g_waiters (w_gate w)"]
      by (auto simp: gate_inv_def)
  next
    case False
    then have g: "c \<in> set (granted w)" using assms(2) CtxDone by simp
    then have h: "c \<notin> set (holders w)" using assms(1) by (auto simp: gate_inv_def)
    obtain s g' where r: "release_locked L (w_gate w) = (s, g')" by (cases "release_locked L (w_gate w)")
    show ?thesis
      by (rule gate_inv_pass_on [OF assms(1) _ r, where c = c and a = "admitted w @ s"])
         (use g h r False CtxDone in \<open>simp_all add: cancel_def\<close>)
  qed
next
  case (CallRelease c)
  obtain s g' where r: "release_locked L (w_gate w) = (s, g')" by (cases "release_locked L (w_gate w)")
  show ?thesis
    by (rule gate_inv_pass_on [OF assms(1) _ r, where c = c and a = "admitted w @ s"])
       (use assms(2) r CallRelease in simp_all)
qed (use assms gate_inv_acquire gate_inv_wake in auto)

lemma gate_run_inv: "gate_run P w \<Longrightarrow> gate_inv w"
  by (induction rule: gate_run.induct) (auto intro: gate_inv_idle gate_inv_step)

section \<open>Order and bounds\<close>

text \<open>Under one ceiling \<open>k\<close>: the queue only exists while the gate is full, and admission keeps the order of arrival.\<close>

definition fifo_inv :: "int \<Rightarrow> gate_world \<Rightarrow> bool" where
  "fifo_inv k w \<longleftrightarrow> subseq (admitted w @ g_waiters (w_gate w)) (arrivals w)
     \<and> (g_waiters (w_gate w) \<noteq> [] \<longrightarrow> k \<le> g_active (w_gate w))"

lemma subseq_remove1_right: "subseq (xs @ ys) zs \<Longrightarrow> subseq (xs @ remove1 c ys) zs"
proof -
  have "subseq (remove1 c ys) ys" by (induction ys) (auto intro: subseq_Cons')
  then show "subseq (xs @ ys) zs \<Longrightarrow> subseq (xs @ remove1 c ys) zs"
    by (meson list_emb_append_mono subseq_order.order_refl subseq_order.order_trans)
qed

lemma pass_on_active_pos:
  assumes "gate_inv w" and "c \<in> set (holders w) \<or> c \<in> set (granted w)"
  shows "0 < g_active (w_gate w)"
proof -
  have "0 < length (holders w) + length (granted w)" using assms(2) by auto
  then show ?thesis using assms(1) unfolding gate_inv_def by linarith
qed

lemma fifo_inv_release:
  assumes "fifo_inv k w" and "0 < g_active (w_gate w)" and "\<And>i. gate_limit (L i) = k"
    and "release_locked L (w_gate w) = (s, g)"
  shows "subseq ((admitted w @ s) @ g_waiters g) (arrivals w) \<and> (g_waiters g \<noteq> [] \<longrightarrow> k \<le> g_active g)"
  using assms release_locked_effect [OF assms(4,2)] release_locked_stops [OF assms(4,2)]
  by (auto simp: fifo_inv_def)

lemma fifo_inv_step:
  assumes "fifo_inv k w" and "gate_inv w" and "enabled_event e w" and k: "\<And>i. gate_limit (L i) = k"
  shows "fifo_inv k (gate_step L e w)"
proof (cases e)
  case (CallAcquire c)
  then show ?thesis
    using assms(1) k [of 0]
    by (cases "g_waiters (w_gate w) = []") (auto simp: fifo_inv_def acquire_def simp flip: append_assoc)
next
  case (CtxDone c)
  show ?thesis
  proof (cases "c \<in> set (g_waiters (w_gate w))")
    case True
    then show ?thesis using assms(1) CtxDone
      by (auto simp: fifo_inv_def cancel_def intro: subseq_remove1_right)
  next
    case False
    then have "c \<in> set (granted w)" using assms(3) CtxDone by simp
    then have pos: "0 < g_active (w_gate w)" using pass_on_active_pos [OF assms(2)] by blast
    obtain s g where r: "release_locked L (w_gate w) = (s, g)" by (cases "release_locked L (w_gate w)")
    show ?thesis using fifo_inv_release [where L = L, OF assms(1) pos k r] r False CtxDone
      by (simp add: fifo_inv_def cancel_def)
  qed
next
  case (CallRelease c)
  then have pos: "0 < g_active (w_gate w)" using pass_on_active_pos [OF assms(2), of c] assms(3) by simp
  obtain s g where r: "release_locked L (w_gate w) = (s, g)" by (cases "release_locked L (w_gate w)")
  show ?thesis using fifo_inv_release [where L = L, OF assms(1) pos k r] r CallRelease
    by (simp add: fifo_inv_def)
qed (use assms in \<open>auto simp: fifo_inv_def\<close>)

lemma gate_run_fifo: "gate_run (\<lambda>n. n = k) w \<Longrightarrow> fifo_inv k w"
proof (induction rule: gate_run.induct)
  case idle
  show ?case by (simp add: fifo_inv_def idle_gate_def)
next
  case (event w e L)
  then show ?case by (intro fifo_inv_step) (auto intro: gate_run_inv)
qed

lemma active_below_release:
  assumes "g_active (w_gate w) \<le> m" and "0 < g_active (w_gate w)" and "\<And>i. gate_limit (L i) \<le> m"
    and "release_locked L (w_gate w) = (s, g)"
  shows "g_active g \<le> m"
proof (cases "s = []")
  case True
  then show ?thesis using release_locked_effect [OF assms(4,2)] assms(1) by simp
next
  case False
  then show ?thesis using release_locked_below [OF assms(4,2)] assms(3) order_trans by blast
qed

lemma active_below_step:
  assumes "g_active (w_gate w) \<le> m" and "gate_inv w" and "enabled_event e w" and m: "\<And>i. gate_limit (L i) \<le> m"
  shows "g_active (w_gate (gate_step L e w)) \<le> m"
proof (cases e)
  case (CallAcquire c)
  then show ?thesis using assms(1) m [of 0] by (auto simp: acquire_def)
next
  case (CtxDone c)
  then show ?thesis
    using active_below_release [where L = L, OF assms(1) _ m] pass_on_active_pos [OF assms(2), of c] assms(1,3)
    by (cases "release_locked L (w_gate w)") (auto simp: cancel_def)
next
  case (CallRelease c)
  then show ?thesis
    using active_below_release [where L = L, OF assms(1) _ m] pass_on_active_pos [OF assms(2), of c] assms(3)
    by (cases "release_locked L (w_gate w)") auto
qed (use assms in auto)

lemma gate_run_below: "gate_run (\<lambda>n. n \<le> m) w \<Longrightarrow> 1 \<le> m \<Longrightarrow> g_active (w_gate w) \<le> m"
proof (induction rule: gate_run.induct)
  case idle
  then show ?case by (simp add: idle_gate_def)
next
  case (event w e L)
  then show ?case by (intro active_below_step) (auto intro: gate_run_inv)
qed

lemma gate_run_mono: "gate_run P w \<Longrightarrow> (\<And>n. P n \<Longrightarrow> Q n) \<Longrightarrow> gate_run Q w"
  by (induction rule: gate_run.induct) (auto intro: gate_run.intros)

lemma release_full_gate:
  assumes "g_active g = k" and "1 \<le> k" and "g_waiters g = c # ws" and "\<And>i. gate_limit (L i) = k"
  shows "release_locked L g = ([c], \<lparr>g_active = k, g_waiters = ws\<rparr>)"
  using assms by (cases ws) (auto simp: release_locked_def Let_def)

section \<open>Claims\<close>

text \<open>
  C23: whatever the ceiling does while the callers run, as long as no reading of it exceeds
  \<open>m\<close>, never more than \<open>m\<close> callers hold a slot, counting those that were handed one
  and have not run yet; and the counter the gate keeps is exactly their number, so no
  cancellation or release loses a slot or frees one twice.
\<close>

theorem gate_admits_at_most_ceiling:
  assumes "gate_run (\<lambda>n. n \<le> m) w" and "1 \<le> m"
  shows "g_active (w_gate w) = int (length (holders w) + length (granted w))
    \<and> int (length (holders w) + length (granted w)) \<le> m \<and> distinct (holders w @ granted w)"
  using gate_run_below [OF assms] gate_run_inv [OF assms(1)] unfolding gate_inv_def by auto

text \<open>
  under a ceiling that does not change, slots are given in the order the callers
  arrived, nobody waits while a slot is free, and a release with callers queued gives the
  slot to the head of the queue and to nobody else.
\<close>

theorem gate_serves_in_order:
  assumes "gate_run (\<lambda>n. n = k) w"
  shows "subseq (admitted w @ g_waiters (w_gate w)) (arrivals w)
    \<and> (g_active (w_gate w) < k \<longrightarrow> g_waiters (w_gate w) = [])
    \<and> (\<forall>h c ws L. h \<in> set (holders w) \<and> g_waiters (w_gate w) = c # ws \<and> (\<forall>i. gate_limit (L i) = k)
        \<longrightarrow> granted (gate_step L (CallRelease h) w) = granted w @ [c]
          \<and> g_waiters (w_gate (gate_step L (CallRelease h) w)) = ws)"
proof -
  have f: "fifo_inv k w" using gate_run_fifo [OF assms] .
  have "gate_run (\<lambda>n. n \<le> k) w" by (rule gate_run_mono [OF assms]) simp
  then have k: "1 \<le> k \<Longrightarrow> g_active (w_gate w) \<le> k" by (rule gate_run_below)
  have "granted (gate_step L (CallRelease h) w) = granted w @ [c]
          \<and> g_waiters (w_gate (gate_step L (CallRelease h) w)) = ws"
    if h: "h \<in> set (holders w)" and w: "g_waiters (w_gate w) = c # ws" and L: "\<forall>i. gate_limit (L i) = k" for h c ws L
  proof -
    have k1: "1 \<le> k" using L gate_limit_pos by metis
    then have "g_active (w_gate w) = k" using f w k by (auto simp: fifo_inv_def)
    then have "release_locked L (w_gate w) = ([c], \<lparr>g_active = k, g_waiters = ws\<rparr>)"
      using k1 w L by (intro release_full_gate) simp_all
    then show ?thesis by simp
  qed
  moreover have "g_active (w_gate w) < k \<longrightarrow> g_waiters (w_gate w) = []" using f unfolding fifo_inv_def by linarith
  ultimately show ?thesis using f unfolding fifo_inv_def by blast
qed

text \<open>
  When the ceiling is raised while callers are queued, the queue is not served until the
  next release: a caller that arrives after the raise takes a slot at once and overtakes
  everybody who was waiting, who stay where they were.
\<close>

theorem raised_ceiling_lets_newcomers_overtake:
  assumes "gate_run P w" and "g_waiters (w_gate w) = c # ws" and "g_active (w_gate w) < gate_limit (L 0)"
    and "d \<notin> set (arrivals w)"
  shows "d \<in> set (holders (gate_step L (CallAcquire d) w))
    \<and> c \<notin> set (holders (gate_step L (CallAcquire d) w)) \<and> c \<notin> set (granted (gate_step L (CallAcquire d) w))
    \<and> g_waiters (w_gate (gate_step L (CallAcquire d) w)) = c # ws"
proof -
  have "gate_inv w" using assms(1) by (rule gate_run_inv)
  then have "c \<notin> set (holders w)" "c \<notin> set (granted w)" "c \<in> set (arrivals w)"
    using assms(2) by (auto simp: gate_inv_def)
  then show ?thesis using assms by (auto simp: acquire_def)
qed

text \<open>A gate with ceiling 1, one holder and one caller in the queue.\<close>

definition one_queued :: gate_world where
  "one_queued = gate_step (\<lambda>_. Some 1) (CallAcquire 2) (gate_step (\<lambda>_. Some 1) (CallAcquire 1) idle_gate)"

lemma one_queued_eq: "one_queued = \<lparr>w_gate = \<lparr>g_active = 1, g_waiters = [2]\<rparr>, holders = [1], granted = [],
    arrivals = [1, 2], admitted = [1]\<rparr>"
  by (simp add: one_queued_def idle_gate_def acquire_def gate_limit_def)

lemma one_queued_run: "P 1 \<Longrightarrow> gate_run P one_queued"
  unfolding one_queued_def
  by (intro gate_run.intros) (simp_all add: idle_gate_def acquire_def gate_limit_def)

theorem gate_admits_at_most_ceiling_witness:
  "int (length (holders one_queued) + length (granted one_queued)) \<le> 3"
  using gate_admits_at_most_ceiling [of 3 one_queued] one_queued_run by simp

theorem gate_serves_in_order_witness:
  "granted (gate_step (\<lambda>_. Some 1) (CallRelease 1) one_queued) = [2]"
proof -
  have "gate_run (\<lambda>n. n = 1) one_queued" by (rule one_queued_run) simp
  from gate_serves_in_order [OF this] show ?thesis
    by (auto simp: one_queued_eq gate_limit_def)
qed

theorem raised_ceiling_lets_newcomers_overtake_witness:
  "3 \<in> set (holders (gate_step (\<lambda>_. Some 2) (CallAcquire 3) one_queued))
    \<and> 2 \<notin> set (holders (gate_step (\<lambda>_. Some 2) (CallAcquire 3) one_queued))"
proof -
  have "gate_run (\<lambda>n. True) one_queued" by (rule one_queued_run) simp
  from raised_ceiling_lets_newcomers_overtake [OF this, of 2 "[]" "\<lambda>_. Some 2" 3]
  show ?thesis by (simp add: one_queued_eq gate_limit_def)
qed

end
