(* ===== verification/Delivery.thy ===== *)
theory Delivery
  imports Instants GoStrings
begin

text \<open>
  What decides whether and when an alert is sent: the delivery policy with its quiet hours
  (\<open>src/internal/notifications/policy.go\<close>), the routing of a rule (\<open>routing.go\<close>) and a
  user's subscription (\<open>subscription.go\<close>). The time zone database is the parameter
  \<open>Z\<close>: \<open>Z name\<close> is what \<open>time.LoadLocation\<close> returns, the civil minute of an
  instant in that zone (whatever its offsets and changes of them).
\<close>

type_synonym zone_db = "string \<Rightarrow> (int \<Rightarrow> civil) option"

datatype notify_error = NotifyNotFound | NotifyInvalid string | NotifySql

section \<open>Delivery modes\<close>

definition mode_dashboard :: string where "mode_dashboard = ''dashboard''"
definition mode_quiet :: string where "mode_quiet = ''quiet''"
definition mode_always :: string where "mode_always = ''always''"

lemmas delivery_modes = mode_dashboard_def mode_quiet_def mode_always_def

definition mode_valid :: "string \<Rightarrow> bool" where
  "mode_valid m = (m = mode_dashboard \<or> m = mode_quiet \<or> m = mode_always)"

definition default_severities :: "(string \<times> string) list" where
  "default_severities = [(''info'', mode_dashboard), (''warning'', mode_quiet), (''critical'', mode_always)]"

section \<open>The policy\<close>

record quiet_window =
  qw_days :: "int list"
  qw_start :: string
  qw_end :: string

record policy =
  po_zone :: string
  po_windows :: "quiet_window list"
  po_severities :: "(string \<times> string) list"

definition default_policy :: policy where
  "default_policy = \<lparr>po_zone = ''UTC'', po_windows = [], po_severities = default_severities\<rparr>"

definition mode_for :: "policy \<Rightarrow> string \<Rightarrow> string" where
  "mode_for p sev =
     (case map_of (po_severities p) sev of
        Some m \<Rightarrow> if mode_valid m then m
                  else (case map_of default_severities sev of Some d \<Rightarrow> d | None \<Rightarrow> mode_quiet)
      | None \<Rightarrow> (case map_of default_severities sev of Some d \<Rightarrow> d | None \<Rightarrow> mode_quiet))"

definition parse_hhmm :: "string \<Rightarrow> (string, int) result" where
  "parse_hhmm s =
     (case cut (CHR '':'') s of (h, m, ok) \<Rightarrow>
        if \<not> ok then Inl ''is not HH:MM''
        else
          (case atoi h of None \<Rightarrow> Inl ''hour is not a number'' | Some hh \<Rightarrow>
             (case atoi m of None \<Rightarrow> Inl ''minute is not a number'' | Some mm \<Rightarrow>
                if hh < 0 \<or> mm < 0 \<or> 59 < mm \<or> 24 < hh \<or> hh = 24 \<and> mm \<noteq> 0 then Inl ''is out of range''
                else Inr (hh * 60 + mm))))"

definition validate_window :: "quiet_window \<Rightarrow> (notify_error, unit) result" where
  "validate_window w =
     (case parse_hhmm (qw_start w) of Inl e \<Rightarrow> Inl (NotifyInvalid (''window start: '' @ e)) | Inr s \<Rightarrow>
        (case parse_hhmm (qw_end w) of Inl e \<Rightarrow> Inl (NotifyInvalid (''window end: '' @ e)) | Inr e \<Rightarrow>
           if s = e then Inl (NotifyInvalid ''window start and end must differ'')
           else first_err (\<lambda>d. if d < 0 \<or> 6 < d then Inl (NotifyInvalid ''weekday out of range 0-6'') else Inr ())
             (qw_days w)))"

definition validate_severity_mode :: "string \<times> string \<Rightarrow> (notify_error, unit) result" where
  "validate_severity_mode sm =
     (if map_of default_severities (fst sm) = None
        then Inl (NotifyInvalid ''severity is not one of info/warning/critical'')
      else if \<not> mode_valid (snd sm)
        then Inl (NotifyInvalid ''delivery mode is not one of dashboard/quiet/always'')
      else Inr ())"

text \<open>\<open>Validate\<close> ranges over a Go map: with several bad entries any of them may be the one reported.\<close>

definition validate_policy :: "zone_db \<Rightarrow> policy \<Rightarrow> (notify_error, policy) result" where
  "validate_policy Z p0 =
     (let p = (if trim_space (po_zone p0) = [] then p0\<lparr>po_zone := ''UTC''\<rparr> else p0)
      in if Z (po_zone p) = None then Inl (NotifyInvalid ''timezone is not a valid IANA name'')
         else (case first_err validate_severity_mode (po_severities p) of
                 Inl e \<Rightarrow> Inl e
               | Inr _ \<Rightarrow> (case first_err validate_window (po_windows p) of
                             Inl e \<Rightarrow> Inl e | Inr _ \<Rightarrow> Inr p)))"

section \<open>Quiet hours\<close>

definition day_covered :: "int list \<Rightarrow> int \<Rightarrow> bool" where
  "day_covered days d = (days = [] \<or> d \<in> set days)"

definition prev_day :: "int \<Rightarrow> int" where
  "prev_day d = (d + 6) mod 7"

text \<open>One round of the loop: does the window hold at this weekday and minute of the day?\<close>

definition window_holds :: "int \<Rightarrow> int \<Rightarrow> quiet_window \<Rightarrow> bool" where
  "window_holds day minute w =
     (case parse_hhmm (qw_start w) of Inl _ \<Rightarrow> False | Inr s \<Rightarrow>
        (case parse_hhmm (qw_end w) of Inl _ \<Rightarrow> False | Inr e \<Rightarrow>
           if s = e then False
           else if s < e then day_covered (qw_days w) day \<and> s \<le> minute \<and> minute < e
           else day_covered (qw_days w) day \<and> s \<le> minute
              \<or> day_covered (qw_days w) (prev_day day) \<and> minute < e))"

definition in_quiet_hours :: "zone_db \<Rightarrow> policy \<Rightarrow> int \<Rightarrow> bool" where
  "in_quiet_hours Z p t =
     (if po_windows p = [] then False
      else
        (let lt = (case Z (po_zone p) of Some local \<Rightarrow> local t | None \<Rightarrow> civil_at 0 t);
             day = int (weekday_of lt);
             minute = int (hr lt) * 60 + int (mi lt)
         in list_ex (window_holds day minute) (po_windows p)))"

section \<open>Routing\<close>

definition route_all :: string where "route_all = ''all''"
definition route_selected :: string where "route_selected = ''selected''"

record routing =
  rt_rule :: string
  rt_mode :: string
  rt_channels :: "string list"

definition dedupe :: "string list \<Rightarrow> string list" where
  "dedupe ids = fold (\<lambda>x out. let i = trim_space x in if i = [] \<or> i \<in> set out then out else out @ [i]) ids []"

text \<open>The input of \<open>SetRouting\<close>: mode and channel ids.\<close>

definition validate_routing :: "string \<times> string list \<Rightarrow> (notify_error, string \<times> string list) result" where
  "validate_routing inp =
     (let mode = (if fst inp = [] then route_all else fst inp)
      in if mode \<noteq> route_all \<and> mode \<noteq> route_selected
           then Inl (NotifyInvalid ''routing mode is not one of all/selected'')
         else if mode = route_all then Inr (mode, [])
         else Inr (mode, dedupe (snd inp)))"

section \<open>Subscriptions\<close>

record subscription =
  sb_enabled :: bool
  sb_groups :: "string list"
  sb_severities :: "string list"

definition validate_subscription :: "subscription \<Rightarrow> (notify_error, subscription) result" where
  "validate_subscription s0 =
     (let s = s0\<lparr>sb_groups := dedupe (sb_groups s0), sb_severities := dedupe (sb_severities s0)\<rparr>
      in case first_err (\<lambda>sev. if map_of default_severities sev = None
             then Inl (NotifyInvalid ''severity is not one of info/warning/critical'') else Inr ()) (sb_severities s) of
           Inl e \<Rightarrow> Inl e
         | Inr _ \<Rightarrow> Inr s)"

definition sub_matches :: "subscription \<Rightarrow> string \<Rightarrow> string \<Rightarrow> bool" where
  "sub_matches s g sev =
     (if \<not> sb_enabled s then False
      else if sb_groups s \<noteq> [] \<and> g \<notin> set (sb_groups s) then False
      else if sb_severities s \<noteq> [] \<and> sev \<notin> set (sb_severities s) then False
      else True)"

section \<open>Lemmas\<close>

lemma parse_hhmm_bounds: "parse_hhmm s = Inr n \<Longrightarrow> 0 \<le> n \<and> n \<le> 1440"
  unfolding parse_hhmm_def by (auto split: prod.splits option.splits if_splits)

lemma mode_for_valid: "mode_valid (mode_for p sev)"
  unfolding mode_for_def mode_valid_def default_severities_def
  by (auto simp: delivery_modes split: option.splits if_splits)

lemma validate_window_iff:
  "validate_window w = Inr () \<longleftrightarrow> (\<exists>s e. parse_hhmm (qw_start w) = Inr s \<and> parse_hhmm (qw_end w) = Inr e \<and> s \<noteq> e)
     \<and> (\<forall>d\<in>set (qw_days w). 0 \<le> d \<and> d \<le> 6)"
  unfolding validate_window_def
  by (auto simp: first_err_Inr_iff not_less split: sum.splits if_splits)

lemma fold_dedupe:
  "distinct out \<Longrightarrow> (\<forall>i\<in>set out. i \<noteq> []) \<Longrightarrow>
   distinct (fold (\<lambda>x out. let i = trim_space x in if i = [] \<or> i \<in> set out then out else out @ [i]) ids out) \<and>
   set (fold (\<lambda>x out. let i = trim_space x in if i = [] \<or> i \<in> set out then out else out @ [i]) ids out)
     = set out \<union> (trim_space ` set ids - {[]})"
proof (induction ids arbitrary: out)
  case (Cons x ids)
  then show ?case
    using Cons.IH [of out] Cons.IH [of "out @ [trim_space x]"] by (auto simp: Let_def)
qed simp

lemma dedupe_correct: "distinct (dedupe ids) \<and> set (dedupe ids) = trim_space ` set ids - {[]}"
  using fold_dedupe [of "[]" ids] by (simp add: dedupe_def)

lemma weekday_of_day: "weekday_of c = nat ((day_number c + 1) mod 7)"
  by (simp add: weekday_of_def weekday_def day_number_def)

section \<open>The occurrences of a window\<close>

text \<open>
  What a window means: an occurrence anchored at each civil day \<open>D\<close> it covers, from its
  start on that day to its end on the same day, or on the next one when the end is earlier.
  Days count from year 1, minutes from the same origin.
\<close>

definition day_weekday :: "int \<Rightarrow> int" where
  "day_weekday D = (D + 1) mod 7"

definition occurrence :: "quiet_window \<Rightarrow> int \<Rightarrow> (int \<times> int) option" where
  "occurrence w D =
     (case (parse_hhmm (qw_start w), parse_hhmm (qw_end w)) of
        (Inr s, Inr e) \<Rightarrow>
          if s = e \<or> \<not> day_covered (qw_days w) (day_weekday D) then None
          else Some (D * 1440 + s, (if s < e then D else D + 1) * 1440 + e)
      | _ \<Rightarrow> None)"

lemma prev_day_weekday: "prev_day (day_weekday D) = day_weekday (D - 1)"
proof -
  have "((D + 1) mod 7 + 6) mod 7 = (D + 1 + 6) mod 7" by (rule mod_add_left_eq)
  also have "\<dots> = (D + 7) mod 7" by simp
  also have "\<dots> = D mod 7" by (rule mod_add_self2)
  finally show ?thesis by (simp add: prev_day_def day_weekday_def)
qed

lemma window_holds_iff:
  assumes "0 \<le> m" "m < 1440"
  shows "window_holds (day_weekday D) m w \<longleftrightarrow>
    (\<exists>D' a b. occurrence w D' = Some (a, b) \<and> a \<le> D * 1440 + m \<and> D * 1440 + m < b)"
proof (cases "parse_hhmm (qw_start w)")
  case (Inl err)
  then show ?thesis by (simp add: window_holds_def occurrence_def)
next
  case s: (Inr s)
  show ?thesis
  proof (cases "parse_hhmm (qw_end w)")
    case (Inl err)
    then show ?thesis using s by (simp add: window_holds_def occurrence_def)
  next
    case e: (Inr e)
    note bs = parse_hhmm_bounds [OF s] and be = parse_hhmm_bounds [OF e]
    have occ: "occurrence w D' = Some (a, b) \<longleftrightarrow> s \<noteq> e \<and> day_covered (qw_days w) (day_weekday D')
        \<and> a = D' * 1440 + s \<and> b = (if s < e then D' else D' + 1) * 1440 + e" for D' a b
      using s e by (auto simp: occurrence_def)
    show ?thesis
    proof (cases "s < e")
      case True
      have "D' * 1440 + s \<le> D * 1440 + m \<and> D * 1440 + m < D' * 1440 + e \<longleftrightarrow> D' = D \<and> s \<le> m \<and> m < e" for D'
      proof -
        have "D' = D" if "D' * 1440 + s \<le> D * 1440 + m" "D * 1440 + m < D' * 1440 + e"
          using that assms bs be by linarith
        then show ?thesis by auto
      qed
      then show ?thesis using s e True by (simp add: window_holds_def occ)
    next
      case False
      have "D' * 1440 + s \<le> D * 1440 + m \<and> D * 1440 + m < (D' + 1) * 1440 + e
          \<longleftrightarrow> D' = D \<and> s \<le> m \<or> D' = D - 1 \<and> m < e" for D'
      proof -
        have "D' = D \<or> D' = D - 1" if x: "D' * 1440 + s \<le> D * 1440 + m" "D * 1440 + m < (D' + 1) * 1440 + e"
        proof -
          have e1: "e \<le> 1440" and s0: "0 \<le> s" using bs be by simp_all
          have "D' \<le> D" using x(1) assms(2) s0 by linarith
          moreover have "D - 1 \<le> D'" using x(2) assms(1) e1 by (simp add: distrib_right)
          ultimately have "D' \<le> D" "D - 1 \<le> D'" by simp_all
          then show ?thesis by linarith
        qed
        moreover have "D * 1440 + s \<le> D * 1440 + m \<longleftrightarrow> s \<le> m" by simp
        moreover have "D * 1440 + m < (D - 1 + 1) * 1440 + e \<longleftrightarrow> m < e" by simp
        moreover have "D * 1440 + m < (D + 1) * 1440 + e" "(D - 1) * 1440 + s \<le> D * 1440 + m"
          using assms bs be by (simp_all add: distrib_right left_diff_distrib)
        ultimately show ?thesis by blast
      qed
      then show ?thesis using s e False by (simp add: window_holds_def occ prev_day_weekday) blast
    qed
  qed
qed

definition local_minute :: "zone_db \<Rightarrow> string \<Rightarrow> int \<Rightarrow> civil" where
  "local_minute Z name t = (case Z name of Some local \<Rightarrow> local t | None \<Rightarrow> civil_at 0 t)"

lemma quiet_iff_occurrence:
  assumes "valid_civil (local_minute Z (po_zone p) t)"
  shows "in_quiet_hours Z p t \<longleftrightarrow>
    (\<exists>w\<in>set (po_windows p). \<exists>D a b. occurrence w D = Some (a, b)
       \<and> a \<le> minute_number (local_minute Z (po_zone p) t) \<and> minute_number (local_minute Z (po_zone p) t) < b)"
proof -
  define c where "c = local_minute Z (po_zone p) t"
  have m: "int (hr c) * 60 + int (mi c) < 1440" using assms by (simp add: valid_civil_def c_def)
  have d: "int (weekday_of c) = day_weekday (day_number c)"
    by (simp add: weekday_of_day day_weekday_def)
  have n: "minute_number c = day_number c * 1440 + (int (hr c) * 60 + int (mi c))"
    by (simp add: minute_number_def minute_of_day_def)
  have "in_quiet_hours Z p t \<longleftrightarrow>
      (\<exists>w\<in>set (po_windows p). window_holds (day_weekday (day_number c)) (int (hr c) * 60 + int (mi c)) w)"
    by (auto simp: in_quiet_hours_def Let_def list_ex_iff d simp flip: local_minute_def c_def)
  then show ?thesis
    using window_holds_iff [OF _ m] by (simp add: n flip: c_def)
qed

text \<open>
  C18: quiet hours are the union of the occurrences of the windows: an instant is quiet
  exactly when its civil minute in the policy's zone lies between the start and the end of some
  window's occurrence anchored at a day the window covers, overnight windows running into
  the next day; a policy without windows, or an instant outside all of them, is never quiet.
\<close>

theorem quiet_hours_are_the_occurrences:
  assumes "Z (po_zone p) = Some local" and "valid_civil (local t)"
  shows "in_quiet_hours Z p t \<longleftrightarrow>
    (\<exists>w\<in>set (po_windows p). \<exists>D a b. occurrence w D = Some (a, b)
       \<and> a \<le> minute_number (local t) \<and> minute_number (local t) < b)"
  using quiet_iff_occurrence [of Z p t] assms by (simp add: local_minute_def)

text \<open>Friday 22:00 to 08:00, at 1970-10-03 07:59 UTC, a Saturday.\<close>

definition weekend_policy :: policy where
  "weekend_policy = default_policy\<lparr>po_windows := [\<lparr>qw_days = [5], qw_start = ''22:00'', qw_end = ''08:00''\<rparr>]\<rparr>"

theorem quiet_hours_are_the_occurrences_witness:
  "in_quiet_hours (\<lambda>n. Some (\<lambda>t. Civil 1970 10 3 7 59)) weekend_policy 0 \<and>
   \<not> in_quiet_hours (\<lambda>n. Some (\<lambda>t. Civil 1970 10 3 8 0)) weekend_policy 0"
proof -
  have o: "occurrence \<lparr>qw_days = [5], qw_start = ''22:00'', qw_end = ''08:00''\<rparr> D =
      (if day_weekday D = 5 then Some (D * 1440 + 1320, (D + 1) * 1440 + 480) else None)" for D
    by (simp add: occurrence_def parse_hhmm_def cut_def atoi_def atoi_digits_def is_digit_def digit_val_def day_covered_def)
  have m: "minute_number (Civil 1970 10 3 7 59) = 719436 * 1440 + 1440 + 479"
    "minute_number (Civil 1970 10 3 8 0) = 719436 * 1440 + 1440 + 480"
    by code_simp+
  have v: "valid_civil (Civil 1970 10 3 7 59)" "valid_civil (Civil 1970 10 3 8 0)" by code_simp+
  have q: "in_quiet_hours (\<lambda>n. Some (\<lambda>t. c)) weekend_policy 0 \<longleftrightarrow>
      (\<exists>D. day_weekday D = 5 \<and> D * 1440 + 1320 \<le> minute_number c \<and> minute_number c < (D + 1) * 1440 + 480)"
    if "valid_civil c" for c
    using quiet_hours_are_the_occurrences [of "\<lambda>n. Some (\<lambda>t. c)" weekend_policy "\<lambda>t. c" 0] that
    by (auto simp: weekend_policy_def o split: if_splits)
  show ?thesis unfolding q [OF v(1)] q [OF v(2)] m day_weekday_def
    by (intro conjI exI [of _ 719436]) (simp, simp, simp, auto)
qed

end
