(* ===== verification/NotifyStore.thy ===== *)
theory NotifyStore
  imports Delivery Alerts AuthStore
begin

text \<open>
  Notification channels and the tables of \<open>src/internal/notifications/sqlite_store.go\<close>
  and \<open>user_store.go\<close>. Parameters: \<open>U\<close> is \<open>url.ParseRequestURI\<close>, the
  scheme of an accepted URL; \<open>V\<close> is the vault, \<open>None\<close> where the store has none.
  A JSON column holds the value it decodes to. Instants are nanoseconds since 1970.
\<close>

section \<open>Channels\<close>

definition type_email :: string where "type_email = ''email''"
definition type_slack :: string where "type_slack = ''slack''"
definition type_webhook :: string where "type_webhook = ''webhook''"
definition type_sms :: string where "type_sms = ''sms''"

lemmas channel_types = type_email_def type_slack_def type_webhook_def type_sms_def

definition channel_type_valid :: "string \<Rightarrow> bool" where
  "channel_type_valid t = (t = type_email \<or> t = type_slack \<or> t = type_webhook \<or> t = type_sms)"

definition requires_secret :: "string \<Rightarrow> bool" where
  "requires_secret t = (t = type_slack \<or> t = type_sms)"

definition default_sms_base_url :: string where
  "default_sms_base_url = ''https://api.twilio.com/2010-04-01''"

record channel_config =
  cc_smtp_host :: string
  cc_smtp_port :: int
  cc_username :: string
  cc_starttls :: bool
  cc_skip_verify :: bool
  cc_from :: string
  cc_to :: "string list"
  cc_url :: string
  cc_method :: string
  cc_header_name :: string
  cc_base_url :: string
  cc_account_sid :: string

record channel =
  ch_id :: string
  ch_name :: string
  ch_type :: string
  ch_enabled :: bool
  ch_config :: channel_config
  ch_secret :: sealed
  ch_by :: string
  ch_created :: int
  ch_updated :: int

record channel_input =
  ci_name :: string
  ci_type :: string
  ci_enabled :: bool
  ci_config :: channel_config
  ci_secret :: string

definition max_channel_name :: nat where "max_channel_name = 255"
definition max_url_len :: nat where "max_url_len = 2048"

definition validate_url :: "(string \<Rightarrow> string option) \<Rightarrow> string \<Rightarrow> (string, unit) result" where
  "validate_url U raw =
     (if raw = [] then Inl ''URL is required''
      else if max_url_len < length raw then Inl ''URL exceeds 2048 chars''
      else (case U raw of
              None \<Rightarrow> Inl ''invalid URL''
            | Some sch \<Rightarrow> if sch \<noteq> ''http'' \<and> sch \<noteq> ''https'' then Inl ''URL must be http or https'' else Inr ()))"

definition trim_list :: "string list \<Rightarrow> string list" where
  "trim_list xs = filter (\<lambda>x. x \<noteq> []) (map trim_space xs)"

definition trim_config :: "channel_config \<Rightarrow> channel_config" where
  "trim_config c = c\<lparr>cc_from := trim_space (cc_from c), cc_smtp_host := trim_space (cc_smtp_host c),
     cc_username := trim_space (cc_username c), cc_url := trim_space (cc_url c),
     cc_header_name := trim_space (cc_header_name c), cc_base_url := trim_space (cc_base_url c),
     cc_account_sid := trim_space (cc_account_sid c), cc_to := trim_list (cc_to c)\<rparr>"

definition bad :: "string \<Rightarrow> (notify_error, 'a) result" where
  "bad m = Inl (NotifyInvalid m)"

definition validate_config :: "(string \<Rightarrow> string option) \<Rightarrow> string \<Rightarrow> string \<Rightarrow> channel_config
    \<Rightarrow> (notify_error, channel_config) result" where
  "validate_config U t secret c =
     (if t = type_email then
        (if cc_smtp_host c = [] then bad ''smtpHost is required for an email channel''
         else if cc_smtp_port c < 1 \<or> 65535 < cc_smtp_port c then bad ''smtpPort must be between 1 and 65535''
         else if cc_from c = [] then bad ''from is required for an email channel''
         else if cc_to c = [] then bad ''at least one recipient (to) is required''
         else Inr c)
      else if t = type_slack then
        (if secret \<noteq> [] then
           (case validate_url U secret of Inl e \<Rightarrow> bad (''slack webhook URL: '' @ e) | Inr _ \<Rightarrow> Inr c)
         else Inr c)
      else if t = type_webhook then
        (case validate_url U (cc_url c) of
           Inl e \<Rightarrow> bad (''url: '' @ e)
         | Inr _ \<Rightarrow>
             (let c = (if cc_method c = [] then c\<lparr>cc_method := ''POST''\<rparr> else c)
              in if cc_method c \<noteq> ''POST'' \<and> cc_method c \<noteq> ''PUT'' then bad ''method must be POST or PUT'' else Inr c))
      else if t = type_sms then
        (let c = (if cc_base_url c = [] then c\<lparr>cc_base_url := default_sms_base_url\<rparr> else c)
         in case validate_url U (cc_base_url c) of
              Inl e \<Rightarrow> bad (''baseURL: '' @ e)
            | Inr _ \<Rightarrow>
                if cc_account_sid c = [] then bad ''accountSID is required for an sms channel''
                else if cc_from c = [] then bad ''from is required for an sms channel''
                else if cc_to c = [] then bad ''at least one recipient (to) is required''
                else Inr c)
      else Inr c)"

definition validate_channel :: "(string \<Rightarrow> string option) \<Rightarrow> channel_input \<Rightarrow> (notify_error, channel_input) result" where
  "validate_channel U x0 =
     (let x = x0\<lparr>ci_name := trim_space (ci_name x0)\<rparr>
      in if ci_name x = [] then bad ''name is required''
         else if max_channel_name < length (ci_name x) then bad ''name exceeds 255 chars''
         else if \<not> channel_type_valid (ci_type x) then bad ''type is not one of email/slack/webhook/sms''
         else (case validate_config U (ci_type x) (ci_secret x) (trim_config (ci_config x)) of
                 Inl e \<Rightarrow> Inl e
               | Inr c \<Rightarrow> Inr (x\<lparr>ci_config := c\<rparr>)))"

text \<open>The view of a channel the API answers with: whether there is a secret, never the secret.\<close>

record channel_dto =
  dto_id :: string
  dto_name :: string
  dto_type :: string
  dto_enabled :: bool
  dto_config :: channel_config
  dto_has_secret :: bool
  dto_by :: string
  dto_created :: int
  dto_updated :: int

definition redacted :: "channel \<Rightarrow> channel_dto" where
  "redacted c = \<lparr>dto_id = ch_id c, dto_name = ch_name c, dto_type = ch_type c, dto_enabled = ch_enabled c,
     dto_config = ch_config c, dto_has_secret = (\<not> sealed_is_zero (ch_secret c)), dto_by = ch_by c,
     dto_created = ch_created c, dto_updated = ch_updated c\<rparr>"

section \<open>Messages, deliveries, deferred deliveries\<close>

record message =
  ms_subject :: string
  ms_body :: string
  ms_kind :: string
  ms_rule :: string
  ms_severity :: string
  ms_system :: string
  ms_system_name :: string
  ms_value :: flt
  ms_at :: int

datatype delivery_status = DeliverySuccess | DeliveryFailed | DeliverySuppressed | DeliveryDeferred

record delivery =
  dl_id :: string
  dl_channel :: string
  dl_channel_name :: string
  dl_channel_type :: string
  dl_kind :: string
  dl_rule :: string
  dl_system :: string
  dl_status :: delivery_status
  dl_error :: string
  dl_at :: int
  dl_user :: string

record pending =
  pe_id :: string
  pe_rule :: string
  pe_rule_name :: string
  pe_system :: string
  pe_severity :: string
  pe_kind :: string
  pe_message :: message
  pe_at :: int
  pe_user :: string

section \<open>The tables\<close>

record notify_db =
  nd_channels :: "channel list"
  nd_user_channels :: "(string \<times> channel) list"       \<comment> \<open>with the owner\<close>
  nd_deliveries :: "delivery list"
  nd_routes :: "(string \<times> string) list"               \<comment> \<open>rule, mode\<close>
  nd_route_channels :: "(string \<times> string) list"       \<comment> \<open>rule, channel\<close>
  nd_policy :: "policy option"
  nd_pending :: "pending list"
  nd_subs :: "(string \<times> subscription) list"
  nd_policies :: "(string \<times> policy) list"

definition by_created :: "channel \<Rightarrow> int \<times> string" where
  "by_created c = (ch_created c, ch_id c)"

type_synonym vault_fn = "(string \<Rightarrow> sealed option) option"

definition seal_secret :: "vault_fn \<Rightarrow> string \<Rightarrow> (notify_error, sealed) result" where
  "seal_secret V p =
     (if p = [] then Inr zero_sealed
      else (case V of
              None \<Rightarrow> bad ''secret storage is unavailable (no vault configured)''
            | Some seal \<Rightarrow> (case seal p of None \<Rightarrow> Inl NotifySql | Some s \<Rightarrow> Inr s)))"

subsection \<open>Shared channels\<close>

definition get_channel :: "string \<Rightarrow> 'a notify_db_scheme \<Rightarrow> (notify_error, channel) result" where
  "get_channel i db = (case find (\<lambda>c. ch_id c = i) (nd_channels db) of None \<Rightarrow> Inl NotifyNotFound | Some c \<Rightarrow> Inr c)"

definition list_channels :: "'a notify_db_scheme \<Rightarrow> channel list" where
  "list_channels db = sort_key by_created (nd_channels db)"

definition list_enabled_channels :: "'a notify_db_scheme \<Rightarrow> channel list" where
  "list_enabled_channels db = sort_key by_created (filter ch_enabled (nd_channels db))"

text \<open>
  \<open>Create\<close> and \<open>CreateUserChannel\<close> differ in the order of the validation and of the
  owner's check, and in the table.
\<close>

definition new_channel :: "vault_fn \<Rightarrow> string \<Rightarrow> int \<Rightarrow> channel_input \<Rightarrow> string \<Rightarrow> (notify_error, channel) result" where
  "new_channel V i now x owner =
     (if requires_secret (ci_type x) \<and> ci_secret x = [] then bad ''a channel of this type requires a secret''
      else rbind (seal_secret V (ci_secret x)) (\<lambda>sealed.
        Inr \<lparr>ch_id = i, ch_name = ci_name x, ch_type = ci_type x, ch_enabled = ci_enabled x, ch_config = ci_config x,
             ch_secret = sealed, ch_by = owner, ch_created = now, ch_updated = now\<rparr>))"

definition create_channel :: "(string \<Rightarrow> string option) \<Rightarrow> vault_fn \<Rightarrow> string \<Rightarrow> int \<Rightarrow> channel_input \<Rightarrow> string
    \<Rightarrow> 'a notify_db_scheme \<Rightarrow> (notify_error, channel \<times> 'a notify_db_scheme) result" where
  "create_channel U V i now x owner db =
     rbind (validate_channel U x) (\<lambda>y.
       if owner = [] then bad ''createdBy is required''
       else rbind (new_channel V i now y owner) (\<lambda>c.
         if i \<in> ch_id ` set (nd_channels db) then Inl NotifySql
         else Inr (c, db\<lparr>nd_channels := nd_channels db @ [c]\<rparr>)))"

text \<open>The secret after an update: replaced, kept for the same type, or cleared.\<close>

definition updated_secret :: "vault_fn \<Rightarrow> channel_input \<Rightarrow> channel \<Rightarrow> (notify_error, sealed) result" where
  "updated_secret V y old =
     rbind (if ci_secret y \<noteq> [] then seal_secret V (ci_secret y)
            else if ci_type y = ch_type old then Inr (ch_secret old)
            else Inr zero_sealed)
       (\<lambda>s. if requires_secret (ci_type y) \<and> sealed_is_zero s then bad ''a channel of this type requires a secret''
            else Inr s)"

definition set_channel :: "channel_input \<Rightarrow> sealed \<Rightarrow> int \<Rightarrow> channel \<Rightarrow> channel" where
  "set_channel y s now c = c\<lparr>ch_name := ci_name y, ch_type := ci_type y, ch_enabled := ci_enabled y,
     ch_config := ci_config y, ch_secret := s, ch_updated := now\<rparr>"

definition update_channel :: "(string \<Rightarrow> string option) \<Rightarrow> vault_fn \<Rightarrow> string \<Rightarrow> int \<Rightarrow> channel_input
    \<Rightarrow> 'a notify_db_scheme \<Rightarrow> (notify_error, channel \<times> 'a notify_db_scheme) result" where
  "update_channel U V i now x db =
     rbind (validate_channel U x) (\<lambda>y.
       rbind (get_channel i db) (\<lambda>old.
         rbind (updated_secret V y old) (\<lambda>s.
           let db' = db\<lparr>nd_channels := update_where (\<lambda>c. ch_id c = i) (set_channel y s now) (nd_channels db)\<rparr>
           in rbind (get_channel i db') (\<lambda>c. Inr (c, db')))))"

definition delete_channel :: "string \<Rightarrow> 'a notify_db_scheme \<Rightarrow> (notify_error, 'a notify_db_scheme) result" where
  "delete_channel i db =
     (if count_where (\<lambda>c. ch_id c = i) (nd_channels db) = 0 then Inl NotifyNotFound
      else Inr (db\<lparr>nd_channels := delete_where (\<lambda>c. ch_id c = i) (nd_channels db),
                   nd_route_channels := delete_where (\<lambda>rc. snd rc = i) (nd_route_channels db)\<rparr>))"

subsection \<open>The delivery log\<close>

text \<open>The id is drawn when the caller gave none; the dispatcher always gives the time.\<close>

definition record_delivery :: "string \<Rightarrow> delivery \<Rightarrow> 'a notify_db_scheme
    \<Rightarrow> (notify_error, 'a notify_db_scheme) result" where
  "record_delivery i d0 db =
     (let d = (if dl_id d0 = [] then d0\<lparr>dl_id := i\<rparr> else d0)
      in if dl_id d \<in> dl_id ` set (nd_deliveries db) then Inl NotifySql
         else Inr (db\<lparr>nd_deliveries := nd_deliveries db @ [d]\<rparr>))"

definition clamp_limit :: "int \<Rightarrow> nat" where
  "clamp_limit n = nat (if n \<le> 0 then 100 else n)"

definition list_user_deliveries :: "string \<Rightarrow> int \<Rightarrow> 'a notify_db_scheme \<Rightarrow> delivery list" where
  "list_user_deliveries u n db =
     take (clamp_limit n) (rev (sort_key (\<lambda>d. (dl_at d, dl_id d)) (filter (\<lambda>d. dl_user d = u) (nd_deliveries db))))"

definition list_deliveries :: "int \<Rightarrow> 'a notify_db_scheme \<Rightarrow> delivery list" where
  "list_deliveries n db = list_user_deliveries [] n db"

subsection \<open>Routing\<close>

definition route_channel_ids :: "string \<Rightarrow> 'a notify_db_scheme \<Rightarrow> string list" where
  "route_channel_ids r db = sort (map snd (filter (\<lambda>rc. fst rc = r) (nd_route_channels db)))"

definition get_routing :: "string \<Rightarrow> 'a notify_db_scheme \<Rightarrow> routing" where
  "get_routing r db =
     (case map_of (nd_routes db) r of
        None \<Rightarrow> \<lparr>rt_rule = r, rt_mode = route_all, rt_channels = []\<rparr>
      | Some m \<Rightarrow> \<lparr>rt_rule = r, rt_mode = m, rt_channels = (if m = route_selected then route_channel_ids r db else [])\<rparr>)"

definition set_routing :: "string \<Rightarrow> string \<times> string list \<Rightarrow> 'a notify_db_scheme
    \<Rightarrow> (notify_error, 'a notify_db_scheme) result" where
  "set_routing r inp db =
     (if r = [] then bad ''ruleId is required''
      else rbind (validate_routing inp) (\<lambda>(mode, ids).
        let kept = delete_where (\<lambda>rc. fst rc = r) (nd_route_channels db)
        in if \<not> distinct ids then Inl NotifySql
           else Inr (db\<lparr>nd_routes := alist_put r mode (nd_routes db),
                        nd_route_channels := kept @ map (Pair r) ids\<rparr>)))"

definition list_routing :: "'a notify_db_scheme \<Rightarrow> routing list" where
  "list_routing db = map (\<lambda>rm. \<lparr>rt_rule = fst rm, rt_mode = snd rm,
      rt_channels = (if snd rm = route_selected then route_channel_ids (fst rm) db else [])\<rparr>)
     (sort_key fst (nd_routes db))"

subsection \<open>Policies\<close>

definition get_policy :: "'a notify_db_scheme \<Rightarrow> policy" where
  "get_policy db = (case nd_policy db of None \<Rightarrow> default_policy | Some p \<Rightarrow> p)"

definition set_policy :: "zone_db \<Rightarrow> policy \<Rightarrow> 'a notify_db_scheme \<Rightarrow> (notify_error, 'a notify_db_scheme) result" where
  "set_policy Z p db = rbind (validate_policy Z p) (\<lambda>q. Inr (db\<lparr>nd_policy := Some q\<rparr>))"

definition get_user_policy :: "string \<Rightarrow> 'a notify_db_scheme \<Rightarrow> policy" where
  "get_user_policy u db = (case map_of (nd_policies db) u of None \<Rightarrow> default_policy | Some p \<Rightarrow> p)"

definition set_user_policy :: "zone_db \<Rightarrow> string \<Rightarrow> policy \<Rightarrow> 'a notify_db_scheme
    \<Rightarrow> (notify_error, 'a notify_db_scheme) result" where
  "set_user_policy Z u p db =
     (if u = [] then bad ''userID is required''
      else rbind (validate_policy Z p) (\<lambda>q. Inr (db\<lparr>nd_policies := alist_put u q (nd_policies db)\<rparr>)))"

subsection \<open>Deferred deliveries\<close>

text \<open>The message is stored as JSON, which has no form for an infinity or NaN: marshalling one fails.\<close>

definition json_float :: "flt \<Rightarrow> bool" where
  "json_float v = (case v of Fin _ \<Rightarrow> True | _ \<Rightarrow> False)"

definition enqueue_pending :: "string \<Rightarrow> pending \<Rightarrow> 'a notify_db_scheme \<Rightarrow> (notify_error, 'a notify_db_scheme) result" where
  "enqueue_pending i p0 db =
     (let p = (if pe_id p0 = [] then p0\<lparr>pe_id := i\<rparr> else p0)
      in if \<not> json_float (ms_value (pe_message p)) then Inl NotifySql
         else if pe_id p \<in> pe_id ` set (nd_pending db) then Inl NotifySql
         else Inr (db\<lparr>nd_pending := nd_pending db @ [p]\<rparr>))"

definition list_pending :: "'a notify_db_scheme \<Rightarrow> pending list" where
  "list_pending db = sort_key (\<lambda>p. (pe_at p, pe_id p)) (nd_pending db)"

definition delete_pending :: "string list \<Rightarrow> 'a notify_db_scheme \<Rightarrow> 'a notify_db_scheme" where
  "delete_pending ids db = db\<lparr>nd_pending := delete_where (\<lambda>p. pe_id p \<in> set ids) (nd_pending db)\<rparr>"

subsection \<open>Personal channels and subscriptions\<close>

definition get_user_channel :: "string \<Rightarrow> string \<Rightarrow> 'a notify_db_scheme \<Rightarrow> (notify_error, channel) result" where
  "get_user_channel u i db =
     (case find (\<lambda>uc. ch_id (snd uc) = i \<and> fst uc = u) (nd_user_channels db) of
        None \<Rightarrow> Inl NotifyNotFound | Some uc \<Rightarrow> Inr (snd uc))"

definition list_user_channels :: "string \<Rightarrow> 'a notify_db_scheme \<Rightarrow> channel list" where
  "list_user_channels u db = sort_key by_created (map snd (filter (\<lambda>uc. fst uc = u) (nd_user_channels db)))"

definition list_enabled_user_channels :: "string \<Rightarrow> 'a notify_db_scheme \<Rightarrow> channel list" where
  "list_enabled_user_channels u db =
     sort_key by_created (map snd (filter (\<lambda>uc. fst uc = u \<and> ch_enabled (snd uc)) (nd_user_channels db)))"

definition create_user_channel :: "(string \<Rightarrow> string option) \<Rightarrow> vault_fn \<Rightarrow> string \<Rightarrow> int \<Rightarrow> string \<Rightarrow> channel_input
    \<Rightarrow> 'a notify_db_scheme \<Rightarrow> (notify_error, channel \<times> 'a notify_db_scheme) result" where
  "create_user_channel U V i now u x db =
     (if u = [] then bad ''userID is required''
      else rbind (validate_channel U x) (\<lambda>y. rbind (new_channel V i now y u) (\<lambda>c.
        if i \<in> (ch_id \<circ> snd) ` set (nd_user_channels db) then Inl NotifySql
        else Inr (c, db\<lparr>nd_user_channels := nd_user_channels db @ [(u, c)]\<rparr>))))"

definition update_user_channel :: "(string \<Rightarrow> string option) \<Rightarrow> vault_fn \<Rightarrow> int \<Rightarrow> string \<Rightarrow> string \<Rightarrow> channel_input
    \<Rightarrow> 'a notify_db_scheme \<Rightarrow> (notify_error, channel \<times> 'a notify_db_scheme) result" where
  "update_user_channel U V now u i x db =
     rbind (validate_channel U x) (\<lambda>y.
       rbind (get_user_channel u i db) (\<lambda>old.
         rbind (updated_secret V y old) (\<lambda>s.
           let db' = db\<lparr>nd_user_channels := update_where (\<lambda>uc. ch_id (snd uc) = i \<and> fst uc = u)
                          (\<lambda>uc. (fst uc, set_channel y s now (snd uc))) (nd_user_channels db)\<rparr>
           in rbind (get_user_channel u i db') (\<lambda>c. Inr (c, db')))))"

definition delete_user_channel :: "string \<Rightarrow> string \<Rightarrow> 'a notify_db_scheme \<Rightarrow> (notify_error, 'a notify_db_scheme) result" where
  "delete_user_channel u i db =
     (if count_where (\<lambda>uc. ch_id (snd uc) = i \<and> fst uc = u) (nd_user_channels db) = 0 then Inl NotifyNotFound
      else Inr (db\<lparr>nd_user_channels := delete_where (\<lambda>uc. ch_id (snd uc) = i \<and> fst uc = u) (nd_user_channels db)\<rparr>))"

definition get_subscription :: "string \<Rightarrow> 'a notify_db_scheme \<Rightarrow> subscription" where
  "get_subscription u db =
     (case map_of (nd_subs db) u of
        None \<Rightarrow> \<lparr>sb_enabled = False, sb_groups = [], sb_severities = []\<rparr> | Some s \<Rightarrow> s)"

definition set_subscription :: "string \<Rightarrow> subscription \<Rightarrow> 'a notify_db_scheme
    \<Rightarrow> (notify_error, 'a notify_db_scheme) result" where
  "set_subscription u s db =
     (if u = [] then bad ''userID is required''
      else rbind (validate_subscription s) (\<lambda>t. Inr (db\<lparr>nd_subs := alist_put u t (nd_subs db)\<rparr>)))"

definition list_subscriptions :: "'a notify_db_scheme \<Rightarrow> (string \<times> subscription) list" where
  "list_subscriptions db = sort_key fst (nd_subs db)"

end
