(* ===== verification/Dispatch.thy ===== *)
theory Dispatch
  imports NotifyStore Rbac
begin

text \<open>
  The dispatcher and the flusher (\<open>src/internal/notifications/dispatcher.go\<close>,
  \<open>flusher.go\<close>, \<open>senders.go\<close>) and the resolver of subscribers of
  \<open>src/cmd/server/main.go\<close>. They use the store through its interface, a record of
  operations whose \<open>None\<close> is an error; each send runs in a goroutine of its own, so
  \<open>fanOut\<close> is the list of sends it starts, in no particular order.
\<close>

section \<open>What a dispatcher is given\<close>

record 's notify_ops =
  no_enabled :: "'s \<Rightarrow> channel list option"
  no_policy :: "'s \<Rightarrow> policy option"
  no_routing :: "string \<Rightarrow> 's \<Rightarrow> routing option"
  no_user_policy :: "string \<Rightarrow> 's \<Rightarrow> policy option"
  no_user_channels :: "string \<Rightarrow> 's \<Rightarrow> channel list option"
  no_record :: "delivery \<Rightarrow> 's \<Rightarrow> 's option"
  no_enqueue :: "pending \<Rightarrow> 's \<Rightarrow> 's option"
  no_pending :: "'s \<Rightarrow> pending list option"
  no_delete :: "string list \<Rightarrow> 's \<Rightarrow> 's option"

text \<open>
  The clock answers its successive reads, \<open>de_fmt\<close> is the verb \<open>%g\<close> on a float,
  and \<open>de_subs\<close> is the resolver (\<open>None\<close>: nil; an answer \<open>None\<close>: an error).
\<close>

record dispatch_env =
  de_zone :: zone_db
  de_clock :: "nat \<Rightarrow> int"
  de_system_name :: "string \<Rightarrow> string"
  de_fmt :: "flt \<Rightarrow> string"
  de_subs :: "(string \<Rightarrow> string \<Rightarrow> string list option) option"

type_synonym job = "channel \<times> message \<times> string"

text \<open>A batch in progress: the store, the sends started, the clock reads, and the three caches.\<close>

record 's batch =
  ba_store :: 's
  ba_jobs :: "job list"
  ba_reads :: nat
  ba_routes :: "(string \<times> routing) list"
  ba_policies :: "(string \<times> policy) list"
  ba_chans :: "(string \<times> channel list) list"

definition new_batch :: "'s \<Rightarrow> 's batch" where
  "new_batch s = \<lparr>ba_store = s, ba_jobs = [], ba_reads = 0, ba_routes = [], ba_policies = [], ba_chans = []\<rparr>"

section \<open>Messages\<close>

definition pad2 :: "nat \<Rightarrow> string" where
  "pad2 n = (if n < 10 then CHR ''0'' # nat_to_string n else nat_to_string n)"

definition pad4 :: "nat \<Rightarrow> string" where
  "pad4 n = (let s = nat_to_string n in replicate (4 - length s) (CHR ''0'') @ s)"

text \<open>\<open>time.RFC3339\<close> in UTC, for the years 0 to 9999.\<close>

definition rfc3339 :: "int \<Rightarrow> string" where
  "rfc3339 t = (let c = civil_at 0 t in
     pad4 (nat (yr c)) @ ''-'' @ pad2 (mon c) @ ''-'' @ pad2 (dy c) @ ''T'' @ pad2 (hr c) @ '':'' @ pad2 (mi c) @ '':''
       @ pad2 (nat (t div 1000000000 mod 60)) @ ''Z'')"

definition kind_name :: "trans_kind \<Rightarrow> string" where
  "kind_name k = (case k of Fired \<Rightarrow> ''fired'' | Resolved \<Rightarrow> ''resolved'')"

definition newline :: string where "newline = [CHR 0x0A]"

definition format_value :: "dispatch_env \<Rightarrow> transition \<Rightarrow> string" where
  "format_value E tr =
     (if ri_condition (ru_input (tr_rule tr)) = kind_unreachable then ''unreachable'' else de_fmt E (tr_value tr))"

definition render_message :: "dispatch_env \<Rightarrow> transition \<Rightarrow> message" where
  "render_message E tr =
     (let name = ri_name (ru_input (tr_rule tr)); sev = ri_severity (ru_input (tr_rule tr));
          verb = (if tr_kind tr = Resolved then ''RESOLVED'' else ''FIRING'');
          sys = (let n = de_system_name E (tr_system tr) in if n \<noteq> [] then n else tr_system tr)
      in \<lparr>ms_subject = ''['' @ verb @ ''] '' @ name @ '' on '' @ sys,
          ms_body = ''Alert: '' @ name @ newline @ ''System: '' @ sys @ newline @ ''Severity: '' @ sev @ newline
            @ ''State: '' @ kind_name (tr_kind tr) @ newline @ ''Observed value: '' @ format_value E tr @ newline
            @ ''At: '' @ rfc3339 (tr_at tr),
          ms_kind = kind_name (tr_kind tr), ms_rule = name, ms_severity = sev, ms_system = tr_system tr,
          ms_system_name = sys, ms_value = tr_value tr, ms_at = tr_at tr\<rparr>)"

section \<open>The steps of a batch\<close>

definition read_clock :: "dispatch_env \<Rightarrow> 's batch \<Rightarrow> int \<times> 's batch" where
  "read_clock E b = (de_clock E (ba_reads b), b\<lparr>ba_reads := Suc (ba_reads b)\<rparr>)"

definition record_status :: "'s notify_ops \<Rightarrow> dispatch_env \<Rightarrow> message \<Rightarrow> delivery_status \<Rightarrow> string \<Rightarrow> 's batch \<Rightarrow> 's batch" where
  "record_status Q E msg status uid b0 =
     (let (t, b) = read_clock E b0;
          d = \<lparr>dl_id = [], dl_channel = [], dl_channel_name = [], dl_channel_type = [], dl_kind = ms_kind msg,
               dl_rule = ms_rule msg, dl_system = ms_system msg, dl_status = status, dl_error = [], dl_at = t, dl_user = uid\<rparr>
      in (case no_record Q d (ba_store b) of None \<Rightarrow> b | Some s \<Rightarrow> b\<lparr>ba_store := s\<rparr>))"

definition deferred_row :: "transition \<Rightarrow> message \<Rightarrow> int \<Rightarrow> string \<Rightarrow> pending" where
  "deferred_row tr msg t uid = \<lparr>pe_id = [], pe_rule = ru_id (tr_rule tr), pe_rule_name = ri_name (ru_input (tr_rule tr)),
     pe_system = tr_system tr, pe_severity = ri_severity (ru_input (tr_rule tr)), pe_kind = kind_name (tr_kind tr),
     pe_message = msg, pe_at = t, pe_user = uid\<rparr>"

definition defer_send :: "'s notify_ops \<Rightarrow> dispatch_env \<Rightarrow> transition \<Rightarrow> message \<Rightarrow> string \<Rightarrow> 's batch \<Rightarrow> 's batch" where
  "defer_send Q E tr msg uid b0 =
     (let (t, b) = read_clock E b0
      in case no_enqueue Q (deferred_row tr msg t uid) (ba_store b) of
           None \<Rightarrow> b
         | Some s \<Rightarrow> record_status Q E msg DeliveryDeferred uid (b\<lparr>ba_store := s\<rparr>))"

definition fan_out :: "channel list \<Rightarrow> message \<Rightarrow> string \<Rightarrow> 's batch \<Rightarrow> 's batch" where
  "fan_out cs msg uid b = b\<lparr>ba_jobs := ba_jobs b @ map (\<lambda>c. (c, msg, uid)) cs\<rparr>"

definition targets_for :: "routing \<Rightarrow> channel list \<Rightarrow> channel list" where
  "targets_for r enabled =
     (if rt_mode r \<noteq> route_selected then enabled
      else List.map_filter (map_of (rev (map (\<lambda>c. (ch_id c, c)) enabled))) (rt_channels r))"

definition routed_targets :: "'s notify_ops \<Rightarrow> string \<Rightarrow> channel list \<Rightarrow> 's batch \<Rightarrow> channel list \<times> 's batch" where
  "routed_targets Q r enabled b =
     (case map_of (ba_routes b) r of
        Some rt \<Rightarrow> (targets_for rt enabled, b)
      | None \<Rightarrow>
          (let rt = (case no_routing Q r (ba_store b) of
                       None \<Rightarrow> \<lparr>rt_rule = [], rt_mode = route_all, rt_channels = []\<rparr> | Some rt \<Rightarrow> rt)
           in (targets_for rt enabled, b\<lparr>ba_routes := (r, rt) # ba_routes b\<rparr>)))"

definition user_policy :: "'s notify_ops \<Rightarrow> string \<Rightarrow> 's batch \<Rightarrow> policy \<times> 's batch" where
  "user_policy Q u b =
     (case map_of (ba_policies b) u of
        Some p \<Rightarrow> (p, b)
      | None \<Rightarrow> (let p = (case no_user_policy Q u (ba_store b) of None \<Rightarrow> default_policy | Some p \<Rightarrow> p)
                 in (p, b\<lparr>ba_policies := (u, p) # ba_policies b\<rparr>)))"

definition user_channels :: "'s notify_ops \<Rightarrow> string \<Rightarrow> 's batch \<Rightarrow> channel list \<times> 's batch" where
  "user_channels Q u b =
     (case map_of (ba_chans b) u of
        Some cs \<Rightarrow> (cs, b)
      | None \<Rightarrow> (let cs = (case no_user_channels Q u (ba_store b) of None \<Rightarrow> [] | Some cs \<Rightarrow> cs)
                 in (cs, b\<lparr>ba_chans := (u, cs) # ba_chans b\<rparr>)))"

section \<open>Emit\<close>

definition send_routed :: "'s notify_ops \<Rightarrow> channel list \<Rightarrow> transition \<Rightarrow> message \<Rightarrow> 's batch \<Rightarrow> 's batch" where
  "send_routed Q enabled tr msg b =
     (let (cs, b1) = routed_targets Q (ru_id (tr_rule tr)) enabled b in fan_out cs msg [] b1)"

definition emit_shared :: "'s notify_ops \<Rightarrow> dispatch_env \<Rightarrow> policy \<Rightarrow> bool \<Rightarrow> channel list \<Rightarrow> transition \<Rightarrow> message
    \<Rightarrow> 's batch \<Rightarrow> 's batch" where
  "emit_shared Q E p quiet enabled tr msg b =
     (let m = mode_for p (ri_severity (ru_input (tr_rule tr)))
      in if m = mode_dashboard then record_status Q E msg DeliverySuppressed [] b
         else if m = mode_quiet then
           (if quiet then defer_send Q E tr msg [] b else send_routed Q enabled tr msg b)
         else if m = mode_always then send_routed Q enabled tr msg b
         else b)"

definition emit_personal :: "'s notify_ops \<Rightarrow> dispatch_env \<Rightarrow> int \<Rightarrow> transition \<Rightarrow> message \<Rightarrow> string \<Rightarrow> 's batch \<Rightarrow> 's batch" where
  "emit_personal Q E now tr msg u b0 =
     (let (p, b) = user_policy Q u b0; m = mode_for p (ri_severity (ru_input (tr_rule tr)))
      in if m = mode_dashboard then record_status Q E msg DeliverySuppressed u b
         else if m = mode_quiet \<and> in_quiet_hours (de_zone E) p now then defer_send Q E tr msg u b
         else (let (cs, b1) = user_channels Q u b in fan_out cs msg u b1))"

definition dispatch_personal :: "'s notify_ops \<Rightarrow> dispatch_env \<Rightarrow> int \<Rightarrow> transition \<Rightarrow> message \<Rightarrow> 's batch \<Rightarrow> 's batch" where
  "dispatch_personal Q E now tr msg b =
     (case de_subs E of
        None \<Rightarrow> b
      | Some resolver \<Rightarrow>
          (case resolver (tr_system tr) (ri_severity (ru_input (tr_rule tr))) of
             None \<Rightarrow> b
           | Some uids \<Rightarrow> fold (emit_personal Q E now tr msg) uids b))"

definition emit_one :: "'s notify_ops \<Rightarrow> dispatch_env \<Rightarrow> policy \<Rightarrow> int \<Rightarrow> channel list \<Rightarrow> transition \<Rightarrow> 's batch \<Rightarrow> 's batch" where
  "emit_one Q E p now enabled tr b =
     (let msg = render_message E tr
      in dispatch_personal Q E now tr msg (emit_shared Q E p (in_quiet_hours (de_zone E) p now) enabled tr msg b))"

definition emit :: "'s notify_ops \<Rightarrow> dispatch_env \<Rightarrow> transition list \<Rightarrow> 's \<Rightarrow> 's batch" where
  "emit Q E trs s =
     (case no_enabled Q s of
        None \<Rightarrow> new_batch s
      | Some enabled \<Rightarrow>
          (let p = (case no_policy Q s of None \<Rightarrow> default_policy | Some p \<Rightarrow> p);
               (now, b) = read_clock E (new_batch s)
           in fold (emit_one Q E p now enabled) trs b))"

section \<open>The flusher\<close>

type_synonym group_key = "string \<times> string \<times> string"

definition pending_key :: "pending \<Rightarrow> group_key" where
  "pending_key p = (pe_user p, pe_rule p, pe_system p)"

text \<open>The groups in the order of their first row, each with its rows in order.\<close>

fun add_pending :: "pending \<Rightarrow> (group_key \<times> pending list) list \<Rightarrow> (group_key \<times> pending list) list" where
  "add_pending p [] = [(pending_key p, [p])]"
| "add_pending p ((k, ps) # gs) = (if k = pending_key p then (k, ps @ [p]) # gs else (k, ps) # add_pending p gs)"

definition pending_groups :: "pending list \<Rightarrow> (group_key \<times> pending list) list" where
  "pending_groups ps = fold add_pending ps []"

definition collapses :: "pending list \<Rightarrow> bool" where
  "collapses items = (list_ex (\<lambda>p. pe_kind p = ''fired'') items \<and> list_ex (\<lambda>p. pe_kind p = ''resolved'') items)"

definition governing :: "'s notify_ops \<Rightarrow> string \<Rightarrow> 's batch \<Rightarrow> policy \<times> 's batch" where
  "governing Q u b =
     (case map_of (ba_policies b) u of
        Some p \<Rightarrow> (p, b)
      | None \<Rightarrow>
          (let p = (case (if u = [] then no_policy Q (ba_store b) else no_user_policy Q u (ba_store b)) of
                      None \<Rightarrow> default_policy | Some p \<Rightarrow> p)
           in (p, b\<lparr>ba_policies := (u, p) # ba_policies b\<rparr>)))"

text \<open>
  One group: left in place while its owner is quiet, otherwise processed; its last row is
  sent unless the group collapses. The set of enabled channels is read once, by the first
  shared group that sends.
\<close>

definition flush_group :: "'s notify_ops \<Rightarrow> dispatch_env \<Rightarrow> int \<Rightarrow> group_key \<times> pending list
    \<Rightarrow> channel list option \<times> string list \<times> 's batch \<Rightarrow> channel list option \<times> string list \<times> 's batch" where
  "flush_group Q E now g acc =
     (case acc of (shared, processed, b0) \<Rightarrow>
      (let u = fst (fst g); items = snd g; (p, b) = governing Q u b0
       in if in_quiet_hours (de_zone E) p now then (shared, processed, b)
          else
            (let processed' = processed @ map pe_id items
             in if collapses items then (shared, processed', b)
                else if u = [] then
                  (let enabled = (case shared of Some cs \<Rightarrow> cs
                                  | None \<Rightarrow> (case no_enabled Q (ba_store b) of None \<Rightarrow> [] | Some cs \<Rightarrow> cs));
                       (cs, b1) = routed_targets Q (pe_rule (last items)) enabled b
                   in (Some enabled, processed', fan_out cs (pe_message (last items)) [] b1))
                else
                  (let (cs, b1) = user_channels Q u b
                   in (shared, processed', fan_out cs (pe_message (last items)) u b1)))))"

definition flush_pending :: "'s notify_ops \<Rightarrow> dispatch_env \<Rightarrow> 's \<Rightarrow> 's batch" where
  "flush_pending Q E s =
     (case no_pending Q s of
        None \<Rightarrow> new_batch s
      | Some ps \<Rightarrow>
          if ps = [] then new_batch s
          else
            (let (now, b0) = read_clock E (new_batch s);
                 (shared, processed, b) = fold (flush_group Q E now) (pending_groups ps) (None, [], b0)
             in case no_delete Q processed (ba_store b) of None \<Rightarrow> b | Some s' \<Rightarrow> b\<lparr>ba_store := s'\<rparr>))"

section \<open>Delivering\<close>

text \<open>
  \<open>S\<close> maps a channel type to its sender, which answers the error of the send, if any;
  \<open>W\<close> opens a sealed secret (\<open>None\<close>: no vault).
\<close>

type_synonym sender = "channel \<Rightarrow> string \<Rightarrow> message \<Rightarrow> string option"

definition send_one :: "(string \<Rightarrow> sender option) \<Rightarrow> (sealed \<Rightarrow> (string, string) result) option \<Rightarrow> channel \<Rightarrow> message
    \<Rightarrow> string option" where
  "send_one S W c msg =
     (case S (ch_type c) of
        None \<Rightarrow> Some (''no sender for channel type '' @ ch_type c)
      | Some send \<Rightarrow>
          if sealed_is_zero (ch_secret c) then send c [] msg
          else
            (case W of
               None \<Rightarrow> Some ''channel secret unavailable (no vault configured)''
             | Some unseal \<Rightarrow>
                 (case unseal (ch_secret c) of
                    Inl e \<Rightarrow> Some (''decrypt channel secret: '' @ e)
                  | Inr secret \<Rightarrow> send c secret msg)))"

definition outcome_row :: "channel \<Rightarrow> string \<Rightarrow> string \<Rightarrow> string \<Rightarrow> string option \<Rightarrow> int \<Rightarrow> string \<Rightarrow> delivery" where
  "outcome_row c kind rule sys err t uid =
     \<lparr>dl_id = [], dl_channel = ch_id c, dl_channel_name = ch_name c, dl_channel_type = ch_type c, dl_kind = kind,
      dl_rule = rule, dl_system = sys, dl_status = (case err of None \<Rightarrow> DeliverySuccess | Some _ \<Rightarrow> DeliveryFailed),
      dl_error = (case err of None \<Rightarrow> [] | Some e \<Rightarrow> e), dl_at = t, dl_user = uid\<rparr>"

definition deliver :: "'s notify_ops \<Rightarrow> (string \<Rightarrow> sender option) \<Rightarrow> (sealed \<Rightarrow> (string, string) result) option \<Rightarrow> int \<Rightarrow> job
    \<Rightarrow> 's \<Rightarrow> 's" where
  "deliver Q S W t j s =
     (case j of (c, msg, uid) \<Rightarrow>
        (case no_record Q (outcome_row c (ms_kind msg) (ms_rule msg) (ms_system msg) (send_one S W c msg) t uid) s of
           None \<Rightarrow> s | Some s' \<Rightarrow> s'))"

definition test_message :: "channel \<Rightarrow> int \<Rightarrow> message" where
  "test_message c t = \<lparr>ms_subject = ''[TEST] System Wrangler notification: '' @ ch_name c,
     ms_body = ''This is a test notification from System Wrangler. If you received it, the channel is configured correctly.'',
     ms_kind = ''test'', ms_rule = ''(test)'', ms_severity = ''info'', ms_system = [], ms_system_name = [], ms_value = Fin 0,
     ms_at = t\<rparr>"

definition run_test :: "'s notify_ops \<Rightarrow> (string \<Rightarrow> sender option) \<Rightarrow> (sealed \<Rightarrow> (string, string) result) option \<Rightarrow> int
    \<Rightarrow> channel \<Rightarrow> string \<Rightarrow> 's \<Rightarrow> string option \<times> 's" where
  "run_test Q S W t c uid s =
     (let err = send_one S W c (test_message c t)
      in (err, case no_record Q (outcome_row c ''test'' ''(test)'' [] err t uid) s of None \<Rightarrow> s | Some s' \<Rightarrow> s'))"

subsection \<open>The e-mail\<close>

definition sanitize_header :: "string \<Rightarrow> string" where
  "sanitize_header v = filter (\<lambda>c. c \<noteq> CHR 0x0D \<and> c \<noteq> CHR 0x0A) v"

definition crlf :: string where "crlf = [CHR 0x0D, CHR 0x0A]"

definition replace_newlines :: "string \<Rightarrow> string" where
  "replace_newlines s = concat (map (\<lambda>c. if c = CHR 0x0A then crlf else [c]) s)"

definition build_email :: "string \<Rightarrow> string list \<Rightarrow> string \<Rightarrow> string \<Rightarrow> string" where
  "build_email from to subject body =
     ''From: '' @ sanitize_header from @ crlf
     @ ''To: '' @ join '', '' (map sanitize_header to) @ crlf
     @ ''Subject: '' @ sanitize_header subject @ crlf
     @ ''MIME-Version: 1.0'' @ crlf
     @ ''Content-Type: text/plain; charset=utf-8'' @ crlf
     @ crlf
     @ replace_newlines body"

section \<open>The wiring\<close>

text \<open>The store of the server behind the interface; \<open>G\<close> draws the ids of new rows.\<close>

definition sql_notify_ops :: "('a notify_db_scheme \<Rightarrow> string) \<Rightarrow> 'a notify_db_scheme notify_ops" where
  "sql_notify_ops G = \<lparr>no_enabled = (\<lambda>db. Some (list_enabled_channels db)), no_policy = (\<lambda>db. Some (get_policy db)),
     no_routing = (\<lambda>r db. Some (get_routing r db)), no_user_policy = (\<lambda>u db. Some (get_user_policy u db)),
     no_user_channels = (\<lambda>u db. Some (list_enabled_user_channels u db)),
     no_record = (\<lambda>d db. case record_delivery (G db) d db of Inl _ \<Rightarrow> None | Inr x \<Rightarrow> Some x),
     no_enqueue = (\<lambda>p db. case enqueue_pending (G db) p db of Inl _ \<Rightarrow> None | Inr x \<Rightarrow> Some x),
     no_pending = (\<lambda>db. Some (list_pending db)), no_delete = (\<lambda>ids db. Some (delete_pending ids db))\<rparr>"

text \<open>\<open>rs u\<close> are the rows \<open>Scoper.Resolve\<close> finds for a user.\<close>

definition subscriber_resolver :: "inventory \<Rightarrow> (string \<Rightarrow> assignment list) \<Rightarrow> 'a notify_db_scheme \<Rightarrow> string \<Rightarrow> string
    \<Rightarrow> string list option" where
  "subscriber_resolver fleet rs db sid sev =
     (case get_system sid fleet of
        None \<Rightarrow> None
      | Some sys \<Rightarrow>
          Some (map fst (filter (\<lambda>us. sub_matches (snd us) (case sys_group sys of None \<Rightarrow> [] | Some g \<Rightarrow> g) sev
                    \<and> can_read_system (new_scope (fst us) (rs (fst us))) (sys_group sys))
             (list_subscriptions db))))"

end
