(* ===== verification/DispatchProps.thy ===== *)
theory DispatchProps
  imports Dispatch
begin

text \<open>
  What a batch and a flush send, defer and drop. The locale \<open>notify_store\<close> states what
  the dispatcher relies on from the store: writing the log or the queue changes no channel,
  policy or routing. Under it the caches of a batch are unobservable, and what is sent is a
  function of the tables the batch starts from. The SQL store is the interpretation.
\<close>

section \<open>Reading the store\<close>

definition same_reads :: "'s notify_ops \<Rightarrow> 's \<Rightarrow> 's \<Rightarrow> bool" where
  "same_reads Q s t \<longleftrightarrow> no_enabled Q s = no_enabled Q t \<and> no_policy Q s = no_policy Q t
     \<and> (\<forall>r. no_routing Q r s = no_routing Q r t) \<and> (\<forall>u. no_user_policy Q u s = no_user_policy Q u t)
     \<and> (\<forall>u. no_user_channels Q u s = no_user_channels Q u t)"

definition routing_in :: "'s notify_ops \<Rightarrow> 's \<Rightarrow> string \<Rightarrow> routing" where
  "routing_in Q s r = (case no_routing Q r s of None \<Rightarrow> \<lparr>rt_rule = [], rt_mode = route_all, rt_channels = []\<rparr> | Some rt \<Rightarrow> rt)"

definition policy_in :: "'s notify_ops \<Rightarrow> 's \<Rightarrow> string \<Rightarrow> policy" where
  "policy_in Q s u = (case (if u = [] then no_policy Q s else no_user_policy Q u s) of None \<Rightarrow> default_policy | Some p \<Rightarrow> p)"

definition user_policy_in :: "'s notify_ops \<Rightarrow> 's \<Rightarrow> string \<Rightarrow> policy" where
  "user_policy_in Q s u = (case no_user_policy Q u s of None \<Rightarrow> default_policy | Some p \<Rightarrow> p)"

definition channels_in :: "'s notify_ops \<Rightarrow> 's \<Rightarrow> string \<Rightarrow> channel list" where
  "channels_in Q s u = (case no_user_channels Q u s of None \<Rightarrow> [] | Some cs \<Rightarrow> cs)"

definition enabled_in :: "'s notify_ops \<Rightarrow> 's \<Rightarrow> channel list" where
  "enabled_in Q s = (case no_enabled Q s of None \<Rightarrow> [] | Some cs \<Rightarrow> cs)"

lemma same_reads_refl [simp]: "same_reads Q s s"
  by (simp add: same_reads_def)

lemma same_reads_trans: "same_reads Q s t \<Longrightarrow> same_reads Q t u \<Longrightarrow> same_reads Q s u"
  by (simp add: same_reads_def)

text \<open>The batch works on a store that reads like \<open>s\<close>, with caches that hold what \<open>s\<close> says.\<close>

definition batch_at :: "'s notify_ops \<Rightarrow> (string \<Rightarrow> policy) \<Rightarrow> 's \<Rightarrow> 's batch \<Rightarrow> bool" where
  "batch_at Q pol s b \<longleftrightarrow> same_reads Q s (ba_store b)
     \<and> (\<forall>r rt. map_of (ba_routes b) r = Some rt \<longrightarrow> rt = routing_in Q s r)
     \<and> (\<forall>u p. map_of (ba_policies b) u = Some p \<longrightarrow> p = pol u)
     \<and> (\<forall>u cs. map_of (ba_chans b) u = Some cs \<longrightarrow> cs = channels_in Q s u)"

lemma batch_at_new [simp]: "batch_at Q pol s (new_batch s)"
  by (simp add: batch_at_def new_batch_def)

lemma batch_at_clock [simp]: "batch_at Q pol s (b\<lparr>ba_reads := n\<rparr>) = batch_at Q pol s b"
  by (simp add: batch_at_def)

lemma batch_at_jobs [simp]: "batch_at Q pol s (b\<lparr>ba_jobs := js\<rparr>) = batch_at Q pol s b"
  by (simp add: batch_at_def)

lemma batch_at_store: "batch_at Q pol s b \<Longrightarrow> same_reads Q (ba_store b) t \<Longrightarrow> batch_at Q pol s (b\<lparr>ba_store := t\<rparr>)"
  by (auto simp: batch_at_def intro: same_reads_trans)

lemma routed_targets_at:
  assumes "batch_at Q pol s b" and "routed_targets Q r en b = (cs, b')"
  shows "cs = targets_for (routing_in Q s r) en \<and> batch_at Q pol s b' \<and> ba_jobs b' = ba_jobs b \<and> ba_store b' = ba_store b"
proof -
  have fresh: "(case no_routing Q r (ba_store b) of None \<Rightarrow> \<lparr>rt_rule = [], rt_mode = route_all, rt_channels = []\<rparr> | Some rt \<Rightarrow> rt) = routing_in Q s r"
    using assms(1) by (simp add: batch_at_def same_reads_def routing_in_def)
  show ?thesis
  proof (cases "map_of (ba_routes b) r")
    case None
    then show ?thesis using assms by (auto simp: routed_targets_def Let_def fresh batch_at_def split: if_splits)
  next
    case (Some x)
    then have "x = routing_in Q s r" using assms(1) by (simp add: batch_at_def)
    then show ?thesis using assms Some by (simp add: routed_targets_def)
  qed
qed

lemma user_policy_at:
  assumes "batch_at Q (user_policy_in Q s) s b" and "user_policy Q u b = (p, b')"
  shows "p = user_policy_in Q s u \<and> batch_at Q (user_policy_in Q s) s b' \<and> ba_jobs b' = ba_jobs b \<and> ba_store b' = ba_store b"
proof -
  have fresh: "(case no_user_policy Q u (ba_store b) of None \<Rightarrow> default_policy | Some p \<Rightarrow> p) = user_policy_in Q s u"
    using assms(1) by (simp add: batch_at_def same_reads_def user_policy_in_def)
  show ?thesis
  proof (cases "map_of (ba_policies b) u")
    case None
    then show ?thesis using assms by (auto simp: user_policy_def Let_def fresh batch_at_def split: if_splits)
  next
    case (Some x)
    then have "x = user_policy_in Q s u" using assms(1) by (simp add: batch_at_def)
    then show ?thesis using assms Some by (simp add: user_policy_def)
  qed
qed

lemma user_channels_at:
  assumes "batch_at Q pol s b" and "user_channels Q u b = (cs, b')"
  shows "cs = channels_in Q s u \<and> batch_at Q pol s b' \<and> ba_jobs b' = ba_jobs b \<and> ba_store b' = ba_store b"
proof -
  have fresh: "(case no_user_channels Q u (ba_store b) of None \<Rightarrow> [] | Some cs \<Rightarrow> cs) = channels_in Q s u"
    using assms(1) by (simp add: batch_at_def same_reads_def channels_in_def)
  show ?thesis
  proof (cases "map_of (ba_chans b) u")
    case None
    then show ?thesis using assms by (auto simp: user_channels_def Let_def fresh batch_at_def split: if_splits)
  next
    case (Some x)
    then have "x = channels_in Q s u" using assms(1) by (simp add: batch_at_def)
    then show ?thesis using assms Some by (simp add: user_channels_def)
  qed
qed

lemma governing_at:
  assumes "batch_at Q (policy_in Q s) s b" and "governing Q u b = (p, b')"
  shows "p = policy_in Q s u \<and> batch_at Q (policy_in Q s) s b' \<and> ba_jobs b' = ba_jobs b \<and> ba_store b' = ba_store b"
proof -
  have fresh: "(case (if u = [] then no_policy Q (ba_store b) else no_user_policy Q u (ba_store b)) of None \<Rightarrow> default_policy | Some p \<Rightarrow> p) = policy_in Q s u"
    using assms(1) by (simp add: batch_at_def same_reads_def policy_in_def)
  show ?thesis
  proof (cases "map_of (ba_policies b) u")
    case None
    then show ?thesis using assms by (auto simp: governing_def Let_def fresh batch_at_def split: if_splits)
  next
    case (Some x)
    then have "x = policy_in Q s u" using assms(1) by (simp add: batch_at_def)
    then show ?thesis using assms Some by (simp add: governing_def)
  qed
qed

section \<open>What a batch sends\<close>

definition goes_out :: "zone_db \<Rightarrow> policy \<Rightarrow> int \<Rightarrow> string \<Rightarrow> bool" where
  "goes_out Z p now sev \<longleftrightarrow> mode_for p sev = mode_always \<or> mode_for p sev = mode_quiet \<and> \<not> in_quiet_hours Z p now"

definition is_deferred :: "zone_db \<Rightarrow> policy \<Rightarrow> int \<Rightarrow> string \<Rightarrow> bool" where
  "is_deferred Z p now sev \<longleftrightarrow> mode_for p sev = mode_quiet \<and> in_quiet_hours Z p now"

abbreviation severity_of :: "transition \<Rightarrow> string" where
  "severity_of tr \<equiv> ri_severity (ru_input (tr_rule tr))"

definition subscribers_of :: "dispatch_env \<Rightarrow> transition \<Rightarrow> string list" where
  "subscribers_of E tr = (case de_subs E of None \<Rightarrow> [] | Some R \<Rightarrow>
     (case R (tr_system tr) (severity_of tr) of None \<Rightarrow> [] | Some us \<Rightarrow> us))"

definition shared_jobs :: "'s notify_ops \<Rightarrow> dispatch_env \<Rightarrow> policy \<Rightarrow> int \<Rightarrow> channel list \<Rightarrow> 's \<Rightarrow> transition \<Rightarrow> job list" where
  "shared_jobs Q E p now en s tr =
     (if goes_out (de_zone E) p now (severity_of tr)
      then map (\<lambda>c. (c, render_message E tr, [])) (targets_for (routing_in Q s (ru_id (tr_rule tr))) en) else [])"

definition personal_jobs :: "'s notify_ops \<Rightarrow> dispatch_env \<Rightarrow> int \<Rightarrow> 's \<Rightarrow> transition \<Rightarrow> string \<Rightarrow> job list" where
  "personal_jobs Q E now s tr u =
     (if goes_out (de_zone E) (user_policy_in Q s u) now (severity_of tr)
      then map (\<lambda>c. (c, render_message E tr, u)) (channels_in Q s u) else [])"

definition one_jobs :: "'s notify_ops \<Rightarrow> dispatch_env \<Rightarrow> policy \<Rightarrow> int \<Rightarrow> channel list \<Rightarrow> 's \<Rightarrow> transition \<Rightarrow> job list" where
  "one_jobs Q E p now en s tr =
     shared_jobs Q E p now en s tr @ concat (map (personal_jobs Q E now s tr) (subscribers_of E tr))"

lemma mode_cases:
  "mode_for p sev = mode_dashboard \<or> mode_for p sev = mode_quiet \<or> mode_for p sev = mode_always"
  using mode_for_valid by (simp add: mode_valid_def)

lemma modes_distinct [simp]:
  "mode_dashboard \<noteq> mode_quiet" "mode_quiet \<noteq> mode_dashboard" "mode_dashboard \<noteq> mode_always"
  "mode_always \<noteq> mode_dashboard" "mode_quiet \<noteq> mode_always" "mode_always \<noteq> mode_quiet"
  by (simp_all add: delivery_modes)

locale notify_store =
  fixes Q :: "'s notify_ops"
  assumes record_reads: "no_record Q d s = Some t \<Longrightarrow> same_reads Q s t"
    and enqueue_reads: "no_enqueue Q p s = Some t \<Longrightarrow> same_reads Q s t"
begin

lemma record_status_at:
  "batch_at Q pol s b \<Longrightarrow> batch_at Q pol s (record_status Q E msg st u b)
     \<and> ba_jobs (record_status Q E msg st u b) = ba_jobs b"
  unfolding record_status_def read_clock_def
  by (auto simp: Let_def split: option.splits intro!: batch_at_store dest: record_reads)

lemma defer_send_at:
  assumes "batch_at Q pol s b"
  shows "batch_at Q pol s (defer_send Q E tr msg u b) \<and> ba_jobs (defer_send Q E tr msg u b) = ba_jobs b"
proof (cases "no_enqueue Q (deferred_row tr msg (de_clock E (ba_reads b)) u) (ba_store b)")
  case (Some t)
  have "batch_at Q pol s (b\<lparr>ba_reads := Suc (ba_reads b), ba_store := t\<rparr>)"
    using batch_at_store [of Q pol s "b\<lparr>ba_reads := Suc (ba_reads b)\<rparr>" t] assms enqueue_reads [OF Some] by simp
  from record_status_at [OF this] show ?thesis by (simp add: defer_send_def read_clock_def Some)
qed (use assms in \<open>simp add: defer_send_def read_clock_def\<close>)

lemma send_routed_at:
  assumes "batch_at Q pol s b"
  shows "batch_at Q pol s (send_routed Q en tr msg b) \<and> ba_jobs (send_routed Q en tr msg b) =
    ba_jobs b @ map (\<lambda>c. (c, msg, [])) (targets_for (routing_in Q s (ru_id (tr_rule tr))) en)"
proof -
  obtain cs b1 where r: "routed_targets Q (ru_id (tr_rule tr)) en b = (cs, b1)"
    by (cases "routed_targets Q (ru_id (tr_rule tr)) en b")
  show ?thesis using routed_targets_at [OF assms r] by (simp add: send_routed_def r fan_out_def)
qed

lemma emit_shared_at:
  assumes "batch_at Q pol s b"
  shows "batch_at Q pol s (emit_shared Q E p (in_quiet_hours (de_zone E) p now) en tr (render_message E tr) b)
    \<and> ba_jobs (emit_shared Q E p (in_quiet_hours (de_zone E) p now) en tr (render_message E tr) b)
        = ba_jobs b @ shared_jobs Q E p now en s tr"
  using mode_cases [of p "severity_of tr"] record_status_at [OF assms] defer_send_at [OF assms] send_routed_at [OF assms]
  by (auto simp: emit_shared_def shared_jobs_def goes_out_def Let_def)

lemma emit_personal_at:
  assumes "batch_at Q (user_policy_in Q s) s b"
  shows "batch_at Q (user_policy_in Q s) s (emit_personal Q E now tr (render_message E tr) u b)
    \<and> ba_jobs (emit_personal Q E now tr (render_message E tr) u b) = ba_jobs b @ personal_jobs Q E now s tr u"
proof -
  obtain p b1 where p: "user_policy Q u b = (p, b1)" by (cases "user_policy Q u b")
  note at = user_policy_at [OF assms p]
  then have b1: "batch_at Q (user_policy_in Q s) s b1" by blast
  obtain cs b2 where c: "user_channels Q u b1 = (cs, b2)" by (cases "user_channels Q u b1")
  note cat = user_channels_at [OF b1 c]
  show ?thesis
    using mode_cases [of p "severity_of tr"] at cat record_status_at [OF b1] defer_send_at [OF b1]
    by (auto simp: emit_personal_def p c personal_jobs_def goes_out_def Let_def fan_out_def)
qed

lemma fold_personal_at:
  "batch_at Q (user_policy_in Q s) s b \<Longrightarrow>
    batch_at Q (user_policy_in Q s) s (fold (emit_personal Q E now tr (render_message E tr)) us b)
    \<and> ba_jobs (fold (emit_personal Q E now tr (render_message E tr)) us b)
        = ba_jobs b @ concat (map (personal_jobs Q E now s tr) us)"
  by (induction us arbitrary: b) (simp_all add: emit_personal_at)

lemma emit_one_at:
  assumes "batch_at Q (user_policy_in Q s) s b"
  shows "batch_at Q (user_policy_in Q s) s (emit_one Q E p now en tr b)
    \<and> ba_jobs (emit_one Q E p now en tr b) = ba_jobs b @ one_jobs Q E p now en s tr"
proof -
  note es = emit_shared_at [OF assms, of E p now en tr]
  note fp = fold_personal_at [OF es [THEN conjunct1], of E now tr "subscribers_of E tr"]
  have "emit_one Q E p now en tr b = fold (emit_personal Q E now tr (render_message E tr)) (subscribers_of E tr)
      (emit_shared Q E p (in_quiet_hours (de_zone E) p now) en tr (render_message E tr) b)"
    by (simp add: emit_one_def dispatch_personal_def subscribers_of_def Let_def split: option.split)
  then show ?thesis using es fp by (simp add: one_jobs_def)
qed

lemma fold_emit_one_at:
  "batch_at Q (user_policy_in Q s) s b \<Longrightarrow>
    batch_at Q (user_policy_in Q s) s (fold (emit_one Q E p now en) trs b)
    \<and> ba_jobs (fold (emit_one Q E p now en) trs b) = ba_jobs b @ concat (map (one_jobs Q E p now en s) trs)"
  by (induction trs arbitrary: b) (simp_all add: emit_one_at)

text \<open>What a batch sends: a function of the tables it starts from.\<close>

lemma emit_jobs:
  "ba_jobs (emit Q E trs s) =
    (case no_enabled Q s of None \<Rightarrow> []
     | Some en \<Rightarrow> concat (map (one_jobs Q E (policy_in Q s []) (de_clock E 0) en s) trs))"
  using fold_emit_one_at [of s "new_batch s\<lparr>ba_reads := Suc 0\<rparr>" E]
  by (auto simp: emit_def read_clock_def policy_in_def new_batch_def batch_at_def split: option.splits)

end

lemma get_routing_log [simp]:
  "get_routing r (db\<lparr>nd_deliveries := x\<rparr>) = get_routing r db" "get_routing r (db\<lparr>nd_pending := y\<rparr>) = get_routing r db"
  by (simp_all add: get_routing_def route_channel_ids_def cong: if_cong option.case_cong)

lemma sql_notify_simps [simp]:
  "no_enabled (sql_notify_ops G) db = Some (list_enabled_channels db)"
  "no_policy (sql_notify_ops G) db = Some (get_policy db)"
  "no_routing (sql_notify_ops G) r db = Some (get_routing r db)"
  "no_user_policy (sql_notify_ops G) u db = Some (get_user_policy u db)"
  "no_user_channels (sql_notify_ops G) u db = Some (list_enabled_user_channels u db)"
  "no_pending (sql_notify_ops G) db = Some (list_pending db)"
  "no_delete (sql_notify_ops G) ids db = Some (delete_pending ids db)"
  "no_record (sql_notify_ops G) d db = (case record_delivery (G db) d db of Inl _ \<Rightarrow> None | Inr x \<Rightarrow> Some x)"
  "no_enqueue (sql_notify_ops G) p db = (case enqueue_pending (G db) p db of Inl _ \<Rightarrow> None | Inr x \<Rightarrow> Some x)"
  by (simp_all add: sql_notify_ops_def)

lemma sql_same_reads [simp]:
  "same_reads (sql_notify_ops G) db (db\<lparr>nd_deliveries := x\<rparr>)" "same_reads (sql_notify_ops G) db (db\<lparr>nd_pending := y\<rparr>)"
  by (simp_all add: same_reads_def list_enabled_channels_def get_policy_def get_user_policy_def list_enabled_user_channels_def)

section \<open>What a flush sends and removes\<close>

lemma pending_groups_correct:
  "distinct (map fst (pending_groups ps)) \<and>
   (\<forall>k items. (k, items) \<in> set (pending_groups ps) \<longleftrightarrow> items = filter (\<lambda>p. pending_key p = k) ps \<and> items \<noteq> [])"
proof -
  have add_fst: "fst ` set (add_pending p gs) = insert (pending_key p) (fst ` set gs)" for p gs
    by (induction p gs rule: add_pending.induct) auto
  have add_distinct: "distinct (map fst gs) \<Longrightarrow> distinct (map fst (add_pending p gs))" for p gs
    by (induction p gs rule: add_pending.induct) (simp_all add: add_fst, blast)
  have add_map: "distinct (map fst gs) \<Longrightarrow> map_of (add_pending p gs) =
      (map_of gs)(pending_key p \<mapsto> (case map_of gs (pending_key p) of None \<Rightarrow> [] | Some items \<Rightarrow> items) @ [p])" for p gs
  proof (induction p gs rule: add_pending.induct)
    case (2 p k ps gs)
    then have "k = pending_key p \<Longrightarrow> map_of gs (pending_key p) = None" by (simp add: map_of_eq_None_iff)
    with 2 show ?case by (cases "k = pending_key p") (simp_all add: fun_upd_def cong: if_cong, rule ext, simp)
  qed simp
  have inv: "distinct (map fst (pending_groups ps)) \<and> (\<forall>k. map_of (pending_groups ps) k =
      (let items = filter (\<lambda>p. pending_key p = k) ps in if items = [] then None else Some items))"
  proof (induction ps rule: rev_induct)
    case (snoc p ps)
    have "pending_groups (ps @ [p]) = add_pending p (pending_groups ps)" by (simp add: pending_groups_def)
    moreover have d: "distinct (map fst (pending_groups ps))"
      and m: "map_of (pending_groups ps) k = (if filter (\<lambda>p. pending_key p = k) ps = [] then None
        else Some (filter (\<lambda>p. pending_key p = k) ps))" for k
      using snoc unfolding Let_def by blast+
    moreover have "map_of (add_pending p (pending_groups ps)) k = (let items = filter (\<lambda>p. pending_key p = k) (ps @ [p])
        in if items = [] then None else Some items)" for k
      by (cases "k = pending_key p") (simp_all add: add_map d m)
    ultimately show ?case by (simp add: add_distinct)
  qed (simp add: pending_groups_def)
  then have d: "distinct (map fst (pending_groups ps))" by blast
  have "(k, items) \<in> set (pending_groups ps) \<longleftrightarrow> items = filter (\<lambda>p. pending_key p = k) ps \<and> items \<noteq> []" for k items
  proof -
    have "(k, items) \<in> set (pending_groups ps) \<longleftrightarrow> map_of (pending_groups ps) k = Some items"
      using d by (simp add: map_of_eq_Some_iff)
    also have "map_of (pending_groups ps) k = (let items = filter (\<lambda>p. pending_key p = k) ps in
        if items = [] then None else Some items)" using inv by blast
    finally show ?thesis by (auto simp: Let_def)
  qed
  with d show ?thesis by blast
qed

lemma in_pending_groups:
  "(k, items) \<in> set (pending_groups ps) \<longleftrightarrow> items = filter (\<lambda>p. pending_key p = k) ps \<and> items \<noteq> []"
  using pending_groups_correct by blast

definition flushable :: "'s notify_ops \<Rightarrow> dispatch_env \<Rightarrow> 's \<Rightarrow> int \<Rightarrow> string \<Rightarrow> bool" where
  "flushable Q E s now u \<longleftrightarrow> \<not> in_quiet_hours (de_zone E) (policy_in Q s u) now"

definition flush_targets :: "'s notify_ops \<Rightarrow> 's \<Rightarrow> string \<Rightarrow> string \<Rightarrow> channel list" where
  "flush_targets Q s u r = (if u = [] then targets_for (routing_in Q s r) (enabled_in Q s) else channels_in Q s u)"

definition group_jobs :: "'s notify_ops \<Rightarrow> dispatch_env \<Rightarrow> 's \<Rightarrow> int \<Rightarrow> group_key \<times> pending list \<Rightarrow> job list" where
  "group_jobs Q E s now g =
     (if flushable Q E s now (fst (fst g)) \<and> \<not> collapses (snd g)
      then map (\<lambda>c. (c, pe_message (last (snd g)), fst (fst g))) (flush_targets Q s (fst (fst g)) (pe_rule (last (snd g))))
      else [])"

definition group_processed :: "'s notify_ops \<Rightarrow> dispatch_env \<Rightarrow> 's \<Rightarrow> int \<Rightarrow> group_key \<times> pending list \<Rightarrow> string list" where
  "group_processed Q E s now g = (if flushable Q E s now (fst (fst g)) then map pe_id (snd g) else [])"

definition flush_at :: "'s notify_ops \<Rightarrow> 's \<Rightarrow> channel list option \<times> string list \<times> 's batch \<Rightarrow> bool" where
  "flush_at Q s acc \<longleftrightarrow> (fst acc = None \<or> fst acc = Some (enabled_in Q s)) \<and> batch_at Q (policy_in Q s) s (snd (snd acc))
     \<and> ba_store (snd (snd acc)) = s"

lemma flush_group_at:
  assumes "flush_at Q s (shared, processed, b)" and "flush_group Q E now g (shared, processed, b) = (shared', processed', b')"
  shows "flush_at Q s (shared', processed', b') \<and> processed' = processed @ group_processed Q E s now g
    \<and> ba_jobs b' = ba_jobs b @ group_jobs Q E s now g"
proof -
  obtain p b1 where p: "governing Q (fst (fst g)) b = (p, b1)" by (cases "governing Q (fst (fst g)) b")
  have at: "batch_at Q (policy_in Q s) s b" and st: "ba_store b = s" using assms(1) by (simp_all add: flush_at_def)
  note gov = governing_at [OF at p]
  then have at1: "batch_at Q (policy_in Q s) s b1" by blast
  obtain cs b2 where r: "routed_targets Q (pe_rule (last (snd g))) (enabled_in Q s) b1 = (cs, b2)"
    by (cases "routed_targets Q (pe_rule (last (snd g))) (enabled_in Q s) b1")
  obtain ds b3 where c: "user_channels Q (fst (fst g)) b1 = (ds, b3)" by (cases "user_channels Q (fst (fst g)) b1")
  have en: "(case shared of Some cs \<Rightarrow> cs | None \<Rightarrow> (case no_enabled Q (ba_store b1) of None \<Rightarrow> [] | Some cs \<Rightarrow> cs)) = enabled_in Q s"
    using assms(1) gov st by (auto simp: flush_at_def enabled_in_def)
  show ?thesis
    using assms(2) gov st assms(1) routed_targets_at [OF at1 r] user_channels_at [OF at1 c]
    by (auto simp: flush_group_def p en r c Let_def fan_out_def flush_at_def group_processed_def group_jobs_def
        flushable_def flush_targets_def split: if_splits)
qed

lemma fold_flush_at:
  "flush_at Q s (shared, processed, b) \<Longrightarrow> fold (flush_group Q E now) gs (shared, processed, b) = (shared', processed', b') \<Longrightarrow>
    ba_store b' = s \<and> processed' = processed @ concat (map (group_processed Q E s now) gs)
    \<and> ba_jobs b' = ba_jobs b @ concat (map (group_jobs Q E s now) gs)"
proof (induction gs arbitrary: shared processed b)
  case Nil
  then show ?case by (simp add: flush_at_def)
next
  case (Cons g gs)
  obtain s1 p1 b1 where f: "flush_group Q E now g (shared, processed, b) = (s1, p1, b1)"
    by (cases "flush_group Q E now g (shared, processed, b)")
  note at = flush_group_at [OF Cons.prems(1) f]
  then have "flush_at Q s (s1, p1, b1)" by blast
  moreover have "fold (flush_group Q E now) gs (s1, p1, b1) = (shared', processed', b')" using Cons.prems(2) f by simp
  ultimately have "ba_store b' = s \<and> processed' = p1 @ concat (map (group_processed Q E s now) gs)
      \<and> ba_jobs b' = ba_jobs b1 @ concat (map (group_jobs Q E s now) gs)" by (rule Cons.IH)
  with at show ?case by simp
qed

lemma flush_pending_at:
  assumes "no_pending Q s = Some ps"
  shows "ba_jobs (flush_pending Q E s) = concat (map (group_jobs Q E s (de_clock E 0)) (pending_groups ps))
    \<and> ba_store (flush_pending Q E s) = (if ps = [] then s else
        (case no_delete Q (concat (map (group_processed Q E s (de_clock E 0)) (pending_groups ps))) s of
           None \<Rightarrow> s | Some s' \<Rightarrow> s'))"
proof (cases "ps = []")
  case True
  then show ?thesis using assms by (simp add: flush_pending_def new_batch_def pending_groups_def)
next
  case False
  define b0 where "b0 = new_batch s\<lparr>ba_reads := Suc 0\<rparr>"
  obtain shared processed b where f: "fold (flush_group Q E (de_clock E 0)) (pending_groups ps) (None, [], b0) = (shared, processed, b)"
    by (cases "fold (flush_group Q E (de_clock E 0)) (pending_groups ps) (None, [], b0)")
  have "flush_at Q s (None, [], b0)" by (simp add: flush_at_def b0_def) (simp add: new_batch_def)
  note r = fold_flush_at [OF this f]
  have "ba_jobs b0 = []" by (simp add: b0_def new_batch_def)
  then show ?thesis
    using r f False assms
    by (simp add: flush_pending_def read_clock_def new_batch_def b0_def split: option.splits)
qed


interpretation sql_notify: notify_store "sql_notify_ops G"
  by unfold_locales (auto simp: record_delivery_def enqueue_pending_def Let_def split: if_splits)

end
