(* ===== verification/NotifyClaims.thy ===== *)
theory NotifyClaims
  imports DispatchProps
begin

text \<open>
  The properties of the notification path, stated over the tables of the server: who is sent
  what, what is deferred, and what the flush of the deferred rows loses.
\<close>

section \<open>Membership lemmas\<close>

definition owner_policy :: "'a notify_db_scheme \<Rightarrow> string \<Rightarrow> policy" where
  "owner_policy db u = (if u = [] then get_policy db else get_user_policy u db)"

definition shared_targets :: "'a notify_db_scheme \<Rightarrow> string \<Rightarrow> channel list" where
  "shared_targets db r = targets_for (get_routing r db) (list_enabled_channels db)"

definition owner_targets :: "'a notify_db_scheme \<Rightarrow> string \<Rightarrow> string \<Rightarrow> channel list" where
  "owner_targets db u r = (if u = [] then shared_targets db r else list_enabled_user_channels u db)"

lemma sql_reads [simp]:
  "policy_in (sql_notify_ops G) db = owner_policy db"
  "user_policy_in (sql_notify_ops G) db u = get_user_policy u db"
  "routing_in (sql_notify_ops G) db r = get_routing r db"
  "channels_in (sql_notify_ops G) db u = list_enabled_user_channels u db"
  "enabled_in (sql_notify_ops G) db = list_enabled_channels db"
  "flush_targets (sql_notify_ops G) db u r = owner_targets db u r"
  by (simp_all add: fun_eq_iff policy_in_def user_policy_in_def routing_in_def channels_in_def enabled_in_def
      owner_policy_def flush_targets_def owner_targets_def shared_targets_def)

lemma emit_sql_jobs:
  "ba_jobs (emit (sql_notify_ops G) E trs db) =
     concat (map (one_jobs (sql_notify_ops G) E (get_policy db) (de_clock E 0) (list_enabled_channels db) db) trs)"
  by (simp add: sql_notify.emit_jobs owner_policy_def)

lemma one_jobs_member:
  "(c, msg, u) \<in> set (one_jobs (sql_notify_ops G) E (get_policy db) now (list_enabled_channels db) db tr) \<longleftrightarrow>
     msg = render_message E tr \<and>
     (u = [] \<and> goes_out (de_zone E) (get_policy db) now (severity_of tr) \<and> c \<in> set (shared_targets db (ru_id (tr_rule tr)))
      \<or> u \<in> set (subscribers_of E tr) \<and> goes_out (de_zone E) (get_user_policy u db) now (severity_of tr)
         \<and> c \<in> set (list_enabled_user_channels u db))"
  by (auto simp: one_jobs_def shared_jobs_def personal_jobs_def shared_targets_def)

lemma enabled_user_channels_member:
  "c \<in> set (list_enabled_user_channels u db) \<longleftrightarrow> (u, c) \<in> set (nd_user_channels db) \<and> ch_enabled c"
  by (force simp: list_enabled_user_channels_def)

lemma targets_enabled: "set (targets_for r en) \<subseteq> set en"
proof -
  have "map_of (rev (map (\<lambda>c. (ch_id c, c)) en)) i = Some c \<Longrightarrow> c \<in> set en" for i c
    by (auto dest!: map_of_SomeD)
  then show ?thesis by (auto simp: targets_for_def List.map_filter_def)
qed

section \<open>Who is sent what\<close>

text \<open>
  C17: a batch of alert transitions is sent to exactly these channels: for a transition
  whose severity the global policy delivers now (always, or quiet outside the quiet hours) the
  enabled channels its rule is routed to, and for each subscriber whose own policy delivers it
  now that user's own enabled channels. Nothing else is sent, whatever the log and the
  queue answer, and no failure of theirs keeps a send back.
\<close>

theorem batch_sends_what_policies_let_out:
  "(c, msg, u) \<in> set (ba_jobs (emit (sql_notify_ops G) E trs db)) \<longleftrightarrow>
    (\<exists>tr. tr \<in> set trs \<and> msg = render_message E tr \<and>
      (u = [] \<and> c \<in> set (shared_targets db (ru_id (tr_rule tr)))
         \<and> goes_out (de_zone E) (get_policy db) (de_clock E 0) (severity_of tr)
       \<or> u \<in> set (subscribers_of E tr) \<and> (u, c) \<in> set (nd_user_channels db) \<and> ch_enabled c
         \<and> goes_out (de_zone E) (get_user_policy u db) (de_clock E 0) (severity_of tr)))"
  unfolding emit_sql_jobs by (auto simp: one_jobs_member enabled_user_channels_member)

section \<open>The flush\<close>

lemma flush_sql_jobs:
  "ba_jobs (flush_pending (sql_notify_ops G) E db) =
     concat (map (group_jobs (sql_notify_ops G) E db (de_clock E 0)) (pending_groups (list_pending db)))"
  using flush_pending_at [of "sql_notify_ops G" db "list_pending db" E] by simp

lemma list_pending_set [simp]: "set (list_pending db) = set (nd_pending db)"
  by (simp add: list_pending_def)

lemma flush_sql_store:
  "ba_store (flush_pending (sql_notify_ops G) E db) =
     delete_pending (concat (map (group_processed (sql_notify_ops G) E db (de_clock E 0)) (pending_groups (list_pending db)))) db"
  using flush_pending_at [of "sql_notify_ops G" db "list_pending db" E]
  by (auto simp: delete_pending_def delete_where_def pending_groups_def)

lemma processed_member:
  "i \<in> set (concat (map (group_processed (sql_notify_ops G) E db now) (pending_groups (list_pending db)))) \<longleftrightarrow>
     (\<exists>p\<in>set (nd_pending db). pe_id p = i \<and> \<not> in_quiet_hours (de_zone E) (owner_policy db (pe_user p)) now)"
proof -
  have "(\<exists>g\<in>set (pending_groups ps). i \<in> set (group_processed (sql_notify_ops G) E db now g)) \<longleftrightarrow>
      (\<exists>p\<in>set ps. pe_id p = i \<and> \<not> in_quiet_hours (de_zone E) (owner_policy db (pe_user p)) now)" (is "?L \<longleftrightarrow> ?R") for ps
  proof
    assume ?L
    then obtain k items where g: "(k, items) \<in> set (pending_groups ps)"
      and i: "i \<in> set (group_processed (sql_notify_ops G) E db now (k, items))" by auto
    from g have items: "items = filter (\<lambda>p. pending_key p = k) ps" using pending_groups_correct by blast
    from i obtain p where "p \<in> set items" "pe_id p = i" "\<not> in_quiet_hours (de_zone E) (owner_policy db (fst k)) now"
      by (auto simp: group_processed_def flushable_def split: if_splits)
    then show ?R using items by (auto simp: pending_key_def)
  next
    assume ?R
    then obtain p where p: "p \<in> set ps" "pe_id p = i" "\<not> in_quiet_hours (de_zone E) (owner_policy db (pe_user p)) now" by auto
    have "(pending_key p, filter (\<lambda>q. pending_key q = pending_key p) ps) \<in> set (pending_groups ps)"
      using p(1) unfolding in_pending_groups by (auto simp: filter_empty_conv)
    moreover have "i \<in> set (group_processed (sql_notify_ops G) E db now (pending_key p, filter (\<lambda>q. pending_key q = pending_key p) ps))"
      using p by (auto simp: group_processed_def flushable_def pending_key_def)
    ultimately show ?L by blast
  qed
  from this [of "list_pending db"] show ?thesis by simp
qed

lemma group_job_member:
  "(c, msg, u) \<in> set (ba_jobs (flush_pending (sql_notify_ops G) E db)) \<longleftrightarrow>
    (\<exists>r sid items. items = filter (\<lambda>p. pending_key p = (u, r, sid)) (list_pending db) \<and> items \<noteq> []
       \<and> \<not> in_quiet_hours (de_zone E) (owner_policy db u) (de_clock E 0) \<and> \<not> collapses items
       \<and> msg = pe_message (last items) \<and> c \<in> set (owner_targets db u (pe_rule (last items))))"
  (is "?L \<longleftrightarrow> ?R")
proof
  assume ?L
  then obtain k items where g: "(k, items) \<in> set (pending_groups (list_pending db))"
    and j: "(c, msg, u) \<in> set (group_jobs (sql_notify_ops G) E db (de_clock E 0) (k, items))"
    unfolding flush_sql_jobs by auto
  then have "items = filter (\<lambda>p. pending_key p = k) (list_pending db)" "items \<noteq> []"
    using pending_groups_correct by blast+
  moreover have "k = (u, fst (snd k), snd (snd k))" using j by (cases k) (auto simp: group_jobs_def split: if_splits)
  ultimately show ?R using j
    by (intro exI [of _ "fst (snd k)"] exI [of _ "snd (snd k)"] exI [of _ items])
       (auto simp: group_jobs_def flushable_def split: if_splits)
next
  assume ?R
  then obtain r sid items where i: "items = filter (\<lambda>p. pending_key p = (u, r, sid)) (list_pending db)" "items \<noteq> []"
    and f: "\<not> in_quiet_hours (de_zone E) (owner_policy db u) (de_clock E 0)" "\<not> collapses items"
      "msg = pe_message (last items)" "c \<in> set (owner_targets db u (pe_rule (last items)))" by blast
  have "((u, r, sid), items) \<in> set (pending_groups (list_pending db))"
    using i pending_groups_correct by blast
  moreover have "(c, msg, u) \<in> set (group_jobs (sql_notify_ops G) E db (de_clock E 0) ((u, r, sid), items))"
    using f by (auto simp: group_jobs_def flushable_def)
  ultimately show ?L unfolding flush_sql_jobs by (auto intro!: bexI)
qed

text \<open>
  C19: a flush removes exactly the deferred rows whose owner (the server for a shared row,
  the user for a personal one) is no longer in quiet hours and leaves the others, and it sends, for
  each rule and system of such an owner, the message of the latest row alone, to the
  targets the tables name now, unless the rows hold both a firing and a resolution.
\<close>

theorem flush_releases_ended_quiet_hours:
  assumes "distinct (map pe_id (nd_pending db))"
  shows "nd_pending (ba_store (flush_pending (sql_notify_ops G) E db)) =
      filter (\<lambda>p. in_quiet_hours (de_zone E) (owner_policy db (pe_user p)) (de_clock E 0)) (nd_pending db)
    \<and> ((c, msg, u) \<in> set (ba_jobs (flush_pending (sql_notify_ops G) E db)) \<longleftrightarrow>
        (\<exists>r sid items. items = filter (\<lambda>p. pending_key p = (u, r, sid)) (list_pending db) \<and> items \<noteq> []
           \<and> \<not> in_quiet_hours (de_zone E) (owner_policy db u) (de_clock E 0) \<and> \<not> collapses items
           \<and> msg = pe_message (last items) \<and> c \<in> set (owner_targets db u (pe_rule (last items)))))"
proof -
  have same: "p = q" if "p \<in> set (nd_pending db)" "q \<in> set (nd_pending db)" "pe_id p = pe_id q" for p q
    using assms that by (auto simp: distinct_map inj_on_def)
  have "nd_pending (ba_store (flush_pending (sql_notify_ops G) E db)) =
      filter (\<lambda>p. in_quiet_hours (de_zone E) (owner_policy db (pe_user p)) (de_clock E 0)) (nd_pending db)"
    unfolding flush_sql_store delete_pending_def delete_where_def processed_member
    by (auto intro!: filter_cong dest: same)
  then show ?thesis using group_job_member by blast
qed

section \<open>What the flush loses\<close>

lemma flush_keeps_quiet_rows:
  "p \<in> set (nd_pending (ba_store (flush_pending (sql_notify_ops G) E db))) \<Longrightarrow>
     in_quiet_hours (de_zone E) (owner_policy db (pe_user p)) (de_clock E 0)"
  unfolding flush_sql_store delete_pending_def processed_member by auto

definition without_group :: "string \<Rightarrow> string \<Rightarrow> string \<Rightarrow> 'a notify_db_scheme \<Rightarrow> 'a notify_db_scheme" where
  "without_group u r sid db = db\<lparr>nd_pending := delete_where (\<lambda>p. pending_key p = (u, r, sid)) (nd_pending db)\<rparr>"

lemma without_group_reads [simp]:
  "owner_policy (without_group u r sid db) = owner_policy db"
  "owner_targets (without_group u r sid db) = owner_targets db"
  by (simp_all add: fun_eq_iff without_group_def owner_policy_def get_policy_def get_user_policy_def owner_targets_def
      shared_targets_def list_enabled_channels_def list_enabled_user_channels_def)

lemma without_group_rows:
  "filter (\<lambda>p. pending_key p = k) (list_pending (without_group u r sid db)) =
     (if k = (u, r, sid) then [] else filter (\<lambda>p. pending_key p = k) (list_pending db))"
proof (cases "k = (u, r, sid)")
  case False
  then have "(\<lambda>p. pending_key p = k \<and> pending_key p \<noteq> (u, r, sid)) = (\<lambda>p. pending_key p = k)" by auto
  then show ?thesis using False
    by (simp add: list_pending_def without_group_def delete_where_def filter_sort conj_commute)
qed (simp add: list_pending_def without_group_def delete_where_def filter_sort)

text \<open>
  an alert that fires, resolves and fires again while its owner is quiet, and is still
  firing when the quiet hours end, is never announced: the flush removes its rows and sends exactly what
  it would send without them. So does one that was announced before, resolves, fires and
  resolves: its channels are never told that it is over.
\<close>

theorem flapping_alert_is_never_announced:
  assumes "\<not> in_quiet_hours (de_zone E) (owner_policy db u) (de_clock E 0)"
    and "filter (\<lambda>p. pending_key p = (u, r, sid)) (list_pending db) = items"
    and "map pe_kind items = [''fired'', ''resolved'', ''fired''] \<or> map pe_kind items = [''resolved'', ''fired'', ''resolved'']"
  shows "set (ba_jobs (flush_pending (sql_notify_ops G) E db)) =
      set (ba_jobs (flush_pending (sql_notify_ops H) E (without_group u r sid db)))
    \<and> (\<forall>p\<in>set items. p \<notin> set (nd_pending (ba_store (flush_pending (sql_notify_ops G) E db))))"
proof -
  have "''fired'' \<in> set (map pe_kind items)" "''resolved'' \<in> set (map pe_kind items)" using assms(3) by auto
  then have col: "collapses items" by (auto simp: collapses_def list_ex_iff)
  have "p \<notin> set (nd_pending (ba_store (flush_pending (sql_notify_ops G) E db)))" if "p \<in> set items" for p
  proof -
    have "pe_user p = u" using that unfolding assms(2) [symmetric] by (auto simp: pending_key_def)
    then show ?thesis using flush_keeps_quiet_rows assms(1) by blast
  qed
  moreover have "j \<in> set (ba_jobs (flush_pending (sql_notify_ops G) E db)) \<longleftrightarrow>
      j \<in> set (ba_jobs (flush_pending (sql_notify_ops H) E (without_group u r sid db)))" for j
  proof -
    obtain c msg v where j: "j = (c, msg, v)" by (cases j)
    show ?thesis unfolding j group_job_member without_group_rows without_group_reads
      by (intro iff_exI) (use assms(2) col in auto)
  qed
  ultimately show ?thesis by blast
qed

section \<open>What is set aside\<close>

text \<open>The rows a transition leaves for the flusher, by their owners.\<close>

definition queued_for :: "dispatch_env \<Rightarrow> transition \<Rightarrow> string set \<Rightarrow> pending set" where
  "queued_for E tr us = {p. pe_user p \<in> us \<and> pe_message p = render_message E tr \<and> pe_system p = tr_system tr
     \<and> pe_severity p = severity_of tr}"

lemma reads_keep_store:
  "ba_store (snd (routed_targets Q r en b)) = ba_store b" "ba_store (snd (user_policy Q u b)) = ba_store b"
  "ba_store (snd (user_channels Q u b)) = ba_store b" "ba_store (fan_out cs msg u b) = ba_store b"
  by (simp_all add: routed_targets_def user_policy_def user_channels_def fan_out_def Let_def split: option.split)

lemma status_keeps_pending: "nd_pending (ba_store (record_status (sql_notify_ops G) E msg st u b)) = nd_pending (ba_store b)"
  by (simp add: record_status_def read_clock_def record_delivery_def Let_def)

lemma defer_send_adds:
  "set (nd_pending (ba_store (defer_send (sql_notify_ops G) E tr (render_message E tr) u b))) \<subseteq>
     set (nd_pending (ba_store b)) \<union> queued_for E tr {u}"
  by (auto simp: defer_send_def read_clock_def status_keeps_pending enqueue_pending_def deferred_row_def queued_for_def Let_def)

lemma emit_shared_adds:
  "set (nd_pending (ba_store (emit_shared (sql_notify_ops G) E p quiet en tr (render_message E tr) b))) \<subseteq>
     set (nd_pending (ba_store b)) \<union> queued_for E tr {[]}"
  using defer_send_adds [of G E tr "[]" b]
  by (auto simp: emit_shared_def send_routed_def split_beta reads_keep_store status_keeps_pending Let_def)

lemma emit_personal_adds:
  "set (nd_pending (ba_store (emit_personal (sql_notify_ops G) E now tr (render_message E tr) u b))) \<subseteq>
     set (nd_pending (ba_store b)) \<union> queued_for E tr {u}"
  using defer_send_adds [of G E tr u "snd (user_policy (sql_notify_ops G) u b)"]
  by (auto simp: emit_personal_def split_beta reads_keep_store status_keeps_pending Let_def)

lemma queued_for_mono: "us \<subseteq> vs \<Longrightarrow> queued_for E tr us \<subseteq> queued_for E tr vs"
  by (auto simp: queued_for_def)

lemma personal_adds:
  "set (nd_pending (ba_store (fold (emit_personal (sql_notify_ops G) E now tr (render_message E tr)) us b))) \<subseteq>
     set (nd_pending (ba_store b)) \<union> queued_for E tr (set us)"
proof (induction us arbitrary: b)
  case (Cons u us)
  show ?case
    using Cons.IH [of "emit_personal (sql_notify_ops G) E now tr (render_message E tr) u b"]
      emit_personal_adds [of G E now tr u b] queued_for_mono [of "{u}" "set (u # us)" E tr]
      queued_for_mono [of "set us" "set (u # us)" E tr]
    by simp blast
qed simp

lemma emit_one_adds:
  "set (nd_pending (ba_store (emit_one (sql_notify_ops G) E p now en tr b))) \<subseteq>
     set (nd_pending (ba_store b)) \<union> queued_for E tr (insert [] (set (subscribers_of E tr)))"
proof -
  let ?b = "emit_shared (sql_notify_ops G) E p (in_quiet_hours (de_zone E) p now) en tr (render_message E tr) b"
  have "emit_one (sql_notify_ops G) E p now en tr b =
      fold (emit_personal (sql_notify_ops G) E now tr (render_message E tr)) (subscribers_of E tr) ?b"
    by (simp add: emit_one_def dispatch_personal_def subscribers_of_def Let_def split: option.split)
  with personal_adds [of G E now tr "subscribers_of E tr" ?b] emit_shared_adds [of G E p _ en tr b]
    queued_for_mono [of "{[]}" "insert [] (set (subscribers_of E tr))" E tr]
    queued_for_mono [of "set (subscribers_of E tr)" "insert [] (set (subscribers_of E tr))" E tr]
  show ?thesis by fastforce
qed

lemma emit_adds:
  "set (nd_pending (ba_store (emit (sql_notify_ops G) E trs db))) \<subseteq>
     set (nd_pending db) \<union> (\<Union>tr\<in>set trs. queued_for E tr (insert [] (set (subscribers_of E tr))))"
proof -
  have f: "set (nd_pending (ba_store (fold (emit_one (sql_notify_ops G) E p now en) trs b))) \<subseteq>
     set (nd_pending (ba_store b)) \<union> (\<Union>tr\<in>set trs. queued_for E tr (insert [] (set (subscribers_of E tr))))" for p now en b
  proof (induction trs arbitrary: b)
    case (Cons tr trs)
    show ?case
      using Cons.IH [of "emit_one (sql_notify_ops G) E p now en tr b"] emit_one_adds [of G E p now en tr b] by simp blast
  qed simp
  show ?thesis
    using f [of "get_policy db" "de_clock E 0" "list_enabled_channels db" "(new_batch db)\<lparr>ba_reads := Suc 0\<rparr>"]
    by (simp add: emit_def read_clock_def new_batch_def)
qed

text \<open>What the resolver of the server lets through.\<close>

definition entitled :: "inventory \<Rightarrow> (string \<Rightarrow> assignment list) \<Rightarrow> 'a notify_db_scheme \<Rightarrow> string \<Rightarrow> transition \<Rightarrow> bool" where
  "entitled fleet rs db u tr \<longleftrightarrow>
     (\<exists>sys sub. get_system (tr_system tr) fleet = Some sys \<and> (u, sub) \<in> set (nd_subs db) \<and> sb_enabled sub
       \<and> sub_matches sub (case sys_group sys of None \<Rightarrow> [] | Some g \<Rightarrow> g) (severity_of tr)
       \<and> can_read_system (new_scope u (rs u)) (sys_group sys))"

lemma subscribers_entitled:
  assumes "de_subs E = Some (subscriber_resolver fleet rs db)" "u \<in> set (subscribers_of E tr)"
  shows "entitled fleet rs db u tr"
proof -
  from assms obtain sys sub where "get_system (tr_system tr) fleet = Some sys" "(u, sub) \<in> set (nd_subs db)"
      "sub_matches sub (case sys_group sys of None \<Rightarrow> [] | Some g \<Rightarrow> g) (severity_of tr)"
      "can_read_system (new_scope u (rs u)) (sys_group sys)"
    by (auto simp: subscribers_of_def subscriber_resolver_def list_subscriptions_def split: option.splits)
  moreover from this have "sb_enabled sub" by (auto simp: sub_matches_def split: if_splits)
  ultimately show ?thesis unfolding entitled_def by blast
qed

lemma flushed_member:
  assumes "(c, msg, u) \<in> set (ba_jobs (flush_pending (sql_notify_ops G) E db))" "u \<noteq> []"
  shows "(u, c) \<in> set (nd_user_channels db) \<and> ch_enabled c \<and> (\<exists>p\<in>set (nd_pending db). pe_user p = u \<and> msg = pe_message p)"
proof -
  from assms(1) obtain r sid items where i: "items = filter (\<lambda>p. pending_key p = (u, r, sid)) (list_pending db)" "items \<noteq> []"
    "msg = pe_message (last items)" "c \<in> set (owner_targets db u (pe_rule (last items)))"
    unfolding group_job_member by blast
  have "last items \<in> set items" using i(2) by simp
  then have "last items \<in> set (nd_pending db)" "pe_user (last items) = u" by (auto simp: i(1) pending_key_def)
  moreover have "(u, c) \<in> set (nd_user_channels db) \<and> ch_enabled c"
    using i(4) assms(2) by (simp add: owner_targets_def enabled_user_channels_member)
  ultimately show ?thesis using i(3) by blast
qed

text \<open>
  C20: with the resolver of the server, what reaches a user's own channels was his to see when the alert was
  emitted: whatever is sent to him then, and whatever is set aside for the end of his quiet hours, is an
  alert that his enabled subscription covers, of a system his roles let him read at that moment. What the
  flusher sends him later is such a row of his, on the channels he has then; his roles and his subscription
  are not looked at again.
\<close>

theorem personal_alerts_stay_within_scope:
  assumes "de_subs E = Some (subscriber_resolver fleet rs db)" and "u \<noteq> []"
  shows "((c, msg, u) \<in> set (ba_jobs (emit (sql_notify_ops G) E trs db)) \<longrightarrow>
      (u, c) \<in> set (nd_user_channels db) \<and> ch_enabled c \<and>
      (\<exists>tr\<in>set trs. msg = render_message E tr \<and> entitled fleet rs db u tr)) \<and>
    (p \<in> set (nd_pending (ba_store (emit (sql_notify_ops G) E trs db))) \<and> pe_user p = u \<longrightarrow>
      p \<in> set (nd_pending db) \<or> (\<exists>tr\<in>set trs. pe_message p = render_message E tr \<and> entitled fleet rs db u tr)) \<and>
    ((c, msg, u) \<in> set (ba_jobs (flush_pending (sql_notify_ops G') E' db')) \<longrightarrow>
      (u, c) \<in> set (nd_user_channels db') \<and> ch_enabled c \<and>
      (\<exists>q\<in>set (nd_pending db'). pe_user q = u \<and> msg = pe_message q))"
proof (intro conjI impI)
  assume "(c, msg, u) \<in> set (ba_jobs (emit (sql_notify_ops G) E trs db))"
  then obtain tr where tr: "tr \<in> set trs" "msg = render_message E tr"
    and m: "u \<in> set (subscribers_of E tr)" "c \<in> set (list_enabled_user_channels u db)"
    using assms(2) unfolding emit_sql_jobs by (auto simp: one_jobs_member)
  then show "(u, c) \<in> set (nd_user_channels db)" "ch_enabled c" "\<exists>tr\<in>set trs. msg = render_message E tr \<and> entitled fleet rs db u tr"
    using subscribers_entitled [OF assms(1) m(1)] unfolding enabled_user_channels_member by blast+
next
  assume p: "p \<in> set (nd_pending (ba_store (emit (sql_notify_ops G) E trs db))) \<and> pe_user p = u"
  show "p \<in> set (nd_pending db) \<or> (\<exists>tr\<in>set trs. pe_message p = render_message E tr \<and> entitled fleet rs db u tr)"
  proof (cases "p \<in> set (nd_pending db)")
    case False
    with p emit_adds [of G E trs db] obtain tr where "tr \<in> set trs" "p \<in> queued_for E tr (insert [] (set (subscribers_of E tr)))"
      by blast
    with p assms(2) have "tr \<in> set trs" "pe_message p = render_message E tr" "u \<in> set (subscribers_of E tr)"
      by (auto simp: queued_for_def)
    with subscribers_entitled [OF assms(1)] show ?thesis by blast
  qed simp
next
  assume f: "(c, msg, u) \<in> set (ba_jobs (flush_pending (sql_notify_ops G') E' db'))"
  show "(u, c) \<in> set (nd_user_channels db')" "ch_enabled c" "\<exists>q\<in>set (nd_pending db'). pe_user q = u \<and> msg = pe_message q"
    using flushed_member [OF f assms(2)] by blast+
qed

section \<open>What the flusher does not look at\<close>

text \<open>
  Deferring an alert takes the visibility check with it: a personal row is sent to its
  owner's channels when his quiet hours end even if by then he has no role, no subscription
  and no account that could see the system; only a live alert is checked.
\<close>

theorem deferred_alert_ignores_lost_access:
  assumes "p \<in> set (nd_pending db)" and "pe_user p \<noteq> []" and "(pe_user p, c) \<in> set (nd_user_channels db)" and "ch_enabled c"
    and "\<not> in_quiet_hours (de_zone E) (get_user_policy (pe_user p) db) (de_clock E 0)"
    and "\<And>q. q \<in> set (nd_pending db) \<Longrightarrow> pending_key q = pending_key p \<Longrightarrow> q = p"
    and "subscriber_resolver fleet rs db (pe_system p) (pe_severity p) = Some us" and "pe_user p \<notin> set us"
  shows "(c, pe_message p, pe_user p) \<in> set (ba_jobs (flush_pending (sql_notify_ops G) E db))"
proof -
  define items where "items = filter (\<lambda>q. pending_key q = pending_key p) (list_pending db)"
  have items: "set items = {p}" using assms(1,6) by (auto simp: items_def)
  then have ne: "items \<noteq> []" by auto
  then have l: "last items = p" using items last_in_set by blast
  have "\<not> collapses items" using items by (auto simp: collapses_def list_ex_iff)
  moreover have "c \<in> set (owner_targets db (pe_user p) (pe_rule p))"
    using assms(2-4) by (simp add: owner_targets_def enabled_user_channels_member)
  ultimately show ?thesis
    unfolding group_job_member using assms(2,5) ne l items_def
    by (intro exI [of _ "pe_rule p"] exI [of _ "pe_system p"] exI [of _ items])
       (simp add: pending_key_def owner_policy_def)
qed

text \<open>
  The value of an alert can be an infinity or NaN, and such an alert cannot be deferred:
  in quiet hours it is neither sent nor queued nor even recorded.
\<close>

theorem infinite_value_is_lost_in_quiet_hours:
  assumes "is_deferred (de_zone E) (get_policy db) (de_clock E 0) (severity_of tr)"
    and "\<not> json_float (tr_value tr)" and "subscribers_of E tr = []"
  shows "ba_jobs (emit (sql_notify_ops G) E [tr] db) = [] \<and> ba_store (emit (sql_notify_ops G) E [tr] db) = db"
proof -
  have "enqueue_pending i (deferred_row tr (render_message E tr) t u) db = Inl NotifySql" for i t u
    using assms(2) by (simp add: enqueue_pending_def deferred_row_def render_message_def Let_def)
  then show ?thesis
    using assms(1,3) by (auto simp: emit_def read_clock_def new_batch_def emit_one_def emit_shared_def defer_send_def
        is_deferred_def dispatch_personal_def subscribers_of_def Let_def split: option.splits)
qed

text \<open>
  When the enabled channels cannot be read during a flush, no shared deferred alert is
  sent, and those whose quiet hours are over are deleted all the same: one failing
  read loses them for good.
\<close>

theorem failed_read_loses_deferred_alerts:
  assumes "no_pending Q s = Some ps" and "no_enabled Q s = None"
    and "p \<in> set ps" and "pe_user p = []" and "\<not> in_quiet_hours (de_zone E) (policy_in Q s []) (de_clock E 0)"
  shows "(c, msg, []) \<notin> set (ba_jobs (flush_pending Q E s))
    \<and> (\<exists>ids. pe_id p \<in> set ids \<and> ba_store (flush_pending Q E s) = (case no_delete Q ids s of None \<Rightarrow> s | Some s' \<Rightarrow> s'))"
proof -
  have "targets_for r [] = []" for r by (simp add: targets_for_def List.map_filter_def)
  then have "(c, msg, []) \<notin> set (group_jobs Q E s now g)" for now g
    using assms(2) by (auto simp: group_jobs_def flush_targets_def enabled_in_def)
  moreover have "(pending_key p, filter (\<lambda>q. pending_key q = pending_key p) ps) \<in> set (pending_groups ps)"
    using assms(3) unfolding in_pending_groups by (auto simp: filter_empty_conv)
  then have "pe_id p \<in> set (concat (map (group_processed Q E s (de_clock E 0)) (pending_groups ps)))"
    using assms(3-5) by (force simp: group_processed_def flushable_def pending_key_def)
  moreover have "ps \<noteq> []" using assms(3) by auto
  ultimately show ?thesis using flush_pending_at [OF assms(1), of E]
    by (intro conjI exI [of _ "concat (map (group_processed Q E s (de_clock E 0)) (pending_groups ps))"])
       (simp_all only: if_False set_concat set_map, auto)
qed

section \<open>Witnesses\<close>

definition night_policy :: policy where
  "night_policy = default_policy\<lparr>po_windows := [\<lparr>qw_days = [], qw_start = ''00:00'', qw_end = ''24:00''\<rparr>]\<rparr>"

definition demo_config :: channel_config where
  "demo_config = \<lparr>cc_smtp_host = [], cc_smtp_port = 0, cc_username = [], cc_starttls = False, cc_skip_verify = False,
     cc_from = [], cc_to = [], cc_url = ''https://a'', cc_method = ''POST'', cc_header_name = [], cc_base_url = [],
     cc_account_sid = []\<rparr>"

definition demo_channel :: channel where
  "demo_channel = \<lparr>ch_id = ''c'', ch_name = ''hook'', ch_type = type_webhook, ch_enabled = True, ch_config = demo_config,
     ch_secret = zero_sealed, ch_by = ''u'', ch_created = 0, ch_updated = 0\<rparr>"

definition night_env :: dispatch_env where
  "night_env = \<lparr>de_zone = (\<lambda>n. Some (\<lambda>t. Civil 1970 10 3 7 59)), de_clock = int, de_system_name = (\<lambda>s. []),
     de_fmt = (\<lambda>v. []), de_subs = None\<rparr>"

definition demo_transition :: "flt \<Rightarrow> string \<Rightarrow> transition" where
  "demo_transition v sev = \<lparr>tr_rule = \<lparr>ru_id = ''r'', ru_input = \<lparr>ri_name = ''disk'', ri_description = [],
     ri_condition = kind_metric, ri_metric = ''disk'', ri_expr = [], ri_comparator = ''>'', ri_threshold = Fin 1, ri_for = 0,
     ri_severity = sev, ri_kind = kind_global, ri_value = [], ri_enabled = True\<rparr>, ru_by = ''u'', ru_created = 0,
     ru_updated = 0\<rparr>, tr_system = ''s'', tr_value = v, tr_kind = Fired, tr_at = 0\<rparr>"

definition demo_pending :: "string \<Rightarrow> string \<Rightarrow> int \<Rightarrow> string \<Rightarrow> pending" where
  "demo_pending i u t k = \<lparr>pe_id = i, pe_rule = ''r'', pe_rule_name = ''disk'', pe_system = ''s'', pe_severity = ''warning'',
     pe_kind = k, pe_message = \<lparr>ms_subject = i, ms_body = [], ms_kind = k, ms_rule = ''disk'', ms_severity = ''warning'',
       ms_system = ''s'', ms_system_name = ''s'', ms_value = Fin 2, ms_at = t\<rparr>, pe_at = t, pe_user = u\<rparr>"

definition demo_tables :: "pending list \<Rightarrow> notify_db" where
  "demo_tables ps = \<lparr>nd_channels = [demo_channel], nd_user_channels = [(''u'', demo_channel)], nd_deliveries = [],
     nd_routes = [], nd_route_channels = [], nd_policy = None, nd_pending = ps,
     nd_subs = [(''u'', \<lparr>sb_enabled = True, sb_groups = [], sb_severities = []\<rparr>)], nd_policies = []\<rparr>"

definition demo_fleet :: inventory where
  "demo_fleet = [\<lparr>sys_id = ''s'', sys_name = ''s'', sys_status = [], sys_group = None, sys_windows = False, sys_reboot = None\<rparr>]"

definition auditor_rows :: "string \<Rightarrow> assignment list" where
  "auditor_rows u = [\<lparr>as_user = u, as_group = None, as_role = role_auditor\<rparr>]"

lemma default_not_quiet [simp]: "in_quiet_hours Z default_policy t = False"
  by (simp add: in_quiet_hours_def default_policy_def)

lemma demo_policies [simp]:
  "get_policy (demo_tables ps) = default_policy" "get_user_policy u (demo_tables ps) = default_policy"
  "owner_policy (demo_tables ps) u = default_policy"
  by (simp_all add: demo_tables_def get_policy_def get_user_policy_def owner_policy_def)

lemma demo_critical: "mode_for default_policy ''critical'' = mode_always" "mode_for default_policy ''warning'' = mode_quiet"
  by (simp_all add: mode_for_def default_policy_def default_severities_def mode_valid_def)

theorem personal_alerts_stay_within_scope_witness:
  "can_read_system (new_scope ''u'' (auditor_rows ''u'')) None"
proof -
  define R where "R = subscriber_resolver demo_fleet auditor_rows (demo_tables [])"
  define E where "E = night_env\<lparr>de_subs := Some R\<rparr>"
  define tr where "tr = demo_transition (Fin 2) ''critical''"
  have "R ''s'' ''critical'' = Some [''u'']"
    unfolding R_def by code_simp
  then have s: "subscribers_of E tr = [''u'']"
    by (simp add: subscribers_of_def E_def tr_def demo_transition_def)
  have sev: "severity_of tr = ''critical''" by (simp add: tr_def demo_transition_def)
  have "demo_channel \<in> set (list_enabled_user_channels ''u'' (demo_tables []))"
    by (simp add: list_enabled_user_channels_def demo_tables_def demo_channel_def)
  then have "(demo_channel, render_message E tr, ''u'') \<in> set (ba_jobs (emit (sql_notify_ops (\<lambda>_. [])) E [tr] (demo_tables [])))"
    unfolding emit_sql_jobs list.map concat.simps append_Nil2 one_jobs_member
    by (simp add: s goes_out_def sev demo_critical)
  note sent = this
  have "de_subs E = Some (subscriber_resolver demo_fleet auditor_rows (demo_tables []))" "''u'' \<noteq> []" by (simp_all add: E_def R_def)
  from personal_alerts_stay_within_scope [OF this, THEN conjunct1, THEN mp, OF sent]
  have "entitled demo_fleet auditor_rows (demo_tables []) ''u'' tr" by simp
  then show ?thesis by (auto simp: entitled_def demo_fleet_def get_system_def tr_def demo_transition_def split: if_splits)
qed

theorem flush_releases_ended_quiet_hours_witness:
  "nd_pending (ba_store (flush_pending (sql_notify_ops (\<lambda>_. [])) night_env (demo_tables [demo_pending ''1'' [] 0 ''fired'']))) = []"
proof -
  let ?db = "demo_tables [demo_pending ''1'' [] 0 ''fired'']"
  have p: "nd_pending ?db = [demo_pending ''1'' [] 0 ''fired'']" by (simp add: demo_tables_def)
  then have "distinct (map pe_id (nd_pending ?db))" by simp
  from flush_releases_ended_quiet_hours [OF this, of "\<lambda>_. []" night_env] show ?thesis by (simp add: p)
qed

theorem flapping_alert_is_never_announced_witness:
  "let p1 = demo_pending ''1'' [] 0 ''fired''; p2 = demo_pending ''2'' [] 1 ''resolved''; p3 = demo_pending ''3'' [] 2 ''fired'';
       db = demo_tables [p1, p2, p3]
   in set (ba_jobs (flush_pending (sql_notify_ops (\<lambda>_. [])) night_env db)) =
        set (ba_jobs (flush_pending (sql_notify_ops (\<lambda>_. [])) night_env (without_group [] ''r'' ''s'' db)))
      \<and> p3 \<notin> set (nd_pending (ba_store (flush_pending (sql_notify_ops (\<lambda>_. [])) night_env db)))"
proof -
  let ?ps = "[demo_pending ''1'' [] 0 ''fired'', demo_pending ''2'' [] 1 ''resolved'', demo_pending ''3'' [] 2 ''fired'']"
  have f: "filter (\<lambda>p. pending_key p = ([], ''r'', ''s'')) (list_pending (demo_tables ?ps)) = ?ps"
    by (simp add: list_pending_def demo_tables_def demo_pending_def pending_key_def)
  have k: "map pe_kind ?ps = [''fired'', ''resolved'', ''fired'']" by (simp add: demo_pending_def)
  from flapping_alert_is_never_announced [OF _ f, of night_env "\<lambda>_. []" "\<lambda>_. []"] k
  show ?thesis by (simp add: Let_def)
qed

theorem deferred_alert_ignores_lost_access_witness:
  "subscriber_resolver demo_fleet (\<lambda>u. []) (demo_tables [demo_pending ''1'' ''u'' 0 ''fired'']) ''s'' ''warning'' = Some []
   \<and> (demo_channel, pe_message (demo_pending ''1'' ''u'' 0 ''fired''), ''u'')
       \<in> set (ba_jobs (flush_pending (sql_notify_ops (\<lambda>_. [])) night_env (demo_tables [demo_pending ''1'' ''u'' 0 ''fired''])))"
proof -
  let ?p = "demo_pending ''1'' ''u'' 0 ''fired''"
  let ?db = "demo_tables [?p]"
  have p: "nd_pending ?db = [?p]" "nd_user_channels ?db = [(''u'', demo_channel)]" by (simp_all add: demo_tables_def)
  have f: "pe_user ?p = ''u''" "pe_system ?p = ''s''" "pe_severity ?p = ''warning''" by (simp_all add: demo_pending_def)
  have r: "subscriber_resolver demo_fleet (\<lambda>u. []) ?db ''s'' ''warning'' = Some []" by code_simp
  from deferred_alert_ignores_lost_access [of ?p ?db demo_channel night_env demo_fleet "\<lambda>u. []" "[]" "\<lambda>_. []"]
  show ?thesis by (simp add: p f r demo_channel_def)
qed

theorem infinite_value_is_lost_in_quiet_hours_witness:
  "ba_jobs (emit (sql_notify_ops (\<lambda>_. [])) night_env [demo_transition PosInf ''warning'']
     (demo_tables []\<lparr>nd_policy := Some night_policy\<rparr>)) = []"
proof -
  have "get_policy (demo_tables []\<lparr>nd_policy := Some night_policy\<rparr>) = night_policy"
    by (simp add: get_policy_def demo_tables_def)
  moreover have "in_quiet_hours (de_zone night_env) night_policy 0" by code_simp
  moreover have "mode_for night_policy ''warning'' = mode_quiet" by code_simp
  ultimately show ?thesis
    using infinite_value_is_lost_in_quiet_hours [of night_env "demo_tables []\<lparr>nd_policy := Some night_policy\<rparr>"
        "demo_transition PosInf ''warning''" "\<lambda>_. []"]
    by (simp add: is_deferred_def demo_transition_def json_float_def subscribers_of_def)
      (simp add: night_env_def)
qed

theorem failed_read_loses_deferred_alerts_witness:
  "(demo_channel, test_message demo_channel 0, []) \<notin> set (ba_jobs (flush_pending ((sql_notify_ops (\<lambda>_. []))\<lparr>no_enabled := \<lambda>db. None\<rparr>) night_env
     (demo_tables [demo_pending ''1'' [] 0 ''fired''])))"
proof -
  let ?Q = "(sql_notify_ops (\<lambda>_. []))\<lparr>no_enabled := \<lambda>db. None\<rparr>"
  let ?db = "demo_tables [demo_pending ''1'' [] 0 ''fired'']"
  have "no_pending ?Q ?db = Some [demo_pending ''1'' [] 0 ''fired'']"
    by (simp add: sql_notify_ops_def list_pending_def demo_tables_def)
  moreover have "policy_in ?Q ?db [] = default_policy" by (simp add: policy_in_def sql_notify_ops_def)
  ultimately show ?thesis
    using failed_read_loses_deferred_alerts [of ?Q ?db "[demo_pending ''1'' [] 0 ''fired'']" "demo_pending ''1'' [] 0 ''fired''" night_env]
    by (simp add: demo_pending_def)
qed

end
