(* ===== verification/NotifyServer.thy ===== *)
theory NotifyServer
  imports NotifyClaims AuditLog
begin

text \<open>
  The routes of \<open>src/internal/notifications/handler.go\<close> (behind the gate
  \<open>cmd/server/main.go\<close> passes, global administrators) and \<open>me_handler.go\<close>
  (every signed-in user, on his own rows). A body is \<open>None\<close> when it is not the
  expected JSON; the request's user is empty when there is none.
\<close>

record notify_state = notify_db +
  nt_now :: int
  nt_audit :: "event list"

datatype notify_body =
    NtNone
  | NtError string
  | NtChannel channel_dto
  | NtChannels "channel_dto list"
  | NtDeliveries "delivery list"
  | NtRouting routing
  | NtRoutings "routing list"
  | NtPolicy policy
  | NtSubscription subscription
  | NtTest "string option"

type_synonym notify_reply = "nat \<times> notify_body"

text \<open>What the routes are given: URL parser, vault, zones, senders, opening of a secret, the drawn id.\<close>

record notify_env =
  ne_url :: "string \<Rightarrow> string option"
  ne_vault :: vault_fn
  ne_zone :: zone_db
  ne_senders :: "string \<Rightarrow> sender option"
  ne_open :: "(sealed \<Rightarrow> (string, string) result) option"
  ne_id :: string

definition notify_err :: "nat \<Rightarrow> string \<Rightarrow> notify_reply" where
  "notify_err st msg = (st, NtError msg)"

definition notify_event :: "string \<Rightarrow> string \<Rightarrow> string \<Rightarrow> string \<Rightarrow> event" where
  "notify_event act actor target label = \<lparr>ev_action = act, ev_outcome = ''success'', ev_actor = actor,
     ev_target = target, ev_label = label, ev_detail = []\<rparr>"

definition notify_log :: "event \<Rightarrow> 'a notify_state_scheme \<Rightarrow> 'a notify_state_scheme" where
  "notify_log e st = st\<lparr>nt_audit := audit_log_event e (nt_audit st)\<rparr>"

definition channel_get_error :: "notify_error \<Rightarrow> notify_reply" where
  "channel_get_error e = (if e = NotifyNotFound then notify_err 404 ''channel not found'' else notify_err 500 ''get failed'')"

definition channel_write_error :: "notify_error \<Rightarrow> string \<Rightarrow> notify_reply" where
  "channel_write_error e op =
     (case e of NotifyInvalid m \<Rightarrow> notify_err 400 m
      | NotifyNotFound \<Rightarrow> notify_err 404 ''channel not found''
      | NotifySql \<Rightarrow> notify_err 500 (op @ '' failed''))"

text \<open>The bound on a delivery list: the \<open>limit\<close> of the query when it is a smaller positive number.\<close>

definition delivery_limit :: "string \<Rightarrow> int" where
  "delivery_limit q = (if q = [] then 100 else
     (case atoi q of Some n \<Rightarrow> if 0 < n \<and> n < 100 then n else 100 | None \<Rightarrow> 100))"

definition test_ops :: "notify_env \<Rightarrow> 'a notify_state_scheme notify_ops" where
  "test_ops N = sql_notify_ops (\<lambda>_. ne_id N)"

section \<open>The shared routes\<close>

definition handle_channels :: "'a notify_state_scheme \<Rightarrow> notify_reply" where
  "handle_channels st = (200, NtChannels (map redacted (list_channels st)))"

definition handle_channel_create :: "notify_env \<Rightarrow> string \<Rightarrow> channel_input option \<Rightarrow> 'a notify_state_scheme
    \<Rightarrow> notify_reply \<times> 'a notify_state_scheme" where
  "handle_channel_create N uid b st =
     (case b of
        None \<Rightarrow> (notify_err 400 ''invalid JSON'', st)
      | Some x \<Rightarrow>
          if uid = [] then (notify_err 401 ''no user'', st)
          else
            (case create_channel (ne_url N) (ne_vault N) (ne_id N) (nt_now st) x uid st of
               Inl (NotifyInvalid m) \<Rightarrow> (notify_err 400 m, st)
             | Inl _ \<Rightarrow> (notify_err 500 ''create failed'', st)
             | Inr (c, st') \<Rightarrow> ((201, NtChannel (redacted c)),
                 notify_log (notify_event ''notification_channel.create'' uid (ch_id c) (ch_name c)) st')))"

definition handle_channel_get :: "string \<Rightarrow> 'a notify_state_scheme \<Rightarrow> notify_reply" where
  "handle_channel_get i st = (case get_channel i st of Inl e \<Rightarrow> channel_get_error e | Inr c \<Rightarrow> (200, NtChannel (redacted c)))"

definition handle_channel_update :: "notify_env \<Rightarrow> string \<Rightarrow> string \<Rightarrow> channel_input option \<Rightarrow> 'a notify_state_scheme
    \<Rightarrow> notify_reply \<times> 'a notify_state_scheme" where
  "handle_channel_update N uid i b st =
     (case get_channel i st of
        Inl e \<Rightarrow> (channel_get_error e, st)
      | Inr _ \<Rightarrow>
          (case b of
             None \<Rightarrow> (notify_err 400 ''invalid JSON'', st)
           | Some x \<Rightarrow>
               (case update_channel (ne_url N) (ne_vault N) i (nt_now st) x st of
                  Inl e \<Rightarrow> (channel_write_error e ''update'', st)
                | Inr (c, st') \<Rightarrow> ((200, NtChannel (redacted c)),
                    notify_log (notify_event ''notification_channel.update'' uid (ch_id c) (ch_name c)) st'))))"

definition handle_channel_delete :: "string \<Rightarrow> string \<Rightarrow> 'a notify_state_scheme \<Rightarrow> notify_reply \<times> 'a notify_state_scheme" where
  "handle_channel_delete uid i st =
     (case get_channel i st of
        Inl e \<Rightarrow> (channel_get_error e, st)
      | Inr c \<Rightarrow>
          (case delete_channel i st of
             Inl _ \<Rightarrow> (notify_err 500 ''delete failed'', st)
           | Inr st' \<Rightarrow> ((204, NtNone),
               notify_log (notify_event ''notification_channel.delete'' uid (ch_id c) (ch_name c)) st')))"

definition handle_channel_test :: "notify_env \<Rightarrow> string \<Rightarrow> string \<Rightarrow> 'a notify_state_scheme
    \<Rightarrow> notify_reply \<times> 'a notify_state_scheme" where
  "handle_channel_test N uid i st =
     (case get_channel i st of
        Inl e \<Rightarrow> (channel_get_error e, st)
      | Inr c \<Rightarrow>
          (let st1 = notify_log (notify_event ''notification_channel.test'' uid (ch_id c) (ch_name c)) st;
               (err, st2) = run_test (test_ops N) (ne_senders N) (ne_open N) (nt_now st) c [] st1
           in ((200, NtTest err), st2)))"

definition handle_deliveries :: "string \<Rightarrow> 'a notify_state_scheme \<Rightarrow> notify_reply" where
  "handle_deliveries q st = (200, NtDeliveries (list_deliveries (delivery_limit q) st))"

definition handle_routing_list :: "'a notify_state_scheme \<Rightarrow> notify_reply" where
  "handle_routing_list st = (200, NtRoutings (list_routing st))"

definition handle_routing_set :: "string \<Rightarrow> string \<Rightarrow> (string \<times> string list) option \<Rightarrow> 'a notify_state_scheme
    \<Rightarrow> notify_reply \<times> 'a notify_state_scheme" where
  "handle_routing_set uid r b st =
     (case b of
        None \<Rightarrow> (notify_err 400 ''invalid JSON'', st)
      | Some x \<Rightarrow>
          (case set_routing r x st of
             Inl (NotifyInvalid m) \<Rightarrow> (notify_err 400 m, st)
           | Inl _ \<Rightarrow> (notify_err 500 ''set routing failed'', st)
           | Inr st' \<Rightarrow> ((200, NtRouting (get_routing r st')),
               notify_log (notify_event ''notification_routing.update'' uid r (rt_mode (get_routing r st'))) st')))"

definition handle_policy_get :: "'a notify_state_scheme \<Rightarrow> notify_reply" where
  "handle_policy_get st = (200, NtPolicy (get_policy st))"

definition handle_policy_set :: "notify_env \<Rightarrow> string \<Rightarrow> policy option \<Rightarrow> 'a notify_state_scheme
    \<Rightarrow> notify_reply \<times> 'a notify_state_scheme" where
  "handle_policy_set N uid b st =
     (case b of
        None \<Rightarrow> (notify_err 400 ''invalid JSON'', st)
      | Some p \<Rightarrow>
          (case set_policy (ne_zone N) p st of
             Inl (NotifyInvalid m) \<Rightarrow> (notify_err 400 m, st)
           | Inl _ \<Rightarrow> (notify_err 500 ''set policy failed'', st)
           | Inr st' \<Rightarrow> ((200, NtPolicy (get_policy st')),
               notify_log (notify_event ''notification_policy.update'' uid ''policy'' (po_zone (get_policy st'))) st')))"

section \<open>The personal routes\<close>

definition me_channels :: "string \<Rightarrow> 'a notify_state_scheme \<Rightarrow> notify_reply" where
  "me_channels uid st = (200, NtChannels (map redacted (list_user_channels uid st)))"

definition me_channel_create :: "notify_env \<Rightarrow> string \<Rightarrow> channel_input option \<Rightarrow> 'a notify_state_scheme
    \<Rightarrow> notify_reply \<times> 'a notify_state_scheme" where
  "me_channel_create N uid b st =
     (case b of
        None \<Rightarrow> (notify_err 400 ''invalid JSON'', st)
      | Some x \<Rightarrow>
          (case create_user_channel (ne_url N) (ne_vault N) (ne_id N) (nt_now st) uid x st of
             Inl e \<Rightarrow> (channel_write_error e ''create'', st)
           | Inr (c, st') \<Rightarrow> ((201, NtChannel (redacted c)),
               notify_log (notify_event ''user_notification_channel.create'' uid (ch_id c) (ch_name c)) st')))"

definition me_channel_get :: "string \<Rightarrow> string \<Rightarrow> 'a notify_state_scheme \<Rightarrow> notify_reply" where
  "me_channel_get uid i st =
     (case get_user_channel uid i st of Inl e \<Rightarrow> channel_get_error e | Inr c \<Rightarrow> (200, NtChannel (redacted c)))"

definition me_channel_update :: "notify_env \<Rightarrow> string \<Rightarrow> string \<Rightarrow> channel_input option \<Rightarrow> 'a notify_state_scheme
    \<Rightarrow> notify_reply \<times> 'a notify_state_scheme" where
  "me_channel_update N uid i b st =
     (case b of
        None \<Rightarrow> (notify_err 400 ''invalid JSON'', st)
      | Some x \<Rightarrow>
          (case update_user_channel (ne_url N) (ne_vault N) (nt_now st) uid i x st of
             Inl e \<Rightarrow> (channel_write_error e ''update'', st)
           | Inr (c, st') \<Rightarrow> ((200, NtChannel (redacted c)),
               notify_log (notify_event ''user_notification_channel.update'' uid (ch_id c) (ch_name c)) st')))"

definition me_channel_delete :: "string \<Rightarrow> string \<Rightarrow> 'a notify_state_scheme \<Rightarrow> notify_reply \<times> 'a notify_state_scheme" where
  "me_channel_delete uid i st =
     (case get_user_channel uid i st of
        Inl e \<Rightarrow> (channel_get_error e, st)
      | Inr c \<Rightarrow>
          (case delete_user_channel uid i st of
             Inl _ \<Rightarrow> (notify_err 500 ''delete failed'', st)
           | Inr st' \<Rightarrow> ((204, NtNone),
               notify_log (notify_event ''user_notification_channel.delete'' uid (ch_id c) (ch_name c)) st')))"

definition me_channel_test :: "notify_env \<Rightarrow> string \<Rightarrow> string \<Rightarrow> 'a notify_state_scheme
    \<Rightarrow> notify_reply \<times> 'a notify_state_scheme" where
  "me_channel_test N uid i st =
     (case get_user_channel uid i st of
        Inl e \<Rightarrow> (channel_get_error e, st)
      | Inr c \<Rightarrow>
          (let st1 = notify_log (notify_event ''user_notification_channel.test'' uid (ch_id c) (ch_name c)) st;
               (err, st2) = run_test (test_ops N) (ne_senders N) (ne_open N) (nt_now st) c uid st1
           in ((200, NtTest err), st2)))"

definition me_subscription_get :: "string \<Rightarrow> 'a notify_state_scheme \<Rightarrow> notify_reply" where
  "me_subscription_get uid st = (200, NtSubscription (get_subscription uid st))"

definition me_subscription_set :: "string \<Rightarrow> subscription option \<Rightarrow> 'a notify_state_scheme
    \<Rightarrow> notify_reply \<times> 'a notify_state_scheme" where
  "me_subscription_set uid b st =
     (case b of
        None \<Rightarrow> (notify_err 400 ''invalid JSON'', st)
      | Some x \<Rightarrow>
          (case set_subscription uid x st of
             Inl (NotifyInvalid m) \<Rightarrow> (notify_err 400 m, st)
           | Inl _ \<Rightarrow> (notify_err 500 ''set subscription failed'', st)
           | Inr st' \<Rightarrow> ((200, NtSubscription (get_subscription uid st')),
               notify_log (notify_event ''user_notification_subscription.update'' uid uid []) st')))"

definition me_policy_get :: "string \<Rightarrow> 'a notify_state_scheme \<Rightarrow> notify_reply" where
  "me_policy_get uid st = (200, NtPolicy (get_user_policy uid st))"

definition me_policy_set :: "notify_env \<Rightarrow> string \<Rightarrow> policy option \<Rightarrow> 'a notify_state_scheme
    \<Rightarrow> notify_reply \<times> 'a notify_state_scheme" where
  "me_policy_set N uid b st =
     (case b of
        None \<Rightarrow> (notify_err 400 ''invalid JSON'', st)
      | Some p \<Rightarrow>
          (case set_user_policy (ne_zone N) uid p st of
             Inl (NotifyInvalid m) \<Rightarrow> (notify_err 400 m, st)
           | Inl _ \<Rightarrow> (notify_err 500 ''set policy failed'', st)
           | Inr st' \<Rightarrow> ((200, NtPolicy (get_user_policy uid st')),
               notify_log (notify_event ''user_notification_policy.update'' uid uid []) st')))"

definition me_deliveries :: "string \<Rightarrow> string \<Rightarrow> 'a notify_state_scheme \<Rightarrow> notify_reply" where
  "me_deliveries uid q st = (200, NtDeliveries (list_user_deliveries uid (delivery_limit q) st))"

section \<open>Requests\<close>

datatype notify_call =
    ChannelList | ChannelCreate "channel_input option" | ChannelGet string | ChannelUpdate string "channel_input option"
  | ChannelDelete string | ChannelTest string | DeliveryList string | RoutingList
  | RoutingSet string "(string \<times> string list) option" | PolicyGet | PolicySet "policy option"

datatype me_call =
    MyChannels | MyChannelCreate "channel_input option" | MyChannelGet string | MyChannelUpdate string "channel_input option"
  | MyChannelDelete string | MyChannelTest string | MySubscription | MySubscriptionSet "subscription option"
  | MyPolicy | MyPolicySet "policy option" | MyDeliveries string

fun serve_shared :: "notify_env \<Rightarrow> string \<Rightarrow> notify_call \<Rightarrow> 'a notify_state_scheme \<Rightarrow> notify_reply \<times> 'a notify_state_scheme" where
  "serve_shared N uid ChannelList st = (handle_channels st, st)"
| "serve_shared N uid (ChannelCreate b) st = handle_channel_create N uid b st"
| "serve_shared N uid (ChannelGet i) st = (handle_channel_get i st, st)"
| "serve_shared N uid (ChannelUpdate i b) st = handle_channel_update N uid i b st"
| "serve_shared N uid (ChannelDelete i) st = handle_channel_delete uid i st"
| "serve_shared N uid (ChannelTest i) st = handle_channel_test N uid i st"
| "serve_shared N uid (DeliveryList q) st = (handle_deliveries q st, st)"
| "serve_shared N uid RoutingList st = (handle_routing_list st, st)"
| "serve_shared N uid (RoutingSet r b) st = handle_routing_set uid r b st"
| "serve_shared N uid PolicyGet st = (handle_policy_get st, st)"
| "serve_shared N uid (PolicySet b) st = handle_policy_set N uid b st"

fun serve_own :: "notify_env \<Rightarrow> string \<Rightarrow> me_call \<Rightarrow> 'a notify_state_scheme \<Rightarrow> notify_reply \<times> 'a notify_state_scheme" where
  "serve_own N uid MyChannels st = (me_channels uid st, st)"
| "serve_own N uid (MyChannelCreate b) st = me_channel_create N uid b st"
| "serve_own N uid (MyChannelGet i) st = (me_channel_get uid i st, st)"
| "serve_own N uid (MyChannelUpdate i b) st = me_channel_update N uid i b st"
| "serve_own N uid (MyChannelDelete i) st = me_channel_delete uid i st"
| "serve_own N uid (MyChannelTest i) st = me_channel_test N uid i st"
| "serve_own N uid MySubscription st = (me_subscription_get uid st, st)"
| "serve_own N uid (MySubscriptionSet b) st = me_subscription_set uid b st"
| "serve_own N uid MyPolicy st = (me_policy_get uid st, st)"
| "serve_own N uid (MyPolicySet b) st = me_policy_set N uid b st"
| "serve_own N uid (MyDeliveries q) st = (me_deliveries uid q st, st)"

text \<open>The gate of the shared routes, \<open>None\<close> a request without a scope, and of the personal ones.\<close>

definition serve_notify :: "notify_env \<Rightarrow> scope option \<Rightarrow> string \<Rightarrow> notify_call \<Rightarrow> 'a notify_state_scheme
    \<Rightarrow> notify_reply \<times> 'a notify_state_scheme" where
  "serve_notify N sc uid k st =
     (if (case sc of None \<Rightarrow> False | Some s \<Rightarrow> is_global_admin s) then serve_shared N uid k st
      else (notify_err 403 ''forbidden'', st))"

definition serve_me :: "notify_env \<Rightarrow> string \<Rightarrow> me_call \<Rightarrow> 'a notify_state_scheme \<Rightarrow> notify_reply \<times> 'a notify_state_scheme" where
  "serve_me N uid k st = (if uid = [] then (notify_err 401 ''no user'', st) else serve_own N uid k st)"

end
