(* ===== verification/NotifyProps.thy ===== *)
theory NotifyProps
  imports NotifyServer
begin

text \<open>
  What the notification routes and the background work keep true of the tables, and that the
  personal routes keep to the rows of the user who calls them.
\<close>

section \<open>Sound tables\<close>

definition channel_ok :: "(string \<Rightarrow> string option) \<Rightarrow> channel \<Rightarrow> bool" where
  "channel_ok U c \<longleftrightarrow> ch_name c \<noteq> [] \<and> length (ch_name c) \<le> max_channel_name \<and> channel_type_valid (ch_type c)
     \<and> validate_config U (ch_type c) [] (ch_config c) = Inr (ch_config c)
     \<and> (requires_secret (ch_type c) \<longrightarrow> \<not> sealed_is_zero (ch_secret c))"

definition subscription_ok :: "subscription \<Rightarrow> bool" where
  "subscription_ok s \<longleftrightarrow> distinct (sb_groups s) \<and> [] \<notin> set (sb_groups s) \<and> distinct (sb_severities s)
     \<and> set (sb_severities s) \<subseteq> fst ` set default_severities"

definition channels_ok :: "(string \<Rightarrow> string option) \<Rightarrow> channel list \<Rightarrow> (string \<times> channel) list \<Rightarrow> bool" where
  "channels_ok U cs ucs \<longleftrightarrow> distinct (map ch_id cs) \<and> (\<forall>c\<in>set cs. channel_ok U c)
     \<and> distinct (map (ch_id \<circ> snd) ucs) \<and> (\<forall>(u, c)\<in>set ucs. u \<noteq> [] \<and> channel_ok U c)"

definition routes_ok :: "(string \<times> string) list \<Rightarrow> (string \<times> string) list \<Rightarrow> bool" where
  "routes_ok rts rcs \<longleftrightarrow> distinct (map fst rts) \<and> distinct rcs \<and> (\<forall>(r, m)\<in>set rts. m = route_all \<or> m = route_selected)
     \<and> (\<forall>(r, i)\<in>set rcs. i \<noteq> [] \<and> (r, route_selected) \<in> set rts)"

definition policies_ok :: "zone_db \<Rightarrow> policy option \<Rightarrow> (string \<times> policy) list \<Rightarrow> (string \<times> subscription) list \<Rightarrow> bool" where
  "policies_ok Z pol pols subs \<longleftrightarrow> (\<forall>p. pol = Some p \<longrightarrow> validate_policy Z p = Inr p)
     \<and> (\<forall>(u, p)\<in>set pols. u \<noteq> [] \<and> validate_policy Z p = Inr p) \<and> (\<forall>(u, s)\<in>set subs. u \<noteq> [] \<and> subscription_ok s)"

definition notify_ok :: "(string \<Rightarrow> string option) \<Rightarrow> zone_db \<Rightarrow> 'a notify_db_scheme \<Rightarrow> bool" where
  "notify_ok U Z db \<longleftrightarrow> channels_ok U (nd_channels db) (nd_user_channels db)
     \<and> routes_ok (nd_routes db) (nd_route_channels db) \<and> policies_ok Z (nd_policy db) (nd_policies db) (nd_subs db)
     \<and> distinct (map pe_id (nd_pending db))"

text \<open>The vault's ciphertexts are not empty (AES-GCM appends its tag).\<close>

definition seals_visibly :: "vault_fn \<Rightarrow> bool" where
  "seals_visibly V \<longleftrightarrow> (\<forall>seal p s. V = Some seal \<longrightarrow> seal p = Some s \<longrightarrow> \<not> sealed_is_zero s)"

section \<open>Validated input\<close>

lemma bad_simps [simp]: "bad m \<noteq> Inr x" "Inr x \<noteq> bad m"
  by (simp_all add: bad_def)

lemma channel_types_distinct [simp]:
  "type_email \<noteq> type_slack" "type_email \<noteq> type_webhook" "type_email \<noteq> type_sms" "type_slack \<noteq> type_webhook"
  "type_slack \<noteq> type_sms" "type_webhook \<noteq> type_sms" "type_slack \<noteq> type_email" "type_webhook \<noteq> type_email"
  "type_sms \<noteq> type_email" "type_webhook \<noteq> type_slack" "type_sms \<noteq> type_slack" "type_sms \<noteq> type_webhook"
  by (simp_all add: channel_types)

lemma validate_config_stable:
  assumes "validate_config U t secret c = Inr c'"
  shows "validate_config U t [] c' = Inr c'"
proof -
  consider "t = type_email" | "t = type_slack" | "t = type_webhook" | "t = type_sms"
    | "t \<noteq> type_email \<and> t \<noteq> type_slack \<and> t \<noteq> type_webhook \<and> t \<noteq> type_sms" by blast
  then show ?thesis
  proof cases
    case 1
    then show ?thesis using assms by (simp add: validate_config_def split: if_splits)
  next
    case 2
    then have "c' = c" using assms by (simp add: validate_config_def split: if_splits sum.splits)
    then show ?thesis using 2 by (simp add: validate_config_def)
  next
    case 3
    define d where "d = (if cc_method c = [] then c\<lparr>cc_method := ''POST''\<rparr> else c)"
    have d: "cc_method d \<noteq> []" "cc_url d = cc_url c" by (simp_all add: d_def)
    have "(case validate_url U (cc_url c) of Inl e \<Rightarrow> bad (''url: '' @ e) | Inr _ \<Rightarrow>
        let c = d in if cc_method c \<noteq> ''POST'' \<and> cc_method c \<noteq> ''PUT'' then bad ''method must be POST or PUT'' else Inr c) = Inr c'"
      using assms 3 unfolding validate_config_def d_def by simp
    then have "validate_url U (cc_url c) = Inr ()" "c' = d" "cc_method d = ''POST'' \<or> cc_method d = ''PUT''"
      by (auto simp: Let_def split: sum.splits if_splits)
    then show ?thesis using 3 d by (auto simp: validate_config_def Let_def)
  next
    case 4
    define d where "d = (if cc_base_url c = [] then c\<lparr>cc_base_url := default_sms_base_url\<rparr> else c)"
    have "cc_base_url d \<noteq> []" by (simp add: d_def default_sms_base_url_def)
    moreover have "(case validate_url U (cc_base_url d) of Inl e \<Rightarrow> bad (''baseURL: '' @ e) | Inr _ \<Rightarrow>
        if cc_account_sid d = [] then bad ''accountSID is required for an sms channel''
        else if cc_from d = [] then bad ''from is required for an sms channel''
        else if cc_to d = [] then bad ''at least one recipient (to) is required'' else Inr d) = Inr c'"
      using assms 4 by (simp add: validate_config_def Let_def flip: d_def)
    ultimately show ?thesis using 4
      by (cases "validate_url U (cc_base_url d)") (simp_all add: validate_config_def Let_def split: if_splits)
  next
    case 5
    then have "c' = c" using assms by (simp add: validate_config_def)
    then show ?thesis using 5 by (simp add: validate_config_def)
  qed
qed

lemma validate_channel_ok:
  assumes "validate_channel U x = Inr y"
  shows "ci_name y \<noteq> [] \<and> length (ci_name y) \<le> max_channel_name \<and> channel_type_valid (ci_type y)
    \<and> validate_config U (ci_type y) [] (ci_config y) = Inr (ci_config y)"
  using assms validate_config_stable unfolding validate_channel_def
  by (auto simp: Let_def split: if_splits sum.splits)

lemma seal_secret_ok: "seals_visibly V \<Longrightarrow> seal_secret V p = Inr s \<Longrightarrow> p \<noteq> [] \<Longrightarrow> \<not> sealed_is_zero s"
  by (auto simp: seal_secret_def seals_visibly_def split: option.splits)

lemma new_channel_ok:
  assumes "validate_channel U x = Inr y" and "seals_visibly V" and "new_channel V i now y u = Inr c"
  shows "channel_ok U c \<and> ch_id c = i"
proof -
  from assms(3) obtain s where "seal_secret V (ci_secret y) = Inr s" and n: "\<not> (requires_secret (ci_type y) \<and> ci_secret y = [])"
    and "c = \<lparr>ch_id = i, ch_name = ci_name y, ch_type = ci_type y, ch_enabled = ci_enabled y, ch_config = ci_config y,
             ch_secret = s, ch_by = u, ch_created = now, ch_updated = now\<rparr>"
    by (auto simp: new_channel_def split: if_splits)
  then show ?thesis using validate_channel_ok [OF assms(1)] seal_secret_ok [OF assms(2)] by (auto simp: channel_ok_def)
qed

lemma set_channel_ok:
  assumes "validate_channel U x = Inr y" and "updated_secret V y old = Inr s"
  shows "channel_ok U (set_channel y s now c) \<and> ch_id (set_channel y s now c) = ch_id c"
  using validate_channel_ok [OF assms(1)] assms(2)
  by (auto simp: channel_ok_def set_channel_def updated_secret_def split: if_splits)

lemma validate_policy_stable: "validate_policy Z p = Inr q \<Longrightarrow> validate_policy Z q = Inr q"
  unfolding validate_policy_def
  by (cases "trim_space (po_zone p) = []") (auto simp: Let_def split: if_splits sum.splits)

lemma validate_subscription_ok:
  assumes "validate_subscription s = Inr t"
  shows "subscription_ok t"
proof -
  have "(map_of default_severities x = None) = (x \<notin> fst ` set default_severities)" for x
    by (simp add: map_of_eq_None_iff)
  then show ?thesis
    using assms dedupe_correct unfolding validate_subscription_def
    by (auto simp: Let_def subscription_ok_def first_err_Inr_iff split: sum.splits if_splits)
qed

lemma validate_routing_ok:
  assumes "validate_routing x = Inr (m, ids)"
  shows "(m = route_all \<and> ids = [] \<or> m = route_selected) \<and> distinct ids \<and> [] \<notin> set ids"
  using assms dedupe_correct [of "snd x"] unfolding validate_routing_def
  by (auto simp: Let_def split: if_splits)

section \<open>Every operation keeps the tables sound\<close>

lemma notify_ok_audit [simp]: "notify_ok U Z (notify_log e st) = notify_ok U Z st"
  by (simp add: notify_ok_def notify_log_def)

lemma notify_ok_deliveries [simp]: "notify_ok U Z (db\<lparr>nd_deliveries := x\<rparr>) = notify_ok U Z db"
  by (simp add: notify_ok_def)

lemma create_channel_ok:
  assumes "notify_ok U Z db" and "seals_visibly V" and "create_channel U V i now x u db = Inr (c, db')"
  shows "notify_ok U Z db'"
proof -
  from assms(3) obtain y where y: "validate_channel U x = Inr y" "new_channel V i now y u = Inr c"
    and i: "i \<notin> ch_id ` set (nd_channels db)" and db': "db' = db\<lparr>nd_channels := nd_channels db @ [c]\<rparr>"
    by (auto simp: create_channel_def split: if_splits)
  from new_channel_ok [OF y(1) assms(2) y(2)] i assms(1) show ?thesis
    unfolding db' notify_ok_def channels_ok_def by auto
qed

lemma create_user_channel_ok:
  assumes "notify_ok U Z db" and "seals_visibly V" and "create_user_channel U V i now u x db = Inr (c, db')"
  shows "notify_ok U Z db'"
proof -
  from assms(3) obtain y where y: "validate_channel U x = Inr y" "new_channel V i now y u = Inr c" and u: "u \<noteq> []"
    and i: "i \<notin> (ch_id \<circ> snd) ` set (nd_user_channels db)" and db': "db' = db\<lparr>nd_user_channels := nd_user_channels db @ [(u, c)]\<rparr>"
    by (auto simp: create_user_channel_def split: if_splits)
  from new_channel_ok [OF y(1) assms(2) y(2)] i u assms(1) show ?thesis
    unfolding db' notify_ok_def channels_ok_def by auto
qed

lemma update_channel_ok:
  assumes "notify_ok U Z db" and "update_channel U V i now x db = Inr (c, db')"
  shows "notify_ok U Z db'"
proof -
  from assms(2) obtain y old s where y: "validate_channel U x = Inr y" "updated_secret V y old = Inr s"
    and db': "db' = db\<lparr>nd_channels := update_where (\<lambda>c. ch_id c = i) (set_channel y s now) (nd_channels db)\<rparr>"
    by (auto simp: update_channel_def Let_def)
  note ok = set_channel_ok [OF y, of now]
  have "map ch_id (nd_channels db') = map ch_id (nd_channels db)"
    unfolding db' using ok by (simp add: map_update_where)
  with ok assms(1) show ?thesis unfolding db' notify_ok_def channels_ok_def by auto
qed

lemma update_user_channel_ok:
  assumes "notify_ok U Z db" and "update_user_channel U V now u i x db = Inr (c, db')"
  shows "notify_ok U Z db'"
proof -
  from assms(2) obtain y old s where y: "validate_channel U x = Inr y" "updated_secret V y old = Inr s"
    and db': "db' = db\<lparr>nd_user_channels := update_where (\<lambda>uc. ch_id (snd uc) = i \<and> fst uc = u)
                  (\<lambda>uc. (fst uc, set_channel y s now (snd uc))) (nd_user_channels db)\<rparr>"
    by (auto simp: update_user_channel_def Let_def)
  note ok = set_channel_ok [OF y, of now]
  have "map (ch_id \<circ> snd) (nd_user_channels db') = map (ch_id \<circ> snd) (nd_user_channels db)"
    unfolding db' using ok by (simp add: map_update_where)
  with ok assms(1) show ?thesis unfolding db' notify_ok_def channels_ok_def by (auto split: if_splits)
qed

lemma delete_channel_ok:
  assumes "notify_ok U Z db" and "delete_channel i db = Inr db'"
  shows "notify_ok U Z db'"
proof -
  have db': "db' = db\<lparr>nd_channels := delete_where (\<lambda>c. ch_id c = i) (nd_channels db),
      nd_route_channels := delete_where (\<lambda>rc. snd rc = i) (nd_route_channels db)\<rparr>"
    using assms(2) by (simp add: delete_channel_def split: if_splits)
  have "channels_ok U (nd_channels db') (nd_user_channels db)"
    using assms(1) distinct_map_delete_where [of ch_id "nd_channels db"] by (auto simp: db' notify_ok_def channels_ok_def)
  moreover have "routes_ok (nd_routes db) (nd_route_channels db')"
    using assms(1) by (auto simp: db' notify_ok_def routes_ok_def delete_where_def)
  ultimately show ?thesis using assms(1) by (simp add: notify_ok_def db')
qed

lemma delete_user_channel_ok:
  assumes "notify_ok U Z db" and "delete_user_channel u i db = Inr db'"
  shows "notify_ok U Z db'"
proof -
  have "db' = db\<lparr>nd_user_channels := delete_where (\<lambda>uc. ch_id (snd uc) = i \<and> fst uc = u) (nd_user_channels db)\<rparr>"
    using assms(2) by (simp add: delete_user_channel_def split: if_splits)
  then show ?thesis using assms(1) distinct_map_delete_where [of "ch_id \<circ> snd" "nd_user_channels db"]
    by (auto simp: notify_ok_def channels_ok_def)
qed

lemma put_values_all: "(k', v') \<in> set (alist_put k v kvs) \<Longrightarrow> k' = k \<and> v' = v \<or> (k', v') \<in> set kvs"
  by (induction k v kvs rule: alist_put.induct) (auto split: if_splits)

lemma put_in: "(k, v) \<in> set (alist_put k v kvs)"
  by (induction k v kvs rule: alist_put.induct) auto

lemma put_keeps: "(k', v') \<in> set kvs \<Longrightarrow> k' \<noteq> k \<Longrightarrow> (k', v') \<in> set (alist_put k v kvs)"
  by (induction k v kvs rule: alist_put.induct) auto

lemma set_routing_ok:
  assumes "notify_ok U Z db" and "set_routing r x db = Inr db'"
  shows "notify_ok U Z db'"
proof -
  from assms(2) obtain m ids where v: "validate_routing x = Inr (m, ids)" and d: "distinct ids"
    and db': "db' = db\<lparr>nd_routes := alist_put r m (nd_routes db),
        nd_route_channels := delete_where (\<lambda>rc. fst rc = r) (nd_route_channels db) @ map (Pair r) ids\<rparr>"
    by (auto simp: set_routing_def Let_def split: if_splits)
  note ok = validate_routing_ok [OF v]
  have old: "routes_ok (nd_routes db) (nd_route_channels db)" using assms(1) by (simp add: notify_ok_def)
  have "routes_ok (nd_routes db') (nd_route_channels db')"
    unfolding routes_ok_def db'
  proof (intro conjI)
    show "distinct (map fst (nd_routes (db\<lparr>nd_routes := alist_put r m (nd_routes db), nd_route_channels :=
        delete_where (\<lambda>rc. fst rc = r) (nd_route_channels db) @ map (Pair r) ids\<rparr>)))"
      using old by (simp add: routes_ok_def)
  qed (use old d ok in \<open>auto simp: routes_ok_def delete_where_def distinct_map inj_on_def
      intro: put_in put_keeps dest!: put_values_all\<close>)
  then show ?thesis using assms(1) by (simp add: notify_ok_def db')
qed

lemma set_policy_ok: "notify_ok U Z db \<Longrightarrow> set_policy Z p db = Inr db' \<Longrightarrow> notify_ok U Z db'"
  using validate_policy_stable by (auto simp: set_policy_def notify_ok_def policies_ok_def)

lemma set_user_policy_ok: "notify_ok U Z db \<Longrightarrow> set_user_policy Z u p db = Inr db' \<Longrightarrow> notify_ok U Z db'"
  using validate_policy_stable
  by (auto simp: set_user_policy_def notify_ok_def policies_ok_def dest!: put_values_all split: if_splits)

lemma set_subscription_ok: "notify_ok U Z db \<Longrightarrow> set_subscription u s db = Inr db' \<Longrightarrow> notify_ok U Z db'"
  using validate_subscription_ok
  by (auto simp: set_subscription_def notify_ok_def policies_ok_def dest!: put_values_all split: if_splits)

lemma enqueue_ok: "notify_ok U Z db \<Longrightarrow> enqueue_pending i p db = Inr db' \<Longrightarrow> notify_ok U Z db'"
  by (auto simp: enqueue_pending_def notify_ok_def Let_def split: if_splits)

lemma record_ok: "notify_ok U Z db \<Longrightarrow> record_delivery i d db = Inr db' \<Longrightarrow> notify_ok U Z db'"
  by (auto simp: record_delivery_def Let_def split: if_splits)

lemma delete_pending_ok: "notify_ok U Z db \<Longrightarrow> notify_ok U Z (delete_pending ids db)"
  by (simp add: notify_ok_def delete_pending_def distinct_map_delete_where)

section \<open>The server's life\<close>

text \<open>
  What happens to the tables: a request to the shared routes, a personal request, a batch of
  alerts, a flush, a send that ends. The URL parser and the zones are the same throughout; the vault,
  the senders, the drawn ids and the clock may differ from step to step.
\<close>

inductive notify_step :: "(string \<Rightarrow> string option) \<Rightarrow> zone_db \<Rightarrow> notify_state \<Rightarrow> notify_state \<Rightarrow> bool" for U Z where
  shared: "ne_url N = U \<Longrightarrow> ne_zone N = Z \<Longrightarrow> seals_visibly (ne_vault N) \<Longrightarrow>
    serve_notify N sc uid k st = (r, st') \<Longrightarrow> notify_step U Z st st'"
| own: "ne_url N = U \<Longrightarrow> ne_zone N = Z \<Longrightarrow> seals_visibly (ne_vault N) \<Longrightarrow>
    serve_me N uid k st = (r, st') \<Longrightarrow> notify_step U Z st st'"
| batch: "notify_step U Z st (ba_store (emit (sql_notify_ops G) E trs st))"
| flush: "notify_step U Z st (ba_store (flush_pending (sql_notify_ops G) E st))"
| sent: "notify_step U Z st (deliver (sql_notify_ops G) S W t j st)"
| clock: "notify_step U Z st (st\<lparr>nt_now := t\<rparr>)"

definition empty_notify :: notify_state where
  "empty_notify = \<lparr>nd_channels = [], nd_user_channels = [], nd_deliveries = [], nd_routes = [], nd_route_channels = [],
     nd_policy = None, nd_pending = [], nd_subs = [], nd_policies = [], nt_now = 0, nt_audit = []\<rparr>"

inductive notify_reachable :: "(string \<Rightarrow> string option) \<Rightarrow> zone_db \<Rightarrow> notify_state \<Rightarrow> bool" for U Z where
  start: "notify_reachable U Z empty_notify"
| step: "notify_reachable U Z st \<Longrightarrow> notify_step U Z st st' \<Longrightarrow> notify_reachable U Z st'"

lemma run_test_ok:
  "run_test (sql_notify_ops G) S W t c u st = (e, st') \<Longrightarrow> notify_ok U Z st \<Longrightarrow> notify_ok U Z st'"
  by (auto simp: run_test_def Let_def dest: record_ok split: option.splits sum.splits)

lemmas notify_ops_ok = create_channel_ok create_user_channel_ok update_channel_ok update_user_channel_ok
  delete_channel_ok delete_user_channel_ok set_routing_ok set_policy_ok set_user_policy_ok set_subscription_ok run_test_ok

lemma serve_shared_ok:
  assumes "notify_ok (ne_url N) (ne_zone N) st" and "seals_visibly (ne_vault N)" and "serve_shared N uid k st = (r, st')"
  shows "notify_ok (ne_url N) (ne_zone N) st'"
proof (cases k)
  case (ChannelTest i)
  then show ?thesis using assms
    by (auto simp: handle_channel_test_def test_ops_def Let_def split: sum.splits prod.splits dest: run_test_ok)
qed (use assms in \<open>auto simp: handle_channel_create_def handle_channel_update_def handle_channel_delete_def handle_routing_set_def
      handle_policy_set_def split: option.splits sum.splits notify_error.splits if_splits prod.splits dest: notify_ops_ok\<close>)

lemma serve_own_ok:
  assumes "notify_ok (ne_url N) (ne_zone N) st" and "seals_visibly (ne_vault N)" and "serve_own N uid k st = (r, st')"
  shows "notify_ok (ne_url N) (ne_zone N) st'"
proof (cases k)
  case (MyChannelTest i)
  then show ?thesis using assms
    by (auto simp: me_channel_test_def test_ops_def Let_def split: sum.splits prod.splits dest: run_test_ok)
qed (use assms in \<open>auto simp: me_channel_create_def me_channel_update_def me_channel_delete_def me_subscription_set_def
      me_policy_set_def split: option.splits sum.splits notify_error.splits if_splits prod.splits dest: notify_ops_ok\<close>)

text \<open>A property of the store that its writes keep is kept by a batch.\<close>

context notify_store
begin

lemma emit_keeps:
  assumes rec: "\<And>d s t. P s \<Longrightarrow> no_record Q d s = Some t \<Longrightarrow> P t"
    and enq: "\<And>p s t. P s \<Longrightarrow> no_enqueue Q p s = Some t \<Longrightarrow> P t"
    and "P s"
  shows "P (ba_store (emit Q E trs s))"
proof -
  have rs: "P (ba_store (record_status Q E msg st u b))" if "P (ba_store b)" for msg st u b
    using that rec by (auto simp: record_status_def read_clock_def Let_def split: option.splits)
  have df: "P (ba_store (defer_send Q E tr msg u b))" if "P (ba_store b)" for tr msg u b
    using that enq rs by (auto simp: defer_send_def read_clock_def split: option.splits)
  have rt: "ba_store (snd (routed_targets Q r en b)) = ba_store b" for r en b
    by (simp add: routed_targets_def Let_def split: option.splits)
  have up: "ba_store (snd (user_policy Q u b)) = ba_store b" for u b
    by (simp add: user_policy_def Let_def split: option.splits)
  have uc: "ba_store (snd (user_channels Q u b)) = ba_store b" for u b
    by (simp add: user_channels_def Let_def split: option.splits)
  have sr: "ba_store (send_routed Q en tr msg b) = ba_store b" for en tr msg b
    using rt [of "ru_id (tr_rule tr)" en b] by (cases "routed_targets Q (ru_id (tr_rule tr)) en b") (simp add: send_routed_def fan_out_def)
  have sh: "P (ba_store (emit_shared Q E p quiet en tr msg b))" if "P (ba_store b)" for p quiet en tr msg b
    using that rs df sr by (simp add: emit_shared_def Let_def)
  have pe: "P (ba_store (emit_personal Q E now tr msg u b))" if "P (ba_store b)" for now tr msg u b
  proof -
    obtain p b1 where p: "user_policy Q u b = (p, b1)" by (cases "user_policy Q u b")
    obtain cs b2 where c: "user_channels Q u b1 = (cs, b2)" by (cases "user_channels Q u b1")
    have "ba_store b1 = ba_store b" "ba_store b2 = ba_store b1" using up [of u b] uc [of u b1] p c by simp_all
    then show ?thesis using that rs df by (simp add: emit_personal_def p c Let_def fan_out_def)
  qed
  have fp: "P (ba_store (fold (emit_personal Q E now tr msg) us b))" if "P (ba_store b)" for now tr msg us b
    using that by (induction us arbitrary: b) (simp_all add: pe)
  have one: "P (ba_store (emit_one Q E p now en tr b))" if "P (ba_store b)" for p now en tr b
    using that sh fp by (simp add: emit_one_def dispatch_personal_def Let_def split: option.splits)
  have "P (ba_store (fold (emit_one Q E p now en) trs b))" if "P (ba_store b)" for p now en b
    using that by (induction trs arbitrary: b) (simp_all add: one)
  then show ?thesis using assms(3) by (simp add: emit_def read_clock_def new_batch_def split: option.splits)
qed

end

lemma notify_step_ok:
  assumes "notify_step U Z st st'" and "notify_ok U Z st"
  shows "notify_ok U Z st'"
  using assms
proof (cases rule: notify_step.cases)
  case (shared N sc uid k r)
  then show ?thesis using assms(2) serve_shared_ok [of N st uid k r st']
    by (auto simp: serve_notify_def split: if_splits)
next
  case (own N uid k r)
  then show ?thesis using assms(2) serve_own_ok [of N st uid k r st']
    by (auto simp: serve_me_def split: if_splits)
next
  case (batch G E trs)
  have "notify_ok U Z (ba_store (emit (sql_notify_ops G) E trs st))"
    by (rule sql_notify.emit_keeps) (use assms(2) in \<open>auto split: sum.splits dest: record_ok enqueue_ok\<close>)
  then show ?thesis using batch by simp
next
  case (flush G E)
  then show ?thesis using assms(2) by (simp add: flush_sql_store delete_pending_ok)
next
  case (sent G S W t j)
  then show ?thesis using assms(2) by (auto simp: deliver_def dest: record_ok split: prod.splits option.splits sum.splits)
next
  case (clock t)
  then show ?thesis using assms(2) by (simp add: notify_ok_def)
qed

section \<open>Claims\<close>

text \<open>
  C21: in every state the server can reach the tables are sound: channel ids are unique, every
  channel, shared or personal, is named, of a known type with a configuration its
  sender accepts, and has its secret where the type cannot work without one; only rules routed to
  selected channels have a selection; stored policies are valid and normalised; stored
  subscriptions name known severities only; personal rows have an owner.
\<close>

theorem notification_tables_stay_sound:
  "notify_reachable U Z st \<Longrightarrow> notify_ok U Z st"
proof (induction rule: notify_reachable.induct)
  case start
  show ?case by (simp add: notify_ok_def empty_notify_def channels_ok_def routes_ok_def policies_ok_def)
next
  case (step st st')
  then show ?case by (blast intro: notify_step_ok)
qed

subsection \<open>Personal routes\<close>

text \<open>What a user owns: his channels, subscription, policy and log; and what everybody shares.\<close>

definition own_view :: "string \<Rightarrow> 'a notify_db_scheme \<Rightarrow> (string \<times> channel) list \<times> subscription option \<times> policy option \<times> delivery list" where
  "own_view u db = (filter (\<lambda>uc. fst uc = u) (nd_user_channels db), map_of (nd_subs db) u, map_of (nd_policies db) u,
     filter (\<lambda>d. dl_user d = u) (nd_deliveries db))"

definition shared_view :: "'a notify_db_scheme \<Rightarrow> channel list \<times> (string \<times> string) list \<times> (string \<times> string) list \<times> policy option \<times> pending list" where
  "shared_view db = (nd_channels db, nd_routes db, nd_route_channels db, nd_policy db, nd_pending db)"

definition keeps_others :: "string \<Rightarrow> 'a notify_db_scheme \<Rightarrow> 'a notify_db_scheme \<Rightarrow> bool" where
  "keeps_others u db db' \<longleftrightarrow> (\<forall>v. v \<noteq> u \<longrightarrow> own_view v db' = own_view v db) \<and> shared_view db' = shared_view db"

lemma keeps_others_refl [simp]: "keeps_others u db db"
  by (simp add: keeps_others_def)

lemma keeps_others_log [simp]: "keeps_others u st (notify_log e st') = keeps_others u st st'"
  by (simp add: keeps_others_def own_view_def shared_view_def notify_log_def)

lemma keeps_others_log_left [simp]: "keeps_others u (notify_log e st) st' = keeps_others u st st'"
  by (simp add: keeps_others_def own_view_def shared_view_def notify_log_def)

lemma notify_log_channels [simp]: "nd_user_channels (notify_log e st) = nd_user_channels st"
  by (simp add: notify_log_def)

lemma create_own: "create_user_channel U V i now u x db = Inr (c, db') \<Longrightarrow>
    keeps_others u db db' \<and> (u, c) \<in> set (nd_user_channels db')"
  by (auto simp: create_user_channel_def keeps_others_def own_view_def shared_view_def split: if_splits)

lemma get_own: "get_user_channel u i db = Inr c \<Longrightarrow> (u, c) \<in> set (nd_user_channels db)"
  by (auto simp: get_user_channel_def split: option.splits dest!: find_Some_in)

lemma filter_update_where:
  assumes "\<And>r. p r \<Longrightarrow> \<not> q r" and "\<And>r. p r \<Longrightarrow> \<not> q (f r)"
  shows "filter q (update_where p f rs) = filter q rs"
  using assms by (induction rs) (auto simp: update_where_def)

lemma update_own:
  assumes "update_user_channel U V now u i x db = Inr (c, db')"
  shows "keeps_others u db db' \<and> (u, c) \<in> set (nd_user_channels db')"
proof -
  from assms obtain f where f: "\<And>uc. fst (f uc) = fst uc"
    and db': "db' = db\<lparr>nd_user_channels := update_where (\<lambda>uc. ch_id (snd uc) = i \<and> fst uc = u) f (nd_user_channels db)\<rparr>"
    and c: "get_user_channel u i db' = Inr c"
    by (force simp: update_user_channel_def Let_def)
  have "filter (\<lambda>uc. fst uc = v) (nd_user_channels db') = filter (\<lambda>uc. fst uc = v) (nd_user_channels db)" if "v \<noteq> u" for v
    unfolding db' using that f by (simp, intro filter_update_where) auto
  then show ?thesis using get_own [OF c] by (simp add: keeps_others_def own_view_def shared_view_def) (simp add: db')
qed

lemma delete_own: "delete_user_channel u i db = Inr db' \<Longrightarrow> keeps_others u db db'"
  by (auto simp: delete_user_channel_def keeps_others_def own_view_def shared_view_def delete_where_def
      intro: filter_cong split: if_splits)

lemma set_subscription_own: "set_subscription u s db = Inr db' \<Longrightarrow> keeps_others u db db'"
  by (auto simp: set_subscription_def keeps_others_def own_view_def shared_view_def split: if_splits)

lemma set_user_policy_own: "set_user_policy Z u p db = Inr db' \<Longrightarrow> keeps_others u db db'"
  by (auto simp: set_user_policy_def keeps_others_def own_view_def shared_view_def split: if_splits)

lemma run_test_own: "run_test (sql_notify_ops G) S W t c u st = (e, st') \<Longrightarrow> keeps_others u st st'"
  by (auto simp: run_test_def Let_def record_delivery_def outcome_row_def keeps_others_def own_view_def shared_view_def
      split: option.splits sum.splits if_splits)

fun shown_channels :: "notify_body \<Rightarrow> channel_dto set" where
  "shown_channels (NtChannel d) = {d}"
| "shown_channels (NtChannels ds) = set ds"
| "shown_channels _ = {}"

fun shown_deliveries :: "notify_body \<Rightarrow> delivery set" where
  "shown_deliveries (NtDeliveries ds) = set ds"
| "shown_deliveries _ = {}"

lemma serve_own_keeps:
  assumes "serve_own N u k st = (r, st')"
  shows "keeps_others u st st' \<and> (\<forall>d\<in>shown_channels (snd r). \<exists>c. (u, c) \<in> set (nd_user_channels st') \<and> d = redacted c)
    \<and> (\<forall>d\<in>shown_deliveries (snd r). dl_user d = u)"
proof (cases k)
  case MyChannels
  then show ?thesis using assms by (auto simp: me_channels_def list_user_channels_def) blast
next
  case (MyChannelGet i)
  then show ?thesis using assms get_own
    by (fastforce simp: me_channel_get_def channel_get_error_def notify_err_def split: sum.splits if_splits)
next
  case (MyChannelTest i)
  then show ?thesis using assms run_test_own
    by (fastforce simp: me_channel_test_def test_ops_def Let_def channel_get_error_def notify_err_def split: sum.splits prod.splits if_splits)
next
  case (MyDeliveries q)
  then show ?thesis using assms
    by (auto simp: me_deliveries_def list_user_deliveries_def dest!: in_set_takeD)
next
  case (MyChannelCreate b)
  then show ?thesis using assms
    by (fastforce simp: me_channel_create_def channel_write_error_def notify_err_def dest: create_own
        split: option.splits sum.splits notify_error.splits)
next
  case (MyChannelUpdate i b)
  then show ?thesis using assms
    by (fastforce simp: me_channel_update_def channel_write_error_def notify_err_def dest: update_own
        split: option.splits sum.splits notify_error.splits)
next
  case (MyChannelDelete i)
  then show ?thesis using assms delete_own
    by (fastforce simp: me_channel_delete_def channel_get_error_def notify_err_def split: sum.splits if_splits)
next
  case (MySubscriptionSet b)
  then show ?thesis using assms set_subscription_own
    by (fastforce simp: me_subscription_set_def notify_err_def split: option.splits sum.splits notify_error.splits)
next
  case (MyPolicySet b)
  then show ?thesis using assms set_user_policy_own
    by (fastforce simp: me_policy_set_def notify_err_def split: option.splits sum.splits notify_error.splits)
qed (use assms in \<open>auto simp: me_subscription_get_def me_policy_get_def\<close>)

text \<open>
  C22: a personal request changes nothing of any other user (channels, subscription, policy,
  delivery log) and nothing shared, and shows its caller his own channels and deliveries only, whatever ids
  it names; without a signed-in user it changes nothing at all. The shared routes change
  nothing for a caller who is no global administrator.
\<close>

theorem personal_requests_keep_to_their_user:
  "(serve_me N u k st = (r, st') \<longrightarrow>
      keeps_others u st st' \<and> (u = [] \<longrightarrow> fst r = 401 \<and> st' = st)
      \<and> (\<forall>d\<in>shown_channels (snd r). \<exists>c. (u, c) \<in> set (nd_user_channels st') \<and> d = redacted c)
      \<and> (\<forall>d\<in>shown_deliveries (snd r). dl_user d = u))
   \<and> (serve_notify N sc u' q st = (r', st'') \<longrightarrow> (\<forall>s. sc = Some s \<longrightarrow> \<not> is_global_admin s) \<longrightarrow> fst r' = 403 \<and> st'' = st)"
  using serve_own_keeps [of N u k st r st']
  by (auto simp: serve_me_def serve_notify_def notify_err_def split: if_splits option.splits)

section \<open>The e-mail\<close>

definition CR :: char where "CR = CHR 0x0D"
definition LF :: char where "LF = CHR 0x0A"

lemma sanitize_no_breaks: "CR \<notin> set (sanitize_header v) \<and> LF \<notin> set (sanitize_header v)"
  by (simp add: sanitize_header_def CR_def LF_def)

lemma join_no_breaks:
  "\<forall>x\<in>set xs. LF \<notin> set x \<and> CR \<notin> set x \<Longrightarrow> LF \<notin> set (join '', '' xs) \<and> CR \<notin> set (join '', '' xs)"
  by (induction "'', ''" xs rule: join.induct) (auto simp: LF_def CR_def)

text \<open>
  whatever the addresses, the rule name and the system name contain, an e-mail has
  exactly the five header lines the code writes, each ended by CR LF and free of any other line break,
  then the empty line, then the body: no value can add a header or end the header block.
\<close>

theorem email_headers_cannot_be_injected:
  "\<exists>f t s body'. split_on LF (build_email from to subject body) =
      [''From: '' @ f @ [CR], ''To: '' @ t @ [CR], ''Subject: '' @ s @ [CR], ''MIME-Version: 1.0'' @ [CR],
       ''Content-Type: text/plain; charset=utf-8'' @ [CR], [CR]] @ body'
    \<and> (\<forall>x\<in>{f, t, s}. CR \<notin> set x \<and> LF \<notin> set x) \<and> f = sanitize_header from \<and> s = sanitize_header subject
    \<and> t = join '', '' (map sanitize_header to)"
proof -
  let ?f = "sanitize_header from" and ?s = "sanitize_header subject" and ?t = "join '', '' (map sanitize_header to)"
  have n: "CR \<notin> set ?f" "LF \<notin> set ?f" "CR \<notin> set ?s" "LF \<notin> set ?s" "CR \<notin> set ?t" "LF \<notin> set ?t"
    using sanitize_no_breaks join_no_breaks [of "map sanitize_header to"] by auto
  have d: "CR \<noteq> LF" by (simp add: CR_def LF_def)
  have crlf: "crlf = [CR, LF]" by (simp add: crlf_def CR_def LF_def)
  have "build_email from to subject body =
      (''From: '' @ ?f @ [CR]) @ LF # ((''To: '' @ ?t @ [CR]) @ LF # ((''Subject: '' @ ?s @ [CR]) @ LF #
       ((''MIME-Version: 1.0'' @ [CR]) @ LF # ((''Content-Type: text/plain; charset=utf-8'' @ [CR]) @ LF #
       ([CR] @ LF # replace_newlines body)))))"
    by (simp add: build_email_def crlf)
  then have eq: "split_on LF (build_email from to subject body) = split_on LF ((''From: '' @ ?f @ [CR]) @ LF #
      ((''To: '' @ ?t @ [CR]) @ LF # ((''Subject: '' @ ?s @ [CR]) @ LF #
       ((''MIME-Version: 1.0'' @ [CR]) @ LF # ((''Content-Type: text/plain; charset=utf-8'' @ [CR]) @ LF #
       ([CR] @ LF # replace_newlines body))))))" by (rule arg_cong)
  have "LF \<notin> set (''From: '' @ ?f @ [CR])" "LF \<notin> set (''To: '' @ ?t @ [CR])" "LF \<notin> set (''Subject: '' @ ?s @ [CR])"
    "LF \<notin> set (''MIME-Version: 1.0'' @ [CR])" "LF \<notin> set (''Content-Type: text/plain; charset=utf-8'' @ [CR])" "LF \<notin> set [CR]"
    using n d by (auto simp: LF_def CR_def)
  note line = this [THEN split_on_append]
  have "split_on LF (build_email from to subject body) =
      [''From: '' @ ?f @ [CR], ''To: '' @ ?t @ [CR], ''Subject: '' @ ?s @ [CR], ''MIME-Version: 1.0'' @ [CR],
       ''Content-Type: text/plain; charset=utf-8'' @ [CR], [CR]] @ split_on LF (replace_newlines body)"
    unfolding eq line(1) line(2) line(3) line(4) line(5) line(6) by simp
  then show ?thesis using n by (intro exI conjI) auto
qed

section \<open>Witnesses\<close>

theorem email_headers_cannot_be_injected_witness:
  "hd (split_on LF (build_email (''a'' @ [CR, LF] @ ''Bcc: b'') [] [] [])) = ''From: aBcc: b'' @ [CR]"
  using email_headers_cannot_be_injected [of "''a'' @ [CR, LF] @ ''Bcc: b''" "[]" "[]" "[]"]
  by (auto simp: sanitize_header_def CR_def LF_def)

definition plain_env :: notify_env where
  "plain_env = \<lparr>ne_url = (\<lambda>u. Some ''https''), ne_vault = None, ne_zone = (\<lambda>z. Some (civil_at 0)), ne_senders = (\<lambda>t. None),
     ne_open = None, ne_id = ''i''\<rparr>"

theorem notification_tables_stay_sound_witness:
  "notify_ok (ne_url plain_env) (ne_zone plain_env)
     (snd (serve_me plain_env ''u'' (MySubscriptionSet (Some \<lparr>sb_enabled = True, sb_groups = [], sb_severities = [''info'']\<rparr>)) empty_notify))"
proof -
  have "seals_visibly (ne_vault plain_env)" by (simp add: seals_visibly_def plain_env_def)
  then have "notify_step (ne_url plain_env) (ne_zone plain_env) empty_notify
     (snd (serve_me plain_env ''u'' (MySubscriptionSet (Some \<lparr>sb_enabled = True, sb_groups = [], sb_severities = [''info'']\<rparr>)) empty_notify))"
    by (intro notify_step.own) (auto intro: prod.collapse [symmetric])
  with notify_reachable.start show ?thesis
    by (intro notification_tables_stay_sound) (rule notify_reachable.step)
qed

theorem personal_requests_keep_to_their_user_witness:
  "keeps_others ''u'' empty_notify (snd (serve_me plain_env ''u'' MyChannels empty_notify))"
  using personal_requests_keep_to_their_user [of plain_env "''u''" MyChannels empty_notify
      "fst (serve_me plain_env ''u'' MyChannels empty_notify)" "snd (serve_me plain_env ''u'' MyChannels empty_notify)"
      None "[]" PolicyGet "fst (serve_notify plain_env None [] PolicyGet empty_notify)"
      "snd (serve_notify plain_env None [] PolicyGet empty_notify)"]
  by simp

end
