(* ===== verification/Hosts.thy ===== *)
theory Hosts
  imports Targeting "HOL-Library.Product_Lexorder"
begin

text \<open>
  The fleet (\<open>src/internal/systems\<close>): a managed system with every field that is stored, the
  interface \<open>Store\<close> as a locale over its operations, the two implementations
  \<open>MemStore\<close> (\<open>store.go\<close>) and \<open>SQLiteStore\<close> (\<open>sqlite_store.go\<close>), and the state
  machine of the reachability probe. Instants are nanoseconds since 1970; a probe counter is
  an unbounded integer, since a counter of 64 bits does not wrap in the life of a server.
\<close>

section \<open>Systems\<close>

definition status_unprobed :: string where "status_unprobed = ''unprobed''"
definition status_reachable :: string where "status_reachable = ''reachable''"

lemmas host_statuses = status_unprobed_def status_reachable_def status_unreachable_def

definition max_field_len :: nat where "max_field_len = 255"

record managed_host = system +
  mh_hostname :: string
  mh_created :: int
  mh_seen :: "int option"
  mh_os :: string
  mh_distro :: string
  mh_virt :: string
  mh_failures :: int
  mh_successes :: int

datatype host_error = HostNotFound | HostInvalid string | HostSql

text \<open>\<open>SystemInput\<close> is the pair of name and host name.\<close>

definition validate_host :: "string \<times> string \<Rightarrow> (host_error, unit) result" where
  "validate_host x =
     (let name = trim_space (fst x); host = trim_space (snd x)
      in if name = [] then Inl (HostInvalid ''name is required'')
         else if max_field_len < length name then Inl (HostInvalid ''name exceeds 255 chars'')
         else if host = [] then Inl (HostInvalid ''hostname is required'')
         else if max_field_len < length host then Inl (HostInvalid ''hostname exceeds 255 chars'')
         else Inr ())"

definition fresh_host :: "string \<Rightarrow> int \<Rightarrow> string \<times> string \<Rightarrow> managed_host" where
  "fresh_host i now x = \<lparr>sys_id = i, sys_name = trim_space (fst x), sys_status = status_unprobed,
     sys_group = None, sys_windows = False, sys_reboot = None, mh_hostname = trim_space (snd x),
     mh_created = now, mh_seen = None, mh_os = [], mh_distro = [], mh_virt = [],
     mh_failures = 0, mh_successes = 0\<rparr>"

definition host_order :: "managed_host \<Rightarrow> int \<times> string" where
  "host_order h = (mh_created h, sys_id h)"

section \<open>The probe\<close>

text \<open>The decision of \<open>UpdateProbe\<close>: counters, status and last contact after one probe.\<close>

definition probe_host :: "bool \<Rightarrow> int \<Rightarrow> int \<Rightarrow> int \<Rightarrow> managed_host \<Rightarrow> managed_host" where
  "probe_host ok now fail_t succ_t h =
     (if ok then
        (let n = mh_successes h + 1
         in h\<lparr>mh_successes := n, mh_failures := 0, mh_seen := Some now,
              sys_status := (if n \<ge> succ_t \<and> sys_status h \<noteq> status_reachable then status_reachable
                             else sys_status h)\<rparr>)
      else
        (let n = mh_failures h + 1
         in h\<lparr>mh_failures := n, mh_successes := 0,
              sys_status := (if n \<ge> fail_t \<and> sys_status h \<noteq> status_unreachable then status_unreachable
                             else sys_status h)\<rparr>))"

text \<open>The thresholds of a cycle, \<open>failThreshold\<close> and \<open>succThreshold\<close>: a reading below 1 counts as 1.\<close>

definition probe_threshold :: "int option \<Rightarrow> int" where
  "probe_threshold r = (case r of None \<Rightarrow> 1 | Some n \<Rightarrow> if n > 0 then n else 1)"

section \<open>The SQLite store\<close>

record host_db =
  hd_hosts :: "managed_host list"

definition host_at :: "string \<Rightarrow> 'a host_db_scheme \<Rightarrow> managed_host option" where
  "host_at i db = find (\<lambda>h. sys_id h = i) (hd_hosts db)"

definition get_host :: "string \<Rightarrow> 'a host_db_scheme \<Rightarrow> (host_error, managed_host) result" where
  "get_host i db = (case host_at i db of None \<Rightarrow> Inl HostNotFound | Some h \<Rightarrow> Inr h)"

definition list_hosts :: "'a host_db_scheme \<Rightarrow> managed_host list" where
  "list_hosts db = sort_key host_order (hd_hosts db)"

definition create_host :: "string \<Rightarrow> int \<Rightarrow> string \<times> string \<Rightarrow> 'a host_db_scheme
    \<Rightarrow> (host_error, managed_host \<times> 'a host_db_scheme) result" where
  "create_host i now x db =
     (case validate_host x of
        Inl e \<Rightarrow> Inl e
      | Inr _ \<Rightarrow>
          if host_at i db \<noteq> None then Inl HostSql
          else Inr (fresh_host i now x, db\<lparr>hd_hosts := hd_hosts db @ [fresh_host i now x]\<rparr>))"

text \<open>\<open>UPDATE hosts SET ... WHERE id = ?\<close>, and \<open>ErrNotFound\<close> where no row matched.\<close>

definition update_host :: "(managed_host \<Rightarrow> managed_host) \<Rightarrow> string \<Rightarrow> 'a host_db_scheme
    \<Rightarrow> (host_error, 'a host_db_scheme) result" where
  "update_host f i db =
     (if count_where (\<lambda>h. sys_id h = i) (hd_hosts db) = 0 then Inl HostNotFound
      else Inr (db\<lparr>hd_hosts := update_where (\<lambda>h. sys_id h = i) f (hd_hosts db)\<rparr>))"

definition set_group :: "string \<Rightarrow> string option \<Rightarrow> 'a host_db_scheme \<Rightarrow> (host_error, 'a host_db_scheme) result" where
  "set_group i g db = update_host (\<lambda>h. h\<lparr>sys_group := g\<rparr>) i db"

definition set_platform :: "string \<Rightarrow> bool \<Rightarrow> 'a host_db_scheme \<Rightarrow> (host_error, 'a host_db_scheme) result" where
  "set_platform i w db = update_host (\<lambda>h. h\<lparr>sys_windows := w\<rparr>) i db"

definition set_platform_info :: "string \<Rightarrow> string \<Rightarrow> string \<Rightarrow> string \<Rightarrow> 'a host_db_scheme
    \<Rightarrow> (host_error, 'a host_db_scheme) result" where
  "set_platform_info i os distro virt db =
     update_host (\<lambda>h. h\<lparr>mh_os := os, mh_distro := distro, mh_virt := virt\<rparr>) i db"

definition set_reboot_required :: "string \<Rightarrow> int \<Rightarrow> 'a host_db_scheme \<Rightarrow> (host_error, 'a host_db_scheme) result" where
  "set_reboot_required i now db = update_host (\<lambda>h. h\<lparr>sys_reboot := Some now\<rparr>) i db"

definition clear_reboot_required :: "string \<Rightarrow> 'a host_db_scheme \<Rightarrow> (host_error, 'a host_db_scheme) result" where
  "clear_reboot_required i db = update_host (\<lambda>h. h\<lparr>sys_reboot := None\<rparr>) i db"

definition clear_group :: "string \<Rightarrow> 'a host_db_scheme \<Rightarrow> 'a host_db_scheme" where
  "clear_group g db =
     db\<lparr>hd_hosts := update_where (\<lambda>h. sys_group h = Some g) (\<lambda>h. h\<lparr>sys_group := None\<rparr>) (hd_hosts db)\<rparr>"

definition delete_host :: "string \<Rightarrow> 'a host_db_scheme \<Rightarrow> (host_error, 'a host_db_scheme) result" where
  "delete_host i db =
     (if count_where (\<lambda>h. sys_id h = i) (hd_hosts db) = 0 then Inl HostNotFound
      else Inr (db\<lparr>hd_hosts := delete_where (\<lambda>h. sys_id h = i) (hd_hosts db)\<rparr>))"

text \<open>The transaction of \<open>UpdateProbe\<close>; the flag tells whether the status changed.\<close>

definition update_probe :: "string \<Rightarrow> bool \<Rightarrow> int \<Rightarrow> int \<Rightarrow> int \<Rightarrow> 'a host_db_scheme
    \<Rightarrow> (host_error, bool \<times> 'a host_db_scheme) result" where
  "update_probe i ok now f s db =
     (case host_at i db of
        None \<Rightarrow> Inl HostNotFound
      | Some h \<Rightarrow>
          Inr (sys_status (probe_host ok now f s h) \<noteq> sys_status h,
               db\<lparr>hd_hosts := update_where (\<lambda>h. sys_id h = i) (probe_host ok now f s) (hd_hosts db)\<rparr>))"

section \<open>The in-memory store\<close>

type_synonym mem_hosts = "(string \<times> managed_host) list"

definition mem_create_host :: "string \<Rightarrow> int \<Rightarrow> string \<times> string \<Rightarrow> mem_hosts
    \<Rightarrow> (host_error, managed_host \<times> mem_hosts) result" where
  "mem_create_host i now x m =
     (case validate_host x of
        Inl e \<Rightarrow> Inl e
      | Inr _ \<Rightarrow> Inr (fresh_host i now x, alist_put i (fresh_host i now x) m))"

definition mem_get_host :: "string \<Rightarrow> mem_hosts \<Rightarrow> (host_error, managed_host) result" where
  "mem_get_host i m = (case map_of m i of None \<Rightarrow> Inl HostNotFound | Some h \<Rightarrow> Inr h)"

definition mem_list_hosts :: "mem_hosts \<Rightarrow> managed_host list" where
  "mem_list_hosts m = sort_key host_order (map snd m)"

definition mem_update_host :: "(managed_host \<Rightarrow> managed_host) \<Rightarrow> string \<Rightarrow> mem_hosts \<Rightarrow> (host_error, mem_hosts) result" where
  "mem_update_host f i m =
     (case map_of m i of None \<Rightarrow> Inl HostNotFound | Some h \<Rightarrow> Inr (alist_put i (f h) m))"

definition mem_update_probe :: "string \<Rightarrow> bool \<Rightarrow> int \<Rightarrow> int \<Rightarrow> int \<Rightarrow> mem_hosts
    \<Rightarrow> (host_error, bool \<times> mem_hosts) result" where
  "mem_update_probe i ok now f s m =
     (case map_of m i of
        None \<Rightarrow> Inl HostNotFound
      | Some h \<Rightarrow> Inr (sys_status (probe_host ok now f s h) \<noteq> sys_status h, alist_put i (probe_host ok now f s h) m))"

definition mem_set_group :: "string \<Rightarrow> string option \<Rightarrow> mem_hosts \<Rightarrow> (host_error, mem_hosts) result" where
  "mem_set_group i g m = mem_update_host (\<lambda>h. h\<lparr>sys_group := g\<rparr>) i m"

definition mem_set_platform :: "string \<Rightarrow> bool \<Rightarrow> mem_hosts \<Rightarrow> (host_error, mem_hosts) result" where
  "mem_set_platform i w m = mem_update_host (\<lambda>h. h\<lparr>sys_windows := w\<rparr>) i m"

definition mem_set_platform_info :: "string \<Rightarrow> string \<Rightarrow> string \<Rightarrow> string \<Rightarrow> mem_hosts \<Rightarrow> (host_error, mem_hosts) result" where
  "mem_set_platform_info i os distro virt m =
     mem_update_host (\<lambda>h. h\<lparr>mh_os := os, mh_distro := distro, mh_virt := virt\<rparr>) i m"

definition mem_set_reboot :: "string \<Rightarrow> int \<Rightarrow> mem_hosts \<Rightarrow> (host_error, mem_hosts) result" where
  "mem_set_reboot i now m = mem_update_host (\<lambda>h. h\<lparr>sys_reboot := Some now\<rparr>) i m"

definition mem_clear_reboot :: "string \<Rightarrow> mem_hosts \<Rightarrow> (host_error, mem_hosts) result" where
  "mem_clear_reboot i m = mem_update_host (\<lambda>h. h\<lparr>sys_reboot := None\<rparr>) i m"

definition mem_delete_host :: "string \<Rightarrow> mem_hosts \<Rightarrow> (host_error, mem_hosts) result" where
  "mem_delete_host i m = (case map_of m i of None \<Rightarrow> Inl HostNotFound | Some _ \<Rightarrow> Inr (alist_del i m))"

definition mem_clear_group :: "string \<Rightarrow> mem_hosts \<Rightarrow> mem_hosts" where
  "mem_clear_group g m = map (\<lambda>(i, h). (i, if sys_group h = Some g then h\<lparr>sys_group := None\<rparr> else h)) m"

section \<open>The interface and its implementations\<close>

datatype host_change = ToGroup "string option" | ToPlatform bool | ToInfo string string string | ToReboot int | NoReboot

datatype host_op =
    CreateHost string int "string \<times> string"
  | GetHost string
  | ChangeHost string host_change
  | ProbeHost string bool int int int
  | DeleteHost string
  | ClearGroup string

datatype host_answer = HostDone | HostFailed host_error | HostGot managed_host | HostFlag bool

fun apply_change :: "host_change \<Rightarrow> managed_host \<Rightarrow> managed_host" where
  "apply_change (ToGroup g) h = h\<lparr>sys_group := g\<rparr>"
| "apply_change (ToPlatform w) h = h\<lparr>sys_windows := w\<rparr>"
| "apply_change (ToInfo os d v) h = h\<lparr>mh_os := os, mh_distro := d, mh_virt := v\<rparr>"
| "apply_change (ToReboot t) h = h\<lparr>sys_reboot := Some t\<rparr>"
| "apply_change NoReboot h = h\<lparr>sys_reboot := None\<rparr>"

definition answer_of :: "'s \<Rightarrow> (host_error, 's) result \<Rightarrow> host_answer \<times> 's" where
  "answer_of s r = (case r of Inl e \<Rightarrow> (HostFailed e, s) | Inr t \<Rightarrow> (HostDone, t))"

fun sql_host_step :: "host_op \<Rightarrow> 'a host_db_scheme \<Rightarrow> host_answer \<times> 'a host_db_scheme" where
  "sql_host_step (CreateHost i t x) s =
     (case create_host i t x s of Inl e \<Rightarrow> (HostFailed e, s) | Inr (h, s') \<Rightarrow> (HostGot h, s'))"
| "sql_host_step (GetHost i) s = (case get_host i s of Inl e \<Rightarrow> (HostFailed e, s) | Inr h \<Rightarrow> (HostGot h, s))"
| "sql_host_step (ChangeHost i c) s = answer_of s
     (case c of ToGroup g \<Rightarrow> set_group i g s | ToPlatform w \<Rightarrow> set_platform i w s
      | ToInfo os d v \<Rightarrow> set_platform_info i os d v s | ToReboot t \<Rightarrow> set_reboot_required i t s
      | NoReboot \<Rightarrow> clear_reboot_required i s)"
| "sql_host_step (ProbeHost i ok t f u) s =
     (case update_probe i ok t f u s of Inl e \<Rightarrow> (HostFailed e, s) | Inr (b, s') \<Rightarrow> (HostFlag b, s'))"
| "sql_host_step (DeleteHost i) s = answer_of s (delete_host i s)"
| "sql_host_step (ClearGroup g) s = (HostDone, clear_group g s)"

fun mem_host_step :: "host_op \<Rightarrow> mem_hosts \<Rightarrow> host_answer \<times> mem_hosts" where
  "mem_host_step (CreateHost i t x) s =
     (case mem_create_host i t x s of Inl e \<Rightarrow> (HostFailed e, s) | Inr (h, s') \<Rightarrow> (HostGot h, s'))"
| "mem_host_step (GetHost i) s = (case mem_get_host i s of Inl e \<Rightarrow> (HostFailed e, s) | Inr h \<Rightarrow> (HostGot h, s))"
| "mem_host_step (ChangeHost i c) s = answer_of s
     (case c of ToGroup g \<Rightarrow> mem_set_group i g s | ToPlatform w \<Rightarrow> mem_set_platform i w s
      | ToInfo os d v \<Rightarrow> mem_set_platform_info i os d v s | ToReboot t \<Rightarrow> mem_set_reboot i t s
      | NoReboot \<Rightarrow> mem_clear_reboot i s)"
| "mem_host_step (ProbeHost i ok t f u) s =
     (case mem_update_probe i ok t f u s of Inl e \<Rightarrow> (HostFailed e, s) | Inr (b, s') \<Rightarrow> (HostFlag b, s'))"
| "mem_host_step (DeleteHost i) s = answer_of s (mem_delete_host i s)"
| "mem_host_step (ClearGroup g) s = (HostDone, mem_clear_group g s)"

text \<open>What the interface promises: a map from ids to systems, changed one row at a time.\<close>

fun spec_host_step :: "host_op \<Rightarrow> (string \<Rightarrow> managed_host option) \<Rightarrow> host_answer \<times> (string \<Rightarrow> managed_host option)" where
  "spec_host_step (CreateHost i t x) m =
     (case validate_host x of Inl e \<Rightarrow> (HostFailed e, m)
      | Inr _ \<Rightarrow> (HostGot (fresh_host i t x), m(i \<mapsto> fresh_host i t x)))"
| "spec_host_step (GetHost i) m = (case m i of None \<Rightarrow> (HostFailed HostNotFound, m) | Some h \<Rightarrow> (HostGot h, m))"
| "spec_host_step (ChangeHost i c) m =
     (case m i of None \<Rightarrow> (HostFailed HostNotFound, m) | Some h \<Rightarrow> (HostDone, m(i \<mapsto> apply_change c h)))"
| "spec_host_step (ProbeHost i ok t f u) m =
     (case m i of None \<Rightarrow> (HostFailed HostNotFound, m)
      | Some h \<Rightarrow> (HostFlag (sys_status (probe_host ok t f u h) \<noteq> sys_status h), m(i \<mapsto> probe_host ok t f u h)))"
| "spec_host_step (DeleteHost i) m =
     (case m i of None \<Rightarrow> (HostFailed HostNotFound, m) | Some _ \<Rightarrow> (HostDone, m(i := None)))"
| "spec_host_step (ClearGroup g) m =
     (HostDone, \<lambda>i. map_option (\<lambda>h. if sys_group h = Some g then h\<lparr>sys_group := None\<rparr> else h) (m i))"

text \<open>The ids \<open>NewID\<close> draws are new.\<close>

fun fresh_op :: "host_op \<Rightarrow> (string \<Rightarrow> managed_host option) \<Rightarrow> bool" where
  "fresh_op (CreateHost i _ _) m = (m i = None)"
| "fresh_op _ m = True"

fun run_host_ops :: "(host_op \<Rightarrow> 's \<Rightarrow> host_answer \<times> 's) \<Rightarrow> host_op list \<Rightarrow> 's \<Rightarrow> host_answer list \<times> 's" where
  "run_host_ops step [] s = ([], s)"
| "run_host_ops step (q # qs) s =
     (let (a, s1) = step q s; (as, s2) = run_host_ops step qs s1 in (a # as, s2))"

fun fresh_ops :: "host_op list \<Rightarrow> (string \<Rightarrow> managed_host option) \<Rightarrow> bool" where
  "fresh_ops [] m = True"
| "fresh_ops (q # qs) m = (fresh_op q m \<and> fresh_ops qs (snd (spec_host_step q m)))"

locale host_store =
  fixes sound :: "'s \<Rightarrow> bool"
    and contents :: "'s \<Rightarrow> string \<Rightarrow> managed_host option"
    and step :: "host_op \<Rightarrow> 's \<Rightarrow> host_answer \<times> 's"
    and listing :: "'s \<Rightarrow> managed_host list"
  assumes step_spec: "sound s \<Longrightarrow> fresh_op q (contents s) \<Longrightarrow>
      sound (snd (step q s)) \<and> spec_host_step q (contents s) = (fst (step q s), contents (snd (step q s)))"
    and listing_spec: "sound s \<Longrightarrow> distinct (listing s) \<and> sorted (map host_order (listing s))
      \<and> set (listing s) = ran (contents s) \<and> (\<forall>h\<in>ran (contents s). contents s (sys_id h) = Some h)"
begin

lemma run_spec:
  "sound s \<Longrightarrow> fresh_ops qs (contents s) \<Longrightarrow>
     sound (snd (run_host_ops step qs s))
   \<and> run_host_ops spec_host_step qs (contents s) =
       (fst (run_host_ops step qs s), contents (snd (run_host_ops step qs s)))"
proof (induction qs arbitrary: s)
  case (Cons q qs)
  then have f: "fresh_op q (contents s)" and fs: "fresh_ops qs (snd (spec_host_step q (contents s)))" by simp_all
  have *: "sound (snd (step q s))" "spec_host_step q (contents s) = (fst (step q s), contents (snd (step q s)))"
    using step_spec [OF Cons.prems(1) f] by simp_all
  with fs have "fresh_ops qs (contents (snd (step q s)))" by simp
  from Cons.IH [OF *(1) this] *(2) show ?case by (simp add: Let_def split_beta)
qed simp

lemma listing_determined:
  assumes "sound s" "sorted (map host_order hs)" "distinct hs" "set hs = ran (contents s)"
  shows "listing s = hs"
proof (rule map_sorted_distinct_set_unique [of host_order])
  from listing_spec [OF assms(1)] have own: "\<forall>h\<in>ran (contents s). contents s (sys_id h) = Some h" by blast
  show inj: "inj_on host_order (set (listing s) \<union> set hs)"
    unfolding inj_on_def using own listing_spec [OF assms(1)] assms(4)
    by (metis Un_iff host_order_def option.inject prod.inject)
  show "distinct (map host_order (listing s))" "distinct (map host_order hs)"
    using inj assms(3) listing_spec [OF assms(1)] by (auto simp: distinct_map inj_on_Un)
qed (use assms listing_spec in auto)

end

lemma spec_keeps_ids [simp]:
  "sys_id (apply_change c h) = sys_id h" "sys_id (probe_host ok t f u h) = sys_id h"
  "sys_id (fresh_host i t x) = i"
  by (cases c, simp_all add: probe_host_def Let_def fresh_host_def)

definition sql_hosts_ok :: "'a host_db_scheme \<Rightarrow> bool" where
  "sql_hosts_ok db = distinct (map sys_id (hd_hosts db))"

definition mem_hosts_ok :: "mem_hosts \<Rightarrow> bool" where
  "mem_hosts_ok m = (distinct (map fst m) \<and> (\<forall>(i, h)\<in>set m. sys_id h = i))"

lemma host_at_update_where:
  assumes "\<And>h. sys_id (f h) = sys_id h"
  shows "find (\<lambda>h. sys_id h = j) (update_where p f hs) =
    map_option (\<lambda>h. if p h then f h else h) (find (\<lambda>h. sys_id h = j) hs)"
  by (rule find_update_where) (simp add: assms)

lemma host_at_SomeD: "host_at i db = Some h \<Longrightarrow> sys_id h = i \<and> h \<in> set (hd_hosts db)"
  unfolding host_at_def by (metis (mono_tags, lifting) find_Some_in)

lemma host_at_None_iff: "host_at i db = None \<longleftrightarrow> count_where (\<lambda>h. sys_id h = i) (hd_hosts db) = 0"
  by (auto simp: host_at_def find_None_iff)

lemma update_host_eq:
  "update_host f i db = (case host_at i db of None \<Rightarrow> Inl HostNotFound
     | Some _ \<Rightarrow> Inr (db\<lparr>hd_hosts := update_where (\<lambda>h. sys_id h = i) f (hd_hosts db)\<rparr>))"
  by (auto simp: update_host_def host_at_None_iff [symmetric] simp del: count_where_0 split: option.split)

lemma sql_change_eq:
  "sql_host_step (ChangeHost i c) s = answer_of s (update_host (apply_change c) i s)"
  by (cases c) (simp_all add: set_group_def set_platform_def set_platform_info_def set_reboot_required_def
      clear_reboot_required_def apply_change.simps [abs_def])

lemma mem_change_eq:
  "mem_host_step (ChangeHost i c) s = answer_of s (mem_update_host (apply_change c) i s)"
  by (cases c) (simp_all add: mem_set_group_def mem_set_platform_def mem_set_platform_info_def mem_set_reboot_def
      mem_clear_reboot_def apply_change.simps [abs_def])

lemma host_at_changed:
  assumes "\<And>h. sys_id (f h) = sys_id h"
  shows "host_at j (db\<lparr>hd_hosts := update_where (\<lambda>h. sys_id h = i) f (hd_hosts db)\<rparr>) =
    (if j = i then map_option f (host_at i db) else host_at j db)"
  using host_at_SomeD [of j db]
  by (cases "host_at j db") (auto simp: host_at_def host_at_update_where [OF assms])

lemma sql_hosts_ok_changed:
  assumes "\<And>h. sys_id (f h) = sys_id h"
  shows "sql_hosts_ok (db\<lparr>hd_hosts := update_where p f (hd_hosts db)\<rparr>) = sql_hosts_ok db"
  by (simp add: sql_hosts_ok_def map_update_where assms)

lemma sql_create_refines:
  assumes "sql_hosts_ok s" "host_at i s = None"
  shows "sql_hosts_ok (snd (sql_host_step (CreateHost i t x) s))
    \<and> spec_host_step (CreateHost i t x) (\<lambda>i. host_at i s) = (fst (sql_host_step (CreateHost i t x) s),
        \<lambda>j. host_at j (snd (sql_host_step (CreateHost i t x) s)))"
proof (cases "validate_host x")
  case (Inr u)
  from assms(2) have n: "i \<notin> sys_id ` set (hd_hosts s)" by (auto simp: host_at_None_iff)
  have "host_at j (s\<lparr>hd_hosts := hd_hosts s @ [fresh_host i t x]\<rparr>) =
      (if j = i then Some (fresh_host i t x) else host_at j s)" for j
    using assms(2) by (auto simp: host_at_def find_append split: option.split)
  with Inr assms n show ?thesis by (auto simp: create_host_def sql_hosts_ok_def fun_eq_iff)
qed (use assms in \<open>simp add: create_host_def\<close>)

lemma sql_step_refines:
  assumes "sql_hosts_ok s" "fresh_op q (\<lambda>i. host_at i s)"
  shows "sql_hosts_ok (snd (sql_host_step q s))
    \<and> spec_host_step q (\<lambda>i. host_at i s) = (fst (sql_host_step q s), \<lambda>i. host_at i (snd (sql_host_step q s)))"
proof (cases q)
  case (CreateHost i t x)
  with assms sql_create_refines [of s i t x] show ?thesis by simp
next
  case (GetHost i)
  with assms show ?thesis by (auto simp: get_host_def split: option.splits)
next
  case (ChangeHost i c)
  with assms show ?thesis
    unfolding ChangeHost sql_change_eq update_host_eq
    by (auto simp: answer_of_def sql_hosts_ok_changed host_at_changed fun_eq_iff split: option.splits)
next
  case (ProbeHost i ok t f u)
  with assms show ?thesis
    by (auto simp: update_probe_def sql_hosts_ok_changed host_at_changed fun_eq_iff split: option.splits)
next
  case (DeleteHost i)
  have "host_at j (s\<lparr>hd_hosts := delete_where (\<lambda>h. sys_id h = i) (hd_hosts s)\<rparr>) =
      (if j = i then None else host_at j s)" for j
    by (auto simp: host_at_def find_delete_where_same find_delete_where_other)
  with DeleteHost assms show ?thesis
    by (auto simp: delete_host_def answer_of_def sql_hosts_ok_def distinct_map_delete_where fun_eq_iff
        host_at_None_iff [symmetric] simp del: count_where_0 split: option.splits)
next
  case (ClearGroup g)
  with assms show ?thesis
    by (auto simp: clear_group_def sql_hosts_ok_changed host_at_def host_at_update_where fun_eq_iff)
qed

lemma mem_ok_at: "mem_hosts_ok m \<Longrightarrow> map_of m i = Some h \<Longrightarrow> sys_id h = i"
  unfolding mem_hosts_ok_def by (metis (mono_tags, lifting) case_prodD map_of_SomeD)

lemma mem_ok_put:
  assumes "mem_hosts_ok m" "sys_id h = i"
  shows "mem_hosts_ok (alist_put i h m)"
proof -
  have "(j, k) \<in> set (alist_put i h m) \<Longrightarrow> sys_id k = j" for j k
    using assms distinct_alist_put [of m i h]
    by (metis (mono_tags, lifting) map_of_alist_put map_of_is_SomeI fun_upd_apply mem_hosts_ok_def mem_ok_at option.inject)
  with assms show ?thesis by (auto simp: mem_hosts_ok_def)
qed

lemma mem_clear_group_refines:
  assumes "mem_hosts_ok s"
  shows "mem_hosts_ok (mem_clear_group g s)"
    and "map_of (mem_clear_group g s) = (\<lambda>i. map_option (\<lambda>h. if sys_group h = Some g then h\<lparr>sys_group := None\<rparr> else h) (map_of s i))"
proof -
  have f: "map fst (mem_clear_group g s) = map fst s" by (auto simp: mem_clear_group_def)
  have "sys_id h = i" if hi: "(i, h) \<in> set (mem_clear_group g s)" for i h
  proof -
    from hi obtain k where "(i, k) \<in> set s" "h = k \<or> h = k\<lparr>sys_group := None\<rparr>"
      by (auto simp: mem_clear_group_def)
    with assms show ?thesis by (auto simp: mem_hosts_ok_def)
  qed
  with f assms show "mem_hosts_ok (mem_clear_group g s)" by (auto simp: mem_hosts_ok_def)
  show "map_of (mem_clear_group g s) = (\<lambda>i. map_option (\<lambda>h. if sys_group h = Some g then h\<lparr>sys_group := None\<rparr> else h) (map_of s i))"
    by (induction s) (auto simp: mem_clear_group_def fun_eq_iff)
qed

lemma mem_step_refines:
  assumes "mem_hosts_ok s" "fresh_op q (map_of s)"
  shows "mem_hosts_ok (snd (mem_host_step q s))
    \<and> spec_host_step q (map_of s) = (fst (mem_host_step q s), map_of (snd (mem_host_step q s)))"
proof (cases q)
  case (CreateHost i t x)
  with assms show ?thesis by (auto simp: mem_create_host_def mem_ok_put split: sum.splits)
next
  case (GetHost i)
  with assms show ?thesis by (auto simp: mem_get_host_def split: option.splits)
next
  case (ChangeHost i c)
  with assms show ?thesis
    unfolding ChangeHost mem_change_eq
    by (auto simp: answer_of_def mem_update_host_def mem_ok_put mem_ok_at split: option.splits)
next
  case (ProbeHost i ok t f u)
  with assms show ?thesis by (auto simp: mem_update_probe_def mem_ok_put mem_ok_at split: option.splits)
next
  case (DeleteHost i)
  have "mem_hosts_ok (alist_del i s)" using assms(1) by (auto simp: mem_hosts_ok_def) (auto simp: alist_del_def)
  with DeleteHost assms show ?thesis by (auto simp: mem_delete_host_def answer_of_def split: option.splits)
next
  case (ClearGroup g)
  with mem_clear_group_refines [OF assms(1)] show ?thesis by simp
qed

lemma sql_list_spec:
  assumes "sql_hosts_ok s"
  shows "ran (\<lambda>i. host_at i s) = set (hd_hosts s)" "\<forall>h\<in>set (hd_hosts s). host_at (sys_id h) s = Some h"
proof -
  show own: "\<forall>h\<in>set (hd_hosts s). host_at (sys_id h) s = Some h"
    using assms by (simp add: sql_hosts_ok_def host_at_def find_unique [of sys_id])
  show "ran (\<lambda>i. host_at i s) = set (hd_hosts s)"
  proof (intro set_eqI iffI)
    fix h assume "h \<in> ran (\<lambda>i. host_at i s)"
    then show "h \<in> set (hd_hosts s)" by (auto simp: ran_def dest: host_at_SomeD)
  next
    fix h assume "h \<in> set (hd_hosts s)"
    with own show "h \<in> ran (\<lambda>i. host_at i s)" by (auto intro: ranI)
  qed
qed

interpretation sql_hosts: host_store sql_hosts_ok "\<lambda>s i. host_at i s" sql_host_step list_hosts
proof unfold_locales
  fix s :: "'a host_db_scheme" assume s: "sql_hosts_ok s"
  then have "distinct (hd_hosts s)" by (auto simp: sql_hosts_ok_def distinct_map)
  with sql_list_spec [OF s] show "distinct (list_hosts s) \<and> sorted (map host_order (list_hosts s))
      \<and> set (list_hosts s) = ran (\<lambda>i. host_at i s) \<and> (\<forall>h\<in>ran (\<lambda>i. host_at i s). host_at (sys_id h) s = Some h)"
    by (simp add: list_hosts_def)
qed (rule sql_step_refines)

lemma mem_list_spec:
  assumes "mem_hosts_ok m"
  shows "ran (map_of m) = set (map snd m)" "distinct (map snd m)" "\<forall>h\<in>ran (map_of m). map_of m (sys_id h) = Some h"
proof -
  have d: "distinct (map fst m)" and own: "\<And>i h. (i, h) \<in> set m \<Longrightarrow> sys_id h = i"
    using assms by (auto simp: mem_hosts_ok_def)
  from d show "ran (map_of m) = set (map snd m)" by (simp add: ran_distinct)
  have "inj_on snd (set m)" unfolding inj_on_def by (metis own prod.collapse)
  with d show "distinct (map snd m)" by (simp add: distinct_map)
  show "\<forall>h\<in>ran (map_of m). map_of m (sys_id h) = Some h"
    using mem_ok_at [OF assms] by (auto simp: ran_def)
qed

interpretation mem_hosts: host_store mem_hosts_ok map_of mem_host_step mem_list_hosts
proof unfold_locales
  fix s assume s: "mem_hosts_ok s"
  from mem_list_spec [OF s] show "distinct (mem_list_hosts s) \<and> sorted (map host_order (mem_list_hosts s))
      \<and> set (mem_list_hosts s) = ran (map_of s) \<and> (\<forall>h\<in>ran (map_of s). map_of s (sys_id h) = Some h)"
    by (simp add: mem_list_hosts_def)
qed (rule mem_step_refines)

section \<open>Properties\<close>

lemma host_run_same:
  assumes "mem_hosts_ok m" "sql_hosts_ok s" "map_of m = (\<lambda>i. host_at i s)" "fresh_ops qs (map_of m)"
  shows "fst (run_host_ops mem_host_step qs m) = fst (run_host_ops sql_host_step qs s)"
    and "map_of (snd (run_host_ops mem_host_step qs m)) = (\<lambda>i. host_at i (snd (run_host_ops sql_host_step qs s)))"
    and "mem_hosts_ok (snd (run_host_ops mem_host_step qs m))" "sql_hosts_ok (snd (run_host_ops sql_host_step qs s))"
  using mem_hosts.run_spec [OF assms(1,4)] sql_hosts.run_spec [OF assms(2), of qs] assms(3,4) by auto

text \<open>
  C38: whatever operations are run on the two implementations of the fleet store, started
  empty, they give the same answers and end with the same listing.
\<close>

theorem fleet_stores_interchangeable:
  assumes "fresh_ops qs Map.empty"
  shows "fst (run_host_ops mem_host_step qs []) = fst (run_host_ops sql_host_step qs \<lparr>hd_hosts = []\<rparr>) \<and>
    mem_list_hosts (snd (run_host_ops mem_host_step qs [])) =
      list_hosts (snd (run_host_ops sql_host_step qs \<lparr>hd_hosts = []\<rparr>))"
proof (intro conjI)
  have 0: "mem_hosts_ok []" "sql_hosts_ok \<lparr>hd_hosts = []\<rparr>" "map_of [] = (\<lambda>i. host_at i \<lparr>hd_hosts = []\<rparr>)"
    "fresh_ops qs (map_of [])"
    using assms by (simp_all add: mem_hosts_ok_def sql_hosts_ok_def host_at_def)
  note r = host_run_same [OF 0]
  show "fst (run_host_ops mem_host_step qs []) = fst (run_host_ops sql_host_step qs \<lparr>hd_hosts = []\<rparr>)" by (rule r(1))
  show "mem_list_hosts (snd (run_host_ops mem_host_step qs [])) =
      list_hosts (snd (run_host_ops sql_host_step qs \<lparr>hd_hosts = []\<rparr>))"
    using sql_hosts.listing_spec [OF r(4)] by (intro mem_hosts.listing_determined [OF r(3)]) (auto simp: r(2))
qed

lemma fleet_stores_interchangeable_witness:
  "fst (run_host_ops mem_host_step [CreateHost ''a'' 5 (''web'', ''h''), ProbeHost ''a'' True 7 2 1, DeleteHost ''b''] []) =
   fst (run_host_ops sql_host_step [CreateHost ''a'' 5 (''web'', ''h''), ProbeHost ''a'' True 7 2 1, DeleteHost ''b'']
     \<lparr>hd_hosts = []\<rparr>)"
proof -
  have "fresh_ops [CreateHost ''a'' 5 (''web'', ''h''), ProbeHost ''a'' True 7 2 1, DeleteHost ''b''] Map.empty"
    by simp
  then show ?thesis by (rule fleet_stores_interchangeable [THEN conjunct1])
qed

text \<open>The probe, seen from the outcomes: the latest outcome first.\<close>

fun probes :: "int \<Rightarrow> int \<Rightarrow> (bool \<times> int) list \<Rightarrow> managed_host \<Rightarrow> managed_host" where
  "probes f s [] h = h"
| "probes f s ((ok, t) # os) h = probe_host ok t f s (probes f s os h)"

abbreviation streak :: "bool \<Rightarrow> (bool \<times> int) list \<Rightarrow> int" where
  "streak b os \<equiv> int (length (takeWhile (\<lambda>r. fst r = b) os))"

text \<open>The status the thresholds call for: of the two streaks, the one that was last long enough.\<close>

fun called_status :: "int \<Rightarrow> int \<Rightarrow> (bool \<times> int) list \<Rightarrow> string" where
  "called_status f s [] = status_unprobed"
| "called_status f s (r # os) =
     (if s \<le> streak True (r # os) then status_reachable
      else if f \<le> streak False (r # os) then status_unreachable
      else called_status f s os)"

text \<open>
  After any sequence of probes of a new system, with the thresholds of the settings, the
  counters are the lengths of the current streaks, the last contact is the last success, and
  the status is the one of the streak that last reached its threshold: it neither flips early
  nor stays behind.
\<close>

theorem probe_status_follows_thresholds:
  assumes "f = probe_threshold lf" "s = probe_threshold ls"
  shows "mh_failures (probes f s os (fresh_host i t x)) = streak False os \<and>
    mh_successes (probes f s os (fresh_host i t x)) = streak True os \<and>
    mh_seen (probes f s os (fresh_host i t x)) = map_option snd (find fst os) \<and>
    sys_status (probes f s os (fresh_host i t x)) = called_status f s os"
proof (intro conjI)
  have pos: "1 \<le> f" "1 \<le> s" using assms by (auto simp: probe_threshold_def split: option.splits)
  show "mh_failures (probes f s os (fresh_host i t x)) = streak False os"
    by (induction os) (auto simp: probe_host_def Let_def fresh_host_def)
  show "mh_successes (probes f s os (fresh_host i t x)) = streak True os"
    by (induction os) (auto simp: probe_host_def Let_def fresh_host_def)
  show "mh_seen (probes f s os (fresh_host i t x)) = map_option snd (find fst os)"
    by (induction os) (auto simp: probe_host_def Let_def fresh_host_def)
  show "sys_status (probes f s os (fresh_host i t x)) = called_status f s os"
  proof (induction os)
    case (Cons r os)
    have n: "mh_failures (probes f s os (fresh_host i t x)) = streak False os"
      "mh_successes (probes f s os (fresh_host i t x)) = streak True os"
      by (induction os) (auto simp: probe_host_def Let_def fresh_host_def)
    with Cons pos show ?case by (cases r) (auto simp: probe_host_def Let_def)
  qed (simp add: fresh_host_def)
qed

lemma probe_status_follows_thresholds_witness:
  "sys_status (probes 3 2 [(False, 9), (False, 8), (True, 7), (True, 6)] (fresh_host ''a'' 5 (''web'', ''h''))) = status_reachable"
proof -
  have "3 = probe_threshold (Some 3)" "2 = probe_threshold (Some 2)" by (simp_all add: probe_threshold_def)
  from probe_status_follows_thresholds [OF this, of "[(False, 9), (False, 8), (True, 7), (True, 6)]"]
  show ?thesis by (simp del: probes.simps)
qed

end
