(* ===== verification/UpdaterStore.thy ===== *)
theory UpdaterStore
  imports Hosts AuditLog
begin

text \<open>
  Updaters (\<open>src/internal/updaters\<close>): the definition of an updater and its validation
  (\<open>updaters.go\<close>), the compiled-in ones (\<open>builtins.go\<close>), the tables and every operation
  of \<open>SQLiteStore\<close> (\<open>sqlite_store.go\<close>) with the advisory locks shared with the exporters,
  and the registry over both (\<open>registry.go\<close>).
  Instants are nanoseconds since 1970. The JSON form of a package list is the parameter
  \<open>pkg_codec\<close>. A statement of SQLite fails here only on a violated constraint.
\<close>

section \<open>Definitions\<close>

datatype source = SourceBuiltin | SourceCustom

definition prefix_builtin :: string where "prefix_builtin = ''builtin.''"
definition prefix_custom :: string where "prefix_custom = ''custom.''"

definition is_builtin_id :: "string \<Rightarrow> bool" where "is_builtin_id i = starts_with prefix_builtin i"
definition is_custom_id :: "string \<Rightarrow> bool" where "is_custom_id i = starts_with prefix_custom i"

definition max_playbook_bytes :: int where "max_playbook_bytes = 64 * 1024"
definition max_log_tail_bytes :: int where "max_log_tail_bytes = 12 * 1024"

record updater =
  up_id :: string
  up_source :: source
  up_name :: string
  up_desc :: string
  up_binary :: string
  up_check :: string
  up_apply :: string
  up_check_only :: bool
  up_exclusions :: bool
  up_holds :: bool
  up_by :: string
  up_created :: int
  up_updated :: int
  up_deleted :: "int option"

datatype updater_error =
    UpNotFound
  | UpInvalid string
  | UpConflict
  | UpBuiltinWrite
  | UpReserved
  | UpDuplicate
  | UpCheckOnly
  | UpSql

definition is_deleted :: "updater \<Rightarrow> bool" where
  "is_deleted d = (up_deleted d \<noteq> None)"

text \<open>\<open>detectBinaryPattern\<close>: 1 to 64 letters, digits, dots, underscores and dashes.\<close>

definition name_char :: "char \<Rightarrow> bool" where
  "name_char c = (is_upper c \<or> is_lower c \<or> is_digit c \<or> c \<in> set ''._-'')"

definition binary_ok :: "string \<Rightarrow> bool" where
  "binary_ok s = (s \<noteq> [] \<and> length s \<le> 64 \<and> list_all name_char s)"

text \<open>
  \<open>Validate\<close> has a value receiver: it trims its own copy of the two names, and what is
  stored is what the caller passed.
\<close>

definition validate_updater :: "updater \<Rightarrow> (string, unit) result" where
  "validate_updater d =
     (let name = trim_space (up_name d); bin = trim_space (up_binary d)
      in if name = [] then Inl ''updaters: display_name required''
         else if bin = [] then Inl ''updaters: detect_binary required''
         else if \<not> binary_ok bin then Inl ''updaters: detect_binary must match [A-Za-z0-9._-]{1,64}''
         else if up_check d = [] then Inl ''updaters: check_playbook required''
         else if up_check_only d \<and> up_apply d \<noteq> []
              then Inl ''updaters: check_only updaters must not declare an apply_playbook''
         else if \<not> up_check_only d \<and> up_apply d = [] then Inl ''updaters: apply_playbook required''
         else if max_playbook_bytes < int (length (up_check d)) then Inl ''updaters: check_playbook exceeds 64 KB cap''
         else if max_playbook_bytes < int (length (up_apply d)) then Inl ''updaters: apply_playbook exceeds 64 KB cap''
         else Inr ())"

section \<open>The compiled-in updaters\<close>

text \<open>\<open>file\<close> gives the embedded files by their path.\<close>

definition builtin :: "string \<Rightarrow> string \<Rightarrow> string \<Rightarrow> string \<Rightarrow> string \<Rightarrow> string \<Rightarrow> updater" where
  "builtin i name desc bin chk app = \<lparr>up_id = i, up_source = SourceBuiltin, up_name = name, up_desc = desc,
     up_binary = bin, up_check = chk, up_apply = app, up_check_only = False, up_exclusions = False,
     up_holds = False, up_by = [], up_created = 0, up_updated = 0, up_deleted = None\<rparr>"

definition builtins :: "(string \<Rightarrow> string) \<Rightarrow> updater list" where
  "builtins file =
     [
      (builtin ''builtin.dnf'' ''dnf''
        ''Fedora / RHEL / CentOS Stream package manager''
        ''dnf'' (file ''builtins/dnf/check.yml'') (file ''builtins/dnf/apply.yml''))\<lparr>up_exclusions := True\<rparr>,
      (builtin ''builtin.apt'' ''apt''
        ''Debian / Ubuntu package manager''
        ''apt'' (file ''builtins/apt/check.yml'') (file ''builtins/apt/apply.yml''))\<lparr>up_exclusions := True, up_holds := True\<rparr>,
      (builtin ''builtin.snap'' ''snap''
        ''Canonical snap packages''
        ''snap'' (file ''builtins/snap/check.yml'') (file ''builtins/snap/apply.yml''))\<lparr>up_exclusions := True, up_holds := True\<rparr>,
      (builtin ''builtin.flatpak'' ''flatpak''
        ''Flatpak desktop applications (system installation)''
        ''flatpak'' (file ''builtins/flatpak/check.yml'') (file ''builtins/flatpak/apply.yml''))\<lparr>up_exclusions := True, up_holds := True\<rparr>,
      (builtin ''builtin.pacman'' ''pacman''
        ''Arch Linux / Manjaro / EndeavourOS package manager''
        ''pacman'' (file ''builtins/pacman/check.yml'') (file ''builtins/pacman/apply.yml''))\<lparr>up_exclusions := True\<rparr>,
      (builtin ''builtin.zypper'' ''zypper''
        ''openSUSE / SLES package manager''
        ''zypper'' (file ''builtins/zypper/check.yml'') (file ''builtins/zypper/apply.yml''))\<lparr>up_exclusions := True\<rparr>,
      builtin ''builtin.apk'' ''apk''
        ''Alpine Linux / OpenWRT package manager''
        ''apk'' (file ''builtins/apk/check.yml'') (file ''builtins/apk/apply.yml''),
      (builtin ''builtin.pkg'' ''pkg''
        ''FreeBSD package manager''
        ''pkg'' (file ''builtins/pkg/check.yml'') (file ''builtins/pkg/apply.yml''))\<lparr>up_exclusions := True\<rparr>,
      builtin ''builtin.pkg_add'' ''pkg_add''
        ''OpenBSD package manager''
        ''pkg_add'' (file ''builtins/pkg_add/check.yml'') (file ''builtins/pkg_add/apply.yml''),
      builtin ''builtin.pkgin'' ''pkgin''
        ''NetBSD pkgsrc binary package manager''
        ''pkgin'' (file ''builtins/pkgin/check.yml'') (file ''builtins/pkgin/apply.yml''),
      (builtin ''builtin.winget'' ''winget''
        ''Windows Package Manager (preinstalled on modern Windows)''
        ''winget'' (file ''builtins/winget/check.yml'') (file ''builtins/winget/apply.yml''))\<lparr>up_exclusions := True\<rparr>,
      (builtin ''builtin.xbps'' ''xbps''
        ''Void Linux package manager''
        ''xbps-install'' (file ''builtins/xbps/check.yml'') (file ''builtins/xbps/apply.yml''))\<lparr>up_exclusions := True, up_holds := True\<rparr>,
      builtin ''builtin.eopkg'' ''eopkg''
        ''Solus package manager''
        ''eopkg'' (file ''builtins/eopkg/check.yml'') (file ''builtins/eopkg/apply.yml''),
      (builtin ''builtin.brew'' ''brew''
        ''macOS Homebrew package manager (runs unprivileged)''
        ''brew'' (file ''builtins/brew/check.yml'') (file ''builtins/brew/apply.yml''))\<lparr>up_exclusions := True, up_holds := True\<rparr>,
      builtin ''builtin.mas'' ''mas''
        ''macOS Mac App Store via mas-cli (requires signed-in App Store session)''
        ''mas'' (file ''builtins/mas/check.yml'') (file ''builtins/mas/apply.yml''),
      builtin ''builtin.softwareupdate'' ''softwareupdate''
        ''macOS system software updates (major OS patches require reboot)''
        ''softwareupdate'' (file ''builtins/softwareupdate/check.yml'') (file ''builtins/softwareupdate/apply.yml''),
      (builtin ''builtin.fwupdmgr'' ''fwupdmgr''
        (''Firmware updates via fwupd / LVFS (check-only '' @ bytes [226, 128, 148] @ '' never auto-applied)'')
        ''fwupdmgr'' (file ''builtins/fwupdmgr/check.yml'') [])\<lparr>up_check_only := True\<rparr>,
      builtin ''builtin.syspatch'' ''syspatch''
        ''OpenBSD base / kernel security patches (reboot required for kernel-tier patches)''
        ''syspatch'' (file ''builtins/syspatch/check.yml'') (file ''builtins/syspatch/apply.yml''),
      (builtin ''builtin.chocolatey'' ''chocolatey''
        ''Windows Chocolatey package manager''
        ''choco'' (file ''builtins/chocolatey/check.yml'') (file ''builtins/chocolatey/apply.yml''))\<lparr>up_exclusions := True\<rparr>,
      (builtin ''builtin.scoop'' ''scoop''
        ''Windows Scoop package manager (user-scoped; PATH must include scoop's shims directory)''
        ''scoop'' (file ''builtins/scoop/check.yml'') (file ''builtins/scoop/apply.yml''))\<lparr>up_exclusions := True, up_holds := True\<rparr>,
      builtin ''builtin.windowsupdate'' ''windowsupdate''
        ''Windows Update via ansible.windows.win_updates (major OS patches; reboots are operator-triggered)''
        ''UsoClient'' (file ''builtins/windowsupdate/check.yml'') (file ''builtins/windowsupdate/apply.yml''),
      builtin ''builtin.msstore'' ''msstore''
        ''Microsoft Store / UWP app updates via the AppInstallManager WinRT API (catches Store apps winget cannot version-resolve; installs all available, no per-app exclusions)''
        ''wsreset'' (file ''builtins/msstore/check.yml'') (file ''builtins/msstore/apply.yml'')]"

section \<open>Rows\<close>

text \<open>A pending package: its name, the installed and the available version.\<close>

type_synonym pkg = "string \<times> string \<times> string"

record pkg_codec =
  encode_pkgs :: "pkg list \<Rightarrow> string"
  decode_pkgs :: "string \<Rightarrow> pkg list option"      \<comment> \<open>\<open>json.Unmarshal\<close> into \<open>[]PendingPackage\<close>\<close>
  decode_names :: "string \<Rightarrow> string list option"  \<comment> \<open>into \<open>[]string\<close>\<close>

definition decode_pending :: "pkg_codec \<Rightarrow> string \<Rightarrow> pkg list" where
  "decode_pending C raw =
     (if raw = [] then []
      else (case decode_pkgs C raw of
              Some ps \<Rightarrow> ps
            | None \<Rightarrow> (case decode_names C raw of None \<Rightarrow> [] | Some ns \<Rightarrow> map (\<lambda>n. (n, [], [])) ns)))"

record availability =
  av_system :: string
  av_updater :: string
  av_enabled :: bool
  av_seen :: "int option"
  av_pending :: string   \<comment> \<open>the JSON text\<close>

definition kind_inspect :: string where "kind_inspect = ''inspect''"
definition kind_check :: string where "kind_check = ''check''"
definition kind_apply :: string where "kind_apply = ''apply''"

lemmas run_kinds = kind_inspect_def kind_check_def kind_apply_def

definition run_kind_valid :: "string \<Rightarrow> bool" where
  "run_kind_valid k = (k = kind_inspect \<or> k = kind_check \<or> k = kind_apply)"

record updater_run =
  ur_id :: string
  ur_system :: string
  ur_updater :: string
  ur_kind :: string
  ur_started :: int
  ur_finished :: "int option"
  ur_exit :: "int option"
  ur_affected :: int
  ur_actor :: string
  ur_sha :: string
  ur_log :: string

record action_lock =
  al_system :: string
  al_run :: string
  al_at :: int

record lock_db = host_db +
  ld_locks :: "action_lock list"

record updater_db = lock_db +
  ud_defs :: "updater list"
  ud_avail :: "availability list"
  ud_runs :: "updater_run list"

section \<open>Locks\<close>

text \<open>The table's primary key is the system; it is shared with the exporters.\<close>

definition acquire_lock :: "string \<Rightarrow> string \<Rightarrow> int \<Rightarrow> 'a lock_db_scheme \<Rightarrow> (updater_error, 'a lock_db_scheme) result" where
  "acquire_lock sid rid now db =
     (if sid = [] \<or> rid = [] then Inl (UpInvalid ''system_id and run_id required'')
      else if count_where (\<lambda>l. al_system l = sid) (ld_locks db) \<noteq> 0 then Inl UpConflict
      else Inr (db\<lparr>ld_locks := ld_locks db @ [\<lparr>al_system = sid, al_run = rid, al_at = now\<rparr>]\<rparr>))"

definition release_lock :: "string \<Rightarrow> string \<Rightarrow> 'a lock_db_scheme \<Rightarrow> 'a lock_db_scheme" where
  "release_lock sid rid db =
     db\<lparr>ld_locks := delete_where (\<lambda>l. al_system l = sid \<and> al_run l = rid) (ld_locks db)\<rparr>"

definition conflicting_run :: "string \<Rightarrow> 'a lock_db_scheme \<Rightarrow> string" where
  "conflicting_run sid db =
     (case find (\<lambda>l. al_system l = sid) (ld_locks db) of None \<Rightarrow> [] | Some l \<Rightarrow> al_run l)"

definition count_locks :: "'a lock_db_scheme \<Rightarrow> nat" where
  "count_locks db = length (ld_locks db)"

section \<open>Custom updaters\<close>

definition def_at :: "string \<Rightarrow> 'a updater_db_scheme \<Rightarrow> updater option" where
  "def_at i db = find (\<lambda>d. up_id d = i) (ud_defs db)"

text \<open>\<open>COLLATE NOCASE\<close> folds the ASCII letters.\<close>

definition name_order :: "updater \<Rightarrow> string \<times> string" where
  "name_order d = (map lower_char (up_name d), up_id d)"

definition list_custom :: "'a updater_db_scheme \<Rightarrow> updater list" where
  "list_custom db = sort_key name_order (filter (\<lambda>d. up_deleted d = None) (ud_defs db))"

definition get_custom :: "string \<Rightarrow> 'a updater_db_scheme \<Rightarrow> (updater_error, updater) result" where
  "get_custom i db = (case def_at i db of None \<Rightarrow> Inl UpNotFound | Some d \<Rightarrow> Inr d)"

text \<open>What \<open>scanDef\<close> reads back: the two flags have no column.\<close>

definition stored_def :: "updater \<Rightarrow> updater" where
  "stored_def d = d\<lparr>up_source := SourceCustom, up_exclusions := False, up_holds := False\<rparr>"

definition create_custom :: "int \<Rightarrow> updater \<Rightarrow> 'a updater_db_scheme
    \<Rightarrow> (updater_error, updater \<times> 'a updater_db_scheme) result" where
  "create_custom now d db =
     (if \<not> is_custom_id (up_id d) then Inl UpReserved
      else (case validate_updater d of
              Inl m \<Rightarrow> Inl (UpInvalid m)
            | Inr _ \<Rightarrow>
                (let d = d\<lparr>up_created := now, up_updated := now, up_deleted := None\<rparr>
                 in if def_at (up_id d) db \<noteq> None then Inl UpDuplicate
                    else Inr (d, db\<lparr>ud_defs := ud_defs db @ [stored_def d]\<rparr>))))"

definition update_custom :: "int \<Rightarrow> updater \<Rightarrow> 'a updater_db_scheme
    \<Rightarrow> (updater_error, updater \<times> 'a updater_db_scheme) result" where
  "update_custom now d db =
     (if \<not> is_custom_id (up_id d) then Inl UpReserved
      else (case validate_updater d of
              Inl m \<Rightarrow> Inl (UpInvalid m)
            | Inr _ \<Rightarrow>
                (case get_custom (up_id d) db of
                   Inl e \<Rightarrow> Inl e
                 | Inr old \<Rightarrow>
                     if is_deleted old then Inl UpNotFound
                     else
                       (let d = d\<lparr>up_by := up_by old, up_created := up_created old, up_updated := now, up_deleted := None\<rparr>
                        in Inr (d, db\<lparr>ud_defs := update_where (\<lambda>r. up_id r = up_id d \<and> up_deleted r = None)
                             (\<lambda>r. r\<lparr>up_name := up_name d, up_desc := up_desc d, up_binary := up_binary d,
                                up_check := up_check d, up_apply := up_apply d, up_check_only := up_check_only d,
                                up_updated := now\<rparr>) (ud_defs db)\<rparr>)))))"

definition delete_custom :: "string \<Rightarrow> int \<Rightarrow> 'a updater_db_scheme \<Rightarrow> (updater_error, 'a updater_db_scheme) result" where
  "delete_custom i now db =
     (let p = (\<lambda>r. up_id r = i \<and> up_deleted r = None)
      in if count_where p (ud_defs db) = 0 then Inl UpNotFound
         else Inr (db\<lparr>ud_defs := update_where p (\<lambda>r. r\<lparr>up_deleted := Some now, up_updated := now\<rparr>) (ud_defs db)\<rparr>))"

section \<open>Availability\<close>

abbreviation avail_key :: "string \<Rightarrow> string \<Rightarrow> availability \<Rightarrow> bool" where
  "avail_key sid uid \<equiv> \<lambda>a. av_system a = sid \<and> av_updater a = uid"

definition ids_required :: "(updater_error, 'a) result" where
  "ids_required = Inl (UpInvalid ''system_id and updater_id required'')"

text \<open>\<open>ON CONFLICT DO UPDATE\<close> touches \<open>last_seen_at\<close> only.\<close>

definition upsert_availability :: "string \<Rightarrow> string \<Rightarrow> int \<Rightarrow> 'a updater_db_scheme
    \<Rightarrow> (updater_error, 'a updater_db_scheme) result" where
  "upsert_availability sid uid now db =
     (if trim_space sid = [] \<or> trim_space uid = [] then ids_required
      else if count_where (avail_key sid uid) (ud_avail db) \<noteq> 0
      then Inr (db\<lparr>ud_avail := update_where (avail_key sid uid) (\<lambda>a. a\<lparr>av_seen := Some now\<rparr>) (ud_avail db)\<rparr>)
      else Inr (db\<lparr>ud_avail := ud_avail db @
             [\<lparr>av_system = sid, av_updater = uid, av_enabled = True, av_seen = Some now, av_pending = ''[]''\<rparr>]\<rparr>))"

definition set_enabled :: "string \<Rightarrow> string \<Rightarrow> bool \<Rightarrow> 'a updater_db_scheme
    \<Rightarrow> (updater_error, 'a updater_db_scheme) result" where
  "set_enabled sid uid b db =
     (if trim_space sid = [] \<or> trim_space uid = [] then ids_required
      else if count_where (avail_key sid uid) (ud_avail db) = 0 then Inl UpNotFound
      else Inr (db\<lparr>ud_avail := update_where (avail_key sid uid) (\<lambda>a. a\<lparr>av_enabled := b\<rparr>) (ud_avail db)\<rparr>))"

definition remove_availability :: "string \<Rightarrow> string \<Rightarrow> 'a updater_db_scheme \<Rightarrow> 'a updater_db_scheme" where
  "remove_availability sid uid db = db\<lparr>ud_avail := delete_where (avail_key sid uid) (ud_avail db)\<rparr>"

definition availability_for :: "string \<Rightarrow> 'a updater_db_scheme \<Rightarrow> availability list" where
  "availability_for sid db = sort_key av_updater (filter (\<lambda>a. av_system a = sid) (ud_avail db))"

definition set_pending_packages :: "pkg_codec \<Rightarrow> string \<Rightarrow> string \<Rightarrow> pkg list \<Rightarrow> 'a updater_db_scheme
    \<Rightarrow> (updater_error, 'a updater_db_scheme) result" where
  "set_pending_packages C sid uid ps db =
     (if trim_space sid = [] \<or> trim_space uid = [] then ids_required
      else Inr (db\<lparr>ud_avail := update_where (avail_key sid uid) (\<lambda>a. a\<lparr>av_pending := encode_pkgs C ps\<rparr>) (ud_avail db)\<rparr>))"

section \<open>Runs\<close>

definition run_at :: "string \<Rightarrow> 'a updater_db_scheme \<Rightarrow> updater_run option" where
  "run_at i db = find (\<lambda>r. ur_id r = i) (ud_runs db)"

definition insert_run :: "updater_run \<Rightarrow> 'a updater_db_scheme \<Rightarrow> (updater_error, 'a updater_db_scheme) result" where
  "insert_run r db =
     (if \<not> run_kind_valid (ur_kind r) then Inl (UpInvalid ''run kind'')
      else if ur_id r = [] \<or> ur_system r = [] then Inl (UpInvalid ''run id and system_id required'')
      else if run_at (ur_id r) db \<noteq> None then Inl UpSql
      else Inr (db\<lparr>ud_runs := ud_runs db @
             [r\<lparr>ur_finished := None, ur_exit := None, ur_affected := 0, ur_log := []\<rparr>]\<rparr>))"

text \<open>Newest first; rows of the same instant come in the order of their insertion.\<close>

definition newest_runs :: "string \<Rightarrow> 'a updater_db_scheme \<Rightarrow> updater_run list" where
  "newest_runs sid db = sort_key (\<lambda>r. - ur_started r) (filter (\<lambda>r. ur_system r = sid) (ud_runs db))"

definition trim_runs :: "string \<Rightarrow> int \<Rightarrow> 'a updater_db_scheme \<Rightarrow> (updater_error, 'a updater_db_scheme) result" where
  "trim_runs sid keep db =
     (if sid = [] then Inl (UpInvalid ''system_id required'')
      else if keep \<le> 0 then Inr db
      else (let kept = map ur_id (take (nat keep) (newest_runs sid db))
            in Inr (db\<lparr>ud_runs := delete_where (\<lambda>r. ur_system r = sid \<and> ur_id r \<notin> set kept) (ud_runs db)\<rparr>)))"

definition log_tail :: "string \<Rightarrow> string" where
  "log_tail s = (if max_log_tail_bytes < int (length s) then drop (nat (int (length s) - max_log_tail_bytes)) s else s)"

definition finish_run :: "string \<Rightarrow> int \<Rightarrow> int \<Rightarrow> int \<Rightarrow> string \<Rightarrow> 'a updater_db_scheme
    \<Rightarrow> (updater_error, 'a updater_db_scheme) result" where
  "finish_run i now ex aff out db =
     (if count_where (\<lambda>r. ur_id r = i) (ud_runs db) = 0 then Inl UpNotFound
      else Inr (db\<lparr>ud_runs := update_where (\<lambda>r. ur_id r = i)
             (\<lambda>r. r\<lparr>ur_finished := Some now, ur_exit := Some ex, ur_affected := aff, ur_log := log_tail out\<rparr>)
             (ud_runs db)\<rparr>))"

definition interrupted_exit_code :: int where "interrupted_exit_code = 143"

definition interrupted_log :: string where
  "interrupted_log = ''Run interrupted: the System Wrangler server restarted while this run was in progress. Its outcome is unknown '' @
     bytes [226, 128, 148] @ '' re-run the action to get the system's current state.''"

text \<open>The count it returns is the number of runs closed.\<close>

definition reconcile_orphaned :: "int \<Rightarrow> 'a updater_db_scheme \<Rightarrow> nat \<times> 'a updater_db_scheme" where
  "reconcile_orphaned now db =
     (count_where (\<lambda>r. ur_finished r = None) (ud_runs db),
      db\<lparr>ud_runs := update_where (\<lambda>r. ur_finished r = None)
           (\<lambda>r. r\<lparr>ur_finished := Some now, ur_exit := Some interrupted_exit_code, ur_log := interrupted_log\<rparr>) (ud_runs db),
         ld_locks := []\<rparr>)"

definition list_updater_runs :: "string \<Rightarrow> int \<Rightarrow> 'a updater_db_scheme \<Rightarrow> updater_run list" where
  "list_updater_runs sid limit db =
     take (if limit \<le> 0 \<or> 200 < limit then 50 else nat limit) (newest_runs sid db)"

section \<open>The aggregate of the systems list\<close>

record system_stats =
  st_checked :: "int option"
  st_pending :: int
  st_packages :: "pkg list"
  st_failed :: bool
  st_reason :: string
  st_running :: bool

definition no_stats :: system_stats where
  "no_stats = \<lparr>st_checked = None, st_pending = 0, st_packages = [], st_failed = False, st_reason = [], st_running = False\<rparr>"

definition checks_of :: "string \<Rightarrow> 'a updater_db_scheme \<Rightarrow> updater_run list" where
  "checks_of sid db = filter (\<lambda>r. ur_system r = sid \<and> ur_kind r = kind_check) (ud_runs db)"

text \<open>\<open>MAX\<close>, \<open>NULL\<close> of no value.\<close>

definition max_of :: "int list \<Rightarrow> int option" where
  "max_of ts = (case ts of [] \<Rightarrow> None | t # ts \<Rightarrow> Some (fold max ts t))"

text \<open>The checks that count: of each updater those that ended last.\<close>

definition latest_checks :: "string \<Rightarrow> 'a updater_db_scheme \<Rightarrow> updater_run list" where
  "latest_checks sid db =
     filter (\<lambda>r. ur_finished r \<noteq> None \<and> ur_finished r =
         max_of (List.map_filter ur_finished (filter (\<lambda>r2. ur_updater r2 = ur_updater r) (checks_of sid db))))
       (checks_of sid db)"

definition package_rows :: "string \<Rightarrow> 'a updater_db_scheme \<Rightarrow> availability list" where
  "package_rows sid db =
     filter (\<lambda>a. av_system a = sid \<and> av_pending a \<noteq> ''[]'' \<and> av_pending a \<noteq> []) (ud_avail db)"

definition last_runs :: "string \<Rightarrow> 'a updater_db_scheme \<Rightarrow> updater_run list" where
  "last_runs sid db =
     (let rs = filter (\<lambda>r. ur_system r = sid) (ud_runs db)
      in filter (\<lambda>r. ur_finished r \<noteq> None \<and> ur_finished r = max_of (List.map_filter ur_finished rs)) rs)"

definition int_to_string :: "int \<Rightarrow> string" where
  "int_to_string n = (if n < 0 then CHR ''-'' # nat_to_string (nat (- n)) else nat_to_string (nat n))"

definition failed_exit :: "updater_run \<Rightarrow> bool" where
  "failed_exit r = (case ur_exit r of None \<Rightarrow> False | Some n \<Rightarrow> n \<noteq> 0)"

definition failure_reason :: "updater_run \<Rightarrow> string" where
  "failure_reason r = ur_kind r @ '' exit '' @ int_to_string (the (ur_exit r))"

text \<open>The entry of one system in the map \<open>SystemStatsAll\<close> returns; None where it has none.\<close>

definition system_stats_of :: "pkg_codec \<Rightarrow> string \<Rightarrow> 'a updater_db_scheme \<Rightarrow> system_stats option" where
  "system_stats_of C sid db =
     (let checks = checks_of sid db; rows = package_rows sid db;
          failed = filter failed_exit (last_runs sid db);
          running = list_ex (\<lambda>l. al_system l = sid) (ld_locks db)
      in if checks = [] \<and> rows = [] \<and> failed = [] \<and> \<not> running then None
         else Some \<lparr>st_checked = max_of (map ur_started checks),
                st_pending = sum_list (map ur_affected (latest_checks sid db)),
                st_packages = sort (remdups (concat (map (\<lambda>a. decode_pending C (av_pending a)) rows))),
                st_failed = (failed \<noteq> []),
                st_reason = (if failed = [] then [] else failure_reason (last failed)),
                st_running = running\<rparr>)"

section \<open>The cleanup triggers\<close>

definition cleanup_updaters :: "string \<Rightarrow> 'a updater_db_scheme \<Rightarrow> 'a updater_db_scheme" where
  "cleanup_updaters sid db =
     db\<lparr>ud_runs := delete_where (\<lambda>r. ur_system r = sid) (ud_runs db),
        ud_avail := delete_where (\<lambda>a. av_system a = sid) (ud_avail db),
        ld_locks := delete_where (\<lambda>l. al_system l = sid) (ld_locks db)\<rparr>"

section \<open>The registry\<close>

text \<open>\<open>NewRegistry\<close>, None where it panics; \<open>B\<close> below is the map of builtins it made.\<close>

definition new_registry :: "updater list \<Rightarrow> updater list option" where
  "new_registry bs =
     (if list_ex (\<lambda>b. \<not> is_builtin_id (up_id b)) bs \<or> \<not> distinct (map up_id bs) then None
      else Some (map (\<lambda>b. b\<lparr>up_source := SourceBuiltin\<rparr>) bs))"

definition registry_all :: "updater list \<Rightarrow> 'a updater_db_scheme \<Rightarrow> updater list" where
  "registry_all B db = sort_key (\<lambda>d. (up_name d, up_id d)) (B @ list_custom db)"

definition registry_get :: "updater list \<Rightarrow> string \<Rightarrow> 'a updater_db_scheme \<Rightarrow> (updater_error, updater) result" where
  "registry_get B i db =
     (if is_builtin_id i then (case find (\<lambda>b. up_id b = i) B of None \<Rightarrow> Inl UpNotFound | Some b \<Rightarrow> Inr b)
      else if is_custom_id i then get_custom i db
      else Inl (UpInvalid ''id has no source prefix''))"

definition registry_create :: "int \<Rightarrow> updater \<Rightarrow> 'a updater_db_scheme
    \<Rightarrow> (updater_error, updater \<times> 'a updater_db_scheme) result" where
  "registry_create now d db =
     (if is_builtin_id (up_id d) then Inl UpReserved else create_custom now (d\<lparr>up_source := SourceCustom\<rparr>) db)"

definition registry_update :: "int \<Rightarrow> updater \<Rightarrow> 'a updater_db_scheme
    \<Rightarrow> (updater_error, updater \<times> 'a updater_db_scheme) result" where
  "registry_update now d db =
     (if is_builtin_id (up_id d) then Inl UpBuiltinWrite else update_custom now (d\<lparr>up_source := SourceCustom\<rparr>) db)"

definition registry_delete :: "string \<Rightarrow> int \<Rightarrow> 'a updater_db_scheme \<Rightarrow> (updater_error, 'a updater_db_scheme) result" where
  "registry_delete i now db =
     (if is_builtin_id i then Inl UpBuiltinWrite
      else if \<not> is_custom_id i then Inl (UpInvalid ''id has no source prefix'')
      else delete_custom i now db)"

end
