(* ===== verification/Playbook.thy ===== *)
theory Playbook
  imports UpdaterStore
begin

text \<open>
  The text between the server and Ansible (\<open>src/internal/updaters/playbook.go\<close>): the
  inspection playbook composed from the registry, and the parsers of the \<open>SW_...\<close> markers a
  playbook prints. A line is what \<open>bufio.Scanner\<close> yields with the buffer the code gives
  it: after a line of 1 MiB or more it yields nothing.
\<close>

section \<open>Text\<close>

abbreviation newline :: char where "newline \<equiv> CHR 0x0A"
abbreviation sq :: string where "sq \<equiv> [CHR 0x27]"

definition max_token :: int where "max_token = 1024 * 1024"

definition drop_cr :: "string \<Rightarrow> string" where
  "drop_cr l = (if l \<noteq> [] \<and> last l = CHR 0x0D then butlast l else l)"

definition scan_lines :: "string \<Rightarrow> string list" where
  "scan_lines s =
     (let ls = split_on newline s; ls = (if last ls = [] then butlast ls else ls)
      in map drop_cr (takeWhile (\<lambda>l. int (length l) < max_token) ls))"

text \<open>\<open>strings.Index\<close> and the text behind the match, for a marker that is not empty.\<close>

fun after_marker :: "string \<Rightarrow> string \<Rightarrow> string option" where
  "after_marker m [] = None"
| "after_marker m (c # cs) =
     (if starts_with m (c # cs) then Some (drop (length m) (c # cs)) else after_marker m cs)"

definition trim_set :: "string \<Rightarrow> string \<Rightarrow> string" where
  "trim_set cs s = rev (dropWhile (\<lambda>c. c \<in> set cs) (rev (dropWhile (\<lambda>c. c \<in> set cs) s)))"

text \<open>The cutset of every \<open>strings.Trim\<close> of the parsers.\<close>

definition json_ends :: string where
  "json_ends = [CHR '' '', CHR 0x09, CHR 0x0D, CHR 0x0A, CHR 0x22, CHR '','', CHR 0x7D]"

section \<open>Markers\<close>

definition detect_marker :: string where "detect_marker = ''SW_DETECTED:''"
definition affected_marker :: string where "affected_marker = ''SW_AFFECTED_COUNT:''"
definition holds_added_marker :: string where "holds_added_marker = ''SW_HOLDS_ADDED:''"
definition holds_removed_marker :: string where "holds_removed_marker = ''SW_HOLDS_REMOVED:''"
definition holds_drift_marker :: string where "holds_drift_marker = ''SW_HOLDS_DRIFT_REAPED:''"
definition pending_marker :: string where "pending_marker = ''SW_PENDING_PACKAGE:''"
definition reboot_marker :: string where "reboot_marker = ''SW_REBOOT_REQUIRED:''"
definition os_family_marker :: string where "os_family_marker = ''SW_OS_FAMILY:''"
definition os_distribution_marker :: string where "os_distribution_marker = ''SW_OS_DISTRIBUTION:''"
definition virtualization_marker :: string where "virtualization_marker = ''SW_VIRTUALIZATION:''"

lemmas markers = detect_marker_def affected_marker_def holds_added_marker_def holds_removed_marker_def
  holds_drift_marker_def pending_marker_def reboot_marker_def os_family_marker_def
  os_distribution_marker_def virtualization_marker_def

text \<open>The payloads of a marker, line by line.\<close>

definition payloads :: "string \<Rightarrow> string \<Rightarrow> string list" where
  "payloads m out = List.map_filter (after_marker m) (scan_lines out)"

text \<open>A Go map of the ids; its order is that of \<open>sortedKeys\<close>, which is how the runner reads it.\<close>

definition parse_detected :: "string \<Rightarrow> string list" where
  "parse_detected out =
     sort (remdups (filter (\<lambda>r. r \<noteq> []) (map (trim_set json_ends) (payloads detect_marker out))))"

definition split_n3 :: "string \<Rightarrow> string list" where
  "split_n3 s =
     (case cut CHR ''|'' s of
        (a, r, False) \<Rightarrow> [a]
      | (a, r, True) \<Rightarrow> (case cut CHR ''|'' r of (b, t, False) \<Rightarrow> [a, b] | (b, t, True) \<Rightarrow> [a, b, t]))"

definition parse_package :: "string \<Rightarrow> pkg" where
  "parse_package rest =
     (case split_n3 rest of
        [a] \<Rightarrow> (trim_space a, [], [])
      | [a, b] \<Rightarrow> (trim_space a, trim_space b, [])
      | a # b # c # _ \<Rightarrow> (trim_space a, trim_space b, trim_space c)
      | [] \<Rightarrow> ([], [], []))"

definition add_package :: "string \<Rightarrow> pkg list \<Rightarrow> pkg list" where
  "add_package payload out =
     (let rest = trim_set json_ends payload
      in if rest = [] then out
         else (let p = parse_package rest in if fst p = [] \<or> p \<in> set out then out else out @ [p]))"

definition parse_pending_packages :: "string \<Rightarrow> pkg list" where
  "parse_pending_packages out = fold add_package (payloads pending_marker out) []"

text \<open>The digits at the front; the sum wraps at 64 bits.\<close>

fun leading_number :: "int \<Rightarrow> string \<Rightarrow> int" where
  "leading_number n [] = n"
| "leading_number n (c # cs) = (if is_digit c then leading_number (wrap64 (n * 10 + digit_val c)) cs else n)"

definition first_marker_int :: "string \<Rightarrow> string \<Rightarrow> int" where
  "first_marker_int out m =
     (case payloads m out of [] \<Rightarrow> 0 | r # _ \<Rightarrow> leading_number 0 (trim_set json_ends r))"

definition parse_affected_count :: "string \<Rightarrow> int" where
  "parse_affected_count out = first_marker_int out affected_marker"

definition parse_hold_counts :: "string \<Rightarrow> int \<times> int \<times> int" where
  "parse_hold_counts out =
     (first_marker_int out holds_added_marker, first_marker_int out holds_removed_marker,
      first_marker_int out holds_drift_marker)"

definition truthy :: "string \<Rightarrow> bool" where
  "truthy s = (to_lower s \<in> {''1'', ''true'', ''yes''})"

definition parse_reboot_required :: "string \<Rightarrow> bool" where
  "parse_reboot_required out = list_ex (\<lambda>r. truthy (trim_set json_ends r)) (payloads reboot_marker out)"

definition extract_marker_value :: "string \<Rightarrow> string" where
  "extract_marker_value s = trim_space (takeWhile (\<lambda>c. c \<noteq> CHR 0x5C \<and> c \<noteq> CHR 0x22) s)"

definition first_marker_value :: "string \<Rightarrow> string \<Rightarrow> string option" where
  "first_marker_value m out = (case payloads m out of [] \<Rightarrow> None | r # _ \<Rightarrow> Some (extract_marker_value r))"

definition distro_of :: "string \<Rightarrow> string" where
  "distro_of v =
     (case cut CHR ''|'' v of (a, b, found) \<Rightarrow>
        (let name = trim_space a; ver = (if found then trim_space b else [])
         in if name \<noteq> [] \<and> ver \<noteq> [] then name @ '' '' @ ver else name))"

definition virt_of :: "string \<Rightarrow> string" where
  "virt_of v =
     (case cut CHR ''|'' v of (a, b, found) \<Rightarrow>
        (let role = (if found then to_lower (trim_space b) else [])
         in if role = ''guest'' then to_lower (trim_space a) else []))"

text \<open>Family, distribution, virtualization: of each marker the first line that carries it.\<close>

definition parse_platform_facts :: "string \<Rightarrow> string \<times> string \<times> string" where
  "parse_platform_facts out =
     ((case first_marker_value os_family_marker out of None \<Rightarrow> [] | Some v \<Rightarrow> v),
      (case first_marker_value os_distribution_marker out of None \<Rightarrow> [] | Some v \<Rightarrow> distro_of v),
      (case first_marker_value virtualization_marker out of None \<Rightarrow> [] | Some v \<Rightarrow> virt_of v))"

section \<open>The inspection playbook\<close>

definition unlines :: "string list \<Rightarrow> string" where
  "unlines ls = concat (map (\<lambda>l. l @ [newline]) ls)"

definition var_name :: "string \<Rightarrow> string" where
  "var_name i = ''r_'' @ map (\<lambda>c. if c = CHR ''.'' \<or> c = CHR ''-'' then CHR ''_'' else c) i"

definition platform_tasks :: "string list" where
  "platform_tasks =
     [''    - name: gather platform facts (unix)'',
      ''      ansible.builtin.setup:'',
      ''        gather_subset:'',
      ''          - '' @ sq @ ''!all'' @ sq,
      ''          - min'',
      ''          - distribution'',
      ''          - virtual'',
      ''      when: not (sw_is_windows | default(false) | bool)'',
      ''    - name: emit OS family (unix)'',
      ''      ansible.builtin.debug:'',
      ''        msg: '' @ sq @ os_family_marker @ '' {{ ansible_system | default(\"\") }}'' @ sq,
      ''      when: not (sw_is_windows | default(false) | bool)'',
      ''    - name: emit OS distribution (unix)'',
      ''      ansible.builtin.debug:'',
      ''        msg: '' @ sq @ os_distribution_marker @ '' {{ ansible_distribution | default(\"\") }}|{{ ansible_distribution_version | default(\"\") }}'' @ sq,
      ''      when: not (sw_is_windows | default(false) | bool)'',
      ''    - name: emit virtualization (unix)'',
      ''      ansible.builtin.debug:'',
      ''        msg: '' @ sq @ virtualization_marker @ '' {{ ansible_virtualization_type | default(\"\") }}|{{ ansible_virtualization_role | default(\"\") }}'' @ sq,
      ''      when: not (sw_is_windows | default(false) | bool)'',
      ''    - name: gather platform facts (windows)'',
      ''      ansible.windows.win_shell: |'',
      ''        $os = Get-CimInstance Win32_OperatingSystem'',
      ''        $cs = Get-CimInstance Win32_ComputerSystem'',
      ''        $virt = '' @ sq @ sq,
      ''        $vendor = \"$($cs.Manufacturer) $($cs.Model)\"'',
      ''        switch -Wildcard ($vendor) {'',
      ''          '' @ sq @ ''*VMware*'' @ sq @ ''                   { $virt = '' @ sq @ ''vmware'' @ sq @ ''; break }'',
      ''          '' @ sq @ ''*Microsoft*Virtual*'' @ sq @ ''        { $virt = '' @ sq @ ''hyperv'' @ sq @ ''; break }'',
      ''          '' @ sq @ ''*Hyper-V*'' @ sq @ ''                  { $virt = '' @ sq @ ''hyperv'' @ sq @ ''; break }'',
      ''          '' @ sq @ ''*innotek*VirtualBox*'' @ sq @ ''       { $virt = '' @ sq @ ''virtualbox'' @ sq @ ''; break }'',
      ''          '' @ sq @ ''*VirtualBox*'' @ sq @ ''               { $virt = '' @ sq @ ''virtualbox'' @ sq @ ''; break }'',
      ''          '' @ sq @ ''*QEMU*'' @ sq @ ''                     { $virt = '' @ sq @ ''kvm'' @ sq @ ''; break }'',
      ''          '' @ sq @ ''*Xen*'' @ sq @ ''                      { $virt = '' @ sq @ ''xen'' @ sq @ ''; break }'',
      ''          '' @ sq @ ''*Parallels*'' @ sq @ ''                { $virt = '' @ sq @ ''parallels'' @ sq @ ''; break }'',
      ''          '' @ sq @ ''*Amazon EC2*'' @ sq @ ''               { $virt = '' @ sq @ ''xen'' @ sq @ ''; break }'',
      ''          '' @ sq @ ''*Google Compute Engine*'' @ sq @ ''    { $virt = '' @ sq @ ''kvm'' @ sq @ ''; break }'',
      ''        }'',
      ''        Write-Output $os.Caption'',
      ''        Write-Output $os.Version'',
      ''        Write-Output $virt'',
      ''      when: sw_is_windows | default(false) | bool'',
      ''      failed_when: false'',
      ''      changed_when: false'',
      ''      register: sw_winplatform'',
      ''    - name: emit OS family (windows)'',
      ''      ansible.builtin.debug:'',
      ''        msg: '' @ sq @ os_family_marker @ '' Windows'' @ sq,
      ''      when: sw_is_windows | default(false) | bool'',
      ''    - name: emit OS distribution (windows)'',
      ''      ansible.builtin.debug:'',
      ''        msg: '' @ sq @ os_distribution_marker @ '' {{ sw_winplatform.stdout_lines[0] | default(\"\") }}|{{ sw_winplatform.stdout_lines[1] | default(\"\") }}'' @ sq,
      ''      when: sw_is_windows | default(false) | bool'',
      ''    - name: emit virtualization (windows)'',
      ''      ansible.builtin.debug:'',
      ''        msg: '' @ sq @ virtualization_marker @ '' {{ sw_winplatform.stdout_lines[2] | default(\"\") }}|{{ \"guest\" if (sw_winplatform.stdout_lines[2] | default(\"\")) else \"NA\" }}'' @ sq]"

definition detect_tasks :: "updater \<Rightarrow> string list" where
  "detect_tasks d =
     (let v = var_name (up_id d)
      in [''    - name: detect '' @ up_id d @ '' (unix)'',
          ''      ansible.builtin.shell: '' @ sq @ ''command -v '' @ up_binary d @ sq,
          ''      failed_when: false'',
          ''      changed_when: false'',
          ''      register: '' @ v,
          if up_id d = ''builtin.pkg_add''
          then ''      when: (not (sw_is_windows | default(false) | bool)) and ((ansible_system | default('' @ sq @ sq @ '')) != '' @ sq @ ''NetBSD'' @ sq @ '')''
          else ''      when: not (sw_is_windows | default(false) | bool)'',
          ''      environment:'',
          ''        PATH: \"{% if ansible_system | default('' @ sq @ sq @ '') == '' @ sq @ ''NetBSD'' @ sq @ '' %}/usr/pkg/sbin:/usr/pkg/bin:{% endif %}/opt/homebrew/bin:/opt/homebrew/sbin:/usr/local/bin:/usr/local/sbin:/usr/bin:/bin:/usr/sbin:/sbin\"'',
          ''    - name: detect '' @ up_id d @ '' (windows)'',
          ''      ansible.windows.win_command: '' @ sq @ ''where.exe '' @ up_binary d @ sq,
          ''      failed_when: false'',
          ''      changed_when: false'',
          ''      register: '' @ v @ ''_win'',
          ''      when: sw_is_windows | default(false) | bool'',
          ''    - name: emit '' @ up_id d,
          ''      ansible.builtin.debug:'',
          ''        msg: '' @ sq @ detect_marker @ '' '' @ up_id d @ sq,
          ''      when: ('' @ v @ ''.rc | default(1)) == 0 or ('' @ v @ ''_win.rc | default(1)) == 0''])"

definition inspection_playbook :: "updater list \<Rightarrow> string" where
  "inspection_playbook defs = unlines
     ([''- name: System Wrangler inspect'',
       ''  hosts: all'',
       ''  gather_facts: false'',
       ''  become: false'',
       ''  tasks:''] @ platform_tasks @ concat (map detect_tasks defs))"

end
