(* ===== verification/Exclusions.thy ===== *)
theory Exclusions
  imports UpdaterStore Rbac
begin

text \<open>
  Which packages an updater leaves alone: the exclusion rules at global, group and system
  scope (\<open>src/internal/exclusions\<close>) with their routes, and the record of the holds the
  server has placed on hosts (\<open>src/internal/holds\<close>). Instants are nanoseconds since 1970.
\<close>

section \<open>Rules\<close>

definition scope_global :: string where "scope_global = ''global''"
definition scope_group :: string where "scope_group = ''group''"
definition scope_system :: string where "scope_system = ''system''"

lemmas exclusion_scopes = scope_global_def scope_group_def scope_system_def

definition scope_valid :: "string \<Rightarrow> bool" where
  "scope_valid s = (s = scope_global \<or> s = scope_group \<or> s = scope_system)"

definition all_updaters :: string where "all_updaters = ''*''"
definition max_reason_len :: nat where "max_reason_len = 1024"
definition max_pattern_len :: nat where "max_pattern_len = 256"

record exclusion =
  ex_id :: string
  ex_scope :: string
  ex_target :: string
  ex_updater :: string
  ex_pattern :: string
  ex_reason :: string
  ex_at :: int
  ex_by :: string

datatype exclusion_error = ExNotFound | ExInvalid string | ExDuplicate | ExSql

record exclusion_input =
  xi_updater :: string
  xi_pattern :: string
  xi_reason :: string

definition slug_char :: "char \<Rightarrow> bool" where
  "slug_char c = (is_upper c \<or> is_lower c \<or> is_digit c \<or> c \<in> set ''_-'')"

text \<open>\<open>updaterIDPattern\<close>: a star, or a prefix and 1 to 64 letters, digits, underscores, dashes.\<close>

definition slug_ok :: "string \<Rightarrow> bool" where
  "slug_ok s = (s \<noteq> [] \<and> length s \<le> 64 \<and> list_all slug_char s)"

definition updater_pattern :: "string \<Rightarrow> bool" where
  "updater_pattern s =
     (s = ''*'' \<or> starts_with prefix_builtin s \<and> slug_ok (drop (length prefix_builtin) s)
      \<or> starts_with prefix_custom s \<and> slug_ok (drop (length prefix_custom) s))"

definition validate_exclusion :: "exclusion_input \<Rightarrow> (exclusion_error, unit) result" where
  "validate_exclusion x =
     (let u = trim_space (xi_updater x); p = trim_space (xi_pattern x)
      in if u = [] then Inl (ExInvalid ''updater required'')
         else if \<not> updater_pattern u then Inl (ExInvalid ''updater must be '*' or builtin.<id> / custom.<id>'')
         else if p = [] then Inl (ExInvalid ''pattern required'')
         else if max_pattern_len < length p then Inl (ExInvalid ''pattern exceeds 256 chars'')
         else if max_reason_len < length (xi_reason x) then Inl (ExInvalid ''reason exceeds 1024 chars'')
         else Inr ())"

section \<open>The tables\<close>

record hold =
  ho_system :: string
  ho_updater :: string
  ho_pattern :: string
  ho_at :: int

record rules_db = updater_db +
  rd_exclusions :: "exclusion list"
  rd_holds :: "hold list"

definition same_rule :: "exclusion \<Rightarrow> exclusion \<Rightarrow> bool" where
  "same_rule a b = (ex_scope a = ex_scope b \<and> ex_target a = ex_target b \<and> ex_updater a = ex_updater b
     \<and> ex_pattern a = ex_pattern b)"

definition exclusion_at :: "string \<Rightarrow> 'a rules_db_scheme \<Rightarrow> exclusion option" where
  "exclusion_at i db = find (\<lambda>e. ex_id e = i) (rd_exclusions db)"

definition create_exclusion :: "string \<Rightarrow> int \<Rightarrow> string \<Rightarrow> string \<Rightarrow> exclusion_input \<Rightarrow> string \<Rightarrow> 'a rules_db_scheme
    \<Rightarrow> (exclusion_error, exclusion \<times> 'a rules_db_scheme) result" where
  "create_exclusion i now sc target x who db =
     (if \<not> scope_valid sc then Inl (ExInvalid ''scope'')
      else if sc = scope_global \<and> target \<noteq> [] then Inl (ExInvalid ''global scope must not carry target_id'')
      else if sc \<noteq> scope_global \<and> target = [] then Inl (ExInvalid (sc @ '' scope requires target_id''))
      else if trim_space who = [] then Inl (ExInvalid ''created_by required'')
      else
        (let e = \<lparr>ex_id = i, ex_scope = sc, ex_target = target, ex_updater = trim_space (xi_updater x),
               ex_pattern = trim_space (xi_pattern x), ex_reason = trim_space (xi_reason x), ex_at = now, ex_by = who\<rparr>
         in if exclusion_at i db \<noteq> None \<or> list_ex (same_rule e) (rd_exclusions db) then Inl ExDuplicate
            else Inr (e, db\<lparr>rd_exclusions := rd_exclusions db @ [e]\<rparr>)))"

definition get_exclusion :: "string \<Rightarrow> 'a rules_db_scheme \<Rightarrow> (exclusion_error, exclusion) result" where
  "get_exclusion i db = (case exclusion_at i db of None \<Rightarrow> Inl ExNotFound | Some e \<Rightarrow> Inr e)"

definition delete_exclusion :: "string \<Rightarrow> 'a rules_db_scheme \<Rightarrow> (exclusion_error, 'a rules_db_scheme) result" where
  "delete_exclusion i db =
     (if count_where (\<lambda>e. ex_id e = i) (rd_exclusions db) = 0 then Inl ExNotFound
      else Inr (db\<lparr>rd_exclusions := delete_where (\<lambda>e. ex_id e = i) (rd_exclusions db)\<rparr>))"

definition list_exclusions :: "(exclusion \<Rightarrow> bool) \<Rightarrow> 'a rules_db_scheme \<Rightarrow> exclusion list" where
  "list_exclusions p db = sort_key (\<lambda>e. (ex_at e, ex_id e)) (filter p (rd_exclusions db))"

definition list_global :: "'a rules_db_scheme \<Rightarrow> exclusion list" where
  "list_global db = list_exclusions (\<lambda>e. ex_scope e = scope_global) db"

definition list_group :: "string \<Rightarrow> 'a rules_db_scheme \<Rightarrow> exclusion list" where
  "list_group g db = list_exclusions (\<lambda>e. ex_scope e = scope_group \<and> ex_target e = g) db"

definition list_system :: "string \<Rightarrow> 'a rules_db_scheme \<Rightarrow> exclusion list" where
  "list_system s db = list_exclusions (\<lambda>e. ex_scope e = scope_system \<and> ex_target e = s) db"

text \<open>The \<open>WHERE\<close> of \<open>resolveRaw\<close>: a host that is gone or in no group matches no group rule.\<close>

definition applies :: "string \<Rightarrow> string \<Rightarrow> 'a rules_db_scheme \<Rightarrow> exclusion \<Rightarrow> bool" where
  "applies sid uid db e =
     ((ex_updater e = uid \<or> ex_updater e = ''*'') \<and>
      (ex_scope e = scope_global \<or> ex_scope e = scope_system \<and> ex_target e = sid \<or>
       ex_scope e = scope_group \<and> Option.bind (host_at sid db) sys_group = Some (ex_target e)))"

definition scope_order :: "string \<Rightarrow> nat" where
  "scope_order s = (if s = scope_global then 0 else if s = scope_group then 1 else 2)"

definition resolve_raw :: "string \<Rightarrow> string \<Rightarrow> 'a rules_db_scheme \<Rightarrow> (exclusion_error, exclusion list) result" where
  "resolve_raw sid uid db =
     (if trim_space sid = [] \<or> trim_space uid = [] then Inl (ExInvalid ''system_id and updater required'')
      else Inr (sort_key (\<lambda>e. (scope_order (ex_scope e), ex_at e, ex_id e)) (filter (applies sid uid db) (rd_exclusions db))))"

definition resolve_for_system :: "string \<Rightarrow> string \<Rightarrow> 'a rules_db_scheme \<Rightarrow> (exclusion_error, string list) result" where
  "resolve_for_system sid uid db = rbind (resolve_raw sid uid db) (\<lambda>rows. Inr (sort (remdups (map ex_pattern rows))))"

section \<open>Holds\<close>

definition held_patterns :: "string \<Rightarrow> string \<Rightarrow> 'a rules_db_scheme \<Rightarrow> (string, string list) result" where
  "held_patterns sid uid db =
     (if trim_space sid = [] \<or> trim_space uid = [] then Inl ''system_id and updater required''
      else Inr (sort (map ho_pattern (filter (\<lambda>h. ho_system h = sid \<and> ho_updater h = uid) (rd_holds db)))))"

definition dedup_sort :: "string list \<Rightarrow> string list" where
  "dedup_sort ps = sort (remdups (filter (\<lambda>p. p \<noteq> []) (map trim_space ps)))"

definition replace_holds :: "string \<Rightarrow> string \<Rightarrow> int \<Rightarrow> string list \<Rightarrow> 'a rules_db_scheme
    \<Rightarrow> (string, 'a rules_db_scheme) result" where
  "replace_holds sid uid now ps db =
     (if trim_space sid = [] \<or> trim_space uid = [] then Inl ''system_id and updater required''
      else Inr (db\<lparr>rd_holds := delete_where (\<lambda>h. ho_system h = sid \<and> ho_updater h = uid) (rd_holds db) @
             map (\<lambda>p. \<lparr>ho_system = sid, ho_updater = uid, ho_pattern = p, ho_at = now\<rparr>) (dedup_sort ps)\<rparr>))"

definition remove_system_holds :: "string \<Rightarrow> 'a rules_db_scheme \<Rightarrow> (string, nat \<times> 'a rules_db_scheme) result" where
  "remove_system_holds sid db =
     (if trim_space sid = [] then Inl ''system_id required''
      else Inr (count_where (\<lambda>h. ho_system h = sid) (rd_holds db),
             db\<lparr>rd_holds := delete_where (\<lambda>h. ho_system h = sid) (rd_holds db)\<rparr>))"

end
