(* ===== verification/UpdaterRunner.thy ===== *)
theory UpdaterRunner
  imports Playbook Exclusions
begin

text \<open>
  The runner of the updaters (\<open>src/internal/updaters/runner.go\<close>) with the callbacks
  \<open>cmd/server/main.go\<close> gives it. One call of \<open>Inspect\<close>, \<open>Check\<close> or \<open>Apply\<close> is a
  record with a program counter; \<open>run_step\<close> takes it to the next point at which other
  goroutines can run: before each of the statements that insert the row, trim the history and
  take the lock, while it queues for the gate, while Ansible works, and before it unlocks. The
  statements between the end of Ansible and the unlock are one step.
  What comes from outside is an input of the step: the time, the answer of Ansible, an error of
  the gate's context, of the temporary file or of the statement that takes the lock, and which of
  the store calls fail whose errors the runner only logs or drops. A call that fails changes
  nothing. The errors of the other store calls that are only logged (pending packages,
  platform facts, reboot hint, detected updaters, trimming, audit) are those their arguments explain.
\<close>

section \<open>What a call is given\<close>

record run_env =
  re_builtins :: "updater list"
  re_sha :: "string \<Rightarrow> string"
  re_codec :: pkg_codec
  re_keep :: int             \<comment> \<open>\<open>RunHistoryLimit()\<close>\<close>

definition ans_success :: string where "ans_success = ''success''"
definition ans_failure :: string where "ans_failure = ''failure''"
definition ans_missing_creds :: string where "ans_missing_creds = ''missing_credentials''"

record ansible_run =
  an_status :: string
  an_exit :: int
  an_stdout :: string
  an_stderr :: string

datatype store_call = FinishRun | ReleaseLock | ResolveExclusions | ResolveHolds | RecordHolds

record step_in =
  si_now :: int
  si_lock :: "string option"                  \<comment> \<open>another error of \<open>AcquireLock\<close> than a conflict\<close>
  si_gate :: "string option"                  \<comment> \<open>\<open>Gate.Acquire\<close> was cancelled\<close>
  si_write :: "string option"                 \<comment> \<open>\<open>writePlaybook\<close> failed\<close>
  si_answer :: "string option \<times> ansible_run"  \<comment> \<open>the error and the run of \<open>Ansible.Run\<close>\<close>
  si_failing :: "store_call set"              \<comment> \<open>the store calls that fail during the step\<close>

text \<open>What Ansible is asked to run, with the extra variables of the request.\<close>

record ansible_request =
  rq_system :: string
  rq_body :: string
  rq_targeted :: "string list"
  rq_excluded :: "string list"
  rq_held :: "string list option"

datatype run_error = RunStore updater_error | RunCtx string | RunAnsible string

record run_result =
  rr_status :: string
  rr_exit :: int
  rr_affected :: int
  rr_detected :: "string list"
  rr_removed :: "string list"
  rr_reason :: string

definition failed_result :: "string \<Rightarrow> run_result" where
  "failed_result why = \<lparr>rr_status = ans_failure, rr_exit = 0, rr_affected = 0, rr_detected = [], rr_removed = [],
     rr_reason = why\<rparr>"

definition no_result :: run_result where
  "no_result = \<lparr>rr_status = [], rr_exit = 0, rr_affected = 0, rr_detected = [], rr_removed = [], rr_reason = []\<rparr>"

type_synonym outcome = "run_error option \<times> run_result"

datatype pc =
    AtInsert
  | AtTrim
  | AtLock
  | AtGate
  | AtWrite
  | Executing ansible_request
  | AtUnlock outcome
  | Finished outcome

record run_call =
  rc_id :: string
  rc_system :: string
  rc_updater :: string
  rc_kind :: string
  rc_packages :: "string list"
  rc_body :: string
  rc_holds :: bool
  rc_actor :: string
  rc_start :: int
  rc_defs :: nat
  rc_pc :: pc

record fleet_db = rules_db +
  fd_audit :: "event list"
  fd_notes :: "string list"   \<comment> \<open>the broadcasts of the event hub\<close>

section \<open>Helpers\<close>

definition broadcast :: "string \<Rightarrow> 'a fleet_db_scheme \<Rightarrow> 'a fleet_db_scheme" where
  "broadcast m w = w\<lparr>fd_notes := fd_notes w @ [m]\<rparr>"

definition fleet_log :: "event \<Rightarrow> 'a fleet_db_scheme \<Rightarrow> 'a fleet_db_scheme" where
  "fleet_log e w = w\<lparr>fd_audit := audit_log_event e (fd_audit w)\<rparr>"

definition audit_actions :: "string \<Rightarrow> string \<times> string" where
  "audit_actions k =
     (if k = kind_check then (''system.update.check.start'', ''system.update.check.complete'')
      else if k = kind_apply then (''system.update.apply.start'', ''system.update.apply.complete'')
      else (''system.inspect.start'', ''system.inspect.complete''))"

text \<open>\<open>Duration.Milliseconds\<close> truncates towards zero.\<close>

definition millis :: "int \<Rightarrow> int" where
  "millis d = (if d < 0 then - (- d div 1000000) else d div 1000000)"

definition or_ignore :: "'s \<Rightarrow> ('e, 's) result \<Rightarrow> 's" where
  "or_ignore s r = (case r of Inl _ \<Rightarrow> s | Inr t \<Rightarrow> t)"

text \<open>\<open>finishRun\<close> only warns when the statement fails, \<open>ReleaseLock\<close> is called for its effect alone.\<close>

definition runner_finish :: "step_in \<Rightarrow> run_call \<Rightarrow> int \<Rightarrow> int \<Rightarrow> int \<Rightarrow> string \<Rightarrow> 'a fleet_db_scheme \<Rightarrow> 'a fleet_db_scheme" where
  "runner_finish x c now ex aff out w =
     (if FinishRun \<in> si_failing x then w else or_ignore w (finish_run (rc_id c) now ex aff out w))"

definition try_release :: "step_in \<Rightarrow> string \<Rightarrow> string \<Rightarrow> 'a lock_db_scheme \<Rightarrow> 'a lock_db_scheme" where
  "try_release x sid rid w = (if ReleaseLock \<in> si_failing x then w else release_lock sid rid w)"

definition trim_history :: "run_env \<Rightarrow> string \<Rightarrow> 'a fleet_db_scheme \<Rightarrow> 'a fleet_db_scheme" where
  "trim_history E sid w = (if re_keep E \<le> 0 then w else or_ignore w (trim_runs sid (re_keep E) w))"

definition log_complete :: "run_call \<Rightarrow> int \<Rightarrow> bool \<Rightarrow> detail \<Rightarrow> 'a fleet_db_scheme \<Rightarrow> 'a fleet_db_scheme" where
  "log_complete c now ok d w = fleet_log
     \<lparr>ev_action = snd (audit_actions (rc_kind c)), ev_outcome = (if ok then ''success'' else ''failure''),
      ev_actor = rc_actor c, ev_target = rc_system c, ev_label = [],
      ev_detail = (let d = (if map_of d ''parent_id'' = None then (''parent_id'', DStr (rc_id c)) # d else d)
                   in if map_of d ''duration_ms'' = None then (''duration_ms'', DInt (millis (now - rc_start c))) # d else d)\<rparr> w"

definition combine_output :: "string \<Rightarrow> string \<Rightarrow> string" where
  "combine_output out err =
     (if err = [] then out else if out = [] then err
      else out @ [newline] @ ''--- stderr ---'' @ [newline] @ err)"

definition reconcile_reboot :: "string \<Rightarrow> string \<Rightarrow> int \<Rightarrow> 'a fleet_db_scheme \<Rightarrow> 'a fleet_db_scheme" where
  "reconcile_reboot sid out now w =
     (if parse_reboot_required out then or_ignore w (set_reboot_required sid now w)
      else or_ignore w (clear_reboot_required sid w))"

section \<open>The start of a call\<close>

definition begin_inspect :: "run_env \<Rightarrow> string \<Rightarrow> string \<Rightarrow> string \<Rightarrow> int \<Rightarrow> 'a fleet_db_scheme
    \<Rightarrow> (updater_error, run_call) result" where
  "begin_inspect E actor sid rid now w =
     (let defs = registry_all (re_builtins E) w
      in if defs = [] then Inl (UpInvalid ''registry has no updaters'')
         else Inr \<lparr>rc_id = rid, rc_system = sid, rc_updater = [], rc_kind = kind_inspect, rc_packages = [],
                rc_body = inspection_playbook defs, rc_holds = False, rc_actor = actor, rc_start = now,
                rc_defs = length defs, rc_pc = AtInsert\<rparr>)"

definition begin_update :: "run_env \<Rightarrow> string \<Rightarrow> string \<Rightarrow> string \<Rightarrow> string \<Rightarrow> string list \<Rightarrow> string \<Rightarrow> int
    \<Rightarrow> 'a fleet_db_scheme \<Rightarrow> (updater_error, run_call) result" where
  "begin_update E actor sid uid kind pkgs rid now w =
     (if trim_space sid = [] \<or> trim_space uid = [] then ids_required
      else (case registry_get (re_builtins E) uid w of
              Inl e \<Rightarrow> Inl e
            | Inr d \<Rightarrow>
                if is_deleted d then Inl UpNotFound
                else if kind = kind_apply \<and> up_check_only d then Inl UpCheckOnly
                else
                  (let body = (if kind = kind_apply then up_apply d else up_check d)
                   in if body = [] then Inl (UpInvalid ''no playbook'')
                      else Inr \<lparr>rc_id = rid, rc_system = sid, rc_updater = uid, rc_kind = kind, rc_packages = pkgs,
                             rc_body = body, rc_holds = up_holds d, rc_actor = actor, rc_start = now, rc_defs = 0,
                             rc_pc = AtInsert\<rparr>)))"

section \<open>The steps\<close>

definition call_row :: "run_env \<Rightarrow> run_call \<Rightarrow> updater_run" where
  "call_row E c = \<lparr>ur_id = rc_id c, ur_system = rc_system c, ur_updater = rc_updater c, ur_kind = rc_kind c,
     ur_started = rc_start c, ur_finished = None, ur_exit = None, ur_affected = 0, ur_actor = rc_actor c,
     ur_sha = re_sha E (rc_body c), ur_log = []\<rparr>"

definition do_insert :: "run_env \<Rightarrow> run_call \<Rightarrow> 'a fleet_db_scheme \<Rightarrow> run_call \<times> 'a fleet_db_scheme" where
  "do_insert E c w =
     (case insert_run (call_row E c) w of
        Inl e \<Rightarrow> (c\<lparr>rc_pc := Finished (Some (RunStore e), no_result)\<rparr>, w)
      | Inr w' \<Rightarrow> (c\<lparr>rc_pc := AtTrim\<rparr>, w'))"

definition start_detail :: "run_env \<Rightarrow> run_call \<Rightarrow> detail" where
  "start_detail E c =
     (if rc_kind c = kind_inspect
      then [(''run_id'', DStr (rc_id c)), (''updater_count'', DInt (int (rc_defs c)))]
      else [(''run_id'', DStr (rc_id c)), (''updater_id'', DStr (rc_updater c)),
            (''playbook_sha'', DStr (re_sha E (rc_body c)))] @
           (if rc_packages c = [] then [] else [(''targeted_packages'', DStrs (rc_packages c))]))"

definition log_start :: "run_env \<Rightarrow> run_call \<Rightarrow> 'a fleet_db_scheme \<Rightarrow> 'a fleet_db_scheme" where
  "log_start E c w = fleet_log
     \<lparr>ev_action = fst (audit_actions (rc_kind c)), ev_outcome = ''success'', ev_actor = rc_actor c,
      ev_target = rc_system c, ev_label = [], ev_detail = start_detail E c\<rparr> w"

text \<open>\<open>Inspect\<close> closes its row after any error of the lock, \<open>runUpdater\<close> after a conflict only.\<close>

definition do_lock :: "run_env \<Rightarrow> step_in \<Rightarrow> run_call \<Rightarrow> 'a fleet_db_scheme \<Rightarrow> run_call \<times> 'a fleet_db_scheme" where
  "do_lock E x c w =
     (case (case si_lock x of Some m \<Rightarrow> Inl UpSql | None \<Rightarrow> acquire_lock (rc_system c) (rc_id c) (rc_start c) w) of
        Inl e \<Rightarrow>
          (c\<lparr>rc_pc := Finished (Some (RunStore e), failed_result
               (if e = UpConflict \<or> rc_kind c \<noteq> kind_inspect then ''conflict'' else []))\<rparr>,
           if e = UpConflict then runner_finish x c (rc_start c) (-1) 0 ''conflict: another run is in progress'' w
           else if rc_kind c = kind_inspect
           then runner_finish x c (rc_start c) (-1) 0 (''acquire lock failed: '' @ (case si_lock x of None \<Rightarrow> [] | Some m \<Rightarrow> m)) w
           else w)
      | Inr w' \<Rightarrow>
          (c\<lparr>rc_pc := (if rc_kind c = kind_inspect then AtWrite else AtGate)\<rparr>,
           log_start E c (broadcast ''systems.changed'' (broadcast ''updater.run.started'' w'))))"

definition fail_detail :: "run_call \<Rightarrow> string \<Rightarrow> detail" where
  "fail_detail c why =
     (if rc_kind c = kind_inspect then [] else [(''updater_id'', DStr (rc_updater c))]) @
     [(''status'', DStr ans_failure), (''reason'', DStr why)]"

definition do_gate :: "step_in \<Rightarrow> run_call \<Rightarrow> 'a fleet_db_scheme \<Rightarrow> run_call \<times> 'a fleet_db_scheme" where
  "do_gate x c w =
     (case si_gate x of
        None \<Rightarrow> (c\<lparr>rc_pc := AtWrite\<rparr>, w)
      | Some m \<Rightarrow>
          (c\<lparr>rc_pc := AtUnlock (Some (RunCtx m), failed_result m)\<rparr>,
           log_complete c (si_now x) False (fail_detail c (''cancelled in queue: '' @ m))
             (runner_finish x c (si_now x) (-1) 0 (''cancelled in queue: '' @ m) w)))"

text \<open>
  The extra variables: exclusions and holds on an apply only. Where their stores fail the apply goes
  on: without exclusions, and as if no package were held.
\<close>

definition request_excludes :: "step_in \<Rightarrow> run_call \<Rightarrow> 'a fleet_db_scheme \<Rightarrow> string list" where
  "request_excludes x c w =
     (if rc_kind c = kind_apply
      then (if ResolveExclusions \<in> si_failing x then []
            else (case resolve_for_system (rc_system c) (rc_updater c) w of Inl _ \<Rightarrow> [] | Inr ps \<Rightarrow> ps)) else [])"

definition request_held :: "step_in \<Rightarrow> run_call \<Rightarrow> 'a fleet_db_scheme \<Rightarrow> string list" where
  "request_held x c w =
     (if ResolveHolds \<in> si_failing x then []
      else (case held_patterns (rc_system c) (rc_updater c) w of Inl _ \<Rightarrow> [] | Inr ps \<Rightarrow> ps))"

definition request_of :: "step_in \<Rightarrow> run_call \<Rightarrow> 'a fleet_db_scheme \<Rightarrow> ansible_request" where
  "request_of x c w = \<lparr>rq_system = rc_system c, rq_body = rc_body c,
     rq_targeted = rc_packages c, rq_excluded = request_excludes x c w,
     rq_held = (if rc_kind c = kind_apply \<and> rc_holds c then Some (request_held x c w) else None)\<rparr>"

definition do_write :: "step_in \<Rightarrow> run_call \<Rightarrow> 'a fleet_db_scheme \<Rightarrow> run_call \<times> 'a fleet_db_scheme" where
  "do_write x c w =
     (case si_write x of
        None \<Rightarrow> (c\<lparr>rc_pc := Executing (request_of x c w)\<rparr>, w)
      | Some m \<Rightarrow>
          (c\<lparr>rc_pc := AtUnlock (None, failed_result m)\<rparr>,
           log_complete c (si_now x) False (fail_detail c (''write playbook: '' @ m))
             (runner_finish x c (si_now x) (-1) 0 (''write playbook: '' @ m) w)))"

text \<open>After the play of a check or an apply.\<close>

definition keep_packages :: "run_env \<Rightarrow> run_call \<Rightarrow> string \<Rightarrow> 'a fleet_db_scheme \<Rightarrow> 'a fleet_db_scheme" where
  "keep_packages E c out w =
     (if rc_kind c = kind_check
      then or_ignore w (set_pending_packages (re_codec E) (rc_system c) (rc_updater c) (parse_pending_packages out) w)
      else w)"

definition keep_holds :: "step_in \<Rightarrow> run_call \<Rightarrow> int \<Rightarrow> string list \<Rightarrow> 'a fleet_db_scheme \<Rightarrow> 'a fleet_db_scheme" where
  "keep_holds x c now excl w =
     (if rc_kind c = kind_apply \<and> rc_holds c \<and> RecordHolds \<notin> si_failing x then or_ignore w (replace_holds (rc_system c) (rc_updater c) now excl w) else w)"

definition run_detail :: "run_env \<Rightarrow> run_call \<Rightarrow> int \<Rightarrow> ansible_run \<Rightarrow> string list \<Rightarrow> detail" where
  "run_detail E c now a excl =
     [(''parent_id'', DStr (rc_id c)), (''updater_id'', DStr (rc_updater c)), (''status'', DStr (an_status a)),
      (''exit_code'', DInt (an_exit a)), (''duration_ms'', DInt (millis (now - rc_start c))),
      (''affected_packages'', DInt (parse_affected_count (an_stdout a))),
      (''log_sha'', DStr (re_sha E (combine_output (an_stdout a) (an_stderr a))))] @
     (if rc_packages c = [] then [] else [(''targeted_packages'', DStrs (rc_packages c))]) @
     (if excl = [] then [] else [(''excluded_packages'', DStrs excl)]) @
     (if rc_kind c = kind_apply \<and> rc_holds c
      then (case parse_hold_counts (an_stdout a) of (ad, re, dr) \<Rightarrow>
              [(''holds_added'', DInt ad), (''holds_removed'', DInt re), (''holds_drift_reaped'', DInt dr)])
      else [])"

definition error_detail :: "run_call \<Rightarrow> ansible_run \<Rightarrow> string \<Rightarrow> detail" where
  "error_detail c a m =
     (if rc_kind c = kind_inspect then [] else [(''updater_id'', DStr (rc_updater c))]) @
     [(''status'', DStr ans_failure), (''exit_code'', DInt (an_exit a)), (''reason'', DStr m)]"

definition settle_update :: "run_env \<Rightarrow> step_in \<Rightarrow> ansible_request \<Rightarrow> run_call \<Rightarrow> 'a fleet_db_scheme
    \<Rightarrow> outcome \<times> 'a fleet_db_scheme" where
  "settle_update E x q c w =
     (let a = snd (si_answer x); now = si_now x; aff = parse_affected_count (an_stdout a);
          w1 = runner_finish x c now (an_exit a) aff (combine_output (an_stdout a) (an_stderr a)) w
      in case fst (si_answer x) of
           Some m \<Rightarrow> ((Some (RunAnsible m), failed_result m), log_complete c now False (error_detail c a m) w1)
         | None \<Rightarrow>
             (let w2 = keep_packages E c (an_stdout a) w1;
                  w3 = reconcile_reboot (rc_system c) (an_stdout a) now w2;
                  w4 = keep_holds x c now (rq_excluded q) w3
              in ((None, \<lparr>rr_status = an_status a, rr_exit = an_exit a, rr_affected = aff, rr_detected = [],
                     rr_removed = [], rr_reason = []\<rparr>),
                  log_complete c now (an_status a = ans_success) (run_detail E c now a (rq_excluded q)) w4)))"

text \<open>After the play of an inspection: the table of detected updaters becomes what was detected.\<close>

definition reconcile_availability :: "string \<Rightarrow> string list \<Rightarrow> int \<Rightarrow> 'a fleet_db_scheme \<Rightarrow> string list \<times> 'a fleet_db_scheme" where
  "reconcile_availability sid detected now w =
     (let before = availability_for sid w;
          gone = filter (\<lambda>u. u \<notin> set detected) (map av_updater before);
          w1 = fold (\<lambda>u w. or_ignore w (upsert_availability sid u now w)) detected w
      in (gone, fold (\<lambda>u w. remove_availability sid u w) gone w1))"

definition inspect_detail :: "run_call \<Rightarrow> int \<Rightarrow> ansible_run \<Rightarrow> string list \<Rightarrow> string list \<Rightarrow> detail" where
  "inspect_detail c now a detected gone =
     [(''parent_id'', DStr (rc_id c)), (''status'', DStr (an_status a)), (''exit_code'', DInt (an_exit a)),
      (''duration_ms'', DInt (millis (now - rc_start c))), (''detected'', DStrs detected)] @
     (if gone = [] then [] else [(''removed'', DStrs gone)])"

definition settle_inspect :: "step_in \<Rightarrow> run_call \<Rightarrow> 'a fleet_db_scheme \<Rightarrow> outcome \<times> 'a fleet_db_scheme" where
  "settle_inspect x c w =
     (let a = snd (si_answer x); now = si_now x;
          w1 = runner_finish x c now (an_exit a) 0 (combine_output (an_stdout a) (an_stderr a)) w
      in case fst (si_answer x) of
           Some m \<Rightarrow> ((Some (RunAnsible m), failed_result m), log_complete c now False (error_detail c a m) w1)
         | None \<Rightarrow>
             (case parse_platform_facts (an_stdout a) of (os, distro, virt) \<Rightarrow>
                (let w2 = or_ignore w1 (set_platform_info (rc_system c) os distro virt w1);
                     w3 = reconcile_reboot (rc_system c) (an_stdout a) now w2;
                     detected = parse_detected (an_stdout a);
                     (gone, w4) = reconcile_availability (rc_system c) detected now w3
                 in ((None, \<lparr>rr_status = an_status a, rr_exit = an_exit a, rr_affected = 0, rr_detected = detected,
                        rr_removed = gone, rr_reason = []\<rparr>),
                     log_complete c now (an_status a = ans_success) (inspect_detail c now a detected gone) w4))))"

definition do_return :: "run_env \<Rightarrow> step_in \<Rightarrow> ansible_request \<Rightarrow> run_call \<Rightarrow> 'a fleet_db_scheme
    \<Rightarrow> run_call \<times> 'a fleet_db_scheme" where
  "do_return E x q c w =
     (let (o', w') = (if rc_kind c = kind_inspect then settle_inspect x c w else settle_update E x q c w)
      in (c\<lparr>rc_pc := AtUnlock o'\<rparr>, w'))"

definition do_unlock :: "step_in \<Rightarrow> outcome \<Rightarrow> run_call \<Rightarrow> 'a fleet_db_scheme \<Rightarrow> run_call \<times> 'a fleet_db_scheme" where
  "do_unlock x res c w =
     (c\<lparr>rc_pc := Finished res\<rparr>,
      broadcast ''systems.changed'' (broadcast ''updater.run.completed'' (try_release x (rc_system c) (rc_id c) w)))"

definition run_step :: "run_env \<Rightarrow> step_in \<Rightarrow> run_call \<Rightarrow> 'a fleet_db_scheme \<Rightarrow> run_call \<times> 'a fleet_db_scheme" where
  "run_step E x c w =
     (case rc_pc c of
        AtInsert \<Rightarrow> do_insert E c w
      | AtTrim \<Rightarrow> (c\<lparr>rc_pc := AtLock\<rparr>, trim_history E (rc_system c) w)
      | AtLock \<Rightarrow> do_lock E x c w
      | AtGate \<Rightarrow> do_gate x c w
      | AtWrite \<Rightarrow> do_write x c w
      | Executing q \<Rightarrow> do_return E x q c w
      | AtUnlock res \<Rightarrow> do_unlock x res c w
      | Finished res \<Rightarrow> (c, w))"

text \<open>A call that nothing interrupts: its steps one after the other.\<close>

fun run_steps :: "run_env \<Rightarrow> step_in list \<Rightarrow> run_call \<Rightarrow> 'a fleet_db_scheme \<Rightarrow> run_call \<times> 'a fleet_db_scheme" where
  "run_steps E [] c w = (c, w)"
| "run_steps E (x # xs) c w = (let (c', w') = run_step E x c w in run_steps E xs c' w')"

end
