(* ===== verification/UpdaterProps.thy ===== *)
theory UpdaterProps
  imports UpdaterRunner
begin

text \<open>
  What the runner of the updaters does to the tables: the fields its helpers leave alone, the
  effect of an inspection on the detected updaters, what an apply is told to leave out, and
  the rows of the history.
\<close>

named_theorems frame_simps \<open>which table a helper of the runner leaves alone\<close>

section \<open>What the helpers leave alone\<close>

lemma or_ignore_frame:
  assumes "\<And>t. r = Inr t \<Longrightarrow> f t = f s"
  shows "f (or_ignore s r) = f s"
  using assms by (cases r) (auto simp: or_ignore_def)

lemma update_host_frame [simp]:
  "update_host g i db = Inr db' \<Longrightarrow> ld_locks db' = ld_locks db"
  for db :: "'a lock_db_scheme"
  by (auto simp: update_host_def split: if_splits)

lemma update_host_frame' [simp]:
  "update_host g i db = Inr db' \<Longrightarrow> ud_runs db' = ud_runs db \<and> ud_avail db' = ud_avail db \<and> ud_defs db' = ud_defs db"
  for db :: "'a updater_db_scheme"
  by (auto simp: update_host_def split: if_splits)

lemma update_host_rules [simp]:
  "update_host g i db = Inr db' \<Longrightarrow> rd_exclusions db' = rd_exclusions db \<and> rd_holds db' = rd_holds db"
  for db :: "'a rules_db_scheme"
  by (auto simp: update_host_def split: if_splits)

lemmas reboot_defs = set_reboot_required_def clear_reboot_required_def set_platform_info_def

lemma reboot_frame [frame_simps]:
  "ld_locks (reconcile_reboot sid out now w) = ld_locks w"
  "ud_runs (reconcile_reboot sid out now w) = ud_runs w"
  "ud_avail (reconcile_reboot sid out now w) = ud_avail w"
  "ud_defs (reconcile_reboot sid out now w) = ud_defs w"
  "rd_exclusions (reconcile_reboot sid out now w) = rd_exclusions w"
  "rd_holds (reconcile_reboot sid out now w) = rd_holds w"
  by (auto simp: reconcile_reboot_def reboot_defs or_ignore_def split: sum.splits)

lemma platform_frame [frame_simps]:
  "ld_locks (or_ignore w (set_platform_info sid a b v w)) = ld_locks w"
  "ud_runs (or_ignore w (set_platform_info sid a b v w)) = ud_runs w"
  "ud_avail (or_ignore w (set_platform_info sid a b v w)) = ud_avail w"
  "ud_defs (or_ignore w (set_platform_info sid a b v w)) = ud_defs w"
  "rd_exclusions (or_ignore w (set_platform_info sid a b v w)) = rd_exclusions w"
  "rd_holds (or_ignore w (set_platform_info sid a b v w)) = rd_holds w"
  for w :: "'a fleet_db_scheme"
  by (auto simp: reboot_defs or_ignore_def split: sum.splits)

lemma finish_frame [frame_simps]:
  "ld_locks (runner_finish x c now ex aff out w) = ld_locks w"
  "ud_avail (runner_finish x c now ex aff out w) = ud_avail w"
  "ud_defs (runner_finish x c now ex aff out w) = ud_defs w"
  "hd_hosts (runner_finish x c now ex aff out w) = hd_hosts w"
  "rd_exclusions (runner_finish x c now ex aff out w) = rd_exclusions w"
  "rd_holds (runner_finish x c now ex aff out w) = rd_holds w"
  by (auto simp: runner_finish_def finish_run_def or_ignore_def split: if_splits)

lemma runs_finish [simp]:
  "ud_runs (runner_finish x c now ex aff out w) =
     (if FinishRun \<in> si_failing x then ud_runs w
      else update_where (\<lambda>r. ur_id r = rc_id c)
        (\<lambda>r. r\<lparr>ur_finished := Some now, ur_exit := Some ex, ur_affected := aff, ur_log := log_tail out\<rparr>) (ud_runs w))"
proof (cases "count_where (\<lambda>r. ur_id r = rc_id c) (ud_runs w) = 0")
  case True
  then have "\<forall>r\<in>set (ud_runs w). ur_id r \<noteq> rc_id c" by simp
  then have "update_where (\<lambda>r. ur_id r = rc_id c) f (ud_runs w) = ud_runs w" for f
    by (simp add: update_where_def map_idI)
  with True show ?thesis by (simp add: runner_finish_def finish_run_def or_ignore_def)
next
  case False
  then show ?thesis by (simp add: runner_finish_def finish_run_def or_ignore_def del: count_where_0)
qed

lemma release_frame [frame_simps]:
  "ud_runs (try_release x sid rid w) = ud_runs w" "hd_hosts (try_release x sid rid w) = hd_hosts w"
  for w :: "'a fleet_db_scheme"
  by (simp_all add: try_release_def release_lock_def)

lemma trim_frame [frame_simps]:
  "ld_locks (trim_history E sid w) = ld_locks w"
  "ud_avail (trim_history E sid w) = ud_avail w"
  "ud_defs (trim_history E sid w) = ud_defs w"
  "hd_hosts (trim_history E sid w) = hd_hosts w"
  "rd_exclusions (trim_history E sid w) = rd_exclusions w"
  "rd_holds (trim_history E sid w) = rd_holds w"
  by (auto simp: trim_history_def trim_runs_def or_ignore_def Let_def)

lemma runs_trim: "set (ud_runs (trim_history E sid w)) \<subseteq> set (ud_runs w)"
  by (auto simp: trim_history_def trim_runs_def or_ignore_def Let_def)

lemma log_frame [frame_simps]:
  "ld_locks (fleet_log e w) = ld_locks w" "ud_runs (fleet_log e w) = ud_runs w"
  "ud_avail (fleet_log e w) = ud_avail w" "ud_defs (fleet_log e w) = ud_defs w"
  "hd_hosts (fleet_log e w) = hd_hosts w"
  "rd_exclusions (fleet_log e w) = rd_exclusions w" "rd_holds (fleet_log e w) = rd_holds w"
  "ld_locks (broadcast m w) = ld_locks w" "ud_runs (broadcast m w) = ud_runs w"
  "ud_avail (broadcast m w) = ud_avail w" "ud_defs (broadcast m w) = ud_defs w"
  "hd_hosts (broadcast m w) = hd_hosts w"
  "rd_exclusions (broadcast m w) = rd_exclusions w" "rd_holds (broadcast m w) = rd_holds w"
  by (simp_all add: fleet_log_def broadcast_def)

lemma packages_frame [frame_simps]:
  "ld_locks (keep_packages E c out w) = ld_locks w" "ud_runs (keep_packages E c out w) = ud_runs w"
  "ud_defs (keep_packages E c out w) = ud_defs w" "hd_hosts (keep_packages E c out w) = hd_hosts w"
  "rd_exclusions (keep_packages E c out w) = rd_exclusions w" "rd_holds (keep_packages E c out w) = rd_holds w"
  by (auto simp: keep_packages_def set_pending_packages_def or_ignore_def ids_required_def)

lemma holds_frame [frame_simps]:
  "ld_locks (keep_holds x c now ps w) = ld_locks w" "ud_runs (keep_holds x c now ps w) = ud_runs w"
  "ud_avail (keep_holds x c now ps w) = ud_avail w" "ud_defs (keep_holds x c now ps w) = ud_defs w"
  "hd_hosts (keep_holds x c now ps w) = hd_hosts w" "rd_exclusions (keep_holds x c now ps w) = rd_exclusions w"
  by (auto simp: keep_holds_def replace_holds_def or_ignore_def)

lemma complete_frame [frame_simps]:
  "ld_locks (log_complete c now ok d w) = ld_locks w" "ud_runs (log_complete c now ok d w) = ud_runs w"
  "ud_avail (log_complete c now ok d w) = ud_avail w" "ud_defs (log_complete c now ok d w) = ud_defs w"
  "hd_hosts (log_complete c now ok d w) = hd_hosts w"
  "rd_exclusions (log_complete c now ok d w) = rd_exclusions w" "rd_holds (log_complete c now ok d w) = rd_holds w"
  by (simp_all add: log_complete_def frame_simps)

lemma start_frame [frame_simps]:
  "ld_locks (log_start E c w) = ld_locks w" "ud_runs (log_start E c w) = ud_runs w"
  "ud_avail (log_start E c w) = ud_avail w" "ud_defs (log_start E c w) = ud_defs w"
  "hd_hosts (log_start E c w) = hd_hosts w"
  by (simp_all add: log_start_def frame_simps)

section \<open>The detected updaters\<close>

definition avail_at :: "string \<Rightarrow> string \<Rightarrow> 'a updater_db_scheme \<Rightarrow> availability option" where
  "avail_at sid u db = find (avail_key sid u) (ud_avail db)"

lemma find_seen:
  "find (avail_key sid u) (update_where (avail_key s v) (\<lambda>a. a\<lparr>av_seen := t\<rparr>) as) =
     map_option (\<lambda>a. if avail_key s v a then a\<lparr>av_seen := t\<rparr> else a) (find (avail_key sid u) as)"
  by (rule find_update_where) simp

lemma no_such_row: "count_where (avail_key s v) as = 0 \<longleftrightarrow> find (avail_key s v) as = None"
  by (auto simp: find_None_iff)

lemma find_avail_SomeD: "find (avail_key sid u) as = Some a \<Longrightarrow> av_system a = sid \<and> av_updater a = u"
  using find_Some_in by fastforce

lemma avail_at_upsert:
  "avail_at sid u (or_ignore w (upsert_availability s v now w)) =
     (if s = sid \<and> v = u \<and> trim_space s \<noteq> [] \<and> trim_space v \<noteq> []
      then Some (case avail_at sid u w of
             None \<Rightarrow> \<lparr>av_system = sid, av_updater = u, av_enabled = True, av_seen = Some now, av_pending = ''[]''\<rparr>
           | Some a \<Rightarrow> a\<lparr>av_seen := Some now\<rparr>)
      else avail_at sid u w)"
  by (auto simp: avail_at_def upsert_availability_def or_ignore_def ids_required_def find_seen find_append no_such_row
      simp del: count_where_0 split: option.splits dest: find_avail_SomeD)

lemma avail_at_remove:
  "avail_at sid u (remove_availability s v w) = (if s = sid \<and> v = u then None else avail_at sid u w)"
  by (auto simp: avail_at_def remove_availability_def find_delete_where_same intro!: find_delete_where_other)

lemma avail_at_upserts:
  "distinct us \<Longrightarrow> trim_space sid \<noteq> [] \<Longrightarrow>
   avail_at sid u (fold (\<lambda>u w. or_ignore w (upsert_availability sid u now w)) us w) =
     (if u \<in> set us \<and> trim_space u \<noteq> []
      then Some (case avail_at sid u w of
             None \<Rightarrow> \<lparr>av_system = sid, av_updater = u, av_enabled = True, av_seen = Some now, av_pending = ''[]''\<rparr>
           | Some a \<Rightarrow> a\<lparr>av_seen := Some now\<rparr>)
      else avail_at sid u w)"
  by (induction us arbitrary: w) (auto simp: avail_at_upsert)

lemma avail_at_removes:
  "avail_at sid u (fold (\<lambda>u w. remove_availability sid u w) us w) = (if u \<in> set us then None else avail_at sid u w)"
  by (induction us arbitrary: w) (auto simp: avail_at_remove)

lemma avail_other_upserts:
  "s \<noteq> sid \<Longrightarrow> avail_at s u (fold (\<lambda>u w. or_ignore w (upsert_availability sid u now w)) us w) = avail_at s u w"
  by (induction us arbitrary: w) (auto simp: avail_at_upsert)

lemma avail_other_removes:
  "s \<noteq> sid \<Longrightarrow> avail_at s u (fold (\<lambda>u w. remove_availability sid u w) us w) = avail_at s u w"
  by (induction us arbitrary: w) (auto simp: avail_at_remove)

lemma avail_at_listed: "avail_at sid u w = None \<longleftrightarrow> u \<notin> av_updater ` set (availability_for sid w)"
  by (auto simp: avail_at_def availability_for_def find_None_iff)

lemma avail_at_frame: "ud_avail v = ud_avail w \<Longrightarrow> avail_at s u v = avail_at s u w"
  by (simp add: avail_at_def)

lemma reconciled_avail:
  assumes "distinct ds" "trim_space sid \<noteq> []"
  shows "avail_at s u (snd (reconcile_availability sid ds now w)) =
     (if s \<noteq> sid then avail_at s u w
      else if u \<notin> set ds then None
      else if trim_space u = [] then avail_at sid u w
      else Some (case avail_at sid u w of
             None \<Rightarrow> \<lparr>av_system = sid, av_updater = u, av_enabled = True, av_seen = Some now, av_pending = ''[]''\<rparr>
           | Some a \<Rightarrow> a\<lparr>av_seen := Some now\<rparr>))"
  using avail_at_listed [of sid u w] assms
  by (auto simp: reconcile_availability_def Let_def avail_other_removes avail_other_upserts avail_at_removes
      avail_at_upserts)

end
