(* ===== verification/Exporters.thy ===== *)
theory Exporters
  imports UpdaterRunner
begin

text \<open>
  Exporters (\<open>src/internal/exporters\<close>): installers of Prometheus exporters. Their
  definitions and validation (\<open>exporters.go\<close>), the compiled-in ones (\<open>builtins.go\<close>), the
  tables and every operation of \<open>SQLiteStore\<close> (\<open>sqlite_store.go\<close>), the registry
  (\<open>registry.go\<close>) and the parser of the \<open>SW_EXPORTER_...\<close> markers (\<open>playbook.go\<close>).
  The lock they take on a system is the one of the updaters.
\<close>

section \<open>Definitions\<close>

definition kind_node :: string where "kind_node = ''node_exporter''"
definition kind_windows :: string where "kind_windows = ''windows_exporter''"

definition exporter_kind_valid :: "string \<Rightarrow> bool" where
  "exporter_kind_valid k = (k = kind_node \<or> k = kind_windows)"

definition scrape_localhost :: string where "scrape_localhost = ''localhost''"
definition scrape_mtls_self :: string where "scrape_mtls_self = ''mtls-self''"
definition scrape_mtls_byo :: string where "scrape_mtls_byo = ''mtls-byo''"

definition scrape_mode_valid :: "string \<Rightarrow> bool" where
  "scrape_mode_valid m = (m = scrape_localhost \<or> m = scrape_mtls_self \<or> m = scrape_mtls_byo)"

definition state_installed :: string where "state_installed = ''installed''"
definition state_running :: string where "state_running = ''running''"
definition state_failed :: string where "state_failed = ''failed''"
definition state_removed :: string where "state_removed = ''removed''"

lemmas exporter_states = state_installed_def state_running_def state_failed_def state_removed_def

definition exporter_state_valid :: "string \<Rightarrow> bool" where
  "exporter_state_valid s = (s = state_installed \<or> s = state_running \<or> s = state_failed \<or> s = state_removed)"

definition pkg_manager_ok :: "string \<Rightarrow> bool" where
  "pkg_manager_ok s =
     (starts_with prefix_builtin s \<and> binary_ok (drop (length prefix_builtin) s) \<or>
      starts_with prefix_custom s \<and> binary_ok (drop (length prefix_custom) s))"

record exporter =
  xp_id :: string
  xp_source :: source
  xp_name :: string
  xp_desc :: string
  xp_manager :: string   \<comment> \<open>the updater whose hosts it is for\<close>
  xp_kind :: string
  xp_port :: int
  xp_install :: string
  xp_status :: string
  xp_remove :: string
  xp_by :: string
  xp_created :: int
  xp_updated :: int
  xp_deleted :: "int option"

datatype exporter_error =
    XpNotFound
  | XpInvalid string
  | XpConflict
  | XpBuiltinWrite
  | XpReserved
  | XpDuplicate
  | XpNoRemove
  | XpSql

definition exporter_deleted :: "exporter \<Rightarrow> bool" where
  "exporter_deleted d = (xp_deleted d \<noteq> None)"

definition has_remove :: "exporter \<Rightarrow> bool" where
  "has_remove d = (xp_remove d \<noteq> [])"

definition validate_exporter :: "exporter \<Rightarrow> (string, unit) result" where
  "validate_exporter d =
     (let name = trim_space (xp_name d); mgr = trim_space (xp_manager d)
      in if name = [] then Inl ''exporters: display_name required''
         else if mgr = [] then Inl ''exporters: applies_to_pkg_manager required''
         else if \<not> pkg_manager_ok mgr
              then Inl ''exporters: applies_to_pkg_manager must look like an updater id (builtin.<name> or custom.<slug>)''
         else if \<not> exporter_kind_valid (xp_kind d)
              then Inl ''exporters: exporter_kind must be node_exporter or windows_exporter''
         else if xp_port d < 1 \<or> 65535 < xp_port d then Inl ''exporters: bind_port must be between 1 and 65535''
         else if xp_install d = [] then Inl ''exporters: install_playbook required''
         else if xp_status d = [] then Inl ''exporters: status_playbook required''
         else if max_playbook_bytes < int (length (xp_install d)) then Inl ''exporters: install_playbook exceeds 64 KB cap''
         else if max_playbook_bytes < int (length (xp_status d)) then Inl ''exporters: status_playbook exceeds 64 KB cap''
         else if max_playbook_bytes < int (length (xp_remove d)) then Inl ''exporters: remove_playbook exceeds 64 KB cap''
         else Inr ())"

section \<open>The compiled-in installers\<close>

text \<open>\<open>file\<close> gives the embedded files by their path.\<close>

definition exporter_builtin :: "(string \<Rightarrow> string) \<Rightarrow> string \<Rightarrow> string \<Rightarrow> string \<Rightarrow> string \<Rightarrow> string \<Rightarrow> int \<Rightarrow> string
    \<Rightarrow> exporter" where
  "exporter_builtin file i name desc mgr kind port dir = \<lparr>xp_id = i, xp_source = SourceBuiltin, xp_name = name,
     xp_desc = desc, xp_manager = mgr, xp_kind = kind, xp_port = port, xp_install = file (dir @ ''/install.yml''),
     xp_status = file (dir @ ''/status.yml''), xp_remove = file (dir @ ''/remove.yml''), xp_by = [], xp_created = 0,
     xp_updated = 0, xp_deleted = None\<rparr>"

definition dash :: string where "dash = bytes [226, 128, 148]"

definition exporter_builtins :: "(string \<Rightarrow> string) \<Rightarrow> exporter list" where
  "exporter_builtins file =
     [
      exporter_builtin file ''builtin.dnf.exporter'' (''dnf '' @ dash @ '' node_exporter'')
        ''Fedora / RHEL / CentOS Stream node_exporter via the node-exporter package. Binds 127.0.0.1:9100 in localhost mode.''
        ''builtin.dnf'' kind_node 9100 ''builtins/dnf'',
      exporter_builtin file ''builtin.pacman.exporter'' (''pacman '' @ dash @ '' node_exporter'')
        ''Arch Linux node_exporter via the prometheus-node-exporter package. Binds 127.0.0.1:9100 in localhost mode via a systemd drop-in override.''
        ''builtin.pacman'' kind_node 9100 ''builtins/pacman'',
      exporter_builtin file ''builtin.apk.exporter'' (''apk '' @ dash @ '' node_exporter (Alpine + OpenWrt)'')
        (''Alpine: prometheus-node-exporter (Go binary, OpenRC, /etc/conf.d/node-exporter). OpenWrt: prometheus-node-exporter-lua (Lua reimplementation, procd, UCI). Both bind 127.0.0.1:9100 and exposes node_* metrics in the Prometheus exposition format. OpenWrt's Lua build emits a router-appropriate subset '' @ dash @ '' disk / filesystem panels may be empty.'')
        ''builtin.apk'' kind_node 9100 ''builtins/apk'',
      exporter_builtin file ''builtin.pkg.exporter'' (''pkg '' @ dash @ '' node_exporter (FreeBSD)'')
        ''FreeBSD node_exporter via the node_exporter package. Binds 127.0.0.1:9100 via node_exporter_args in /etc/rc.conf and manages the service through the FreeBSD rc.d framework. Upstream node_exporter on BSDs covers a narrower collector set than Linux: CPU iowait, swap %, TCP connections, open file descriptors, and process counts are not emitted; memory used % falls back to active+wired vs active+inactive+wired+free.''
        ''builtin.pkg'' kind_node 9100 ''builtins/pkg'',
      exporter_builtin file ''builtin.pkgin.exporter'' (''pkgin '' @ dash @ '' node_exporter (NetBSD)'')
        ''NetBSD node_exporter via the pkgsrc node_exporter package. Binds 127.0.0.1:9100 via node_exporter_flags in /etc/rc.conf and copies the rc.d script from /usr/pkg/share/examples/rc.d if not already installed. Upstream node_exporter on BSDs covers a narrower collector set than Linux: CPU iowait, swap %, TCP connections, open file descriptors, and process counts are not emitted; memory used % falls back to active+wired vs active+inactive+wired+free where available.''
        ''builtin.pkgin'' kind_node 9100 ''builtins/pkgin'',
      exporter_builtin file ''builtin.pkg_add.exporter'' (''pkg_add '' @ dash @ '' node_exporter (OpenBSD)'')
        ''OpenBSD node_exporter via the node_exporter package. Binds 127.0.0.1:9100 via rcctl set node_exporter flags and manages enable / restart through rcctl. Upstream node_exporter on BSDs covers a narrower collector set than Linux: CPU iowait, swap %, TCP connections, open file descriptors, and process counts are not emitted; memory used % falls back to active+wired vs active+inactive+wired+free where available.''
        ''builtin.pkg_add'' kind_node 9100 ''builtins/pkg_add'',
      exporter_builtin file ''builtin.apt.exporter'' (''apt '' @ dash @ '' node_exporter (Debian + Ubuntu)'')
        ''Debian / Ubuntu node_exporter via the prometheus-node-exporter package. Binds 127.0.0.1:9100 in localhost mode via a systemd drop-in override on the prometheus-node-exporter service.''
        ''builtin.apt'' kind_node 9100 ''builtins/apt'',
      exporter_builtin file ''builtin.xbps.exporter'' (''xbps '' @ dash @ '' node_exporter (Void Linux)'')
        ''Void Linux node_exporter via the node_exporter package. Service supervision uses runit (sv): the package ships /etc/sv/node_exporter and the play writes /etc/sv/node_exporter/conf with OPTS forcing 127.0.0.1:9100, symlinks the service into /var/service, then sends sv term so runsv respawns with the new options.''
        ''builtin.xbps'' kind_node 9100 ''builtins/xbps'',
      exporter_builtin file ''builtin.zypper.exporter'' (''zypper '' @ dash @ '' node_exporter (openSUSE + SLES)'')
        (''openSUSE / SLES node_exporter via the golang-github-prometheus-node_exporter package. Binds 127.0.0.1:9100 in localhost mode via a systemd drop-in override on the prometheus-node_exporter service (note the underscore '' @ dash @ '' matches the SUSE package's unit name).'')
        ''builtin.zypper'' kind_node 9100 ''builtins/zypper'',
      exporter_builtin file ''builtin.brew.exporter'' (''brew '' @ dash @ '' node_exporter (macOS)'')
        ''macOS node_exporter via the Homebrew node_exporter formula. Runs as a per-user LaunchAgent (com.systemwrangler.node_exporter) bound to 127.0.0.1:9100. Homebrew refuses to run as root, so the play uses become: false; the LaunchAgent is loaded into the SSH user's bootstrap context. Headless monitoring requires the SSH user to stay signed in so launchd keeps the agent alive.''
        ''builtin.brew'' kind_node 9100 ''builtins/brew'',
      exporter_builtin file ''builtin.winget.exporter'' (''winget '' @ dash @ '' windows_exporter'')
        ''Windows windows_exporter via the Prometheus.WindowsExporter winget package. After install the play rewrites the windows_exporter service binPath via Win32_Service.Change to force --web.listen-address=127.0.0.1:9182 and enable a wider collector set (cpu,cs,logical_disk,memory,net,os,service,system,tcp) so Memory and TCP panels populate alongside the defaults. Uses the standard windows_exporter port 9182.''
        ''builtin.winget'' kind_windows 9182 ''builtins/winget'']"

section \<open>Rows\<close>

record system_exporter =
  se_system :: string
  se_exporter :: string
  se_state :: string
  se_port :: int
  se_service :: string
  se_status_at :: "int option"
  se_install_at :: "int option"
  se_reason :: string
  se_scrape :: bool

definition run_install :: string where "run_install = ''install''"
definition run_status :: string where "run_status = ''status''"
definition run_remove :: string where "run_remove = ''remove''"

lemmas exporter_kinds = run_install_def run_status_def run_remove_def

definition exporter_run_valid :: "string \<Rightarrow> bool" where
  "exporter_run_valid k = (k = run_install \<or> k = run_status \<or> k = run_remove)"

record exporter_run =
  er_id :: string
  er_system :: string
  er_exporter :: string
  er_kind :: string
  er_started :: int
  er_finished :: "int option"
  er_exit :: "int option"
  er_actor :: string
  er_sha :: string
  er_log :: string

record site_db = fleet_db +
  xd_defs :: "exporter list"
  xd_rows :: "system_exporter list"
  xd_modes :: "(string \<times> string) list"   \<comment> \<open>system and scrape mode\<close>
  xd_runs :: "exporter_run list"

section \<open>Custom installers\<close>

definition exporter_at :: "string \<Rightarrow> 'a site_db_scheme \<Rightarrow> exporter option" where
  "exporter_at i db = find (\<lambda>d. xp_id d = i) (xd_defs db)"

definition list_custom_exporters :: "'a site_db_scheme \<Rightarrow> exporter list" where
  "list_custom_exporters db =
     sort_key (\<lambda>d. (map lower_char (xp_name d), xp_id d)) (filter (\<lambda>d. xp_deleted d = None) (xd_defs db))"

definition get_custom_exporter :: "string \<Rightarrow> 'a site_db_scheme \<Rightarrow> (exporter_error, exporter) result" where
  "get_custom_exporter i db = (case exporter_at i db of None \<Rightarrow> Inl XpNotFound | Some d \<Rightarrow> Inr d)"

definition create_custom_exporter :: "int \<Rightarrow> exporter \<Rightarrow> 'a site_db_scheme
    \<Rightarrow> (exporter_error, exporter \<times> 'a site_db_scheme) result" where
  "create_custom_exporter now d db =
     (if \<not> is_custom_id (xp_id d) then Inl XpReserved
      else (case validate_exporter d of
              Inl m \<Rightarrow> Inl (XpInvalid m)
            | Inr _ \<Rightarrow>
                (let d = d\<lparr>xp_created := now, xp_updated := now, xp_deleted := None\<rparr>
                 in if exporter_at (xp_id d) db \<noteq> None then Inl XpDuplicate
                    else Inr (d, db\<lparr>xd_defs := xd_defs db @ [d\<lparr>xp_source := SourceCustom\<rparr>]\<rparr>))))"

definition update_custom_exporter :: "int \<Rightarrow> exporter \<Rightarrow> 'a site_db_scheme
    \<Rightarrow> (exporter_error, exporter \<times> 'a site_db_scheme) result" where
  "update_custom_exporter now d db =
     (if \<not> is_custom_id (xp_id d) then Inl XpReserved
      else (case validate_exporter d of
              Inl m \<Rightarrow> Inl (XpInvalid m)
            | Inr _ \<Rightarrow>
                (case get_custom_exporter (xp_id d) db of
                   Inl e \<Rightarrow> Inl e
                 | Inr old \<Rightarrow>
                     if exporter_deleted old then Inl XpNotFound
                     else
                       (let d = d\<lparr>xp_by := xp_by old, xp_created := xp_created old, xp_updated := now, xp_deleted := None\<rparr>
                        in Inr (d, db\<lparr>xd_defs := update_where (\<lambda>r. xp_id r = xp_id d \<and> xp_deleted r = None)
                             (\<lambda>r. r\<lparr>xp_name := xp_name d, xp_desc := xp_desc d, xp_manager := xp_manager d,
                                xp_kind := xp_kind d, xp_port := xp_port d, xp_install := xp_install d,
                                xp_status := xp_status d, xp_remove := xp_remove d, xp_updated := now\<rparr>)
                             (xd_defs db)\<rparr>)))))"

definition delete_custom_exporter :: "string \<Rightarrow> int \<Rightarrow> 'a site_db_scheme \<Rightarrow> (exporter_error, 'a site_db_scheme) result" where
  "delete_custom_exporter i now db =
     (let p = (\<lambda>r. xp_id r = i \<and> xp_deleted r = None)
      in if count_where p (xd_defs db) = 0 then Inl XpNotFound
         else Inr (db\<lparr>xd_defs := update_where p (\<lambda>r. r\<lparr>xp_deleted := Some now, xp_updated := now\<rparr>) (xd_defs db)\<rparr>))"

section \<open>The state of an exporter on a system\<close>

abbreviation exporter_key :: "string \<Rightarrow> string \<Rightarrow> system_exporter \<Rightarrow> bool" where
  "exporter_key sid xid \<equiv> \<lambda>r. se_system r = sid \<and> se_exporter r = xid"

text \<open>\<open>COALESCE\<close>: the first value that is not \<open>NULL\<close>.\<close>

definition coalesce :: "'v option \<Rightarrow> 'v option \<Rightarrow> 'v option" where
  "coalesce a b = (case a of None \<Rightarrow> b | Some _ \<Rightarrow> a)"

text \<open>The column \<open>scrape_enabled\<close> is not among those written.\<close>

definition upsert_system_exporter :: "system_exporter \<Rightarrow> 'a site_db_scheme \<Rightarrow> (exporter_error, 'a site_db_scheme) result" where
  "upsert_system_exporter r db =
     (if trim_space (se_system r) = [] \<or> trim_space (se_exporter r) = []
      then Inl (XpInvalid ''system_id and exporter_id required'')
      else if \<not> exporter_state_valid (se_state r) then Inl (XpInvalid ''invalid state'')
      else let p = exporter_key (se_system r) (se_exporter r)
           in if count_where p (xd_rows db) = 0 then Inr (db\<lparr>xd_rows := xd_rows db @ [r\<lparr>se_scrape := True\<rparr>]\<rparr>)
              else Inr (db\<lparr>xd_rows := update_where p
                     (\<lambda>o'. o'\<lparr>se_state := se_state r, se_port := se_port r, se_service := se_service r,
                        se_status_at := coalesce (se_status_at r) (se_status_at o'),
                        se_install_at := coalesce (se_install_at r) (se_install_at o'),
                        se_reason := se_reason r\<rparr>) (xd_rows db)\<rparr>))"

definition get_system_exporter :: "string \<Rightarrow> string \<Rightarrow> 'a site_db_scheme \<Rightarrow> (exporter_error, system_exporter) result" where
  "get_system_exporter sid xid db =
     (case find (exporter_key sid xid) (xd_rows db) of None \<Rightarrow> Inl XpNotFound | Some r \<Rightarrow> Inr r)"

definition list_system_exporters :: "string \<Rightarrow> 'a site_db_scheme \<Rightarrow> system_exporter list" where
  "list_system_exporters sid db = sort_key se_exporter (filter (\<lambda>r. se_system r = sid) (xd_rows db))"

text \<open>The flag tells whether the switch moved.\<close>

definition set_scrape_enabled :: "string \<Rightarrow> string \<Rightarrow> bool \<Rightarrow> 'a site_db_scheme
    \<Rightarrow> (exporter_error, bool \<times> 'a site_db_scheme) result" where
  "set_scrape_enabled sid xid b db =
     (let p = (\<lambda>r. exporter_key sid xid r \<and> se_scrape r \<noteq> b)
      in if count_where p (xd_rows db) \<noteq> 0
         then Inr (True, db\<lparr>xd_rows := update_where p (\<lambda>r. r\<lparr>se_scrape := b\<rparr>) (xd_rows db)\<rparr>)
         else if count_where (exporter_key sid xid) (xd_rows db) = 0 then Inl XpNotFound
         else Inr (False, db))"

definition mark_removed :: "string \<Rightarrow> string \<Rightarrow> int \<Rightarrow> string \<Rightarrow> 'a site_db_scheme
    \<Rightarrow> (exporter_error, 'a site_db_scheme) result" where
  "mark_removed sid xid now why db =
     (if count_where (exporter_key sid xid) (xd_rows db) = 0 then Inl XpNotFound
      else Inr (db\<lparr>xd_rows := update_where (exporter_key sid xid)
             (\<lambda>r. r\<lparr>se_state := state_removed, se_status_at := Some now, se_reason := why\<rparr>) (xd_rows db)\<rparr>))"

definition get_scrape_mode :: "string \<Rightarrow> 'a site_db_scheme \<Rightarrow> string" where
  "get_scrape_mode sid db =
     (case map_of (xd_modes db) sid of
        None \<Rightarrow> scrape_localhost
      | Some m \<Rightarrow> if scrape_mode_valid m then m else scrape_localhost)"

definition set_scrape_mode :: "string \<Rightarrow> string \<Rightarrow> 'a site_db_scheme \<Rightarrow> (exporter_error, 'a site_db_scheme) result" where
  "set_scrape_mode sid m db =
     (if trim_space sid = [] then Inl (XpInvalid ''system_id required'')
      else if \<not> scrape_mode_valid m then Inl (XpInvalid ''invalid scrape mode'')
      else Inr (db\<lparr>xd_modes := alist_put sid m (xd_modes db)\<rparr>))"

section \<open>Runs\<close>

definition exporter_run_at :: "string \<Rightarrow> 'a site_db_scheme \<Rightarrow> exporter_run option" where
  "exporter_run_at i db = find (\<lambda>r. er_id r = i) (xd_runs db)"

definition insert_exporter_run :: "exporter_run \<Rightarrow> 'a site_db_scheme \<Rightarrow> (exporter_error, 'a site_db_scheme) result" where
  "insert_exporter_run r db =
     (if \<not> exporter_run_valid (er_kind r) then Inl (XpInvalid ''run kind'')
      else if er_id r = [] \<or> er_system r = [] then Inl (XpInvalid ''run id and system_id required'')
      else if exporter_run_at (er_id r) db \<noteq> None then Inl XpSql
      else Inr (db\<lparr>xd_runs := xd_runs db @ [r\<lparr>er_finished := None, er_exit := None, er_log := []\<rparr>]\<rparr>))"

definition finish_exporter_run :: "string \<Rightarrow> int \<Rightarrow> int \<Rightarrow> string \<Rightarrow> 'a site_db_scheme
    \<Rightarrow> (exporter_error, 'a site_db_scheme) result" where
  "finish_exporter_run i now ex out db =
     (if count_where (\<lambda>r. er_id r = i) (xd_runs db) = 0 then Inl XpNotFound
      else Inr (db\<lparr>xd_runs := update_where (\<lambda>r. er_id r = i)
             (\<lambda>r. r\<lparr>er_finished := Some now, er_exit := Some ex, er_log := log_tail out\<rparr>) (xd_runs db)\<rparr>))"

definition reconcile_exporter_runs :: "int \<Rightarrow> 'a site_db_scheme \<Rightarrow> nat \<times> 'a site_db_scheme" where
  "reconcile_exporter_runs now db =
     (count_where (\<lambda>r. er_finished r = None) (xd_runs db),
      db\<lparr>xd_runs := update_where (\<lambda>r. er_finished r = None)
           (\<lambda>r. r\<lparr>er_finished := Some now, er_exit := Some interrupted_exit_code, er_log := interrupted_log\<rparr>) (xd_runs db)\<rparr>)"

definition newest_exporter_runs :: "string \<Rightarrow> 'a site_db_scheme \<Rightarrow> exporter_run list" where
  "newest_exporter_runs sid db = sort_key (\<lambda>r. - er_started r) (filter (\<lambda>r. er_system r = sid) (xd_runs db))"

definition list_exporter_runs :: "string \<Rightarrow> int \<Rightarrow> 'a site_db_scheme \<Rightarrow> exporter_run list" where
  "list_exporter_runs sid limit db =
     take (if limit \<le> 0 \<or> 200 < limit then 50 else nat limit) (newest_exporter_runs sid db)"

definition trim_exporter_runs :: "string \<Rightarrow> int \<Rightarrow> 'a site_db_scheme \<Rightarrow> (exporter_error, 'a site_db_scheme) result" where
  "trim_exporter_runs sid keep db =
     (if sid = [] then Inl (XpInvalid ''system_id required'')
      else if keep \<le> 0 then Inr db
      else (let kept = map er_id (take (nat keep) (newest_exporter_runs sid db))
            in Inr (db\<lparr>xd_runs := delete_where (\<lambda>r. er_system r = sid \<and> er_id r \<notin> set kept) (xd_runs db)\<rparr>)))"

text \<open>The cleanup triggers of the schema.\<close>

definition cleanup_exporters :: "string \<Rightarrow> 'a site_db_scheme \<Rightarrow> 'a site_db_scheme" where
  "cleanup_exporters sid db =
     db\<lparr>xd_runs := delete_where (\<lambda>r. er_system r = sid) (xd_runs db),
        xd_rows := delete_where (\<lambda>r. se_system r = sid) (xd_rows db),
        xd_modes := delete_where (\<lambda>m. fst m = sid) (xd_modes db)\<rparr>"

section \<open>The registry\<close>

definition new_exporter_registry :: "exporter list \<Rightarrow> exporter list option" where
  "new_exporter_registry bs =
     (if list_ex (\<lambda>b. \<not> is_builtin_id (xp_id b)) bs \<or> \<not> distinct (map xp_id bs) then None
      else Some (map (\<lambda>b. b\<lparr>xp_source := SourceBuiltin\<rparr>) bs))"

definition all_exporters :: "exporter list \<Rightarrow> 'a site_db_scheme \<Rightarrow> exporter list" where
  "all_exporters B db = sort_key (\<lambda>d. (xp_name d, xp_id d)) (B @ list_custom_exporters db)"

definition get_exporter :: "exporter list \<Rightarrow> string \<Rightarrow> 'a site_db_scheme \<Rightarrow> (exporter_error, exporter) result" where
  "get_exporter B i db =
     (if is_builtin_id i then (case find (\<lambda>b. xp_id b = i) B of None \<Rightarrow> Inl XpNotFound | Some b \<Rightarrow> Inr b)
      else if is_custom_id i then get_custom_exporter i db
      else Inl (XpInvalid ''id has no source prefix''))"

definition create_exporter :: "int \<Rightarrow> exporter \<Rightarrow> 'a site_db_scheme
    \<Rightarrow> (exporter_error, exporter \<times> 'a site_db_scheme) result" where
  "create_exporter now d db =
     (if is_builtin_id (xp_id d) then Inl XpReserved else create_custom_exporter now (d\<lparr>xp_source := SourceCustom\<rparr>) db)"

definition update_exporter :: "int \<Rightarrow> exporter \<Rightarrow> 'a site_db_scheme
    \<Rightarrow> (exporter_error, exporter \<times> 'a site_db_scheme) result" where
  "update_exporter now d db =
     (if is_builtin_id (xp_id d) then Inl XpBuiltinWrite else update_custom_exporter now (d\<lparr>xp_source := SourceCustom\<rparr>) db)"

definition delete_exporter :: "string \<Rightarrow> int \<Rightarrow> 'a site_db_scheme \<Rightarrow> (exporter_error, 'a site_db_scheme) result" where
  "delete_exporter i now db =
     (if is_builtin_id i then Inl XpBuiltinWrite
      else if \<not> is_custom_id i then Inl (XpInvalid ''id has no source prefix'')
      else delete_custom_exporter i now db)"

section \<open>Markers\<close>

definition port_marker :: string where "port_marker = ''SW_EXPORTER_PORT:''"
definition service_marker :: string where "service_marker = ''SW_EXPORTER_SERVICE:''"
definition state_marker :: string where "state_marker = ''SW_EXPORTER_STATE:''"

text \<open>The payload of the last line that carries the marker.\<close>

definition last_payload :: "string \<Rightarrow> string \<Rightarrow> string option" where
  "last_payload m out = (case rev (payloads m out) of [] \<Rightarrow> None | r # _ \<Rightarrow> Some (trim_set json_ends r))"

record marker_result =
  mr_port :: int
  mr_service :: string
  mr_state :: string

definition parse_exporter_markers :: "string \<Rightarrow> marker_result" where
  "parse_exporter_markers out =
     \<lparr>mr_port = (case last_payload port_marker out of None \<Rightarrow> 0 | Some r \<Rightarrow> leading_number 0 r),
      mr_service = (case last_payload service_marker out of None \<Rightarrow> [] | Some r \<Rightarrow> r),
      mr_state = (case last_payload state_marker out of None \<Rightarrow> [] | Some r \<Rightarrow> r)\<rparr>"

definition marker_state :: "marker_result \<Rightarrow> string" where
  "marker_state m =
     (let s = to_lower (trim_space (mr_state m))
      in if s = state_running then state_running
         else if s = state_installed then state_installed
         else if s = state_removed then state_removed
         else state_failed)"

end
