(* ===== verification/ExporterRunner.thy ===== *)
theory ExporterRunner
  imports Exporters
begin

text \<open>
  The runner of the exporters (\<open>src/internal/exporters/runner.go\<close>): one call of
  \<open>Install\<close>, \<open>Status\<close> or \<open>Remove\<close> as a record with a program counter, cut at the points at
  which other goroutines can run, as the runner of the updaters is. It has no gate.
  The inputs of a step are those of \<open>UpdaterRunner\<close>.
\<close>

record export_env =
  xe_builtins :: "exporter list"
  xe_sha :: "string \<Rightarrow> string"
  xe_keep :: int

datatype export_error = ExpStore exporter_error | ExpConflict | ExpLock string | ExpAnsible string

record export_result =
  xr_status :: string
  xr_exit :: int
  xr_state :: string
  xr_port :: int
  xr_service :: string
  xr_reason :: string

definition no_export :: export_result where
  "no_export = \<lparr>xr_status = [], xr_exit = 0, xr_state = [], xr_port = 0, xr_service = [], xr_reason = []\<rparr>"

definition failed_export :: "string \<Rightarrow> export_result" where
  "failed_export why = no_export\<lparr>xr_status := ans_failure, xr_reason := why\<rparr>"

type_synonym export_outcome = "export_error option \<times> export_result"

datatype export_pc =
    XInsert
  | XTrim
  | XLock
  | XWrite
  | XExecuting
  | XUnlock export_outcome
  | XFinished export_outcome

record export_call =
  xc_id :: string
  xc_system :: string
  xc_exporter :: string
  xc_kind :: string
  xc_body :: string
  xc_port :: int        \<comment> \<open>the \<open>BindPort\<close> of the definition\<close>
  xc_actor :: string
  xc_start :: int
  xc_pc :: export_pc

section \<open>Helpers\<close>

definition export_actions :: "string \<Rightarrow> string \<times> string" where
  "export_actions k =
     (if k = run_status then (''system.exporter.status.start'', ''system.exporter.status.complete'')
      else if k = run_remove then (''system.exporter.remove.start'', ''system.exporter.remove.complete'')
      else (''system.exporter.install.start'', ''system.exporter.install.complete''))"

definition export_finish :: "step_in \<Rightarrow> export_call \<Rightarrow> int \<Rightarrow> int \<Rightarrow> string \<Rightarrow> 'a site_db_scheme \<Rightarrow> 'a site_db_scheme" where
  "export_finish x c now ex out w =
     (if FinishRun \<in> si_failing x then w else or_ignore w (finish_exporter_run (xc_id c) now ex out w))"

definition trim_export_history :: "export_env \<Rightarrow> string \<Rightarrow> 'a site_db_scheme \<Rightarrow> 'a site_db_scheme" where
  "trim_export_history E sid w = (if xe_keep E \<le> 0 then w else or_ignore w (trim_exporter_runs sid (xe_keep E) w))"

definition export_log_start :: "export_env \<Rightarrow> export_call \<Rightarrow> 'a site_db_scheme \<Rightarrow> 'a site_db_scheme" where
  "export_log_start E c w = fleet_log
     \<lparr>ev_action = fst (export_actions (xc_kind c)), ev_outcome = ''success'', ev_actor = xc_actor c,
      ev_target = xc_system c, ev_label = [],
      ev_detail = [(''run_id'', DStr (xc_id c)), (''exporter_id'', DStr (xc_exporter c)),
        (''playbook_sha'', DStr (xe_sha E (xc_body c)))]\<rparr> w"

definition export_log_complete :: "export_call \<Rightarrow> int \<Rightarrow> bool \<Rightarrow> detail \<Rightarrow> 'a site_db_scheme \<Rightarrow> 'a site_db_scheme" where
  "export_log_complete c now ok d w = fleet_log
     \<lparr>ev_action = snd (export_actions (xc_kind c)), ev_outcome = (if ok then ''success'' else ''failure''),
      ev_actor = xc_actor c, ev_target = xc_system c, ev_label = [],
      ev_detail = (let d = (if map_of d ''parent_id'' = None then (''parent_id'', DStr (xc_id c)) # d else d)
                   in if map_of d ''duration_ms'' = None then (''duration_ms'', DInt (millis (now - xc_start c))) # d else d)\<rparr> w"

text \<open>\<open>isConflict\<close> looks at the text of the error.\<close>

definition is_conflict_text :: "string \<Rightarrow> bool" where
  "is_conflict_text m = contains_sub m ''another run is in progress''"

definition lock_error_text :: "updater_error \<Rightarrow> string \<Rightarrow> string" where
  "lock_error_text e m =
     (if e = UpConflict then ''updaters: another run is in progress for this system'' else m)"

section \<open>The start of a call\<close>

definition begin_export :: "export_env \<Rightarrow> string \<Rightarrow> string \<Rightarrow> string \<Rightarrow> string \<Rightarrow> string \<Rightarrow> int \<Rightarrow> 'a site_db_scheme
    \<Rightarrow> (exporter_error, export_call) result" where
  "begin_export E actor sid xid kind rid now w =
     (if sid = [] \<or> xid = [] then Inl (XpInvalid ''system_id and exporter_id required'')
      else (case get_exporter (xe_builtins E) xid w of
              Inl e \<Rightarrow> Inl e
            | Inr d \<Rightarrow>
                if exporter_deleted d then Inl XpNotFound
                else if \<not> exporter_run_valid kind then Inl (XpInvalid ''invalid run kind'')
                else if kind = run_remove \<and> \<not> has_remove d then Inl XpNoRemove
                else Inr \<lparr>xc_id = rid, xc_system = sid, xc_exporter = xid, xc_kind = kind,
                       xc_body = (if kind = run_install then xp_install d
                                  else if kind = run_status then xp_status d else xp_remove d),
                       xc_port = xp_port d, xc_actor = actor, xc_start = now, xc_pc = XInsert\<rparr>))"

section \<open>The steps\<close>

definition export_row :: "export_env \<Rightarrow> export_call \<Rightarrow> exporter_run" where
  "export_row E c = \<lparr>er_id = xc_id c, er_system = xc_system c, er_exporter = xc_exporter c, er_kind = xc_kind c,
     er_started = xc_start c, er_finished = None, er_exit = None, er_actor = xc_actor c,
     er_sha = xe_sha E (xc_body c), er_log = []\<rparr>"

definition export_insert :: "export_env \<Rightarrow> export_call \<Rightarrow> 'a site_db_scheme \<Rightarrow> export_call \<times> 'a site_db_scheme" where
  "export_insert E c w =
     (case insert_exporter_run (export_row E c) w of
        Inl e \<Rightarrow> (c\<lparr>xc_pc := XFinished (Some (ExpStore e), no_export)\<rparr>, w)
      | Inr w' \<Rightarrow> (c\<lparr>xc_pc := XTrim\<rparr>, w'))"

definition export_lock :: "export_env \<Rightarrow> step_in \<Rightarrow> export_call \<Rightarrow> 'a site_db_scheme \<Rightarrow> export_call \<times> 'a site_db_scheme" where
  "export_lock E x c w =
     (case (case si_lock x of Some m \<Rightarrow> Inl UpSql | None \<Rightarrow> acquire_lock (xc_system c) (xc_id c) (xc_start c) w) of
        Inl e \<Rightarrow>
          (let m = lock_error_text e (case si_lock x of Some m \<Rightarrow> m | None \<Rightarrow> [])
           in if is_conflict_text m
              then (c\<lparr>xc_pc := XFinished (Some ExpConflict, failed_export ''conflict'')\<rparr>,
                    export_finish x c (xc_start c) (-1) ''conflict: another run is in progress'' w)
              else (c\<lparr>xc_pc := XFinished (Some (ExpLock m), failed_export [])\<rparr>,
                    export_finish x c (xc_start c) (-1) (''acquire lock failed: '' @ m) w))
      | Inr w' \<Rightarrow>
          (c\<lparr>xc_pc := XWrite\<rparr>,
           export_log_start E c (broadcast ''systems.changed'' (broadcast ''exporter.run.started'' w'))))"

definition export_write :: "step_in \<Rightarrow> export_call \<Rightarrow> 'a site_db_scheme \<Rightarrow> export_call \<times> 'a site_db_scheme" where
  "export_write x c w =
     (case si_write x of
        None \<Rightarrow> (c\<lparr>xc_pc := XExecuting\<rparr>, w)
      | Some m \<Rightarrow>
          (c\<lparr>xc_pc := XUnlock (None, failed_export m)\<rparr>,
           export_log_complete c (si_now x) False
             [(''exporter_id'', DStr (xc_exporter c)), (''status'', DStr ans_failure),
              (''reason'', DStr (''write playbook: '' @ m))]
             (export_finish x c (si_now x) (-1) (''write playbook: '' @ m) w)))"

text \<open>What is concluded from the answer of Ansible.\<close>

definition play_ok :: "step_in \<Rightarrow> bool" where
  "play_ok x = (fst (si_answer x) = None \<and> an_status (snd (si_answer x)) = ans_success)"

definition observed_state :: "step_in \<Rightarrow> export_call \<Rightarrow> string" where
  "observed_state x c =
     (if \<not> play_ok x then state_failed
      else if xc_kind c = run_remove then state_removed
      else marker_state (parse_exporter_markers (an_stdout (snd (si_answer x)))))"

definition observed_port :: "step_in \<Rightarrow> export_call \<Rightarrow> int" where
  "observed_port x c =
     (let p = mr_port (parse_exporter_markers (an_stdout (snd (si_answer x)))) in if p = 0 then xc_port c else p)"

definition play_reason :: "step_in \<Rightarrow> string" where
  "play_reason x =
     (let a = snd (si_answer x)
      in case fst (si_answer x) of
           Some m \<Rightarrow> m
         | None \<Rightarrow> if an_status a \<noteq> ans_success
                   then ''ansible status '' @ an_status a @ '', exit '' @ int_to_string (an_exit a) else [])"

definition observed_row :: "step_in \<Rightarrow> export_call \<Rightarrow> system_exporter" where
  "observed_row x c = \<lparr>se_system = xc_system c, se_exporter = xc_exporter c, se_state = observed_state x c,
     se_port = observed_port x c,
     se_service = mr_service (parse_exporter_markers (an_stdout (snd (si_answer x)))),
     se_status_at = Some (si_now x),
     se_install_at = (if xc_kind c = run_install \<and> fst (si_answer x) = None then Some (si_now x) else None),
     se_reason = play_reason x, se_scrape = False\<rparr>"

definition keep_observed :: "step_in \<Rightarrow> export_call \<Rightarrow> 'a site_db_scheme \<Rightarrow> 'a site_db_scheme" where
  "keep_observed x c w =
     (if xc_kind c = run_remove \<and> play_ok x
      then or_ignore w (mark_removed (xc_system c) (xc_exporter c) (si_now x) (play_reason x) w)
      else or_ignore w (upsert_system_exporter (observed_row x c) w))"

definition export_detail :: "export_env \<Rightarrow> step_in \<Rightarrow> export_call \<Rightarrow> detail" where
  "export_detail E x c =
     (let a = snd (si_answer x)
      in [(''parent_id'', DStr (xc_id c)), (''exporter_id'', DStr (xc_exporter c)), (''status'', DStr (an_status a)),
          (''exit_code'', DInt (an_exit a)), (''duration_ms'', DInt (millis (si_now x - xc_start c))),
          (''state'', DStr (observed_state x c)), (''port'', DInt (observed_port x c)),
          (''log_sha'', DStr (xe_sha E (combine_output (an_stdout a) (an_stderr a))))] @
         (if play_reason x = [] then [] else [(''reason'', DStr (play_reason x))]))"

definition export_return :: "export_env \<Rightarrow> step_in \<Rightarrow> export_call \<Rightarrow> 'a site_db_scheme \<Rightarrow> export_call \<times> 'a site_db_scheme" where
  "export_return E x c w =
     (let a = snd (si_answer x);
          w1 = export_finish x c (si_now x) (an_exit a) (combine_output (an_stdout a) (an_stderr a)) w;
          w2 = keep_observed x c w1;
          res = \<lparr>xr_status = (if fst (si_answer x) = None then an_status a else ans_failure), xr_exit = an_exit a,
             xr_state = observed_state x c, xr_port = observed_port x c,
             xr_service = mr_service (parse_exporter_markers (an_stdout a)), xr_reason = play_reason x\<rparr>
      in (c\<lparr>xc_pc := XUnlock (map_option ExpAnsible (fst (si_answer x)), res)\<rparr>,
          export_log_complete c (si_now x) (play_ok x) (export_detail E x c) w2))"

definition export_unlock :: "step_in \<Rightarrow> export_outcome \<Rightarrow> export_call \<Rightarrow> 'a site_db_scheme \<Rightarrow> export_call \<times> 'a site_db_scheme" where
  "export_unlock x res c w =
     (c\<lparr>xc_pc := XFinished res\<rparr>,
      broadcast ''systems.changed'' (broadcast ''exporter.run.completed'' (try_release x (xc_system c) (xc_id c) w)))"

definition export_step :: "export_env \<Rightarrow> step_in \<Rightarrow> export_call \<Rightarrow> 'a site_db_scheme \<Rightarrow> export_call \<times> 'a site_db_scheme" where
  "export_step E x c w =
     (case xc_pc c of
        XInsert \<Rightarrow> export_insert E c w
      | XTrim \<Rightarrow> (c\<lparr>xc_pc := XLock\<rparr>, trim_export_history E (xc_system c) w)
      | XLock \<Rightarrow> export_lock E x c w
      | XWrite \<Rightarrow> export_write x c w
      | XExecuting \<Rightarrow> export_return E x c w
      | XUnlock res \<Rightarrow> export_unlock x res c w
      | XFinished res \<Rightarrow> (c, w))"

fun export_steps :: "export_env \<Rightarrow> step_in list \<Rightarrow> export_call \<Rightarrow> 'a site_db_scheme \<Rightarrow> export_call \<times> 'a site_db_scheme" where
  "export_steps E [] c w = (c, w)"
| "export_steps E (x # xs) c w = (let (c', w') = export_step E x c w in export_steps E xs c' w')"

end
