(* ===== verification/Locker.thy ===== *)
theory Locker
  imports UpdaterProps ExporterRunner
begin

text \<open>
  The lock on a system, seen from both sides. The locale \<open>lock_client\<close> states what a runner
  that takes the lock of a system and gives it back may do with the table of locks at each of
  its steps (the interface \<open>Locker\<close> of the Go code); inside it the invariant that ties the
  rows of the table to the calls that hold them is proved once. It is interpreted on
  the steps of the runner of the updaters, on those of the runner of the exporters, and on
  both together, which is how the server runs them.
\<close>

section \<open>The invariant\<close>

text \<open>
  Every row is the lock of a call that holds it, or of one that is over and whose release failed; every call that
  holds the lock of a system that still exists has its row. (Deleting a system takes its row away under
  the call.) \<open>left\<close> are the ids of the calls whose release failed.
\<close>

definition lock_sound :: "('c \<Rightarrow> string) \<Rightarrow> ('c \<Rightarrow> string) \<Rightarrow> ('c \<Rightarrow> bool) \<Rightarrow> string set \<Rightarrow> string set \<Rightarrow> 'c list
    \<Rightarrow> action_lock list \<Rightarrow> bool" where
  "lock_sound cid csys holds left alive cs ls =
     (distinct (map cid cs) \<and> distinct (map al_system ls)
      \<and> (\<forall>l\<in>set ls. \<exists>c\<in>set cs. cid c = al_run l \<and> csys c = al_system l \<and> (holds c \<or> cid c \<in> left))
      \<and> (\<forall>c\<in>set cs. holds c \<longrightarrow> csys c \<in> alive \<longrightarrow> (\<exists>l\<in>set ls. al_system l = csys c \<and> al_run l = cid c)))"

lemma set_replace:
  assumes "distinct (map f cs)" "i < length cs" "f c' = f (cs ! i)"
  shows "set (cs[i := c']) = insert c' {d \<in> set cs. f d \<noteq> f (cs ! i)}"
proof
  show "set (cs[i := c']) \<subseteq> insert c' {d \<in> set cs. f d \<noteq> f (cs ! i)}"
  proof
    fix d assume "d \<in> set (cs[i := c'])"
    then obtain j where j: "j < length cs" "d = cs[i := c'] ! j" by (auto simp: in_set_conv_nth)
    show "d \<in> insert c' {d \<in> set cs. f d \<noteq> f (cs ! i)}"
    proof (cases "j = i")
      case False
      with assms j have "f (cs ! j) \<noteq> f (cs ! i)" by (auto simp: distinct_conv_nth)
      with j False show ?thesis by simp
    qed (use j assms(2) in simp)
  qed
  show "insert c' {d \<in> set cs. f d \<noteq> f (cs ! i)} \<subseteq> set (cs[i := c'])"
  proof
    fix d assume d: "d \<in> insert c' {d \<in> set cs. f d \<noteq> f (cs ! i)}"
    show "d \<in> set (cs[i := c'])"
    proof (cases "d = c'")
      case True
      with assms(2) show ?thesis by (simp add: set_update_memI)
    next
      case False
      with d obtain j where "j < length cs" "d = cs ! j" "j \<noteq> i" by (auto simp: in_set_conv_nth)
      then show ?thesis by (metis length_list_update nth_list_update_neq nth_mem)
    qed
  qed
qed

lemma same_element:
  assumes "distinct (map f cs)" "c \<in> set cs" "d \<in> set cs" "f c = f d"
  shows "c = d"
  using assms by (meson distinct_map inj_onD)

section \<open>The contract of a client of the lock\<close>

locale lock_client =
  fixes step :: "step_in \<Rightarrow> 'c \<Rightarrow> 'w \<Rightarrow> 'c \<times> 'w"
    and cid :: "'c \<Rightarrow> string"
    and csys :: "'c \<Rightarrow> string"
    and holds :: "'c \<Rightarrow> bool"
    and fails :: "step_in \<Rightarrow> bool"
    and locks :: "'w \<Rightarrow> action_lock list"
    and alive :: "'w \<Rightarrow> string set"
  assumes keeps_cid: "cid (fst (step x c w)) = cid c"
    and keeps_csys: "csys (fst (step x c w)) = csys c"
    and keeps_alive: "alive (snd (step x c w)) = alive w"
    and no_lock: "\<not> holds c \<Longrightarrow> \<not> holds (fst (step x c w)) \<Longrightarrow> locks (snd (step x c w)) = locks w"
    and takes_free_lock: "\<not> holds c \<Longrightarrow> holds (fst (step x c w)) \<Longrightarrow>
      (\<forall>l\<in>set (locks w). al_system l \<noteq> csys c) \<and>
      (\<exists>t. locks (snd (step x c w)) = locks w @ [\<lparr>al_system = csys c, al_run = cid c, al_at = t\<rparr>])"
    and keeps_lock: "holds c \<Longrightarrow> holds (fst (step x c w)) \<Longrightarrow> locks (snd (step x c w)) = locks w"
    and gives_lock_back: "holds c \<Longrightarrow> \<not> holds (fst (step x c w)) \<Longrightarrow>
      locks (snd (step x c w)) =
        (if fails x then locks w else delete_where (\<lambda>l. al_system l = csys c \<and> al_run l = cid c) (locks w))"
begin

text \<open>The call a step ends without its lock having been given back.\<close>

definition leaves :: "step_in \<Rightarrow> 'c \<Rightarrow> 'c \<Rightarrow> string set" where
  "leaves x c c' = (if fails x \<and> holds c \<and> \<not> holds c' then {cid c} else {})"

lemma step_sound:
  assumes "lock_sound cid csys holds left (alive w) cs (locks w)" "i < length cs" "step x (cs ! i) w = (c', w')"
  shows "lock_sound cid csys holds (left \<union> leaves x (cs ! i) c') (alive w') (cs[i := c']) (locks w')"
proof -
  let ?c = "cs ! i"
  define left' where "left' = left \<union> leaves x ?c c'"
  have c: "?c \<in> set cs" using assms(2) by simp
  have id': "cid c' = cid ?c" "csys c' = csys ?c" "alive w' = alive w"
    using keeps_cid [of x ?c w] keeps_csys [of x ?c w] keeps_alive [of x ?c w] assms(3) by simp_all
  from assms(1) have inv: "distinct (map cid cs)" "distinct (map al_system (locks w))"
    "\<And>l. l \<in> set (locks w) \<Longrightarrow> \<exists>c\<in>set cs. cid c = al_run l \<and> csys c = al_system l \<and> (holds c \<or> cid c \<in> left)"
    "\<And>c. c \<in> set cs \<Longrightarrow> holds c \<Longrightarrow> csys c \<in> alive w \<Longrightarrow> \<exists>l\<in>set (locks w). al_system l = csys c \<and> al_run l = cid c"
    by (auto simp: lock_sound_def)
  have cs': "set (cs[i := c']) = insert c' {d \<in> set cs. cid d \<noteq> cid ?c}"
    by (rule set_replace [OF inv(1) assms(2) id'(1)])
  have owner: "\<exists>d\<in>set (cs[i := c']). cid d = al_run l \<and> csys d = al_system l \<and> (holds d \<or> cid d \<in> left')"
    if l: "l \<in> set (locks w)" and m: "holds ?c \<Longrightarrow> al_run l = cid ?c \<Longrightarrow> al_system l = csys ?c \<Longrightarrow> holds c' \<or> cid ?c \<in> left'" for l
  proof -
    obtain d where d: "d \<in> set cs" "cid d = al_run l" "csys d = al_system l" "holds d \<or> cid d \<in> left" using inv(3) [OF l] by blast
    show ?thesis
    proof (cases "cid d = cid ?c")
      case True
      with same_element [OF inv(1) d(1) c] have "d = ?c" by simp
      with d id' m have "cid c' = al_run l" "csys c' = al_system l" "holds c' \<or> cid c' \<in> left'" by (auto simp: left'_def)
      then show ?thesis unfolding cs' by blast
    next
      case False
      with d show ?thesis unfolding cs' left'_def by blast
    qed
  qed
  have "distinct (map cid (cs[i := c']))"
    using inv(1) by (metis assms(2) id'(1) list_update_id map_update nth_map)
  moreover consider (none) "locks w' = locks w" "holds c' \<longleftrightarrow> holds ?c"
    | (take) t where "\<not> holds ?c" "holds c'" "\<forall>l\<in>set (locks w). al_system l \<noteq> csys ?c"
        "locks w' = locks w @ [\<lparr>al_system = csys ?c, al_run = cid ?c, al_at = t\<rparr>]"
    | (leave) "holds ?c" "\<not> holds c'" "locks w' = locks w" "cid ?c \<in> left'"
    | (give) "holds ?c" "\<not> holds c'"
        "locks w' = delete_where (\<lambda>l. al_system l = csys ?c \<and> al_run l = cid ?c) (locks w)"
    using no_lock [of ?c x w] takes_free_lock [of ?c x w] keeps_lock [of ?c x w] gives_lock_back [of ?c x w] assms(3)
    by (cases "holds ?c"; cases "holds c'"; cases "fails x") (auto simp: left'_def leaves_def)
  then have "distinct (map al_system (locks w'))
      \<and> (\<forall>l\<in>set (locks w'). \<exists>d\<in>set (cs[i := c']). cid d = al_run l \<and> csys d = al_system l \<and> (holds d \<or> cid d \<in> left'))
      \<and> (\<forall>d\<in>set (cs[i := c']). holds d \<longrightarrow> csys d \<in> alive w' \<longrightarrow>
            (\<exists>l\<in>set (locks w'). al_system l = csys d \<and> al_run l = cid d))"
  proof cases
    case none
    with owner inv(2,4) c id' show ?thesis unfolding cs' by auto
  next
    case (take t)
    have "\<exists>d\<in>set (cs[i := c']). cid d = al_run l \<and> csys d = al_system l \<and> (holds d \<or> cid d \<in> left')"
      if "l \<in> set (locks w')" for l
    proof (cases "l \<in> set (locks w)")
      case True
      from owner [OF this] take(1) show ?thesis by blast
    next
      case False
      with that take have "cid c' = al_run l" "csys c' = al_system l" "holds c'" using id' by auto
      then show ?thesis unfolding cs' by blast
    qed
    moreover have "distinct (map al_system (locks w'))" using take(3,4) inv(2) by auto
    moreover have "\<exists>l\<in>set (locks w'). al_system l = csys d \<and> al_run l = cid d"
      if "d \<in> set (cs[i := c'])" "holds d" "csys d \<in> alive w'" for d
      using that inv(4) take(4) id' unfolding cs' by auto
    ultimately show ?thesis by blast
  next
    case leave
    have "\<exists>l\<in>set (locks w'). al_system l = csys d \<and> al_run l = cid d"
      if "d \<in> set (cs[i := c'])" "holds d" "csys d \<in> alive w'" for d
      using that inv(4) leave(2,3) id' unfolding cs' by auto
    with leave owner inv(2) show ?thesis by auto
  next
    case give
    have "\<exists>d\<in>set (cs[i := c']). cid d = al_run l \<and> csys d = al_system l \<and> (holds d \<or> cid d \<in> left')"
      if "l \<in> set (locks w')" for l
      using that give(3) by (intro owner) auto
    moreover have "\<exists>l\<in>set (locks w'). al_system l = csys d \<and> al_run l = cid d"
      if d: "d \<in> set cs" "holds d" "csys d \<in> alive w" "cid d \<noteq> cid ?c" for d
      using inv(4) [OF d(1-3)] d(4) give(3) by auto
    moreover have "distinct (map al_system (locks w'))" using inv(2) give(3) by (simp add: distinct_map_delete_where)
    ultimately show ?thesis using give(2) id' unfolding cs' by blast
  qed
  ultimately show ?thesis by (simp add: lock_sound_def left'_def)
qed

text \<open>Two calls that hold the lock of a system that exists are one call.\<close>

lemma one_holder:
  assumes "lock_sound cid csys holds left (alive w) cs (locks w)" "c \<in> set cs" "d \<in> set cs" "holds c" "holds d"
    "csys c = csys d" "csys c \<in> alive w"
  shows "c = d"
proof -
  from assms obtain l m where "l \<in> set (locks w)" "al_system l = csys c" "al_run l = cid c"
    and "m \<in> set (locks w)" "al_system m = csys c" "al_run m = cid d"
    unfolding lock_sound_def by (metis (no_types, lifting))
  moreover have "distinct (map al_system (locks w))" using assms(1) by (simp add: lock_sound_def)
  ultimately have "cid c = cid d" using same_element by metis
  with assms(1-3) show ?thesis using same_element [of cid cs c d] by (simp add: lock_sound_def)
qed

lemma left_locks:
  assumes "lock_sound cid csys holds left (alive w) cs (locks w)" "\<forall>c\<in>set cs. \<not> holds c" "l \<in> set (locks w)"
  shows "al_run l \<in> left \<and> (\<exists>c\<in>set cs. cid c = al_run l \<and> csys c = al_system l)"
  using assms unfolding lock_sound_def by (metis (no_types, lifting))

end

lemma lock_sound_start:
  assumes "lock_sound cid csys holds left alive cs ls" "cid c \<notin> cid ` set cs" "\<not> holds c"
  shows "lock_sound cid csys holds left alive (cs @ [c]) ls"
  using assms by (auto simp: lock_sound_def)

lemma lock_sound_delete:
  assumes "lock_sound cid csys holds left alive cs ls"
  shows "lock_sound cid csys holds left (alive - {s}) cs (delete_where (\<lambda>l. al_system l = s) ls)"
  using assms by (fastforce simp: lock_sound_def distinct_map_delete_where)

lemma lock_sound_alive:
  assumes "lock_sound cid csys holds left alive cs ls" "\<And>c. c \<in> set cs \<Longrightarrow> csys c \<in> alive' \<Longrightarrow> csys c \<in> alive"
  shows "lock_sound cid csys holds left alive' cs ls"
  using assms by (auto simp: lock_sound_def)

section \<open>The runner of the updaters is a client\<close>

definition alive_hosts :: "'a host_db_scheme \<Rightarrow> string set" where
  "alive_hosts w = sys_id ` set (hd_hosts w)"

fun pc_holds :: "pc \<Rightarrow> bool" where
  "pc_holds AtInsert = False"
| "pc_holds AtTrim = False"
| "pc_holds AtLock = False"
| "pc_holds AtGate = True"
| "pc_holds AtWrite = True"
| "pc_holds (Executing q) = True"
| "pc_holds (AtUnlock res) = True"
| "pc_holds (Finished res) = False"

definition run_holds :: "run_call \<Rightarrow> bool" where "run_holds c = pc_holds (rc_pc c)"

lemma alive_update_host:
  assumes "update_host g i w = Inr w'" "\<And>h. sys_id (g h) = sys_id h"
  shows "alive_hosts w' = alive_hosts w"
  using assms map_update_where [of "\<lambda>h. sys_id h = i" sys_id g "hd_hosts w"]
  by (auto simp: update_host_def alive_hosts_def simp flip: set_map split: if_splits)

lemma alive_same: "hd_hosts v = hd_hosts w \<Longrightarrow> alive_hosts v = alive_hosts w"
  for v w :: "'a fleet_db_scheme"
  by (simp add: alive_hosts_def)

lemma alive_reboot [frame_simps]:
  "alive_hosts (reconcile_reboot sid out now w) = alive_hosts w"
  "alive_hosts (or_ignore w (set_platform_info sid a b v w)) = alive_hosts w"
  by (auto simp: reconcile_reboot_def reboot_defs intro!: or_ignore_frame alive_update_host)

lemma alive_frame [frame_simps]:
  "alive_hosts (runner_finish x c now ex aff out w) = alive_hosts w"
  "alive_hosts (trim_history E sid w) = alive_hosts w"
  "alive_hosts (fleet_log e w) = alive_hosts w"
  "alive_hosts (broadcast m w) = alive_hosts w"
  "alive_hosts (keep_packages E c out w) = alive_hosts w"
  "alive_hosts (keep_holds x c now ps w) = alive_hosts w"
  "alive_hosts (log_complete c now ok d w) = alive_hosts w"
  "alive_hosts (log_start E c w) = alive_hosts w"
  by (auto intro!: alive_same simp: frame_simps)

lemma upserts_frame:
  "ld_locks (fold (\<lambda>u w. or_ignore w (upsert_availability sid u now w)) us w) = ld_locks w
   \<and> alive_hosts (fold (\<lambda>u w. or_ignore w (upsert_availability sid u now w)) us w) = alive_hosts w
   \<and> ud_runs (fold (\<lambda>u w. or_ignore w (upsert_availability sid u now w)) us w) = ud_runs w"
  for w :: "'a fleet_db_scheme"
  by (induction us arbitrary: w)
    (auto simp: upsert_availability_def or_ignore_def ids_required_def alive_hosts_def split: sum.splits if_splits)

lemma removes_frame:
  "ld_locks (fold (remove_availability sid) us w) = ld_locks w
   \<and> alive_hosts (fold (remove_availability sid) us w) = alive_hosts w
   \<and> ud_runs (fold (remove_availability sid) us w) = ud_runs w"
  for w :: "'a fleet_db_scheme"
  by (induction us arbitrary: w) (auto simp: remove_availability_def alive_hosts_def)

lemma availability_frame [frame_simps]:
  "ld_locks (snd (reconcile_availability sid ds now w)) = ld_locks w"
  "alive_hosts (snd (reconcile_availability sid ds now w)) = alive_hosts w"
  "ud_runs (snd (reconcile_availability sid ds now w)) = ud_runs w"
  by (simp_all add: reconcile_availability_def Let_def upserts_frame removes_frame)

lemma settle_inspect_frame [frame_simps]:
  "ld_locks (snd (settle_inspect x c w)) = ld_locks w"
  "alive_hosts (snd (settle_inspect x c w)) = alive_hosts w"
  by (simp_all add: settle_inspect_def Let_def split_beta frame_simps split: option.split)

lemma settle_update_frame [frame_simps]:
  "ld_locks (snd (settle_update E x q c w)) = ld_locks w"
  "alive_hosts (snd (settle_update E x q c w)) = alive_hosts w"
  by (simp_all add: settle_update_def Let_def frame_simps split: option.split)

lemma insert_frame:
  "insert_run r w = Inr w' \<Longrightarrow> ld_locks w' = ld_locks w \<and> hd_hosts w' = hd_hosts w"
  by (auto simp: insert_run_def split: if_splits)

lemma acquired:
  "acquire_lock sid rid t w = Inr w' \<Longrightarrow>
   (\<forall>l\<in>set (ld_locks w). al_system l \<noteq> sid) \<and> hd_hosts w' = hd_hosts w
   \<and> ld_locks w' = ld_locks w @ [\<lparr>al_system = sid, al_run = rid, al_at = t\<rparr>]"
  by (auto simp: acquire_lock_def split: if_splits)

lemma released [frame_simps]:
  "ld_locks (try_release x sid rid w) =
     (if ReleaseLock \<in> si_failing x then ld_locks w
      else delete_where (\<lambda>l. al_system l = sid \<and> al_run l = rid) (ld_locks w))"
  "alive_hosts (try_release x sid rid w) = alive_hosts w"
  by (simp_all add: try_release_def release_lock_def alive_hosts_def)

text \<open>The lock after a step that gives it back, or fails to.\<close>

definition given_back :: "step_in \<Rightarrow> string \<Rightarrow> string \<Rightarrow> action_lock list \<Rightarrow> action_lock list" where
  "given_back x sid rid ls =
     (if ReleaseLock \<in> si_failing x then ls else delete_where (\<lambda>l. al_system l = sid \<and> al_run l = rid) ls)"

lemma insert_moves:
  "ld_locks (snd (do_insert E c w)) = ld_locks w \<and> alive_hosts (snd (do_insert E c w)) = alive_hosts w"
  by (auto simp: do_insert_def alive_hosts_def dest: insert_frame split: sum.split)

text \<open>What a step does to the lock, by the place it starts from.\<close>

lemma lock_moves:
  fixes w :: "'a fleet_db_scheme"
  assumes "rc_pc c = AtLock" "run_step E x c w = (c', w')"
  shows "alive_hosts w' = alive_hosts w \<and>
    (\<not> run_holds c' \<and> ld_locks w' = ld_locks w \<or>
     run_holds c' \<and> (\<forall>l\<in>set (ld_locks w). al_system l \<noteq> rc_system c) \<and>
       ld_locks w' = ld_locks w @ [\<lparr>al_system = rc_system c, al_run = rc_id c, al_at = rc_start c\<rparr>])"
proof (cases "case si_lock x of Some m \<Rightarrow> Inl UpSql | None \<Rightarrow> acquire_lock (rc_system c) (rc_id c) (rc_start c) w")
  case (Inl e)
  with assms show ?thesis
    by (cases "e = UpConflict"; cases "rc_kind c = kind_inspect")
      (auto simp: run_step_def do_lock_def run_holds_def frame_simps)
next
  case (Inr v)
  then have "acquire_lock (rc_system c) (rc_id c) (rc_start c) w = Inr v" by (simp split: option.splits)
  note v = acquired [OF this]
  then have "alive_hosts v = alive_hosts w" by (simp add: alive_hosts_def)
  with Inr v assms show ?thesis
    by (cases "rc_kind c = kind_inspect") (auto simp: run_step_def do_lock_def run_holds_def frame_simps)
qed

lemma other_moves:
  fixes w :: "'a fleet_db_scheme"
  assumes "rc_pc c \<noteq> AtLock" "run_step E x c w = (c', w')"
  shows "alive_hosts w' = alive_hosts w \<and>
    (run_holds c' = run_holds c \<and> ld_locks w' = ld_locks w \<or>
     run_holds c \<and> \<not> run_holds c' \<and>
       ld_locks w' = given_back x (rc_system c) (rc_id c) (ld_locks w))"
proof (cases "rc_pc c")
  case AtInsert
  have "\<not> run_holds (fst (do_insert E c w))" by (simp add: do_insert_def run_holds_def split: sum.split)
  with AtInsert assms(2) insert_moves [of E c w] show ?thesis by (simp add: run_step_def run_holds_def)
next
  case AtGate
  with assms(2) show ?thesis by (auto simp: run_step_def do_gate_def run_holds_def frame_simps split: option.splits)
next
  case AtWrite
  with assms(2) show ?thesis by (auto simp: run_step_def do_write_def run_holds_def frame_simps split: option.splits)
next
  case (Executing q)
  with assms(2) show ?thesis
    by (auto simp: run_step_def do_return_def run_holds_def frame_simps split_beta split: if_splits)
next
  case (AtUnlock res)
  with assms(2) have "c' = fst (do_unlock x res c w)" "w' = snd (do_unlock x res c w)"
    by (simp_all add: run_step_def)
  then show ?thesis using AtUnlock by (simp add: do_unlock_def run_holds_def given_back_def frame_simps)
qed (use assms in \<open>auto simp: run_step_def run_holds_def frame_simps\<close>)

lemma run_step_names:
  "rc_id (fst (run_step E x c w)) = rc_id c" "rc_system (fst (run_step E x c w)) = rc_system c"
  "rc_kind (fst (run_step E x c w)) = rc_kind c"
  by (auto simp: run_step_def do_insert_def do_lock_def do_gate_def do_write_def do_return_def do_unlock_def split_beta
      split: pc.split sum.split option.split)

interpretation updater_locks: lock_client "run_step E" rc_id rc_system run_holds "\<lambda>x. ReleaseLock \<in> si_failing x" ld_locks alive_hosts for E
proof
  fix x c w
  let ?r = "run_step E x c w"
  show "rc_id (fst ?r) = rc_id c" "rc_system (fst ?r) = rc_system c" by (simp_all add: run_step_names)
  obtain c' w' where r: "?r = (c', w')" by fastforce
  have h: "\<not> run_holds c" if "rc_pc c = AtLock" using that by (simp add: run_holds_def)
  show "alive_hosts (snd ?r) = alive_hosts w"
    using lock_moves [OF _ r] other_moves [OF _ r] r by (cases "rc_pc c = AtLock") auto
  show "ld_locks (snd ?r) = ld_locks w" if "\<not> run_holds c" "\<not> run_holds (fst ?r)"
    using that lock_moves [OF _ r] other_moves [OF _ r] r by (cases "rc_pc c = AtLock") auto
  show "(\<forall>l\<in>set (ld_locks w). al_system l \<noteq> rc_system c) \<and>
      (\<exists>t. ld_locks (snd ?r) = ld_locks w @ [\<lparr>al_system = rc_system c, al_run = rc_id c, al_at = t\<rparr>])"
    if "\<not> run_holds c" "run_holds (fst ?r)"
    using that lock_moves [OF _ r] other_moves [OF _ r] r by (cases "rc_pc c = AtLock") auto
  show "ld_locks (snd ?r) = ld_locks w" if "run_holds c" "run_holds (fst ?r)"
    using that h lock_moves [OF _ r] other_moves [OF _ r] r by (cases "rc_pc c = AtLock") auto
  show "ld_locks (snd ?r) = (if ReleaseLock \<in> si_failing x then ld_locks w
      else delete_where (\<lambda>l. al_system l = rc_system c \<and> al_run l = rc_id c) (ld_locks w))"
    if "run_holds c" "\<not> run_holds (fst ?r)"
    using that h lock_moves [OF _ r] other_moves [OF _ r] r by (cases "rc_pc c = AtLock") (auto simp: given_back_def)
qed

section \<open>The runner of the exporters is a client\<close>

fun export_pc_holds :: "export_pc \<Rightarrow> bool" where
  "export_pc_holds XInsert = False"
| "export_pc_holds XTrim = False"
| "export_pc_holds XLock = False"
| "export_pc_holds XWrite = True"
| "export_pc_holds XExecuting = True"
| "export_pc_holds (XUnlock res) = True"
| "export_pc_holds (XFinished res) = False"

definition export_holds :: "export_call \<Rightarrow> bool" where "export_holds c = export_pc_holds (xc_pc c)"

lemma export_finish_frame [frame_simps]:
  "ld_locks (export_finish x c now ex out w) = ld_locks w"
  "alive_hosts (export_finish x c now ex out w) = alive_hosts w"
  "ud_runs (export_finish x c now ex out w) = ud_runs w"
  "xd_rows (export_finish x c now ex out w) = xd_rows w"
  by (auto simp: export_finish_def finish_exporter_run_def or_ignore_def alive_hosts_def)

lemma export_trim_frame [frame_simps]:
  "ld_locks (trim_export_history E sid w) = ld_locks w"
  "alive_hosts (trim_export_history E sid w) = alive_hosts w"
  "ud_runs (trim_export_history E sid w) = ud_runs w"
  by (auto simp: trim_export_history_def trim_exporter_runs_def or_ignore_def alive_hosts_def Let_def)

lemma export_log_frame [frame_simps]:
  "ld_locks (export_log_start E c w) = ld_locks w"
  "alive_hosts (export_log_start E c w) = alive_hosts w"
  "ud_runs (export_log_start E c w) = ud_runs w"
  "ld_locks (export_log_complete c now ok d w) = ld_locks w"
  "alive_hosts (export_log_complete c now ok d w) = alive_hosts w"
  "ud_runs (export_log_complete c now ok d w) = ud_runs w"
  "xd_rows (export_log_complete c now ok d w) = xd_rows w"
  "xd_runs (export_log_complete c now ok d w) = xd_runs w"
  "xd_runs (export_log_start E c w) = xd_runs w"
  by (simp_all add: export_log_start_def export_log_complete_def frame_simps) (simp_all add: fleet_log_def)

lemma observed_frame [frame_simps]:
  "ld_locks (keep_observed x c w) = ld_locks w"
  "alive_hosts (keep_observed x c w) = alive_hosts w"
  "ud_runs (keep_observed x c w) = ud_runs w"
  "xd_runs (keep_observed x c w) = xd_runs w"
  by (auto simp: keep_observed_def mark_removed_def upsert_system_exporter_def or_ignore_def alive_hosts_def Let_def)

lemma export_insert_moves:
  "ld_locks (snd (export_insert E c w)) = ld_locks w \<and> alive_hosts (snd (export_insert E c w)) = alive_hosts w"
  by (auto simp: export_insert_def insert_exporter_run_def alive_hosts_def split: sum.split if_splits)

lemma export_lock_moves:
  fixes w :: "'a site_db_scheme"
  assumes "xc_pc c = XLock" "export_step E x c w = (c', w')"
  shows "alive_hosts w' = alive_hosts w \<and>
    (\<not> export_holds c' \<and> ld_locks w' = ld_locks w \<or>
     export_holds c' \<and> (\<forall>l\<in>set (ld_locks w). al_system l \<noteq> xc_system c) \<and>
       ld_locks w' = ld_locks w @ [\<lparr>al_system = xc_system c, al_run = xc_id c, al_at = xc_start c\<rparr>])"
proof (cases "case si_lock x of Some m \<Rightarrow> Inl UpSql | None \<Rightarrow> acquire_lock (xc_system c) (xc_id c) (xc_start c) w")
  case (Inl e)
  with assms show ?thesis
    by (auto simp: export_step_def export_lock_def Let_def export_holds_def frame_simps split: if_splits)
next
  case (Inr v)
  then have "acquire_lock (xc_system c) (xc_id c) (xc_start c) w = Inr v" by (simp split: option.splits)
  note v = acquired [OF this]
  then have "alive_hosts v = alive_hosts w" by (simp add: alive_hosts_def)
  with Inr v assms show ?thesis by (auto simp: export_step_def export_lock_def export_holds_def frame_simps)
qed

lemma export_other_moves:
  fixes w :: "'a site_db_scheme"
  assumes "xc_pc c \<noteq> XLock" "export_step E x c w = (c', w')"
  shows "alive_hosts w' = alive_hosts w \<and>
    (export_holds c' = export_holds c \<and> ld_locks w' = ld_locks w \<or>
     export_holds c \<and> \<not> export_holds c' \<and>
       ld_locks w' = given_back x (xc_system c) (xc_id c) (ld_locks w))"
proof (cases "xc_pc c")
  case XInsert
  have "\<not> export_holds (fst (export_insert E c w))" by (simp add: export_insert_def export_holds_def split: sum.split)
  with XInsert assms(2) export_insert_moves [of E c w] show ?thesis by (simp add: export_step_def export_holds_def)
next
  case XWrite
  with assms(2) show ?thesis
    by (auto simp: export_step_def export_write_def export_holds_def frame_simps split: option.splits)
next
  case XExecuting
  with assms(2) show ?thesis
    by (auto simp: export_step_def export_return_def export_holds_def frame_simps Let_def)
next
  case (XUnlock res)
  with assms(2) have "c' = fst (export_unlock x res c w)" "w' = snd (export_unlock x res c w)"
    by (simp_all add: export_step_def)
  then show ?thesis using XUnlock by (simp add: export_unlock_def export_holds_def given_back_def frame_simps)
qed (use assms in \<open>auto simp: export_step_def export_holds_def frame_simps\<close>)

lemma export_step_names:
  "xc_id (fst (export_step E x c w)) = xc_id c" "xc_system (fst (export_step E x c w)) = xc_system c"
  "xc_kind (fst (export_step E x c w)) = xc_kind c"
  by (auto simp: export_step_def export_insert_def export_lock_def export_write_def export_return_def export_unlock_def
      Let_def split: export_pc.split sum.split option.split)

interpretation exporter_locks: lock_client "export_step E" xc_id xc_system export_holds "\<lambda>x. ReleaseLock \<in> si_failing x" ld_locks alive_hosts for E
proof
  fix x c w
  let ?r = "export_step E x c w"
  show "xc_id (fst ?r) = xc_id c" "xc_system (fst ?r) = xc_system c" by (simp_all add: export_step_names)
  obtain c' w' where r: "?r = (c', w')" by fastforce
  have h: "\<not> export_holds c" if "xc_pc c = XLock" using that by (simp add: export_holds_def)
  show "alive_hosts (snd ?r) = alive_hosts w"
    using export_lock_moves [OF _ r] export_other_moves [OF _ r] r by (cases "xc_pc c = XLock") auto
  show "ld_locks (snd ?r) = ld_locks w" if "\<not> export_holds c" "\<not> export_holds (fst ?r)"
    using that export_lock_moves [OF _ r] export_other_moves [OF _ r] r by (cases "xc_pc c = XLock") auto
  show "(\<forall>l\<in>set (ld_locks w). al_system l \<noteq> xc_system c) \<and>
      (\<exists>t. ld_locks (snd ?r) = ld_locks w @ [\<lparr>al_system = xc_system c, al_run = xc_id c, al_at = t\<rparr>])"
    if "\<not> export_holds c" "export_holds (fst ?r)"
    using that export_lock_moves [OF _ r] export_other_moves [OF _ r] r by (cases "xc_pc c = XLock") auto
  show "ld_locks (snd ?r) = ld_locks w" if "export_holds c" "export_holds (fst ?r)"
    using that h export_lock_moves [OF _ r] export_other_moves [OF _ r] r by (cases "xc_pc c = XLock") auto
  show "ld_locks (snd ?r) = (if ReleaseLock \<in> si_failing x then ld_locks w
      else delete_where (\<lambda>l. al_system l = xc_system c \<and> al_run l = xc_id c) (ld_locks w))"
    if "export_holds c" "\<not> export_holds (fst ?r)"
    using that h export_lock_moves [OF _ r] export_other_moves [OF _ r] r by (cases "xc_pc c = XLock") (auto simp: given_back_def)
qed

section \<open>Both runners together\<close>

datatype fleet_call = UpdaterCall run_call | ExporterCall export_call

fun call_id :: "fleet_call \<Rightarrow> string" where
  "call_id (UpdaterCall c) = rc_id c"
| "call_id (ExporterCall c) = xc_id c"

fun call_system :: "fleet_call \<Rightarrow> string" where
  "call_system (UpdaterCall c) = rc_system c"
| "call_system (ExporterCall c) = xc_system c"

text \<open>It holds the lock of its system, or did until the system was deleted.\<close>

fun call_holds :: "fleet_call \<Rightarrow> bool" where
  "call_holds (UpdaterCall c) = run_holds c"
| "call_holds (ExporterCall c) = export_holds c"

fun call_step :: "run_env \<Rightarrow> export_env \<Rightarrow> step_in \<Rightarrow> fleet_call \<Rightarrow> 'a site_db_scheme
    \<Rightarrow> fleet_call \<times> 'a site_db_scheme" where
  "call_step E X x (UpdaterCall c) w = (let (c', w') = run_step E x c w in (UpdaterCall c', w'))"
| "call_step E X x (ExporterCall c) w = (let (c', w') = export_step X x c w in (ExporterCall c', w'))"

interpretation fleet_locks: lock_client "call_step E X" call_id call_system call_holds "\<lambda>x. ReleaseLock \<in> si_failing x" ld_locks alive_hosts for E X
proof
  fix x c w
  show "call_id (fst (call_step E X x c w)) = call_id c" "call_system (fst (call_step E X x c w)) = call_system c"
    by (cases c; simp add: split_beta updater_locks.keeps_cid updater_locks.keeps_csys
        exporter_locks.keeps_cid exporter_locks.keeps_csys)+
  show "alive_hosts (snd (call_step E X x c w)) = alive_hosts w"
    by (cases c) (simp_all add: split_beta updater_locks.keeps_alive exporter_locks.keeps_alive)
  show "ld_locks (snd (call_step E X x c w)) = ld_locks w" if "\<not> call_holds c" "\<not> call_holds (fst (call_step E X x c w))"
    using that by (cases c) (simp_all add: split_beta updater_locks.no_lock exporter_locks.no_lock)
  show "(\<forall>l\<in>set (ld_locks w). al_system l \<noteq> call_system c) \<and>
      (\<exists>t. ld_locks (snd (call_step E X x c w)) = ld_locks w @ [\<lparr>al_system = call_system c, al_run = call_id c, al_at = t\<rparr>])"
    if "\<not> call_holds c" "call_holds (fst (call_step E X x c w))"
    using that updater_locks.takes_free_lock exporter_locks.takes_free_lock by (cases c) (simp_all add: split_beta)
  show "ld_locks (snd (call_step E X x c w)) = ld_locks w" if "call_holds c" "call_holds (fst (call_step E X x c w))"
    using that by (cases c) (simp_all add: split_beta updater_locks.keeps_lock exporter_locks.keeps_lock)
  show "ld_locks (snd (call_step E X x c w)) = (if ReleaseLock \<in> si_failing x then ld_locks w
      else delete_where (\<lambda>l. al_system l = call_system c \<and> al_run l = call_id c) (ld_locks w))"
    if "call_holds c" "\<not> call_holds (fst (call_step E X x c w))"
    using that by (cases c) (simp_all add: split_beta updater_locks.gives_lock_back exporter_locks.gives_lock_back)
qed

end
