(* ===== verification/Fleet.thy ===== *)
theory Fleet
  imports Locker
begin

text \<open>
  Every run of the server: the calls of both runners interleaved step by step, with the other
  requests between them, from the start-up that closes what a previous process left open
  (\<open>cmd/server/main.go\<close>). The invariants of the reachable states give mutual exclusion on a
  system, and say which locks and which runs that still say running an idle server can have: those
  of statements that failed, and those of one branch that forgets its row.
\<close>

section \<open>States and steps\<close>

record fleet =
  fl_calls :: "fleet_call list"   \<comment> \<open>all the calls since the start, ended ones included\<close>
  fl_db :: site_db
  fl_left :: "string set"         \<comment> \<open>the calls that ended although their \<open>ReleaseLock\<close> failed\<close>
  fl_unclosed :: "string set"     \<comment> \<open>those that went on although their \<open>FinishRun\<close> failed\<close>

text \<open>The start of the process: no call survives, open runs are closed and the locks cleared.\<close>

definition boot :: "int \<Rightarrow> site_db \<Rightarrow> fleet" where
  "boot now w = \<lparr>fl_calls = [], fl_db = snd (reconcile_exporter_runs now (snd (reconcile_orphaned now w))),
     fl_left = {}, fl_unclosed = {}\<rparr>"

text \<open>Deleting a system, with the triggers on the table of hosts.\<close>

definition remove_system :: "string \<Rightarrow> 'a site_db_scheme \<Rightarrow> (host_error, 'a site_db_scheme) result" where
  "remove_system sid w = rbind (delete_host sid w) (\<lambda>w'. Inr (cleanup_exporters sid (cleanup_updaters sid w')))"

text \<open>
  What another request may do between two steps: anything but touch the locks and the runs, or
  create a system under an id that a call already has.
\<close>

definition foreign_edit :: "fleet \<Rightarrow> site_db \<Rightarrow> bool" where
  "foreign_edit f w' =
     (ld_locks w' = ld_locks (fl_db f) \<and> ud_runs w' = ud_runs (fl_db f) \<and> xd_runs w' = xd_runs (fl_db f)
      \<and> (\<forall>c\<in>set (fl_calls f). call_system c \<in> alive_hosts w' \<longrightarrow> call_system c \<in> alive_hosts (fl_db f)))"

definition fresh_id :: "string \<Rightarrow> fleet \<Rightarrow> bool" where
  "fresh_id rid f = (rid \<notin> call_id ` set (fl_calls f))"

text \<open>Where a call of the updaters leaves its row open, and the one way to end with it open.\<close>

fun open_pc :: "pc \<Rightarrow> bool" where
  "open_pc AtInsert = False"
| "open_pc AtTrim = True"
| "open_pc AtLock = True"
| "open_pc AtGate = True"
| "open_pc AtWrite = True"
| "open_pc (Executing q) = True"
| "open_pc (AtUnlock res) = False"
| "open_pc (Finished res) = False"

definition lock_failed :: "run_call \<Rightarrow> bool" where
  "lock_failed c =
     (case rc_pc c of
        Finished (Some (RunStore e), res) \<Rightarrow> rc_kind c \<noteq> kind_inspect \<and> e \<noteq> UpConflict \<and> res = failed_result ''conflict''
      | _ \<Rightarrow> False)"

lemma lock_failed_iff:
  "lock_failed c \<longleftrightarrow> rc_kind c \<noteq> kind_inspect \<and>
     (\<exists>e. e \<noteq> UpConflict \<and> rc_pc c = Finished (Some (RunStore e), failed_result ''conflict''))"
  by (auto simp: lock_failed_def split: pc.splits prod.splits option.splits run_error.splits)

definition row_open :: "run_call \<Rightarrow> bool" where
  "row_open c = (open_pc (rc_pc c) \<or> lock_failed c)"

fun export_open_pc :: "export_pc \<Rightarrow> bool" where
  "export_open_pc XInsert = False"
| "export_open_pc XTrim = True"
| "export_open_pc XLock = True"
| "export_open_pc XWrite = True"
| "export_open_pc XExecuting = True"
| "export_open_pc (XUnlock res) = False"
| "export_open_pc (XFinished res) = False"

fun call_open :: "fleet_call \<Rightarrow> bool" where
  "call_open (UpdaterCall c) = row_open c"
| "call_open (ExporterCall c) = export_open_pc (xc_pc c)"

text \<open>What a step adds to the record of failed statements.\<close>

definition unclosed :: "step_in \<Rightarrow> fleet_call \<Rightarrow> fleet_call \<Rightarrow> string set" where
  "unclosed x c c' = (if FinishRun \<in> si_failing x \<and> call_open c \<and> \<not> call_open c' then {call_id c} else {})"

definition kept :: "step_in \<Rightarrow> fleet_call \<Rightarrow> fleet_call \<Rightarrow> string set" where
  "kept x c c' = (if ReleaseLock \<in> si_failing x \<and> call_holds c \<and> \<not> call_holds c' then {call_id c} else {})"

inductive fleet_reach :: "run_env \<Rightarrow> export_env \<Rightarrow> fleet \<Rightarrow> bool" for E X where
  start: "fleet_reach E X (boot now w)"
| inspect: "fleet_reach E X f \<Longrightarrow> begin_inspect E actor sid rid now (fl_db f) = Inr c \<Longrightarrow> fresh_id rid f \<Longrightarrow>
    fleet_reach E X (f\<lparr>fl_calls := fl_calls f @ [UpdaterCall c]\<rparr>)"
| update: "fleet_reach E X f \<Longrightarrow> begin_update E actor sid uid kind pkgs rid now (fl_db f) = Inr c \<Longrightarrow> fresh_id rid f \<Longrightarrow>
    fleet_reach E X (f\<lparr>fl_calls := fl_calls f @ [UpdaterCall c]\<rparr>)"
| export: "fleet_reach E X f \<Longrightarrow> begin_export X actor sid xid kind rid now (fl_db f) = Inr d \<Longrightarrow> fresh_id rid f \<Longrightarrow>
    fleet_reach E X (f\<lparr>fl_calls := fl_calls f @ [ExporterCall d]\<rparr>)"
| progress: "fleet_reach E X f \<Longrightarrow> i < length (fl_calls f) \<Longrightarrow> call_step E X x (fl_calls f ! i) (fl_db f) = (c', w') \<Longrightarrow>
    fleet_reach E X \<lparr>fl_calls = (fl_calls f)[i := c'], fl_db = w', fl_left = fl_left f \<union> kept x (fl_calls f ! i) c',
      fl_unclosed = fl_unclosed f \<union> unclosed x (fl_calls f ! i) c'\<rparr>"
| removal: "fleet_reach E X f \<Longrightarrow> remove_system sid (fl_db f) = Inr w' \<Longrightarrow> fleet_reach E X (f\<lparr>fl_db := w'\<rparr>)"
| other: "fleet_reach E X f \<Longrightarrow> foreign_edit f w' \<Longrightarrow> fleet_reach E X (f\<lparr>fl_db := w'\<rparr>)"

section \<open>The locks\<close>

abbreviation fleet_lock_sound :: "fleet \<Rightarrow> bool" where
  "fleet_lock_sound f \<equiv> lock_sound call_id call_system call_holds (fl_left f) (alive_hosts (fl_db f)) (fl_calls f) (ld_locks (fl_db f))"

lemma begin_inspect_call:
  "begin_inspect E actor sid rid now w = Inr c \<Longrightarrow> rc_id c = rid \<and> rc_pc c = AtInsert"
  by (auto simp: begin_inspect_def Let_def split: if_splits)

lemma begin_update_call:
  "begin_update E actor sid uid kind pkgs rid now w = Inr c \<Longrightarrow> rc_id c = rid \<and> rc_pc c = AtInsert"
  by (auto simp: begin_update_def Let_def ids_required_def split: if_splits sum.splits)

lemma begin_export_call:
  "begin_export X actor sid xid kind rid now w = Inr d \<Longrightarrow> xc_id d = rid \<and> xc_pc d = XInsert"
  by (auto simp: begin_export_def split: if_splits sum.splits)

lemma removed_system:
  fixes w :: site_db
  assumes "remove_system sid w = Inr w'"
  shows "alive_hosts w' = alive_hosts w - {sid}"
    and "ld_locks w' = delete_where (\<lambda>l. al_system l = sid) (ld_locks w)"
    and "ud_runs w' = delete_where (\<lambda>r. ur_system r = sid) (ud_runs w)"
    and "xd_runs w' = delete_where (\<lambda>r. er_system r = sid) (xd_runs w)"
  using assms
  by (auto simp: remove_system_def delete_host_def cleanup_exporters_def cleanup_updaters_def alive_hosts_def
      split: if_splits)

lemma reachable_locks: "fleet_reach E X f \<Longrightarrow> fleet_lock_sound f"
proof (induction rule: fleet_reach.induct)
  case (start now w)
  show ?case by (simp add: boot_def lock_sound_def reconcile_orphaned_def reconcile_exporter_runs_def)
next
  case (inspect f actor sid rid now c)
  then show ?case using begin_inspect_call [OF inspect.hyps(2)]
    by (simp add: fresh_id_def run_holds_def lock_sound_start)
next
  case (update f actor sid uid kind pkgs rid now c)
  then show ?case using begin_update_call [OF update.hyps(2)]
    by (simp add: fresh_id_def run_holds_def lock_sound_start)
next
  case (export f actor sid xid kind rid now d)
  then show ?case using begin_export_call [OF export.hyps(2)]
    by (simp add: fresh_id_def export_holds_def lock_sound_start)
next
  case (progress f i x c' w')
  from fleet_locks.step_sound [OF progress.IH progress.hyps(2,3)] show ?case
    by (simp add: fleet_locks.leaves_def kept_def)
next
  case (removal f sid w')
  from lock_sound_delete [OF removal.IH, of sid] show ?case by (simp add: removed_system [OF removal.hyps(2)])
next
  case (other f w')
  from other.hyps(2) lock_sound_alive [OF other.IH, of "alive_hosts w'"] show ?case by (simp add: foreign_edit_def)
qed

section \<open>The open runs\<close>

fun owns_run :: "fleet_call \<Rightarrow> updater_run \<Rightarrow> bool" where
  "owns_run (UpdaterCall c) r = (rc_id c = ur_id r \<and> row_open c)"
| "owns_run (ExporterCall c) r = False"

fun owns_export :: "fleet_call \<Rightarrow> exporter_run \<Rightarrow> bool" where
  "owns_export (UpdaterCall c) r = False"
| "owns_export (ExporterCall c) r = (xc_id c = er_id r \<and> export_open_pc (xc_pc c))"

definition rows_sound :: "fleet \<Rightarrow> bool" where
  "rows_sound f =
     ((\<forall>r\<in>set (ud_runs (fl_db f)). ur_finished r = None \<longrightarrow> ur_id r \<in> fl_unclosed f \<or> (\<exists>c\<in>set (fl_calls f). owns_run c r)) \<and>
      (\<forall>r\<in>set (xd_runs (fl_db f)). er_finished r = None \<longrightarrow> er_id r \<in> fl_unclosed f \<or> (\<exists>c\<in>set (fl_calls f). owns_export c r)))"

lemma closes_rows:
  "r \<in> set (ud_runs (runner_finish x c now ex aff out w)) \<Longrightarrow> ur_finished r = None \<Longrightarrow>
   r \<in> set (ud_runs w) \<and> (ur_id r = rc_id c \<longrightarrow> FinishRun \<in> si_failing x)"
  by (auto split: if_splits)

lemma settled_rows:
  "ud_runs (snd (settle_inspect x c w)) = ud_runs (runner_finish x c (si_now x) (an_exit (snd (si_answer x))) 0
     (combine_output (an_stdout (snd (si_answer x))) (an_stderr (snd (si_answer x)))) w)"
  "ud_runs (snd (settle_update E x q c w)) = ud_runs (runner_finish x c (si_now x) (an_exit (snd (si_answer x)))
     (parse_affected_count (an_stdout (snd (si_answer x))))
     (combine_output (an_stdout (snd (si_answer x))) (an_stderr (snd (si_answer x)))) w)"
  by (simp_all add: settle_inspect_def settle_update_def Let_def split_beta frame_simps split: option.split)

lemma step_rows:
  fixes w :: "'a fleet_db_scheme"
  assumes "run_step E x c w = (c', w')" "r \<in> set (ud_runs w')" "ur_finished r = None"
  shows "ur_id r = rc_id c \<and> row_open c' \<or>
    r \<in> set (ud_runs w) \<and> (ur_id r = rc_id c \<longrightarrow> row_open c \<longrightarrow> row_open c' \<or> FinishRun \<in> si_failing x)"
proof (cases "rc_pc c")
  case AtInsert
  with assms show ?thesis
    by (auto simp: run_step_def do_insert_def insert_run_def call_row_def row_open_def lock_failed_def
        split: sum.splits if_splits)
next
  case AtTrim
  with assms(1) have w': "c' = c\<lparr>rc_pc := AtLock\<rparr>" "w' = trim_history E (rc_system c) w" by (simp_all add: run_step_def)
  with assms(2) runs_trim [of E "rc_system c" w] have "r \<in> set (ud_runs w)" by blast
  with w' show ?thesis by (simp add: row_open_def)
next
  case AtLock
  show ?thesis
  proof (cases "case si_lock x of Some m \<Rightarrow> Inl UpSql | None \<Rightarrow> acquire_lock (rc_system c) (rc_id c) (rc_start c) w")
    case (Inl e)
    show ?thesis
    proof (cases "e = UpConflict \<or> rc_kind c = kind_inspect")
      case True
      with Inl AtLock assms(1) obtain out where "w' = runner_finish x c (rc_start c) (-1) 0 out w"
        by (auto simp: run_step_def do_lock_def split: if_splits)
      with assms(2,3) closes_rows [of r x c "rc_start c" "-1" 0 out w] show ?thesis by blast
    next
      case False
      with Inl AtLock assms show ?thesis by (auto simp: run_step_def do_lock_def row_open_def lock_failed_def)
    qed
  next
    case (Inr v)
    then have "acquire_lock (rc_system c) (rc_id c) (rc_start c) w = Inr v" by (simp split: option.splits)
    then have "ud_runs v = ud_runs w" by (auto simp: acquire_lock_def split: if_splits)
    with Inr AtLock assms show ?thesis
      by (cases "rc_kind c = kind_inspect") (auto simp: run_step_def do_lock_def row_open_def frame_simps)
  qed
next
  case AtGate
  show ?thesis
  proof (cases "si_gate x")
    case (Some m)
    with AtGate assms(1) have "ud_runs w' = ud_runs (runner_finish x c (si_now x) (-1) 0 (''cancelled in queue: '' @ m) w)"
      by (auto simp: run_step_def do_gate_def frame_simps)
    from closes_rows [OF assms(2) [unfolded this] assms(3)] show ?thesis by blast
  qed (use AtGate assms in \<open>auto simp: run_step_def do_gate_def row_open_def\<close>)
next
  case AtWrite
  show ?thesis
  proof (cases "si_write x")
    case (Some m)
    with AtWrite assms(1) have "ud_runs w' = ud_runs (runner_finish x c (si_now x) (-1) 0 (''write playbook: '' @ m) w)"
      by (auto simp: run_step_def do_write_def frame_simps)
    from closes_rows [OF assms(2) [unfolded this] assms(3)] show ?thesis by blast
  qed (use AtWrite assms in \<open>auto simp: run_step_def do_write_def row_open_def\<close>)
next
  case (Executing q)
  show ?thesis
  proof (cases "rc_kind c = kind_inspect")
    case True
    then have "w' = snd (settle_inspect x c w)" using Executing assms(1) by (auto simp: run_step_def do_return_def split_beta)
    from closes_rows [OF assms(2) [unfolded this settled_rows(1)] assms(3)] show ?thesis by blast
  next
    case False
    then have "w' = snd (settle_update E x q c w)" using Executing assms(1) by (auto simp: run_step_def do_return_def split_beta)
    from closes_rows [OF assms(2) [unfolded this settled_rows(2)] assms(3)] show ?thesis by blast
  qed
next
  case (AtUnlock res)
  then have w': "w' = broadcast ''systems.changed'' (broadcast ''updater.run.completed'' (try_release x (rc_system c) (rc_id c) w))"
    using assms(1) by (simp add: run_step_def do_unlock_def)
  have "ud_runs w' = ud_runs w" unfolding w' frame_simps by (simp add: try_release_def release_lock_def)
  with AtUnlock assms(2) show ?thesis by (simp add: row_open_def lock_failed_def)
next
  case (Finished res)
  with assms show ?thesis by (auto simp: run_step_def)
qed

lemma export_closes:
  "r \<in> set (xd_runs (export_finish x c now ex out w)) \<Longrightarrow> er_finished r = None \<Longrightarrow>
   r \<in> set (xd_runs w) \<and> (er_id r = xc_id c \<longrightarrow> FinishRun \<in> si_failing x)"
  by (auto simp: export_finish_def finish_exporter_run_def or_ignore_def split: if_splits)

lemma export_trims: "set (xd_runs (trim_export_history E sid w)) \<subseteq> set (xd_runs w)"
  by (auto simp: trim_export_history_def trim_exporter_runs_def or_ignore_def Let_def)

lemma note_exports [frame_simps]:
  "xd_runs (broadcast m w) = xd_runs w" "xd_runs (fleet_log e w) = xd_runs w"
  for w :: "'a site_db_scheme"
  by (simp_all add: broadcast_def fleet_log_def)

lemma export_step_rows:
  fixes w :: "'a site_db_scheme"
  assumes "export_step E x c w = (c', w')" "r \<in> set (xd_runs w')" "er_finished r = None"
  shows "er_id r = xc_id c \<and> export_open_pc (xc_pc c') \<or>
    r \<in> set (xd_runs w) \<and>
      (er_id r = xc_id c \<longrightarrow> export_open_pc (xc_pc c) \<longrightarrow> export_open_pc (xc_pc c') \<or> FinishRun \<in> si_failing x)"
proof (cases "xc_pc c")
  case XInsert
  with assms show ?thesis
    by (auto simp: export_step_def export_insert_def insert_exporter_run_def export_row_def split: sum.splits if_splits)
next
  case XTrim
  with assms(1) have w': "c' = c\<lparr>xc_pc := XLock\<rparr>" "w' = trim_export_history E (xc_system c) w" by (simp_all add: export_step_def)
  with assms(2) export_trims [of E "xc_system c" w] have "r \<in> set (xd_runs w)" by blast
  with w' show ?thesis by simp
next
  case XLock
  show ?thesis
  proof (cases "case si_lock x of Some m \<Rightarrow> Inl UpSql | None \<Rightarrow> acquire_lock (xc_system c) (xc_id c) (xc_start c) w")
    case (Inl e)
    with XLock assms(1) obtain out where "w' = export_finish x c (xc_start c) (-1) out w"
      by (auto simp: export_step_def export_lock_def Let_def split: if_splits)
    from export_closes [OF assms(2) [unfolded this] assms(3)] show ?thesis by blast
  next
    case (Inr v)
    then have "acquire_lock (xc_system c) (xc_id c) (xc_start c) w = Inr v" by (simp split: option.splits)
    then have "xd_runs v = xd_runs w" by (auto simp: acquire_lock_def split: if_splits)
    with Inr XLock assms show ?thesis by (auto simp: export_step_def export_lock_def frame_simps)
  qed
next
  case XWrite
  show ?thesis
  proof (cases "si_write x")
    case (Some m)
    with XWrite assms(1) have "xd_runs w' = xd_runs (export_finish x c (si_now x) (-1) (''write playbook: '' @ m) w)"
      by (auto simp: export_step_def export_write_def frame_simps)
    from export_closes [OF assms(2) [unfolded this] assms(3)] show ?thesis by blast
  qed (use XWrite assms in \<open>auto simp: export_step_def export_write_def\<close>)
next
  case XExecuting
  then obtain ex out where "xd_runs w' = xd_runs (export_finish x c (si_now x) ex out w)"
    using assms(1) by (auto simp: export_step_def export_return_def Let_def frame_simps)
  from export_closes [OF assms(2) [unfolded this] assms(3)] show ?thesis by blast
next
  case (XUnlock res)
  then have w': "w' = broadcast ''systems.changed'' (broadcast ''exporter.run.completed'' (try_release x (xc_system c) (xc_id c) w))"
    using assms(1) by (simp add: export_step_def export_unlock_def)
  have "xd_runs w' = xd_runs w" unfolding w' frame_simps by (simp add: try_release_def release_lock_def)
  with XUnlock assms(2) show ?thesis by simp
next
  case (XFinished res)
  with assms show ?thesis by (auto simp: export_step_def)
qed

section \<open>A runner leaves the rows of the other alone\<close>

lemma export_step_updater_rows: "ud_runs (snd (export_step E x c w)) = ud_runs w"
  for w :: "'a site_db_scheme"
proof (cases "xc_pc c")
  case XInsert
  then show ?thesis by (auto simp: export_step_def export_insert_def insert_exporter_run_def split: sum.split)
next
  case XLock
  then show ?thesis
    by (auto simp: export_step_def export_lock_def Let_def frame_simps acquire_lock_def split: sum.split option.split)
next
  case (XUnlock res)
  then have "snd (export_step E x c w) =
      broadcast ''systems.changed'' (broadcast ''exporter.run.completed'' (try_release x (xc_system c) (xc_id c) w))"
    by (simp add: export_step_def export_unlock_def)
  then show ?thesis by (simp only: frame_simps)
qed (simp_all add: export_step_def export_write_def export_return_def Let_def frame_simps split: option.split)

lemma runner_exports [frame_simps]:
  "xd_runs (runner_finish x c now ex aff out w) = xd_runs w"
  "xd_runs (trim_history E sid w) = xd_runs w"
  "xd_runs (log_complete c now ok d w) = xd_runs w"
  "xd_runs (log_start E c w) = xd_runs w"
  "xd_runs (keep_packages E c out w) = xd_runs w"
  "xd_runs (keep_holds x c now ps w) = xd_runs w"
  "xd_runs (try_release x sid rid w) = xd_runs w"
  for w :: "'a site_db_scheme"
  by (auto simp: runner_finish_def finish_run_def trim_history_def trim_runs_def log_complete_def log_start_def
      keep_packages_def set_pending_packages_def ids_required_def keep_holds_def replace_holds_def try_release_def release_lock_def
      or_ignore_def Let_def frame_simps)

lemma host_exports:
  "update_host g i w = Inr w' \<Longrightarrow> xd_runs w' = xd_runs w"
  for w :: "'a site_db_scheme"
  by (auto simp: update_host_def split: if_splits)

lemma reboot_exports [frame_simps]:
  "xd_runs (reconcile_reboot sid out now w) = xd_runs w"
  "xd_runs (or_ignore w (set_platform_info sid a b v w)) = xd_runs w"
  for w :: "'a site_db_scheme"
  by (auto simp: reconcile_reboot_def reboot_defs or_ignore_def dest: host_exports split: sum.splits)

lemma upserts_exports:
  "xd_runs (fold (\<lambda>u w. or_ignore w (upsert_availability sid u now w)) us w) = xd_runs w"
  "xd_runs (fold (remove_availability sid) us w) = xd_runs w"
  for w :: "'a site_db_scheme"
  by (induction us arbitrary: w)
    (auto simp: upsert_availability_def or_ignore_def ids_required_def remove_availability_def split: sum.splits if_splits)

lemma availability_exports [frame_simps]: "xd_runs (snd (reconcile_availability sid ds now w)) = xd_runs w"
  for w :: "'a site_db_scheme"
  by (simp add: reconcile_availability_def Let_def upserts_exports)

lemma run_step_exporter_rows: "xd_runs (snd (run_step E x c w)) = xd_runs w"
  for w :: "'a site_db_scheme"
proof (cases "rc_pc c")
  case AtInsert
  then show ?thesis by (auto simp: run_step_def do_insert_def insert_run_def split: sum.split)
next
  case AtLock
  then show ?thesis
    by (auto simp: run_step_def do_lock_def Let_def frame_simps acquire_lock_def split: sum.split option.split)
next
  case (Executing q)
  then show ?thesis
    by (simp add: run_step_def do_return_def settle_inspect_def settle_update_def Let_def split_beta frame_simps
        split: option.split)
next
  case (AtUnlock res)
  then show ?thesis by (simp add: run_step_def do_unlock_def frame_simps)
qed (simp_all add: run_step_def do_gate_def do_write_def Let_def frame_simps split: option.split)

section \<open>Every open row has its call\<close>

lemma owner_after_step:
  assumes "distinct (map call_id cs)" "i < length cs" "call_id c' = call_id (cs ! i)"
    and key: "\<And>d. own d \<Longrightarrow> call_id d = k"
    and before: "own c' \<or> (\<exists>d\<in>set cs. own d) \<and> (own (cs ! i) \<longrightarrow> own c')"
  shows "\<exists>d\<in>set (cs[i := c']). own d"
proof -
  have cs': "set (cs[i := c']) = insert c' {d \<in> set cs. call_id d \<noteq> call_id (cs ! i)}"
    by (rule set_replace [OF assms(1-3)])
  show ?thesis
  proof (cases "own c'")
    case False
    with before obtain d where d: "d \<in> set cs" "own d" "\<not> own (cs ! i)" by blast
    have "call_id d \<noteq> call_id (cs ! i)"
      using same_element [OF assms(1) d(1) nth_mem [OF assms(2)]] d(2,3) by auto
    with d show ?thesis unfolding cs' by blast
  qed (simp add: cs')
qed

lemma run_owner_step:
  assumes "call_step E X x c w = (c', w')" "r \<in> set (ud_runs w')" "ur_finished r = None"
  shows "owns_run c' r \<or> r \<in> set (ud_runs w) \<and> (owns_run c r \<longrightarrow> owns_run c' r \<or> ur_id r \<in> unclosed x c c')"
proof (cases c)
  case (UpdaterCall d)
  then obtain d' where d': "c' = UpdaterCall d'" "run_step E x d w = (d', w')" using assms(1) by (auto split: prod.splits)
  with run_step_names(1) [of E x d w] have "rc_id d' = rc_id d" by simp
  moreover have "ur_id r \<in> unclosed x (UpdaterCall d) (UpdaterCall d') \<longleftrightarrow>
      FinishRun \<in> si_failing x \<and> row_open d \<and> \<not> row_open d' \<and> ur_id r = rc_id d" by (simp add: unclosed_def)
  ultimately show ?thesis using step_rows [OF d'(2) assms(2,3)] unfolding d'(1) UpdaterCall owns_run.simps by argo
next
  case (ExporterCall d)
  with assms(1) have "w' = snd (export_step X x d w)" by (auto simp: split_beta)
  with assms(2) export_step_updater_rows [of X x d w] ExporterCall show ?thesis by simp
qed

lemma export_owner_step:
  assumes "call_step E X x c w = (c', w')" "r \<in> set (xd_runs w')" "er_finished r = None"
  shows "owns_export c' r \<or> r \<in> set (xd_runs w) \<and> (owns_export c r \<longrightarrow> owns_export c' r \<or> er_id r \<in> unclosed x c c')"
proof (cases c)
  case (ExporterCall d)
  then obtain d' where d': "c' = ExporterCall d'" "export_step X x d w = (d', w')" using assms(1) by (auto split: prod.splits)
  with export_step_names(1) [of X x d w] have "xc_id d' = xc_id d" by simp
  moreover have "er_id r \<in> unclosed x (ExporterCall d) (ExporterCall d') \<longleftrightarrow>
      FinishRun \<in> si_failing x \<and> export_open_pc (xc_pc d) \<and> \<not> export_open_pc (xc_pc d') \<and> er_id r = xc_id d"
    by (simp add: unclosed_def)
  ultimately show ?thesis using export_step_rows [OF d'(2) assms(2,3)] unfolding d'(1) ExporterCall owns_export.simps by argo
next
  case (UpdaterCall d)
  with assms(1) have "w' = snd (run_step E x d w)" by (auto simp: split_beta)
  with assms(2) run_step_exporter_rows [of E x d w] UpdaterCall show ?thesis by simp
qed

lemma owns_run_key: "owns_run d r \<Longrightarrow> call_id d = ur_id r"
  by (cases d) simp_all

lemma owns_export_key: "owns_export d r \<Longrightarrow> call_id d = er_id r"
  by (cases d) simp_all

lemma rows_sound_step:
  assumes "rows_sound f" "distinct (map call_id (fl_calls f))" "i < length (fl_calls f)"
    "call_step E X x (fl_calls f ! i) (fl_db f) = (c', w')"
  shows "rows_sound \<lparr>fl_calls = (fl_calls f)[i := c'], fl_db = w', fl_left = ls,
    fl_unclosed = fl_unclosed f \<union> unclosed x (fl_calls f ! i) c'\<rparr>"
proof -
  let ?u = "fl_unclosed f \<union> unclosed x (fl_calls f ! i) c'"
  have id': "call_id c' = call_id (fl_calls f ! i)"
    using fleet_locks.keeps_cid [of E X x "fl_calls f ! i" "fl_db f"] assms(4) by simp
  have "\<exists>d\<in>set ((fl_calls f)[i := c']). owns_run d r"
    if "r \<in> set (ud_runs w')" "ur_finished r = None" "ur_id r \<notin> ?u" for r
  proof (rule owner_after_step [OF assms(2,3) id'])
    show "owns_run c' r \<or> (\<exists>d\<in>set (fl_calls f). owns_run d r) \<and> (owns_run (fl_calls f ! i) r \<longrightarrow> owns_run c' r)"
      using run_owner_step [OF assms(4) that(1,2)] that(2,3) assms(1) by (auto simp: rows_sound_def)
  qed (rule owns_run_key)
  moreover have "\<exists>d\<in>set ((fl_calls f)[i := c']). owns_export d r"
    if "r \<in> set (xd_runs w')" "er_finished r = None" "er_id r \<notin> ?u" for r
  proof (rule owner_after_step [OF assms(2,3) id'])
    show "owns_export c' r \<or> (\<exists>d\<in>set (fl_calls f). owns_export d r) \<and> (owns_export (fl_calls f ! i) r \<longrightarrow> owns_export c' r)"
      using export_owner_step [OF assms(4) that(1,2)] that(2,3) assms(1) by (auto simp: rows_sound_def)
  qed (rule owns_export_key)
  ultimately show ?thesis by (simp add: rows_sound_def) blast
qed

lemma rows_sound_start:
  "rows_sound f \<Longrightarrow> rows_sound (f\<lparr>fl_calls := fl_calls f @ [c]\<rparr>)"
  by (auto simp: rows_sound_def)

lemma reachable_rows: "fleet_reach E X f \<Longrightarrow> rows_sound f"
proof (induction rule: fleet_reach.induct)
  case (start now w)
  show ?case by (auto simp: boot_def rows_sound_def reconcile_orphaned_def reconcile_exporter_runs_def split: if_splits)
next
  case (progress f i x c' w')
  have "distinct (map call_id (fl_calls f))" using reachable_locks [OF progress.hyps(1)] by (simp add: lock_sound_def)
  from rows_sound_step [OF progress.IH this progress.hyps(2,3)] show ?case by simp
next
  case (removal f sid w')
  then show ?case by (auto simp: rows_sound_def removed_system [OF removal.hyps(2)])
next
  case (other f w')
  then show ?case by (simp add: rows_sound_def foreign_edit_def)
qed (simp_all add: rows_sound_start)

section \<open>Every call ends\<close>

fun pc_rank :: "pc \<Rightarrow> nat" where
  "pc_rank AtInsert = 7"
| "pc_rank AtTrim = 6"
| "pc_rank AtLock = 5"
| "pc_rank AtGate = 4"
| "pc_rank AtWrite = 3"
| "pc_rank (Executing q) = 2"
| "pc_rank (AtUnlock res) = 1"
| "pc_rank (Finished res) = 0"

fun export_rank :: "export_pc \<Rightarrow> nat" where
  "export_rank XInsert = 6"
| "export_rank XTrim = 5"
| "export_rank XLock = 4"
| "export_rank XWrite = 3"
| "export_rank XExecuting = 2"
| "export_rank (XUnlock res) = 1"
| "export_rank (XFinished res) = 0"

fun call_rank :: "fleet_call \<Rightarrow> nat" where
  "call_rank (UpdaterCall c) = pc_rank (rc_pc c)"
| "call_rank (ExporterCall c) = export_rank (xc_pc c)"

definition call_ended :: "fleet_call \<Rightarrow> bool" where
  "call_ended c = (call_rank c = 0)"

lemma run_step_rank: "pc_rank (rc_pc (fst (run_step E x c w))) \<le> pc_rank (rc_pc c) - 1"
  by (cases "rc_pc c") (auto simp: run_step_def do_insert_def do_lock_def do_gate_def do_write_def do_return_def
      do_unlock_def split_beta split: sum.split option.split)

lemma export_step_rank: "export_rank (xc_pc (fst (export_step E x c w))) \<le> export_rank (xc_pc c) - 1"
  by (cases "xc_pc c") (auto simp: export_step_def export_insert_def export_lock_def export_write_def export_return_def
      export_unlock_def Let_def split: sum.split option.split)

text \<open>Whatever a step is given, it lowers the rank of a call that has not ended.\<close>

lemma call_step_rank: "call_rank (fst (call_step E X x c w)) \<le> call_rank c - 1"
  by (cases c) (simp_all add: split_beta run_step_rank export_step_rank del: One_nat_def)

lemma ended_holds_nothing: "call_ended c \<Longrightarrow> \<not> call_holds c"
proof (cases c)
  case (UpdaterCall d)
  then show "call_ended c \<Longrightarrow> \<not> call_holds c" by (cases "rc_pc d") (simp_all add: call_ended_def run_holds_def)
next
  case (ExporterCall d)
  then show "call_ended c \<Longrightarrow> \<not> call_holds c" by (cases "xc_pc d") (simp_all add: call_ended_def export_holds_def)
qed

end
