(* ===== verification/UpdaterClaims.thy ===== *)
theory UpdaterClaims
  imports UpdaterProps
begin

text \<open>
  Properties of single runs: what an inspection leaves in the table of detected updaters and
  what a failed one destroys, what an apply is told to leave alone, what a check that never
  reached its host is counted as, and how the history is trimmed.
\<close>

section \<open>Concrete values for the witnesses\<close>

definition demo_def :: updater where
  "demo_def = builtin ''builtin.apt'' ''apt'' [] ''apt'' ''check'' ''apply''\<lparr>up_holds := True\<rparr>"

definition demo_env :: run_env where
  "demo_env = \<lparr>re_builtins = [demo_def], re_sha = (\<lambda>s. s),
     re_codec = \<lparr>encode_pkgs = (\<lambda>ps. if ps = [] then ''[]'' else ''[..]''), decode_pkgs = (\<lambda>_. Some []),
       decode_names = (\<lambda>_. None)\<rparr>, re_keep = 50\<rparr>"

definition demo_avail :: "bool \<Rightarrow> availability" where
  "demo_avail b = \<lparr>av_system = ''s'', av_updater = ''builtin.apt'', av_enabled = b, av_seen = Some 3, av_pending = ''[..]''\<rparr>"

definition demo_rule :: exclusion where
  "demo_rule = \<lparr>ex_id = ''e'', ex_scope = scope_global, ex_target = [], ex_updater = ''*'', ex_pattern = ''linux-image'',
     ex_reason = [], ex_at = 1, ex_by = ''root''\<rparr>"

definition demo_db :: fleet_db where
  "demo_db = \<lparr>hd_hosts = [fresh_host ''s'' 1 (''web'', ''web.lan'')], ld_locks = [], ud_defs = [],
     ud_avail = [demo_avail False], ud_runs = [], rd_exclusions = [demo_rule], rd_holds = [], fd_audit = [], fd_notes = []\<rparr>"

definition demo_call :: "string \<Rightarrow> string \<Rightarrow> pc \<Rightarrow> run_call" where
  "demo_call kind u p = \<lparr>rc_id = ''r'', rc_system = ''s'', rc_updater = u, rc_kind = kind, rc_packages = [],
     rc_body = ''play'', rc_holds = True, rc_actor = ''root'', rc_start = 10, rc_defs = 1, rc_pc = p\<rparr>"

definition demo_req :: ansible_request where
  "demo_req = \<lparr>rq_system = ''s'', rq_body = ''play'', rq_targeted = [], rq_excluded = [''linux-image''], rq_held = Some []\<rparr>"

text \<open>The answer of \<open>ansible.Runner.Run\<close> when no credentials resolve: no error, exit code 0, no output.\<close>

definition no_credentials :: ansible_run where
  "no_credentials = \<lparr>an_status = ans_missing_creds, an_exit = 0, an_stdout = [], an_stderr = []\<rparr>"

definition good_run :: "string \<Rightarrow> ansible_run" where
  "good_run out = \<lparr>an_status = ans_success, an_exit = 0, an_stdout = out, an_stderr = []\<rparr>"

definition step_at :: "int \<Rightarrow> ansible_run \<Rightarrow> step_in" where
  "step_at t a = \<lparr>si_now = t, si_lock = None, si_gate = None, si_write = None, si_answer = (None, a), si_failing = {}\<rparr>"

lemmas demo_defs = demo_def_def demo_env_def demo_avail_def demo_rule_def demo_db_def demo_call_def demo_req_def
  no_credentials_def good_run_def step_at_def

lemma payloads_Nil [simp]: "payloads m [] = []"
  by (simp add: payloads_def scan_lines_def Let_def)

lemma parse_detected_Nil: "payloads detect_marker out = [] \<Longrightarrow> parse_detected out = []"
  by (simp add: parse_detected_def)

section \<open>Inspections\<close>

definition apt_detected :: string where "apt_detected = ''    msg: SW_DETECTED: builtin.apt''"

lemma apt_detected_parses: "parse_detected apt_detected = [''builtin.apt'']"
  by (simp add: apt_detected_def) code_simp

lemma settled_inspection:
  assumes "rc_kind c = kind_inspect" "rc_pc c = Executing q" "si_answer x = (None, a)" "trim_space (rc_system c) \<noteq> []"
  shows "avail_at s u (snd (run_step E x c w)) =
     (if s \<noteq> rc_system c then avail_at s u w
      else if u \<notin> set (parse_detected (an_stdout a)) then None
      else if trim_space u = [] then avail_at s u w
      else Some (case avail_at s u w of
             None \<Rightarrow> \<lparr>av_system = s, av_updater = u, av_enabled = True, av_seen = Some (si_now x), av_pending = ''[]''\<rparr>
           | Some r \<Rightarrow> r\<lparr>av_seen := Some (si_now x)\<rparr>))"
proof -
  obtain os d v where pf: "parse_platform_facts (an_stdout a) = (os, d, v)" by (cases "parse_platform_facts (an_stdout a)")
  have ds: "distinct (parse_detected (an_stdout a))" by (simp add: parse_detected_def)
  let ?f = "runner_finish x c (si_now x) (an_exit a) 0 (combine_output (an_stdout a) (an_stderr a)) w"
  let ?v = "reconcile_reboot (rc_system c) (an_stdout a) (si_now x)
     (or_ignore ?f (set_platform_info (rc_system c) os d v ?f))"
  have "ud_avail (snd (run_step E x c w)) =
      ud_avail (snd (reconcile_availability (rc_system c) (parse_detected (an_stdout a)) (si_now x) ?v))"
    using assms(1-3) by (simp add: run_step_def do_return_def settle_inspect_def pf Let_def split_beta frame_simps)
  then have "avail_at s u (snd (run_step E x c w)) =
      avail_at s u (snd (reconcile_availability (rc_system c) (parse_detected (an_stdout a)) (si_now x) ?v))"
    by (rule avail_at_frame)
  moreover have "avail_at t u' ?v = avail_at t u' w" for t u'
    by (rule avail_at_frame) (simp add: frame_simps)
  ultimately show ?thesis by (auto simp: reconciled_avail [OF ds assms(4)])
qed

text \<open>
  C27: after an inspection that Ansible ran without an error, the detected updaters of the
  system are those the playbook reported, whatever was there before; one that was there keeps
  the operator's switch and its pending packages, a new one starts enabled; no other system
  is touched.
\<close>

theorem inspection_reconciles_availability:
  assumes "rc_kind c = kind_inspect" "rc_pc c = Executing q" "si_answer x = (None, a)" "trim_space (rc_system c) \<noteq> []"
  shows "avail_at s u (snd (run_step E x c w)) =
     (if s \<noteq> rc_system c then avail_at s u w
      else if u \<notin> set (parse_detected (an_stdout a)) then None
      else if trim_space u = [] then avail_at s u w
      else Some (case avail_at s u w of
             None \<Rightarrow> \<lparr>av_system = s, av_updater = u, av_enabled = True, av_seen = Some (si_now x), av_pending = ''[]''\<rparr>
           | Some r \<Rightarrow> r\<lparr>av_seen := Some (si_now x)\<rparr>))"
  using assms by (rule settled_inspection)

lemma inspection_reconciles_availability_witness:
  "avail_at ''s'' ''builtin.apt'' (snd (run_step demo_env (step_at 20 (good_run apt_detected))
     (demo_call kind_inspect [] (Executing demo_req)) demo_db)) = Some ((demo_avail False)\<lparr>av_seen := Some 20\<rparr>)"
proof -
  have t: "trim_space (rc_system (demo_call kind_inspect [] (Executing demo_req))) \<noteq> []" "trim_space ''builtin.apt'' \<noteq> []"
    "''builtin.apt'' \<in> set (parse_detected apt_detected)"
    by (simp add: demo_call_def, code_simp) (code_simp, simp add: apt_detected_parses)
  have "avail_at ''s'' ''builtin.apt'' demo_db = Some (demo_avail False)"
    by (simp add: avail_at_def demo_db_def demo_avail_def)
  with t inspection_reconciles_availability [of "demo_call kind_inspect [] (Executing demo_req)" demo_req
      "step_at 20 (good_run apt_detected)" "good_run apt_detected" "''s''" "''builtin.apt''" demo_env demo_db]
  show ?thesis by (simp add: demo_call_def step_at_def good_run_def)
qed

text \<open>
  an inspection that did not reach the host is no error of Ansible, and its output has no
  markers: it removes every detected updater of the system, so that the next inspection that
  does reach it finds a new row and turns on again what the operator had turned off.
\<close>

theorem failed_inspection_forgets_switches:
  assumes "rc_kind c1 = kind_inspect" "rc_pc c1 = Executing q1" "si_answer x1 = (None, a1)"
    and "payloads detect_marker (an_stdout a1) = []"
    and "rc_kind c2 = kind_inspect" "rc_pc c2 = Executing q2" "si_answer x2 = (None, a2)"
    and "rc_system c1 = sid" "rc_system c2 = sid" "trim_space sid \<noteq> []"
    and "u \<in> set (parse_detected (an_stdout a2))" "trim_space u \<noteq> []"
  shows "avail_at sid v (snd (run_step E x1 c1 w)) = None"
    and "avail_at sid u (snd (run_step E x2 c2 (snd (run_step E x1 c1 w)))) =
      Some \<lparr>av_system = sid, av_updater = u, av_enabled = True, av_seen = Some (si_now x2), av_pending = ''[]''\<rparr>"
proof -
  have "trim_space (rc_system c1) \<noteq> []" using assms(8,10) by simp
  note first = settled_inspection [OF assms(1,2,3) this]
  show gone: "avail_at sid v (snd (run_step E x1 c1 w)) = None" for v
    unfolding first using assms(8) by (simp add: parse_detected_Nil [OF assms(4)])
  have "trim_space (rc_system c2) \<noteq> []" using assms(9,10) by simp
  note second = settled_inspection [OF assms(5,6,7) this]
  show "avail_at sid u (snd (run_step E x2 c2 (snd (run_step E x1 c1 w)))) =
      Some \<lparr>av_system = sid, av_updater = u, av_enabled = True, av_seen = Some (si_now x2), av_pending = ''[]''\<rparr>"
    unfolding second using assms(9,11,12) by (simp add: gone)
qed

lemma failed_inspection_forgets_switches_witness:
  "avail_at ''s'' ''builtin.apt'' demo_db = Some (demo_avail False) \<and>
   avail_at ''s'' ''builtin.apt'' (snd (run_step demo_env (step_at 30 (good_run apt_detected))
     (demo_call kind_inspect [] (Executing demo_req)) (snd (run_step demo_env (step_at 20 no_credentials)
       (demo_call kind_inspect [] (Executing demo_req)) demo_db)))) =
     Some \<lparr>av_system = ''s'', av_updater = ''builtin.apt'', av_enabled = True, av_seen = Some 30, av_pending = ''[]''\<rparr>"
proof -
  let ?c = "demo_call kind_inspect [] (Executing demo_req)"
  have s: "trim_space ''s'' \<noteq> []" "trim_space ''builtin.apt'' \<noteq> []" by code_simp+
  have c: "rc_kind ?c = kind_inspect" "rc_pc ?c = Executing demo_req" "rc_system ?c = ''s''"
    by (simp_all add: demo_call_def)
  have x: "si_answer (step_at t a) = (None, a)" "si_now (step_at t a) = t" for t a by (simp_all add: step_at_def)
  have o: "payloads detect_marker (an_stdout no_credentials) = []"
    "''builtin.apt'' \<in> set (parse_detected (an_stdout (good_run apt_detected)))"
    by (simp_all add: no_credentials_def good_run_def apt_detected_parses)
  have "avail_at ''s'' ''builtin.apt'' demo_db = Some (demo_avail False)"
    by (simp add: avail_at_def demo_db_def demo_avail_def)
  moreover have "avail_at ''s'' ''builtin.apt'' (snd (run_step demo_env (step_at 30 (good_run apt_detected)) ?c
      (snd (run_step demo_env (step_at 20 no_credentials) ?c demo_db)))) =
     Some \<lparr>av_system = ''s'', av_updater = ''builtin.apt'', av_enabled = True,
       av_seen = Some (si_now (step_at 30 (good_run apt_detected))), av_pending = ''[]''\<rparr>"
    by (rule failed_inspection_forgets_switches(2) [OF c(1,2) x(1) o(1) c(1,2) x(1) c(3,3) s(1) o(2) s(2)])
  ultimately show ?thesis by (simp add: x(2))
qed

section \<open>Exclusions\<close>

lemma resolved_exclusions:
  assumes "trim_space sid \<noteq> []" "trim_space uid \<noteq> []"
  shows "\<exists>ps. resolve_for_system sid uid w = Inr ps \<and> sorted ps \<and> distinct ps
    \<and> set ps = ex_pattern ` {e \<in> set (rd_exclusions w). applies sid uid w e}"
  using assms by (auto simp: resolve_for_system_def resolve_raw_def)

lemma held_after_replace:
  assumes "trim_space sid \<noteq> []" "trim_space uid \<noteq> []"
  shows "held_patterns sid uid (or_ignore w (replace_holds sid uid now ps w)) = Inr (dedup_sort ps)"
proof -
  have s: "sort (dedup_sort ps) = dedup_sort ps" by (simp add: dedup_sort_def sorted_sort_id)
  have "map ho_pattern (filter (\<lambda>h. ho_system h = sid \<and> ho_updater h = uid)
      (delete_where (\<lambda>h. ho_system h = sid \<and> ho_updater h = uid) hs @
       map (\<lambda>p. \<lparr>ho_system = sid, ho_updater = uid, ho_pattern = p, ho_at = now\<rparr>) qs)) = qs" for hs qs
    by (simp add: delete_where_def filter_empty_conv comp_def filter_map)
  with assms s show ?thesis by (simp add: held_patterns_def replace_holds_def or_ignore_def)
qed

lemma held_frame: "rd_holds v = rd_holds w \<Longrightarrow> held_patterns s u v = held_patterns s u w"
  by (simp add: held_patterns_def)

text \<open>
  C28: an apply hands Ansible exactly the patterns of the rules that apply to the system and the
  updater, each once and in order, or none if the exclusions could not be read; and to a hold-based updater
  the holds on record, or none if those could not be read. When Ansible comes back without an error, whatever
  its status, the holds on record are the patterns it was given, so that the next apply is told what
  to lift, or what they were if they could not be written.
\<close>

theorem apply_carries_every_exclusion:
  assumes "rc_kind c = kind_apply" "rc_pc c = AtWrite" "si_write x = None" "run_step E x c w = (c', w')"
    and "trim_space (rc_system c) \<noteq> []" "trim_space (rc_updater c) \<noteq> []"
  shows "\<exists>q. rc_pc c' = Executing q \<and> w' = w
     \<and> (if ResolveExclusions \<in> si_failing x then rq_excluded q = []
        else sorted (rq_excluded q) \<and> distinct (rq_excluded q)
          \<and> set (rq_excluded q) = ex_pattern ` {e \<in> set (rd_exclusions w). applies (rc_system c) (rc_updater c) w e})
     \<and> (rc_holds c \<longrightarrow>
          (if ResolveHolds \<in> si_failing x then rq_held q = Some []
           else map_option Inr (rq_held q) = Some (held_patterns (rc_system c) (rc_updater c) w))
          \<and> (\<forall>y a v. si_answer y = (None, a) \<longrightarrow>
               held_patterns (rc_system c) (rc_updater c) (snd (run_step E y c' v)) =
                 (if RecordHolds \<in> si_failing y then held_patterns (rc_system c) (rc_updater c) v
                  else Inr (dedup_sort (rq_excluded q)))))"
proof -
  let ?q = "request_of x c w"
  obtain ps where ps: "resolve_for_system (rc_system c) (rc_updater c) w = Inr ps" "sorted ps" "distinct ps"
    "set ps = ex_pattern ` {e \<in> set (rd_exclusions w). applies (rc_system c) (rc_updater c) w e}"
    using resolved_exclusions [OF assms(5,6)] by blast
  from assms(1-4) have c': "c' = c\<lparr>rc_pc := Executing ?q\<rparr>" "w' = w" by (auto simp: run_step_def do_write_def)
  have k: "kind_apply \<noteq> kind_inspect" by (simp add: run_kinds)
  show ?thesis
  proof (intro exI [of _ ?q] conjI impI allI)
    show "rc_pc c' = Executing ?q" "w' = w" by (simp_all add: c')
    show "if ResolveExclusions \<in> si_failing x then rq_excluded ?q = []
        else sorted (rq_excluded ?q) \<and> distinct (rq_excluded ?q)
          \<and> set (rq_excluded ?q) = ex_pattern ` {e \<in> set (rd_exclusions w). applies (rc_system c) (rc_updater c) w e}"
      using ps assms(1) by (simp add: request_of_def request_excludes_def)
    assume h: "rc_holds c"
    then show "if ResolveHolds \<in> si_failing x then rq_held ?q = Some []
      else map_option Inr (rq_held ?q) = Some (held_patterns (rc_system c) (rc_updater c) w)"
      using assms(1,5,6) by (simp add: request_of_def request_held_def held_patterns_def)
    fix y :: step_in and a v assume a: "si_answer y = (None, a)"
    show "held_patterns (rc_system c) (rc_updater c) (snd (run_step E y c' v)) =
      (if RecordHolds \<in> si_failing y then held_patterns (rc_system c) (rc_updater c) v
       else Inr (dedup_sort (rq_excluded ?q)))"
      using h a assms(1,5,6) k
      by (simp add: c' run_step_def do_return_def settle_update_def Let_def split_beta keep_holds_def
          held_after_replace held_frame [OF complete_frame(7)]) (auto intro!: held_frame simp: frame_simps)
  qed
qed

lemma one_element: "distinct xs \<Longrightarrow> set xs = {y} \<Longrightarrow> xs = [y]"
  by (cases xs) (auto simp: subset_singleton_iff insert_eq_iff)

lemma apply_carries_every_exclusion_witness:
  "\<exists>q. rc_pc (fst (run_step demo_env (step_at 20 no_credentials) (demo_call kind_apply ''builtin.apt'' AtWrite) demo_db)) =
     Executing q \<and> rq_excluded q = [''linux-image'']"
proof -
  let ?c = "demo_call kind_apply ''builtin.apt'' AtWrite" and ?x = "step_at 20 no_credentials"
  have s: "trim_space (rc_system ?c) \<noteq> []" "trim_space (rc_updater ?c) \<noteq> []" unfolding demo_call_def by code_simp+
  have c: "rc_kind ?c = kind_apply" "rc_pc ?c = AtWrite" "si_write ?x = None" by (simp_all add: demo_call_def step_at_def)
  have a: "{e \<in> set (rd_exclusions demo_db). applies (rc_system ?c) (rc_updater ?c) demo_db e} = {demo_rule}"
    by (auto simp: demo_db_def demo_rule_def applies_def)
  obtain c' w' where r: "run_step demo_env ?x ?c demo_db = (c', w')" by fastforce
  obtain q where q: "rc_pc c' = Executing q" "distinct (rq_excluded q)" "set (rq_excluded q) = ex_pattern ` {demo_rule}"
    using apply_carries_every_exclusion [OF c r s] unfolding a by (auto simp: step_at_def)
  then have "rq_excluded q = [''linux-image'']"
    using one_element [of "rq_excluded q" "ex_pattern demo_rule"] by (simp add: demo_rule_def)
  with q(1) r show ?thesis by simp
qed

section \<open>A check that never reached its host\<close>

lemma fold_max_ge: "t \<le> fold max ts t \<and> (\<forall>s\<in>set ts. s \<le> fold max ts t)" for t :: int
proof (induction ts arbitrary: t)
  case (Cons a ts)
  from this [of "max a t"] show ?case by auto
qed simp

lemma fold_max_in: "fold max ts t \<in> insert t (set ts)" for t :: int
  by (induction ts arbitrary: t) (auto simp: max_def)

lemma max_of_eq:
  assumes "t \<in> set ts" "\<forall>s\<in>set ts. s \<le> t"
  shows "max_of ts = Some t"
proof (cases ts)
  case (Cons u us)
  with assms fold_max_ge [of u us] fold_max_in [of us u] show ?thesis
    by (auto simp: max_of_def intro: antisym)
qed (use assms in simp)

lemma settled_check:
  assumes "rc_kind c = kind_check" "rc_pc c = Executing q" "si_answer x = (None, a)" "FinishRun \<notin> si_failing x"
  shows "ud_runs (snd (run_step E x c w)) = update_where (\<lambda>r. ur_id r = rc_id c)
     (\<lambda>r. r\<lparr>ur_finished := Some (si_now x), ur_exit := Some (an_exit a),
        ur_affected := parse_affected_count (an_stdout a), ur_log := log_tail (combine_output (an_stdout a) (an_stderr a))\<rparr>)
     (ud_runs w)"
    and "ud_avail (snd (run_step E x c w)) = ud_avail (keep_packages E c (an_stdout a)
       (runner_finish x c (si_now x) (an_exit a) (parse_affected_count (an_stdout a))
          (combine_output (an_stdout a) (an_stderr a)) w))"
  using assms by (simp_all add: run_step_def do_return_def settle_update_def Let_def split_beta frame_simps run_kinds)

lemma in_map_filter: "y \<in> set (List.map_filter f xs) \<longleftrightarrow> (\<exists>x\<in>set xs. f x = Some y)"
  by (induction xs) (auto simp: List.map_filter_simps split: option.splits)

lemma last_run_is:
  assumes "r \<in> set rs" "ur_finished r = Some t" "\<And>s u. s \<in> set rs \<Longrightarrow> ur_finished s = Some u \<Longrightarrow> s = r \<or> u < t"
  shows "{s \<in> set rs. ur_finished s \<noteq> None \<and> ur_finished s = max_of (List.map_filter ur_finished rs)} = {r}"
proof -
  have "max_of (List.map_filter ur_finished rs) = Some t"
  proof (rule max_of_eq)
    show "t \<in> set (List.map_filter ur_finished rs)" using assms(1,2) by (auto simp: in_map_filter)
    show "\<forall>s\<in>set (List.map_filter ur_finished rs). s \<le> t" using assms(2,3) by (force simp: in_map_filter)
  qed
  with assms show ?thesis by auto
qed

lemma kept_packages:
  assumes "rc_kind c = kind_check" "trim_space (rc_system c) \<noteq> []" "trim_space (rc_updater c) \<noteq> []"
  shows "avail_at (rc_system c) (rc_updater c) (keep_packages E c out w) =
     map_option (\<lambda>a. a\<lparr>av_pending := encode_pkgs (re_codec E) (parse_pending_packages out)\<rparr>)
       (avail_at (rc_system c) (rc_updater c) w)"
proof -
  have "avail_at (rc_system c) (rc_updater c) (keep_packages E c out w) =
     map_option (\<lambda>a. if avail_key (rc_system c) (rc_updater c) a
         then a\<lparr>av_pending := encode_pkgs (re_codec E) (parse_pending_packages out)\<rparr> else a)
       (avail_at (rc_system c) (rc_updater c) w)"
    using assms unfolding avail_at_def
    by (simp add: keep_packages_def set_pending_packages_def or_ignore_def) (rule find_update_where, simp)
  also have "\<dots> = map_option (\<lambda>a. a\<lparr>av_pending := encode_pkgs (re_codec E) (parse_pending_packages out)\<rparr>)
       (avail_at (rc_system c) (rc_updater c) w)"
    by (rule option.map_cong) (auto simp: avail_at_def dest!: find_avail_SomeD)
  finally show ?thesis .
qed

lemma parse_pending_packages_Nil: "parse_pending_packages [] = []"
  by (simp add: parse_pending_packages_def)

text \<open>
  a check of a system whose credentials do not resolve never reaches it, and Ansible's
  answer carries exit code 0: once it has ended, the system is not marked as failed, the last
  check of this updater counts no pending update, and its list of pending packages is empty,
  whatever they said before.
\<close>

theorem unreached_check_counts_as_clean:
  assumes "rc_kind c = kind_check" "rc_pc c = Executing q" "si_answer x = (None, no_credentials)"
    and "r \<in> set (ud_runs w)" "ur_id r = rc_id c" "ur_system r = rc_system c" "ur_kind r = kind_check"
      "ur_updater r = rc_updater c" "distinct (map ur_id (ud_runs w))"
    and earlier: "\<forall>s\<in>set (ud_runs w). \<forall>t. ur_system s = rc_system c \<longrightarrow> ur_finished s = Some t \<longrightarrow> t < si_now x"
    and ids: "trim_space (rc_system c) \<noteq> []" "trim_space (rc_updater c) \<noteq> []"
    and closes: "FinishRun \<notin> si_failing x"
  shows "\<exists>st. system_stats_of C (rc_system c) (snd (run_step E x c w)) = Some st \<and> \<not> st_failed st
      \<and> (\<forall>s\<in>set (latest_checks (rc_system c) (snd (run_step E x c w))). ur_updater s = rc_updater c \<longrightarrow> ur_affected s = 0)
      \<and> (\<forall>a. avail_at (rc_system c) (rc_updater c) (snd (run_step E x c w)) = Some a \<longrightarrow>
             av_pending a = encode_pkgs (re_codec E) [])"
proof -
  let ?w = "snd (run_step E x c w)" and ?sid = "rc_system c"
  define f where "f = (\<lambda>s :: updater_run. s\<lparr>ur_finished := Some (si_now x), ur_exit := Some 0, ur_affected := 0, ur_log := []\<rparr>)"
  have out: "an_stdout no_credentials = []" "an_exit no_credentials = 0" "an_stderr no_credentials = []"
    by (simp_all add: no_credentials_def)
  have zero: "parse_affected_count [] = 0" "log_tail (combine_output [] []) = []"
    by (simp_all add: parse_affected_count_def first_marker_int_def combine_output_def log_tail_def max_log_tail_bytes_def)
  have runs: "ud_runs ?w = update_where (\<lambda>s. ur_id s = rc_id c) f (ud_runs w)"
    using settled_check(1) [OF assms(1-3) closes] by (simp add: out zero f_def)
  have own: "s = r" if "s \<in> set (ud_runs w)" "ur_id s = rc_id c" for s
    using that assms(4,5) inj_onD [OF distinct_map [THEN iffD1, OF assms(9), THEN conjunct2], of s r] by simp
  have in': "f r \<in> set (ud_runs ?w)" using assms(4,5) by (auto simp: runs)
  have other: "s = f r \<or> s \<in> set (ud_runs w)" if "s \<in> set (ud_runs ?w)" for s
    using that own by (auto simp: runs)
  have only: "s = f r \<or> t < si_now x" if "s \<in> set (ud_runs ?w)" "ur_system s = ?sid" "ur_finished s = Some t" for s t
    using other [OF that(1)] earlier that(2,3) by blast
  have fr: "ur_finished (f r) = Some (si_now x)" "ur_system (f r) = ?sid" "ur_kind (f r) = kind_check"
    "ur_updater (f r) = rc_updater c" "ur_affected (f r) = 0" "ur_exit (f r) = Some 0"
    using assms(6-8) by (simp_all add: f_def)
  have "set (last_runs ?sid ?w) = {f r}"
  proof -
    let ?rs = "filter (\<lambda>r. ur_system r = ?sid) (ud_runs ?w)"
    have "{s \<in> set ?rs. ur_finished s \<noteq> None \<and> ur_finished s = max_of (List.map_filter ur_finished ?rs)} = {f r}"
      by (rule last_run_is [where t = "si_now x"]) (use in' only fr in auto)
    then show ?thesis by (simp add: last_runs_def Let_def)
  qed
  then have ok: "filter failed_exit (last_runs ?sid ?w) = []"
    by (auto simp: filter_empty_conv failed_exit_def fr)
  have lc: "s = f r" if "s \<in> set (latest_checks ?sid ?w)" "ur_updater s = rc_updater c" for s
  proof -
    let ?rs = "filter (\<lambda>r2. ur_updater r2 = rc_updater c) (checks_of ?sid ?w)"
    have "{s \<in> set ?rs. ur_finished s \<noteq> None \<and> ur_finished s = max_of (List.map_filter ur_finished ?rs)} = {f r}"
      by (rule last_run_is [where t = "si_now x"]) (use in' only fr in \<open>auto simp: checks_of_def\<close>)
    with that show ?thesis by (auto simp: latest_checks_def)
  qed
  have "checks_of ?sid ?w \<noteq> []" using in' fr by (auto simp: checks_of_def filter_empty_conv)
  then have "\<exists>st. system_stats_of C ?sid ?w = Some st \<and> \<not> st_failed st"
    by (simp add: system_stats_of_def Let_def ok)
  moreover have "av_pending a = encode_pkgs (re_codec E) []" if "avail_at ?sid (rc_updater c) ?w = Some a" for a
    using that unfolding avail_at_frame [OF settled_check(2) [OF assms(1-3) closes]] kept_packages [OF assms(1) ids]
    by (auto simp: out parse_pending_packages_Nil)
  moreover have "ur_affected s = 0" if "s \<in> set (latest_checks ?sid ?w)" "ur_updater s = rc_updater c" for s
    using lc [OF that] fr(5) by simp
  ultimately show ?thesis by blast
qed

text \<open>A history in which the running check follows an update that failed.\<close>

definition demo_row :: "string \<Rightarrow> string \<Rightarrow> int \<Rightarrow> int option \<Rightarrow> int option \<Rightarrow> int \<Rightarrow> updater_run" where
  "demo_row i k t e ex n = \<lparr>ur_id = i, ur_system = ''s'', ur_updater = ''builtin.apt'', ur_kind = k, ur_started = t,
     ur_finished = e, ur_exit = ex, ur_affected = n, ur_actor = ''root'', ur_sha = [], ur_log = []\<rparr>"

definition demo_history :: fleet_db where
  "demo_history = demo_db\<lparr>ud_runs := [demo_row ''q'' kind_check 5 (Some 8) (Some 2) 7,
     demo_row ''r'' kind_check 10 None None 0]\<rparr>"

lemma unreached_check_counts_as_clean_witness:
  "(\<exists>st. system_stats_of (re_codec demo_env) ''s'' demo_history = Some st \<and> st_failed st \<and> st_pending st = 7) \<and>
   (\<exists>st. system_stats_of (re_codec demo_env) ''s'' (snd (run_step demo_env (step_at 20 no_credentials)
     (demo_call kind_check ''builtin.apt'' (Executing demo_req)) demo_history)) = Some st \<and> \<not> st_failed st)"
proof
  let ?c = "demo_call kind_check ''builtin.apt'' (Executing demo_req)"
  have s: "trim_space (rc_system ?c) \<noteq> []" "trim_space (rc_updater ?c) \<noteq> []" unfolding demo_call_def by code_simp+
  show "\<exists>st. system_stats_of (re_codec demo_env) ''s'' demo_history = Some st \<and> st_failed st \<and> st_pending st = 7"
    by (simp add: system_stats_of_def Let_def checks_of_def demo_history_def demo_row_def last_runs_def latest_checks_def
        List.map_filter_simps max_of_def failed_exit_def)
  have r: "rc_kind ?c = kind_check" "rc_pc ?c = Executing demo_req" "rc_system ?c = ''s''" "rc_updater ?c = ''builtin.apt''"
    "rc_id ?c = ''r''" "si_answer (step_at 20 no_credentials) = (None, no_credentials)" "si_now (step_at 20 no_credentials) = 20"
    by (simp_all add: demo_call_def step_at_def)
  have h: "ud_runs demo_history = [demo_row ''q'' kind_check 5 (Some 8) (Some 2) 7, demo_row ''r'' kind_check 10 None None 0]"
    by (simp add: demo_history_def)
  have e: "\<forall>d\<in>set (ud_runs demo_history). \<forall>t. ur_system d = rc_system ?c \<longrightarrow> ur_finished d = Some t \<longrightarrow>
      t < si_now (step_at 20 no_credentials)"
    by (simp add: h r(7)) (simp add: demo_row_def)
  have d: "demo_row ''r'' kind_check 10 None None 0 \<in> set (ud_runs demo_history)"
    "ur_id (demo_row ''r'' kind_check 10 None None 0) = rc_id ?c"
    "ur_system (demo_row ''r'' kind_check 10 None None 0) = rc_system ?c"
    "ur_kind (demo_row ''r'' kind_check 10 None None 0) = kind_check"
    "ur_updater (demo_row ''r'' kind_check 10 None None 0) = rc_updater ?c"
    "distinct (map ur_id (ud_runs demo_history))"
    by (simp_all add: h r) (simp_all add: demo_row_def)
  have "\<exists>st. system_stats_of (re_codec demo_env) (rc_system ?c) (snd (run_step demo_env (step_at 20 no_credentials) ?c
      demo_history)) = Some st \<and> \<not> st_failed st"
    using unreached_check_counts_as_clean [where E = demo_env and C = "re_codec demo_env", OF r(1,2,6) d(1-6) e s]
    by (simp add: step_at_def) blast
  then show "\<exists>st. system_stats_of (re_codec demo_env) ''s'' (snd (run_step demo_env (step_at 20 no_credentials) ?c
      demo_history)) = Some st \<and> \<not> st_failed st" by (simp add: demo_call_def)
qed

section \<open>The history\<close>

lemma kept_rows:
  assumes "distinct (map f xs)" "set ys \<subseteq> set xs"
  shows "{x \<in> set xs. f x \<in> f ` set ys} = set ys"
  using assms by (auto simp: distinct_map inj_on_def)

lemma newest_first: "sorted (map (\<lambda>r. - ur_started r) (newest_runs sid db))"
  by (simp add: newest_runs_def)

lemma take_is_newer:
  assumes "sorted (map g xs)" "x \<in> set (take k xs)" "y \<in> set xs" "y \<notin> set (take k xs)"
  shows "g x \<le> g y"
proof -
  have "map g xs = map g (take k xs) @ map g (drop k xs)" by (simp flip: map_append)
  then have "sorted (map g (take k xs) @ map g (drop k xs))" using assms(1) by simp
  moreover have "y \<in> set (drop k xs)" using assms(3,4) by (metis UnE append_take_drop_id set_append)
  ultimately show ?thesis using assms(2) by (auto simp: sorted_append)
qed

text \<open>
  Trimming the history of a system to \<open>keep\<close> leaves exactly \<open>keep\<close> of its runs, all of
  them when there were fewer, none that is older than one it drops, and every run of any
  other system.
\<close>

theorem history_keeps_the_newest:
  assumes "trim_runs sid keep db = Inr db'" "0 < keep" "sid \<noteq> []" "distinct (map ur_id (ud_runs db))"
  shows "length (filter (\<lambda>r. ur_system r = sid) (ud_runs db')) =
      min (nat keep) (length (filter (\<lambda>r. ur_system r = sid) (ud_runs db))) \<and>
    (\<forall>r d. r \<in> set (ud_runs db') \<and> ur_system r = sid \<and> d \<in> set (ud_runs db) \<and> d \<notin> set (ud_runs db') \<longrightarrow>
      ur_started d \<le> ur_started r) \<and>
    filter (\<lambda>r. ur_system r \<noteq> sid) (ud_runs db') = filter (\<lambda>r. ur_system r \<noteq> sid) (ud_runs db)"
proof (intro conjI allI impI)
  let ?N = "newest_runs sid db" let ?k = "take (nat keep) ?N"
  have db': "ud_runs db' = delete_where (\<lambda>r. ur_system r = sid \<and> ur_id r \<notin> ur_id ` set ?k) (ud_runs db)"
    using assms(1-3) by (auto simp: trim_runs_def Let_def)
  have N: "set ?N = {r \<in> set (ud_runs db). ur_system r = sid}" "distinct ?N"
    using assms(4) by (simp_all add: newest_runs_def distinct_map)
  have sub: "set ?k \<subseteq> set (ud_runs db)" using N(1) set_take_subset by fastforce
  have kept: "set (filter (\<lambda>r. ur_system r = sid) (ud_runs db')) = set ?k"
    using kept_rows [OF assms(4) sub] sub N(1) set_take_subset [of "nat keep" ?N] unfolding db' by auto
  have "distinct (filter (\<lambda>r. ur_system r = sid) (ud_runs db'))"
    using assms(4) unfolding db' by (simp add: delete_where_def distinct_map)
  then have "length (filter (\<lambda>r. ur_system r = sid) (ud_runs db')) = length ?k"
    using kept N(2) by (metis distinct_card distinct_take)
  then show "length (filter (\<lambda>r. ur_system r = sid) (ud_runs db')) =
      min (nat keep) (length (filter (\<lambda>r. ur_system r = sid) (ud_runs db)))"
    by (simp add: newest_runs_def min.commute)
  show "filter (\<lambda>r. ur_system r \<noteq> sid) (ud_runs db') = filter (\<lambda>r. ur_system r \<noteq> sid) (ud_runs db)"
    unfolding db' by (auto simp: delete_where_def intro: filter_cong)
  show "ur_started d \<le> ur_started r"
    if g: "r \<in> set (ud_runs db') \<and> ur_system r = sid \<and> d \<in> set (ud_runs db) \<and> d \<notin> set (ud_runs db')" for r d
  proof -
    have "r \<in> set ?k" using g kept by auto
    moreover have "d \<in> set ?N" "d \<notin> set ?k" using g kept N(1) unfolding db' by auto
    ultimately show ?thesis using take_is_newer [OF newest_first] by fastforce
  qed
qed

lemma history_keeps_the_newest_witness:
  "\<exists>db'. trim_runs ''s'' 1 demo_history = Inr db' \<and> length (filter (\<lambda>r. ur_system r = ''s'') (ud_runs db')) = 1"
proof -
  obtain db' where t: "trim_runs ''s'' 1 demo_history = Inr db'" by (simp add: trim_runs_def Let_def)
  have "distinct (map ur_id (ud_runs demo_history))" by (simp add: demo_history_def demo_row_def)
  from history_keeps_the_newest [OF t _ _ this, THEN conjunct1] t show ?thesis by (simp add: demo_history_def demo_row_def)
qed

end
