(* ===== verification/FleetClaims.thy ===== *)
theory FleetClaims
  imports Fleet UpdaterClaims
begin

text \<open>
  What holds of every reachable state of the server's runners, how each call ends, and what a
  run of an exporter leaves in the table the monitoring page and the scrape targets read.
\<close>

section \<open>A reachable state for the witnesses\<close>

definition demo_exporter :: exporter where
  "demo_exporter = exporter_builtin (\<lambda>p. ''play'') ''builtin.apt.exporter'' ''apt'' [] ''builtin.apt'' kind_node 9100 ''d''"

definition demo_xenv :: export_env where
  "demo_xenv = \<lparr>xe_builtins = [demo_exporter], xe_sha = (\<lambda>s. s), xe_keep = 50\<rparr>"

definition demo_site :: site_db where
  "demo_site = \<lparr>hd_hosts = [fresh_host ''s'' 1 (''web'', ''web.lan'')], ld_locks = [], ud_defs = [],
     ud_avail = [], ud_runs = [], rd_exclusions = [], rd_holds = [], fd_audit = [], fd_notes = [],
     xd_defs = [], xd_rows = [], xd_modes = [], xd_runs = []\<rparr>"

definition demo_export :: "string \<Rightarrow> export_pc \<Rightarrow> export_call" where
  "demo_export k p = \<lparr>xc_id = ''x'', xc_system = ''s'', xc_exporter = ''builtin.apt.exporter'', xc_kind = k,
     xc_body = ''play'', xc_port = 9100, xc_actor = ''root'', xc_start = 10, xc_pc = p\<rparr>"

text \<open>The first call takes a step.\<close>

definition advance :: "run_env \<Rightarrow> export_env \<Rightarrow> step_in \<Rightarrow> fleet \<Rightarrow> fleet" where
  "advance E X x f =
     (let (c', w') = call_step E X x (fl_calls f ! 0) (fl_db f)
      in \<lparr>fl_calls = (fl_calls f)[0 := c'], fl_db = w', fl_left = fl_left f \<union> kept x (fl_calls f ! 0) c',
           fl_unclosed = fl_unclosed f \<union> unclosed x (fl_calls f ! 0) c'\<rparr>)"

lemma reach_advance:
  assumes "fleet_reach E X f" "fl_calls f \<noteq> []"
  shows "fleet_reach E X (advance E X x f) \<and> fl_calls (advance E X x f) \<noteq> []"
proof -
  obtain c' w' where "call_step E X x (fl_calls f ! 0) (fl_db f) = (c', w')" by fastforce
  with fleet_reach.progress [OF assms(1) _ this] assms(2) show ?thesis by (simp add: advance_def)
qed

definition demo_start :: fleet where
  "demo_start = (boot 5 demo_site)\<lparr>fl_calls := [ExporterCall (demo_export run_install XInsert)]\<rparr>"

definition demo_step :: step_in where "demo_step = step_at 20 no_credentials"

definition demo_running :: fleet where
  "demo_running = advance demo_env demo_xenv demo_step (advance demo_env demo_xenv demo_step
     (advance demo_env demo_xenv demo_step demo_start))"


lemma reach_start: "fleet_reach demo_env demo_xenv demo_start"
proof -
  have "begin_export demo_xenv ''root'' ''s'' ''builtin.apt.exporter'' run_install ''x'' 10 (fl_db (boot 5 demo_site)) =
      Inr (demo_export run_install XInsert)"
    by (simp add: begin_export_def demo_xenv_def demo_exporter_def exporter_builtin_def get_exporter_def is_builtin_id_def
        prefix_builtin_def exporter_deleted_def exporter_run_valid_def exporter_kinds demo_export_def)
  from fleet_reach.export [OF fleet_reach.start this, of demo_env]
  show ?thesis by (simp add: demo_start_def fresh_id_def boot_def)
qed

lemma reach_running: "fleet_reach demo_env demo_xenv demo_running \<and> fl_calls demo_running \<noteq> []"
  unfolding demo_running_def using reach_start by (simp add: reach_advance demo_start_def)


section \<open>Reachable states\<close>

text \<open>
  C24: at no time do two calls, of updaters or exporters, work on one system that exists: of
  those that have got past the lock and have not ended there is at most one per system.
\<close>

theorem one_run_per_system:
  assumes "fleet_reach E X f" "i < length (fl_calls f)" "j < length (fl_calls f)"
    and "call_holds (fl_calls f ! i)" "call_holds (fl_calls f ! j)"
    and "call_system (fl_calls f ! i) = call_system (fl_calls f ! j)"
    and "call_system (fl_calls f ! i) \<in> alive_hosts (fl_db f)"
  shows "i = j"
proof -
  have s: "fleet_lock_sound f" by (rule reachable_locks [OF assms(1)])
  have "fl_calls f ! i = fl_calls f ! j"
    by (rule fleet_locks.one_holder [OF s]) (use assms in simp_all)
  moreover have "distinct (fl_calls f)" using s by (simp add: lock_sound_def distinct_map)
  ultimately show ?thesis using assms(2,3) by (simp add: nth_eq_iff_index_eq)
qed

lemma one_run_per_system_witness:
  "filter (\<lambda>j. call_holds (fl_calls demo_running ! j) \<and> call_system (fl_calls demo_running ! j) = ''s'')
     [0..<length (fl_calls demo_running)] = [0]"
proof -
  have r: "fleet_reach demo_env demo_xenv demo_running" "0 < length (fl_calls demo_running)" using reach_running by simp_all
  have h: "call_holds (fl_calls demo_running ! 0)" "call_system (fl_calls demo_running ! 0) = ''s''"
    "call_system (fl_calls demo_running ! 0) \<in> alive_hosts (fl_db demo_running)"
    by code_simp+
  have "\<forall>j \<in> set [1..<length (fl_calls demo_running)].
      \<not> (call_holds (fl_calls demo_running ! j) \<and> call_system (fl_calls demo_running ! j) = ''s'')"
    using one_run_per_system [OF r] h by fastforce
  then have "filter (\<lambda>j. call_holds (fl_calls demo_running ! j) \<and> call_system (fl_calls demo_running ! j) = ''s'')
      [1..<length (fl_calls demo_running)] = []" by (simp only: filter_empty_conv)
  with h r(2) show ?thesis by (simp add: upt_conv_Cons)
qed





text \<open>
  A lock that was left shuts its system off: as long as the row is there, no call takes the lock, and
  each that tries ends with a conflict. Only the next start, or deleting the system, removes the row.
\<close>

theorem left_lock_shuts_system_off:
  assumes "l \<in> set (ld_locks w)" "\<not> call_holds c" "call_system c = al_system l"
  shows "\<not> call_holds (fst (call_step E X x c w)) \<and> l \<in> set (ld_locks (snd (call_step E X x c w)))"
proof -
  have "\<not> call_holds (fst (call_step E X x c w))"
  proof
    assume "call_holds (fst (call_step E X x c w))"
    from fleet_locks.takes_free_lock [OF assms(2) this] assms(1,3) show False by auto
  qed
  with fleet_locks.no_lock [OF assms(2) this] assms(1) show ?thesis by simp
qed

text \<open>The install of the witness again, with a \<open>ReleaseLock\<close> that fails.\<close>

lemma left_lock_shuts_system_off_witness:
  "\<exists>f. fleet_reach demo_env demo_xenv f \<and> list_all call_ended (fl_calls f) \<and>
     (\<exists>l. ld_locks (fl_db f) = [l] \<and> al_run l = ''x'') \<and>
     \<not> call_holds (fst (call_step demo_env demo_xenv demo_step (ExporterCall (demo_export run_status XLock)) (fl_db f)))"
proof -
  let ?f = "advance demo_env demo_xenv (demo_step\<lparr>si_failing := {ReleaseLock}\<rparr>) (advance demo_env demo_xenv demo_step
     (advance demo_env demo_xenv demo_step demo_running))"
  have r: "fleet_reach demo_env demo_xenv ?f" using reach_running by (simp add: reach_advance)
  have o: "list_all call_ended (fl_calls ?f)" by code_simp
  have l: "ld_locks (fl_db ?f) = [\<lparr>al_system = ''s'', al_run = ''x'', al_at = 10\<rparr>]" by code_simp
  have "\<not> call_holds (fst (call_step demo_env demo_xenv demo_step (ExporterCall (demo_export run_status XLock)) (fl_db ?f)))"
    by (rule left_lock_shuts_system_off [THEN conjunct1, of "\<lparr>al_system = ''s'', al_run = ''x'', al_at = 10\<rparr>"])
      (simp_all add: l demo_export_def export_holds_def)
  with r o l show ?thesis by (intro exI [of _ ?f] conjI exI) (assumption | simp)+
qed

section \<open>One call\<close>

text \<open>
  A check or an apply whose lock statement fails for another reason than a conflict ends on
  the spot and leaves its row as it was, open, and tells its caller ``conflict''; an inspection
  closes its row in the same situation.
\<close>

theorem lock_error_leaves_run_open:
  assumes "rc_pc c = AtLock" "si_lock x = Some m"
  shows "rc_pc (fst (run_step E x c w)) = Finished (Some (RunStore UpSql),
           failed_result (if rc_kind c = kind_inspect then [] else ''conflict''))"
    and "r \<in> set (ud_runs w) \<Longrightarrow> ur_id r = rc_id c \<Longrightarrow> ur_finished r = None \<Longrightarrow>
         (rc_kind c \<noteq> kind_inspect \<longrightarrow> r \<in> set (ud_runs (snd (run_step E x c w)))) \<and>
         (rc_kind c = kind_inspect \<longrightarrow> FinishRun \<notin> si_failing x \<longrightarrow> (\<forall>s\<in>set (ud_runs (snd (run_step E x c w))). ur_id s = rc_id c \<longrightarrow>
            ur_finished s = Some (rc_start c) \<and> ur_exit s = Some (-1)))"
  using assms by (auto simp: run_step_def do_lock_def)

lemma lock_error_leaves_run_open_witness:
  "demo_row ''r'' kind_check 10 None None 0 \<in> set (ud_runs (snd (run_step demo_env
     ((step_at 20 no_credentials)\<lparr>si_lock := Some ''disk I/O error''\<rparr>) (demo_call kind_check ''builtin.apt'' AtLock) demo_history)))"
proof -
  let ?c = "demo_call kind_check ''builtin.apt'' AtLock" and ?x = "(step_at 20 no_credentials)\<lparr>si_lock := Some ''disk I/O error''\<rparr>"
  have c: "rc_pc ?c = AtLock" "si_lock ?x = Some ''disk I/O error''" by (simp_all add: demo_call_def)
  have r: "demo_row ''r'' kind_check 10 None None 0 \<in> set (ud_runs demo_history)"
    "ur_id (demo_row ''r'' kind_check 10 None None 0) = rc_id ?c" "ur_finished (demo_row ''r'' kind_check 10 None None 0) = None"
    "rc_kind ?c \<noteq> kind_inspect"
    by (simp_all add: demo_history_def demo_row_def demo_call_def run_kinds)
  from lock_error_leaves_run_open(2) [OF c r(1-3), of demo_env] r(4) show ?thesis by simp
qed

section \<open>What an exporter's run leaves\<close>

definition exporter_row :: "string \<Rightarrow> string \<Rightarrow> 'a site_db_scheme \<Rightarrow> system_exporter option" where
  "exporter_row sid xid w = find (exporter_key sid xid) (xd_rows w)"

lemma exporter_row_SomeD: "exporter_row sid xid w = Some r \<Longrightarrow> se_system r = sid \<and> se_exporter r = xid"
  unfolding exporter_row_def using find_Some_in by fastforce

lemma exporter_row_update:
  assumes "\<And>r. se_system (g r) = se_system r \<and> se_exporter (g r) = se_exporter r"
  shows "find (exporter_key s u) (update_where (exporter_key sid xid) g rs) =
    (if s = sid \<and> u = xid then map_option g (find (exporter_key s u) rs) else find (exporter_key s u) rs)"
  using assms by (induction rs) (auto simp: update_where_def)

lemma exporter_row_upsert:
  assumes "trim_space (se_system r) \<noteq> []" "trim_space (se_exporter r) \<noteq> []" "exporter_state_valid (se_state r)"
  shows "exporter_row s u (or_ignore w (upsert_system_exporter r w)) =
    (if s = se_system r \<and> u = se_exporter r
     then Some (case exporter_row s u w of
            None \<Rightarrow> r\<lparr>se_scrape := True\<rparr>
          | Some b \<Rightarrow> b\<lparr>se_state := se_state r, se_port := se_port r, se_service := se_service r,
                 se_status_at := coalesce (se_status_at r) (se_status_at b),
                 se_install_at := coalesce (se_install_at r) (se_install_at b), se_reason := se_reason r\<rparr>)
     else exporter_row s u w)"
proof (cases "exporter_row (se_system r) (se_exporter r) w")
  case None
  then have "count_where (exporter_key (se_system r) (se_exporter r)) (xd_rows w) = 0"
    by (auto simp: exporter_row_def find_None_iff)
  with assms have e: "xd_rows (or_ignore w (upsert_system_exporter r w)) = xd_rows w @ [r\<lparr>se_scrape := True\<rparr>]"
    by (simp add: upsert_system_exporter_def or_ignore_def Let_def del: count_where_0)
  show ?thesis
  proof (cases "s = se_system r \<and> u = se_exporter r")
    case True
    with None show ?thesis unfolding exporter_row_def e by (simp add: find_append)
  next
    case False
    then have "\<not> exporter_key s u (r\<lparr>se_scrape := True\<rparr>)" by auto
    then show ?thesis unfolding exporter_row_def e if_not_P [OF False] by (auto simp: find_append split: option.split)
  qed
next
  case (Some b)
  have "b \<in> set (xd_rows w) \<and> exporter_key (se_system r) (se_exporter r) b"
    using Some unfolding exporter_row_def by (rule find_Some_in)
  then have "count_where (exporter_key (se_system r) (se_exporter r)) (xd_rows w) \<noteq> 0" by auto
  with assms have e: "xd_rows (or_ignore w (upsert_system_exporter r w)) = update_where (exporter_key (se_system r) (se_exporter r))
      (\<lambda>b. b\<lparr>se_state := se_state r, se_port := se_port r, se_service := se_service r,
        se_status_at := coalesce (se_status_at r) (se_status_at b),
        se_install_at := coalesce (se_install_at r) (se_install_at b), se_reason := se_reason r\<rparr>) (xd_rows w)"
    (is "_ = update_where _ ?g _")
    by (simp add: upsert_system_exporter_def or_ignore_def Let_def del: count_where_0)
  have g: "se_system (?g b) = se_system b \<and> se_exporter (?g b) = se_exporter b" for b by simp
  have "find (exporter_key s u) (xd_rows (or_ignore w (upsert_system_exporter r w))) =
      (if s = se_system r \<and> u = se_exporter r then map_option ?g (exporter_row s u w) else exporter_row s u w)"
    unfolding e exporter_row_def by (rule exporter_row_update [OF g])
  moreover have "map_option ?g (exporter_row s u w) = Some (?g b)" if "s = se_system r \<and> u = se_exporter r"
    using that Some by simp
  ultimately show ?thesis using Some by (simp add: exporter_row_def)
qed

lemma exporter_row_removed:
  "exporter_row s u (or_ignore w (mark_removed sid xid now why w)) =
    (if s = sid \<and> u = xid
     then map_option (\<lambda>b. b\<lparr>se_state := state_removed, se_status_at := Some now, se_reason := why\<rparr>) (exporter_row s u w)
     else exporter_row s u w)"
proof (cases "count_where (exporter_key sid xid) (xd_rows w) = 0")
  case True
  then have "exporter_row sid xid w = None" by (auto simp: exporter_row_def find_None_iff)
  with True show ?thesis by (auto simp: mark_removed_def or_ignore_def)
next
  case False
  then show ?thesis unfolding exporter_row_def
    by (simp add: mark_removed_def or_ignore_def exporter_row_update del: count_where_0)
qed

lemma observed_state_valid: "exporter_state_valid (observed_state x c)"
  by (simp add: observed_state_def marker_state_def exporter_state_valid_def Let_def)

lemma exporter_row_frame: "xd_rows v = xd_rows w \<Longrightarrow> exporter_row s u v = exporter_row s u w"
  by (simp add: exporter_row_def)

text \<open>
  When Ansible has come back, the row of the system and the exporter says what was
  observed: ``failed'' for an error or any status but success, ``removed'' for a successful
  removal, else what the last state marker said; the time of the last install moves with an
  install that Ansible ran without an error; the operator's scrape switch stays as it was and is
  on for a new row; a successful removal makes no new row; no other row is touched.
\<close>

theorem exporter_rows_follow_runs:
  assumes "xc_pc c = XExecuting" "trim_space (xc_system c) \<noteq> []" "trim_space (xc_exporter c) \<noteq> []"
  shows "exporter_row s u (snd (export_step E x c w)) =
    (if \<not> (s = xc_system c \<and> u = xc_exporter c) then exporter_row s u w
     else if xc_kind c = run_remove \<and> play_ok x
     then map_option (\<lambda>b. b\<lparr>se_state := state_removed, se_status_at := Some (si_now x), se_reason := []\<rparr>) (exporter_row s u w)
     else Some (case exporter_row s u w of
            None \<Rightarrow> (observed_row x c)\<lparr>se_scrape := True\<rparr>
          | Some b \<Rightarrow> b\<lparr>se_state := observed_state x c, se_port := observed_port x c,
                 se_service := mr_service (parse_exporter_markers (an_stdout (snd (si_answer x)))),
                 se_status_at := Some (si_now x),
                 se_install_at := (if xc_kind c = run_install \<and> fst (si_answer x) = None then Some (si_now x) else se_install_at b),
                 se_reason := play_reason x\<rparr>))"
proof -
  let ?f = "export_finish x c (si_now x) (an_exit (snd (si_answer x)))
     (combine_output (an_stdout (snd (si_answer x))) (an_stderr (snd (si_answer x)))) w"
  have "xd_rows (snd (export_step E x c w)) = xd_rows (keep_observed x c ?f)"
    using assms(1) by (simp add: export_step_def export_return_def Let_def frame_simps)
  then have r: "exporter_row s u (snd (export_step E x c w)) = exporter_row s u (keep_observed x c ?f)" by (rule exporter_row_frame)
  have f: "exporter_row s u ?f = exporter_row s u w" for s u by (rule exporter_row_frame) (simp add: frame_simps)
  show ?thesis
  proof (cases "xc_kind c = run_remove \<and> play_ok x")
    case True
    then have "play_reason x = []" by (simp add: play_ok_def play_reason_def Let_def)
    with True show ?thesis by (simp add: r keep_observed_def exporter_row_removed f)
  next
    case False
    have "trim_space (se_system (observed_row x c)) \<noteq> []" "trim_space (se_exporter (observed_row x c)) \<noteq> []"
      "exporter_state_valid (se_state (observed_row x c))"
      using assms(2,3) observed_state_valid [of x c] by (simp_all add: observed_row_def)
    note up = exporter_row_upsert [OF this]
    have k: "keep_observed x c ?f = or_ignore ?f (upsert_system_exporter (observed_row x c) ?f)"
      using False by (auto simp: keep_observed_def)
    have o': "se_system (observed_row x c) = xc_system c" "se_exporter (observed_row x c) = xc_exporter c"
      by (simp_all add: observed_row_def)
    show ?thesis
    proof (cases "s = xc_system c \<and> u = xc_exporter c")
      case True
      then show ?thesis unfolding r k up f if_not_P [OF False] o'
        by (cases "exporter_row s u w") (simp_all add: observed_row_def coalesce_def)
    next
      case other: False
      then show ?thesis unfolding r k up f o' by auto
    qed
  qed
qed

text \<open>A status call for an exporter that was never installed, which the host did not answer.\<close>

lemma exporter_rows_follow_runs_witness:
  "exporter_row ''s'' ''builtin.apt.exporter'' demo_site = None \<and>
   map_option se_state (exporter_row ''s'' ''builtin.apt.exporter'' (snd (export_step demo_xenv demo_step
     (demo_export run_status XExecuting) demo_site))) = Some state_failed"
proof -
  let ?c = "demo_export run_status XExecuting"
  have s: "trim_space (xc_system ?c) \<noteq> []" "trim_space (xc_exporter ?c) \<noteq> []" unfolding demo_export_def by code_simp+
  have c: "xc_pc ?c = XExecuting" "xc_system ?c = ''s''" "xc_exporter ?c = ''builtin.apt.exporter''" "xc_kind ?c \<noteq> run_remove"
    by (simp_all add: demo_export_def exporter_kinds)
  have n: "exporter_row ''s'' ''builtin.apt.exporter'' demo_site = None" by (simp add: exporter_row_def demo_site_def)
  have "observed_state demo_step ?c = state_failed"
    by (simp add: observed_state_def play_ok_def demo_step_def step_at_def no_credentials_def ans_missing_creds_def ans_success_def)
  with exporter_rows_follow_runs [OF c(1) s, of "''s''" "''builtin.apt.exporter''" demo_xenv demo_step demo_site] c n
  show ?thesis by (simp add: observed_row_def)
qed

end
