(* ===== verification/FleetRoutes.thy ===== *)
theory FleetRoutes
  imports ExporterRunner Rbac
begin

text \<open>
  What the routes of the updaters, the exporters and the exclusions share: the shape of a reply,
  the look-up of the system a route names with the gates \<open>cmd/server/main.go\<close> gives the
  handlers, and the checks a custom playbook passes before it is stored (\<open>syntax.go\<close> and
  the function \<open>guard\<close> of both \<open>admin_handler.go\<close>).
  \<open>requireUser\<close> has put a user and his scope on the request.
\<close>

section \<open>Replies\<close>

text \<open>An error reply carries a text of the handler, an error whose text it shows, or the run in the way.\<close>

datatype 'e fail = FailText string | FailErr 'e | FailConflict string string

type_synonym ('e, 'b) reply = "nat \<times> ('e fail + 'b)"

definition failed :: "nat \<Rightarrow> string \<Rightarrow> ('e, 'b) reply" where "failed st msg = (st, Inl (FailText msg))"
definition failed_with :: "nat \<Rightarrow> 'e \<Rightarrow> ('e, 'b) reply" where "failed_with st e = (st, Inl (FailErr e))"
definition replied :: "nat \<Rightarrow> 'b \<Rightarrow> ('e, 'b) reply" where "replied st b = (st, Inr b)"

section \<open>The system of a route\<close>

definition load_system :: "string \<Rightarrow> 'a host_db_scheme \<Rightarrow> (('e, 'b) reply, managed_host) result" where
  "load_system i w =
     (case get_host i w of
        Inr h \<Rightarrow> Inr h
      | Inl e \<Rightarrow> Inl (if e = HostNotFound then failed 404 ''system not found'' else failed 500 ''lookup failed''))"

definition can_operate_host :: "scope \<Rightarrow> managed_host \<Rightarrow> bool" where
  "can_operate_host sc h =
     (is_global_operator sc \<or> (case sys_group h of None \<Rightarrow> False | Some g \<Rightarrow> can_operate_group sc g))"

definition can_read_host :: "scope \<Rightarrow> managed_host \<Rightarrow> bool" where
  "can_read_host sc h = can_read_system sc (sys_group h)"

text \<open>\<open>limit\<close> is what \<open>strconv.Atoi\<close> makes of the query parameter, None without one.\<close>

definition history_limit :: "int option \<Rightarrow> int" where
  "history_limit l = (case l of Some n \<Rightarrow> if n > 0 then n else 50 | None \<Rightarrow> 50)"

definition draining_reply :: "('e, 'b) reply" where
  "draining_reply = failed 503 ''server is shutting down; try again once it is back''"

section \<open>Inline credentials\<close>

text \<open>
  The regular expression \<open>credentialPattern\<close>, line by line: its case folding lets the long s
  stand for an s and the Kelvin sign for a k.
\<close>

definition blank :: "char \<Rightarrow> bool" where "blank c = (c = CHR '' '' \<or> c = CHR 0x09)"

fun match_word :: "string \<Rightarrow> string \<Rightarrow> string option" where
  "match_word [] s = Some s"
| "match_word (c # cs) [] = None"
| "match_word (c # cs) (x # xs) =
     (if lower_char x = c then match_word cs xs
      else if c = CHR ''s'' \<and> starts_with (bytes [197, 191]) (x # xs) then match_word cs (drop 2 (x # xs))
      else if c = CHR ''k'' \<and> starts_with (bytes [226, 132, 170]) (x # xs) then match_word cs (drop 3 (x # xs))
      else None)"

definition credential_words :: "string list" where "credential_words = [''password'', ''token'', ''secret'']"

text \<open>The match at the start of a line, None where there is none.\<close>

definition credential_in_line :: "string \<Rightarrow> string option" where
  "credential_in_line l =
     (case List.map_filter (\<lambda>w. match_word w (dropWhile blank l)) credential_words of
        [] \<Rightarrow> None
      | r # _ \<Rightarrow> (case dropWhile blank r of
                   [] \<Rightarrow> None
                 | c # t \<Rightarrow> if c = CHR '':'' then Some (take (length l - length t) l) else None))"

definition quoted :: "string \<Rightarrow> string" where
  "quoted s = [CHR 0x22] @ concat (map (\<lambda>c. if c = CHR 0x09 then [CHR 0x5C, CHR ''t''] else [c]) s) @ [CHR 0x22]"

fun scan_credentials_from :: "nat \<Rightarrow> string list \<Rightarrow> (string, unit) result" where
  "scan_credentials_from n [] = Inr ()"
| "scan_credentials_from n (l # ls) =
     (case credential_in_line l of
        None \<Rightarrow> scan_credentials_from (n + 1) ls
      | Some m \<Rightarrow> Inl (''playbook appears to inline a credential: line '' @ nat_to_string n @ '': '' @ quoted m))"

definition scan_inline_credentials :: "string \<Rightarrow> (string, unit) result" where
  "scan_inline_credentials body = scan_credentials_from 1 (split_on newline body)"

section \<open>The syntax check\<close>

text \<open>What came of \<open>ansible-playbook --syntax-check\<close> on a copy of the playbook.\<close>

datatype syntax_run = NoTempFile string | NotRun string | Exited int string

definition trim_stderr :: "string \<Rightarrow> string" where
  "trim_stderr s = (if 512 < length s then take 512 s @ bytes [226, 128, 166] else s)"

datatype guard_error = GuardPlain string | GuardSyntax string | GuardCredential string

definition check_syntax :: "syntax_run \<Rightarrow> (guard_error, unit) result" where
  "check_syntax r =
     (case r of
        NoTempFile m \<Rightarrow> Inl (GuardPlain m)
      | NotRun m \<Rightarrow> Inl (GuardSyntax m)
      | Exited n err \<Rightarrow> if n \<noteq> 0 then Inl (GuardSyntax (trim_stderr err)) else Inr ())"

definition check_credentials :: "string \<Rightarrow> (guard_error, unit) result" where
  "check_credentials body = map_err GuardCredential (scan_inline_credentials body)"

text \<open>
  The validation, then every body for credentials, then every body for its syntax: the first
  failure counts. The error of \<open>Validate\<close> wraps none of the sentinel errors.
\<close>

definition guard_bodies :: "(string \<Rightarrow> syntax_run) \<Rightarrow> (string, unit) result \<Rightarrow> string list \<Rightarrow> (guard_error, unit) result" where
  "guard_bodies syntax valid bodies =
     rbind (map_err GuardPlain valid) (\<lambda>_.
     rbind (first_err check_credentials bodies) (\<lambda>_.
     first_err (\<lambda>b. check_syntax (syntax b)) bodies))"

text \<open>\<open>writeGuardError\<close>: what wraps neither \<open>ErrSyntax\<close> nor \<open>ErrInlineCredential\<close> is a 500.\<close>

definition guard_status :: "guard_error \<Rightarrow> nat" where
  "guard_status e = (case e of GuardPlain _ \<Rightarrow> 500 | GuardSyntax _ \<Rightarrow> 400 | GuardCredential _ \<Rightarrow> 400)"

definition normalize_custom_id :: "string \<Rightarrow> string" where
  "normalize_custom_id x =
     (let s = trim_space x
      in if s = [] then [] else if is_builtin_id s \<or> is_custom_id s then s else prefix_custom @ s)"

end
