(* ===== verification/UpdaterServer.thy ===== *)
theory UpdaterServer
  imports FleetRoutes
begin

text \<open>
  The routes of the updaters (\<open>handler.go\<close> and \<open>admin_handler.go\<close> of
  \<open>src/internal/updaters\<close>) as \<open>cmd/server/main.go\<close> wires them. A route that runs Ansible is two
  definitions: what it decides before the call of the runner begins, and the reply it makes of
  the outcome of the call, in between the call takes its steps.
\<close>

section \<open>Replies\<close>

datatype updater_fail = FailStore updater_error | FailGuard guard_error | FailRun string run_error

record updater_row =
  ul_id :: string
  ul_source :: source
  ul_name :: string
  ul_installed :: bool
  ul_enabled :: bool
  ul_check_only :: bool
  ul_seen :: "int option"
  ul_pending :: "pkg list"

text \<open>The last component of \<open>UpInspected\<close> and \<open>UpRan\<close> is \<open>durationMs\<close>.\<close>

datatype updater_body =
    UpNoContent
  | UpInspected string run_result int
  | UpRan string string string run_result int
  | UpHistory "updater_run list"
  | UpRows "updater_row list"
  | UpDefs "(updater \<times> bool) list"     \<comment> \<open>with \<open>supportsExclusions\<close>\<close>
  | UpDef "updater \<times> bool"

type_synonym updater_reply = "(updater_fail, updater_body) reply"

section \<open>Runs\<close>

definition start_inspect :: "run_env \<Rightarrow> bool \<Rightarrow> scope \<Rightarrow> string \<Rightarrow> string \<Rightarrow> string \<Rightarrow> int \<Rightarrow> 'a fleet_db_scheme
    \<Rightarrow> (updater_reply, run_call) result" where
  "start_inspect E draining sc actor sid rid now w =
     (if draining then Inl draining_reply
      else rbind (load_system sid w) (\<lambda>h.
        if \<not> can_operate_host sc h then Inl (failed 403 ''forbidden'')
        else (case begin_inspect E actor (sys_id h) rid now w of
                Inl (UpInvalid m) \<Rightarrow> Inl (failed_with 400 (FailStore (UpInvalid m)))
              | Inl e \<Rightarrow> Inl (failed_with 500 (FailRun ''inspect'' (RunStore e)))
              | Inr c \<Rightarrow> Inr c)))"

text \<open>\<open>decodeTargetedPackages\<close>: no body is \<open>Some []\<close>, one that cannot be read or parsed is None.\<close>

definition targeted_packages :: "string list option \<Rightarrow> (string, string list) result" where
  "targeted_packages b =
     (case b of
        None \<Rightarrow> Inl ''invalid JSON body''
      | Some ps \<Rightarrow> if list_ex (\<lambda>p. trim_space p = []) ps then Inl ''packages must not contain empty entries''
                   else Inr (map trim_space ps))"

definition run_error_reply :: "string \<Rightarrow> string \<Rightarrow> run_error \<Rightarrow> 'a fleet_db_scheme \<Rightarrow> updater_reply" where
  "run_error_reply kind sid e w =
     (case e of
        RunStore UpConflict \<Rightarrow>
          (409, Inl (FailConflict ''another run is in progress for this system'' (conflicting_run sid w)))
      | RunStore UpCheckOnly \<Rightarrow>
          if kind = kind_inspect then failed_with 500 (FailRun kind e)
          else failed 409 ''updater is check-only and cannot be applied''
      | RunStore UpNotFound \<Rightarrow>
          if kind = kind_inspect then failed_with 500 (FailRun kind e) else failed_with 404 (FailStore UpNotFound)
      | RunStore (UpInvalid m) \<Rightarrow> failed_with 400 (FailStore (UpInvalid m))
      | _ \<Rightarrow> failed_with 500 (FailRun kind e))"

definition start_update :: "run_env \<Rightarrow> bool \<Rightarrow> scope \<Rightarrow> string \<Rightarrow> string \<Rightarrow> string \<Rightarrow> string \<Rightarrow> string list option \<Rightarrow> string
    \<Rightarrow> int \<Rightarrow> 'a fleet_db_scheme \<Rightarrow> (updater_reply, run_call) result" where
  "start_update E draining sc actor sid uid kind b rid now w =
     (if draining then Inl draining_reply
      else rbind (load_system sid w) (\<lambda>h.
        if \<not> can_operate_host sc h then Inl (failed 403 ''forbidden'')
        else (case (if kind = kind_apply then targeted_packages b else Inr []) of
                Inl m \<Rightarrow> Inl (failed 400 m)
              | Inr ps \<Rightarrow>
                  map_err (\<lambda>e. run_error_reply kind (sys_id h) (RunStore e) w)
                    (begin_update E actor (sys_id h) uid kind ps rid now w))))"

text \<open>
  The reply of a call that has ended. \<open>FinishedAt\<close> is never set on the copy of the run the
  runner returns, so the duration is 0.
\<close>

definition run_reply :: "run_call \<Rightarrow> outcome \<Rightarrow> 'a fleet_db_scheme \<Rightarrow> updater_reply" where
  "run_reply c res w =
     (case res of
        (Some e, _) \<Rightarrow> run_error_reply (rc_kind c) (rc_system c) e w
      | (None, r) \<Rightarrow>
          replied 200 (if rc_kind c = kind_inspect then UpInspected (rc_id c) r 0
                       else UpRan (rc_id c) (rc_updater c) (rc_kind c) r 0))"

section \<open>The system's updaters\<close>

definition handle_list_runs :: "scope \<Rightarrow> string \<Rightarrow> int option \<Rightarrow> 'a fleet_db_scheme \<Rightarrow> updater_reply" where
  "handle_list_runs sc sid l w =
     (case load_system sid w of
        Inl r \<Rightarrow> r
      | Inr h \<Rightarrow> if \<not> can_read_host sc h then failed 404 ''system not found''
                 else replied 200 (UpHistory (list_updater_runs (sys_id h) (history_limit l) w)))"

definition updater_row_of :: "pkg_codec \<Rightarrow> string \<Rightarrow> 'a updater_db_scheme \<Rightarrow> updater \<Rightarrow> updater_row" where
  "updater_row_of C sid w d =
     (let r = \<lparr>ul_id = up_id d, ul_source = up_source d, ul_name = up_name d, ul_installed = False, ul_enabled = False,
            ul_check_only = up_check_only d, ul_seen = None, ul_pending = []\<rparr>
      in case find (\<lambda>a. av_updater a = up_id d) (availability_for sid w) of
           None \<Rightarrow> r
         | Some a \<Rightarrow> r\<lparr>ul_installed := True, ul_enabled := av_enabled a, ul_seen := av_seen a,
                       ul_pending := decode_pending C (av_pending a)\<rparr>)"

definition handle_list_updaters :: "run_env \<Rightarrow> scope \<Rightarrow> string \<Rightarrow> 'a fleet_db_scheme \<Rightarrow> updater_reply" where
  "handle_list_updaters E sc sid w =
     (case load_system sid w of
        Inl r \<Rightarrow> r
      | Inr h \<Rightarrow> if \<not> can_read_host sc h then failed 404 ''system not found''
                 else replied 200 (UpRows (map (updater_row_of (re_codec E) (sys_id h) w) (registry_all (re_builtins E) w))))"

definition handle_set_enabled :: "scope \<Rightarrow> string \<Rightarrow> string \<Rightarrow> bool option \<Rightarrow> 'a fleet_db_scheme
    \<Rightarrow> updater_reply \<times> 'a fleet_db_scheme" where
  "handle_set_enabled sc sid uid b w =
     (case load_system sid w of
        Inl r \<Rightarrow> (r, w)
      | Inr h \<Rightarrow>
          if \<not> can_operate_host sc h then (failed 403 ''forbidden'', w)
          else
            (case b of
               None \<Rightarrow> (failed 400 ''invalid JSON body'', w)
             | Some on \<Rightarrow>
                 (case set_enabled (sys_id h) uid on w of
                    Inl UpNotFound \<Rightarrow> (failed 404 ''updater is not detected on this system; run Inspect first'', w)
                  | Inl (UpInvalid m) \<Rightarrow> (failed_with 400 (FailStore (UpInvalid m)), w)
                  | Inl _ \<Rightarrow> (failed 500 ''set enabled failed'', w)
                  | Inr w' \<Rightarrow> (replied 204 UpNoContent, w'))))"

section \<open>Custom definitions\<close>

record updater_input =
  ni_name :: string
  ni_desc :: string
  ni_binary :: string
  ni_check :: string
  ni_apply :: string
  ni_check_only :: bool

definition input_updater :: "string \<Rightarrow> string \<Rightarrow> updater_input \<Rightarrow> updater" where
  "input_updater i by' x = \<lparr>up_id = i, up_source = SourceCustom, up_name = trim_space (ni_name x),
     up_desc = trim_space (ni_desc x), up_binary = trim_space (ni_binary x), up_check = ni_check x, up_apply = ni_apply x,
     up_check_only = ni_check_only x, up_exclusions = False, up_holds = False, up_by = by', up_created = 0, up_updated = 0,
     up_deleted = None\<rparr>"

definition guard_updater :: "(string \<Rightarrow> syntax_run) \<Rightarrow> updater \<Rightarrow> (guard_error, unit) result" where
  "guard_updater syntax d =
     guard_bodies syntax (validate_updater d) (up_check d # (if up_check_only d then [] else [up_apply d]))"

definition updater_dto :: "updater \<Rightarrow> updater \<times> bool" where
  "updater_dto d = (d, up_source d = SourceCustom \<or> up_exclusions d)"

definition updater_store_status :: "updater_error \<Rightarrow> nat" where
  "updater_store_status e =
     (case e of UpNotFound \<Rightarrow> 404 | UpDuplicate \<Rightarrow> 409 | UpReserved \<Rightarrow> 400 | UpBuiltinWrite \<Rightarrow> 403 | UpInvalid _ \<Rightarrow> 400 | _ \<Rightarrow> 500)"

definition store_reply :: "updater_error \<Rightarrow> updater_reply" where
  "store_reply e = failed_with (updater_store_status e) (FailStore e)"

definition updater_event :: "run_env \<Rightarrow> string \<Rightarrow> string \<Rightarrow> updater \<Rightarrow> event" where
  "updater_event E act actor d = \<lparr>ev_action = act, ev_outcome = ''success'', ev_actor = actor, ev_target = up_id d,
     ev_label = up_name d,
     ev_detail = [(''check_sha'', DStr (re_sha E (up_check d))), (''apply_sha'', DStr (re_sha E (up_apply d)))]\<rparr>"

definition handle_list_defs :: "run_env \<Rightarrow> 'a fleet_db_scheme \<Rightarrow> updater_reply" where
  "handle_list_defs E w = replied 200 (UpDefs (map updater_dto (registry_all (re_builtins E) w)))"

definition handle_create_def :: "run_env \<Rightarrow> (string \<Rightarrow> syntax_run) \<Rightarrow> scope \<Rightarrow> string \<Rightarrow> int
    \<Rightarrow> (string \<times> updater_input) option \<Rightarrow> 'a fleet_db_scheme \<Rightarrow> updater_reply \<times> 'a fleet_db_scheme" where
  "handle_create_def E syntax sc actor now b w =
     (if \<not> is_global_admin sc then (failed 403 ''forbidden'', w)
      else
        (case b of
           None \<Rightarrow> (failed 400 ''invalid JSON body'', w)
         | Some (raw, x) \<Rightarrow>
             (let i = normalize_custom_id raw; d = input_updater i actor x
              in if i = [] then (failed 400 ''id required'', w)
                 else
                   (case guard_updater syntax d of
                      Inl e \<Rightarrow> (failed_with (guard_status e) (FailGuard e), w)
                    | Inr _ \<Rightarrow>
                        (case registry_create now d w of
                           Inl e \<Rightarrow> (store_reply e, w)
                         | Inr (d', w') \<Rightarrow>
                             (replied 201 (UpDef (updater_dto d')), fleet_log (updater_event E ''updater.create'' actor d') w'))))))"

definition handle_update_def :: "run_env \<Rightarrow> (string \<Rightarrow> syntax_run) \<Rightarrow> scope \<Rightarrow> string \<Rightarrow> int \<Rightarrow> string
    \<Rightarrow> updater_input option \<Rightarrow> 'a fleet_db_scheme \<Rightarrow> updater_reply \<times> 'a fleet_db_scheme" where
  "handle_update_def E syntax sc actor now i b w =
     (if \<not> is_global_admin sc then (failed 403 ''forbidden'', w)
      else if \<not> is_custom_id i then (failed 400 ''id must begin with custom.'', w)
      else
        (case b of
           None \<Rightarrow> (failed 400 ''invalid JSON body'', w)
         | Some x \<Rightarrow>
             (let d = input_updater i [] x
              in case guard_updater syntax d of
                   Inl e \<Rightarrow> (failed_with (guard_status e) (FailGuard e), w)
                 | Inr _ \<Rightarrow>
                     (case registry_update now d w of
                        Inl e \<Rightarrow> (store_reply e, w)
                      | Inr (d', w') \<Rightarrow>
                          (replied 200 (UpDef (updater_dto d')), fleet_log (updater_event E ''updater.update'' actor d') w')))))"

definition handle_delete_def :: "run_env \<Rightarrow> scope \<Rightarrow> string \<Rightarrow> int \<Rightarrow> string \<Rightarrow> 'a fleet_db_scheme
    \<Rightarrow> updater_reply \<times> 'a fleet_db_scheme" where
  "handle_delete_def E sc actor now i w =
     (if \<not> is_global_admin sc then (failed 403 ''forbidden'', w)
      else if \<not> is_custom_id i then (failed 400 ''id must begin with custom.'', w)
      else
        (case registry_get (re_builtins E) i w of
           Inl e \<Rightarrow> (store_reply e, w)
         | Inr d \<Rightarrow>
             (case registry_delete i now w of
                Inl e \<Rightarrow> (store_reply e, w)
              | Inr w' \<Rightarrow> (replied 204 UpNoContent, fleet_log (updater_event E ''updater.delete'' actor d) w'))))"

end
