(* ===== verification/ExporterServer.thy ===== *)
theory ExporterServer
  imports FleetRoutes
begin

text \<open>
  The routes of the exporters (\<open>handler.go\<close> and \<open>admin_handler.go\<close> of
  \<open>src/internal/exporters\<close>) as \<open>cmd/server/main.go\<close> wires them; the probe for the package
  managers of a system is the table of detected updaters.
\<close>

section \<open>Replies\<close>

datatype exporter_fail = FailExport exporter_error | FailExporterGuard guard_error | FailExportRun string export_error

datatype exporter_availability = Available | Unavailable | Unknown

record exporter_view =
  ev_exporter :: exporter
  ev_available :: exporter_availability
  ev_installed :: bool
  ev_scrape :: bool
  ev_state :: string
  ev_port :: int
  ev_service :: string
  ev_status_at :: "int option"
  ev_install_at :: "int option"
  ev_reason :: string

datatype exporter_body =
    XpNoContent
  | XpList string "string list" "exporter_view list"   \<comment> \<open>scrape mode, detected managers, rows\<close>
  | XpRan string string string export_result int
  | XpScrape string bool
  | XpHistory "exporter_run list"
  | XpDefs "exporter list"
  | XpDef exporter

type_synonym exporter_reply = "(exporter_fail, exporter_body) reply"

section \<open>The list\<close>

definition detected_managers :: "string \<Rightarrow> 'a updater_db_scheme \<Rightarrow> string list" where
  "detected_managers sid w = map av_updater (availability_for sid w)"

definition resolve_availability :: "string \<Rightarrow> string list \<Rightarrow> exporter_availability" where
  "resolve_availability mgr detected =
     (if detected = [] then Unknown else if mgr \<in> set detected then Available else Unavailable)"

text \<open>A removed exporter keeps its times and reason, but not its port and service.\<close>

definition exporter_view_of :: "string \<Rightarrow> 'a site_db_scheme \<Rightarrow> exporter \<Rightarrow> exporter_view" where
  "exporter_view_of sid w d =
     (let v = \<lparr>ev_exporter = d, ev_available = resolve_availability (xp_manager d) (detected_managers sid w),
            ev_installed = False, ev_scrape = True, ev_state = [], ev_port = 0, ev_service = [], ev_status_at = None,
            ev_install_at = None, ev_reason = []\<rparr>
      in case find (\<lambda>r. se_exporter r = xp_id d) (list_system_exporters sid w) of
           None \<Rightarrow> v
         | Some r \<Rightarrow>
             if se_state r \<noteq> state_removed
             then v\<lparr>ev_installed := True, ev_scrape := se_scrape r, ev_state := se_state r, ev_port := se_port r,
                    ev_service := se_service r, ev_status_at := se_status_at r, ev_install_at := se_install_at r,
                    ev_reason := se_reason r\<rparr>
             else v\<lparr>ev_scrape := se_scrape r, ev_state := state_removed, ev_status_at := se_status_at r,
                    ev_install_at := se_install_at r, ev_reason := se_reason r\<rparr>)"

definition handle_list_exporters :: "export_env \<Rightarrow> scope \<Rightarrow> string \<Rightarrow> 'a site_db_scheme \<Rightarrow> exporter_reply" where
  "handle_list_exporters X sc sid w =
     (case load_system sid w of
        Inl r \<Rightarrow> r
      | Inr h \<Rightarrow> if \<not> can_read_host sc h then failed 404 ''system not found''
                 else replied 200 (XpList (get_scrape_mode (sys_id h) w) (detected_managers (sys_id h) w)
                        (map (exporter_view_of (sys_id h) w) (all_exporters (xe_builtins X) w))))"

section \<open>Runs\<close>

text \<open>\<open>isConflict\<close> of an error: by its identity or by its text.\<close>

definition export_conflict :: "export_error \<Rightarrow> bool" where
  "export_conflict e =
     (case e of ExpConflict \<Rightarrow> True | ExpStore x \<Rightarrow> x = XpConflict | ExpLock m \<Rightarrow> is_conflict_text m | ExpAnsible m \<Rightarrow> is_conflict_text m)"

definition export_error_reply :: "string \<Rightarrow> string \<Rightarrow> export_error \<Rightarrow> 'a site_db_scheme \<Rightarrow> exporter_reply" where
  "export_error_reply kind sid e w =
     (if export_conflict e
      then (409, Inl (FailConflict ''another run is in progress for this system'' (conflicting_run sid w)))
      else
        (case e of
           ExpStore XpNoRemove \<Rightarrow> failed_with 400 (FailExport XpNoRemove)
         | ExpStore XpNotFound \<Rightarrow> failed_with 404 (FailExport XpNotFound)
         | ExpStore (XpInvalid m) \<Rightarrow> failed_with 400 (FailExport (XpInvalid m))
         | _ \<Rightarrow> failed_with 500 (FailExportRun kind e)))"

definition start_export :: "export_env \<Rightarrow> bool \<Rightarrow> scope \<Rightarrow> string \<Rightarrow> string \<Rightarrow> string \<Rightarrow> string \<Rightarrow> string \<Rightarrow> int
    \<Rightarrow> 'a site_db_scheme \<Rightarrow> (exporter_reply, export_call) result" where
  "start_export X draining sc actor sid xid kind rid now w =
     (if draining then Inl draining_reply
      else rbind (load_system sid w) (\<lambda>h.
        if \<not> can_operate_host sc h then Inl (failed 403 ''forbidden'')
        else map_err (\<lambda>e. export_error_reply kind (sys_id h) (ExpStore e) w)
               (begin_export X actor (sys_id h) xid kind rid now w)))"

definition export_reply :: "export_call \<Rightarrow> export_outcome \<Rightarrow> 'a site_db_scheme \<Rightarrow> exporter_reply" where
  "export_reply c res w =
     (case res of
        (Some e, _) \<Rightarrow> export_error_reply (xc_kind c) (xc_system c) e w
      | (None, r) \<Rightarrow> replied 200 (XpRan (xc_id c) (xc_exporter c) (xc_kind c) r 0))"

section \<open>Scraping\<close>

definition scrape_event :: "string \<Rightarrow> string \<Rightarrow> string \<Rightarrow> bool \<Rightarrow> event" where
  "scrape_event actor sid xid on =
     \<lparr>ev_action = (if on then ''system.exporter.scrape.enable'' else ''system.exporter.scrape.disable''),
      ev_outcome = ''success'', ev_actor = actor, ev_target = sid, ev_label = [],
      ev_detail = [(''exporter_id'', DStr xid)]\<rparr>"

definition handle_set_scrape :: "scope \<Rightarrow> string \<Rightarrow> string \<Rightarrow> string \<Rightarrow> bool option \<Rightarrow> 'a site_db_scheme
    \<Rightarrow> exporter_reply \<times> 'a site_db_scheme" where
  "handle_set_scrape sc actor sid xid b w =
     (case load_system sid w of
        Inl r \<Rightarrow> (r, w)
      | Inr h \<Rightarrow>
          if \<not> can_operate_host sc h then (failed 403 ''forbidden'', w)
          else if xid = [] then (failed 400 ''exporter id required'', w)
          else
            (case b of
               None \<Rightarrow> (failed 400 ''invalid JSON body'', w)
             | Some on \<Rightarrow>
                 (case set_scrape_enabled (sys_id h) xid on w of
                    Inl e \<Rightarrow> (if e = XpNotFound then failed 404 ''exporter is not installed on this system''
                              else failed 500 ''set scrape failed'', w)
                  | Inr (moved, w1) \<Rightarrow>
                      (let w2 = (if moved then broadcast ''systems.changed'' (fleet_log (scrape_event actor (sys_id h) xid on) w1)
                                 else w1)
                       in (case get_system_exporter (sys_id h) xid w2 of
                             Inl _ \<Rightarrow> failed 500 ''load exporter row failed''
                           | Inr r \<Rightarrow> replied 200 (XpScrape xid (se_scrape r)), w2)))))"

definition handle_set_mode :: "scope \<Rightarrow> string \<Rightarrow> string option \<Rightarrow> 'a site_db_scheme \<Rightarrow> exporter_reply \<times> 'a site_db_scheme" where
  "handle_set_mode sc sid b w =
     (case load_system sid w of
        Inl r \<Rightarrow> (r, w)
      | Inr h \<Rightarrow>
          if \<not> can_operate_host sc h then (failed 403 ''forbidden'', w)
          else
            (case b of
               None \<Rightarrow> (failed 400 ''invalid JSON body'', w)
             | Some m \<Rightarrow>
                 if \<not> scrape_mode_valid m then (failed 400 ''invalid scrape mode'', w)
                 else if m \<noteq> scrape_localhost
                 then (failed 400 ''only the 'localhost' scrape mode is supported in this release'', w)
                 else
                   (case set_scrape_mode (sys_id h) m w of
                      Inl (XpInvalid e) \<Rightarrow> (failed_with 400 (FailExport (XpInvalid e)), w)
                    | Inl _ \<Rightarrow> (failed 500 ''set scrape mode failed'', w)
                    | Inr w' \<Rightarrow> (replied 204 XpNoContent, w'))))"

definition handle_exporter_runs :: "scope \<Rightarrow> string \<Rightarrow> int option \<Rightarrow> 'a site_db_scheme \<Rightarrow> exporter_reply" where
  "handle_exporter_runs sc sid l w =
     (case load_system sid w of
        Inl r \<Rightarrow> r
      | Inr h \<Rightarrow> if \<not> can_read_host sc h then failed 404 ''system not found''
                 else replied 200 (XpHistory (list_exporter_runs (sys_id h) (history_limit l) w)))"

section \<open>Custom definitions\<close>

record exporter_input =
  xi_name :: string
  xi_desc :: string
  xi_manager :: string
  xi_kind :: string
  xi_port :: int
  xi_install :: string
  xi_status :: string
  xi_remove :: string

definition input_exporter :: "string \<Rightarrow> string \<Rightarrow> exporter_input \<Rightarrow> exporter" where
  "input_exporter i by' x = \<lparr>xp_id = i, xp_source = SourceCustom, xp_name = trim_space (xi_name x),
     xp_desc = trim_space (xi_desc x), xp_manager = trim_space (xi_manager x), xp_kind = xi_kind x, xp_port = xi_port x,
     xp_install = xi_install x, xp_status = xi_status x, xp_remove = xi_remove x, xp_by = by', xp_created = 0,
     xp_updated = 0, xp_deleted = None\<rparr>"

definition guard_exporter :: "(string \<Rightarrow> syntax_run) \<Rightarrow> exporter \<Rightarrow> (guard_error, unit) result" where
  "guard_exporter syntax d =
     guard_bodies syntax (validate_exporter d)
       ([xp_install d, xp_status d] @ (if has_remove d then [xp_remove d] else []))"

definition exporter_store_status :: "exporter_error \<Rightarrow> nat" where
  "exporter_store_status e =
     (case e of XpNotFound \<Rightarrow> 404 | XpDuplicate \<Rightarrow> 409 | XpReserved \<Rightarrow> 400 | XpBuiltinWrite \<Rightarrow> 403 | XpInvalid _ \<Rightarrow> 400 | _ \<Rightarrow> 500)"

definition exporter_store_reply :: "exporter_error \<Rightarrow> exporter_reply" where
  "exporter_store_reply e = failed_with (exporter_store_status e) (FailExport e)"

definition exporter_event :: "export_env \<Rightarrow> string \<Rightarrow> string \<Rightarrow> exporter \<Rightarrow> event" where
  "exporter_event X act actor d = \<lparr>ev_action = act, ev_outcome = ''success'', ev_actor = actor, ev_target = xp_id d,
     ev_label = xp_name d,
     ev_detail = [(''install_sha'', DStr (xe_sha X (xp_install d))), (''status_sha'', DStr (xe_sha X (xp_status d)))] @
       (if has_remove d then [(''remove_sha'', DStr (xe_sha X (xp_remove d)))] else []) @
       [(''applies_to_pkg_manager'', DStr (xp_manager d)), (''exporter_kind'', DStr (xp_kind d)), (''bind_port'', DInt (xp_port d))]\<rparr>"

definition handle_list_exporter_defs :: "export_env \<Rightarrow> 'a site_db_scheme \<Rightarrow> exporter_reply" where
  "handle_list_exporter_defs X w = replied 200 (XpDefs (all_exporters (xe_builtins X) w))"

definition handle_create_exporter :: "export_env \<Rightarrow> (string \<Rightarrow> syntax_run) \<Rightarrow> scope \<Rightarrow> string \<Rightarrow> int
    \<Rightarrow> (string \<times> exporter_input) option \<Rightarrow> 'a site_db_scheme \<Rightarrow> exporter_reply \<times> 'a site_db_scheme" where
  "handle_create_exporter X syntax sc actor now b w =
     (if \<not> is_global_admin sc then (failed 403 ''forbidden'', w)
      else
        (case b of
           None \<Rightarrow> (failed 400 ''invalid JSON body'', w)
         | Some (raw, x) \<Rightarrow>
             (let i = normalize_custom_id raw; d = input_exporter i actor x
              in if i = [] then (failed 400 ''id required'', w)
                 else
                   (case guard_exporter syntax d of
                      Inl e \<Rightarrow> (failed_with (guard_status e) (FailExporterGuard e), w)
                    | Inr _ \<Rightarrow>
                        (case create_exporter now d w of
                           Inl e \<Rightarrow> (exporter_store_reply e, w)
                         | Inr (d', w') \<Rightarrow> (replied 201 (XpDef d'), fleet_log (exporter_event X ''exporter.create'' actor d') w'))))))"

definition handle_update_exporter :: "export_env \<Rightarrow> (string \<Rightarrow> syntax_run) \<Rightarrow> scope \<Rightarrow> string \<Rightarrow> int \<Rightarrow> string
    \<Rightarrow> exporter_input option \<Rightarrow> 'a site_db_scheme \<Rightarrow> exporter_reply \<times> 'a site_db_scheme" where
  "handle_update_exporter X syntax sc actor now i b w =
     (if \<not> is_global_admin sc then (failed 403 ''forbidden'', w)
      else if \<not> is_custom_id i then (failed 400 ''id must begin with custom.'', w)
      else
        (case b of
           None \<Rightarrow> (failed 400 ''invalid JSON body'', w)
         | Some x \<Rightarrow>
             (let d = input_exporter i [] x
              in case guard_exporter syntax d of
                   Inl e \<Rightarrow> (failed_with (guard_status e) (FailExporterGuard e), w)
                 | Inr _ \<Rightarrow>
                     (case update_exporter now d w of
                        Inl e \<Rightarrow> (exporter_store_reply e, w)
                      | Inr (d', w') \<Rightarrow> (replied 200 (XpDef d'), fleet_log (exporter_event X ''exporter.update'' actor d') w')))))"

definition handle_delete_exporter :: "export_env \<Rightarrow> scope \<Rightarrow> string \<Rightarrow> int \<Rightarrow> string \<Rightarrow> 'a site_db_scheme
    \<Rightarrow> exporter_reply \<times> 'a site_db_scheme" where
  "handle_delete_exporter X sc actor now i w =
     (if \<not> is_global_admin sc then (failed 403 ''forbidden'', w)
      else if \<not> is_custom_id i then (failed 400 ''id must begin with custom.'', w)
      else
        (case get_exporter (xe_builtins X) i w of
           Inl e \<Rightarrow> (exporter_store_reply e, w)
         | Inr d \<Rightarrow>
             (case delete_exporter i now w of
                Inl e \<Rightarrow> (exporter_store_reply e, w)
              | Inr w' \<Rightarrow> (replied 204 XpNoContent, fleet_log (exporter_event X ''exporter.delete'' actor d) w'))))"

end
