(* ===== verification/RuleServer.thy ===== *)
theory RuleServer
  imports FleetRoutes
begin

text \<open>
  The ten routes of the package exclusions (\<open>src/internal/exclusions/handler.go\<close>) with the
  gates \<open>cmd/server/main.go\<close> gives them, and what they keep: a route writes into the layer
  it names and into no other.
\<close>

section \<open>Replies and gates\<close>

datatype rule_body =
    RuleNoContent
  | RuleList "exclusion list"
  | RuleMade string exclusion      \<comment> \<open>with the \<open>Location\<close> header\<close>

type_synonym rule_reply = "(exclusion_error, rule_body) reply"

definition gate_read_system :: "scope \<Rightarrow> string \<Rightarrow> 'a host_db_scheme \<Rightarrow> bool" where
  "gate_read_system sc i w = (case get_host i w of Inl _ \<Rightarrow> False | Inr h \<Rightarrow> can_read_host sc h)"

text \<open>A global operator passes for a system that does not exist.\<close>

definition gate_manage_system :: "scope \<Rightarrow> string \<Rightarrow> 'a host_db_scheme \<Rightarrow> bool" where
  "gate_manage_system sc i w =
     (is_global_operator sc \<or>
      (case get_host i w of
         Inl _ \<Rightarrow> False
       | Inr h \<Rightarrow> (case sys_group h of None \<Rightarrow> False | Some g \<Rightarrow> can_operate_group sc g)))"

definition rule_event :: "string \<Rightarrow> string \<Rightarrow> exclusion \<Rightarrow> event" where
  "rule_event act actor e = \<lparr>ev_action = act, ev_outcome = ''success'', ev_actor = actor, ev_target = ex_id e,
     ev_label = [],
     ev_detail = [(''scope'', DStr (ex_scope e)), (''target_id'', DStr (ex_target e)), (''updater'', DStr (ex_updater e)),
       (''pattern'', DStr (ex_pattern e))]\<rparr>"

definition location_for :: "string \<Rightarrow> string \<Rightarrow> exclusion \<Rightarrow> string" where
  "location_for layer t e =
     (if layer = scope_group then ''/api/groups/'' @ t @ ''/package-exclusions/'' @ ex_id e
      else if layer = scope_system then ''/api/systems/'' @ t @ ''/package-exclusions/'' @ ex_id e
      else ''/api/admin/package-exclusions/'' @ ex_id e)"

section \<open>The bodies the routes share\<close>

definition create_rule_scope :: "string \<Rightarrow> string \<Rightarrow> int \<Rightarrow> string \<Rightarrow> string \<Rightarrow> exclusion_input option \<Rightarrow> 'a fleet_db_scheme
    \<Rightarrow> rule_reply \<times> 'a fleet_db_scheme" where
  "create_rule_scope actor i now layer t b w =
     (case b of
        None \<Rightarrow> (failed 400 ''invalid JSON'', w)
      | Some x \<Rightarrow>
          (case validate_exclusion x of
             Inl e \<Rightarrow> (failed_with 400 e, w)
           | Inr _ \<Rightarrow>
               if actor = [] then (failed 401 ''unauthenticated'', w)
               else
                 (case create_exclusion i now layer t x actor w of
                    Inl (ExInvalid m) \<Rightarrow> (failed_with 400 (ExInvalid m), w)
                  | Inl ExDuplicate \<Rightarrow> (failed_with 409 ExDuplicate, w)
                  | Inl _ \<Rightarrow> (failed 500 ''create exclusion failed'', w)
                  | Inr (e, w') \<Rightarrow>
                      (replied 201 (RuleMade (location_for layer t e) e),
                       fleet_log (rule_event ''package_exclusion.create'' actor e) w'))))"

definition delete_rule_guarded :: "string \<Rightarrow> string \<Rightarrow> string \<Rightarrow> string \<Rightarrow> 'a fleet_db_scheme
    \<Rightarrow> rule_reply \<times> 'a fleet_db_scheme" where
  "delete_rule_guarded actor i layer t w =
     (case get_exclusion i w of
        Inl ExNotFound \<Rightarrow> (failed 404 ''exclusion not found'', w)
      | Inl _ \<Rightarrow> (failed 500 ''load exclusion failed'', w)
      | Inr e \<Rightarrow>
          if ex_scope e \<noteq> layer \<or> ex_target e \<noteq> t then (failed 404 ''exclusion not found'', w)
          else
            (case delete_exclusion i w of
               Inl ExNotFound \<Rightarrow> (failed 404 ''exclusion not found'', w)
             | Inl _ \<Rightarrow> (failed 500 ''delete exclusion failed'', w)
             | Inr w' \<Rightarrow> (replied 204 RuleNoContent, fleet_log (rule_event ''package_exclusion.delete'' actor e) w')))"

section \<open>The routes\<close>

definition handle_list_global :: "'a fleet_db_scheme \<Rightarrow> rule_reply" where
  "handle_list_global w = replied 200 (RuleList (list_global w))"

definition handle_create_global :: "scope \<Rightarrow> string \<Rightarrow> string \<Rightarrow> int \<Rightarrow> exclusion_input option \<Rightarrow> 'a fleet_db_scheme
    \<Rightarrow> rule_reply \<times> 'a fleet_db_scheme" where
  "handle_create_global sc actor i now b w =
     (if \<not> is_global_admin sc then (failed 403 ''forbidden'', w)
      else create_rule_scope actor i now scope_global [] b w)"

definition handle_delete_global :: "scope \<Rightarrow> string \<Rightarrow> string \<Rightarrow> 'a fleet_db_scheme \<Rightarrow> rule_reply \<times> 'a fleet_db_scheme" where
  "handle_delete_global sc actor i w =
     (if \<not> is_global_admin sc then (failed 403 ''forbidden'', w) else delete_rule_guarded actor i scope_global [] w)"

definition handle_list_group_rules :: "scope \<Rightarrow> string \<Rightarrow> 'a fleet_db_scheme \<Rightarrow> rule_reply" where
  "handle_list_group_rules sc g w =
     (if \<not> can_read_group sc g then failed 404 ''group not found'' else replied 200 (RuleList (list_group g w)))"

definition handle_create_group_rule :: "scope \<Rightarrow> string \<Rightarrow> string \<Rightarrow> int \<Rightarrow> string \<Rightarrow> exclusion_input option
    \<Rightarrow> 'a fleet_db_scheme \<Rightarrow> rule_reply \<times> 'a fleet_db_scheme" where
  "handle_create_group_rule sc actor i now g b w =
     (if \<not> can_admin_group sc g then (failed 403 ''forbidden'', w) else create_rule_scope actor i now scope_group g b w)"

definition handle_delete_group_rule :: "scope \<Rightarrow> string \<Rightarrow> string \<Rightarrow> string \<Rightarrow> 'a fleet_db_scheme
    \<Rightarrow> rule_reply \<times> 'a fleet_db_scheme" where
  "handle_delete_group_rule sc actor g i w =
     (if \<not> can_admin_group sc g then (failed 403 ''forbidden'', w) else delete_rule_guarded actor i scope_group g w)"

definition handle_list_system_rules :: "scope \<Rightarrow> string \<Rightarrow> 'a fleet_db_scheme \<Rightarrow> rule_reply" where
  "handle_list_system_rules sc sid w =
     (if \<not> gate_read_system sc sid w then failed 404 ''system not found'' else replied 200 (RuleList (list_system sid w)))"

definition handle_create_system_rule :: "scope \<Rightarrow> string \<Rightarrow> string \<Rightarrow> int \<Rightarrow> string \<Rightarrow> exclusion_input option
    \<Rightarrow> 'a fleet_db_scheme \<Rightarrow> rule_reply \<times> 'a fleet_db_scheme" where
  "handle_create_system_rule sc actor i now sid b w =
     (if \<not> gate_manage_system sc sid w then (failed 403 ''forbidden'', w) else create_rule_scope actor i now scope_system sid b w)"

definition handle_delete_system_rule :: "scope \<Rightarrow> string \<Rightarrow> string \<Rightarrow> string \<Rightarrow> 'a fleet_db_scheme
    \<Rightarrow> rule_reply \<times> 'a fleet_db_scheme" where
  "handle_delete_system_rule sc actor sid i w =
     (if \<not> gate_manage_system sc sid w then (failed 403 ''forbidden'', w) else delete_rule_guarded actor i scope_system sid w)"

definition handle_effective :: "scope \<Rightarrow> string \<Rightarrow> string \<Rightarrow> 'a fleet_db_scheme \<Rightarrow> rule_reply" where
  "handle_effective sc sid uid w =
     (if \<not> gate_read_system sc sid w then failed 404 ''system not found''
      else if uid = [] then failed 400 ''updater query parameter required''
      else (case resolve_raw sid uid w of
              Inl (ExInvalid m) \<Rightarrow> failed_with 400 (ExInvalid m)
            | Inl _ \<Rightarrow> failed 500 ''resolve effective exclusions failed''
            | Inr rows \<Rightarrow> replied 200 (RuleList rows)))"

section \<open>All of them\<close>

datatype rule_route =
    ListGlobalRules
  | CreateGlobalRule "exclusion_input option"
  | DeleteGlobalRule string
  | ListGroupRules string
  | CreateGroupRule string "exclusion_input option"
  | DeleteGroupRule string string        \<comment> \<open>the group, the rule\<close>
  | ListSystemRules string
  | CreateSystemRule string "exclusion_input option"
  | DeleteSystemRule string string       \<comment> \<open>the system, the rule\<close>
  | EffectiveRules string string         \<comment> \<open>the system, the updater\<close>

definition serve_rules :: "scope \<Rightarrow> string \<Rightarrow> string \<Rightarrow> int \<Rightarrow> rule_route \<Rightarrow> 'a fleet_db_scheme \<Rightarrow> rule_reply \<times> 'a fleet_db_scheme" where
  "serve_rules sc actor i now q w =
     (case q of
        ListGlobalRules \<Rightarrow> (handle_list_global w, w)
      | CreateGlobalRule b \<Rightarrow> handle_create_global sc actor i now b w
      | DeleteGlobalRule r \<Rightarrow> handle_delete_global sc actor r w
      | ListGroupRules g \<Rightarrow> (handle_list_group_rules sc g w, w)
      | CreateGroupRule g b \<Rightarrow> handle_create_group_rule sc actor i now g b w
      | DeleteGroupRule g r \<Rightarrow> handle_delete_group_rule sc actor g r w
      | ListSystemRules s \<Rightarrow> (handle_list_system_rules sc s w, w)
      | CreateSystemRule s b \<Rightarrow> handle_create_system_rule sc actor i now s b w
      | DeleteSystemRule s r \<Rightarrow> handle_delete_system_rule sc actor s r w
      | EffectiveRules s u \<Rightarrow> (handle_effective sc s u w, w))"

section \<open>What the routes keep\<close>

text \<open>Who may write the layer a rule is in.\<close>

definition governs :: "scope \<Rightarrow> 'a host_db_scheme \<Rightarrow> exclusion \<Rightarrow> bool" where
  "governs sc w e =
     (if ex_scope e = scope_global then is_global_admin sc
      else if ex_scope e = scope_group then can_admin_group sc (ex_target e)
      else gate_manage_system sc (ex_target e) w)"

text \<open>The rules a request adds or removes.\<close>

definition touched :: "'a rules_db_scheme \<Rightarrow> 'b rules_db_scheme \<Rightarrow> exclusion set" where
  "touched w w' = (set (rd_exclusions w) - set (rd_exclusions w')) \<union> (set (rd_exclusions w') - set (rd_exclusions w))"

definition rules_sound :: "'a rules_db_scheme \<Rightarrow> bool" where
  "rules_sound w =
     (distinct (map ex_id (rd_exclusions w)) \<and>
      distinct (map (\<lambda>e. (ex_scope e, ex_target e, ex_updater e, ex_pattern e)) (rd_exclusions w)) \<and>
      (\<forall>e \<in> set (rd_exclusions w). scope_valid (ex_scope e) \<and> (ex_scope e = scope_global \<longleftrightarrow> ex_target e = []) \<and>
         updater_pattern (ex_updater e) \<and> ex_pattern e \<noteq> [] \<and> length (ex_pattern e) \<le> max_pattern_len))"

lemma fleet_log_rules [simp]: "rd_exclusions (fleet_log e w) = rd_exclusions w"
  by (simp add: fleet_log_def)

lemma create_rule_rows:
  assumes "create_rule_scope actor i now layer t b w = (r, w')"
  shows "w' = w \<or> (\<exists>x e. b = Some x \<and> validate_exclusion x = Inr () \<and> create_exclusion i now layer t x actor w \<noteq> Inl ExDuplicate \<and>
     ex_scope e = layer \<and> ex_target e = t \<and> ex_id e = i \<and> ex_updater e = trim_space (xi_updater x) \<and>
     ex_pattern e = trim_space (xi_pattern x) \<and> scope_valid layer \<and> (layer = scope_global \<longleftrightarrow> t = []) \<and>
     exclusion_at i w = None \<and> \<not> list_ex (same_rule e) (rd_exclusions w) \<and>
     rd_exclusions w' = rd_exclusions w @ [e])"
  using assms
  by (auto simp: create_rule_scope_def create_exclusion_def Let_def split: option.splits sum.splits if_splits exclusion_error.splits)

lemma delete_rule_rows:
  assumes "delete_rule_guarded actor i layer t w = (r, w')"
  shows "w' = w \<or> (\<exists>e. exclusion_at i w = Some e \<and> ex_scope e = layer \<and> ex_target e = t \<and>
     rd_exclusions w' = delete_where (\<lambda>e. ex_id e = i) (rd_exclusions w))"
  using assms
  by (auto simp: delete_rule_guarded_def get_exclusion_def delete_exclusion_def split: option.splits sum.splits if_splits exclusion_error.splits)

lemma touched_self [simp]: "touched w w = {}"
  by (simp add: touched_def)

lemma create_rule_keeps:
  assumes "rules_sound w" "create_rule_scope actor i now layer t b w = (r, w')"
  shows "rules_sound w' \<and> (\<forall>e \<in> touched w w'. ex_scope e = layer \<and> ex_target e = t)"
  using create_rule_rows [OF assms(2)]
proof (elim disjE exE conjE)
  assume "w' = w" then show ?thesis using assms(1) by simp
next
  fix x e
  assume v: "validate_exclusion x = Inr ()" and f: "exclusion_at i w = None" "\<not> list_ex (same_rule e) (rd_exclusions w)"
    and e: "ex_scope e = layer" "ex_target e = t" "ex_id e = i" "ex_updater e = trim_space (xi_updater x)"
      "ex_pattern e = trim_space (xi_pattern x)" "scope_valid layer" "(layer = scope_global) = (t = [])"
    and w': "rd_exclusions w' = rd_exclusions w @ [e]"
  have "updater_pattern (ex_updater e) \<and> ex_pattern e \<noteq> [] \<and> length (ex_pattern e) \<le> max_pattern_len"
    using v unfolding e validate_exclusion_def Let_def by (simp split: if_splits)
  moreover have "ex_id e \<notin> ex_id ` set (rd_exclusions w)"
    using f(1) e(3) by (auto simp: exclusion_at_def find_None_iff)
  moreover have "(ex_scope e, ex_target e, ex_updater e, ex_pattern e) \<notin>
      (\<lambda>e. (ex_scope e, ex_target e, ex_updater e, ex_pattern e)) ` set (rd_exclusions w)"
    using f(2) by (auto simp: list_ex_iff same_rule_def)
  ultimately show ?thesis using assms(1) e unfolding rules_sound_def w' touched_def by auto
qed

lemma delete_rule_keeps:
  assumes "rules_sound w" "delete_rule_guarded actor i layer t w = (r, w')"
  shows "rules_sound w' \<and> (\<forall>e \<in> touched w w'. ex_scope e = layer \<and> ex_target e = t)"
  using delete_rule_rows [OF assms(2)]
proof (elim disjE exE conjE)
  assume "w' = w" then show ?thesis using assms(1) by simp
next
  fix e
  assume f: "exclusion_at i w = Some e" and e: "ex_scope e = layer" "ex_target e = t"
    and w': "rd_exclusions w' = delete_where (\<lambda>e. ex_id e = i) (rd_exclusions w)"
  have "\<forall>x \<in> set (rd_exclusions w). ex_id x = i \<longrightarrow> x = e"
  proof -
    have "e \<in> set (rd_exclusions w) \<and> ex_id e = i" using f by (auto simp: exclusion_at_def dest: find_Some_in)
    moreover have "inj_on ex_id (set (rd_exclusions w))" using assms(1) by (simp add: rules_sound_def distinct_map)
    ultimately show ?thesis by (auto simp: inj_on_def)
  qed
  then show ?thesis using assms(1) e unfolding rules_sound_def touched_def w'
    by (auto simp: distinct_map_delete_where)
qed

text \<open>
  C29: no request adds or removes an exclusion rule of a layer its user does not govern (the
  global rules without being a global admin, those of a group without being an admin of it, those of
  a system without being an operator of it), and the table stays sound: ids and rules are
  unique, every rule has a valid scope with a target exactly when it is not global, an updater
  pattern and a pattern within bounds.
\<close>

theorem rule_routes_keep_to_their_layer:
  assumes "rules_sound w" "serve_rules sc actor i now q w = (r, w')"
  shows "rules_sound w' \<and> (\<forall>e \<in> touched w w'. governs sc w e)"
proof (cases q)
  case (CreateGlobalRule b)
  with assms show ?thesis using create_rule_keeps [OF assms(1), of actor i now scope_global "[]" b r w']
    by (auto simp: serve_rules_def handle_create_global_def governs_def split: if_splits)
next
  case (DeleteGlobalRule b)
  with assms show ?thesis using delete_rule_keeps [OF assms(1), of actor b scope_global "[]" r w']
    by (auto simp: serve_rules_def handle_delete_global_def governs_def split: if_splits)
next
  case (CreateGroupRule g b)
  with assms show ?thesis using create_rule_keeps [OF assms(1), of actor i now scope_group g b r w']
    by (auto simp: serve_rules_def handle_create_group_rule_def governs_def exclusion_scopes split: if_splits)
next
  case (DeleteGroupRule g b)
  with assms show ?thesis using delete_rule_keeps [OF assms(1), of actor b scope_group g r w']
    by (auto simp: serve_rules_def handle_delete_group_rule_def governs_def exclusion_scopes split: if_splits)
next
  case (CreateSystemRule g b)
  with assms show ?thesis using create_rule_keeps [OF assms(1), of actor i now scope_system g b r w']
    by (auto simp: serve_rules_def handle_create_system_rule_def governs_def exclusion_scopes split: if_splits)
next
  case (DeleteSystemRule g b)
  with assms show ?thesis using delete_rule_keeps [OF assms(1), of actor b scope_system g r w']
    by (auto simp: serve_rules_def handle_delete_system_rule_def governs_def exclusion_scopes split: if_splits)
qed (use assms in \<open>simp_all add: serve_rules_def\<close>)

definition demo_rules :: fleet_db where
  "demo_rules = \<lparr>hd_hosts = [fresh_host ''s'' 1 (''web'', ''web.lan'')], ld_locks = [], ud_defs = [], ud_avail = [],
     ud_runs = [], rd_exclusions = [], rd_holds = [], fd_audit = [], fd_notes = []\<rparr>"

definition demo_rule_route :: rule_route where
  "demo_rule_route = CreateSystemRule ''s'' (Some \<lparr>xi_updater = ''*'', xi_pattern = ''kernel*'', xi_reason = []\<rparr>)"

definition operator_scope :: scope where
  "operator_scope = \<lparr>sc_user = ''ann'', sc_rows = [], sc_global = role_operator, sc_groups = []\<rparr>"

definition demo_ruled :: fleet_db where
  "demo_ruled = snd (serve_rules operator_scope ''ann'' ''r'' 5 demo_rule_route demo_rules)"

lemma rule_routes_keep_to_their_layer_witness:
  "rules_sound demo_ruled \<and> map ex_pattern (rd_exclusions demo_ruled) = [''kernel*''] \<and>
   governs operator_scope demo_rules (hd (rd_exclusions demo_ruled))"
proof -
  obtain r where "serve_rules operator_scope ''ann'' ''r'' 5 demo_rule_route demo_rules = (r, demo_ruled)"
    unfolding demo_ruled_def by (metis prod.collapse)
  moreover have "rules_sound demo_rules" by (simp add: rules_sound_def demo_rules_def)
  ultimately have k: "rules_sound demo_ruled" "\<forall>e \<in> touched demo_rules demo_ruled. governs operator_scope demo_rules e"
    using rule_routes_keep_to_their_layer by blast+
  have p: "map ex_pattern (rd_exclusions demo_ruled) = [''kernel*'']" unfolding demo_ruled_def by code_simp
  then have "hd (rd_exclusions demo_ruled) \<in> set (rd_exclusions demo_ruled)" by (metis list.set_sel(1) map_is_Nil_conv not_Cons_self2)
  then have "hd (rd_exclusions demo_ruled) \<in> touched demo_rules demo_ruled" by (simp add: touched_def demo_rules_def)
  with k p show ?thesis by blast
qed

end
