(* ===== verification/SystemGroups.thy ===== *)
theory SystemGroups
  imports Fleet
begin

text \<open>
  Groups of systems (\<open>src/internal/groups\<close>): the validation of a name, the interface
  \<open>Store\<close> (\<open>store.go\<close>) as a locale, and its two implementations, \<open>SQLiteStore\<close>
  (\<open>sqlite_store.go\<close>) and \<open>MemStore\<close> (\<open>memstore.go\<close>), each interpreted. Membership
  is a column of the table of systems. Instants are nanoseconds since 1970.
\<close>

section \<open>Groups\<close>

definition max_name_len :: nat where "max_name_len = 255"

datatype group_error = GroupNotFound | GroupInvalid string | GroupDuplicate | GroupSql

record group_row =
  gr_id :: string
  gr_name :: string
  gr_created :: int

text \<open>\<open>Group\<close> is the row with its \<open>SystemCount\<close>.\<close>

type_synonym system_group = "group_row \<times> nat"

definition validate_group :: "string \<Rightarrow> (group_error, unit) result" where
  "validate_group n =
     (if trim_space n = [] then Inl (GroupInvalid ''name is required'')
      else if max_name_len < length (trim_space n) then Inl (GroupInvalid ''name exceeds 255 chars'')
      else Inr ())"

definition group_order :: "group_row \<Rightarrow> int \<times> string" where
  "group_order r = (gr_created r, gr_id r)"

section \<open>The interface\<close>

locale group_store =
  fixes sound :: "'s \<Rightarrow> bool"
    and rows :: "'s \<Rightarrow> string \<Rightarrow> group_row option"
    and members :: "'s \<Rightarrow> string \<Rightarrow> nat"
    and create :: "string \<Rightarrow> int \<Rightarrow> string \<Rightarrow> 's \<Rightarrow> (group_error, system_group \<times> 's) result"
    and get :: "string \<Rightarrow> 's \<Rightarrow> (group_error, system_group) result"
    and listing :: "'s \<Rightarrow> system_group list"
    and rename :: "string \<Rightarrow> string \<Rightarrow> 's \<Rightarrow> (group_error, system_group \<times> 's) result"
    and remove :: "string \<Rightarrow> 's \<Rightarrow> (group_error, 's) result"
  assumes create_spec: "sound s \<Longrightarrow> rows s i = None \<Longrightarrow> create i now n s = Inr (g, s') \<Longrightarrow>
      sound s' \<and> validate_group n = Inr () \<and> g = (\<lparr>gr_id = i, gr_name = trim_space n, gr_created = now\<rparr>, 0)
      \<and> rows s' = (rows s)(i \<mapsto> fst g) \<and> members s' = members s"
    and get_spec: "sound s \<Longrightarrow>
      get i s = (case rows s i of None \<Rightarrow> Inl GroupNotFound | Some r \<Rightarrow> Inr (r, members s i))"
    and listing_spec: "sound s \<Longrightarrow> distinct (listing s) \<and> sorted (map (group_order \<circ> fst) (listing s))
      \<and> set (listing s) = (\<lambda>r. (r, members s (gr_id r))) ` ran (rows s)"
    and own_id: "sound s \<Longrightarrow> rows s i = Some r \<Longrightarrow> gr_id r = i"
    and rename_spec: "sound s \<Longrightarrow> rename i n s = Inr (g, s') \<Longrightarrow>
      sound s' \<and> validate_group n = Inr () \<and> (\<exists>r. rows s i = Some r \<and> g = (r\<lparr>gr_name := trim_space n\<rparr>, members s i))
      \<and> rows s' = (rows s)(i \<mapsto> fst g) \<and> members s' = members s"
    and rename_missing: "sound s \<Longrightarrow> validate_group n = Inr () \<Longrightarrow> rows s i = None \<Longrightarrow> rename i n s = Inl GroupNotFound"
    and remove_missing: "sound s \<Longrightarrow> remove i s = Inl e \<longleftrightarrow> rows s i = None \<and> e = GroupNotFound"
    and remove_spec: "sound s \<Longrightarrow> remove i s = Inr s' \<Longrightarrow>
      sound s' \<and> rows s' = (rows s)(i := None) \<and> members s' = (members s)(i := 0)"
begin

text \<open>A new group is found at once, empty, and nothing else changes.\<close>

lemma created_is_found:
  assumes "sound s" "rows s i = None" "create i now n s = Inr (g, s')" "members s i = 0"
  shows "get i s' = Inr g" "j \<noteq> i \<Longrightarrow> get j s' = get j s"
  using create_spec [OF assms(1-3)] assms by (auto simp: get_spec split: option.splits)

lemma renamed_is_found:
  assumes "sound s" "rename i n s = Inr (g, s')"
  shows "get i s' = Inr g" "j \<noteq> i \<Longrightarrow> get j s' = get j s"
  using rename_spec [OF assms] assms by (auto simp: get_spec split: option.splits)

text \<open>A removed group is gone, with all its members, and a second removal says so.\<close>

lemma removed_is_gone:
  assumes "sound s" "remove i s = Inr s'"
  shows "get i s' = Inl GroupNotFound" "remove i s' = Inl GroupNotFound" "members s' i = 0" "j \<noteq> i \<Longrightarrow> get j s' = get j s"
  using remove_spec [OF assms] assms by (auto simp: get_spec remove_missing split: option.splits)

text \<open>The listing holds what the look-up finds.\<close>

lemma listed_iff_found:
  assumes "sound s"
  shows "g \<in> set (listing s) \<longleftrightarrow> get (gr_id (fst g)) s = Inr g"
proof -
  have "g \<in> set (listing s) \<longleftrightarrow> (\<exists>r i. rows s i = Some r \<and> g = (r, members s (gr_id r)))"
    using listing_spec [OF assms] by (auto simp: ran_def)
  also have "\<dots> \<longleftrightarrow> get (gr_id (fst g)) s = Inr g"
    using own_id [OF assms] by (cases g) (auto simp: get_spec [OF assms] split: option.splits)
  finally show ?thesis .
qed

end

section \<open>The SQLite store\<close>

record group_db = site_db +
  gd_groups :: "group_row list"

definition group_at :: "string \<Rightarrow> 'a group_db_scheme \<Rightarrow> group_row option" where
  "group_at i w = find (\<lambda>r. gr_id r = i) (gd_groups w)"

definition member_count :: "'a host_db_scheme \<Rightarrow> string \<Rightarrow> nat" where
  "member_count w g = count_where (\<lambda>h. sys_group h = Some g) (hd_hosts w)"

definition create_group :: "string \<Rightarrow> int \<Rightarrow> string \<Rightarrow> 'a group_db_scheme
    \<Rightarrow> (group_error, system_group \<times> 'a group_db_scheme) result" where
  "create_group i now n w =
     rbind (validate_group n) (\<lambda>_.
       let r = \<lparr>gr_id = i, gr_name = trim_space n, gr_created = now\<rparr>
       in if group_at i w \<noteq> None \<or> list_ex (\<lambda>x. gr_name x = gr_name r) (gd_groups w) then Inl GroupDuplicate
          else Inr ((r, 0), w\<lparr>gd_groups := gd_groups w @ [r]\<rparr>))"

definition get_group :: "string \<Rightarrow> 'a group_db_scheme \<Rightarrow> (group_error, system_group) result" where
  "get_group i w = (case group_at i w of None \<Rightarrow> Inl GroupNotFound | Some r \<Rightarrow> Inr (r, member_count w i))"

definition list_groups :: "'a group_db_scheme \<Rightarrow> system_group list" where
  "list_groups w = map (\<lambda>r. (r, member_count w (gr_id r))) (sort_key group_order (gd_groups w))"

text \<open>The unique index is looked at for the row that changes; a row may keep its name.\<close>

definition rename_group :: "string \<Rightarrow> string \<Rightarrow> 'a group_db_scheme
    \<Rightarrow> (group_error, system_group \<times> 'a group_db_scheme) result" where
  "rename_group i n w =
     rbind (validate_group n) (\<lambda>_.
       if group_at i w \<noteq> None \<and> list_ex (\<lambda>x. gr_id x \<noteq> i \<and> gr_name x = trim_space n) (gd_groups w) then Inl GroupDuplicate
       else if count_where (\<lambda>r. gr_id r = i) (gd_groups w) = 0 then Inl GroupNotFound
       else
         (let w' = w\<lparr>gd_groups := update_where (\<lambda>r. gr_id r = i) (\<lambda>r. r\<lparr>gr_name := trim_space n\<rparr>) (gd_groups w)\<rparr>
          in rbind (get_group i w') (\<lambda>g. Inr (g, w'))))"

text \<open>One transaction: without a row to delete, the update of the members is rolled back.\<close>

definition delete_group :: "string \<Rightarrow> 'a group_db_scheme \<Rightarrow> (group_error, 'a group_db_scheme) result" where
  "delete_group i w =
     (if count_where (\<lambda>r. gr_id r = i) (gd_groups w) = 0 then Inl GroupNotFound
      else Inr ((clear_group i w)\<lparr>gd_groups := delete_where (\<lambda>r. gr_id r = i) (gd_groups w)\<rparr>))"

definition sql_groups_ok :: "'a group_db_scheme \<Rightarrow> bool" where
  "sql_groups_ok w = (distinct (map gr_id (gd_groups w)) \<and> distinct (map gr_name (gd_groups w)))"

section \<open>The in-memory store\<close>

text \<open>
  The callbacks \<open>Counter\<close> and \<open>OnDel\<close> work on a state of the caller, here \<open>'c\<close>; \<open>lower\<close>
  is \<open>strings.ToLower\<close>, which folds every alphabet.
\<close>

record 'c mem_groups =
  mg_groups :: "(string \<times> group_row) list"
  mg_names :: "(string \<times> string) list"
  mg_outer :: 'c

definition mem_create_group :: "(string \<Rightarrow> string) \<Rightarrow> string \<Rightarrow> int \<Rightarrow> string \<Rightarrow> 'c mem_groups
    \<Rightarrow> (group_error, system_group \<times> 'c mem_groups) result" where
  "mem_create_group lower i now n s =
     rbind (validate_group n) (\<lambda>_.
       let name = trim_space n; r = \<lparr>gr_id = i, gr_name = name, gr_created = now\<rparr>
       in if map_of (mg_names s) (lower name) \<noteq> None then Inl GroupDuplicate
          else Inr ((r, 0), s\<lparr>mg_groups := alist_put i r (mg_groups s), mg_names := alist_put (lower name) i (mg_names s)\<rparr>))"

definition mem_get_group :: "('c \<Rightarrow> string \<Rightarrow> nat) \<Rightarrow> string \<Rightarrow> 'c mem_groups \<Rightarrow> (group_error, system_group) result" where
  "mem_get_group counter i s =
     (case map_of (mg_groups s) i of None \<Rightarrow> Inl GroupNotFound | Some r \<Rightarrow> Inr (r, counter (mg_outer s) i))"

definition mem_list_groups :: "('c \<Rightarrow> string \<Rightarrow> nat) \<Rightarrow> 'c mem_groups \<Rightarrow> system_group list" where
  "mem_list_groups counter s =
     sort_key (group_order \<circ> fst) (map (\<lambda>r. (r, counter (mg_outer s) (gr_id r))) (map snd (mg_groups s)))"

definition mem_rename_group :: "(string \<Rightarrow> string) \<Rightarrow> ('c \<Rightarrow> string \<Rightarrow> nat) \<Rightarrow> string \<Rightarrow> string \<Rightarrow> 'c mem_groups
    \<Rightarrow> (group_error, system_group \<times> 'c mem_groups) result" where
  "mem_rename_group lower counter i n s =
     rbind (validate_group n) (\<lambda>_.
       let name = trim_space n
       in case map_of (mg_groups s) i of
            None \<Rightarrow> Inl GroupNotFound
          | Some r \<Rightarrow>
              if map_of (mg_names s) (lower name) \<notin> {None, Some i} then Inl GroupDuplicate
              else
                (let r' = r\<lparr>gr_name := name\<rparr>
                 in Inr ((r', counter (mg_outer s) i),
                         s\<lparr>mg_groups := alist_put i r' (mg_groups s),
                           mg_names := alist_put (lower name) i (alist_del (lower (gr_name r)) (mg_names s))\<rparr>)))"

definition mem_delete_group :: "(string \<Rightarrow> string) \<Rightarrow> ('c \<Rightarrow> string \<Rightarrow> 'c) option \<Rightarrow> string \<Rightarrow> 'c mem_groups
    \<Rightarrow> (group_error, 'c mem_groups) result" where
  "mem_delete_group lower on_del i s =
     (case map_of (mg_groups s) i of
        None \<Rightarrow> Inl GroupNotFound
      | Some r \<Rightarrow>
          Inr (s\<lparr>mg_groups := alist_del i (mg_groups s), mg_names := alist_del (lower (gr_name r)) (mg_names s),
                 mg_outer := (case on_del of None \<Rightarrow> mg_outer s | Some f \<Rightarrow> f (mg_outer s) i)\<rparr>))"

section \<open>The SQLite store keeps the contract\<close>

lemma group_at_eq: "sql_groups_ok w \<Longrightarrow> group_at i w = Some r \<longleftrightarrow> r \<in> set (gd_groups w) \<and> gr_id r = i"
  unfolding group_at_def sql_groups_ok_def by (auto dest: find_Some_in intro: find_unique)

lemma group_at_none: "group_at i w = None \<longleftrightarrow> (\<forall>r \<in> set (gd_groups w). gr_id r \<noteq> i)"
  by (auto simp: group_at_def find_None_iff)

lemma count_cleared:
  "count_where (\<lambda>h. sys_group h = Some j) (update_where (\<lambda>h. sys_group h = Some i) (\<lambda>h. h\<lparr>sys_group := None\<rparr>) hs) =
    (if j = i then 0 else count_where (\<lambda>h. sys_group h = Some j) hs)"
  by (induction hs) (auto simp: count_where_def update_where_def filter_empty_conv)

lemma member_count_cleared: "member_count (clear_group i w) = (member_count w)(i := 0)"
  by (rule ext) (simp add: member_count_def clear_group_def count_cleared del: count_where_0)

lemma sql_create_spec:
  assumes "sql_groups_ok w" "group_at i w = None" "create_group i now n w = Inr (g, w')"
  shows "sql_groups_ok w'" "validate_group n = Inr ()" "g = (\<lparr>gr_id = i, gr_name = trim_space n, gr_created = now\<rparr>, 0)"
    "(\<lambda>j. group_at j w') = (\<lambda>j. group_at j w)(i \<mapsto> fst g)" "member_count w' = member_count w"
proof -
  have v: "validate_group n = Inr ()" using assms(3) by (cases "validate_group n") (auto simp: create_group_def)
  have g: "g = (\<lparr>gr_id = i, gr_name = trim_space n, gr_created = now\<rparr>, 0)"
    and w': "w' = w\<lparr>gd_groups := gd_groups w @ [fst g]\<rparr>" and u: "\<forall>x \<in> set (gd_groups w). gr_name x \<noteq> trim_space n"
    using assms(3) v by (auto simp: create_group_def Let_def list_ex_iff split: if_splits)
  show "validate_group n = Inr ()" "g = (\<lparr>gr_id = i, gr_name = trim_space n, gr_created = now\<rparr>, 0)" by fact+
  show "sql_groups_ok w'" using assms(1,2) u unfolding w' g by (auto simp: sql_groups_ok_def group_at_none)
  show "(\<lambda>j. group_at j w') = (\<lambda>j. group_at j w)(i \<mapsto> fst g)"
    using assms(2) unfolding w' g by (auto simp: group_at_def find_append fun_eq_iff split: option.splits)
  show "member_count w' = member_count w" by (simp add: w' member_count_def fun_eq_iff)
qed

lemma sql_rename_spec:
  assumes "sql_groups_ok w" "rename_group i n w = Inr (g, w')"
  shows "sql_groups_ok w'" "validate_group n = Inr ()"
    "\<exists>r. group_at i w = Some r \<and> g = (r\<lparr>gr_name := trim_space n\<rparr>, member_count w i)"
    "(\<lambda>j. group_at j w') = (\<lambda>j. group_at j w)(i \<mapsto> fst g)" "member_count w' = member_count w"
proof -
  let ?f = "\<lambda>r. r\<lparr>gr_name := trim_space n\<rparr>"
  have v: "validate_group n = Inr ()" using assms(2) by (cases "validate_group n") (auto simp: rename_group_def)
  define w1 where "w1 = w\<lparr>gd_groups := update_where (\<lambda>r. gr_id r = i) ?f (gd_groups w)\<rparr>"
  have u: "\<not> (group_at i w \<noteq> None \<and> list_ex (\<lambda>x. gr_id x \<noteq> i \<and> gr_name x = trim_space n) (gd_groups w))"
    and w': "w' = w1" and g: "get_group i w1 = Inr g"
    using assms(2) v by (auto simp: rename_group_def Let_def w1_def [symmetric] split: if_splits sum.splits)
  have at: "group_at j w1 = map_option (\<lambda>r. if gr_id r = i then ?f r else r) (group_at j w)" for j
    unfolding group_at_def w1_def by (simp add: find_update_where)
  have m: "member_count w1 = member_count w" by (simp add: w1_def member_count_def fun_eq_iff)
  from g obtain r where r: "group_at i w = Some r" "gr_id r = i" "g = (?f r, member_count w i)"
    using at [of i] m by (auto simp: get_group_def group_at_def dest: find_Some_in split: option.splits if_splits)
  show "validate_group n = Inr ()" by (rule v)
  show "\<exists>r. group_at i w = Some r \<and> g = (?f r, member_count w i)" using r by blast
  show "member_count w' = member_count w" by (simp add: w' m)
  have other: "j \<noteq> i \<Longrightarrow> group_at j w1 = group_at j w" for j
    using at [of j] by (cases "group_at j w") (auto simp: group_at_def dest: find_Some_in)
  show "(\<lambda>j. group_at j w') = (\<lambda>j. group_at j w)(i \<mapsto> fst g)"
    using at [of i] r other by (auto simp: fun_eq_iff w')
  have names: "\<forall>x \<in> set (gd_groups w). gr_id x \<noteq> i \<longrightarrow> gr_name x \<noteq> trim_space n"
    using u r(1) by (auto simp: list_ex_iff)
  have "map gr_id (gd_groups w1) = map gr_id (gd_groups w)" by (simp add: w1_def map_update_where)
  moreover have "distinct (map gr_name (gd_groups w1))"
  proof -
    have "inj_on (\<lambda>r. gr_name (if gr_id r = i then ?f r else r)) (set (gd_groups w))"
      using names assms(1) by (auto simp: inj_on_def sql_groups_ok_def distinct_map)
    then show ?thesis
      using assms(1) by (auto simp: w1_def update_where_def sql_groups_ok_def distinct_map o_def)
  qed
  ultimately show "sql_groups_ok w'" using assms(1) by (simp add: w' sql_groups_ok_def)
qed

lemma sql_remove_spec:
  assumes "sql_groups_ok w" "delete_group i w = Inr w'"
  shows "sql_groups_ok w'" "(\<lambda>j. group_at j w') = (\<lambda>j. group_at j w)(i := None)"
    "member_count w' = (member_count w)(i := 0)"
proof -
  have w': "w' = (clear_group i w)\<lparr>gd_groups := delete_where (\<lambda>r. gr_id r = i) (gd_groups w)\<rparr>"
    using assms(2) by (simp add: delete_group_def split: if_splits)
  show "sql_groups_ok w'" using assms(1) by (simp add: w' sql_groups_ok_def distinct_map_delete_where)
  have "group_at j w' = (if j = i then None else group_at j w)" for j
    unfolding group_at_def w' by (auto simp: find_delete_where_same find_delete_where_other)
  then show "(\<lambda>j. group_at j w') = (\<lambda>j. group_at j w)(i := None)" by auto
  show "member_count w' = (member_count w)(i := 0)"
    using member_count_cleared [of i w] by (simp add: w' member_count_def fun_eq_iff)
qed

lemma sql_group_listing:
  assumes "sql_groups_ok w"
  shows "distinct (list_groups w)" "sorted (map (group_order \<circ> fst) (list_groups w))"
    "set (list_groups w) = (\<lambda>r. (r, member_count w (gr_id r))) ` ran (\<lambda>i. group_at i w)"
proof -
  have d: "distinct (gd_groups w)" using assms by (auto simp: sql_groups_ok_def distinct_map)
  then show "distinct (list_groups w)" by (auto simp: list_groups_def distinct_map inj_on_def)
  show "sorted (map (group_order \<circ> fst) (list_groups w))" by (simp add: list_groups_def o_def)
  have "ran (\<lambda>i. group_at i w) = set (gd_groups w)" using group_at_eq [OF assms] by (auto simp: ran_def)
  then show "set (list_groups w) = (\<lambda>r. (r, member_count w (gr_id r))) ` ran (\<lambda>i. group_at i w)"
    by (simp add: list_groups_def)
qed

interpretation sql_groups: group_store sql_groups_ok "\<lambda>w i. group_at i w" member_count create_group get_group
  list_groups rename_group delete_group
proof unfold_locales
  fix w :: "'a group_db_scheme" and i n e
  assume s: "sql_groups_ok w"
  show "get_group i w = (case group_at i w of None \<Rightarrow> Inl GroupNotFound | Some r \<Rightarrow> Inr (r, member_count w i))"
    by (simp add: get_group_def)
  show "distinct (list_groups w) \<and> sorted (map (group_order \<circ> fst) (list_groups w))
      \<and> set (list_groups w) = (\<lambda>r. (r, member_count w (gr_id r))) ` ran (\<lambda>i. group_at i w)"
    using sql_group_listing [OF s] by blast
  show "(delete_group i w = Inl e) = (group_at i w = None \<and> e = GroupNotFound)"
    by (auto simp: delete_group_def group_at_none)
  show "validate_group n = Inr () \<Longrightarrow> group_at i w = None \<Longrightarrow> rename_group i n w = Inl GroupNotFound"
    by (auto simp: rename_group_def group_at_none)
  show "group_at i w = Some r \<Longrightarrow> gr_id r = i" for r
    by (auto simp: group_at_eq [OF s])
qed (auto dest: sql_create_spec sql_rename_spec sql_remove_spec)

section \<open>The in-memory store keeps the contract\<close>

text \<open>The wiring of the tests: the systems of the in-memory fleet store are the outer state.\<close>

definition mem_members :: "mem_hosts \<Rightarrow> string \<Rightarrow> nat" where
  "mem_members m g = count_where (\<lambda>h. sys_group h = Some g) (map snd m)"

text \<open>The index by name: it maps the folded name of every group to the group, and nothing else.\<close>

definition names_index :: "(string \<Rightarrow> string) \<Rightarrow> (string \<rightharpoonup> string) \<Rightarrow> (string \<rightharpoonup> group_row) \<Rightarrow> bool" where
  "names_index lower N G = (\<forall>k i. N k = Some i \<longleftrightarrow> (\<exists>r. G i = Some r \<and> lower (gr_name r) = k))"

definition mem_groups_ok :: "(string \<Rightarrow> string) \<Rightarrow> 'c mem_groups \<Rightarrow> bool" where
  "mem_groups_ok lower s =
     (distinct (map fst (mg_groups s)) \<and> (\<forall>i r. map_of (mg_groups s) i = Some r \<longrightarrow> gr_id r = i) \<and>
      names_index lower (map_of (mg_names s)) (map_of (mg_groups s)))"

lemma names_add:
  assumes "names_index lower N G" "G i = None" "N (lower (gr_name r)) = None"
  shows "names_index lower (N(lower (gr_name r) \<mapsto> i)) (G(i \<mapsto> r))"
  unfolding names_index_def
proof (intro allI)
  fix k j
  have a: "N k = Some j \<longleftrightarrow> (\<exists>q. G j = Some q \<and> lower (gr_name q) = k)" using assms(1) by (simp add: names_index_def)
  have b: "N k \<noteq> Some i" using assms(1,2) by (simp add: names_index_def)
  show "(N(lower (gr_name r) \<mapsto> i)) k = Some j \<longleftrightarrow> (\<exists>q. (G(i \<mapsto> r)) j = Some q \<and> lower (gr_name q) = k)"
  proof (cases "j = i")
    case True
    then show ?thesis using b by auto
  next
    case False
    then show ?thesis using a assms(3) by auto
  qed
qed

lemma names_del:
  assumes "names_index lower N G" "G i = Some r"
  shows "names_index lower (N(lower (gr_name r) := None)) (G(i := None))"
  unfolding names_index_def
proof (intro allI)
  fix k j
  have a: "N k = Some j \<longleftrightarrow> (\<exists>q. G j = Some q \<and> lower (gr_name q) = k)" using assms(1) by (simp add: names_index_def)
  have b: "N (lower (gr_name r)) = Some i" using assms by (auto simp: names_index_def)
  show "(N(lower (gr_name r) := None)) k = Some j \<longleftrightarrow> (\<exists>q. (G(i := None)) j = Some q \<and> lower (gr_name q) = k)"
    using a b assms(2) by (cases "j = i"; cases "k = lower (gr_name r)") auto
qed

lemma mem_group_own: "mem_groups_ok lower s \<Longrightarrow> map_of (mg_groups s) i = Some r \<Longrightarrow> gr_id r = i"
  by (simp add: mem_groups_ok_def)

lemma mem_members_cleared: "mem_members (mem_clear_group i m) = (mem_members m)(i := 0)"
proof -
  have "map snd (mem_clear_group i m) = update_where (\<lambda>h. sys_group h = Some i) (\<lambda>h. h\<lparr>sys_group := None\<rparr>) (map snd m)"
    by (auto simp: mem_clear_group_def update_where_def)
  then show ?thesis by (simp add: mem_members_def count_cleared fun_eq_iff del: count_where_0)
qed

lemma mem_create_group_spec:
  assumes "mem_groups_ok lower s" "map_of (mg_groups s) i = None" "mem_create_group lower i now n s = Inr (g, s')"
  shows "mem_groups_ok lower s'" "validate_group n = Inr ()"
    "g = (\<lparr>gr_id = i, gr_name = trim_space n, gr_created = now\<rparr>, 0)"
    "map_of (mg_groups s') = (map_of (mg_groups s))(i \<mapsto> fst g)" "mg_outer s' = mg_outer s"
proof -
  have v: "validate_group n = Inr ()" using assms(3) by (cases "validate_group n") (auto simp: mem_create_group_def)
  let ?k = "lower (trim_space n)"
  have g: "g = (\<lparr>gr_id = i, gr_name = trim_space n, gr_created = now\<rparr>, 0)" and free: "map_of (mg_names s) ?k = None"
    and s': "s' = s\<lparr>mg_groups := alist_put i (fst g) (mg_groups s), mg_names := alist_put ?k i (mg_names s)\<rparr>"
    using assms(3) v by (auto simp: mem_create_group_def Let_def split: if_splits)
  show "validate_group n = Inr ()" "g = (\<lparr>gr_id = i, gr_name = trim_space n, gr_created = now\<rparr>, 0)" by fact+
  show "map_of (mg_groups s') = (map_of (mg_groups s))(i \<mapsto> fst g)" "mg_outer s' = mg_outer s" by (simp_all add: s')
  have "names_index lower (map_of (mg_names s')) (map_of (mg_groups s'))"
    using names_add [of lower "map_of (mg_names s)" "map_of (mg_groups s)" i "fst g"] free assms(2) assms(1)
    by (simp add: s' g mem_groups_ok_def)
  then show "mem_groups_ok lower s'" using assms(1) unfolding mem_groups_ok_def s' g by auto
qed

lemma mem_rename_group_spec:
  assumes "mem_groups_ok lower s" "mem_rename_group lower counter i n s = Inr (g, s')"
  shows "mem_groups_ok lower s'" "validate_group n = Inr ()"
    "\<exists>r. map_of (mg_groups s) i = Some r \<and> g = (r\<lparr>gr_name := trim_space n\<rparr>, counter (mg_outer s) i)"
    "map_of (mg_groups s') = (map_of (mg_groups s))(i \<mapsto> fst g)" "mg_outer s' = mg_outer s"
proof -
  have v: "validate_group n = Inr ()" using assms(2) by (cases "validate_group n") (auto simp: mem_rename_group_def)
  let ?k = "lower (trim_space n)"
  obtain r where r: "map_of (mg_groups s) i = Some r" and g: "g = (r\<lparr>gr_name := trim_space n\<rparr>, counter (mg_outer s) i)"
    and free: "map_of (mg_names s) ?k \<in> {None, Some i}"
    and s': "s' = s\<lparr>mg_groups := alist_put i (fst g) (mg_groups s),
        mg_names := alist_put ?k i (alist_del (lower (gr_name r)) (mg_names s))\<rparr>"
    using assms(2) v by (auto simp: mem_rename_group_def Let_def split: option.splits if_splits)
  show "validate_group n = Inr ()" by (rule v)
  show "\<exists>r. map_of (mg_groups s) i = Some r \<and> g = (r\<lparr>gr_name := trim_space n\<rparr>, counter (mg_outer s) i)" using r g by blast
  show "map_of (mg_groups s') = (map_of (mg_groups s))(i \<mapsto> fst g)" "mg_outer s' = mg_outer s" by (simp_all add: s')
  have N: "names_index lower ((map_of (mg_names s))(lower (gr_name r) := None)) ((map_of (mg_groups s))(i := None))"
    using names_del [of lower "map_of (mg_names s)" "map_of (mg_groups s)" i r] r assms(1) by (simp add: mem_groups_ok_def)
  have "map_of (mg_names s) ?k = Some i \<Longrightarrow> lower (gr_name r) = ?k"
    using assms(1) r by (auto simp: mem_groups_ok_def names_index_def)
  then have "((map_of (mg_names s))(lower (gr_name r) := None)) (lower (gr_name (fst g))) = None"
    using free by (auto simp: g)
  from names_add [OF N _ this, of i]
  have "names_index lower ((map_of (mg_names s))(lower (gr_name r) := None, lower (gr_name (fst g)) \<mapsto> i))
      ((map_of (mg_groups s))(i \<mapsto> fst g))" by (metis fun_upd_same fun_upd_upd)
  moreover have "map_of (mg_names s') = (map_of (mg_names s))(lower (gr_name r) := None, lower (gr_name (fst g)) \<mapsto> i)"
    "map_of (mg_groups s') = (map_of (mg_groups s))(i \<mapsto> fst g)" by (simp_all add: s' g)
  ultimately have "names_index lower (map_of (mg_names s')) (map_of (mg_groups s'))" by metis
  then show "mem_groups_ok lower s'" using assms(1) mem_group_own [OF assms(1) r]
    unfolding mem_groups_ok_def s' g by auto
qed

lemma mem_remove_group_spec:
  assumes "mem_groups_ok lower s" "mem_delete_group lower f i s = Inr s'"
  shows "mem_groups_ok lower s'" "map_of (mg_groups s') = (map_of (mg_groups s))(i := None)"
    "mg_outer s' = (case f of None \<Rightarrow> mg_outer s | Some f \<Rightarrow> f (mg_outer s) i)"
proof -
  obtain r where r: "map_of (mg_groups s) i = Some r"
    and s': "s' = s\<lparr>mg_groups := alist_del i (mg_groups s), mg_names := alist_del (lower (gr_name r)) (mg_names s),
      mg_outer := (case f of None \<Rightarrow> mg_outer s | Some f \<Rightarrow> f (mg_outer s) i)\<rparr>"
    using assms(2) by (auto simp: mem_delete_group_def split: option.splits)
  show "map_of (mg_groups s') = (map_of (mg_groups s))(i := None)"
    "mg_outer s' = (case f of None \<Rightarrow> mg_outer s | Some f \<Rightarrow> f (mg_outer s) i)" by (simp_all add: s')
  have "names_index lower (map_of (mg_names s')) (map_of (mg_groups s'))"
    using names_del [of lower "map_of (mg_names s)" "map_of (mg_groups s)" i r] r assms(1) by (simp add: s' mem_groups_ok_def)
  then show "mem_groups_ok lower s'" using assms(1) unfolding mem_groups_ok_def s' by auto
qed

lemma mem_group_listing:
  assumes "mem_groups_ok lower s"
  shows "distinct (mem_list_groups counter s)" "sorted (map (group_order \<circ> fst) (mem_list_groups counter s))"
    "set (mem_list_groups counter s) = (\<lambda>r. (r, counter (mg_outer s) (gr_id r))) ` ran (map_of (mg_groups s))"
proof -
  have d: "distinct (map fst (mg_groups s))" and own: "\<And>i r. (i, r) \<in> set (mg_groups s) \<Longrightarrow> gr_id r = i"
    using assms by (auto simp: mem_groups_ok_def)
  have "inj_on snd (set (mg_groups s))" unfolding inj_on_def by (metis own prod.collapse)
  with d have "distinct (map snd (mg_groups s))" by (simp add: distinct_map)
  then show "distinct (mem_list_groups counter s)" by (auto simp: mem_list_groups_def distinct_map inj_on_def)
  show "sorted (map (group_order \<circ> fst) (mem_list_groups counter s))" by (simp add: mem_list_groups_def)
  show "set (mem_list_groups counter s) = (\<lambda>r. (r, counter (mg_outer s) (gr_id r))) ` ran (map_of (mg_groups s))"
    using d by (simp add: mem_list_groups_def ran_distinct image_comp o_def)
qed

interpretation mem_groups: group_store "mem_groups_ok lower" "\<lambda>s. map_of (mg_groups s)" "\<lambda>s. mem_members (mg_outer s)"
  "mem_create_group lower" "mem_get_group mem_members" "mem_list_groups mem_members"
  "mem_rename_group lower mem_members" "mem_delete_group lower (Some (\<lambda>m i. mem_clear_group i m))" for lower
proof unfold_locales
  fix s :: "mem_hosts mem_groups" and i n e
  assume s: "mem_groups_ok lower s"
  show "mem_get_group mem_members i s =
      (case map_of (mg_groups s) i of None \<Rightarrow> Inl GroupNotFound | Some r \<Rightarrow> Inr (r, mem_members (mg_outer s) i))"
    by (simp add: mem_get_group_def)
  show "distinct (mem_list_groups mem_members s) \<and> sorted (map (group_order \<circ> fst) (mem_list_groups mem_members s))
      \<and> set (mem_list_groups mem_members s) = (\<lambda>r. (r, mem_members (mg_outer s) (gr_id r))) ` ran (map_of (mg_groups s))"
    using mem_group_listing [OF s] by blast
  show "(mem_delete_group lower (Some (\<lambda>m i. mem_clear_group i m)) i s = Inl e) =
      (map_of (mg_groups s) i = None \<and> e = GroupNotFound)"
    by (auto simp: mem_delete_group_def split: option.splits)
  show "validate_group n = Inr () \<Longrightarrow> map_of (mg_groups s) i = None \<Longrightarrow>
      mem_rename_group lower mem_members i n s = Inl GroupNotFound"
    by (simp add: mem_rename_group_def)
  show "map_of (mg_groups s) i = Some r \<Longrightarrow> gr_id r = i" for r
    by (rule mem_group_own [OF s])
  show "mem_groups_ok lower s' \<and> validate_group n = Inr () \<and> g = (\<lparr>gr_id = i, gr_name = trim_space n, gr_created = now\<rparr>, 0)
      \<and> map_of (mg_groups s') = (map_of (mg_groups s))(i \<mapsto> fst g) \<and> mem_members (mg_outer s') = mem_members (mg_outer s)"
    if new: "map_of (mg_groups s) i = None" and c: "mem_create_group lower i now n s = Inr (g, s')" for now g s'
    using mem_create_group_spec [OF s new c] by simp
  show "mem_groups_ok lower s' \<and> validate_group n = Inr () \<and>
      (\<exists>r. map_of (mg_groups s) i = Some r \<and> g = (r\<lparr>gr_name := trim_space n\<rparr>, mem_members (mg_outer s) i))
      \<and> map_of (mg_groups s') = (map_of (mg_groups s))(i \<mapsto> fst g) \<and> mem_members (mg_outer s') = mem_members (mg_outer s)"
    if c: "mem_rename_group lower mem_members i n s = Inr (g, s')" for g s'
    using mem_rename_group_spec [OF s c] by simp
  show "mem_groups_ok lower s' \<and> map_of (mg_groups s') = (map_of (mg_groups s))(i := None)
      \<and> mem_members (mg_outer s') = (mem_members (mg_outer s))(i := 0)"
    if c: "mem_delete_group lower (Some (\<lambda>m i. mem_clear_group i m)) i s = Inr s'" for s'
    using mem_remove_group_spec [OF s c] by (simp add: mem_members_cleared)
qed

end
