(* ===== verification/InventoryServer.thy ===== *)
theory InventoryServer
  imports SystemGroups FleetRoutes
begin

text \<open>
  The routes of the inventory: systems (\<open>src/internal/systems/handler.go\<close>), their labels and
  the styles of labels (\<open>handler.go\<close> and \<open>style_store.go\<close> of \<open>src/internal/labels\<close>), groups
  and membership (\<open>src/internal/groups/handler.go\<close>), with the gates, audit events and callbacks
  \<open>cmd/server/main.go\<close> passes. All three share one database, so that the effects one
  part has on the others show. JSON decoding is a parameter: None is a body that cannot be read.
\<close>

section \<open>The database\<close>

record stock_db = group_db +
  iv_labels :: "label_row list"
  iv_styles :: "(string \<times> string) list"

definition label_view :: "'a stock_db_scheme \<Rightarrow> sql_labels" where
  "label_view w = \<lparr>sl_rows = iv_labels w, sl_hosts = map sys_id (hd_hosts w)\<rparr>"

text \<open>\<open>SQLiteStyleStore\<close>\<close>

definition set_style :: "string \<Rightarrow> string \<Rightarrow> 'a stock_db_scheme \<Rightarrow> 'a stock_db_scheme" where
  "set_style k c w = w\<lparr>iv_styles := alist_put k c (iv_styles w)\<rparr>"

definition delete_style :: "string \<Rightarrow> 'a stock_db_scheme \<Rightarrow> (label_error, 'a stock_db_scheme) result" where
  "delete_style k w =
     (if map_of (iv_styles w) k = None then Inl LabelNotFound
      else Inr (w\<lparr>iv_styles := alist_del k (iv_styles w)\<rparr>))"

text \<open>\<open>MemStyleStore\<close> is the map alone.\<close>

definition mem_delete_style :: "string \<Rightarrow> (string \<times> string) list \<Rightarrow> (label_error, (string \<times> string) list) result" where
  "mem_delete_style k m = (if map_of m k = None then Inl LabelNotFound else Inr (alist_del k m))"

text \<open>
  Deleting a row of hosts: the triggers of the updaters and the exporters, and the foreign key of
  the labels.
\<close>

definition drop_system :: "string \<Rightarrow> 'a stock_db_scheme \<Rightarrow> (host_error, 'a stock_db_scheme) result" where
  "drop_system i w =
     rbind (remove_system i w) (\<lambda>w'. Inr (w'\<lparr>iv_labels := delete_where (\<lambda>r. row_system r = i) (iv_labels w')\<rparr>))"

section \<open>Replies\<close>

datatype stock_fail = FailHost host_error | FailLabel label_error | FailColor color_error | FailGroup group_error

record system_view =
  sv_host :: managed_host
  sv_labels :: "label list"
  sv_stats :: "system_stats option"

datatype stock_body =
    StNoContent
  | StSystems "system_view list"
  | StSystem system_view
  | StCreated string managed_host        \<comment> \<open>with the \<open>Location\<close> header\<close>
  | StLabels "label list"
  | StLabel label
  | StStyles "(string \<times> string) list"
  | StStyle string string
  | StGroups "system_group list"
  | StGroup system_group
  | StGroupCreated string system_group

type_synonym stock_reply = "(stock_fail, stock_body) reply"

definition system_event :: "string \<Rightarrow> string \<Rightarrow> managed_host \<Rightarrow> detail \<Rightarrow> event" where
  "system_event act actor h d = \<lparr>ev_action = act, ev_outcome = ''success'', ev_actor = actor, ev_target = sys_id h,
     ev_label = sys_name h, ev_detail = d\<rparr>"

definition changed_note :: string where "changed_note = ''systems.changed''"

section \<open>Systems\<close>

definition enrich :: "pkg_codec \<Rightarrow> 'a stock_db_scheme \<Rightarrow> string list \<Rightarrow> managed_host \<Rightarrow> system_view" where
  "enrich C w ids h =
     \<lparr>sv_host = h,
      sv_labels = (case sql_for_systems (label_view w) ids (sys_id h) of None \<Rightarrow> [] | Some ls \<Rightarrow> ls),
      sv_stats = system_stats_of C (sys_id h) w\<rparr>"

fun matching_views :: "selector \<Rightarrow> system_view list \<Rightarrow> system_view list option" where
  "matching_views sel [] = Some []"
| "matching_views sel (v # vs) =
     (case sel_matches sel (sv_labels v) of
        None \<Rightarrow> None
      | Some b \<Rightarrow> map_option (\<lambda>out. if b then v # out else out) (matching_views sel vs))"

text \<open>None where the parser or the selector panics: the connection is closed without a reply.\<close>

definition handle_list_systems :: "pkg_codec \<Rightarrow> scope \<Rightarrow> string \<Rightarrow> 'a stock_db_scheme \<Rightarrow> stock_reply option" where
  "handle_list_systems C sc raw w =
     (case (if raw = [] then Inr [] else parse_selector raw) of
        Inl SelPanic \<Rightarrow> None
      | Inl (SelErr e) \<Rightarrow> Some (failed_with 400 (FailLabel e))
      | Inr sel \<Rightarrow>
          (let rows = filter (can_read_host sc) (list_hosts w);
               views = map (enrich C w (map sys_id rows)) rows
           in map_option (\<lambda>vs. replied 200 (StSystems vs)) (if sel = [] then Some views else matching_views sel views)))"

definition handle_create_system :: "scope \<Rightarrow> string \<Rightarrow> string \<Rightarrow> int \<Rightarrow> (string \<times> string) option \<Rightarrow> 'a stock_db_scheme
    \<Rightarrow> stock_reply \<times> 'a stock_db_scheme" where
  "handle_create_system sc actor i now b w =
     (if \<not> can_create_system sc then (failed 403 ''forbidden'', w)
      else
        (case b of
           None \<Rightarrow> (failed 400 ''invalid JSON'', w)
         | Some x \<Rightarrow>
             (case create_host i now x w of
                Inl (HostInvalid m) \<Rightarrow> (failed_with 400 (FailHost (HostInvalid m)), w)
              | Inl _ \<Rightarrow> (failed 500 ''create failed'', w)
              | Inr (h, w') \<Rightarrow>
                  (replied 201 (StCreated (''/api/systems/'' @ sys_id h) h),
                   broadcast changed_note
                     (fleet_log (system_event ''system.create'' actor h
                        [(''name'', DStr (sys_name h)), (''hostname'', DStr (mh_hostname h))]) w')))))"

text \<open>The look-up with the gate of \<open>VisibleSystem\<close>: what the user may not see is not found.\<close>

definition visible_system :: "string \<Rightarrow> scope \<Rightarrow> string \<Rightarrow> 'a host_db_scheme \<Rightarrow> (stock_reply, managed_host) result" where
  "visible_system msg sc i w =
     (case get_host i w of
        Inl e \<Rightarrow> Inl (if e = HostNotFound then failed 404 ''system not found'' else failed 500 msg)
      | Inr h \<Rightarrow> if can_read_host sc h then Inr h else Inl (failed 404 ''system not found''))"

definition handle_get_system :: "pkg_codec \<Rightarrow> scope \<Rightarrow> string \<Rightarrow> 'a stock_db_scheme \<Rightarrow> stock_reply" where
  "handle_get_system C sc i w =
     (case visible_system ''get failed'' sc i w of Inl r \<Rightarrow> r | Inr h \<Rightarrow> replied 200 (StSystem (enrich C w [sys_id h] h)))"

definition handle_delete_system :: "scope \<Rightarrow> string \<Rightarrow> string \<Rightarrow> 'a stock_db_scheme \<Rightarrow> stock_reply \<times> 'a stock_db_scheme" where
  "handle_delete_system sc actor i w =
     (case visible_system ''delete lookup failed'' sc i w of
        Inl r \<Rightarrow> (r, w)
      | Inr h \<Rightarrow>
          if \<not> can_delete_system sc (sys_group h) then (failed 403 ''forbidden'', w)
          else
            (case drop_system (sys_id h) w of
               Inl HostNotFound \<Rightarrow> (failed 404 ''system not found'', w)
             | Inl _ \<Rightarrow> (failed 500 ''delete failed'', w)
             | Inr w' \<Rightarrow>
                 (replied 204 StNoContent,
                  broadcast changed_note
                    (fleet_log (system_event ''system.delete'' actor h
                       (case sys_group h of None \<Rightarrow> [] | Some g \<Rightarrow> [(''group_id'', DStr g)])) w'))))"

definition handle_set_platform :: "scope \<Rightarrow> string \<Rightarrow> string \<Rightarrow> bool option \<Rightarrow> 'a stock_db_scheme
    \<Rightarrow> stock_reply \<times> 'a stock_db_scheme" where
  "handle_set_platform sc actor i b w =
     (case b of
        None \<Rightarrow> (failed 400 ''invalid JSON'', w)
      | Some win \<Rightarrow>
          (case visible_system ''platform lookup failed'' sc i w of
             Inl r \<Rightarrow> (r, w)
           | Inr h \<Rightarrow>
               if \<not> can_edit_system sc (sys_group h) then (failed 403 ''forbidden'', w)
               else
                 (case set_platform (sys_id h) win w of
                    Inl HostNotFound \<Rightarrow> (failed 404 ''system not found'', w)
                  | Inl _ \<Rightarrow> (failed 500 ''set platform failed'', w)
                  | Inr w' \<Rightarrow>
                      (replied 204 StNoContent,
                       fleet_log (system_event ''system.platform.set'' actor h [(''is_windows'', DBool win)]) w'))))"

record bulk_event =
  be_action :: string
  be_selector :: string
  be_systems :: "string list"
  be_skipped :: "(string \<times> string) list"

definition bulk_detail :: "bulk_event \<Rightarrow> detail" where
  "bulk_detail b =
     [(''system_count'', DInt (int (length (be_systems b)))), (''system_ids'', DStrs (be_systems b))] @
     (if be_selector b \<noteq> [] then [(''selector'', DStr (be_selector b))] else []) @
     (if be_skipped b \<noteq> []
      then [(''skipped'', DPairs (be_skipped b)), (''skipped_count'', DInt (int (length (be_skipped b))))] else [])"

definition handle_bulk_event :: "string \<Rightarrow> bulk_event option \<Rightarrow> 'a stock_db_scheme \<Rightarrow> stock_reply \<times> 'a stock_db_scheme" where
  "handle_bulk_event actor b w =
     (case b of
        None \<Rightarrow> (failed 400 ''invalid JSON'', w)
      | Some x \<Rightarrow>
          if be_action x \<notin> set [''check'', ''apply'', ''label.set'', ''label.delete'']
          then (failed 400 ''action must be one of: check, apply, label.set, label.delete'', w)
          else if be_systems x = [] then (failed 400 ''systemIds is required'', w)
          else
            (replied 204 StNoContent,
             fleet_log \<lparr>ev_action = ''systems.bulk.'' @ be_action x, ev_outcome = ''success'', ev_actor = actor,
                ev_target = [],
                ev_label = (if be_selector x \<noteq> [] then be_selector x
                            else nat_to_string (length (be_systems x)) @ '' systems''),
                ev_detail = bulk_detail x\<rparr> w))"

section \<open>Labels\<close>

definition label_event :: "string \<Rightarrow> string \<Rightarrow> managed_host \<Rightarrow> string \<Rightarrow> string option \<Rightarrow> event" where
  "label_event act actor h k v = system_event act actor h
     [(''key'', DStr k), (''value'', case v of None \<Rightarrow> DNull | Some x \<Rightarrow> DStr x)]"

text \<open>\<open>resolveSystemForEdit\<close>\<close>

definition editable_system :: "scope \<Rightarrow> string \<Rightarrow> 'a host_db_scheme \<Rightarrow> (stock_reply, managed_host) result" where
  "editable_system sc i w =
     rbind (visible_system ''lookup failed'' sc i w) (\<lambda>h.
       if can_edit_system sc (sys_group h) then Inr h else Inl (failed 403 ''forbidden''))"

definition handle_list_labels :: "scope \<Rightarrow> string \<Rightarrow> 'a stock_db_scheme \<Rightarrow> stock_reply" where
  "handle_list_labels sc i w =
     (case visible_system ''lookup failed'' sc i w of
        Inl r \<Rightarrow> r
      | Inr h \<Rightarrow> replied 200 (StLabels (sql_for_system (label_view w) (sys_id h))))"

definition handle_set_label :: "scope \<Rightarrow> string \<Rightarrow> string \<Rightarrow> string \<Rightarrow> string option option \<Rightarrow> 'a stock_db_scheme
    \<Rightarrow> stock_reply \<times> 'a stock_db_scheme" where
  "handle_set_label sc actor i k b w =
     (case editable_system sc i w of
        Inl r \<Rightarrow> (r, w)
      | Inr h \<Rightarrow>
          (case b of
             None \<Rightarrow> (failed 400 ''invalid JSON'', w)
           | Some v \<Rightarrow>
               (case sql_set (label_view w) (sys_id h) k v False of
                  (Inl LabelReserved, _) \<Rightarrow> (failed_with 403 (FailLabel LabelReserved), w)
                | (Inl (LabelInvalid m), _) \<Rightarrow> (failed_with 400 (FailLabel (LabelInvalid m)), w)
                | (Inl LabelNotFound, _) \<Rightarrow> (failed 404 ''system not found'', w)
                | (Inl _, _) \<Rightarrow> (failed 500 ''set failed'', w)
                | (Inr l, s) \<Rightarrow>
                    (replied 200 (StLabel l),
                     broadcast changed_note
                       (fleet_log (label_event ''system.label.set'' actor h k v) (w\<lparr>iv_labels := sl_rows s\<rparr>))))))"

definition handle_delete_label :: "scope \<Rightarrow> string \<Rightarrow> string \<Rightarrow> string \<Rightarrow> 'a stock_db_scheme
    \<Rightarrow> stock_reply \<times> 'a stock_db_scheme" where
  "handle_delete_label sc actor i k w =
     (case editable_system sc i w of
        Inl r \<Rightarrow> (r, w)
      | Inr h \<Rightarrow>
          (case sql_delete (label_view w) (sys_id h) k of
             (Inl LabelNotFound, _) \<Rightarrow> (failed 404 ''label not found'', w)
           | (Inl _, _) \<Rightarrow> (failed 500 ''delete failed'', w)
           | (Inr _, s) \<Rightarrow>
               (replied 204 StNoContent,
                broadcast changed_note
                  (fleet_log (label_event ''system.label.delete'' actor h k None) (w\<lparr>iv_labels := sl_rows s\<rparr>)))))"

section \<open>Label styles\<close>

definition style_event :: "string \<Rightarrow> string \<Rightarrow> string \<Rightarrow> string \<Rightarrow> event" where
  "style_event act actor k c = \<lparr>ev_action = act, ev_outcome = ''success'', ev_actor = actor, ev_target = k, ev_label = k,
     ev_detail = [(''key'', DStr k)] @ (if c \<noteq> [] then [(''color'', DStr c)] else [])\<rparr>"

definition handle_list_styles :: "'a stock_db_scheme \<Rightarrow> stock_reply" where
  "handle_list_styles w = replied 200 (StStyles (iv_styles w))"

definition handle_set_style :: "scope \<Rightarrow> string \<Rightarrow> string \<Rightarrow> string option \<Rightarrow> 'a stock_db_scheme
    \<Rightarrow> stock_reply \<times> 'a stock_db_scheme" where
  "handle_set_style sc actor k b w =
     (if \<not> is_global_admin sc then (failed 403 ''forbidden'', w)
      else
        (case validate_key k True of
           Inl e \<Rightarrow> (failed_with 400 (FailLabel e), w)
         | Inr _ \<Rightarrow>
             (case b of
                None \<Rightarrow> (failed 400 ''invalid JSON'', w)
              | Some c \<Rightarrow>
                  (case validate_color c of
                     Inl e \<Rightarrow> (failed_with 400 (FailColor e), w)
                   | Inr _ \<Rightarrow>
                       (replied 200 (StStyle k c),
                        broadcast changed_note (fleet_log (style_event ''label_style.set'' actor k c) (set_style k c w)))))))"

definition handle_delete_style :: "scope \<Rightarrow> string \<Rightarrow> string \<Rightarrow> 'a stock_db_scheme \<Rightarrow> stock_reply \<times> 'a stock_db_scheme" where
  "handle_delete_style sc actor k w =
     (if \<not> is_global_admin sc then (failed 403 ''forbidden'', w)
      else
        (case delete_style k w of
           Inl LabelNotFound \<Rightarrow> (failed 404 ''style not found'', w)
         | Inl _ \<Rightarrow> (failed 500 ''delete style failed'', w)
         | Inr w' \<Rightarrow>
             (replied 204 StNoContent, broadcast changed_note (fleet_log (style_event ''label_style.delete'' actor k []) w'))))"

section \<open>Groups\<close>

definition group_event :: "string \<Rightarrow> string \<Rightarrow> string \<Rightarrow> string \<Rightarrow> event" where
  "group_event act actor i label = \<lparr>ev_action = act, ev_outcome = ''success'', ev_actor = actor, ev_target = i,
     ev_label = label, ev_detail = []\<rparr>"

definition group_error_reply :: "group_error \<Rightarrow> string \<Rightarrow> stock_reply" where
  "group_error_reply e other =
     (case e of
        GroupNotFound \<Rightarrow> failed 404 ''group not found''
      | GroupInvalid m \<Rightarrow> failed_with 400 (FailGroup (GroupInvalid m))
      | GroupDuplicate \<Rightarrow> failed_with 409 (FailGroup GroupDuplicate)
      | GroupSql \<Rightarrow> failed 500 other)"

definition handle_list_groups :: "scope \<Rightarrow> 'a group_db_scheme \<Rightarrow> stock_reply" where
  "handle_list_groups sc w = replied 200 (StGroups (filter (\<lambda>g. can_read_group sc (gr_id (fst g))) (list_groups w)))"

definition handle_create_group :: "scope \<Rightarrow> string \<Rightarrow> string \<Rightarrow> int \<Rightarrow> string option \<Rightarrow> 'a group_db_scheme
    \<Rightarrow> stock_reply \<times> 'a group_db_scheme" where
  "handle_create_group sc actor i now b w =
     (if \<not> can_manage_groups sc then (failed 403 ''forbidden'', w)
      else
        (case b of
           None \<Rightarrow> (failed 400 ''invalid JSON'', w)
         | Some n \<Rightarrow>
             (case create_group i now n w of
                Inl GroupNotFound \<Rightarrow> (failed 500 ''create failed'', w)
              | Inl e \<Rightarrow> (group_error_reply e ''create failed'', w)
              | Inr (g, w') \<Rightarrow>
                  (replied 201 (StGroupCreated (''/api/groups/'' @ gr_id (fst g)) g),
                   broadcast changed_note
                     (fleet_log (group_event ''system_group.create'' actor (gr_id (fst g)) (gr_name (fst g))) w')))))"

definition handle_get_group :: "scope \<Rightarrow> string \<Rightarrow> 'a group_db_scheme \<Rightarrow> stock_reply" where
  "handle_get_group sc i w =
     (case get_group i w of
        Inl e \<Rightarrow> if e = GroupNotFound then failed 404 ''group not found'' else failed 500 ''get failed''
      | Inr g \<Rightarrow> if can_read_group sc (gr_id (fst g)) then replied 200 (StGroup g) else failed 404 ''group not found'')"

definition handle_rename_group :: "scope \<Rightarrow> string \<Rightarrow> string \<Rightarrow> string option \<Rightarrow> 'a group_db_scheme
    \<Rightarrow> stock_reply \<times> 'a group_db_scheme" where
  "handle_rename_group sc actor i b w =
     (if \<not> can_manage_groups sc then (failed 403 ''forbidden'', w)
      else
        (case b of
           None \<Rightarrow> (failed 400 ''invalid JSON'', w)
         | Some n \<Rightarrow>
             (case rename_group i n w of
                Inl e \<Rightarrow> (group_error_reply e ''rename failed'', w)
              | Inr (g, w') \<Rightarrow>
                  (replied 200 (StGroup g),
                   broadcast changed_note
                     (fleet_log (group_event ''system_group.rename'' actor (gr_id (fst g)) (gr_name (fst g))) w')))))"

definition handle_delete_group :: "scope \<Rightarrow> string \<Rightarrow> string \<Rightarrow> 'a group_db_scheme \<Rightarrow> stock_reply \<times> 'a group_db_scheme" where
  "handle_delete_group sc actor i w =
     (if \<not> can_manage_groups sc then (failed 403 ''forbidden'', w)
      else
        (case delete_group i w of
           Inl e \<Rightarrow> (if e = GroupNotFound then failed 404 ''group not found'' else failed 500 ''delete failed'', w)
         | Inr w' \<Rightarrow>
             (replied 204 StNoContent,
              broadcast changed_note
                (fleet_log (group_event ''system_group.delete'' actor i
                   (case get_group i w of Inl _ \<Rightarrow> i | Inr g \<Rightarrow> gr_name (fst g))) w'))))"

definition membership_event :: "string \<Rightarrow> string \<Rightarrow> string option \<Rightarrow> event" where
  "membership_event actor i g =
     \<lparr>ev_action = (if g = None then ''system.group.clear'' else ''system.group.set''), ev_outcome = ''success'',
      ev_actor = actor, ev_target = i, ev_label = [],
      ev_detail = [(''group_id'', DStr (case g of None \<Rightarrow> [] | Some x \<Rightarrow> x))]\<rparr>"

definition handle_set_group :: "scope \<Rightarrow> string \<Rightarrow> string \<Rightarrow> string option option \<Rightarrow> 'a group_db_scheme
    \<Rightarrow> stock_reply \<times> 'a group_db_scheme" where
  "handle_set_group sc actor i b w =
     (case b of
        None \<Rightarrow> (failed 400 ''invalid JSON'', w)
      | Some g \<Rightarrow>
          (case get_host i w of
             Inl e \<Rightarrow> (if e = HostNotFound then failed 404 ''system not found'' else failed 500 ''system lookup failed'', w)
           | Inr h \<Rightarrow>
               if \<not> can_move_system sc (sys_group h) g then (failed 403 ''forbidden'', w)
               else
                 (case (case g of None \<Rightarrow> Inr () | Some x \<Rightarrow> rbind (get_group x w) (\<lambda>_. Inr ())) of
                    Inl e \<Rightarrow> (if e = GroupNotFound then failed 404 ''group not found'' else failed 500 ''lookup failed'', w)
                  | Inr _ \<Rightarrow>
                      (case set_group i g w of
                         Inl e \<Rightarrow> (if e = HostNotFound then failed 404 ''system not found'' else failed 500 ''set group failed'', w)
                       | Inr w' \<Rightarrow>
                           (replied 204 StNoContent, broadcast changed_note (fleet_log (membership_event actor i g) w'))))))"

section \<open>The probe\<close>

text \<open>
  \<open>Probe.Tick\<close> over the systems it starts a goroutine for, which end in the order of the list; of
  a system that was deleted in the meantime the result is dropped. The number is the number of
  changed states.
\<close>

fun probe_all :: "int \<Rightarrow> int \<Rightarrow> (string \<Rightarrow> bool \<times> int) \<Rightarrow> string list \<Rightarrow> 'a host_db_scheme \<Rightarrow> nat \<times> 'a host_db_scheme" where
  "probe_all f s out [] w = (0, w)"
| "probe_all f s out (i # is) w =
     (case update_probe i (fst (out i)) (snd (out i)) f s w of
        Inl _ \<Rightarrow> probe_all f s out is w
      | Inr (b, w') \<Rightarrow> (case probe_all f s out is w' of (n, w'') \<Rightarrow> ((if b then 1 else 0) + n, w'')))"

text \<open>
  \<open>stopped\<close> says that the context ended before all listed systems were started: the cycle waits
  for the goroutines it has started, those of \<open>order\<close>, and returns without a word to the clients. \<open>order\<close> is None
  where the listing failed.
\<close>

definition probe_tick :: "int option \<Rightarrow> int option \<Rightarrow> (string \<Rightarrow> bool \<times> int) \<Rightarrow> bool \<Rightarrow> string list option
    \<Rightarrow> 'a fleet_db_scheme \<Rightarrow> 'a fleet_db_scheme" where
  "probe_tick lf ls out stopped order w =
     (case order of
        None \<Rightarrow> w
      | Some ids \<Rightarrow>
          (case probe_all (probe_threshold lf) (probe_threshold ls) out ids w of
             (n, w') \<Rightarrow> if stopped then w' else if 0 < n then broadcast changed_note w' else w'))"

section \<open>All routes\<close>

datatype stock_route =
    CreateSystem "(string \<times> string) option"
  | DeleteSystem string
  | SetPlatform string "bool option"
  | BulkEvent "bulk_event option"
  | SetLabels string string "string option option"
  | DropLabel string string
  | SetStyle string "string option"
  | DropStyle string
  | CreateGroup "string option"
  | RenameGroup string "string option"
  | DropGroup string
  | MoveSystem string "string option option"

text \<open>The routes that write; the others return the database as it is.\<close>

definition serve_stock :: "scope \<Rightarrow> string \<Rightarrow> string \<Rightarrow> int \<Rightarrow> stock_route \<Rightarrow> 'a stock_db_scheme \<Rightarrow> stock_reply \<times> 'a stock_db_scheme" where
  "serve_stock sc actor i now q w =
     (case q of
        CreateSystem b \<Rightarrow> handle_create_system sc actor i now b w
      | DeleteSystem s \<Rightarrow> handle_delete_system sc actor s w
      | SetPlatform s b \<Rightarrow> handle_set_platform sc actor s b w
      | BulkEvent b \<Rightarrow> handle_bulk_event actor b w
      | SetLabels s k b \<Rightarrow> handle_set_label sc actor s k b w
      | DropLabel s k \<Rightarrow> handle_delete_label sc actor s k w
      | SetStyle k b \<Rightarrow> handle_set_style sc actor k b w
      | DropStyle k \<Rightarrow> handle_delete_style sc actor k w
      | CreateGroup b \<Rightarrow> handle_create_group sc actor i now b w
      | RenameGroup g b \<Rightarrow> handle_rename_group sc actor g b w
      | DropGroup g \<Rightarrow> handle_delete_group sc actor g w
      | MoveSystem s g \<Rightarrow> handle_set_group sc actor s g w)"

end
