(* ===== verification/InventoryProps.thy ===== *)
theory InventoryProps
  imports InventoryServer
begin

text \<open>
  What the routes of the inventory keep: the tables stay consistent with one another, and a request
  changes nothing its user has no right to change.
\<close>

section \<open>Sound tables\<close>

definition stock_sound :: "'a stock_db_scheme \<Rightarrow> bool" where
  "stock_sound w =
     (sql_hosts_ok w \<and> sql_groups_ok w \<and> unique_rows (iv_labels w) \<and>
      (\<forall>h \<in> set (hd_hosts w). \<forall>g. sys_group h = Some g \<longrightarrow> group_at g w \<noteq> None) \<and>
      (\<forall>r \<in> set (iv_labels w). host_at (row_system r) w \<noteq> None \<and> validate_key (row_key r) False = Inr () \<and>
         validate_value (row_value r) = Inr ()) \<and>
      distinct (map fst (iv_styles w)) \<and> (\<forall>kc \<in> set (iv_styles w). snd kc \<in> set allowed_colors))"

section \<open>Rights\<close>

definition system_change_allowed :: "scope \<Rightarrow> 'a stock_db_scheme \<Rightarrow> 'a stock_db_scheme \<Rightarrow> string \<Rightarrow> bool" where
  "system_change_allowed sc w w' i =
     (case (host_at i w, host_at i w') of
        (None, None) \<Rightarrow> True
      | (None, Some h) \<Rightarrow> can_create_system sc \<and> sys_group h = None
      | (Some h, None) \<Rightarrow> can_delete_system sc (sys_group h)
      | (Some h, Some h') \<Rightarrow>
          h' = h \<or> h' = h\<lparr>sys_windows := sys_windows h'\<rparr> \<and> can_edit_system sc (sys_group h)
          \<or> h' = h\<lparr>sys_group := sys_group h'\<rparr> \<and>
            (can_move_system sc (sys_group h) (sys_group h') \<or> can_manage_groups sc \<and> sys_group h' = None))"

definition labels_change_allowed :: "scope \<Rightarrow> 'a stock_db_scheme \<Rightarrow> 'a stock_db_scheme \<Rightarrow> string \<Rightarrow> bool" where
  "labels_change_allowed sc w w' i =
     (sql_for_system (label_view w') i = sql_for_system (label_view w) i \<or>
      (case host_at i w of
         None \<Rightarrow> False
       | Some h \<Rightarrow> can_edit_system sc (sys_group h) \<or> can_delete_system sc (sys_group h) \<and> host_at i w' = None))"

definition change_allowed :: "scope \<Rightarrow> 'a stock_db_scheme \<Rightarrow> 'a stock_db_scheme \<Rightarrow> bool" where
  "change_allowed sc w w' =
     ((\<forall>i. system_change_allowed sc w w' i \<and> labels_change_allowed sc w w' i) \<and>
      (gd_groups w' = gd_groups w \<or> can_manage_groups sc) \<and> (iv_styles w' = iv_styles w \<or> is_global_admin sc))"

section \<open>Tables a request leaves alone\<close>

lemma logged_tables [simp]:
  "hd_hosts (fleet_log e w) = hd_hosts w" "hd_hosts (broadcast m w) = hd_hosts w"
  "gd_groups (fleet_log e v) = gd_groups v" "gd_groups (broadcast m v) = gd_groups v"
  "iv_labels (fleet_log e u) = iv_labels u" "iv_labels (broadcast m u) = iv_labels u"
  "iv_styles (fleet_log e u) = iv_styles u" "iv_styles (broadcast m u) = iv_styles u"
  by (simp_all add: fleet_log_def broadcast_def)

definition same_tables :: "'a stock_db_scheme \<Rightarrow> 'b stock_db_scheme \<Rightarrow> bool" where
  "same_tables w v = (hd_hosts w = hd_hosts v \<and> gd_groups w = gd_groups v \<and> iv_labels w = iv_labels v \<and> iv_styles w = iv_styles v)"

lemma tables_cong:
  assumes "same_tables w v"
  shows "host_at i w = host_at i v" "group_at i w = group_at i v" "sql_hosts_ok w = sql_hosts_ok v"
    "sql_groups_ok w = sql_groups_ok v" "label_view w = label_view v"
  using assms by (simp_all add: same_tables_def host_at_def group_at_def sql_hosts_ok_def sql_groups_ok_def label_view_def)

lemma sound_cong:
  assumes "same_tables w v"
  shows "stock_sound w = stock_sound v"
  unfolding stock_sound_def using assms by (simp add: tables_cong [OF assms] same_tables_def)

lemma allowed_cong:
  assumes "same_tables w' v"
  shows "change_allowed sc w w' = change_allowed sc w v"
  unfolding change_allowed_def system_change_allowed_def labels_change_allowed_def tables_cong [OF assms]
  using assms by (simp add: same_tables_def)

lemma logged_same [simp]: "same_tables (fleet_log e w) v = same_tables w v" "same_tables (broadcast m w) v = same_tables w v"
  by (simp_all add: same_tables_def)

lemma same_self [simp]: "same_tables w w"
  by (simp add: same_tables_def)

definition kept :: "scope \<Rightarrow> 'a stock_db_scheme \<Rightarrow> 'a stock_db_scheme \<Rightarrow> bool" where
  "kept sc w w' = (stock_sound w' \<and> change_allowed sc w w')"

lemma kept_same: "stock_sound w \<Longrightarrow> kept sc w w"
  unfolding kept_def change_allowed_def system_change_allowed_def labels_change_allowed_def
  by (auto split: option.splits)

lemma kept_logged [simp]: "kept sc w (fleet_log e w') = kept sc w w'" "kept sc w (broadcast m w') = kept sc w w'"
  unfolding kept_def using sound_cong [of "fleet_log e w'" w'] allowed_cong [of "fleet_log e w'" w' sc w]
    sound_cong [of "broadcast m w'" w'] allowed_cong [of "broadcast m w'" w' sc w] by simp_all

section \<open>One table changes\<close>

lemma labels_of: "sql_for_system (label_view w) i = map row_label (sort_key row_key (filter (\<lambda>r. row_system r = i) (iv_labels w)))"
  by (simp add: sql_for_system_def label_view_def)

lemma kept_host_update:
  assumes "stock_sound w" "host_at i w = Some h" "\<And>h. sys_id (f h) = sys_id h"
    and "\<And>g. sys_group (f h) = Some g \<Longrightarrow> group_at g w \<noteq> None"
    and "(\<exists>b. f h = h\<lparr>sys_windows := b\<rparr>) \<and> can_edit_system sc (sys_group h)
      \<or> (\<exists>g. f h = h\<lparr>sys_group := g\<rparr> \<and> can_move_system sc (sys_group h) g)"
  shows "kept sc w (w\<lparr>hd_hosts := update_where (\<lambda>h. sys_id h = i) f (hd_hosts w)\<rparr>)"
proof -
  let ?w = "w\<lparr>hd_hosts := update_where (\<lambda>h. sys_id h = i) f (hd_hosts w)\<rparr>"
  have at: "host_at j ?w = (if j = i then Some (f h) else host_at j w)" for j
    using host_at_changed [where f = f and j = j and i = i and db = w] assms(2,3) by simp
  have g: "group_at g ?w = group_at g w" for g by (simp add: group_at_def)
  have ok: "sql_hosts_ok ?w" "sql_groups_ok ?w"
    using assms(1,3) by (simp_all add: stock_sound_def sql_hosts_ok_def sql_groups_ok_def map_update_where)
  have unique: "x = h" if "x \<in> set (hd_hosts w)" "sys_id x = i" for x
    using that assms(1,2) host_at_SomeD [OF assms(2)] by (auto simp: stock_sound_def sql_hosts_ok_def distinct_map inj_on_def)
  have members: "\<forall>x \<in> set (hd_hosts ?w). \<forall>g. sys_group x = Some g \<longrightarrow> group_at g ?w \<noteq> None"
    using assms(1,4) unique unfolding g by (auto simp: stock_sound_def)
  have "stock_sound ?w" using assms(1) ok members unfolding stock_sound_def by (simp add: at g)
  moreover have "change_allowed sc w ?w"
    using assms(2,5) unfolding change_allowed_def system_change_allowed_def labels_change_allowed_def
    by (auto simp: at labels_of split: option.splits)
  ultimately show ?thesis by (simp add: kept_def)
qed

lemma kept_new_host:
  assumes "stock_sound w" "host_at i w = None" "sys_id h = i" "sys_group h = None" "can_create_system sc"
  shows "kept sc w (w\<lparr>hd_hosts := hd_hosts w @ [h]\<rparr>)"
proof -
  let ?w = "w\<lparr>hd_hosts := hd_hosts w @ [h]\<rparr>"
  have at: "host_at j ?w = (if j = i then Some h else host_at j w)" for j
    using assms(2,3) by (auto simp: host_at_def find_append split: option.splits)
  have g: "group_at g ?w = group_at g w" for g by (simp add: group_at_def)
  have "stock_sound ?w"
    using assms unfolding stock_sound_def
    by (auto simp: at g sql_hosts_ok_def sql_groups_ok_def host_at_def find_None_iff)
  moreover have "change_allowed sc w ?w"
    using assms unfolding change_allowed_def system_change_allowed_def labels_change_allowed_def
    by (auto simp: at labels_of split: option.splits)
  ultimately show ?thesis by (simp add: kept_def)
qed

lemma kept_drop_host:
  assumes "stock_sound w" "host_at i w = Some h" "can_delete_system sc (sys_group h)"
    and "hd_hosts w' = delete_where (\<lambda>h. sys_id h = i) (hd_hosts w)" "gd_groups w' = gd_groups w"
    and "iv_labels w' = delete_where (\<lambda>r. row_system r = i) (iv_labels w)" "iv_styles w' = iv_styles w"
  shows "kept sc w w'"
proof -
  have at: "host_at j w' = (if j = i then None else host_at j w)" for j
    unfolding host_at_def assms(4) by (auto simp: find_delete_where_same find_delete_where_other)
  have g: "group_at g w' = group_at g w" for g by (simp add: group_at_def assms(5))
  have l: "j \<noteq> i \<Longrightarrow> sql_for_system (label_view w') j = sql_for_system (label_view w) j" for j
    unfolding labels_of assms(6) delete_where_def by (auto simp: filter_filter intro!: arg_cong [where f = "\<lambda>x. map row_label (sort_key row_key x)"] filter_cong)
  have "unique_rows (iv_labels w')" using assms(1) by (simp add: stock_sound_def unique_rows_def assms(6) distinct_map_delete_where)
  then have "stock_sound w'"
    using assms(1) unfolding stock_sound_def
    by (auto simp: at g sql_hosts_ok_def sql_groups_ok_def assms(4-7) distinct_map_delete_where)
  moreover have "change_allowed sc w w'"
    using assms(2,3) l unfolding change_allowed_def system_change_allowed_def labels_change_allowed_def
    by (auto simp: at assms(5,7) split: option.splits)
  ultimately show ?thesis by (simp add: kept_def)
qed

lemma kept_labels:
  assumes "stock_sound w" "host_at i w = Some h" "can_edit_system sc (sys_group h)"
    and "unique_rows rows" "\<And>j. j \<noteq> i \<Longrightarrow> filter (\<lambda>r. row_system r = j) rows = filter (\<lambda>r. row_system r = j) (iv_labels w)"
    and "\<And>r. r \<in> set rows \<Longrightarrow> r \<in> set (iv_labels w) \<or>
      row_system r = i \<and> validate_key (row_key r) False = Inr () \<and> validate_value (row_value r) = Inr ()"
  shows "kept sc w (w\<lparr>iv_labels := rows\<rparr>)"
proof -
  let ?w = "w\<lparr>iv_labels := rows\<rparr>"
  have at: "host_at j ?w = host_at j w" "group_at j ?w = group_at j w" for j by (simp_all add: host_at_def group_at_def)
  have ok: "sql_hosts_ok ?w = sql_hosts_ok w" "sql_groups_ok ?w = sql_groups_ok w"
    by (simp_all add: sql_hosts_ok_def sql_groups_ok_def)
  have "\<forall>r \<in> set rows. host_at (row_system r) w \<noteq> None \<and> validate_key (row_key r) False = Inr () \<and>
      validate_value (row_value r) = Inr ()"
    using assms(1,2,6) unfolding stock_sound_def by blast
  then have "stock_sound ?w" using assms(1,4) unfolding stock_sound_def by (simp add: at ok)
  moreover have "labels_change_allowed sc w ?w j" for j
    using assms(2,3) assms(5) [of j] unfolding labels_change_allowed_def labels_of by (cases "j = i") auto
  then have "change_allowed sc w ?w"
    unfolding change_allowed_def system_change_allowed_def by (auto simp: at split: option.splits)
  ultimately show ?thesis by (simp add: kept_def)
qed

lemma kept_styles:
  assumes "stock_sound w" "is_global_admin sc" "distinct (map fst st)" "\<forall>kc \<in> set st. snd kc \<in> set allowed_colors"
  shows "kept sc w (w\<lparr>iv_styles := st\<rparr>)"
proof -
  let ?w = "w\<lparr>iv_styles := st\<rparr>"
  have at: "host_at j ?w = host_at j w" "group_at j ?w = group_at j w" for j by (simp_all add: host_at_def group_at_def)
  have ok: "sql_hosts_ok ?w = sql_hosts_ok w" "sql_groups_ok ?w = sql_groups_ok w" "label_view ?w = label_view w"
    by (simp_all add: sql_hosts_ok_def sql_groups_ok_def label_view_def)
  show ?thesis
    using assms unfolding kept_def stock_sound_def change_allowed_def system_change_allowed_def labels_change_allowed_def
    by (auto simp: at ok split: option.splits)
qed

lemma kept_groups:
  assumes "stock_sound w" "can_manage_groups sc" "sql_groups_ok w'" "hd_hosts w' = hd_hosts w" "iv_labels w' = iv_labels w"
    "iv_styles w' = iv_styles w" "\<And>g. group_at g w \<noteq> None \<Longrightarrow> group_at g w' \<noteq> None"
  shows "kept sc w w'"
proof -
  have at: "host_at j w' = host_at j w" for j by (simp add: host_at_def assms(4))
  have "stock_sound w'"
    using assms unfolding stock_sound_def at sql_hosts_ok_def by simp
  moreover have "change_allowed sc w w'"
    using assms(2) unfolding change_allowed_def system_change_allowed_def labels_change_allowed_def at labels_of assms(5,6)
    by (auto split: option.splits)
  ultimately show ?thesis by (simp add: kept_def)
qed

lemma kept_drop_group:
  assumes "stock_sound w" "can_manage_groups sc" "delete_group i w = Inr w'"
  shows "kept sc w w'"
proof -
  let ?f = "\<lambda>h. h\<lparr>sys_group := None\<rparr>"
  have s: "sql_groups_ok w" "sql_hosts_ok w" using assms(1) by (simp_all add: stock_sound_def)
  note d = sql_remove_spec [OF s(1) assms(3)]
  have hosts: "hd_hosts w' = update_where (\<lambda>h. sys_group h = Some i) ?f (hd_hosts w)"
    and rest: "iv_labels w' = iv_labels w" "iv_styles w' = iv_styles w"
    using assms(3) by (auto simp: delete_group_def clear_group_def split: if_splits)
  have at: "host_at j w' = map_option (\<lambda>h. if sys_group h = Some i then ?f h else h) (host_at j w)" for j
    unfolding host_at_def hosts by (rule host_at_update_where) simp
  have g: "group_at g w' = (if g = i then None else group_at g w)" for g using fun_cong [OF d(2), of g] by simp
  have "sql_hosts_ok w'" using s(2) by (simp add: sql_hosts_ok_def hosts map_update_where)
  moreover have "\<forall>h \<in> set (hd_hosts w'). \<forall>g. sys_group h = Some g \<longrightarrow> group_at g w' \<noteq> None"
    using assms(1) by (auto simp: hosts g stock_sound_def split: if_splits)
  ultimately have "stock_sound w'" using assms(1) d(1) unfolding stock_sound_def rest by (simp add: at)
  moreover have "change_allowed sc w w'"
    using assms(2) unfolding change_allowed_def system_change_allowed_def labels_change_allowed_def at labels_of rest
    by (auto split: option.splits)
  ultimately show ?thesis by (simp add: kept_def)
qed

section \<open>The routes\<close>

lemma visible_systemD:
  "visible_system m sc i w = Inr h \<Longrightarrow> host_at i w = Some h \<and> sys_id h = i \<and> can_read_host sc h"
  using host_at_SomeD [of i w] by (auto simp: visible_system_def get_host_def split: option.splits if_splits)

lemma editable_systemD:
  "editable_system sc i w = Inr h \<Longrightarrow> host_at i w = Some h \<and> sys_id h = i \<and> can_edit_system sc (sys_group h)"
  by (auto simp: editable_system_def split: if_splits dest: visible_systemD)

lemma create_system_keeps:
  assumes "stock_sound w" "handle_create_system sc actor i now b w = (r, w')"
  shows "kept sc w w'"
proof (cases "w' = w")
  case False
  then obtain x h v where c: "create_host i now x w = Inr (h, v)" and p: "can_create_system sc" and w': "same_tables w' v"
    using assms(2) by (auto simp: handle_create_system_def split: if_splits option.splits sum.splits host_error.splits)
  from c have h: "host_at i w = None" "h = fresh_host i now x" "v = w\<lparr>hd_hosts := hd_hosts w @ [h]\<rparr>"
    by (auto simp: create_host_def split: sum.splits if_splits)
  have "kept sc w v" unfolding h(3) by (rule kept_new_host [OF assms(1) h(1) _ _ p]) (simp_all add: h(2) fresh_host_def)
  then show ?thesis using sound_cong [OF w'] allowed_cong [OF w'] by (simp add: kept_def)
qed (use assms in \<open>simp add: kept_same\<close>)

lemma delete_system_keeps:
  assumes "stock_sound w" "handle_delete_system sc actor i w = (r, w')"
  shows "kept sc w w'"
proof (cases "w' = w")
  case False
  then obtain h v where c: "drop_system (sys_id h) w = Inr v" and p: "can_delete_system sc (sys_group h)"
    and h: "visible_system ''delete lookup failed'' sc i w = Inr h" and w': "same_tables w' v"
    using assms(2) by (auto simp: handle_delete_system_def split: if_splits option.splits sum.splits host_error.splits)
  note h = visible_systemD [OF h]
  from c have "hd_hosts v = delete_where (\<lambda>x. sys_id x = i) (hd_hosts w)" "gd_groups v = gd_groups w"
    "iv_labels v = delete_where (\<lambda>r. row_system r = i) (iv_labels w)" "iv_styles v = iv_styles w"
    using h by (auto simp: drop_system_def remove_system_def delete_host_def cleanup_exporters_def cleanup_updaters_def split: if_splits)
  with kept_drop_host [OF assms(1) _ p] h have "kept sc w v" by blast
  then show ?thesis using sound_cong [OF w'] allowed_cong [OF w'] by (simp add: kept_def)
qed (use assms in \<open>simp add: kept_same\<close>)

lemma set_platform_keeps:
  assumes "stock_sound w" "handle_set_platform sc actor i b w = (r, w')"
  shows "kept sc w w'"
proof (cases "w' = w")
  case False
  then obtain h v win where c: "set_platform (sys_id h) win w = Inr v" and p: "can_edit_system sc (sys_group h)"
    and h: "visible_system ''platform lookup failed'' sc i w = Inr h" and w': "same_tables w' v"
    using assms(2) by (auto simp: handle_set_platform_def split: if_splits option.splits sum.splits host_error.splits)
  note h = visible_systemD [OF h]
  let ?f = "\<lambda>h. h\<lparr>sys_windows := win\<rparr>"
  from c h have v: "v = w\<lparr>hd_hosts := update_where (\<lambda>x. sys_id x = i) ?f (hd_hosts w)\<rparr>"
    by (auto simp: set_platform_def update_host_eq)
  have "group_at g w \<noteq> None" if "sys_group (?f h) = Some g" for g
    using that assms(1) h host_at_SomeD [of i w h] by (auto simp: stock_sound_def)
  then have "kept sc w v" unfolding v using h p by (intro kept_host_update [OF assms(1)]) auto
  then show ?thesis using sound_cong [OF w'] allowed_cong [OF w'] by (simp add: kept_def)
qed (use assms in \<open>simp add: kept_same\<close>)

lemma set_group_keeps:
  assumes "stock_sound w" "handle_set_group sc actor i b w = (r, w')"
  shows "kept sc w w'"
proof (cases "w' = w")
  case False
  obtain g where b: "b = Some g" using False assms(2) by (cases b) (auto simp: handle_set_group_def)
  have "\<exists>h v. set_group i g w = Inr v \<and> can_move_system sc (sys_group h) g \<and> get_host i w = Inr h \<and> same_tables w' v
      \<and> (\<forall>x. g = Some x \<longrightarrow> group_at x w \<noteq> None)"
    using False assms(2) unfolding b
    by (cases g) (auto simp: handle_set_group_def get_group_def split: if_splits option.splits sum.splits)
  then obtain h v where c: "set_group i g w = Inr v" and p: "can_move_system sc (sys_group h) g"
    and h: "get_host i w = Inr h" and w': "same_tables w' v" and g: "\<forall>x. g = Some x \<longrightarrow> group_at x w \<noteq> None" by blast
  from h have h: "host_at i w = Some h" by (simp add: get_host_def split: option.splits)
  let ?f = "\<lambda>h. h\<lparr>sys_group := g\<rparr>"
  from c h have v: "v = w\<lparr>hd_hosts := update_where (\<lambda>x. sys_id x = i) ?f (hd_hosts w)\<rparr>"
    by (auto simp: set_group_def update_host_eq)
  have "kept sc w v" unfolding v using h p g by (intro kept_host_update [OF assms(1)]) auto
  then show ?thesis using sound_cong [OF w'] allowed_cong [OF w'] by (simp add: kept_def)
qed (use assms in \<open>simp add: kept_same\<close>)

lemma filter_upsert_other:
  assumes "j \<noteq> i"
  shows "filter (\<lambda>r. row_system r = j) (upsert_row i k v rows) = filter (\<lambda>r. row_system r = j) rows"
proof -
  have "filter (\<lambda>r. row_system r = j) (update_where (row_at i k) (\<lambda>r. r\<lparr>row_value := v\<rparr>) rows) = filter (\<lambda>r. row_system r = j) rows"
    using assms by (induction rows) (auto simp: update_where_def row_at_def)
  then show ?thesis using assms by (simp add: upsert_row_def)
qed

lemma in_upsert: "r \<in> set (upsert_row i k v rows) \<Longrightarrow> r \<in> set rows \<or> row_system r = i \<and> row_key r = k \<and> row_value r = v"
  by (auto simp: upsert_row_def row_at_def split: if_splits)

lemma set_label_keeps:
  assumes "stock_sound w" "handle_set_label sc actor i k b w = (r, w')"
  shows "kept sc w w'"
proof (cases "w' = w")
  case False
  then obtain h v l s where c: "sql_set (label_view w) (sys_id h) k v False = (Inr l, s)"
    and h: "editable_system sc i w = Inr h" and w': "same_tables w' (w\<lparr>iv_labels := sl_rows s\<rparr>)"
    using assms(2) by (auto simp: handle_set_label_def split: if_splits option.splits sum.splits label_error.splits prod.splits)
  note h = editable_systemD [OF h]
  have ok: "is_ok (fst (sql_set (label_view w) i k v False))" using c h by simp
  have rows: "sl_rows s = upsert_row i k v (iv_labels w)"
    using sql_set_state [of "label_view w" i k v False] ok c h by (simp add: label_view_def)
  have kv: "validate_key k False = Inr ()" "validate_value v = Inr ()" using ok by (simp_all add: sql_set_ok)
  have "kept sc w (w\<lparr>iv_labels := sl_rows s\<rparr>)"
    unfolding rows using h kv assms(1)
    by (intro kept_labels [OF assms(1)])
      (auto simp: filter_upsert_other unique_rows_upsert stock_sound_def dest: in_upsert)
  then show ?thesis using sound_cong [OF w'] allowed_cong [OF w'] by (simp add: kept_def)
qed (use assms in \<open>simp add: kept_same\<close>)

lemma delete_label_keeps:
  assumes "stock_sound w" "handle_delete_label sc actor i k w = (r, w')"
  shows "kept sc w w'"
proof (cases "w' = w")
  case False
  then obtain h l s where c: "sql_delete (label_view w) (sys_id h) k = (Inr l, s)"
    and h: "editable_system sc i w = Inr h" and w': "same_tables w' (w\<lparr>iv_labels := sl_rows s\<rparr>)"
    using assms(2) by (auto simp: handle_delete_label_def split: if_splits option.splits sum.splits label_error.splits prod.splits)
  note h = editable_systemD [OF h]
  have rows: "sl_rows s = delete_where (row_at i k) (iv_labels w)"
    using sql_delete_state [of "label_view w" i k] c h by (simp add: label_view_def)
  have f: "j \<noteq> i \<Longrightarrow> filter (\<lambda>r. row_system r = j) (delete_where (row_at i k) (iv_labels w)) =
      filter (\<lambda>r. row_system r = j) (iv_labels w)" for j
    by (auto simp: delete_where_def row_at_def intro: filter_cong)
  have "kept sc w (w\<lparr>iv_labels := sl_rows s\<rparr>)"
    unfolding rows using h assms(1) f
    by (intro kept_labels [OF assms(1)]) (auto simp: stock_sound_def unique_rows_def distinct_map_delete_where)
  then show ?thesis using sound_cong [OF w'] allowed_cong [OF w'] by (simp add: kept_def)
qed (use assms in \<open>simp add: kept_same\<close>)

lemma alist_put_values: "\<forall>x \<in> set m. P (snd x) \<Longrightarrow> P v \<Longrightarrow> \<forall>x \<in> set (alist_put k v m). P (snd x)"
  by (induction k v m rule: alist_put.induct) auto

lemma styles_keep:
  assumes "stock_sound w"
  shows "handle_set_style sc actor k b w = (r, w') \<Longrightarrow> kept sc w w'"
    and "handle_delete_style sc actor k w = (r, w') \<Longrightarrow> kept sc w w'"
proof -
  have st: "distinct (map fst (iv_styles w))" "\<forall>kc \<in> set (iv_styles w). snd kc \<in> set allowed_colors"
    using assms by (simp_all add: stock_sound_def)
  have put: "(a, d) \<in> set (alist_put k c (iv_styles w)) \<Longrightarrow> c \<in> set allowed_colors \<Longrightarrow> d \<in> set allowed_colors" for a c d
    using alist_put_values [of "iv_styles w" "\<lambda>c. c \<in> set allowed_colors" c k] st(2) by fastforce
  show "handle_set_style sc actor k b w = (r, w') \<Longrightarrow> kept sc w w'"
    using assms st(1)
    by (auto simp: handle_set_style_def set_style_def validate_color_def kept_same
        split: if_splits option.splits sum.splits intro!: kept_styles) (use put in blast)
  show "handle_delete_style sc actor k w = (r, w') \<Longrightarrow> kept sc w w'"
    using assms st
    by (auto simp: handle_delete_style_def delete_style_def kept_same alist_del_def distinct_map_filter
        split: if_splits option.splits sum.splits label_error.splits intro!: kept_styles) (use st(2) in force)
qed

lemma create_group_keeps:
  assumes "stock_sound w" "handle_create_group sc actor i now b w = (r, w')"
  shows "kept sc w w'"
proof (cases "w' = w")
  case False
  then obtain n g v where c: "create_group i now n w = Inr (g, v)" and p: "can_manage_groups sc" and w': "same_tables w' v"
    using assms(2) by (auto simp: handle_create_group_def split: if_splits option.splits sum.splits group_error.splits)
  have s: "sql_groups_ok w" using assms(1) by (simp add: stock_sound_def)
  have v: "hd_hosts v = hd_hosts w" "iv_labels v = iv_labels w" "iv_styles v = iv_styles w" "group_at i w = None"
    using c by (auto simp: create_group_def Let_def split: if_splits)
  note d = sql_create_spec [OF s v(4) c]
  have "group_at x w \<noteq> None \<Longrightarrow> group_at x v \<noteq> None" for x using fun_cong [OF d(4), of x] by simp
  then have "kept sc w v" by (intro kept_groups [OF assms(1) p d(1) v(1-3)])
  then show ?thesis using sound_cong [OF w'] allowed_cong [OF w'] by (simp add: kept_def)
qed (use assms in \<open>simp add: kept_same\<close>)

lemma rename_group_keeps:
  assumes "stock_sound w" "handle_rename_group sc actor i b w = (r, w')"
  shows "kept sc w w'"
proof (cases "w' = w")
  case False
  then obtain n g v where c: "rename_group i n w = Inr (g, v)" and p: "can_manage_groups sc" and w': "same_tables w' v"
    using assms(2) by (auto simp: handle_rename_group_def split: if_splits option.splits sum.splits)
  have s: "sql_groups_ok w" using assms(1) by (simp add: stock_sound_def)
  have v: "hd_hosts v = hd_hosts w" "iv_labels v = iv_labels w" "iv_styles v = iv_styles w"
    using c by (auto simp: rename_group_def Let_def split: if_splits)
  note d = sql_rename_spec [OF s c]
  have "group_at x w \<noteq> None \<Longrightarrow> group_at x v \<noteq> None" for x using fun_cong [OF d(4), of x] by simp
  then have "kept sc w v" by (intro kept_groups [OF assms(1) p d(1) v(1-3)])
  then show ?thesis using sound_cong [OF w'] allowed_cong [OF w'] by (simp add: kept_def)
qed (use assms in \<open>simp add: kept_same\<close>)

lemma delete_group_keeps:
  assumes "stock_sound w" "handle_delete_group sc actor i w = (r, w')"
  shows "kept sc w w'"
proof (cases "w' = w")
  case False
  then obtain v where c: "delete_group i w = Inr v" and p: "can_manage_groups sc" and w': "same_tables w' v"
    using assms(2) by (auto simp: handle_delete_group_def split: if_splits option.splits sum.splits)
  have "kept sc w v" by (rule kept_drop_group [OF assms(1) p c])
  then show ?thesis using sound_cong [OF w'] allowed_cong [OF w'] by (simp add: kept_def)
qed (use assms in \<open>simp add: kept_same\<close>)

lemma bulk_event_keeps: "stock_sound w \<Longrightarrow> handle_bulk_event actor b w = (r, w') \<Longrightarrow> kept sc w w'"
  by (auto simp: handle_bulk_event_def kept_same split: option.splits if_splits)

lemmas routes_keep = create_system_keeps delete_system_keeps set_platform_keeps bulk_event_keeps set_label_keeps
  delete_label_keeps styles_keep create_group_keeps rename_group_keeps delete_group_keeps set_group_keeps

lemma serve_keeps: "stock_sound w \<Longrightarrow> serve_stock sc actor i now q w = (r, w') \<Longrightarrow> kept sc w w'"
  by (cases q) (auto simp: serve_stock_def elim: routes_keep)

section \<open>Properties\<close>

text \<open>
  C34: every request to the inventory keeps its tables consistent: ids and group names unique, every
  membership and every label points to a group or a system that exists (after deletions as well),
  keys and values of labels valid and none reserved, one style per key with an allowed colour.
\<close>

theorem inventory_stays_sound:
  assumes "stock_sound w" "serve_stock sc actor i now q w = (r, w')"
  shows "stock_sound w'"
  using serve_keeps [OF assms] by (simp add: kept_def)

text \<open>
  C35: what a request changes, its user was allowed to change: a system appears only for one who may
  create systems and ungrouped, disappears only for one who may delete it, changes its platform
  only for an editor, its group only for one who may move it between the two groups (or by the
  deletion of the group), its labels only for an editor (or with the system); groups change only
  for one who manages groups and styles only for a global admin.
\<close>

theorem inventory_changes_are_allowed:
  assumes "stock_sound w" "serve_stock sc actor i now q w = (r, w')"
  shows "change_allowed sc w w'"
  using serve_keeps [OF assms] by (simp add: kept_def)

section \<open>The list\<close>

lemma matching_views_filter:
  "\<forall>v \<in> set vs. sel_matches sel (sv_labels v) \<noteq> None \<Longrightarrow>
    matching_views sel vs = Some (filter (\<lambda>v. sel_matches sel (sv_labels v) = Some True) vs)"
  by (induction vs) auto

lemma enriched_labels: "i \<in> set ids \<Longrightarrow> unique_rows (iv_labels w) \<Longrightarrow>
    (case sql_for_systems (label_view w) ids i of None \<Rightarrow> [] | Some ls \<Rightarrow> ls) = sql_for_system (label_view w) i"
  by (rule sql_store.many_default) (simp_all add: sql_inv_def label_view_def)

text \<open>
  C36: the list of systems holds, in order of creation, exactly the systems the user may read
  whose labels match the selector of the query, each with its labels; a selector that cannot
  be parsed is a 400.
\<close>

theorem systems_list_is_readable_and_selected:
  assumes "stock_sound w" "parse_selector raw = Inr sel" "raw \<noteq> []"
  shows "\<exists>vs. handle_list_systems C sc raw w = Some (replied 200 (StSystems vs)) \<and>
     map sv_host vs = filter (\<lambda>h. can_read_host sc h \<and> sel_matches sel (sql_for_system (label_view w) (sys_id h)) = Some True)
       (list_hosts w) \<and>
     (\<forall>v \<in> set vs. sv_labels v = sql_for_system (label_view w) (sys_id (sv_host v)))"
proof -
  define rows where "rows = filter (can_read_host sc) (list_hosts w)"
  define views where "views = map (enrich C w (map sys_id rows)) rows"
  define match :: "system_view \<Rightarrow> bool" where "match = (\<lambda>v. sel_matches sel (sv_labels v) = Some True)"
  have u: "unique_rows (iv_labels w)" using assms(1) by (simp add: stock_sound_def)
  have lab: "sv_labels (enrich C w (map sys_id rows) h) = sql_for_system (label_view w) (sys_id h)" if "h \<in> set rows" for h
    using enriched_labels [OF _ u, of "sys_id h" "map sys_id rows"] that by (simp add: enrich_def)
  have host: "sv_host (enrich C w ids h) = h" for ids h by (simp add: enrich_def)
  have total: "sel_matches sel ls \<noteq> None" for ls by (rule sel_matches_total) (use assms(2) in \<open>auto dest: parse_selector_wf\<close>)
  have "sel = [] \<Longrightarrow> filter match views = views" by (simp add: match_def sel_matches_def)
  then have reply: "handle_list_systems C sc raw w = Some (replied 200 (StSystems (filter match views)))"
    using assms(2,3) matching_views_filter [of views sel] total
    by (auto simp: handle_list_systems_def Let_def match_def simp flip: rows_def views_def)
  have "map sv_host (filter match views) =
      filter (\<lambda>h. sel_matches sel (sql_for_system (label_view w) (sys_id h)) = Some True) rows"
    unfolding views_def filter_map map_map using lab host by (simp add: match_def o_def cong: filter_cong)
  then have hosts: "map sv_host (filter match views) =
      filter (\<lambda>h. can_read_host sc h \<and> sel_matches sel (sql_for_system (label_view w) (sys_id h)) = Some True) (list_hosts w)"
    by (simp add: rows_def conj_commute)
  have "\<forall>v \<in> set (filter match views). sv_labels v = sql_for_system (label_view w) (sys_id (sv_host v))"
    using lab host by (auto simp: views_def)
  with reply hosts show ?thesis by blast
qed

section \<open>The probe\<close>

text \<open>Of one system: its probes in the order of the list.\<close>

lemma update_probe_at:
  "update_probe i ok t f s w = Inr (b, w') \<Longrightarrow>
    host_at j w' = (if j = i then map_option (probe_host ok t f s) (host_at j w) else host_at j w)"
  by (auto simp: update_probe_def host_at_changed probe_host_def Let_def split: option.splits)

lemma probe_all_at:
  assumes "distinct ids" "probe_all f s out ids w = (n, w')"
  shows "host_at j w' = (if j \<in> set ids then map_option (probe_host (fst (out j)) (snd (out j)) f s) (host_at j w) else host_at j w)
     \<and> n = length (filter (\<lambda>i. case host_at i w of None \<Rightarrow> False
         | Some h \<Rightarrow> sys_status (probe_host (fst (out i)) (snd (out i)) f s h) \<noteq> sys_status h) ids)"
  using assms
proof (induction ids arbitrary: w n)
  case (Cons i ids)
  show ?case
  proof (cases "update_probe i (fst (out i)) (snd (out i)) f s w")
    case (Inl e)
    then have "host_at i w = None" by (auto simp: update_probe_def split: option.splits)
    with Inl Cons show ?thesis by auto
  next
    case (Inr bv)
    obtain b v where bv: "bv = (b, v)" by force
    obtain m where m: "probe_all f s out ids v = (m, w')" "n = (if b then 1 else 0) + m"
      using Cons.prems(2) Inr bv by (auto split: prod.splits)
    have at: "host_at k v = (if k = i then map_option (probe_host (fst (out i)) (snd (out i)) f s) (host_at k w) else host_at k w)" for k
      using update_probe_at Inr bv by blast
    have i: "i \<notin> set ids" "distinct ids" using Cons.prems(1) by auto
    have b: "b \<longleftrightarrow> (case host_at i w of None \<Rightarrow> False
         | Some h \<Rightarrow> sys_status (probe_host (fst (out i)) (snd (out i)) f s h) \<noteq> sys_status h)"
      using Inr bv by (auto simp: update_probe_def split: option.splits)
    have "filter (\<lambda>i. case host_at i v of None \<Rightarrow> False
         | Some h \<Rightarrow> sys_status (probe_host (fst (out i)) (snd (out i)) f s h) \<noteq> sys_status h) ids =
      filter (\<lambda>i. case host_at i w of None \<Rightarrow> False
         | Some h \<Rightarrow> sys_status (probe_host (fst (out i)) (snd (out i)) f s h) \<noteq> sys_status h) ids"
      using i at by (intro filter_cong) auto
    with Cons.IH [OF i(2) m(1)] at i b m(2) show ?thesis by auto
  qed
qed simp

lemma probe_all_notes: "probe_all f s out ids w = (n, w') \<Longrightarrow> fd_notes w' = fd_notes w"
  for w :: "'a fleet_db_scheme"
  by (induction ids arbitrary: w n) (auto simp: update_probe_def split: option.splits sum.splits prod.splits if_splits)

text \<open>A system is in another status after its probe.\<close>

definition flips :: "int \<Rightarrow> int \<Rightarrow> (string \<Rightarrow> bool \<times> int) \<Rightarrow> 'a host_db_scheme \<Rightarrow> string \<Rightarrow> bool" where
  "flips f s out w i =
     (case host_at i w of None \<Rightarrow> False
      | Some h \<Rightarrow> sys_status (probe_host (fst (out i)) (snd (out i)) f s h) \<noteq> sys_status h)"

lemma probe_tick_spec:
  assumes "distinct ids" "f = probe_threshold lf" "s = probe_threshold ls"
  shows "host_at i (probe_tick lf ls out stopped (Some ids) w) =
      (if i \<in> set ids then map_option (probe_host (fst (out i)) (snd (out i)) f s) (host_at i w) else host_at i w)"
    and "fd_notes (probe_tick lf ls out stopped (Some ids) w) =
      fd_notes w @ (if \<not> stopped \<and> (\<exists>j \<in> set ids. flips f s out w j) then [changed_note] else [])"
proof -
  obtain n w' where a: "probe_all f s out ids w = (n, w')" by force
  note p = probe_all_at [OF assms(1) a]
  have n: "0 < n \<longleftrightarrow> (\<exists>j \<in> set ids. flips f s out w j)"
    using p by (auto simp: flips_def [abs_def] filter_empty_conv)
  have t: "probe_tick lf ls out stopped (Some ids) w = (if \<not> stopped \<and> 0 < n then broadcast changed_note w' else w')"
    using a by (simp add: probe_tick_def assms(2,3))
  show "host_at i (probe_tick lf ls out stopped (Some ids) w) =
      (if i \<in> set ids then map_option (probe_host (fst (out i)) (snd (out i)) f s) (host_at i w) else host_at i w)"
    using p [of i] unfolding t by (simp add: host_at_def)
  show "fd_notes (probe_tick lf ls out stopped (Some ids) w) =
      fd_notes w @ (if \<not> stopped \<and> (\<exists>j \<in> set ids. flips f s out w j) then [changed_note] else [])"
    unfolding t using probe_all_notes [OF a] n by (simp add: broadcast_def)
qed

text \<open>
  C37: a cycle of the probe does not depend on the order in which its goroutines end: in any two
  orders of the same systems every system it probed ends as its probe leaves it, the others as they were. If the
  cycle was not stopped, the clients are told once if some status changed and not at all otherwise; a cycle that
  the end of the process stopped half-way writes the results it has and tells nobody.
\<close>

theorem probe_order_is_irrelevant:
  assumes "distinct ids" "distinct js" "set js = set ids" "f = probe_threshold lf" "s = probe_threshold ls"
  shows "host_at i (probe_tick lf ls out stopped (Some js) w) = host_at i (probe_tick lf ls out stopped (Some ids) w) \<and>
    fd_notes (probe_tick lf ls out stopped (Some js) w) = fd_notes (probe_tick lf ls out stopped (Some ids) w) \<and>
    host_at i (probe_tick lf ls out stopped (Some ids) w) =
      (if i \<in> set ids then map_option (probe_host (fst (out i)) (snd (out i)) f s) (host_at i w) else host_at i w) \<and>
    fd_notes (probe_tick lf ls out stopped (Some ids) w) =
      fd_notes w @ (if \<not> stopped \<and> (\<exists>j \<in> set ids. flips f s out w j) then [changed_note] else [])"
  by (simp add: probe_tick_spec [OF assms(1,4,5)] probe_tick_spec [OF assms(2,4,5)] assms(3))

section \<open>Witnesses\<close>

definition demo_stock :: stock_db where
  "demo_stock = \<lparr>hd_hosts = [(fresh_host ''s'' 1 (''web'', ''web.lan''))\<lparr>sys_group := Some ''g''\<rparr>, fresh_host ''t'' 2 (''db'', ''db.lan'')],
     ld_locks = [], ud_defs = [], ud_avail = [], ud_runs = [], rd_exclusions = [], rd_holds = [], fd_audit = [], fd_notes = [],
     xd_defs = [], xd_rows = [], xd_modes = [], xd_runs = [], gd_groups = [\<lparr>gr_id = ''g'', gr_name = ''east'', gr_created = 1\<rparr>],
     iv_labels = [\<lparr>row_system = ''s'', row_key = ''env'', row_value = Some ''prod''\<rparr>], iv_styles = [(''env'', ''blue'')]\<rparr>"

definition admin_scope :: scope where
  "admin_scope = \<lparr>sc_user = ''ann'', sc_rows = [], sc_global = role_admin, sc_groups = []\<rparr>"

lemma demo_stock_sound: "stock_sound demo_stock"
proof -
  have "sql_hosts_ok demo_stock \<and> sql_groups_ok demo_stock \<and> unique_rows (iv_labels demo_stock)" by code_simp
  moreover have "list_all (\<lambda>h. case sys_group h of None \<Rightarrow> True | Some g \<Rightarrow> group_at g demo_stock \<noteq> None) (hd_hosts demo_stock)"
    by code_simp
  moreover have "list_all (\<lambda>r. host_at (row_system r) demo_stock \<noteq> None \<and> validate_key (row_key r) False = Inr () \<and>
      validate_value (row_value r) = Inr ()) (iv_labels demo_stock)" by code_simp
  moreover have "distinct (map fst (iv_styles demo_stock)) \<and> list_all (\<lambda>kc. snd kc \<in> set allowed_colors) (iv_styles demo_stock)"
    by code_simp
  ultimately show ?thesis by (auto simp: stock_sound_def list_all_iff)
qed

lemma inventory_stays_sound_witness:
  "stock_sound (snd (serve_stock admin_scope ''ann'' ''x'' 5 (DropGroup ''g'') demo_stock)) \<and>
   map sys_group (hd_hosts (snd (serve_stock admin_scope ''ann'' ''x'' 5 (DropGroup ''g'') demo_stock))) = [None, None]"
proof -
  have "map sys_group (hd_hosts (snd (serve_stock admin_scope ''ann'' ''x'' 5 (DropGroup ''g'') demo_stock))) = [None, None]"
    by code_simp
  then show ?thesis
    using inventory_stays_sound [OF demo_stock_sound, of admin_scope "''ann''" "''x''" 5 "DropGroup ''g''"] by (metis prod.collapse)
qed

lemma inventory_changes_are_allowed_witness:
  "change_allowed admin_scope demo_stock (snd (serve_stock admin_scope ''ann'' ''x'' 5 (DeleteSystem ''s'') demo_stock)) \<and>
   iv_labels (snd (serve_stock admin_scope ''ann'' ''x'' 5 (DeleteSystem ''s'') demo_stock)) = []"
proof -
  have "iv_labels (snd (serve_stock admin_scope ''ann'' ''x'' 5 (DeleteSystem ''s'') demo_stock)) = []"
    by code_simp
  then show ?thesis
    using inventory_changes_are_allowed [OF demo_stock_sound, of admin_scope "''ann''" "''x''" 5 "DeleteSystem ''s''"]
    by (metis prod.collapse)
qed

definition demo_codec :: pkg_codec where
  "demo_codec = \<lparr>encode_pkgs = (\<lambda>_. []), decode_pkgs = (\<lambda>_. None), decode_names = (\<lambda>_. None)\<rparr>"

lemma systems_list_is_readable_and_selected_witness:
  "\<exists>vs. handle_list_systems demo_codec admin_scope ''env=prod'' demo_stock = Some (replied 200 (StSystems vs)) \<and>
     map sys_id (map sv_host vs) = [''s'']"
proof -
  let ?sel = "[\<lparr>rop = OpEq, rkey = ''env'', rvalues = [''prod'']\<rparr>]"
  have p: "parse_selector ''env=prod'' = Inr ?sel" by code_simp
  have r: "''env=prod'' \<noteq> []" by simp
  obtain vs where "handle_list_systems demo_codec admin_scope ''env=prod'' demo_stock = Some (replied 200 (StSystems vs))"
    and h: "map sv_host vs = filter (\<lambda>h. can_read_host admin_scope h \<and>
      sel_matches ?sel (sql_for_system (label_view demo_stock) (sys_id h)) = Some True) (list_hosts demo_stock)"
    using systems_list_is_readable_and_selected [OF demo_stock_sound p r, of demo_codec admin_scope] by (elim exE conjE)
  moreover have "map sys_id (map sv_host vs) = [''s'']" unfolding h by code_simp
  ultimately show ?thesis by (intro exI conjI)
qed

lemma probe_order_is_irrelevant_witness:
  "fd_notes (probe_tick (Some 3) None (\<lambda>i. (i = ''s'', 9)) False (Some [''s'', ''t'']) demo_stock) = [changed_note] \<and>
   fd_notes (probe_tick (Some 3) None (\<lambda>i. (i = ''s'', 9)) True (Some [''s'']) demo_stock) = []"
proof -
  have "\<exists>j \<in> set [''s'', ''t'']. flips 3 1 (\<lambda>i. (i = ''s'', 9)) demo_stock j" by code_simp
  moreover have "distinct [''s'', ''t'']" "distinct [''t'', ''s'']" "set [''t'', ''s''] = set [''s'', ''t'']" "distinct [''s'']"
    "3 = probe_threshold (Some 3)" "1 = probe_threshold None" by (auto simp: probe_threshold_def)
  ultimately show ?thesis
    using probe_order_is_irrelevant [of "[''s'', ''t'']" "[''t'', ''s'']" 3 "Some 3" 1 None "''s''" "\<lambda>i. (i = ''s'', 9)" False demo_stock]
      probe_order_is_irrelevant [of "[''s'']" "[''s'']" 3 "Some 3" 1 None "''s''" "\<lambda>i. (i = ''s'', 9)" True demo_stock]
    by (simp add: demo_stock_def)
qed

end
