(* ===== verification/Credentials.thy ===== *)
theory Credentials
  imports InventoryServer
begin

text \<open>
  The SSH credentials of the fleet (\<open>src/internal/credentials\<close>): one slot per scope with an Ansible
  user, a key pair or both, the table with its triggers, the resolution from the most specific
  scope to the global one, and the eleven routes with the gates of \<open>cmd/server/main.go\<close>. The vault
  and the crypto library are parameters.
\<close>

section \<open>Slots\<close>

abbreviation scope_kind_valid :: "string \<Rightarrow> bool" where "scope_kind_valid \<equiv> scope_valid"

definition origin_generated :: string where "origin_generated = ''sw_generated''"
definition origin_supplied :: string where "origin_supplied = ''user_supplied''"

definition origin_valid :: "string \<Rightarrow> bool" where
  "origin_valid s = (s = origin_generated \<or> s = origin_supplied)"

text \<open>\<open>Sealed\<close>: ciphertext, nonce and version of the key.\<close>

record sealed_key =
  sk_cipher :: string
  sk_nonce :: string
  sk_version :: int

definition no_sealed :: sealed_key where "no_sealed = \<lparr>sk_cipher = [], sk_nonce = [], sk_version = 0\<rparr>"

definition sealed_zero :: "sealed_key \<Rightarrow> bool" where "sealed_zero k = (sk_cipher k = [])"

record slot =
  cs_id :: string
  cs_kind :: string
  cs_scope :: string
  cs_user :: string
  cs_public :: string
  cs_private :: sealed_key
  cs_origin :: string
  cs_created :: int
  cs_updated :: int

definition has_key :: "slot \<Rightarrow> bool" where
  "has_key s = (cs_public s \<noteq> [] \<and> \<not> sealed_zero (cs_private s))"

datatype slot_error = SlotNotFound | SlotInvalid string | NoCredentials | IncompleteFlow | SlotPlain string

definition validate_slot :: "slot \<Rightarrow> (string, unit) result" where
  "validate_slot s =
     (if \<not> scope_valid (cs_kind s) then Inl ''credentials: scope_kind must be global, group, or system''
      else if cs_kind s = scope_global \<and> cs_scope s \<noteq> [] then Inl ''credentials: scope_id must be empty for global scope''
      else if cs_kind s \<noteq> scope_global \<and> cs_scope s = [] then Inl ''credentials: scope_id required for group/system scope''
      else if cs_user s = [] \<and> \<not> has_key s then Inl ''credentials: slot must set at least ansible_user or a key pair''
      else if (cs_public s \<noteq> []) \<noteq> (\<not> sealed_zero (cs_private s))
      then Inl ''credentials: public_key and private_key must be set together''
      else if has_key s \<and> \<not> origin_valid (cs_origin s)
      then Inl ''credentials: origin must be sw_generated or user_supplied when a key is present''
      else if \<not> has_key s \<and> cs_origin s \<noteq> [] then Inl ''credentials: origin must be empty when no key is set''
      else Inr ())"

section \<open>The table\<close>

record vault_db = stock_db +
  cd_slots :: "slot list"

definition at_scope :: "string \<Rightarrow> string \<Rightarrow> slot \<Rightarrow> bool" where
  "at_scope k i s = (cs_kind s = k \<and> cs_scope s = i)"

definition get_slot :: "string \<Rightarrow> string \<Rightarrow> 'a vault_db_scheme \<Rightarrow> (slot_error, slot) result" where
  "get_slot k i w =
     (if \<not> scope_valid k then Inl (SlotInvalid ''scope_kind'')
      else case find (at_scope k i) (cd_slots w) of None \<Rightarrow> Inl SlotNotFound | Some s \<Rightarrow> Inr s)"

definition list_slots :: "'a vault_db_scheme \<Rightarrow> slot list" where
  "list_slots w = sort_key (\<lambda>s. (scope_order (cs_kind s), cs_id s)) (cd_slots w)"

text \<open>
  What a row gives back of a key: nonce and version are read only where there is a ciphertext.
\<close>

definition stored_key :: "sealed_key \<Rightarrow> sealed_key" where
  "stored_key k = (if sealed_zero k then no_sealed else k)"

definition upsert_slot :: "string \<Rightarrow> int \<Rightarrow> slot \<Rightarrow> 'a vault_db_scheme \<Rightarrow> (slot_error, slot \<times> 'a vault_db_scheme) result" where
  "upsert_slot i now s0 w =
     (let s = s0\<lparr>cs_user := trim_space (cs_user s0)\<rparr>
      in case validate_slot s of
           Inl m \<Rightarrow> Inl (SlotInvalid m)
         | Inr _ \<Rightarrow>
             (case get_slot (cs_kind s) (cs_scope s) w of
                Inl SlotNotFound \<Rightarrow>
                  (let n = s\<lparr>cs_id := i, cs_created := now, cs_updated := now\<rparr>
                   in if list_ex (\<lambda>x. cs_id x = i) (cd_slots w) then Inl (SlotPlain ''credentials: insert'')
                      else Inr (n, w\<lparr>cd_slots := cd_slots w @ [n\<lparr>cs_private := stored_key (cs_private n)\<rparr>]\<rparr>))
              | Inl e \<Rightarrow> Inl e
              | Inr old \<Rightarrow>
                  (let n = s\<lparr>cs_id := cs_id old, cs_created := cs_created old, cs_updated := now\<rparr>
                   in Inr (n, w\<lparr>cd_slots := update_where (\<lambda>x. cs_id x = cs_id old)
                        (\<lambda>x. x\<lparr>cs_user := cs_user n, cs_public := cs_public n, cs_private := stored_key (cs_private n),
                             cs_origin := cs_origin n, cs_updated := now\<rparr>) (cd_slots w)\<rparr>))))"

definition delete_slot :: "string \<Rightarrow> string \<Rightarrow> 'a vault_db_scheme \<Rightarrow> (slot_error, 'a vault_db_scheme) result" where
  "delete_slot k i w =
     (if \<not> scope_valid k then Inl (SlotInvalid ''scope_kind'')
      else if count_where (at_scope k i) (cd_slots w) = 0 then Inl SlotNotFound
      else Inr (w\<lparr>cd_slots := delete_where (at_scope k i) (cd_slots w)\<rparr>))"

section \<open>Resolution\<close>

record resolved =
  re_user :: string
  re_user_source :: string
  re_public :: string
  re_private :: sealed_key
  re_key_source :: string
  re_origin :: string

definition nothing_resolved :: resolved where
  "nothing_resolved = \<lparr>re_user = [], re_user_source = [], re_public = [], re_private = no_sealed, re_key_source = [],
     re_origin = []\<rparr>"

definition scope_chain :: "string \<Rightarrow> string option \<Rightarrow> (string \<times> string) list" where
  "scope_chain sid g =
     [(scope_system, sid)] @ (case g of None \<Rightarrow> [] | Some x \<Rightarrow> if x = [] then [] else [(scope_group, x)]) @ [(scope_global, [])]"

definition take_slot :: "slot \<Rightarrow> resolved \<Rightarrow> resolved" where
  "take_slot s r =
     (let r1 = (if re_user r = [] \<and> cs_user s \<noteq> [] then r\<lparr>re_user := cs_user s, re_user_source := cs_kind s\<rparr> else r)
      in if re_public r1 = [] \<and> has_key s
         then r1\<lparr>re_public := cs_public s, re_private := cs_private s, re_origin := cs_origin s, re_key_source := cs_kind s\<rparr>
         else r1)"

fun walk_scopes :: "(string \<times> string) list \<Rightarrow> 'a vault_db_scheme \<Rightarrow> resolved \<Rightarrow> (slot_error, resolved) result" where
  "walk_scopes [] w r = Inr r"
| "walk_scopes ((k, i) # cs) w r =
     (case get_slot k i w of
        Inl SlotNotFound \<Rightarrow> walk_scopes cs w r
      | Inl e \<Rightarrow> Inl e
      | Inr s \<Rightarrow> walk_scopes cs w (take_slot s r))"

definition resolve_credentials :: "string \<Rightarrow> string option \<Rightarrow> 'a vault_db_scheme \<Rightarrow> (slot_error, resolved) result" where
  "resolve_credentials sid g w =
     (if sid = [] then Inl (SlotPlain ''credentials: systemID is required'')
      else rbind (walk_scopes (scope_chain sid g) w nothing_resolved) (\<lambda>r.
        if re_user r = [] \<and> re_public r = [] then Inl NoCredentials
        else if re_user r = [] \<or> re_public r = [] then Inl IncompleteFlow
        else Inr r))"

section \<open>Routes\<close>

datatype cred_body =
    CredNoContent
  | CredSlots "slot list"
  | CredSlot slot
  | CredEffective string string string string string

type_synonym cred_reply = "(slot_error, cred_body) reply"

text \<open>\<open>toDTO\<close> leaves the sealed key and the id out.\<close>

definition slot_dto :: "slot \<Rightarrow> slot" where
  "slot_dto s = s\<lparr>cs_id := [], cs_private := no_sealed\<rparr>"

text \<open>
  The crypto library and the vault: a generated pair (public key, PEM), the public key of a PEM, and the
  sealing of a text, each None or \<open>Inl\<close> where it fails.
\<close>

record key_env =
  ke_generate :: "(string, string \<times> string) result"
  ke_parse :: "string \<Rightarrow> (string, string) result"
  ke_seal :: "string \<Rightarrow> (string, sealed_key) result"

record key_input =
  ki_origin :: string
  ki_pem :: string

record slot_request =
  sr_user :: "string option"
  sr_key :: "key_input option"
  sr_clear :: bool

definition materialize_key :: "key_env \<Rightarrow> key_input \<Rightarrow> (string, string \<times> sealed_key) result" where
  "materialize_key K k =
     (if ki_origin k = origin_generated then
        (case ke_generate K of
           Inl e \<Rightarrow> Inl (''generate key failed: '' @ e)
         | Inr (pub, pem) \<Rightarrow> (case ke_seal K pem of Inl e \<Rightarrow> Inl (''seal key failed: '' @ e) | Inr s \<Rightarrow> Inr (pub, s)))
      else if ki_origin k = origin_supplied then
        (if ki_pem k = [] then Inl ''privateKeyPem is required for origin=user_supplied''
         else case ke_parse K (ki_pem k) of
                Inl e \<Rightarrow> Inl e
              | Inr pub \<Rightarrow> (case ke_seal K (ki_pem k) of Inl e \<Rightarrow> Inl (''seal key failed: '' @ e) | Inr s \<Rightarrow> Inr (pub, s)))
      else Inl ''origin must be sw_generated or user_supplied'')"

definition no_slot :: slot where
  "no_slot = \<lparr>cs_id = [], cs_kind = [], cs_scope = [], cs_user = [], cs_public = [], cs_private = no_sealed, cs_origin = [],
     cs_created = 0, cs_updated = 0\<rparr>"

text \<open>The slot a request makes of the one on record.\<close>

definition merge_slot :: "key_env option \<Rightarrow> string \<Rightarrow> string \<Rightarrow> slot_request \<Rightarrow> slot \<Rightarrow> (cred_reply, slot) result" where
  "merge_slot K k i q old =
     (let m0 = old\<lparr>cs_kind := k, cs_scope := i\<rparr>;
          m1 = (case sr_user q of None \<Rightarrow> m0 | Some u \<Rightarrow> m0\<lparr>cs_user := trim_space u\<rparr>);
          m2 = (if sr_clear q \<and> sr_key q = None then m1\<lparr>cs_public := [], cs_private := no_sealed, cs_origin := []\<rparr> else m1)
      in case sr_key q of
           None \<Rightarrow> Inr m2
         | Some x \<Rightarrow>
             (case K of
                None \<Rightarrow> Inl (failed 503 ''vault not configured'')
              | Some E \<Rightarrow>
                  (case materialize_key E x of
                     Inl e \<Rightarrow> Inl (failed 400 e)
                   | Inr (pub, s) \<Rightarrow> Inr (m2\<lparr>cs_public := pub, cs_private := s, cs_origin := ki_origin x\<rparr>))))"

definition cred_event :: "string \<Rightarrow> string \<Rightarrow> string \<Rightarrow> detail \<Rightarrow> event" where
  "cred_event act actor i d = \<lparr>ev_action = act, ev_outcome = ''success'', ev_actor = actor, ev_target = i, ev_label = [],
     ev_detail = d\<rparr>"

definition respond_get :: "string \<Rightarrow> string \<Rightarrow> 'a vault_db_scheme \<Rightarrow> cred_reply" where
  "respond_get k i w =
     (case get_slot k i w of
        Inl e \<Rightarrow> if e = SlotNotFound then failed 404 ''no slot configured at this scope'' else failed 500 ''get failed''
      | Inr s \<Rightarrow> replied 200 (CredSlot (slot_dto s)))"

text \<open>The slot a request starts from: an empty one where the scope has none.\<close>

definition existing_slot :: "string \<Rightarrow> string \<Rightarrow> 'a vault_db_scheme \<Rightarrow> (slot_error, slot) result" where
  "existing_slot k i w =
     (case get_slot k i w of Inl e \<Rightarrow> if e = SlotNotFound then Inr no_slot else Inl e | Inr s \<Rightarrow> Inr s)"

definition respond_put :: "key_env option \<Rightarrow> string \<Rightarrow> string \<Rightarrow> int \<Rightarrow> string \<Rightarrow> string \<Rightarrow> slot_request option
    \<Rightarrow> 'a vault_db_scheme \<Rightarrow> cred_reply \<times> 'a vault_db_scheme" where
  "respond_put K actor rid now k i b w =
     (case b of
        None \<Rightarrow> (failed 400 ''invalid JSON'', w)
      | Some q \<Rightarrow>
          if sr_user q = None \<and> sr_key q = None \<and> \<not> sr_clear q
          then (failed 400 ''request must set at least one of ansibleUser or key'', w)
          else
            (case existing_slot k i w of
               Inl _ \<Rightarrow> (failed 500 ''get failed'', w)
             | Inr old \<Rightarrow>
                 (case merge_slot K k i q old of
                    Inl r \<Rightarrow> (r, w)
                  | Inr m \<Rightarrow>
                      (case upsert_slot rid now m w of
                         Inl (SlotInvalid e) \<Rightarrow> (failed_with 400 (SlotInvalid e), w)
                       | Inl _ \<Rightarrow> (failed 500 ''save failed'', w)
                       | Inr (s, w') \<Rightarrow>
                           (replied 200 (CredSlot (slot_dto s)),
                            fleet_log (cred_event ''ansible_credential.set'' actor i
                              [(''scope_kind'', DStr k), (''has_user'', DBool (cs_user s \<noteq> [])), (''has_key'', DBool (has_key s)),
                               (''origin'', DStr (cs_origin s))]) w')))))"

definition respond_delete :: "string \<Rightarrow> string \<Rightarrow> string \<Rightarrow> 'a vault_db_scheme \<Rightarrow> cred_reply \<times> 'a vault_db_scheme" where
  "respond_delete actor k i w =
     (case delete_slot k i w of
        Inl e \<Rightarrow> (if e = SlotNotFound then failed 404 ''no slot configured at this scope'' else failed 500 ''delete failed'', w)
      | Inr w' \<Rightarrow>
          (replied 204 CredNoContent, fleet_log (cred_event ''ansible_credential.delete'' actor i [(''scope_kind'', DStr k)]) w'))"

definition manages_group :: "scope \<Rightarrow> string \<Rightarrow> bool" where
  "manages_group sc g = (is_global_admin sc \<or> role_on_group sc g = role_admin)"

definition manages_host :: "scope \<Rightarrow> managed_host \<Rightarrow> bool" where
  "manages_host sc h =
     (is_global_admin sc \<or> (case sys_group h of None \<Rightarrow> False | Some g \<Rightarrow> role_on_group sc g = role_admin))"

text \<open>The look-ups and gates before a group's or a system's slot, with the reply where they refuse.\<close>

definition open_group :: "scope \<Rightarrow> string \<Rightarrow> 'a vault_db_scheme \<Rightarrow> (cred_reply, unit) result" where
  "open_group sc g w =
     (case get_group g w of
        Inl e \<Rightarrow> Inl (if e = GroupNotFound then failed 404 ''group not found'' else failed 500 ''lookup failed'')
      | Inr _ \<Rightarrow> if manages_group sc g then Inr () else Inl (failed 403 ''forbidden''))"

definition open_system :: "scope \<Rightarrow> string \<Rightarrow> 'a vault_db_scheme \<Rightarrow> (cred_reply, unit) result" where
  "open_system sc i w =
     rbind (load_system i w) (\<lambda>h. if manages_host sc h then Inr () else Inl (failed 403 ''forbidden''))"

definition handle_effective_credential :: "scope \<Rightarrow> string \<Rightarrow> 'a vault_db_scheme \<Rightarrow> cred_reply" where
  "handle_effective_credential sc i w =
     (case load_system i w of
        Inl r \<Rightarrow> r
      | Inr h \<Rightarrow>
          if \<not> can_read_host sc h then failed 404 ''system not found''
          else
            (case resolve_credentials (sys_id h) (sys_group h) w of
               Inl NoCredentials \<Rightarrow> failed 404 ''no credentials configured''
             | Inl IncompleteFlow \<Rightarrow> failed 409 ''credential is incomplete: configure both an ansible user and a key''
             | Inl _ \<Rightarrow> failed 500 ''resolve failed''
             | Inr r \<Rightarrow> replied 200 (CredEffective (re_user r) (re_user_source r) (re_public r) (re_key_source r) (re_origin r))))"

datatype cred_route =
    ListSlots
  | GetGlobalSlot
  | PutGlobalSlot "slot_request option"
  | DeleteGlobalSlot
  | GetGroupSlot string
  | PutGroupSlot string "slot_request option"
  | DeleteGroupSlot string
  | GetSystemSlot string
  | PutSystemSlot string "slot_request option"
  | DeleteSystemSlot string
  | EffectiveSlot string

definition serve_credentials :: "key_env option \<Rightarrow> scope \<Rightarrow> string \<Rightarrow> string \<Rightarrow> int \<Rightarrow> cred_route \<Rightarrow> 'a vault_db_scheme
    \<Rightarrow> cred_reply \<times> 'a vault_db_scheme" where
  "serve_credentials K sc actor rid now q w =
     (case q of
        ListSlots \<Rightarrow>
          (if is_global_admin sc then replied 200 (CredSlots (map slot_dto (list_slots w))) else failed 403 ''forbidden'', w)
      | GetGlobalSlot \<Rightarrow> (if is_global_admin sc then respond_get scope_global [] w else failed 403 ''forbidden'', w)
      | PutGlobalSlot b \<Rightarrow>
          if is_global_admin sc then respond_put K actor rid now scope_global [] b w else (failed 403 ''forbidden'', w)
      | DeleteGlobalSlot \<Rightarrow>
          if is_global_admin sc then respond_delete actor scope_global [] w else (failed 403 ''forbidden'', w)
      | GetGroupSlot g \<Rightarrow> (case open_group sc g w of Inl r \<Rightarrow> r | Inr _ \<Rightarrow> respond_get scope_group g w, w)
      | PutGroupSlot g b \<Rightarrow>
          (case open_group sc g w of Inl r \<Rightarrow> (r, w) | Inr _ \<Rightarrow> respond_put K actor rid now scope_group g b w)
      | DeleteGroupSlot g \<Rightarrow>
          if manages_group sc g then respond_delete actor scope_group g w else (failed 403 ''forbidden'', w)
      | GetSystemSlot i \<Rightarrow> (case open_system sc i w of Inl r \<Rightarrow> r | Inr _ \<Rightarrow> respond_get scope_system i w, w)
      | PutSystemSlot i b \<Rightarrow>
          (case open_system sc i w of Inl r \<Rightarrow> (r, w) | Inr _ \<Rightarrow> respond_put K actor rid now scope_system i b w)
      | DeleteSystemSlot i \<Rightarrow>
          (case open_system sc i w of Inl r \<Rightarrow> (r, w) | Inr _ \<Rightarrow> respond_delete actor scope_system i w)
      | EffectiveSlot i \<Rightarrow> (handle_effective_credential sc i w, w))"

section \<open>With the inventory\<close>

text \<open>
  The two triggers on the rows a request has deleted from the tables of systems and groups.
\<close>

definition fire_triggers :: "'a vault_db_scheme \<Rightarrow> 'a vault_db_scheme \<Rightarrow> 'a vault_db_scheme" where
  "fire_triggers w w' =
     w'\<lparr>cd_slots := delete_where
        (\<lambda>s. cs_kind s = scope_system \<and> host_at (cs_scope s) w \<noteq> None \<and> host_at (cs_scope s) w' = None
           \<or> cs_kind s = scope_group \<and> group_at (cs_scope s) w \<noteq> None \<and> group_at (cs_scope s) w' = None)
        (cd_slots w')\<rparr>"

datatype vault_route = StockRoute stock_route | CredRoute cred_route

definition serve_vault :: "key_env option \<Rightarrow> scope \<Rightarrow> string \<Rightarrow> string \<Rightarrow> int \<Rightarrow> vault_route \<Rightarrow> 'a vault_db_scheme \<Rightarrow> 'a vault_db_scheme" where
  "serve_vault K sc actor i now q w =
     (case q of
        StockRoute x \<Rightarrow> fire_triggers w (snd (serve_stock sc actor i now x w))
      | CredRoute x \<Rightarrow> snd (serve_credentials K sc actor i now x w))"

end
