(* ===== verification/CredentialClaims.thy ===== *)
theory CredentialClaims
  imports Credentials InventoryProps
begin

text \<open>
  What the credentials promise: which slot each part of a credential comes from, who can change
  which slot, that no slot outlives its system or group, and that an uploaded key is the one
  the runs will use.
\<close>

section \<open>Resolution\<close>

text \<open>
  The slots on record for a system, the most specific first: its own, that of its group if it has
  one, and that of the fleet.
\<close>

definition slot_of :: "string \<Rightarrow> string \<Rightarrow> 'a vault_db_scheme \<Rightarrow> slot list" where
  "slot_of kind i w = (case find (\<lambda>s. cs_kind s = kind \<and> cs_scope s = i) (cd_slots w) of None \<Rightarrow> [] | Some s \<Rightarrow> [s])"

definition slots_seen :: "string \<Rightarrow> string option \<Rightarrow> 'a vault_db_scheme \<Rightarrow> slot list" where
  "slots_seen sid g w =
     slot_of ''system'' sid w @ (case g of None \<Rightarrow> [] | Some i \<Rightarrow> if i = [] then [] else slot_of ''group'' i w) @
     slot_of ''global'' [] w"

lemma slots_seen_chain:
  "slots_seen sid g w = List.map_filter (\<lambda>(k, i). find (at_scope k i) (cd_slots w)) (scope_chain sid g)"
  by (simp add: slots_seen_def slot_of_def scope_chain_def at_scope_def [abs_def] exclusion_scopes map_filter_simps split: option.split)

lemma walk_fold:
  "\<forall>c \<in> set cs. scope_valid (fst c) \<Longrightarrow>
    walk_scopes cs w r = Inr (fold take_slot (List.map_filter (\<lambda>(k, i). find (at_scope k i) (cd_slots w)) cs) r)"
  by (induction cs arbitrary: r) (auto simp: get_slot_def map_filter_simps split: option.splits)

lemma take_slot_fields:
  "re_user (take_slot s r) = (if re_user r = [] \<and> cs_user s \<noteq> [] then cs_user s else re_user r)"
  "re_user_source (take_slot s r) = (if re_user r = [] \<and> cs_user s \<noteq> [] then cs_kind s else re_user_source r)"
  "re_public (take_slot s r) = (if re_public r = [] \<and> has_key s then cs_public s else re_public r)"
  "re_private (take_slot s r) = (if re_public r = [] \<and> has_key s then cs_private s else re_private r)"
  "re_key_source (take_slot s r) = (if re_public r = [] \<and> has_key s then cs_kind s else re_key_source r)"
  "re_origin (take_slot s r) = (if re_public r = [] \<and> has_key s then cs_origin s else re_origin r)"
  by (auto simp: take_slot_def Let_def)

lemma fold_user:
  "re_user (fold take_slot ss r) =
     (if re_user r \<noteq> [] then re_user r else case find (\<lambda>s. cs_user s \<noteq> []) ss of None \<Rightarrow> [] | Some s \<Rightarrow> cs_user s)"
  "re_user_source (fold take_slot ss r) =
     (if re_user r \<noteq> [] then re_user_source r
      else case find (\<lambda>s. cs_user s \<noteq> []) ss of None \<Rightarrow> re_user_source r | Some s \<Rightarrow> cs_kind s)"
  by (induction ss arbitrary: r) (simp_all add: take_slot_fields split: option.split)

lemma fold_key:
  "(re_public (fold take_slot ss r), re_private (fold take_slot ss r), re_key_source (fold take_slot ss r), re_origin (fold take_slot ss r)) =
     (if re_public r \<noteq> [] then (re_public r, re_private r, re_key_source r, re_origin r)
      else case find has_key ss of None \<Rightarrow> (re_public r, re_private r, re_key_source r, re_origin r)
           | Some s \<Rightarrow> (cs_public s, cs_private s, cs_kind s, cs_origin s))"
proof (induction ss arbitrary: r)
  case (Cons s ss)
  have "has_key s \<Longrightarrow> cs_public s \<noteq> []" by (simp add: has_key_def)
  then show ?case using Cons.IH [of "take_slot s r"] by (auto simp: take_slot_fields split: option.split)
qed simp

lemma chain_valid: "\<forall>c \<in> set (scope_chain sid g). scope_valid (fst c)"
  by (auto simp: scope_chain_def scope_valid_def split: option.splits)

lemma resolve_fold:
  assumes "sid \<noteq> []"
  shows "resolve_credentials sid g w =
     (let r = fold take_slot (slots_seen sid g w) nothing_resolved
      in if re_user r = [] \<and> re_public r = [] then Inl NoCredentials
         else if re_user r = [] \<or> re_public r = [] then Inl IncompleteFlow else Inr r)"
proof -
  have "walk_scopes (scope_chain sid g) w nothing_resolved = Inr (fold take_slot (slots_seen sid g w) nothing_resolved)"
    unfolding slots_seen_chain by (rule walk_fold [OF chain_valid])
  then show ?thesis using assms by (simp add: resolve_credentials_def Let_def)
qed

text \<open>
  C33: user and key of a system are resolved independently, each from the first slot that has it among that
  of the system, that of its group and that of the fleet, together with the scope it came from;
  nothing at all and one of the two missing are told apart.
\<close>

theorem credentials_come_from_the_most_specific_scope:
  "resolve_credentials sid g w =
     (if sid = [] then Inl (SlotPlain ''credentials: systemID is required'')
      else case (find (\<lambda>s. cs_user s \<noteq> []) (slots_seen sid g w), find has_key (slots_seen sid g w)) of
             (Some u, Some k) \<Rightarrow>
               Inr \<lparr>re_user = cs_user u, re_user_source = cs_kind u, re_public = cs_public k, re_private = cs_private k,
                    re_key_source = cs_kind k, re_origin = cs_origin k\<rparr>
           | (None, None) \<Rightarrow> Inl NoCredentials
           | _ \<Rightarrow> Inl IncompleteFlow)"
proof (cases "sid = []")
  case False
  define r where "r = fold take_slot (slots_seen sid g w) nothing_resolved"
  have u: "re_user r = (case find (\<lambda>s. cs_user s \<noteq> []) (slots_seen sid g w) of None \<Rightarrow> [] | Some s \<Rightarrow> cs_user s)"
    "find (\<lambda>s. cs_user s \<noteq> []) (slots_seen sid g w) = Some a \<Longrightarrow> re_user_source r = cs_kind a" for a
    by (simp_all add: r_def fold_user nothing_resolved_def)
  have k: "(re_public r, re_private r, re_key_source r, re_origin r) =
      (case find has_key (slots_seen sid g w) of None \<Rightarrow> ([], no_sealed, [], [])
       | Some s \<Rightarrow> (cs_public s, cs_private s, cs_kind s, cs_origin s))"
    unfolding r_def fold_key by (simp add: nothing_resolved_def split: option.split)
  have ne: "find (\<lambda>s. cs_user s \<noteq> []) ss = Some a \<Longrightarrow> cs_user a \<noteq> []" "find has_key ss = Some a \<Longrightarrow> cs_public a \<noteq> []" for ss a
    by (auto dest: find_Some_in simp: has_key_def)
  show ?thesis
    using False u k ne [of "slots_seen sid g w"] resolve_fold [OF False, of g w, folded r_def]
    by (cases "find (\<lambda>s. cs_user s \<noteq> []) (slots_seen sid g w)"; cases "find has_key (slots_seen sid g w)"; cases r)
      (simp_all add: Let_def)
qed (simp add: resolve_credentials_def)

section \<open>The table\<close>

definition slots_sound :: "'a vault_db_scheme \<Rightarrow> bool" where
  "slots_sound w =
     (distinct (map cs_id (cd_slots w)) \<and> distinct (map (\<lambda>s. (cs_kind s, cs_scope s)) (cd_slots w)) \<and>
      (\<forall>s \<in> set (cd_slots w). validate_slot s = Inr () \<and>
         (cs_kind s = scope_system \<longrightarrow> host_at (cs_scope s) w \<noteq> None) \<and>
         (cs_kind s = scope_group \<longrightarrow> group_at (cs_scope s) w \<noteq> None)))"

text \<open>Who may write a slot.\<close>

definition manages_slot :: "scope \<Rightarrow> 'a vault_db_scheme \<Rightarrow> string \<Rightarrow> string \<Rightarrow> bool" where
  "manages_slot sc w k i =
     (if k = scope_global then is_global_admin sc
      else if k = scope_group then manages_group sc i
      else (case host_at i w of None \<Rightarrow> False | Some h \<Rightarrow> manages_host sc h))"

definition slots_kept :: "scope \<Rightarrow> 'a vault_db_scheme \<Rightarrow> 'a vault_db_scheme \<Rightarrow> bool" where
  "slots_kept sc w w' =
     (slots_sound w' \<and> (\<forall>k i. find (at_scope k i) (cd_slots w') = find (at_scope k i) (cd_slots w) \<or> manages_slot sc w k i))"

lemma sealed_stored [simp]: "sealed_zero (stored_key k) = sealed_zero k"
  by (simp add: stored_key_def sealed_zero_def no_sealed_def)

lemma validate_slot_fields:
  "cs_kind a = cs_kind b \<Longrightarrow> cs_scope a = cs_scope b \<Longrightarrow> cs_user a = cs_user b \<Longrightarrow> cs_public a = cs_public b \<Longrightarrow>
    sealed_zero (cs_private a) = sealed_zero (cs_private b) \<Longrightarrow> cs_origin a = cs_origin b \<Longrightarrow> validate_slot a = validate_slot b"
  by (simp add: validate_slot_def has_key_def)

definition put_slot :: "slot \<Rightarrow> slot list \<Rightarrow> slot list" where
  "put_slot r ss =
     (if list_ex (at_scope (cs_kind r) (cs_scope r)) ss then map (\<lambda>x. if at_scope (cs_kind r) (cs_scope r) x then r else x) ss
      else ss @ [r])"

lemma find_replaced:
  "P r \<Longrightarrow> find P (map (\<lambda>x. if P x then r else x) ss) = (if list_ex P ss then Some r else None)"
  "\<forall>x. Q x \<longrightarrow> \<not> P x \<Longrightarrow> \<not> P r \<Longrightarrow> find P (map (\<lambda>x. if Q x then r else x) ss) = find P ss"
  by (induction ss) auto

lemma find_put_slot:
  "find (at_scope k t) (put_slot r ss) = (if cs_kind r = k \<and> cs_scope r = t then Some r else find (at_scope k t) ss)"
proof (cases "cs_kind r = k \<and> cs_scope r = t")
  case True
  then have "at_scope k t r" by (simp add: at_scope_def)
  moreover have "\<not> list_ex (at_scope k t) ss \<Longrightarrow> find (at_scope k t) ss = None" by (auto simp: find_None_iff list_ex_iff)
  ultimately show ?thesis using True
    by (cases "list_ex (at_scope k t) ss") (simp_all add: put_slot_def find_replaced(1) find_append)
next
  case False
  then have "\<forall>x. at_scope (cs_kind r) (cs_scope r) x \<longrightarrow> \<not> at_scope k t x" "\<not> at_scope k t r" by (auto simp: at_scope_def)
  then show ?thesis using False by (auto simp: put_slot_def find_replaced(2) find_append split: option.split)
qed

lemma set_put_slot: "x \<in> set (put_slot r ss) \<Longrightarrow> x = r \<or> x \<in> set ss"
  by (auto simp: put_slot_def split: if_splits)

lemma scopes_put_slot:
  assumes "distinct (map (\<lambda>s. (cs_kind s, cs_scope s)) ss)"
  shows "distinct (map (\<lambda>s. (cs_kind s, cs_scope s)) (put_slot r ss))"
proof (cases "list_ex (at_scope (cs_kind r) (cs_scope r)) ss")
  case True
  then have "map (\<lambda>s. (cs_kind s, cs_scope s)) (put_slot r ss) = map (\<lambda>s. (cs_kind s, cs_scope s)) ss"
    by (simp add: put_slot_def at_scope_def)
  then show ?thesis using assms by simp
next
  case False
  then show ?thesis using assms by (auto simp: put_slot_def at_scope_def list_ex_iff)
qed

lemma ids_put_slot:
  assumes "distinct (map cs_id ss)" "\<forall>x \<in> set ss. at_scope (cs_kind r) (cs_scope r) x \<longrightarrow> cs_id x = cs_id r"
    and "\<not> list_ex (at_scope (cs_kind r) (cs_scope r)) ss \<Longrightarrow> cs_id r \<notin> cs_id ` set ss"
  shows "distinct (map cs_id (put_slot r ss))"
proof (cases "list_ex (at_scope (cs_kind r) (cs_scope r)) ss")
  case True
  then have "map cs_id (put_slot r ss) = map cs_id ss" using assms(2) by (simp add: put_slot_def)
  then show ?thesis using assms(1) by simp
next
  case False
  then show ?thesis using assms by (simp add: put_slot_def)
qed

text \<open>An upsert puts the row of the slot at its scope.\<close>

lemma upsert_slot_spec:
  assumes "slots_sound w" "upsert_slot i now s0 w = Inr (n, w')"
  obtains j c where "n = s0\<lparr>cs_user := trim_space (cs_user s0), cs_id := j, cs_created := c, cs_updated := now\<rparr>"
    "validate_slot n = Inr ()"
    "w' = w\<lparr>cd_slots := put_slot (n\<lparr>cs_private := stored_key (cs_private n)\<rparr>) (cd_slots w)\<rparr>"
    "distinct (map cs_id (put_slot (n\<lparr>cs_private := stored_key (cs_private n)\<rparr>) (cd_slots w)))"
proof -
  let ?k = "cs_kind s0" and ?t = "cs_scope s0" and ?s = "s0\<lparr>cs_user := trim_space (cs_user s0)\<rparr>"
  let ?n = "\<lambda>j c. s0\<lparr>cs_user := trim_space (cs_user s0), cs_id := j, cs_created := c, cs_updated := now\<rparr>"
  let ?row = "\<lambda>j c. (?n j c)\<lparr>cs_private := stored_key (cs_private s0)\<rparr>"
  have v: "validate_slot ?s = Inr ()" using assms(2) by (cases "validate_slot ?s") (simp_all add: upsert_slot_def Let_def)
  have vn: "validate_slot (?n j c) = Inr ()" for j c using v by (subst validate_slot_fields [of _ ?s]) simp_all
  have sv: "scope_valid ?k" using v by (simp add: validate_slot_def split: if_splits)
  have ids: "distinct (map cs_id (cd_slots w))" "distinct (map (\<lambda>s. (cs_kind s, cs_scope s)) (cd_slots w))"
    using assms(1) by (simp_all add: slots_sound_def)
  show thesis
  proof (cases "find (at_scope ?k ?t) (cd_slots w)")
    case None
    then have "get_slot ?k ?t w = Inl SlotNotFound" using sv by (simp add: get_slot_def)
    with v have e: "upsert_slot i now s0 w = (if list_ex (\<lambda>x. cs_id x = i) (cd_slots w) then Inl (SlotPlain ''credentials: insert'')
        else Inr (?n i now, w\<lparr>cd_slots := cd_slots w @ [?row i now]\<rparr>))"
      by (simp add: upsert_slot_def Let_def)
    from assms(2) have new: "\<not> list_ex (\<lambda>x. cs_id x = i) (cd_slots w)" unfolding e by (simp split: if_splits)
    from assms(2) [unfolded e if_not_P [OF new]] have n: "n = ?n i now"
      and w': "w' = w\<lparr>cd_slots := cd_slots w @ [?row i now]\<rparr>"
      by (auto simp only: sum.inject prod.inject)
    have none: "\<not> list_ex (at_scope ?k ?t) (cd_slots w)" using None by (auto simp: find_None_iff list_ex_iff)
    have p: "put_slot (?row i now) (cd_slots w) = cd_slots w @ [?row i now]" using none by (simp add: put_slot_def)
    have "distinct (map cs_id (put_slot (?row i now) (cd_slots w)))"
      using ids(1) new unfolding p by (auto simp: list_ex_iff)
    then show thesis using that [of now i] vn [of now i] n w' p by simp
  next
    case (Some old)
    then have old: "old \<in> set (cd_slots w)" "at_scope ?k ?t old" by (auto dest: find_Some_in)
    let ?f = "\<lambda>x. x\<lparr>cs_user := trim_space (cs_user s0), cs_public := cs_public s0, cs_private := stored_key (cs_private s0),
                 cs_origin := cs_origin s0, cs_updated := now\<rparr>"
    let ?r = "?row (cs_id old) (cs_created old)"
    have "get_slot ?k ?t w = Inr old" using sv Some by (simp add: get_slot_def)
    with v have e: "upsert_slot i now s0 w = Inr (?n (cs_id old) (cs_created old),
        w\<lparr>cd_slots := update_where (\<lambda>x. cs_id x = cs_id old) ?f (cd_slots w)\<rparr>)"
      by (simp add: upsert_slot_def Let_def)
    have one: "x = old" if "x \<in> set (cd_slots w)" "cs_id x = cs_id old \<or> at_scope ?k ?t x" for x
      using that old ids by (auto simp: distinct_map inj_on_def at_scope_def)
    have fr: "?f old = ?r" using old(2) by (simp add: at_scope_def)
    have "update_where (\<lambda>x. cs_id x = cs_id old) ?f (cd_slots w) = map (\<lambda>x. if at_scope ?k ?t x then ?r else x) (cd_slots w)"
    proof (unfold update_where_def, rule map_cong [OF refl])
      fix x assume "x \<in> set (cd_slots w)"
      then show "(if cs_id x = cs_id old then ?f x else x) = (if at_scope ?k ?t x then ?r else x)"
        using one [of x] fr old(2) by (cases "x = old") auto
    qed
    moreover have "list_ex (at_scope ?k ?t) (cd_slots w)" using old by (auto simp: list_ex_iff)
    ultimately have p: "update_where (\<lambda>x. cs_id x = cs_id old) ?f (cd_slots w) = put_slot ?r (cd_slots w)"
      by (simp add: put_slot_def)
    have d: "distinct (map cs_id (put_slot ?r (cd_slots w)))"
      using ids(1) old one by (intro ids_put_slot) (auto simp: list_ex_iff)
    from assms(2) [unfolded e p] have "n = ?n (cs_id old) (cs_created old)" "w' = w\<lparr>cd_slots := put_slot ?r (cd_slots w)\<rparr>"
      by (auto simp only: sum.inject prod.inject)
    then show thesis using that [of "cs_created old" "cs_id old"] vn [of "cs_created old" "cs_id old"] d by simp
  qed
qed

lemma logged_slots [simp]:
  "cd_slots (fleet_log e w) = cd_slots w" "host_at j (fleet_log e w) = host_at j w" "group_at j (fleet_log e w) = group_at j w"
  by (simp_all add: fleet_log_def host_at_def group_at_def)

lemma upsert_slot_keeps:
  assumes "slots_sound w" "upsert_slot i now s0 w = Inr (n, w')" "manages_slot sc w (cs_kind s0) (cs_scope s0)"
    and "cs_kind s0 = scope_system \<Longrightarrow> host_at (cs_scope s0) w \<noteq> None"
    and "cs_kind s0 = scope_group \<Longrightarrow> group_at (cs_scope s0) w \<noteq> None"
  shows "slots_kept sc w w'"
proof -
  obtain j c where n: "n = s0\<lparr>cs_user := trim_space (cs_user s0), cs_id := j, cs_created := c, cs_updated := now\<rparr>"
    and v: "validate_slot n = Inr ()"
    and w': "w' = w\<lparr>cd_slots := put_slot (n\<lparr>cs_private := stored_key (cs_private n)\<rparr>) (cd_slots w)\<rparr>"
    and d: "distinct (map cs_id (put_slot (n\<lparr>cs_private := stored_key (cs_private n)\<rparr>) (cd_slots w)))"
    by (rule upsert_slot_spec [OF assms(1,2)])
  define row where "row = n\<lparr>cs_private := stored_key (cs_private n)\<rparr>"
  have vr: "validate_slot row = Inr ()" using v unfolding row_def by (subst validate_slot_fields [of _ n]) simp_all
  have kr: "cs_kind row = cs_kind s0" "cs_scope row = cs_scope s0" by (simp_all add: row_def n)
  have c: "cd_slots w' = put_slot row (cd_slots w)" by (simp add: w' row_def)
  have at: "host_at j w' = host_at j w" "group_at j w' = group_at j w" for j by (simp_all add: w' host_at_def group_at_def)
  have "validate_slot s = Inr () \<and> (cs_kind s = scope_system \<longrightarrow> host_at (cs_scope s) w' \<noteq> None) \<and>
         (cs_kind s = scope_group \<longrightarrow> group_at (cs_scope s) w' \<noteq> None)" if "s \<in> set (cd_slots w')" for s
    using set_put_slot [OF that [unfolded c]] vr kr assms(1,4,5) unfolding at slots_sound_def by auto
  then have "slots_sound w'"
    using d [folded row_def] scopes_put_slot assms(1) unfolding slots_sound_def c by simp
  then show ?thesis using assms(3) kr by (auto simp: slots_kept_def c find_put_slot)
qed

lemma delete_slot_keeps:
  assumes "slots_sound w" "delete_slot k i w = Inr w'" "manages_slot sc w k i"
  shows "slots_kept sc w w'"
proof -
  have w': "w' = w\<lparr>cd_slots := delete_where (at_scope k i) (cd_slots w)\<rparr>" using assms(2) by (simp add: delete_slot_def del: count_where_0 split: if_splits)
  have at: "host_at j w' = host_at j w" "group_at j w' = group_at j w" for j by (simp_all add: w' host_at_def group_at_def)
  have "slots_sound w'" using assms(1) unfolding slots_sound_def at by (auto simp: w' distinct_map_delete_where)
  moreover have "find (at_scope k' t) (cd_slots w') = find (at_scope k' t) (cd_slots w) \<or> manages_slot sc w k' t" for k' t
  proof (cases "(k', t) = (k, i)")
    case False
    then have "find (at_scope k' t) (cd_slots w') = find (at_scope k' t) (cd_slots w)"
      by (auto simp: w' intro!: find_delete_where_other simp: at_scope_def)
    then show ?thesis by simp
  qed (use assms(3) in simp)
  ultimately show ?thesis by (simp add: slots_kept_def)
qed

lemma slots_kept_same: "slots_sound w \<Longrightarrow> slots_kept sc w w"
  by (simp add: slots_kept_def)

lemma slots_kept_logged [simp]: "slots_kept sc w (fleet_log e w') = slots_kept sc w w'"
  by (simp add: slots_kept_def slots_sound_def)

lemma respond_put_cases:
  assumes "\<And>q old m n v e. merge_slot K k i q old = Inr m \<Longrightarrow> upsert_slot rid now m w = Inr (n, v) \<Longrightarrow> P (fleet_log e v)" "P w"
  shows "P (snd (respond_put K actor rid now k i b w))"
  using assms(2) by (auto simp: respond_put_def intro: assms(1) split: option.split sum.split slot_error.split prod.split)

lemma put_slot_keeps:
  assumes "slots_sound w" "manages_slot sc w k t" "k = scope_system \<Longrightarrow> host_at t w \<noteq> None"
    "k = scope_group \<Longrightarrow> group_at t w \<noteq> None"
  shows "slots_kept sc w (snd (respond_put K actor rid now k t b w))"
proof -
  have m: "merge_slot K k t q old = Inr s \<Longrightarrow> cs_kind s = k \<and> cs_scope s = t" for q old s
    by (auto simp: merge_slot_def Let_def split: option.splits sum.splits if_splits prod.splits)
  show ?thesis
  proof (rule respond_put_cases)
    fix q old s n v e
    assume g: "merge_slot K k t q old = Inr s" and u: "upsert_slot rid now s w = Inr (n, v)"
    have "cs_kind s = k" "cs_scope s = t" using m [OF g] by simp_all
    then show "slots_kept sc w (fleet_log e v)" using upsert_slot_keeps [OF assms(1) u, of sc] assms(2-4) by simp
  qed (rule slots_kept_same [OF assms(1)])
qed

lemma remove_slot_keeps:
  assumes "slots_sound w" "manages_slot sc w k t"
  shows "slots_kept sc w (snd (respond_delete actor k t w))"
  using assms delete_slot_keeps by (auto simp: respond_delete_def slots_kept_same split: sum.splits)

lemma load_systemD: "load_system i w = Inr h \<Longrightarrow> host_at i w = Some h"
  by (auto simp: load_system_def get_host_def split: sum.splits option.splits)

lemma open_systemD: "open_system sc i w = Inr u \<Longrightarrow> manages_slot sc w scope_system i \<and> host_at i w \<noteq> None"
  by (auto simp: open_system_def manages_slot_def exclusion_scopes split: if_splits dest: load_systemD)

lemma open_groupD: "open_group sc g w = Inr u \<Longrightarrow> manages_slot sc w scope_group g \<and> group_at g w \<noteq> None"
  by (auto simp: open_group_def manages_slot_def get_group_def exclusion_scopes split: if_splits option.splits sum.splits)

lemma scope_kinds [simp]: "scope_global \<noteq> scope_system" "scope_global \<noteq> scope_group" "scope_group \<noteq> scope_system"
  "scope_system \<noteq> scope_group" "scope_system \<noteq> scope_global" "scope_group \<noteq> scope_global"
  by (simp_all add: exclusion_scopes)

lemma serve_credentials_keeps:
  assumes "slots_sound w"
  shows "slots_kept sc w (snd (serve_credentials K sc actor rid now q w))"
proof (cases q)
  case (PutGlobalSlot b)
  then show ?thesis using assms put_slot_keeps [OF assms, of sc scope_global "[]"]
    by (simp add: serve_credentials_def slots_kept_same manages_slot_def)
next
  case DeleteGlobalSlot
  then show ?thesis using assms remove_slot_keeps [OF assms, of sc scope_global "[]"]
    by (simp add: serve_credentials_def slots_kept_same manages_slot_def)
next
  case (PutGroupSlot g b)
  then show ?thesis using assms put_slot_keeps [OF assms, of sc scope_group g] open_groupD [of sc g w]
    by (auto simp: serve_credentials_def slots_kept_same split: sum.splits)
next
  case (DeleteGroupSlot g)
  then show ?thesis using assms remove_slot_keeps [OF assms, of sc scope_group g]
    by (simp add: serve_credentials_def slots_kept_same manages_slot_def)
next
  case (PutSystemSlot i b)
  then show ?thesis using assms put_slot_keeps [OF assms, of sc scope_system i] open_systemD [of sc i w]
    by (auto simp: serve_credentials_def slots_kept_same split: sum.splits)
next
  case (DeleteSystemSlot i)
  then show ?thesis using assms remove_slot_keeps [OF assms, of sc scope_system i] open_systemD [of sc i w]
    by (auto simp: serve_credentials_def slots_kept_same split: sum.splits)
qed (use assms in \<open>simp_all add: serve_credentials_def slots_kept_same\<close>)

text \<open>
  C31: the credential requests keep one valid slot per scope, of systems and groups that exist, and
  change a slot only for its manager: the global slot for a global admin, a group's for its admin,
  a system's for an admin of the group it is in.
\<close>

theorem credential_requests_keep_to_their_scope:
  assumes "slots_sound w" "serve_credentials K sc actor rid now q w = (a, w')"
  shows "slots_sound w' \<and> (\<forall>k i. find (at_scope k i) (cd_slots w') = find (at_scope k i) (cd_slots w) \<or> manages_slot sc w k i)"
  using serve_credentials_keeps [OF assms(1), of sc K actor rid now q] assms(2) by (simp add: slots_kept_def)

section \<open>No slot outlives its scope\<close>

lemma logged_slots' [simp]: "cd_slots (broadcast m w) = cd_slots w"
  by (simp add: broadcast_def)

lemma serve_stock_slots: "cd_slots (snd (serve_stock sc actor i now q w)) = cd_slots w"
proof (cases q)
  case (CreateSystem b)
  then show ?thesis
    by (auto simp: serve_stock_def handle_create_system_def create_host_def split: option.splits sum.splits host_error.splits if_splits)
next
  case (DeleteSystem s)
  then show ?thesis
    by (auto simp: serve_stock_def handle_delete_system_def drop_system_def remove_system_def delete_host_def
        cleanup_exporters_def cleanup_updaters_def split: option.splits sum.splits host_error.splits if_splits)
next
  case (SetPlatform s b)
  then show ?thesis
    by (auto simp: serve_stock_def handle_set_platform_def set_platform_def update_host_def
        split: option.splits sum.splits host_error.splits if_splits)
next
  case (BulkEvent b)
  then show ?thesis by (auto simp: serve_stock_def handle_bulk_event_def split: option.splits if_splits)
next
  case (SetLabels s k b)
  then show ?thesis
    by (auto simp: serve_stock_def handle_set_label_def split: option.splits sum.splits label_error.splits prod.splits)
next
  case (DropLabel s k)
  then show ?thesis
    by (auto simp: serve_stock_def handle_delete_label_def split: option.splits sum.splits label_error.splits prod.splits)
next
  case (SetStyle k b)
  then show ?thesis
    by (auto simp: serve_stock_def handle_set_style_def set_style_def split: option.splits sum.splits if_splits)
next
  case (DropStyle k)
  then show ?thesis
    by (auto simp: serve_stock_def handle_delete_style_def delete_style_def split: option.splits sum.splits label_error.splits if_splits)
next
  case (CreateGroup b)
  then show ?thesis
    by (auto simp: serve_stock_def handle_create_group_def create_group_def Let_def
        split: option.splits sum.splits group_error.splits if_splits)
next
  case (RenameGroup g b)
  then show ?thesis
    by (auto simp: serve_stock_def handle_rename_group_def rename_group_def Let_def split: option.splits sum.splits if_splits)
next
  case (DropGroup g)
  then show ?thesis
    by (auto simp: serve_stock_def handle_delete_group_def delete_group_def clear_group_def split: option.splits sum.splits if_splits)
next
  case (MoveSystem s g)
  then show ?thesis
    by (auto simp: serve_stock_def handle_set_group_def set_group_def update_host_def split: option.splits sum.splits if_splits)
qed

lemma fire_triggers_sound:
  assumes "slots_sound w" "cd_slots w' = cd_slots w"
  shows "slots_sound (fire_triggers w w')"
proof -
  have at: "host_at j (fire_triggers w w') = host_at j w'" "group_at j (fire_triggers w w') = group_at j w'" for j
    by (simp_all add: fire_triggers_def host_at_def group_at_def)
  have d: "distinct (map cs_id (cd_slots (fire_triggers w w')))"
    "distinct (map (\<lambda>s. (cs_kind s, cs_scope s)) (cd_slots (fire_triggers w w')))"
    using assms by (simp_all add: fire_triggers_def slots_sound_def distinct_map_delete_where)
  have s: "set (cd_slots (fire_triggers w w')) = {s \<in> set (cd_slots w).
      \<not> (cs_kind s = scope_system \<and> host_at (cs_scope s) w \<noteq> None \<and> host_at (cs_scope s) w' = None
         \<or> cs_kind s = scope_group \<and> group_at (cs_scope s) w \<noteq> None \<and> group_at (cs_scope s) w' = None)}"
    using assms(2) by (simp add: fire_triggers_def)
  have "\<forall>s \<in> set (cd_slots (fire_triggers w w')). validate_slot s = Inr () \<and> (cs_kind s = scope_system \<longrightarrow> host_at (cs_scope s) w' \<noteq> None) \<and>
         (cs_kind s = scope_group \<longrightarrow> group_at (cs_scope s) w' \<noteq> None)"
    using assms(1) unfolding slots_sound_def s by auto
  then show ?thesis using d unfolding slots_sound_def at by simp
qed

text \<open>What a request leaves, with the triggers of the database.\<close>

definition vault_sound :: "'a vault_db_scheme \<Rightarrow> bool" where
  "vault_sound w = (stock_sound w \<and> slots_sound w)"

lemma triggers_stock: "stock_sound (fire_triggers w w') = stock_sound w'"
  by (rule sound_cong) (simp add: same_tables_def fire_triggers_def)

lemma upsert_slot_rest: "upsert_slot i now s0 w = Inr (n, v) \<Longrightarrow> same_tables v w"
  by (auto simp: upsert_slot_def Let_def same_tables_def split: sum.splits slot_error.splits if_splits)

lemma same_tables_logged: "same_tables v w \<Longrightarrow> same_tables (fleet_log e v) w"
  by (simp add: same_tables_def fleet_log_def)

lemma respond_same_tables:
  "same_tables (snd (respond_put K actor rid now k t b w)) w" "same_tables (snd (respond_delete actor k t w)) w"
proof -
  show "same_tables (snd (respond_put K actor rid now k t b w)) w"
    by (rule respond_put_cases, rule same_tables_logged, erule upsert_slot_rest) (simp add: same_tables_def)
  show "same_tables (snd (respond_delete actor k t w)) w"
    by (simp add: respond_delete_def delete_slot_def same_tables_def fleet_log_def del: count_where_0)
qed

lemma credentials_same_tables: "same_tables (snd (serve_credentials K sc actor rid now q w)) w"
  by (cases q) (auto simp: serve_credentials_def respond_same_tables split: sum.splits)

text \<open>
  C30: in every sequence of requests to the inventory and to the credentials, by any users, the
  tables stay sound together: when a system or a group is deleted its credentials go with it, so that
  no private key is left behind for a scope that does not exist.
\<close>

theorem no_credential_outlives_its_scope:
  assumes "vault_sound w"
  shows "vault_sound (fold (\<lambda>(K, sc, actor, i, now, q). serve_vault K sc actor i now q) qs w)"
  using assms
proof (induction qs arbitrary: w)
  case (Cons q qs)
  obtain K sc actor i now x where q: "q = (K, sc, actor, i, now, x)" by (cases q) auto
  have "vault_sound (serve_vault K sc actor i now x w)"
  proof (cases x)
    case (StockRoute y)
    have "stock_sound (snd (serve_stock sc actor i now y w))"
      using serve_keeps [of w sc actor i now y] Cons.prems by (metis kept_def prod.collapse vault_sound_def)
    moreover have "slots_sound (fire_triggers w (snd (serve_stock sc actor i now y w)))"
      using Cons.prems by (intro fire_triggers_sound) (simp_all add: vault_sound_def serve_stock_slots)
    ultimately show ?thesis by (simp add: StockRoute serve_vault_def vault_sound_def triggers_stock)
  next
    case (CredRoute y)
    have "slots_sound (snd (serve_credentials K sc actor i now y w))"
      using serve_credentials_keeps [of w sc K actor i now y] Cons.prems by (simp add: slots_kept_def vault_sound_def)
    moreover have "stock_sound (snd (serve_credentials K sc actor i now y w))"
      using sound_cong [OF credentials_same_tables] Cons.prems by (metis vault_sound_def)
    ultimately show ?thesis by (simp add: CredRoute serve_vault_def vault_sound_def)
  qed
  then show ?case using Cons.IH by (simp add: q)
qed simp

section \<open>The key that is used\<close>

lemma merge_slot_error: "merge_slot K k i q old = Inl r \<Longrightarrow> fst r \<noteq> 200"
  by (auto simp: merge_slot_def Let_def failed_def failed_with_def split: option.splits sum.splits if_splits)

text \<open>
  C32: a private key uploaded for a system is the one its runs connect with: when the vault opens what it
  has sealed, the slot on record and every resolution for the system open to the very text that was
  uploaded, with the public key derived from it.
\<close>

theorem uploaded_key_is_used:
  assumes "\<forall>p s. ke_seal K p = Inr s \<longrightarrow> open_key s = Some p \<and> sk_cipher s \<noteq> []" "slots_sound w"
    and "serve_credentials (Some K) sc actor rid now
      (PutSystemSlot i (Some \<lparr>sr_user = u, sr_key = Some \<lparr>ki_origin = origin_supplied, ki_pem = pem\<rparr>, sr_clear = c\<rparr>)) w = ((200, b), w')"
  shows "(\<exists>s. get_slot scope_system i w' = Inr s \<and> open_key (cs_private s) = Some pem \<and> ke_parse K pem = Inr (cs_public s)) \<and>
    (\<forall>g r. resolve_credentials i g w' = Inr r \<longrightarrow> open_key (re_private r) = Some pem \<and> re_key_source r = scope_system)"
proof (intro conjI allI impI)
  let ?q = "\<lparr>sr_user = u, sr_key = Some \<lparr>ki_origin = origin_supplied, ki_pem = pem\<rparr>, sr_clear = c\<rparr>"
  have ogs: "origin_supplied \<noteq> origin_generated" by (simp add: origin_supplied_def origin_generated_def)
  from assms(3) have "respond_put (Some K) actor rid now scope_system i (Some ?q) w = ((200, b), w')"
    by (auto simp: serve_credentials_def open_system_def load_system_def failed_def split: sum.splits if_splits)
  then obtain old m n v where m: "merge_slot (Some K) scope_system i ?q old = Inr m" and un: "upsert_slot rid now m w = Inr (n, v)"
    and w': "cd_slots w' = cd_slots v"
    by (auto simp: respond_put_def failed_def failed_with_def dest: merge_slot_error split: sum.splits slot_error.splits)
  from m ogs obtain pub s where ps: "ke_parse K pem = Inr pub" "ke_seal K pem = Inr s"
    and mm: "cs_kind m = scope_system" "cs_scope m = i" "cs_public m = pub" "cs_private m = s"
    by (auto simp: merge_slot_def materialize_key_def Let_def split: sum.splits if_splits option.splits)
  have opens: "open_key s = Some pem" "\<not> sealed_zero s" using assms(1) ps(2) by (auto simp: sealed_zero_def)
  obtain j c where n: "n = m\<lparr>cs_user := trim_space (cs_user m), cs_id := j, cs_created := c, cs_updated := now\<rparr>"
    and vn: "validate_slot n = Inr ()"
    and v: "v = w\<lparr>cd_slots := put_slot (n\<lparr>cs_private := stored_key (cs_private n)\<rparr>) (cd_slots w)\<rparr>"
    by (rule upsert_slot_spec [OF assms(2) un])
  define row where "row = n\<lparr>cs_private := stored_key (cs_private n)\<rparr>"
  have f: "find (at_scope scope_system i) (cd_slots v) = Some row"
    by (simp add: v find_put_slot row_def n mm)
  have i: "i \<noteq> []" "pub \<noteq> []" using vn opens(2) by (auto simp: validate_slot_def n mm split: if_splits)
  have r: "cs_private row = s" "cs_public row = pub" "cs_kind row = scope_system" "has_key row"
    using opens(2) i(2) by (simp_all add: row_def n mm stored_key_def has_key_def)
  have "get_slot scope_system i w' = Inr row" by (simp add: get_slot_def w' f scope_valid_def)
  then show "\<exists>s. get_slot scope_system i w' = Inr s \<and> open_key (cs_private s) = Some pem \<and> ke_parse K pem = Inr (cs_public s)"
    using r opens(1) ps(1) by auto
  fix g r
  assume r': "resolve_credentials i g w' = Inr r"
  have "find has_key (slots_seen i g w') = Some row"
    using r(4) by (simp add: slots_seen_chain scope_chain_def map_filter_simps w' f)
  then have "(re_public x, re_private x, re_key_source x, re_origin x) = (pub, s, scope_system, cs_origin row)"
    if "x = fold take_slot (slots_seen i g w') nothing_resolved" for x
    using r unfolding that fold_key by (simp add: nothing_resolved_def)
  with r' resolve_fold [OF i(1), of g w'] opens(1)
  show "open_key (re_private r) = Some pem" "re_key_source r = scope_system"
    by (auto simp: Let_def split: if_splits)
qed

section \<open>Witnesses\<close>

definition demo_key :: "string \<Rightarrow> slot" where
  "demo_key x = no_slot\<lparr>cs_id := x, cs_kind := scope_system, cs_scope := x, cs_public := ''pub'', cs_private :=
     \<lparr>sk_cipher = ''c'', sk_nonce = ''n'', sk_version = 1\<rparr>, cs_origin := origin_supplied\<rparr>"

definition demo_vault :: vault_db where
  "demo_vault = \<lparr>hd_hosts = hd_hosts demo_stock, ld_locks = [], ud_defs = [], ud_avail = [], ud_runs = [], rd_exclusions = [],
     rd_holds = [], fd_audit = [], fd_notes = [], xd_defs = [], xd_rows = [], xd_modes = [], xd_runs = [],
     gd_groups = gd_groups demo_stock, iv_labels = iv_labels demo_stock, iv_styles = iv_styles demo_stock,
     cd_slots = [demo_key ''s'', demo_key ''t'', no_slot\<lparr>cs_id := ''u'', cs_kind := scope_global, cs_user := ''ops''\<rparr>]\<rparr>"

definition demo_env :: key_env where
  "demo_env = \<lparr>ke_generate = Inr (''pub'', ''pem''), ke_parse = (\<lambda>p. Inr (''pub'' @ p)),
     ke_seal = (\<lambda>p. Inr \<lparr>sk_cipher = CHR ''x'' # p, sk_nonce = [], sk_version = 1\<rparr>)\<rparr>"

definition group_admin :: scope where
  "group_admin = \<lparr>sc_user = ''bob'', sc_rows = [], sc_global = [], sc_groups = [(''g'', role_admin)]\<rparr>"

lemma demo_vault_sound: "vault_sound demo_vault"
proof -
  have "stock_sound demo_vault = stock_sound demo_stock" by (rule sound_cong) (simp add: same_tables_def demo_vault_def)
  moreover have "distinct (map cs_id (cd_slots demo_vault)) \<and> distinct (map (\<lambda>s. (cs_kind s, cs_scope s)) (cd_slots demo_vault))"
    by code_simp
  moreover have "list_all (\<lambda>s. validate_slot s = Inr () \<and> (cs_kind s = scope_system \<longrightarrow> host_at (cs_scope s) demo_vault \<noteq> None) \<and>
      (cs_kind s = scope_group \<longrightarrow> group_at (cs_scope s) demo_vault \<noteq> None)) (cd_slots demo_vault)"
    by code_simp
  ultimately show ?thesis using demo_stock_sound by (simp add: vault_sound_def slots_sound_def list_all_iff)
qed

lemma credential_requests_keep_to_their_scope_witness:
  "slots_sound (snd (serve_credentials None group_admin ''bob'' ''x'' 5 (DeleteSystemSlot ''s'') demo_vault)) \<and>
   find (at_scope scope_system ''t'') (cd_slots (snd (serve_credentials None group_admin ''bob'' ''x'' 5 (DeleteSystemSlot ''s'') demo_vault)))
     = Some (demo_key ''t'')"
proof -
  have s: "slots_sound demo_vault" using demo_vault_sound by (simp add: vault_sound_def)
  have "\<not> manages_slot group_admin demo_vault scope_system ''t''"
    "find (at_scope scope_system ''t'') (cd_slots demo_vault) = Some (demo_key ''t'')" by code_simp+
  then show ?thesis
    using credential_requests_keep_to_their_scope [OF s prod.collapse [symmetric], of None group_admin "''bob''" "''x''" 5
      "DeleteSystemSlot ''s''"] by metis
qed

lemma no_credential_outlives_its_scope_witness:
  "vault_sound (serve_vault None admin_scope ''ann'' ''x'' 5 (StockRoute (DeleteSystem ''s'')) demo_vault) \<and>
   find (at_scope scope_system ''s'') (cd_slots (serve_vault None admin_scope ''ann'' ''x'' 5 (StockRoute (DeleteSystem ''s'')) demo_vault)) = None"
proof
  show "vault_sound (serve_vault None admin_scope ''ann'' ''x'' 5 (StockRoute (DeleteSystem ''s'')) demo_vault)"
    using no_credential_outlives_its_scope [OF demo_vault_sound,
      of "[(None, admin_scope, ''ann'', ''x'', 5, StockRoute (DeleteSystem ''s''))]"] by simp
  show "find (at_scope scope_system ''s'') (cd_slots (serve_vault None admin_scope ''ann'' ''x'' 5 (StockRoute (DeleteSystem ''s'')) demo_vault)) = None"
    by code_simp
qed

lemma uploaded_key_is_used_witness:
  "\<exists>w' s. serve_credentials (Some demo_env) group_admin ''bob'' ''x'' 5 (PutSystemSlot ''s'' (Some \<lparr>sr_user = None,
       sr_key = Some \<lparr>ki_origin = origin_supplied, ki_pem = ''mine''\<rparr>, sr_clear = False\<rparr>)) demo_vault = w' \<and>
     get_slot scope_system ''s'' (snd w') = Inr s \<and> Some (tl (sk_cipher (cs_private s))) = Some ''mine''"
proof -
  let ?q = "PutSystemSlot ''s'' (Some \<lparr>sr_user = None, sr_key = Some \<lparr>ki_origin = origin_supplied, ki_pem = ''mine''\<rparr>, sr_clear = False\<rparr>)"
  let ?r = "serve_credentials (Some demo_env) group_admin ''bob'' ''x'' 5 ?q demo_vault"
  have s: "slots_sound demo_vault" using demo_vault_sound by (simp add: vault_sound_def)
  have k: "\<forall>p s. ke_seal demo_env p = Inr s \<longrightarrow> (\<lambda>s. Some (tl (sk_cipher s))) s = Some p \<and> sk_cipher s \<noteq> []"
    by (simp add: demo_env_def)
  have "fst (fst ?r) = 200" by code_simp
  then have "?r = ((200, snd (fst ?r)), snd ?r)" by (metis prod.collapse)
  from uploaded_key_is_used [OF k s this] show ?thesis by metis
qed

end
