(* ===== verification/Spec2Isabelle.thy ===== *)
theory Spec2Isabelle
  imports Labels SqlText LabelStore SecondFactor ScheduleClaims AlertClaims AlertServer Gate NotifyProps FleetClaims
    UpdaterServer ExporterServer RuleServer InventoryProps CredentialClaims
begin

text \<open>
  \<^bold>\<open>System Wrangler, the backend.\<close> The server keeps an inventory of systems, runs Ansible playbooks on
  them over SSH (updaters, exporters, scheduled tasks), evaluates alert rules against Prometheus and
  sends notifications. It is one process over one SQLite database: HTTP handlers behind a session and role
  middleware, one store per package, and background loops (probe, scheduler, alert evaluator,
  flusher), wired together in \<open>cmd/server/main.go\<close>.

  \<^bold>\<open>How the code is represented.\<close> A struct is a record, an enumeration a string constant or a datatype, a
  pair of value and error the sum \<open>('e, 'a) result\<close> whose \<open>Inl\<close> lists the sentinel errors, a
  panic a value of its own. Strings are byte lists, as in Go. A table is the list of its rows; the
  records of the databases extend one another (\<open>host_db\<close>, \<open>lock_db\<close>, \<open>updater_db\<close>, \<open>rules_db\<close>,
  \<open>fleet_db\<close>, \<open>site_db\<close>, \<open>group_db\<close>, \<open>stock_db\<close>, \<open>vault_db\<close>), so that an operation of one package works on the
  database of the whole. A statement that fails for a reason of its own (a full disk) is modelled where
  the code does something with it (the runners only log a \<open>FinishRun\<close> that fails and drop the error of
  \<open>ReleaseLock\<close>: both are inputs of their steps), and left out elsewhere. A handler is a function from the request, with
  its decoded body (None where JSON decoding fails), to the reply and the database. A long operation
  that other requests can interleave with is a list of atomic steps (\<open>run_step\<close>, \<open>export_step\<close>,
  \<open>fire_start\<close> and \<open>fire_finish\<close>, the critical sections of the gate), and its executions are an inductive
  relation. Every definition computes.

  \<^bold>\<open>Theories and sources.\<close>
  \<^item> \<open>Prelude\<close>, \<open>GoStrings\<close>: results, tables as lists, maps as association lists; the functions of
    \<open>strings\<close> and \<open>strconv\<close> the program calls. \<open>Calendar\<close>, \<open>Instants\<close>: civil time.
  \<^item> \<open>Labels\<close>, \<open>Selector\<close>, \<open>SqlText\<close>, \<open>LabelStore\<close>: \<open>internal/labels\<close> (keys, values, the selector
    language with its parser, evaluation and SQL text, a reader of that text, both stores).
    \<open>Targeting\<close>: \<open>internal/targeting\<close>.
  \<^item> \<open>Cron\<close>, \<open>CronZone\<close>, \<open>Schedules\<close>, \<open>ScheduleServer\<close>, \<open>ScheduleProps\<close>, \<open>ScheduleClaims\<close>: \<open>internal/schedules\<close>.
  \<^item> \<open>AuthStore\<close>, \<open>Tokens\<close>, \<open>Sessions\<close>, \<open>Throttle\<close>, \<open>AuthFlow\<close>, \<open>UserAdmin\<close>, \<open>AuthProps\<close>,
    \<open>SecondFactor\<close>: \<open>internal/auth\<close>; \<open>Rbac\<close>: \<open>internal/rbac\<close>; \<open>Api\<close>: both as one system of routes;
    \<open>AuditLog\<close>: the rows of \<open>internal/audit\<close>.
  \<^item> \<open>Settings\<close>: \<open>internal/settings\<close> and the levels of \<open>internal/logging\<close>.
  \<^item> \<open>Alerts\<close>, \<open>AlertServer\<close>, \<open>AlertProps\<close>, \<open>AlertClaims\<close>: \<open>internal/alerts\<close>.
  \<^item> \<open>Delivery\<close>, \<open>NotifyStore\<close>, \<open>Dispatch\<close>, \<open>DispatchProps\<close>, \<open>NotifyServer\<close>, \<open>NotifyProps\<close>,
    \<open>NotifyClaims\<close>: \<open>internal/notifications\<close>.
  \<^item> \<open>Hosts\<close>: the stores of \<open>internal/systems\<close> and the counters of its probe; \<open>SystemGroups\<close>:
    \<open>internal/groups\<close>; \<open>InventoryServer\<close>, \<open>InventoryProps\<close>: the routes of systems, labels, styles and
    groups, and the cycle of the probe. \<open>Credentials\<close>, \<open>CredentialClaims\<close>: \<open>internal/credentials\<close>, the slots
    of SSH users and keys, with the triggers that tie them to systems and groups.
  \<^item> \<open>UpdaterStore\<close>, \<open>Playbook\<close>, \<open>UpdaterRunner\<close>, \<open>UpdaterServer\<close>, \<open>UpdaterProps\<close>, \<open>UpdaterClaims\<close>,
    \<open>Gate\<close>: \<open>internal/updaters\<close>; \<open>Exclusions\<close>, \<open>RuleServer\<close>: \<open>internal/exclusions\<close> and \<open>internal/holds\<close>;
    \<open>Exporters\<close>, \<open>ExporterRunner\<close>, \<open>ExporterServer\<close>: \<open>internal/exporters\<close>; \<open>FleetRoutes\<close>: what their
    routes share.
  \<^item> \<open>Locker\<close>, \<open>Fleet\<close>, \<open>FleetClaims\<close>: the runs of both runners interleaved with each other, with the
    deletion of systems and with all other requests, from the start-up that closes what a previous
    process left open.

  \<^bold>\<open>Interfaces.\<close> A contract between a client and its provider is a locale, the lemmas of the client are
  proved in it, and it is interpreted on the model of the code: \<open>label_store\<close> (both label stores),
  \<open>session_store\<close> (the session table, for the middleware), \<open>setting_store\<close> (the settings table, for the
  accessors), \<open>instance_store\<close> and \<open>sound_store\<close> (the alert instances, for the evaluator), \<open>notify_store\<close>
  (the notification tables, for dispatcher and flusher), \<open>host_store\<close> and \<open>group_store\<close> (the SQLite and the
  in-memory store of each), \<open>lock_client\<close> (the lock on a system, for the updater runner, the exporter
  runner and both together).

  \<^bold>\<open>What is shown.\<close> Access: a scope permits what some assignment grants, requests escalate no role, a request
  acts as a user exactly with a live session or a trusted proxy header, sessions need the credentials the
  account calls for; schedules, exclusion rules, notification rows, credentials and everything in the inventory
  are changed only by users whose roles allow it. Integrity: the role table, the schedules, the notification
  tables, the exclusion rules and the inventory stay sound in every execution of their routes. Time:
  the search for the next fire time returns a match in every zone, and in a zone whose offset never changes the
  first one, whenever there is one; there a wake-up dispatches exactly what is due. Where a clock is set back the
  search can stand still, which is shown too, with what the scheduler then does. Quiet hours are the union of the
  occurrences of their windows. Alerts: the
  evaluator refines the life cycle of an alert, and an alert fires exactly when its breach has held. Runs: at
  most one call works on a system, an idle server has no lock and no open run but those of statements that
  failed, an inspection reconciles the detected updaters, an apply carries every exclusion it could read, the
  history keeps the newest. Parsing: selectors round-trip, and their SQL text, read as SQL, agrees with
  them. Credentials: user and key come from the most specific scope that has them, an uploaded key is the one the runs use, and no slot outlives its
  system or group. Stores: the implementations of an interface are interchangeable. Some theorems record where the code departs from what its comments promise.

  \<^bold>\<open>Bounds.\<close> The search of \<open>Next\<close> runs as often as the code allows, 4 * 366 * 24 iterations, and is shown to
  need no more where the offset is constant. A call of a runner takes at most seven steps. A zone is an
  arbitrary function from the instant to the offset, in whole minutes; the theorems that need it constant say
  so (\<open>\<lambda>_. off\<close>, \<open>steady\<close>). A \<open>float64\<close> of an alert is a
  rational, an infinity or not a number. Instants are unbounded integers of nanoseconds: they do not
  overflow 64 bits before the year 2262.

  \<^bold>\<open>Parameters.\<close> Code outside the repository is an argument of the definitions that use it: bcrypt, HMAC-SHA256,
  the code of a TOTP time step, the vault, the generators of ids, keys and secrets, the JSON codec, the zone
  database, the number parser, the answers of Prometheus, the outcome of an Ansible process, the transports
  of the notifications, the playbook files embedded in the binary.

  \<^bold>\<open>Not modelled.\<close> The vault and host keys (\<open>internal/secrets\<close>, \<open>hostkeys\<close>, \<open>secretscan\<close>): their
  core is cryptography and the SSH handshake. \<open>internal/ansible\<close>: the construction of a
  process with its temporary files; its results are inputs here. Single sign-on (\<open>oidc.go\<close>) and the CSRF
  check: HTTP exchanges and headers. The queries of the audit log, the count of labels
  (\<open>GET /api/labels\<close>), backup, dashboards, the targets and the proxy of Prometheus, events over SSE, the
  SSH proxy, the API description, build information: I/O, SQL text or glue without state of their own.
  Column migrations and the JSON encoding of replies throughout.
\<close>

end
